(* ===== verification/Go_Prelude.thy ===== *)
theory Go_Prelude
  imports Main "HOL-Library.Sublist" "HOL-Library.Signed_Division" "HOL-Library.Multiset"
    "HOL-Library.Char_ord" "HOL-Library.List_Lexorder"
begin

text \<open>
  Shared vocabulary of the development: Go's 64-bit integers with their wrap-around, the
  functions of package \<^verbatim>\<open>strings\<close> that the services call, decimal printing, Go maps used as
  accumulators, and the generic lemmas the component theories rest on.

  Integers. A Go \<^verbatim>\<open>int64\<close> is an \<open>int\<close> in the range \<open>in64\<close>; every addition, subtraction,
  multiplication and negation of the source is written with \<open>add64\<close>, \<open>sub64\<close>, \<open>mul64\<close>,
  \<open>neg64\<close>, which reduce into that range as two's complement does. Division truncates
  towards zero (\<open>sdiv\<close>).

  Strings. A Go string is a sequence of bytes, an Isabelle \<open>string\<close> (a \<open>char\<close> is a byte).
  \<open>TrimSpace\<close> removes every UTF-8 encoded white-space rune, as the Go library does; the
  case conversions act on the ASCII letters, which are the only letters that occur in the
  rule packs, catalogues and headers the services compare against.
\<close>

named_theorems go_arith \<comment> \<open>definitions of the 64-bit operations\<close>
named_theorems go_bounds \<comment> \<open>range facts of the 64-bit operations\<close>

section \<open>64-bit integers\<close>

type_synonym int64 = int

definition in64 :: "int \<Rightarrow> bool" where
  "in64 x \<longleftrightarrow> - (2 ^ 63) \<le> x \<and> x < 2 ^ 63"

definition wrap64 :: "int \<Rightarrow> int64" where
  "wrap64 x = (x + 2 ^ 63) mod 2 ^ 64 - 2 ^ 63"

definition add64 :: "int64 \<Rightarrow> int64 \<Rightarrow> int64" where
  [go_arith]: "add64 a b = wrap64 (a + b)"

definition sub64 :: "int64 \<Rightarrow> int64 \<Rightarrow> int64" where
  [go_arith]: "sub64 a b = wrap64 (a - b)"

definition mul64 :: "int64 \<Rightarrow> int64 \<Rightarrow> int64" where
  [go_arith]: "mul64 a b = wrap64 (a * b)"

definition neg64 :: "int64 \<Rightarrow> int64" where
  [go_arith]: "neg64 a = wrap64 (- a)"

definition quot64 :: "int64 \<Rightarrow> int64 \<Rightarrow> int64" where
  [go_arith]: "quot64 a b = wrap64 (a sdiv b)"

lemma wrap64_id: "in64 x \<Longrightarrow> wrap64 x = x"
  by (simp add: in64_def wrap64_def)

lemma in64_wrap64 [simp, go_bounds]: "in64 (wrap64 x)"
proof -
  have "0 \<le> (x + 2 ^ 63) mod 2 ^ 64" and "(x + 2 ^ 63) mod 2 ^ 64 < 2 ^ 64"
    by simp_all
  then show ?thesis by (simp add: in64_def wrap64_def)
qed

lemma wrap64_cong: "wrap64 x = wrap64 y \<longleftrightarrow> x mod 2 ^ 64 = y mod 2 ^ 64"
proof -
  have "(x + 2 ^ 63) mod 2 ^ 64 = (y + 2 ^ 63) mod 2 ^ 64 \<longleftrightarrow> x mod 2 ^ 64 = y mod (2 ^ 64 :: int)"
    by (simp add: mod_eq_dvd_iff)
  then show ?thesis by (simp add: wrap64_def)
qed

lemma wrap64_mod: "wrap64 x mod 2 ^ 64 = x mod 2 ^ 64"
  by (simp add: wrap64_def mod_diff_left_eq)

lemma wrap64_eqI: "in64 y \<Longrightarrow> x mod 2 ^ 64 = y mod 2 ^ 64 \<Longrightarrow> wrap64 x = y"
  using wrap64_cong [of x y] wrap64_id [of y] by simp

lemma wrap64_add_left [simp]: "wrap64 (wrap64 x + y) = wrap64 (x + y)"
  unfolding wrap64_cong by (metis mod_add_left_eq wrap64_mod)

lemma wrap64_add_right [simp]: "wrap64 (x + wrap64 y) = wrap64 (x + y)"
  using wrap64_add_left [of y x] by (simp add: add.commute)

lemma wrap64_diff_left [simp]: "wrap64 (wrap64 x - y) = wrap64 (x - y)"
  unfolding wrap64_cong by (metis mod_diff_left_eq wrap64_mod)

lemma wrap64_diff_right [simp]: "wrap64 (x - wrap64 y) = wrap64 (x - y)"
  unfolding wrap64_cong by (metis mod_diff_right_eq wrap64_mod)

lemma in64_ops [simp, go_bounds]:
  "in64 (add64 a b)" "in64 (sub64 a b)" "in64 (mul64 a b)" "in64 (neg64 a)" "in64 (quot64 a b)"
  by (simp_all add: go_arith)

lemma in64_0 [simp, go_bounds]: "in64 0"
  by (simp add: in64_def)

text \<open>Addition is associative and commutative also where it wraps.\<close>

lemma add64_assoc: "add64 (add64 a b) c = add64 a (add64 b c)"
  by (simp add: add64_def add.assoc)

lemma add64_comm: "add64 a b = add64 b a"
  by (simp add: add64_def add.commute)

lemma add64_0 [simp]: "in64 a \<Longrightarrow> add64 0 a = a" "in64 a \<Longrightarrow> add64 a 0 = a"
  by (simp_all add: add64_def wrap64_id)

lemma add64_exact: "in64 (a + b) \<Longrightarrow> add64 a b = a + b"
  by (simp add: add64_def wrap64_id)

lemma sub64_exact: "in64 (a - b) \<Longrightarrow> sub64 a b = a - b"
  by (simp add: sub64_def wrap64_id)

lemma mul64_exact: "in64 (a * b) \<Longrightarrow> mul64 a b = a * b"
  by (simp add: mul64_def wrap64_id)

text \<open>The running total of a Go loop \<^verbatim>\<open>for _, x := range xs { acc += f(x) }\<close>.\<close>

definition sum64 :: "('a \<Rightarrow> int64) \<Rightarrow> 'a list \<Rightarrow> int64" where
  "sum64 f xs = foldl (\<lambda>acc x. add64 acc (f x)) 0 xs"

lemma foldl_add64: "in64 acc \<Longrightarrow> foldl (\<lambda>acc x. add64 acc (f x)) acc xs = wrap64 (acc + (\<Sum>x\<leftarrow>xs. f x))"
proof (induction xs arbitrary: acc)
  case Nil
  then show ?case by (simp add: wrap64_id)
next
  case (Cons x xs)
  then show ?case by (simp add: add64_def add.assoc)
qed

lemma sum64_eq: "sum64 f xs = wrap64 (\<Sum>x\<leftarrow>xs. f x)"
  by (simp add: sum64_def foldl_add64)

lemma sum64_snoc: "sum64 f (xs @ [x]) = add64 (sum64 f xs) (f x)"
  by (simp add: sum64_def)

lemma sum64_exact: "in64 (\<Sum>x\<leftarrow>xs. f x) \<Longrightarrow> sum64 f xs = (\<Sum>x\<leftarrow>xs. f x)"
  by (simp add: sum64_eq wrap64_id)

lemma in64_sum64 [simp]: "in64 (sum64 f xs)"
  by (simp add: sum64_eq)

lemma sum64_perm: "mset xs = mset ys \<Longrightarrow> sum64 f xs = sum64 f ys"
  by (metis sum64_eq mset_map sum_mset_sum_list)

lemma int_div_le_self: "0 \<le> a \<Longrightarrow> 0 < b \<Longrightarrow> a div b \<le> (a :: int)"
  using zdiv_mono2 [of a 1 b] by simp

text \<open>Truncating division by a positive constant of a non-negative value is \<open>div\<close>.\<close>

lemma quot64_nonneg: "0 \<le> a \<Longrightarrow> 0 < b \<Longrightarrow> in64 a \<Longrightarrow> quot64 a b = a div b"
proof -
  assume a: "0 \<le> a" "0 < b" "in64 a"
  have "0 \<le> a div b" using a by (simp add: pos_imp_zdiv_nonneg_iff)
  moreover have "a div b \<le> a"
    using a by (simp add: int_div_le_self)
  ultimately have "in64 (a div b)" using a by (auto simp: in64_def)
  moreover have "a sdiv b = a div b"
    using a by (cases "a = 0") (simp_all add: signed_divide_int_def sgn_mult)
  ultimately show ?thesis by (simp add: quot64_def wrap64_id)
qed

section \<open>Totals over a Go map\<close>

text \<open>The total of a numeric reading of the values of a map.\<close>

definition msum :: "('v \<Rightarrow> int) \<Rightarrow> ('k \<rightharpoonup> 'v) \<Rightarrow> int" where
  "msum f m = (\<Sum>k\<in>dom m. case m k of None \<Rightarrow> 0 | Some v \<Rightarrow> f v)"

lemma msum_empty [simp]: "msum f Map.empty = 0"
  by (simp add: msum_def)

lemma msum_upd:
  assumes "finite (dom m)"
  shows "msum f (m(k \<mapsto> v)) = msum f m - (case m k of None \<Rightarrow> 0 | Some u \<Rightarrow> f u) + f v"
proof -
  let ?g = "\<lambda>m j. case m j of None \<Rightarrow> 0 | Some v \<Rightarrow> f v"
  have "(\<Sum>j\<in>dom m - {k}. ?g (m(k \<mapsto> v)) j) = (\<Sum>j\<in>dom m - {k}. ?g m j)"
    by (rule sum.cong) auto
  moreover have "(\<Sum>j\<in>dom m. ?g m j) = ?g m k + (\<Sum>j\<in>dom m - {k}. ?g m j)"
    using assms by (cases "k \<in> dom m") (auto simp: sum.remove domIff)
  moreover have "(\<Sum>j\<in>insert k (dom m). ?g (m(k \<mapsto> v)) j)
      = f v + (\<Sum>j\<in>dom m - {k}. ?g (m(k \<mapsto> v)) j)"
    using assms by (simp add: sum.insert_remove)
  ultimately show ?thesis by (simp add: msum_def)
qed

lemma msum_cong: "(\<And>k v. m k = Some v \<Longrightarrow> f v = g v) \<Longrightarrow> msum f m = msum g m"
  unfolding msum_def by (rule sum.cong) (auto split: option.splits)

section \<open>Results\<close>

text \<open>A Go call returning \<^verbatim>\<open>(T, error)\<close>: \<open>Inl\<close> is the error, \<open>Inr\<close> the value.\<close>

fun is_ok :: "'e + 'a \<Rightarrow> bool" where
  "is_ok (Inl _) = False"
| "is_ok (Inr _) = True"

lemma is_ok_iff: "is_ok r \<longleftrightarrow> (\<exists>v. r = Inr v)"
  by (cases r) auto

section \<open>Strings\<close>

text \<open>The UTF-8 encodings of the runes that \<^verbatim>\<open>unicode.IsSpace\<close> accepts.\<close>

definition space_seqs :: "string list" where
  "space_seqs =
     map (\<lambda>n::nat. [char_of n]) [9, 10, 11, 12, 13, 32] @
     map (map (char_of :: nat \<Rightarrow> char))
       ([[0xC2, 0x85], [0xC2, 0xA0], [0xE1, 0x9A, 0x80]] @
        map (\<lambda>b. [0xE2, 0x80, b]) ([0x80 ..< 0x8B] @ [0xA8, 0xA9, 0xAF]) @
        [[0xE2, 0x81, 0x9F], [0xE3, 0x80, 0x80]])"

fun strip_prefix :: "'a list \<Rightarrow> 'a list \<Rightarrow> 'a list option" where
  "strip_prefix [] s = Some s"
| "strip_prefix (x # p) (y # s) = (if x = y then strip_prefix p s else None)"
| "strip_prefix (x # p) [] = None"

lemma strip_prefix_Some: "strip_prefix p s = Some r \<longleftrightarrow> s = p @ r"
  by (induction p s rule: strip_prefix.induct) auto

lemma strip_prefix_None: "strip_prefix p s = None \<longleftrightarrow> \<not> prefix p s"
  by (auto simp: prefix_def simp flip: strip_prefix_Some)

text \<open>Drop one leading element of a set of byte sequences, and all of them.\<close>

fun strip_any :: "'a list list \<Rightarrow> 'a list \<Rightarrow> 'a list option" where
  "strip_any [] s = None"
| "strip_any (p # ps) s = (case strip_prefix p s of Some r \<Rightarrow> Some r | None \<Rightarrow> strip_any ps s)"

lemma strip_any_Some: "strip_any ps s = Some r \<Longrightarrow> \<exists>p\<in>set ps. s = p @ r"
  by (induction ps) (auto split: option.splits simp: strip_prefix_Some)

lemma strip_any_None: "strip_any ps s = None \<longleftrightarrow> (\<forall>p\<in>set ps. \<not> prefix p s)"
  by (induction ps) (auto split: option.splits simp: strip_prefix_None strip_prefix_Some prefix_def)

function trim_with :: "'a list list \<Rightarrow> 'a list \<Rightarrow> 'a list" where
  "trim_with ps s =
     (case strip_any ps s of
        None \<Rightarrow> s
      | Some r \<Rightarrow> if length r < length s then trim_with ps r else s)"
  by pat_completeness auto
termination
  by (relation "measure (\<lambda>(ps, s). length s)") auto

declare trim_with.simps [simp del]

definition TrimSpace :: "string \<Rightarrow> string" where
  "TrimSpace s = rev (trim_with (map rev space_seqs) (rev (trim_with space_seqs s)))"

lemma trim_with_id: "\<forall>p\<in>set ps. \<not> prefix p s \<Longrightarrow> trim_with ps s = s"
  by (subst trim_with.simps) (simp add: strip_any_None [THEN iffD2])

lemma trim_with_none:
  "[] \<notin> set ps \<Longrightarrow> p \<in> set ps \<Longrightarrow> \<not> prefix p (trim_with ps s)"
proof (induction ps s rule: trim_with.induct)
  case (1 ps s)
  show ?case
  proof (cases "strip_any ps s")
    case None
    then have "trim_with ps s = s"
      by (intro trim_with_id) (simp add: strip_any_None)
    with None "1.prems" show ?thesis by (simp add: strip_any_None)
  next
    case (Some r)
    then obtain q where q: "q \<in> set ps" "s = q @ r"
      using strip_any_Some by blast
    with "1.prems" have "length r < length s" by (cases q) auto
    with Some have "trim_with ps s = trim_with ps r"
      by (subst trim_with.simps) simp
    with "1.IH" [OF Some \<open>length r < length s\<close>] "1.prems" show ?thesis by simp
  qed
qed

lemma trim_with_suffix: "suffix (trim_with ps s) s"
proof (induction ps s rule: trim_with.induct)
  case (1 ps s)
  show ?case
  proof (cases "strip_any ps s")
    case None
    then show ?thesis by (subst trim_with.simps) simp
  next
    case (Some r)
    then have "suffix r s" using strip_any_Some by (force simp: suffix_def)
    then show ?thesis
      using "1.IH" [OF Some] Some
      by (subst trim_with.simps) (auto intro: suffix_order.trans)
  qed
qed

lemma space_seqs_nonempty [simp]: "[] \<notin> set space_seqs"
  by (auto simp: space_seqs_def)

text \<open>A trimmed string has no white space at its ends, and trimming is idempotent.\<close>

definition trimmed :: "string \<Rightarrow> bool" where
  "trimmed s \<longleftrightarrow> (\<forall>p\<in>set space_seqs. \<not> prefix p s \<and> \<not> suffix p s)"

lemma trim_rev_id: "\<forall>p\<in>set space_seqs. \<not> suffix p s \<Longrightarrow> trim_with (map rev space_seqs) (rev s) = rev s"
  by (rule trim_with_id) (auto simp flip: suffix_to_prefix)

lemma TrimSpace_id: "trimmed s \<Longrightarrow> TrimSpace s = s"
  by (simp add: TrimSpace_def trimmed_def trim_with_id trim_rev_id)

lemma rev_trim_with_prefix: "prefix (rev (trim_with ps (rev t))) t"
  using trim_with_suffix [of ps "rev t"] by (metis rev_rev_ident suffix_to_prefix)

lemma trimmed_TrimSpace: "trimmed (TrimSpace s)"
proof -
  let ?t = "trim_with space_seqs s"
  let ?u = "TrimSpace s"
  have pre: "prefix ?u ?t"
    unfolding TrimSpace_def by (rule rev_trim_with_prefix)
  have "\<not> prefix p ?u" if "p \<in> set space_seqs" for p
    using trim_with_none [OF space_seqs_nonempty that] pre prefix_order.trans by blast
  moreover have "\<not> suffix p ?u" if "p \<in> set space_seqs" for p
  proof -
    have "\<not> prefix (rev p) (trim_with (map rev space_seqs) (rev ?t))"
      using that by (intro trim_with_none) (auto simp: image_iff)
    then show ?thesis by (simp add: TrimSpace_def suffix_to_prefix)
  qed
  ultimately show ?thesis by (simp add: trimmed_def)
qed

lemma TrimSpace_idem [simp]: "TrimSpace (TrimSpace s) = TrimSpace s"
  by (rule TrimSpace_id [OF trimmed_TrimSpace])

text \<open>Strings of printable ASCII characters are their own trimming.\<close>

definition printable :: "char \<Rightarrow> bool" where
  "printable c \<longleftrightarrow> 33 \<le> (of_char c :: nat) \<and> (of_char c :: nat) \<le> 126"

lemma space_seqs_unprintable: "\<forall>p\<in>set space_seqs. p \<noteq> [] \<and> list_all (\<lambda>c. \<not> printable c) p"
  by (simp add: space_seqs_def printable_def)

lemma TrimSpace_printable: "list_all printable s \<Longrightarrow> TrimSpace s = s"
proof (rule TrimSpace_id)
  assume s: "list_all printable s"
  have "\<not> set p \<subseteq> set s" if "p \<in> set space_seqs" for p
    using bspec [OF space_seqs_unprintable that] s by (cases p) (auto simp: list_all_iff)
  then show "trimmed s" unfolding trimmed_def by (meson set_mono_prefix set_mono_suffix)
qed

lemma TrimSpace_Nil [simp]: "TrimSpace [] = []"
  by (rule TrimSpace_id) (auto simp: trimmed_def)

text \<open>A string with printable ends is its own trimming, and leading blanks are dropped one by one.\<close>

lemma TrimSpace_ends: "s \<noteq> [] \<Longrightarrow> printable (hd s) \<Longrightarrow> printable (last s) \<Longrightarrow> TrimSpace s = s"
proof (rule TrimSpace_id)
  assume s: "s \<noteq> []" "printable (hd s)" "printable (last s)"
  have "\<not> prefix p s \<and> \<not> suffix p s" if "p \<in> set space_seqs" for p
  proof -
    from bspec [OF space_seqs_unprintable that] have "p \<noteq> []" "\<not> printable (hd p)" "\<not> printable (last p)"
      by (auto simp: list_all_iff)
    with s show ?thesis by (auto simp: prefix_def suffix_def)
  qed
  then show "trimmed s" by (simp add: trimmed_def)
qed

lemma TrimSpace_blank: "TrimSpace (CHR '' '' # s) = TrimSpace s"
proof -
  have "strip_any space_seqs (CHR '' '' # s) = Some s"
    by (simp add: space_seqs_def char_of_eq_iff)
  then have "trim_with space_seqs (CHR '' '' # s) = trim_with space_seqs s"
    by (subst trim_with.simps) simp
  then show ?thesis by (simp add: TrimSpace_def)
qed

lemma TrimSpace_length: "length (TrimSpace s) \<le> length s"
proof -
  have "length (TrimSpace s) \<le> length (trim_with space_seqs s)"
    using prefix_length_le [OF rev_trim_with_prefix [of "map rev space_seqs" "trim_with space_seqs s"]] by (simp add: TrimSpace_def)
  also have "\<dots> \<le> length s" using trim_with_suffix by (rule suffix_length_le)
  finally show ?thesis .
qed

definition HasPrefix :: "string \<Rightarrow> string \<Rightarrow> bool" where
  "HasPrefix s p \<longleftrightarrow> strip_prefix p s \<noteq> None"

definition HasSuffix :: "string \<Rightarrow> string \<Rightarrow> bool" where
  "HasSuffix s p \<longleftrightarrow> strip_prefix (rev p) (rev s) \<noteq> None"

lemma HasPrefix_iff: "HasPrefix s p \<longleftrightarrow> prefix p s"
  by (simp add: HasPrefix_def strip_prefix_None)

lemma HasSuffix_iff: "HasSuffix s p \<longleftrightarrow> suffix p s"
  by (simp add: HasSuffix_def strip_prefix_None suffix_to_prefix)

definition lower_char :: "char \<Rightarrow> char" where
  "lower_char c = (if 65 \<le> (of_char c :: nat) \<and> (of_char c :: nat) \<le> 90
                   then char_of ((of_char c :: nat) + 32) else c)"

definition upper_char :: "char \<Rightarrow> char" where
  "upper_char c = (if 97 \<le> (of_char c :: nat) \<and> (of_char c :: nat) \<le> 122
                   then char_of ((of_char c :: nat) - 32) else c)"

definition ToLower :: "string \<Rightarrow> string" where
  "ToLower = map lower_char"

definition ToUpper :: "string \<Rightarrow> string" where
  "ToUpper = map upper_char"

definition EqualFold :: "string \<Rightarrow> string \<Rightarrow> bool" where
  "EqualFold a b \<longleftrightarrow> ToLower a = ToLower b"

text \<open>\<^verbatim>\<open>strings.Split(s, sep)\<close> for a one-byte separator.\<close>

fun split_on :: "'a \<Rightarrow> 'a list \<Rightarrow> 'a list list" where
  "split_on c [] = [[]]"
| "split_on c (x # xs) =
     (if x = c then [] # split_on c xs
      else (case split_on c xs of [] \<Rightarrow> [[x]] | y # ys \<Rightarrow> (x # y) # ys))"

fun join :: "'a list \<Rightarrow> 'a list list \<Rightarrow> 'a list" where
  "join sep [] = []"
| "join sep [x] = x"
| "join sep (x # y # ys) = x @ sep @ join sep (y # ys)"

lemma split_on_nonempty [simp]: "split_on c xs \<noteq> []"
  by (induction xs) (auto split: list.splits)

lemma split_on_absent: "c \<notin> set xs \<Longrightarrow> split_on c xs = [xs]"
  by (induction xs) auto

lemma split_on_app: "c \<notin> set xs \<Longrightarrow> split_on c (xs @ c # ys) = xs # split_on c ys"
  by (induction xs) auto

lemma join_split_on: "join [c] (split_on c xs) = xs"
proof (induction xs)
  case Nil
  then show ?case by simp
next
  case (Cons x xs)
  then show ?case by (cases "split_on c xs"; cases "tl (split_on c xs)") auto
qed

text \<open>Digits and \<^verbatim>\<open>fmt.Sprintf("%d", n)\<close>.\<close>

definition isDigit :: "char \<Rightarrow> bool" where
  "isDigit c \<longleftrightarrow> 48 \<le> (of_char c :: nat) \<and> (of_char c :: nat) \<le> 57"

definition digit_val :: "char \<Rightarrow> nat" where
  "digit_val c = of_char c - 48"

definition digit_char :: "nat \<Rightarrow> char" where
  "digit_char d = char_of (48 + d)"

fun show_nat :: "nat \<Rightarrow> string" where
  "show_nat n = (if n < 10 then [digit_char n] else show_nat (n div 10) @ [digit_char (n mod 10)])"

declare show_nat.simps [simp del]

definition show_int :: "int \<Rightarrow> string" where
  "show_int i = (if i < 0 then CHR ''-'' # show_nat (nat (- i)) else show_nat (nat i))"

definition read_nat :: "string \<Rightarrow> nat" where
  "read_nat s = foldl (\<lambda>acc c. 10 * acc + digit_val c) 0 s"

lemma of_char_digit: "d < 10 \<Longrightarrow> (of_char (digit_char d) :: nat) = 48 + d"
  by (simp add: digit_char_def)

lemma digit_val_char [simp]: "d < 10 \<Longrightarrow> digit_val (digit_char d) = d"
  by (simp add: digit_val_def of_char_digit)

lemma isDigit_char [simp]: "d < 10 \<Longrightarrow> isDigit (digit_char d)"
  by (simp add: isDigit_def of_char_digit)

lemma read_show_nat [simp]: "read_nat (show_nat n) = n"
proof (induction n rule: show_nat.induct)
  case (1 n)
  then show ?case
    by (subst show_nat.simps) (auto simp: read_nat_def)
qed

lemma show_nat_inject [simp]: "show_nat m = show_nat n \<longleftrightarrow> m = n"
  by (metis read_show_nat)

lemma show_nat_digits: "list_all isDigit (show_nat n)"
proof (induction n rule: show_nat.induct)
  case (1 n)
  then show ?case by (subst show_nat.simps) auto
qed

lemma show_nat_nonempty [simp]: "show_nat n \<noteq> []"
  by (subst show_nat.simps) simp

text \<open>\<^verbatim>\<open>strings.SplitN(s, sep, 2)\<close> at the first separator.\<close>

fun split_first :: "'a \<Rightarrow> 'a list \<Rightarrow> ('a list \<times> 'a list) option" where
  "split_first c [] = None"
| "split_first c (x # xs) = (if x = c then Some ([], xs) else map_option (\<lambda>(a, b). (x # a, b)) (split_first c xs))"

lemma split_first_Some: "split_first c s = Some (a, b) \<longleftrightarrow> s = a @ c # b \<and> c \<notin> set a"
proof (induction s arbitrary: a)
  case (Cons x s)
  then show ?case by (cases a) auto
qed simp

lemma split_first_None: "split_first c s = None \<longleftrightarrow> c \<notin> set s"
  by (induction s) auto

section \<open>Answers of a handler\<close>

text \<open>A problem document with its status and title, or a body with its status.\<close>

datatype 'a response = Problem nat string | Reply nat 'a

end
