(* ===== verification/Pos_Store.thy ===== *)
theory Pos_Store
  imports Go_Prelude "HOL-Library.Word"
begin

text \<open>
  The durable store of the POS VAT service (\<^verbatim>\<open>services/pos-vat/store.go\<close>, the data types of
  \<^verbatim>\<open>types.go\<close>): receipts in memory with an append-only log under them, the group-commit
  policy, replay on boot, settlement markers, the store-and-forward spool, the idempotency
  cache and the in-process event bus.

  Files are part of the state: a log is the list of its lines, \<open>None\<close> for a line that does
  not decode, and \<open>durable\<close> counts the lines that a completed fsync covers. How the next file
  operation ends is read from the field \<open>io\<close> (an exhausted list means success), so a statement
  about every store is a statement about every pattern of I/O failures. A write to the receipt
  log that fails may have written nothing or a part of its record (\<open>IoTorn\<close>); then the file ends
  inside a line (\<open>logTorn\<close>) and the next record is appended to that line, which no longer
  decodes. A decoded log line is the record that was encoded (JSON round trip); whether a line
  fits the buffer of the reader is the argument \<open>fits\<close> of \<open>replay\<close>. An error of the disk while
  the log is being read is not modelled.
  A \<^verbatim>\<open>float64\<close> is its IEEE bit pattern; the store never computes with it. A pointer that
  the in-memory maps share with a caller is written only where the source writes it.
\<close>

type_synonym float64 = "64 word"

section \<open>Receipts\<close>

record ReceiptLine =
  SKU :: string
  lnDescription :: string
  Qty :: int64
  UnitPrice :: int64
  Category :: string

record AttributionResult =
  arMode :: string
  FederalKobo :: int64
  StateKobo :: int64
  LGAKobo :: int64
  arState :: string
  arLGA :: string
  ShadowFederal :: int64
  ShadowState :: int64
  ShadowLGA :: int64

definition zeroAttribution :: AttributionResult where
  "zeroAttribution = \<lparr>arMode = '''', FederalKobo = 0, StateKobo = 0, LGAKobo = 0, arState = '''',
     arLGA = '''', ShadowFederal = 0, ShadowState = 0, ShadowLGA = 0\<rparr>"

text \<open>A statute citation (\<^verbatim>\<open>packages/shared/rulepack/citation.go\<close>).\<close>

record Citation =
  PackID :: string
  PackVersion :: string
  RuleID :: string
  Statute :: string
  SectionID :: string
  citTitle :: string
  citText :: string
  StatuteSections :: "string list"
  CitationKind :: string
  SubjectToRegazette :: bool

record Receipt =
  rcID :: string
  rcTenantID :: string
  MerchantTIN :: string
  MerchantTINHash :: string
  TerminalID :: string
  ReceiptNo :: string
  CapturedAt :: string
  Lat :: float64
  Lon :: float64
  Lines :: "ReceiptLine list"
  Currency :: string
  IdempotencyKey :: string
  Baskets :: "string \<Rightarrow> int64"
  PlatformCollected :: bool
  CollectorTIN :: string
  VATKobo :: int64
  TotalKobo :: int64
  rcState :: string
  rcLGA :: string
  Attribution :: AttributionResult
  rcStatus :: string
  SettledIn :: string
  RulePackVersion :: string
  Citations :: "Citation list"

record ReconRecord =
  recID :: string
  recPeriod :: string
  recTenantID :: string
  recReceipts :: nat
  recVATKobo :: int64
  recFederalKobo :: int64
  recStateKobo :: int64
  recLGAKobo :: int64
  PlatformCollectedKobo :: int64
  PlatformReceipts :: nat
  Supplement :: nat
  recLedgerTransfer :: string
  LedgerMode :: string
  PostedAt :: string

record SettledPeriod =
  spTenantID :: string
  spPeriod :: string
  spFederalKobo :: int64
  spStateKobo :: int64
  spLGAKobo :: int64
  FederalPendingID :: string
  StatePendingID :: string
  LGAPendingID :: string
  Supplements :: nat
  spStatus :: string
  ReconID :: string
  FailReason :: string
  spUpdatedAt :: string

record SpoolEntry =
  spoolID :: string
  QueuedAt :: string
  spoolReason :: string
  Payload :: "Receipt option"

section \<open>The store\<close>

datatype store_error = WriteFailed | SyncFailed

datatype io_result = IoOk | IoFails | IoTorn

record Store =
  receipts :: "string \<rightharpoonup> Receipt"
  byTenant :: "string \<Rightarrow> string list"
  recon :: "ReconRecord list"
  logOpen :: bool
  pendingSync :: nat
  syncCount :: nat
  receiptsLog :: "Receipt option list"
  logTorn :: bool
  durable :: nat
  settledPeriods :: "string \<rightharpoonup> SettledPeriod"
  settledLog :: "SettledPeriod list"
  spoolDir :: "SpoolEntry list"
  io :: "io_result list"

definition syncHighWater :: nat where "syncHighWater = 64"

text \<open>The outcome of the next file operation.\<close>

definition io_step :: "Store \<Rightarrow> Store \<times> bool" where
  "io_step st = (case io st of [] \<Rightarrow> (st, True) | b # bs \<Rightarrow> (st\<lparr>io := bs\<rparr>, b = IoOk))"

text \<open>The next write leaves a part of its record behind.\<close>

definition tears :: "Store \<Rightarrow> bool" where
  "tears st = (case io st of IoTorn # _ \<Rightarrow> True | _ \<Rightarrow> False)"

definition log_write :: "Receipt \<Rightarrow> Store \<Rightarrow> Store \<times> bool" where
  "log_write r st =
     (let (st1, ok) = io_step st
      in if ok then (st1\<lparr>receiptsLog := receiptsLog st1 @ [if logTorn st1 then None else Some r], logTorn := False\<rparr>, True)
         else (st1\<lparr>logTorn := logTorn st1 \<or> tears st\<rparr>, False))"

definition log_sync :: "Store \<Rightarrow> Store \<times> bool" where
  "log_sync st =
     (let (st1, ok) = io_step st
      in if ok then (st1\<lparr>durable := length (receiptsLog st1)\<rparr>, True) else (st1, False))"

definition flushLocked :: "Store \<Rightarrow> Store \<times> (store_error + unit)" where
  "flushLocked st =
     (if \<not> logOpen st \<or> pendingSync st = 0 then (st, Inr ())
      else (let (st1, ok) = log_sync st
            in if \<not> ok then (st1, Inl SyncFailed)
               else (st1\<lparr>pendingSync := 0, syncCount := syncCount st1 + 1\<rparr>, Inr ())))"

text \<open>One tick of the background flusher: it ignores the error.\<close>

definition flusher_tick :: "Store \<Rightarrow> Store" where
  "flusher_tick st = fst (flushLocked st)"

text \<open>The first call of \<^verbatim>\<open>Close\<close>: a final flush, then the log is closed. Later calls do nothing.\<close>

definition Close :: "Store \<Rightarrow> Store \<times> (store_error + unit)" where
  "Close st =
     (case flushLocked st of
        (st1, Inl e) \<Rightarrow> (st1, Inl e)
      | (st1, Inr _) \<Rightarrow>
          if logOpen st1
          then (let (st2, ok) = io_step st1
                in (st2\<lparr>logOpen := False\<rparr>, if ok then Inr () else Inl SyncFailed))
          else (st1, Inr ()))"

definition index_receipt :: "Receipt \<Rightarrow> Store \<Rightarrow> Store" where
  "index_receipt r st =
     st\<lparr>receipts := (receipts st)(rcID r \<mapsto> r),
        byTenant := (byTenant st)(rcTenantID r := byTenant st (rcTenantID r) @ [rcID r])\<rparr>"

definition replay_line :: "Receipt option \<Rightarrow> Store \<Rightarrow> Store" where
  "replay_line l st = (case l of Some r \<Rightarrow> if rcID r \<noteq> '''' then index_receipt r st else st | None \<Rightarrow> st)"

text \<open>The scanner stops at the first line that does not fit its buffer of 1 MiB; when the file cannot be opened nothing is read.\<close>

definition replay :: "(Receipt option \<Rightarrow> bool) \<Rightarrow> Store \<Rightarrow> Store" where
  "replay fits st =
     (let (st1, opened) = io_step st
      in if opened then fold replay_line (takeWhile fits (receiptsLog st1)) st1 else st1)"

text \<open>
  \<^verbatim>\<open>NewStore\<close> on the files a previous process left: memory starts empty, the receipt log is
  replayed, the log is opened for appending. The settlement markers are not read back:
  no code calls \<^verbatim>\<open>loadSettledPeriods\<close>.
\<close>

definition NewStore :: "(Receipt option \<Rightarrow> bool) \<Rightarrow> Receipt option list \<Rightarrow> bool \<Rightarrow> SettledPeriod list \<Rightarrow> SpoolEntry list \<Rightarrow>
    io_result list \<Rightarrow> Store" where
  "NewStore fits rlog torn slog spool faults =
     (let st = replay fits \<lparr>receipts = Map.empty, byTenant = (\<lambda>_. []), recon = [], logOpen = False,
                       pendingSync = 0, syncCount = 0, receiptsLog = rlog, logTorn = torn, durable = length rlog,
                       settledPeriods = Map.empty, settledLog = slog, spoolDir = spool, io = faults\<rparr>;
          (st1, ok) = io_step st
      in st1\<lparr>logOpen := ok\<rparr>)"

text \<open>The store of a first start.\<close>

abbreviation fresh_store :: Store where
  "fresh_store \<equiv> NewStore (\<lambda>_. True) [] False [] [] []"

text \<open>A process restart after a clean stop: a new store over the same files.\<close>

definition reopen :: "(Receipt option \<Rightarrow> bool) \<Rightarrow> Store \<Rightarrow> Store" where
  "reopen fits st = NewStore fits (receiptsLog st) (logTorn st) (settledLog st) (spoolDir st) (io st)"

definition PutReceipt :: "Receipt \<Rightarrow> Store \<Rightarrow> Store \<times> (store_error + unit)" where
  "PutReceipt r st =
     (if receipts st (rcID r) \<noteq> None then (st, Inr ())
      else if logOpen st then
        (let (st1, ok) = log_write r st
         in if \<not> ok then (st1, Inl WriteFailed)
            else (let st2 = st1\<lparr>pendingSync := pendingSync st1 + 1\<rparr>
                  in if pendingSync st2 \<ge> syncHighWater
                     then (case flushLocked st2 of
                             (st3, Inl e) \<Rightarrow> (st3, Inl e)
                           | (st3, Inr _) \<Rightarrow> (index_receipt r st3, Inr ()))
                     else (index_receipt r st2, Inr ())))
      else (index_receipt r st, Inr ()))"

definition settledKey :: "string \<Rightarrow> string \<Rightarrow> string" where
  "settledKey tenant period = tenant @ ''|'' @ period"

fun mark_loop :: "string list \<Rightarrow> string \<Rightarrow> Store \<Rightarrow> Store \<times> (store_error + unit)" where
  "mark_loop [] key st = (st, Inr ())"
| "mark_loop (i # ids) key st =
     (case receipts st i of
        None \<Rightarrow> mark_loop ids key st
      | Some r \<Rightarrow>
          (let r' = r\<lparr>SettledIn := key, rcStatus := ''settled''\<rparr>;
               st1 = st\<lparr>receipts := (receipts st)(i \<mapsto> r')\<rparr>
           in if logOpen st1 then
                (let (st2, ok) = log_write r' st1
                 in if ok then mark_loop ids key st2 else (st2, Inl WriteFailed))
              else mark_loop ids key st1))"

definition MarkReceiptsSettled :: "string list \<Rightarrow> string \<Rightarrow> string \<Rightarrow> Store \<Rightarrow> Store \<times> (store_error + unit)" where
  "MarkReceiptsSettled ids tenant period st =
     (case mark_loop ids (settledKey tenant period) st of
        (st1, Inl e) \<Rightarrow> (st1, Inl e)
      | (st1, Inr _) \<Rightarrow>
          if logOpen st1
          then (let (st2, ok) = log_sync st1 in (st2, if ok then Inr () else Inl SyncFailed))
          else (st1, Inr ()))"

definition GetReceipt :: "string \<Rightarrow> Store \<Rightarrow> Receipt option" where
  "GetReceipt i st = receipts st i"

text \<open>
  \<^verbatim>\<open>ListReceipts\<close>: with a tenant it walks the index \<open>byTenant\<close>; without one it ranges over
  the map, whose order Go leaves open, so the order of the keys is the argument \<open>ord\<close>. A
  positive limit stops the walk.
\<close>

fun collect_receipts :: "(string \<rightharpoonup> Receipt) \<Rightarrow> string \<Rightarrow> nat \<Rightarrow> string list \<Rightarrow> Receipt list \<Rightarrow> Receipt list" where
  "collect_receipts m state limit [] out = out"
| "collect_receipts m state limit (i # ids) out =
     (case m i of
        None \<Rightarrow> collect_receipts m state limit ids out
      | Some r \<Rightarrow>
          if state \<noteq> '''' \<and> \<not> EqualFold (rcState r) state then collect_receipts m state limit ids out
          else if limit > 0 \<and> length (out @ [r]) \<ge> limit then out @ [r]
          else collect_receipts m state limit ids (out @ [r]))"

definition ListReceipts :: "string list \<Rightarrow> string \<Rightarrow> string \<Rightarrow> nat \<Rightarrow> Store \<Rightarrow> Receipt list" where
  "ListReceipts ord tenant state limit st =
     collect_receipts (receipts st) state limit (if tenant \<noteq> '''' then byTenant st tenant else ord) []"

definition AddRecon :: "ReconRecord \<Rightarrow> Store \<Rightarrow> Store" where
  "AddRecon rec st = st\<lparr>recon := recon st @ [rec]\<rparr>"

definition Recons :: "Store \<Rightarrow> ReconRecord list" where
  "Recons st = recon st"

definition GetSettledPeriod :: "string \<Rightarrow> string \<Rightarrow> Store \<Rightarrow> SettledPeriod option" where
  "GetSettledPeriod tenant period st = settledPeriods st (settledKey tenant period)"

text \<open>Open, write and fsync of the marker log; the map is updated before any of them.\<close>

definition SaveSettledPeriod :: "SettledPeriod \<Rightarrow> Store \<Rightarrow> Store \<times> (store_error + unit)" where
  "SaveSettledPeriod sp st =
     (let st1 = st\<lparr>settledPeriods := (settledPeriods st)(settledKey (spTenantID sp) (spPeriod sp) \<mapsto> sp)\<rparr>;
          (st2, opened) = io_step st1
      in if \<not> opened then (st2, Inl WriteFailed)
         else (let (st3, written) = io_step st2
               in if \<not> written then (st3, Inl WriteFailed)
                  else (let (st4, synced) = io_step (st3\<lparr>settledLog := settledLog st3 @ [sp]\<rparr>)
                        in (st4, if synced then Inr () else Inl SyncFailed))))"

definition loadSettledPeriods :: "Store \<Rightarrow> Store" where
  "loadSettledPeriods st =
     st\<lparr>settledPeriods := fold (\<lambda>sp m. m(settledKey (spTenantID sp) (spPeriod sp) \<mapsto> sp)) (settledLog st) (settledPeriods st)\<rparr>"

text \<open>The spool directory, one file per entry named by its id; a write replaces the file, and
  the directory is listed in the order of the file names.\<close>

definition Spool :: "SpoolEntry \<Rightarrow> Store \<Rightarrow> Store \<times> (store_error + unit)" where
  "Spool e st =
     (let (st1, ok) = io_step st
      in if ok then (st1\<lparr>spoolDir := filter (\<lambda>f. spoolID f \<noteq> spoolID e) (spoolDir st1) @ [e]\<rparr>, Inr ())
         else (st1, Inl WriteFailed))"

definition SpoolList :: "Store \<Rightarrow> SpoolEntry list" where
  "SpoolList st = sort_key (\<lambda>e. spoolID e @ ''.json'') (spoolDir st)"

definition SpoolRemove :: "string \<Rightarrow> Store \<Rightarrow> Store" where
  "SpoolRemove i st = st\<lparr>spoolDir := filter (\<lambda>f. spoolID f \<noteq> i) (spoolDir st)\<rparr>"

section \<open>The idempotency cache\<close>

text \<open>The interface \<^verbatim>\<open>Cache\<close> and its in-memory implementation; times are nanoseconds.\<close>

record 'c Cache =
  cSetNX :: "string \<Rightarrow> string \<Rightarrow> int \<Rightarrow> int \<Rightarrow> 'c \<Rightarrow> 'c \<times> (string + bool)"
  cGet :: "string \<Rightarrow> int \<Rightarrow> 'c \<Rightarrow> string + string"

type_synonym MemCache = "string \<rightharpoonup> string \<times> int"

definition SetNX :: "string \<Rightarrow> string \<Rightarrow> int \<Rightarrow> int \<Rightarrow> MemCache \<Rightarrow> MemCache \<times> (string + bool)" where
  "SetNX key val ttl now m =
     (case m key of
        Some (v, exp) \<Rightarrow> if now < exp then (m, Inr False) else (m(key \<mapsto> (val, now + ttl)), Inr True)
      | None \<Rightarrow> (m(key \<mapsto> (val, now + ttl)), Inr True))"

definition cacheGet :: "string \<Rightarrow> int \<Rightarrow> MemCache \<Rightarrow> string + string" where
  "cacheGet key now m =
     (case m key of
        Some (v, exp) \<Rightarrow> if now < exp then Inr v else Inl ''miss''
      | None \<Rightarrow> Inl ''miss'')"

definition memCache :: "MemCache Cache" where
  "memCache = \<lparr>cSetNX = SetNX, cGet = cacheGet\<rparr>"

text \<open>What the ingest path relies on: a granted key is refused until its time to live has
  passed, and requests for other keys do not interfere.\<close>

locale idem_cache =
  fixes C :: "'c Cache" and granted :: "'c \<Rightarrow> string \<Rightarrow> int \<Rightarrow> bool"
  assumes grant: "cSetNX C k v ttl now c = (c', Inr True) \<Longrightarrow> now \<le> t \<Longrightarrow> t < now + ttl \<Longrightarrow> granted c' k t"
    and refuse: "granted c k now \<Longrightarrow> cSetNX C k v ttl now c = (c', Inr b) \<Longrightarrow> \<not> b"
    and keep: "granted c k t \<Longrightarrow> now \<le> t \<Longrightarrow> cSetNX C j v ttl now c = (c', r) \<Longrightarrow> granted c' k t"
begin

lemma at_most_once:
  assumes "cSetNX C k v ttl now c = (c1, Inr True)" "now \<le> t" "t < now + ttl"
    and "cSetNX C k w ttl' t c1 = (c2, Inr b)"
  shows "\<not> b"
  using refuse [OF grant [OF assms(1-3)] assms(4)] .

end

interpretation mem: idem_cache memCache "\<lambda>m k t. \<exists>v exp. m k = Some (v, exp) \<and> t < exp"
  by unfold_locales (auto simp: memCache_def SetNX_def split: option.splits if_splits)

section \<open>The event bus\<close>

record 'd Envelope =
  evType :: string
  evTenantID :: string
  evRulePackVersion :: string
  evData :: 'd

record 'd InprocBus =
  events :: "'d Envelope list"
  outbox :: "'d Envelope list"

definition Publish :: "string \<Rightarrow> string \<Rightarrow> string \<Rightarrow> 'd \<Rightarrow> 'd InprocBus \<Rightarrow> 'd InprocBus" where
  "Publish topic tenant packVersion data b =
     (let env = \<lparr>evType = topic, evTenantID = tenant, evRulePackVersion = packVersion, evData = data\<rparr>;
          evs = events b @ [env]
      in b\<lparr>outbox := outbox b @ [env],
           events := (if length evs > 500 then drop (length evs - 500) evs else evs)\<rparr>)"

definition Recent :: "nat \<Rightarrow> 'd InprocBus \<Rightarrow> 'd Envelope list" where
  "Recent limit b = take limit (rev (events b))"

text \<open>The bus keeps the newest 500 events of the outbox.\<close>

lemma Publish_window:
  assumes "events b = drop (length (outbox b) - 500) (outbox b)"
  shows "events (Publish topic tenant v data b) = drop (length (outbox (Publish topic tenant v data b)) - 500) (outbox (Publish topic tenant v data b))"
proof (cases "length (outbox b) < 500")
  case True
  with assms show ?thesis by (simp add: Publish_def Let_def)
next
  case False
  then obtain n where n: "length (outbox b) = n + 500" by (metis add.commute le_Suc_ex not_less)
  then have "length (events b) = 500" using assms by simp
  then show ?thesis using assms n
    by (simp add: Publish_def Let_def)
qed

section \<open>What the store keeps\<close>

lemma collect_receipts_all:
  "collect_receipts m '''' 0 ids out = out @ List.map_filter m ids"
  by (induction ids arbitrary: out) (auto simp: List.map_filter_simps split: option.splits)

lemma ListReceipts_all:
  "ListReceipts ord tenant '''' 0 st =
     List.map_filter (receipts st) (if tenant \<noteq> '''' then byTenant st tenant else ord)"
  by (simp add: ListReceipts_def collect_receipts_all)

lemma collect_receipts_limit:
  "0 < limit \<Longrightarrow> length out < limit \<Longrightarrow> length (collect_receipts m state limit ids out) \<le> limit"
  by (induction ids arbitrary: out) (auto split: option.splits)

text \<open>The last record of the log for each id: what a restart rebuilds.\<close>

definition view_line :: "Receipt option \<Rightarrow> (string \<rightharpoonup> Receipt) \<Rightarrow> (string \<rightharpoonup> Receipt)" where
  "view_line l m = (case l of Some r \<Rightarrow> if rcID r \<noteq> '''' then m(rcID r \<mapsto> r) else m | None \<Rightarrow> m)"

definition log_view :: "Receipt option list \<Rightarrow> string \<rightharpoonup> Receipt" where
  "log_view ls = fold view_line ls Map.empty"

lemma log_view_snoc:
  "log_view (ls @ [l]) = (case l of Some r \<Rightarrow> if rcID r \<noteq> '''' then (log_view ls)(rcID r \<mapsto> r) else log_view ls | None \<Rightarrow> log_view ls)"
  by (simp add: log_view_def view_line_def split: option.split)

lemma receipts_fold_replay: "receipts (fold replay_line ls st) = fold view_line ls (receipts st)"
  by (induction ls arbitrary: st) (simp_all add: replay_line_def view_line_def index_receipt_def split: option.split)

lemma replay_frame:
  "receiptsLog (fold replay_line ls st) = receiptsLog st" "logTorn (fold replay_line ls st) = logTorn st"
  "io (fold replay_line ls st) = io st" "durable (fold replay_line ls st) = durable st"
  "pendingSync (fold replay_line ls st) = pendingSync st" "settledPeriods (fold replay_line ls st) = settledPeriods st"
  "spoolDir (fold replay_line ls st) = spoolDir st" "recon (fold replay_line ls st) = recon st"
  by (induction ls arbitrary: st) (simp_all add: replay_line_def index_receipt_def split: option.split)

lemma io_step_simps [simp]:
  "receipts (fst (io_step st)) = receipts st" "receiptsLog (fst (io_step st)) = receiptsLog st"
  "byTenant (fst (io_step st)) = byTenant st" "logOpen (fst (io_step st)) = logOpen st"
  "durable (fst (io_step st)) = durable st" "pendingSync (fst (io_step st)) = pendingSync st"
  "settledPeriods (fst (io_step st)) = settledPeriods st" "settledLog (fst (io_step st)) = settledLog st"
  "spoolDir (fst (io_step st)) = spoolDir st" "recon (fst (io_step st)) = recon st" "logTorn (fst (io_step st)) = logTorn st"
  by (simp_all add: io_step_def split: list.splits)

lemma io_step_ok: "io st = [] \<Longrightarrow> io_step st = (st, True)"
  by (simp add: io_step_def)

lemma io_step_rest: "set (io (fst (io_step st))) \<subseteq> set (io st)"
  by (auto simp: io_step_def split: list.splits)

lemma NewStore_log:
  "receiptsLog (NewStore fits rlog torn slog spool faults) = rlog" "logTorn (NewStore fits rlog torn slog spool faults) = torn"
  "durable (NewStore fits rlog torn slog spool faults) = length rlog"
  "pendingSync (NewStore fits rlog torn slog spool faults) = 0" "settledPeriods (NewStore fits rlog torn slog spool faults) = Map.empty"
  by (simp_all add: NewStore_def replay_def Let_def split_beta replay_frame)

text \<open>A new store has read the lines up to the first that is too long, or none.\<close>

lemma NewStore_receipts:
  "receipts (NewStore fits rlog torn slog spool faults) = (if faults = [] \<or> hd faults = IoOk then log_view (takeWhile fits rlog) else Map.empty)"
  by (cases faults) (simp_all add: NewStore_def replay_def io_step_def Let_def split_beta receipts_fold_replay log_view_def split: list.split)

lemma NewStore_io: "set (io (NewStore fits rlog torn slog spool faults)) \<subseteq> set faults"
proof -
  have "set (io (replay fits st)) \<subseteq> set (io st)" for st
    using io_step_rest [of st] by (simp add: replay_def Let_def split_beta replay_frame)
  then have "set (io (fst (io_step (replay fits st)))) \<subseteq> set (io st)" for st
    using io_step_rest [of "replay fits st"] by blast
  then show ?thesis by (fastforce simp: NewStore_def Let_def split_beta)
qed

lemma reopen_receipts:
  assumes "io st = [] \<or> hd (io st) = IoOk" "\<forall>l\<in>set (receiptsLog st). fits l"
  shows "receipts (reopen fits st) = log_view (receiptsLog st)"
  using assms by (simp add: reopen_def NewStore_receipts takeWhile_eq_all_conv [THEN iffD2])

section \<open>Runs of the store\<close>

lemma log_write_simps [simp]:
  "receipts (fst (log_write r st)) = receipts st" "logOpen (fst (log_write r st)) = logOpen st"
  "receiptsLog (fst (log_write r st)) =
     (if snd (log_write r st) then receiptsLog st @ [if logTorn st then None else Some r] else receiptsLog st)"
  "byTenant (fst (log_write r st)) = byTenant st"
  "durable (fst (log_write r st)) = durable st" "pendingSync (fst (log_write r st)) = pendingSync st"
  by (simp_all add: log_write_def Let_def split_beta)

lemma log_sync_simps [simp]:
  "receipts (fst (log_sync st)) = receipts st" "logOpen (fst (log_sync st)) = logOpen st"
  "receiptsLog (fst (log_sync st)) = receiptsLog st" "byTenant (fst (log_sync st)) = byTenant st"
  "pendingSync (fst (log_sync st)) = pendingSync st"
  "durable (fst (log_sync st)) = (if snd (log_sync st) then length (receiptsLog st) else durable st)"
  by (simp_all add: log_sync_def Let_def split_beta)

lemma flushLocked_simps [simp]:
  "receipts (fst (flushLocked st)) = receipts st" "logOpen (fst (flushLocked st)) = logOpen st"
  "receiptsLog (fst (flushLocked st)) = receiptsLog st" "byTenant (fst (flushLocked st)) = byTenant st"
  by (simp_all add: flushLocked_def Let_def split_beta)

lemma index_receipt_simps [simp]:
  "receipts (index_receipt r st) = (receipts st)(rcID r \<mapsto> r)" "logOpen (index_receipt r st) = logOpen st"
  "receiptsLog (index_receipt r st) = receiptsLog st" "durable (index_receipt r st) = durable st"
  "pendingSync (index_receipt r st) = pendingSync st" "io (index_receipt r st) = io st" "logTorn (index_receipt r st) = logTorn st"
  "byTenant (index_receipt r st) = (byTenant st)(rcTenantID r := byTenant st (rcTenantID r) @ [rcID r])"
  by (simp_all add: index_receipt_def)

text \<open>
  No write has torn a line and none will: the faults left are failures that write nothing.
\<close>

definition untorn :: "Store \<Rightarrow> bool" where
  "untorn st \<longleftrightarrow> \<not> logTorn st \<and> IoTorn \<notin> set (io st)"

lemma untorn_cong: "logTorn st' = logTorn st \<Longrightarrow> set (io st') \<subseteq> set (io st) \<Longrightarrow> untorn st \<Longrightarrow> untorn st'"
  by (auto simp: untorn_def)

lemma untorn_io_step: "untorn st \<Longrightarrow> untorn (fst (io_step st))"
  by (rule untorn_cong) (simp_all add: io_step_rest)

lemma untorn_log_write: "untorn st \<Longrightarrow> untorn (fst (log_write r st))"
  using untorn_io_step [of st] by (auto simp: log_write_def untorn_def tears_def Let_def split_beta split: list.splits io_result.splits)

lemma untorn_log_sync: "untorn st \<Longrightarrow> untorn (fst (log_sync st))"
  using untorn_io_step [of st] by (simp add: log_sync_def untorn_def Let_def split_beta)

lemma untorn_flush: "untorn st \<Longrightarrow> untorn (fst (flushLocked st))"
  using untorn_log_sync [of st] by (simp add: flushLocked_def untorn_def Let_def split_beta)

lemma untorn_put:
  assumes "untorn st"
  shows "untorn (fst (PutReceipt r st))"
proof -
  let ?s = "(fst (log_write r st))\<lparr>pendingSync := pendingSync (fst (log_write r st)) + 1\<rparr>"
  have w: "untorn (fst (log_write r st))" by (rule untorn_log_write [OF assms])
  then have s: "untorn ?s" by (simp add: untorn_def)
  have i: "untorn (index_receipt r x)" if "untorn x" for x using that by (simp add: untorn_def)
  show ?thesis
    using w s i [OF s] i [OF untorn_flush [OF s]] untorn_flush [OF s] i [OF assms] assms
    by (auto simp: PutReceipt_def Let_def split_beta split: sum.split)
qed

lemma untorn_mark_loop: "untorn st \<Longrightarrow> untorn (fst (mark_loop ids key st))"
proof (induction ids arbitrary: st)
  case (Cons i ids)
  show ?case
  proof (cases "receipts st i")
    case None
    with Cons show ?thesis by simp
  next
    case (Some r)
    let ?r = "r\<lparr>SettledIn := key, rcStatus := ''settled''\<rparr>"
    let ?s = "st\<lparr>receipts := (receipts st)(i \<mapsto> ?r)\<rparr>"
    have s: "untorn ?s" using Cons.prems by (simp add: untorn_def)
    show ?thesis using Cons.IH [OF s] Cons.IH [OF untorn_log_write [OF s]] untorn_log_write [OF s] Some by (simp add: Let_def split_beta)
  qed
qed simp

lemma untorn_mark: "untorn st \<Longrightarrow> untorn (fst (MarkReceiptsSettled ids tenant period st))"
  using untorn_mark_loop [of st ids "settledKey tenant period"] untorn_log_sync
  by (auto simp: MarkReceiptsSettled_def Let_def split_beta split: prod.split sum.split)

lemma untorn_save: "untorn st \<Longrightarrow> untorn (fst (SaveSettledPeriod sp st))"
proof -
  assume u: "untorn st"
  let ?s1 = "st\<lparr>settledPeriods := (settledPeriods st)(settledKey (spTenantID sp) (spPeriod sp) \<mapsto> sp)\<rparr>"
  let ?s2 = "fst (io_step ?s1)"
  let ?s3 = "fst (io_step ?s2)"
  have u2: "untorn ?s2" by (rule untorn_io_step) (use u in \<open>simp add: untorn_def\<close>)
  have u3: "untorn ?s3" by (rule untorn_io_step [OF u2])
  have "untorn (fst (io_step (?s3\<lparr>settledLog := settledLog ?s3 @ [sp]\<rparr>)))" by (rule untorn_io_step) (use u3 in \<open>simp add: untorn_def\<close>)
  with u2 u3 show ?thesis by (simp add: SaveSettledPeriod_def Let_def split_beta)
qed

lemma untorn_spool: "untorn st \<Longrightarrow> untorn (fst (Spool e st))"
  using untorn_io_step [of st] by (simp add: Spool_def untorn_def Let_def split_beta)

text \<open>
  The steps between two restarts, with any pattern of I/O failures: \<open>store_step\<close> are the
  steps in which a settlement stamp succeeds, \<open>any_step\<close> adds the stamps that fail half-way
  (the caller is answered 502).
\<close>

inductive store_step :: "Store \<Rightarrow> Store \<Rightarrow> bool" where
  put: "rcID r \<noteq> '''' \<Longrightarrow> store_step st (fst (PutReceipt r st))"
| tick: "store_step st (flusher_tick st)"
| mark: "snd (MarkReceiptsSettled ids tenant period st) = Inr () \<Longrightarrow>
     store_step st (fst (MarkReceiptsSettled ids tenant period st))"
| save: "store_step st (fst (SaveSettledPeriod sp st))"
| recon: "store_step st (AddRecon rec st)"
| spool: "store_step st (fst (Spool e st))"
| unspool: "store_step st (SpoolRemove i st)"

inductive any_step :: "Store \<Rightarrow> Store \<Rightarrow> bool" where
  step: "store_step st st' \<Longrightarrow> any_step st st'"
| half_mark: "any_step st (fst (MarkReceiptsSettled ids tenant period st))"

lemma untorn_store_step: "store_step st st' \<Longrightarrow> untorn st \<Longrightarrow> untorn st'"
proof (induction rule: store_step.induct)
  case (tick st)
  then show ?case by (simp add: flusher_tick_def untorn_flush)
qed (simp_all add: untorn_put untorn_mark untorn_save untorn_spool, simp_all add: untorn_def AddRecon_def SpoolRemove_def)

lemma untorn_step: "any_step st st' \<Longrightarrow> untorn st \<Longrightarrow> untorn st'"
  by (induction rule: any_step.induct) (simp_all add: untorn_store_step untorn_mark)

text \<open>
  Every receipt in memory has a last record of its id in the log that is related to it by
  \<open>E\<close>: equality, or equality but for the settlement stamp.
\<close>

definition sale_of :: "Receipt \<Rightarrow> Receipt" where
  "sale_of r = r\<lparr>SettledIn := '''', rcStatus := ''''\<rparr>"

definition logged :: "(Receipt \<Rightarrow> Receipt \<Rightarrow> bool) \<Rightarrow> Store \<Rightarrow> bool" where
  "logged E st \<longleftrightarrow> logOpen st \<and> untorn st \<and>
     (\<forall>i r. receipts st i = Some r \<longrightarrow> rcID r = i \<and> i \<noteq> '''' \<and> (\<exists>r'. log_view (receiptsLog st) i = Some r' \<and> E r' r))"

lemma logged_cong:
  "receipts st' = receipts st \<Longrightarrow> receiptsLog st' = receiptsLog st \<Longrightarrow> logOpen st' = logOpen st \<Longrightarrow> untorn st' \<Longrightarrow>
     logged E st \<Longrightarrow> logged E st'"
  by (simp add: logged_def)

lemma logged_put:
  assumes "logged E st" "rcID r \<noteq> ''''" "\<And>x. E x x"
  shows "logged E (fst (PutReceipt r st))"
proof (cases "receipts st (rcID r) = None")
  case False
  then show ?thesis using assms by (simp add: PutReceipt_def)
next
  case True
  have t: "logOpen st" "\<not> logTorn st" "untorn (fst (PutReceipt r st))"
    using assms(1) untorn_put by (simp_all add: logged_def untorn_def)
  have upd: "logged E st2" if "receipts st2 = receipts st \<or> receipts st2 = (receipts st)(rcID r \<mapsto> r)"
    "receiptsLog st2 = receiptsLog st @ [Some r]" "logOpen st2" "untorn st2" for st2
  proof -
    have "log_view (receiptsLog st2) = (log_view (receiptsLog st))(rcID r \<mapsto> r)" using that(2) assms(2) by (simp add: log_view_snoc)
    then show ?thesis using that(1,3,4) assms True unfolding logged_def by (auto split: if_splits; blast)
  qed
  let ?w = "log_write r st"
  show ?thesis
  proof (cases "snd ?w")
    case False
    then have "fst (PutReceipt r st) = fst ?w" using True t(1) by (simp add: PutReceipt_def Let_def split_beta)
    then show ?thesis using False t(3) by (intro logged_cong [OF _ _ _ _ assms(1)]) simp_all
  next
    case ok: True
    let ?s = "(fst ?w)\<lparr>pendingSync := pendingSync (fst ?w) + 1\<rparr>"
    have "fst (PutReceipt r st) \<in> {fst (flushLocked ?s), index_receipt r (fst (flushLocked ?s)), index_receipt r ?s}"
      using True ok t(1) by (auto simp: PutReceipt_def Let_def split_beta split: prod.splits sum.splits)
    then show ?thesis
      using t ok by (intro upd) auto
  qed
qed

text \<open>A stamp keeps the sale; a stamp that succeeds is the last record of its receipt.\<close>

lemma logged_mark_loop:
  assumes "logged E st" "mark_loop ids key st = (st', res)" "\<And>x. E x x"
    and "\<And>x r. E x r \<Longrightarrow> E x (r\<lparr>SettledIn := key, rcStatus := ''settled''\<rparr>) \<or> res = Inr ()"
  shows "logged E st'"
  using assms(1,2)
proof (induction ids arbitrary: st)
  case (Cons i ids)
  show ?case
  proof (cases "receipts st i")
    case None
    with Cons show ?thesis by simp
  next
    case (Some r)
    define r' where "r' = r\<lparr>SettledIn := key, rcStatus := ''settled''\<rparr>"
    define st1 where "st1 = st\<lparr>receipts := (receipts st)(i \<mapsto> r')\<rparr>"
    have i: "rcID r = i" "i \<noteq> ''''" "logOpen st1" "untorn st1" "\<not> logTorn st1"
      using Cons.prems Some by (auto simp: logged_def st1_def untorn_def)
    have u: "untorn (fst (log_write r' st1))" by (rule untorn_log_write [OF i(4)])
    show ?thesis
    proof (cases "snd (log_write r' st1)")
      case True
      have "logged E (fst (log_write r' st1))"
        using Cons.prems(1) i u True assms(3) by (auto simp: logged_def st1_def log_view_snoc r'_def)
      moreover have "mark_loop ids key (fst (log_write r' st1)) = (st', res)"
        using Cons.prems(2) Some i(3) True by (simp add: r'_def st1_def Let_def split_beta)
      ultimately show ?thesis by (rule Cons.IH)
    next
      case False
      then have st': "st' = fst (log_write r' st1)" "res = Inl WriteFailed"
        using Cons.prems(2) Some i(3) by (auto simp: r'_def st1_def Let_def split_beta)
      have E: "E x r'" if "E x r" for x using assms(4) [OF that] st'(2) by (simp add: r'_def)
      have lg: "receiptsLog st' = receiptsLog st" "receipts st' = (receipts st)(i \<mapsto> r')" "logOpen st'" "untorn st'"
        using i(3) u False unfolding st'(1) by (simp_all add: st1_def)
      have "rcID q = j \<and> j \<noteq> '''' \<and> (\<exists>x. log_view (receiptsLog st) j = Some x \<and> E x q)" if "receipts st' j = Some q" for j q
      proof (cases "j = i")
        case True
        obtain x where "log_view (receiptsLog st) i = Some x" "E x r" using Cons.prems(1) Some by (auto simp: logged_def)
        with E True that lg(2) i(1,2) show ?thesis by (auto simp: r'_def)
      next
        case False
        with that lg(2) Cons.prems(1) show ?thesis by (simp add: logged_def)
      qed
      then show ?thesis using lg by (simp add: logged_def)
    qed
  qed
qed simp

lemma logged_mark:
  assumes "logged E st" "\<And>x. E x x"
    and "\<And>x r key. E x r \<Longrightarrow> E x (r\<lparr>SettledIn := key, rcStatus := ''settled''\<rparr>) \<or> snd (MarkReceiptsSettled ids tenant period st) = Inr ()"
  shows "logged E (fst (MarkReceiptsSettled ids tenant period st))"
proof -
  obtain st1 res where loop: "mark_loop ids (settledKey tenant period) st = (st1, res)" by fastforce
  have "snd (MarkReceiptsSettled ids tenant period st) = Inr () \<Longrightarrow> res = Inr ()"
    using loop by (auto simp: MarkReceiptsSettled_def split: sum.splits)
  then have l1: "logged E st1" using logged_mark_loop [OF assms(1) loop assms(2)] assms(3) by blast
  then have "logged E (fst (log_sync st1))" by (intro logged_cong [OF _ _ _ _ l1]) (simp_all add: untorn_log_sync logged_def)
  with l1 loop show ?thesis by (auto simp: MarkReceiptsSettled_def Let_def split_beta split: sum.split)
qed

lemma SaveSettledPeriod_simps [simp]:
  "receipts (fst (SaveSettledPeriod sp st)) = receipts st"
  "receiptsLog (fst (SaveSettledPeriod sp st)) = receiptsLog st"
  "logOpen (fst (SaveSettledPeriod sp st)) = logOpen st"
  "byTenant (fst (SaveSettledPeriod sp st)) = byTenant st"
  "settledPeriods (fst (SaveSettledPeriod sp st)) = (settledPeriods st)(settledKey (spTenantID sp) (spPeriod sp) \<mapsto> sp)"
  by (simp_all add: SaveSettledPeriod_def Let_def split_beta)

lemma store_step_logged:
  assumes "store_step st st'" "logged E st" "\<And>x. E x x"
  shows "logged E st'"
  using assms(1,2)
proof (induction rule: store_step.induct)
  case (tick st)
  then show ?case by (intro logged_cong [OF _ _ _ _ tick]) (simp_all add: flusher_tick_def untorn_flush logged_def)
next
  case (save st sp)
  then show ?case by (intro logged_cong [OF _ _ _ _ save]) (simp_all add: untorn_save logged_def)
next
  case (spool st e)
  then show ?case by (intro logged_cong [OF _ _ _ _ spool]) (simp_all add: untorn_spool logged_def, simp_all add: Spool_def Let_def split_beta)
next
  case (put r st)
  then show ?case by (intro logged_put assms(3))
next
  case (mark ids tenant period st)
  then show ?case by (intro logged_mark assms(3)) simp_all
qed (auto simp: logged_def untorn_def AddRecon_def SpoolRemove_def)

definition same_sale :: "Receipt \<Rightarrow> Receipt \<Rightarrow> bool" where
  "same_sale r' r \<longleftrightarrow> sale_of r' = sale_of r"

lemma any_step_logged: "any_step st st' \<Longrightarrow> logged same_sale st \<Longrightarrow> logged same_sale st'"
proof (induction rule: any_step.induct)
  case (step st st')
  then show ?case by (auto intro: store_step_logged simp: same_sale_def)
next
  case (half_mark st ids tenant period)
  then show ?case by (intro logged_mark) (simp_all add: same_sale_def sale_of_def)
qed

lemma log_view_keyed: "log_view ls i = Some r \<Longrightarrow> rcID r = i \<and> i \<noteq> ''''"
proof (induction ls arbitrary: i r rule: rev_induct)
  case Nil
  then show ?case by (simp add: log_view_def)
next
  case (snoc x xs)
  then show ?case by (auto simp: log_view_snoc split: if_splits option.splits)
qed

lemma logged_NewStore:
  assumes "logOpen (NewStore fits rlog False slog spool faults)" "IoTorn \<notin> set faults" "\<forall>l\<in>set rlog. fits l" "\<And>x. E x x"
  shows "logged E (NewStore fits rlog False slog spool faults)"
proof -
  have "untorn (NewStore fits rlog False slog spool faults)"
    using NewStore_io [of fits rlog False slog spool faults] assms(2) by (auto simp: untorn_def NewStore_log)
  then show ?thesis
    using assms log_view_keyed [of rlog]
    by (auto simp: logged_def NewStore_receipts NewStore_log takeWhile_eq_all_conv [THEN iffD2] split: if_splits)
qed

lemma any_step_log: "any_step st st' \<Longrightarrow> set (receiptsLog st) \<subseteq> set (receiptsLog st')"
proof -
  have w: "set (receiptsLog st) \<subseteq> set (receiptsLog (fst (mark_loop ids key st)))" for ids key st
    by (induction ids arbitrary: st) (fastforce simp: Let_def split_beta split: option.split)+
  have m: "set (receiptsLog st) \<subseteq> set (receiptsLog (fst (MarkReceiptsSettled ids tenant period st)))" for ids tenant period st
    using w [of st ids "settledKey tenant period"] by (auto simp: MarkReceiptsSettled_def Let_def split_beta split: prod.split sum.split)
  have p: "set (receiptsLog st) \<subseteq> set (receiptsLog (fst (PutReceipt r st)))" for r st
    by (auto simp: PutReceipt_def Let_def split_beta split: sum.split)
  have s: "store_step st st' \<Longrightarrow> set (receiptsLog st) \<subseteq> set (receiptsLog st')" for st st'
    by (induction rule: store_step.induct)
      (use m p in \<open>simp_all add: flusher_tick_def AddRecon_def SpoolRemove_def Spool_def Let_def split_beta\<close>)
  show "any_step st st' \<Longrightarrow> set (receiptsLog st) \<subseteq> set (receiptsLog st')"
    by (induction rule: any_step.induct) (simp_all add: s m)
qed

lemma run_log: "any_step\<^sup>*\<^sup>* st st' \<Longrightarrow> set (receiptsLog st) \<subseteq> set (receiptsLog st')"
  by (induction rule: rtranclp_induct) (use any_step_log in blast)+

lemma store_run_any: "store_step\<^sup>*\<^sup>* st st' \<Longrightarrow> any_step\<^sup>*\<^sup>* st st'"
  by (induction rule: rtranclp_induct) (auto intro: any_step.step rtranclp.rtrancl_into_rtrancl)

lemma logged_restart:
  assumes "logged E st" "receipts st i = Some r" "io st = [] \<or> hd (io st) = IoOk" "\<forall>l\<in>set (receiptsLog st). fits l"
  shows "\<exists>r'. receipts (reopen fits st) i = Some r' \<and> E r' r"
  using assms by (auto simp: logged_def reopen_receipts)

section \<open>Group commit\<close>

text \<open>
  The window of acknowledged receipts that a power loss may take: the log lines after the
  last fsync. It is bounded by \<open>pendingSync\<close>, which stays below the high-water mark, as long
  as the disk serves every request (\<open>io = []\<close>).
\<close>

definition commit_inv :: "Store \<Rightarrow> bool" where
  "commit_inv st \<longleftrightarrow> io st = [] \<and> durable st \<le> length (receiptsLog st) \<and>
     length (receiptsLog st) - durable st \<le> pendingSync st \<and> pendingSync st < syncHighWater"

lemma flushLocked_ok:
  assumes "io st = []" "logOpen st" "pendingSync st \<noteq> 0"
  shows "flushLocked st = (st\<lparr>durable := length (receiptsLog st), pendingSync := 0, syncCount := syncCount st + 1\<rparr>, Inr ())"
  using assms by (simp add: flushLocked_def log_sync_def io_step_ok Let_def)

lemma commit_flush:
  assumes "commit_inv st"
  shows "commit_inv (fst (flushLocked st))"
proof (cases "logOpen st \<and> pendingSync st \<noteq> 0")
  case True
  with assms show ?thesis by (simp add: commit_inv_def flushLocked_ok syncHighWater_def)
next
  case False
  then have "flushLocked st = (st, Inr ())" by (auto simp: flushLocked_def)
  with assms show ?thesis by simp
qed

lemma log_write_ok:
  "io st = [] \<Longrightarrow> log_write r st = (st\<lparr>receiptsLog := receiptsLog st @ [if logTorn st then None else Some r], logTorn := False\<rparr>, True)"
  by (simp add: log_write_def io_step_ok)

lemma commit_put:
  assumes "commit_inv st"
  shows "commit_inv (fst (PutReceipt r st))"
proof (cases "receipts st (rcID r) = None \<and> logOpen st")
  case False
  with assms show ?thesis by (auto simp: PutReceipt_def commit_inv_def)
next
  case True
  let ?s = "st\<lparr>receiptsLog := receiptsLog st @ [if logTorn st then None else Some r], logTorn := False, pendingSync := pendingSync st + 1\<rparr>"
  have "flushLocked ?s = (?s\<lparr>durable := length (receiptsLog ?s), pendingSync := 0, syncCount := syncCount st + 1\<rparr>, Inr ())"
    using True assms flushLocked_ok [of ?s] by (simp add: commit_inv_def)
  with True assms show ?thesis
    by (auto simp: PutReceipt_def log_write_ok commit_inv_def Let_def syncHighWater_def)
qed

lemma mark_loop_nofault:
  assumes "io st = []"
  shows "snd (mark_loop ids key st) = Inr () \<and> io (fst (mark_loop ids key st)) = [] \<and>
    logOpen (fst (mark_loop ids key st)) = logOpen st \<and>
    pendingSync (fst (mark_loop ids key st)) = pendingSync st \<and>
    durable (fst (mark_loop ids key st)) = durable st \<and>
    (\<not> logOpen st \<longrightarrow> receiptsLog (fst (mark_loop ids key st)) = receiptsLog st)"
  using assms
proof (induction ids arbitrary: st)
  case Nil
  then show ?case by simp
next
  case (Cons i ids)
  show ?case
  proof (cases "receipts st i")
    case None
    with Cons show ?thesis by simp
  next
    case (Some r)
    let ?r = "r\<lparr>SettledIn := key, rcStatus := ''settled''\<rparr>"
    let ?s = "st\<lparr>receipts := (receipts st)(i \<mapsto> ?r)\<rparr>"
    let ?t = "?s\<lparr>receiptsLog := receiptsLog st @ [if logTorn st then None else Some ?r], logTorn := False\<rparr>"
    have "log_write ?r ?s = (?t, True)"
      using Cons.prems by (simp add: log_write_ok)
    then show ?thesis
      using Cons.IH [of ?s] Cons.IH [of ?t] Cons.prems Some
      by (cases "logOpen st") (simp_all add: Let_def)
  qed
qed

lemma commit_mark:
  assumes "commit_inv st"
  shows "commit_inv (fst (MarkReceiptsSettled ids tenant period st))"
proof -
  have io: "io st = []" using assms by (simp add: commit_inv_def)
  obtain st' where st': "mark_loop ids (settledKey tenant period) st = (st', Inr ())"
    and "io st' = []" "logOpen st' = logOpen st" "pendingSync st' = pendingSync st" "durable st' = durable st"
    "\<not> logOpen st \<Longrightarrow> receiptsLog st' = receiptsLog st"
    using mark_loop_nofault [OF io, of ids "settledKey tenant period"]
    by (cases "mark_loop ids (settledKey tenant period) st") auto
  then show ?thesis
    using assms by (cases "logOpen st")
      (simp_all add: MarkReceiptsSettled_def log_sync_def io_step_ok commit_inv_def Let_def)
qed

lemma SaveSettledPeriod_ok:
  assumes "io st = []"
  shows "SaveSettledPeriod sp st =
    (st\<lparr>settledPeriods := (settledPeriods st)(settledKey (spTenantID sp) (spPeriod sp) \<mapsto> sp),
        settledLog := settledLog st @ [sp]\<rparr>, Inr ())"
  using assms by (simp add: SaveSettledPeriod_def io_step_ok Let_def)

lemma store_step_commit: "store_step st st' \<Longrightarrow> commit_inv st \<Longrightarrow> commit_inv st'"
proof (induction rule: store_step.induct)
  case (save st sp)
  then show ?case by (simp add: SaveSettledPeriod_ok commit_inv_def)
next
  case (spool st e)
  then show ?case by (simp add: Spool_def io_step_ok commit_inv_def Let_def)
next
  case (recon st rec)
  then show ?case by (simp add: AddRecon_def commit_inv_def)
next
  case (unspool st i)
  then show ?case by (simp add: SpoolRemove_def commit_inv_def)
qed (simp_all add: commit_put commit_mark flusher_tick_def commit_flush)

lemma commit_NewStore: "commit_inv (NewStore fits rlog torn slog spool [])"
  by (simp add: commit_inv_def NewStore_log syncHighWater_def)
    (simp add: NewStore_def replay_def Let_def split_beta replay_frame io_step_def split: list.splits)

end
