(* ===== verification/Rule_Citations.thy ===== *)
theory Rule_Citations
  imports Pos_Store
begin

text \<open>
  The statute citation resolver shared by the services
  (\<^verbatim>\<open>packages/shared/rulepack/citation.go\<close>): a reverse index from \<open>pack:rule\<close> references to
  the sections of the coverage matrix, built document by document, and the resolution of a
  matched rule to one citation. A coverage document is given decoded.
\<close>

record coverageStatute =
  csID :: string
  csTitle :: string
  csSubjectToRegazette :: bool

record coverageSection =
  secID :: string
  secTitle :: string
  ImplementingRules :: "string list"
  secCitationKind :: string

record coverageDoc =
  docStatute :: coverageStatute
  docSections :: "coverageSection list"

type_synonym sectionHit = "coverageStatute \<times> coverageSection"
type_synonym CitationResolver = "string \<Rightarrow> sectionHit list"

definition add_ref :: "coverageStatute \<Rightarrow> coverageSection \<Rightarrow> string \<Rightarrow> CitationResolver \<Rightarrow> CitationResolver" where
  "add_ref statute sec ref r =
     (let key = TrimSpace ref
      in if key = '''' then r else r(key := r key @ [(statute, sec)]))"

definition addDoc :: "coverageDoc \<Rightarrow> CitationResolver \<Rightarrow> CitationResolver" where
  "addDoc doc r =
     (if csID (docStatute doc) = '''' then r
      else fold (\<lambda>sec. fold (add_ref (docStatute doc) sec) (ImplementingRules sec)) (docSections doc) r)"

text \<open>\<^verbatim>\<open>NewCitationResolver\<close> over the documents of the chosen directory, in directory order;
  a document that does not decode is \<open>None\<close> and is skipped.\<close>

definition NewCitationResolver :: "coverageDoc option list \<Rightarrow> CitationResolver" where
  "NewCitationResolver docs = fold (\<lambda>d r. case d of None \<Rightarrow> r | Some doc \<Rightarrow> addDoc doc r) docs (\<lambda>_. [])"

definition hit_key :: "sectionHit \<Rightarrow> string" where
  "hit_key h = csID (fst h) @ '':'' @ secID (snd h)"

definition Resolve :: "CitationResolver \<Rightarrow> string \<Rightarrow> string \<Rightarrow> string \<Rightarrow> string \<Rightarrow> Citation" where
  "Resolve r packID packVersion ruleID ruleCitation =
     (let c = \<lparr>PackID = packID, PackVersion = packVersion, RuleID = ruleID, Statute = '''', SectionID = '''',
               citTitle = '''', citText = ruleCitation, StatuteSections = [], CitationKind = '''',
               SubjectToRegazette = False\<rparr>
      in case sort_key hit_key (r (packID @ '':'' @ ruleID)) of
           [] \<Rightarrow> c
         | first # rest \<Rightarrow>
             c\<lparr>Statute := csID (fst first), SectionID := secID (snd first), citTitle := secTitle (snd first),
               CitationKind := secCitationKind (snd first), SubjectToRegazette := csSubjectToRegazette (fst first),
               citText := (if ruleCitation = '''' then TrimSpace (csTitle (fst first) @ '', '' @ secTitle (snd first))
                           else ruleCitation),
               StatuteSections := map hit_key (first # rest)\<rparr>)"

definition Build :: "CitationResolver \<Rightarrow> string \<Rightarrow> string \<Rightarrow> string list \<Rightarrow> (string \<Rightarrow> string) \<Rightarrow> Citation list" where
  "Build r packID packVersion ruleIDs ruleCitations =
     map (\<lambda>i. Resolve r packID packVersion i (ruleCitations i)) ruleIDs"

section \<open>What the index holds\<close>

lemma set_add_ref: "set (add_ref statute sec ref r key) =
    set (r key) \<union> (if key \<noteq> '''' \<and> key = TrimSpace ref then {(statute, sec)} else {})"
  by (auto simp: add_ref_def Let_def)

lemma set_add_refs: "set (fold (add_ref statute sec) refs r key) =
    set (r key) \<union> (if key \<noteq> '''' \<and> key \<in> TrimSpace ` set refs then {(statute, sec)} else {})"
  by (induction refs arbitrary: r) (auto simp: set_add_ref)

lemma set_addDoc_aux:
  "set (fold (\<lambda>sec. fold (add_ref statute sec) (ImplementingRules sec)) secs r key) =
     set (r key) \<union> {(statute, sec) | sec. sec \<in> set secs \<and> key \<noteq> '''' \<and> key \<in> TrimSpace ` set (ImplementingRules sec)}"
  by (induction secs arbitrary: r) (auto simp: set_add_refs)

lemma set_addDoc:
  "set (addDoc doc r key) = set (r key) \<union>
     {(docStatute doc, sec) | sec. csID (docStatute doc) \<noteq> '''' \<and> sec \<in> set (docSections doc) \<and>
        key \<noteq> '''' \<and> key \<in> TrimSpace ` set (ImplementingRules sec)}"
  by (auto simp: addDoc_def set_addDoc_aux)

lemma set_resolver_aux:
  "set (fold (\<lambda>d r. case d of None \<Rightarrow> r | Some doc \<Rightarrow> addDoc doc r) docs r key) = set (r key) \<union>
     {(docStatute doc, sec) | doc sec. Some doc \<in> set docs \<and> csID (docStatute doc) \<noteq> '''' \<and> sec \<in> set (docSections doc) \<and>
        key \<noteq> '''' \<and> key \<in> TrimSpace ` set (ImplementingRules sec)}"
proof (induction docs arbitrary: r)
  case (Cons d docs)
  then show ?case by (cases d) (auto simp: set_addDoc)
qed simp

lemma set_NewCitationResolver:
  "set (NewCitationResolver docs key) =
     {(docStatute doc, sec) | doc sec. Some doc \<in> set docs \<and> csID (docStatute doc) \<noteq> '''' \<and> sec \<in> set (docSections doc) \<and>
        key \<noteq> '''' \<and> key \<in> TrimSpace ` set (ImplementingRules sec)}"
  by (simp add: NewCitationResolver_def set_resolver_aux)

text \<open>The sections a citation names are the keys of the hits, in ascending order.\<close>

lemma Resolve_sections:
  "StatuteSections (Resolve r p v i c) = map hit_key (sort_key hit_key (r (p @ '':'' @ i)))"
  by (simp add: Resolve_def Let_def split: list.split)

lemma Resolve_rule [simp]:
  "PackID (Resolve r p v i c) = p" "PackVersion (Resolve r p v i c) = v" "RuleID (Resolve r p v i c) = i"
  by (simp_all add: Resolve_def Let_def split: list.split)

end
