(* ===== verification/Go_Yaml.thy ===== *)
theory Go_Yaml
  imports Go_Prelude
begin

text \<open>
  What the two small YAML parsers of the suite share (\<^verbatim>\<open>services/pos-vat/packs.go\<close> and
  \<^verbatim>\<open>services/vasp-carf/yaml.go\<close>): the decoded values, the logical lines of a document and the
  readings of a plain scalar.

  A decoded document is a value of \<open>yaml\<close>; a Go map is an association list whose first entry for a
  key counts. A floating-point number is kept as the shortest decimal text of its binary64 value
  (\<^verbatim>\<open>strconv.FormatFloat(v, 'f', -1, 64)\<close>); \<open>flt\<close> is the function that gives this text for a literal that
  \<^verbatim>\<open>strconv.ParseFloat\<close> accepts.
\<close>

section \<open>Decoded values\<close>

datatype yaml =
    YNull
  | YBool bool
  | YInt int64
  | YFloat string
  | YStr string
  | YList "yaml list"
  | YMap "(string \<times> yaml) list"

type_synonym ymap = "(string \<times> yaml) list"

text \<open>Indexing a map gives nil for a missing key; the type assertions of the source.\<close>

definition yget :: "ymap \<Rightarrow> string \<Rightarrow> yaml" where
  "yget m k = (case map_of m k of None \<Rightarrow> YNull | Some v \<Rightarrow> v)"

fun asMap :: "yaml \<Rightarrow> ymap" where
  "asMap (YMap m) = m"
| "asMap _ = []"

fun asBool :: "yaml \<Rightarrow> bool" where
  "asBool (YBool b) = b"
| "asBool _ = False"

fun asList :: "yaml \<Rightarrow> yaml list" where
  "asList (YList l) = l"
| "asList _ = []"

fun asInt :: "yaml \<Rightarrow> int64 option" where
  "asInt (YInt i) = Some i"
| "asInt _ = None"

text \<open>The assignment \<^verbatim>\<open>m[k] = v\<close>.\<close>

definition yput :: "string \<Rightarrow> yaml \<Rightarrow> ymap \<Rightarrow> ymap" where
  "yput k v m = (k, v) # filter (\<lambda>p. fst p \<noteq> k) m"

lemma yget_yput [simp]: "yget (yput k v m) j = (if j = k then v else yget m j)"
proof -
  have "map_of (filter (\<lambda>p. fst p \<noteq> k) m) j = (if j = k then None else map_of m j)"
    by (induction m) auto
  then show ?thesis by (auto simp: yget_def yput_def)
qed

section \<open>Lines\<close>

record yamlLine =
  yIndent :: nat
  yContent :: string

fun strip_from :: "bool \<Rightarrow> bool \<Rightarrow> bool \<Rightarrow> string \<Rightarrow> string" where
  "strip_from inS inD start [] = []"
| "strip_from inS inD start (c # s) =
     (if c = CHR 0x27 then c # strip_from (if inD then inS else \<not> inS) inD False s
      else if c = CHR 0x22 then c # strip_from inS (if inS then inD else \<not> inD) False s
      else if c = CHR ''#'' \<and> \<not> inS \<and> \<not> inD \<and> start then []
      else c # strip_from inS inD (c = CHR '' '') s)"

text \<open>\<open>start\<close>: the position is the first of the line or follows a blank.\<close>

definition stripComment :: "string \<Rightarrow> string" where
  "stripComment s = strip_from False False True s"

definition yaml_line :: "string \<Rightarrow> yamlLine option" where
  "yaml_line raw =
     (if TrimSpace raw = [] \<or> HasPrefix (TrimSpace raw) ''#'' then None
      else let nc = stripComment raw
           in if TrimSpace nc = [] then None
              else Some \<lparr>yIndent = length (takeWhile (\<lambda>c. c = CHR '' '') nc), yContent = TrimSpace nc\<rparr>)"

definition yaml_lines :: "string \<Rightarrow> yamlLine list" where
  "yaml_lines doc = List.map_filter yaml_line (split_on (CHR 0x0A) doc)"

definition dash :: "yamlLine \<Rightarrow> bool" where
  "dash ln \<longleftrightarrow> HasPrefix (yContent ln) ''- '' \<or> yContent ln = ''-''"

datatype yaml_err =
    EmptyDocument | TrailingContent nat | UnexpectedIndent string | BadMapLine string | BadFlow string | UnexpectedListIndent string

section \<open>Scalars\<close>

definition ParseInt :: "string \<Rightarrow> int64 option" where
  "ParseInt s =
     (let (neg, ds) = (case s of [] \<Rightarrow> (False, []) | c # r \<Rightarrow> if c = CHR ''-'' then (True, r) else if c = CHR ''+'' then (False, r) else (False, s));
          n = int (read_nat ds)
      in if ds = [] \<or> \<not> list_all isDigit ds then None
         else if neg then (if n \<le> 2 ^ 63 then Some (- n) else None)
         else (if n < 2 ^ 63 then Some n else None))"

fun unquote2 :: "string \<Rightarrow> string" where
  "unquote2 (a # b # s) = (if a = CHR 0x27 \<and> b = CHR 0x27 then CHR 0x27 # unquote2 s else a # unquote2 (b # s))"
| "unquote2 s = s"

definition number_or_text :: "(string \<Rightarrow> string option) \<Rightarrow> string \<Rightarrow> yaml" where
  "number_or_text flt s =
     (case ParseInt s of Some i \<Rightarrow> YInt i | None \<Rightarrow> (case flt s of Some f \<Rightarrow> YFloat f | None \<Rightarrow> YStr s))"

definition quoted :: "char \<Rightarrow> string \<Rightarrow> bool" where
  "quoted q s \<longleftrightarrow> length s \<ge> 2 \<and> hd s = q \<and> last s = q"

definition inner :: "string \<Rightarrow> string" where
  "inner s = butlast (tl s)"

text \<open>A loop that stops at the first error.\<close>

fun traverse :: "('a \<Rightarrow> 'e + 'b) \<Rightarrow> 'a list \<Rightarrow> 'e + 'b list" where
  "traverse f [] = Inr []"
| "traverse f (x # xs) =
     (case f x of Inl e \<Rightarrow> Inl e | Inr y \<Rightarrow> (case traverse f xs of Inl e \<Rightarrow> Inl e | Inr ys \<Rightarrow> Inr (y # ys)))"

lemma traverse_cong [fundef_cong]: "xs = ys \<Longrightarrow> (\<And>x. x \<in> set ys \<Longrightarrow> f x = g x) \<Longrightarrow> traverse f xs = traverse g ys"
  by (induction xs arbitrary: ys) (auto split: sum.splits)

lemma inner_length: "s \<noteq> [] \<Longrightarrow> length (inner s) < length s"
  by (cases s) (auto simp: inner_def)

end
