(* ===== verification/Pos_Packs.thy ===== *)
theory Pos_Packs
  imports Pos_Store Rule_Citations Go_Yaml
begin

text \<open>
  Rule packs of the POS VAT service (\<^verbatim>\<open>services/pos-vat/packs.go\<close>, \<^verbatim>\<open>citations.go\<close>): the decoded
  YAML values, the pack record, loading (registry first, embedded copy as fallback) and the
  decisions taken from the packs: VAT basket of a category, standard rate, attribution mode
  and shares, designated platform collectors, and the citations of a receipt.

  A decoded YAML document is a value of \<open>yaml\<close>. The decoded document is an argument of the loading
  code here; the parser itself is modelled in \<open>Yaml_Parsers\<close>.
\<close>

fun strOf :: "yaml \<Rightarrow> string" where
  "strOf (YStr s) = s"
| "strOf _ = ''''"

record Rule =
  ruleID :: string
  When :: ymap
  Then :: ymap

record RulePack =
  packID :: string
  packVersion :: string
  EffectiveFrom :: string
  EffectiveTo :: string
  packStatus :: string
  packRegazette :: bool
  Provenance :: ymap
  Signed :: ymap
  Rules :: "Rule list"

datatype pack_error = ParseError | RootNotMap | MissingVersion string

fun ruleOf :: "yaml \<Rightarrow> Rule option" where
  "ruleOf (YMap rm) = Some \<lparr>ruleID = strOf (yget rm ''id''), When = asMap (yget rm ''when''), Then = asMap (yget rm ''then'')\<rparr>"
| "ruleOf _ = None"

text \<open>\<^verbatim>\<open>packFromYAML\<close> on the decoded document (\<open>None\<close>: the parser failed).\<close>

definition packFromYAML :: "string \<Rightarrow> yaml option \<Rightarrow> pack_error + RulePack" where
  "packFromYAML pid doc =
     (case doc of
        None \<Rightarrow> Inl ParseError
      | Some (YMap m) \<Rightarrow>
          (let p = \<lparr>packID = pid, packVersion = strOf (yget m ''version''),
                    EffectiveFrom = strOf (yget m ''effective_from''), EffectiveTo = strOf (yget m ''effective_to''),
                    packStatus = strOf (yget m ''status''), packRegazette = asBool (yget m ''subject_to_regazette''),
                    Provenance = asMap (yget m ''provenance''), Signed = asMap (yget m ''signed''),
                    Rules = List.map_filter ruleOf (asList (yget m ''rules''))\<rparr>
           in if packVersion p = '''' then Inl (MissingVersion pid) else Inr p)
      | Some _ \<Rightarrow> Inl RootNotMap)"

type_synonym PackSet = "string \<rightharpoonup> RulePack"

definition packOrder :: "string list" where
  "packOrder = [''rp-vat-rates'', ''rp-vat-exempt-basket'', ''rp-vat-zerorated-basket'',
                ''rp-vat-attribution-mode'', ''rp-platform-collectors'']"

text \<open>
  Loading one pack: the registry's answer (\<open>None\<close>: no registry, no answer or an unusable
  one) wins, then the embedded copy if it decodes; otherwise the pack set is unchanged.
\<close>

definition loadPack :: "(string \<Rightarrow> RulePack option) \<Rightarrow> (string \<Rightarrow> yaml option option) \<Rightarrow> string \<Rightarrow> PackSet \<Rightarrow> PackSet" where
  "loadPack registry embedded i ps =
     (case registry i of
        Some p \<Rightarrow> ps(i \<mapsto> p)
      | None \<Rightarrow>
          (case embedded i of
             None \<Rightarrow> ps
           | Some doc \<Rightarrow> (case packFromYAML i doc of Inl _ \<Rightarrow> ps | Inr p \<Rightarrow> ps(i \<mapsto> p))))"

definition LoadPacks :: "(string \<Rightarrow> RulePack option) \<Rightarrow> (string \<Rightarrow> yaml option option) \<Rightarrow> PackSet \<Rightarrow> PackSet" where
  "LoadPacks registry embedded ps = fold (loadPack registry embedded) packOrder ps"

definition VersionString :: "PackSet \<Rightarrow> string" where
  "VersionString ps =
     join '','' (List.map_filter (\<lambda>i. map_option (\<lambda>p. i @ ''@'' @ packVersion p) (ps i)) packOrder)"

fun listMatch :: "yaml \<Rightarrow> string \<Rightarrow> bool" where
  "listMatch (YList l) cat = list_ex (\<lambda>e. ToLower (strOf e) = cat) l"
| "listMatch (YStr s) cat = list_ex (\<lambda>e. ToLower (TrimSpace e) = cat) (split_on (CHR '','') s)"
| "listMatch _ cat = False"

definition pack_rules :: "PackSet \<Rightarrow> string \<Rightarrow> Rule list" where
  "pack_rules ps i = (case ps i of None \<Rightarrow> [] | Some p \<Rightarrow> Rules p)"

text \<open>The decisions. A loop over the rules that returns at the first match is \<open>find\<close> or \<open>list_ex\<close>.\<close>

definition BasketFor :: "PackSet \<Rightarrow> string \<Rightarrow> string" where
  "BasketFor ps category =
     (let cat = ToLower (TrimSpace category)
      in if cat = '''' then ''standard_75''
         else if list_ex (\<lambda>r. listMatch (yget (Then r) ''categories'') cat) (pack_rules ps ''rp-vat-exempt-basket'')
         then ''exempt''
         else if list_ex (\<lambda>r. listMatch (yget (Then r) ''categories'') cat) (pack_rules ps ''rp-vat-zerorated-basket'')
         then ''zero_rated''
         else ''standard_75'')"

definition BasketForSKU :: "PackSet \<Rightarrow> string \<Rightarrow> string" where
  "BasketForSKU ps category =
     (let cat = ToLower category
      in case find (\<lambda>r. listMatch (yget (Then r) ''categories'') cat) (pack_rules ps ''rp-vat-nigeria'') of
           Some r \<Rightarrow> strOf (yget (Then r) ''basket'')
         | None \<Rightarrow>
             if cat \<in> {''food'', ''staples'', ''unprocessed food''} then ''food_staples''
             else if cat \<in> {''medicine'', ''pharma'', ''medical''} then ''medicines''
             else if cat \<in> {''book'', ''books'', ''education''} then ''education''
             else if cat = ''export'' then ''exports''
             else ''general'')"

definition VatRateBps :: "PackSet \<Rightarrow> string \<Rightarrow> int64" where
  "VatRateBps ps basket =
     (case List.map_filter (\<lambda>r. if strOf (yget (Then r) ''basket'') = basket then asInt (yget (Then r) ''rate_bps'') else None)
             (pack_rules ps ''rp-vat-nigeria'') of
        rate # _ \<Rightarrow> rate
      | [] \<Rightarrow> if basket \<in> {''food_staples'', ''medicines'', ''education'', ''exports''} then 0 else 750)"

definition StandardRateBPS :: "PackSet \<Rightarrow> int64" where
  "StandardRateBPS ps =
     (case List.map_filter (\<lambda>r. if ruleID r = ''vat.rate.standard'' then asInt (yget (Then r) ''rate_bps'') else None)
             (pack_rules ps ''rp-vat-rates'') of
        bps # _ \<Rightarrow> bps
      | [] \<Rightarrow> 750)"

definition tinPrefix :: "string \<Rightarrow> string" where
  "tinPrefix tin = (if length tin \<ge> 4 then take 4 tin else tin)"

definition IsPlatformCollector :: "PackSet \<Rightarrow> string \<Rightarrow> bool" where
  "IsPlatformCollector ps tin =
     list_ex (\<lambda>r. listMatch (yget (Then r) ''tin_prefixes'') (ToLower (tinPrefix tin)))
       (pack_rules ps ''rp-platform-collectors'')"

record AttributionConfig =
  acMode :: string
  FederalShareBPS :: int64
  StateShareBPS :: int64
  LGAShareBPS :: int64

definition or_int :: "yaml \<Rightarrow> int64 \<Rightarrow> int64" where
  "or_int v d = (case asInt v of Some i \<Rightarrow> i | None \<Rightarrow> d)"

definition attribution_rule :: "Rule \<Rightarrow> AttributionConfig \<Rightarrow> AttributionConfig" where
  "attribution_rule r cfg =
     (let cfg1 = (if ruleID r = ''vat.attribution.mode'' \<and> strOf (yget (Then r) ''mode'') \<noteq> ''''
                  then cfg\<lparr>acMode := strOf (yget (Then r) ''mode'')\<rparr> else cfg)
      in if ruleID r = ''vat.attribution.shares''
         then cfg1\<lparr>FederalShareBPS := or_int (yget (Then r) ''federal_share_bps'') (FederalShareBPS cfg1),
                   StateShareBPS := or_int (yget (Then r) ''state_share_bps'') (StateShareBPS cfg1),
                   LGAShareBPS := or_int (yget (Then r) ''lga_share_bps'') (LGAShareBPS cfg1)\<rparr>
         else cfg1)"

definition attributionConfig :: "PackSet \<Rightarrow> string \<Rightarrow> AttributionConfig" where
  "attributionConfig ps fallback =
     fold attribution_rule (pack_rules ps ''rp-vat-attribution-mode'')
       \<lparr>acMode = fallback, FederalShareBPS = 1000, StateShareBPS = 5500, LGAShareBPS = 3500\<rparr>"

section \<open>Citations of a receipt\<close>

definition zeroRatedCoverageRule :: "string \<rightharpoonup> string" where
  "zeroRatedCoverageRule = map_of
     [(''medical'', ''vat.zero.medical-services''), (''pharmacy'', ''vat.zero.medical-services''),
      (''healthcare'', ''vat.zero.medical-services''), (''hospital_service'', ''vat.zero.medical-services''),
      (''education'', ''vat.zero.education-tuition''), (''tuition'', ''vat.zero.education-tuition''),
      (''books'', ''vat.zero.education-tuition''), (''school_materials'', ''vat.zero.education-tuition'')]"

definition packSourceCitation :: "RulePack option \<Rightarrow> string" where
  "packSourceCitation p = (case p of None \<Rightarrow> '''' | Some p \<Rightarrow> strOf (yget (Provenance p) ''source_citation''))"

definition packVersionOf :: "RulePack option \<Rightarrow> string" where
  "packVersionOf p = (case p of None \<Rightarrow> '''' | Some p \<Rightarrow> packVersion p)"

text \<open>\<open>basketCats b\<close> lists the categories of the lines that fell into basket \<open>b\<close>.\<close>

definition receiptCitations :: "CitationResolver \<Rightarrow> PackSet \<Rightarrow> (string \<Rightarrow> string list) \<Rightarrow> Citation list" where
  "receiptCitations res ps basketCats =
     (let cite = (\<lambda>pid i. Resolve res pid (packVersionOf (ps pid)) i (packSourceCitation (ps pid)));
          zero = basketCats ''zero_rated'';
          hits = List.map_filter (\<lambda>c. zeroRatedCoverageRule (ToLower c)) zero;
          ids = (if hits = [] then [''vat.rate.zero''] else sort (remdups hits))
      in (if basketCats ''standard_75'' \<noteq> [] then [cite ''rp-vat-rates'' ''vat.rate.standard''] else []) @
         (if zero \<noteq> []
          then map (\<lambda>i. cite (if i = ''vat.rate.zero'' then ''rp-vat-rates'' else ''rp-vat-zerorated-basket'') i) ids
          else []) @
         (if basketCats ''exempt'' \<noteq> [] then [cite ''rp-vat-exempt-basket'' ''vat.exempt.basket''] else []))"

section \<open>Lemmas\<close>

lemma BasketFor_cases: "BasketFor ps c \<in> {''standard_75'', ''exempt'', ''zero_rated''}"
  by (simp add: BasketFor_def Let_def)

text \<open>A pack that the registry serves is the one that is used.\<close>

lemma loadPack_other: "i \<noteq> j \<Longrightarrow> loadPack registry embedded i ps j = ps j"
  by (simp add: loadPack_def split: option.split sum.split)

lemma fold_loadPack_other: "j \<notin> set is \<Longrightarrow> fold (loadPack registry embedded) is ps j = ps j"
  by (induction "is" arbitrary: ps) (auto simp: loadPack_other)

lemma fold_loadPack:
  assumes "distinct is" "i \<in> set is"
  shows "fold (loadPack registry embedded) is ps i = loadPack registry embedded i ps i"
  using assms
proof (induction "is" arbitrary: ps)
  case (Cons k ks)
  show ?case
  proof (cases "k = i")
    case True
    with Cons.prems show ?thesis by (simp add: fold_loadPack_other)
  next
    case False
    with Cons have "fold (loadPack registry embedded) ks (loadPack registry embedded k ps) i
        = loadPack registry embedded i (loadPack registry embedded k ps) i" by auto
    also have "\<dots> = loadPack registry embedded i ps i"
      using False by (simp add: loadPack_def loadPack_other split: option.split sum.split)
    finally show ?thesis by simp
  qed
qed simp

lemma distinct_packOrder: "distinct packOrder"
  by (simp add: packOrder_def)

lemma LoadPacks_result:
  "i \<in> set packOrder \<Longrightarrow> LoadPacks registry embedded ps i =
     (case registry i of Some p \<Rightarrow> Some p
      | None \<Rightarrow> (case embedded i of None \<Rightarrow> ps i
               | Some doc \<Rightarrow> (case packFromYAML i doc of Inl _ \<Rightarrow> ps i | Inr p \<Rightarrow> Some p)))"
  unfolding LoadPacks_def fold_loadPack [OF distinct_packOrder]
  by (simp add: loadPack_def split: option.split sum.split)

end
