(* ===== verification/Pos_Ledger.thy ===== *)
theory Pos_Ledger
  imports Go_Prelude
begin

text \<open>
  The VAT remittance ledger of the POS service (\<^verbatim>\<open>services/pos-vat/ledger.go\<close>): accounts,
  transfers, the interface \<open>LedgerClient\<close> the settlement code is written against, and the
  in-memory implementation \<open>DevLedger\<close> with its two-phase (pending, then post or void)
  transfers. A state-changing method takes the ledger and returns it updated together with
  its result; the mutex makes each method one atomic step. Go's struct embedding
  (\<^verbatim>\<open>devAccount\<close>, \<^verbatim>\<open>devTransfer\<close>) is record extension.

  Shown here: the ledger invariant (pending reservations equal the pending transfers, trial
  balance, every transfer refers to existing accounts) and that the operations keep it; the
  laws of the \<open>LedgerClient\<close> interface as the locale \<open>ledger_client\<close>, interpreted on
  \<open>DevLedger\<close>.
\<close>

section \<open>Data\<close>

record LedgerAccount =
  accID :: string
  accLedger :: int
  accCode :: int
  accFlags :: string

record LedgerTransfer =
  txID :: string
  DebitAccountID :: string
  CreditAccountID :: string
  AmountKobo :: int64
  txLedger :: int
  txCode :: int

record LedgerBalance =
  balAccountID :: string
  DebitsPosted :: int64
  CreditsPosted :: int64
  DebitsPending :: int64
  CreditsPending :: int64

record LedgerTransferState =
  tsID :: string
  tsPending :: bool
  tsPosted :: bool
  tsVoided :: bool

record devAccount = LedgerAccount +
  debitsPosted :: int64
  creditsPosted :: int64
  debitsPending :: int64
  creditsPending :: int64

record devTransfer = LedgerTransfer +
  pending :: bool
  voided :: bool
  posted :: bool

record DevLedger =
  accounts :: "string \<rightharpoonup> devAccount"
  transfers :: "string \<rightharpoonup> devTransfer"
  seq :: nat

text \<open>The errors of the ledger methods, one constructor per message of the source.
  \<open>NilAccount\<close> is the nil-pointer panic a dangling account id would cause, \<open>RemoteError\<close>
  any failure of a remote ledger service.\<close>

datatype ledger_error =
    AmountNotPositive
  | DebitAccountMissing string
  | CreditAccountMissing string
  | FloatViolated
  | TransferIdExists
  | NotPostable
  | PostAmountExceeds
  | NotVoidable
  | TransferNotFound
  | AccountNotFound
  | NilAccount
  | RemoteError string

text \<open>\<^verbatim>\<open>accountID\<close>: two big-endian 64-bit words printed as 32 hexadecimal digits.\<close>

definition hex_digit :: "nat \<Rightarrow> char" where
  "hex_digit d = (if d < 10 then char_of (48 + d) else char_of (87 + d))"

fun hex_pad :: "nat \<Rightarrow> nat \<Rightarrow> string" where
  "hex_pad 0 n = []"
| "hex_pad (Suc k) n = hex_pad k (n div 16) @ [hex_digit (n mod 16)]"

definition accountID :: "nat \<Rightarrow> nat \<Rightarrow> string" where
  "accountID namespace serial = hex_pad 16 namespace @ hex_pad 16 serial"

definition LedgerVATRemittance :: nat where "LedgerVATRemittance = 300"
definition NSVATFederalPool :: nat where "NSVATFederalPool = 1"
definition NSVATStatePool :: nat where "NSVATStatePool = 2"
definition NSVATMerchant :: nat where "NSVATMerchant = 3"
definition NSVATLGAPool :: nat where "NSVATLGAPool = 4"

lemmas ledger_consts = LedgerVATRemittance_def NSVATFederalPool_def NSVATStatePool_def
  NSVATMerchant_def NSVATLGAPool_def

definition sameLedgerTransfer :: "'a LedgerTransfer_scheme \<Rightarrow> 'b LedgerTransfer_scheme \<Rightarrow> bool" where
  "sameLedgerTransfer a b \<longleftrightarrow>
     DebitAccountID a = DebitAccountID b \<and> CreditAccountID a = CreditAccountID b \<and>
     AmountKobo a = AmountKobo b \<and> txLedger a = txLedger b \<and> txCode a = txCode b"

section \<open>Operations of the in-memory ledger\<close>

text \<open>A write through an account pointer.\<close>

definition adj :: "string \<Rightarrow> (devAccount \<Rightarrow> devAccount) \<Rightarrow> DevLedger \<Rightarrow> DevLedger" where
  "adj a f d = (case accounts d a of
                  None \<Rightarrow> d
                | Some acc \<Rightarrow> d\<lparr>accounts := (accounts d)(a \<mapsto> f acc)\<rparr>)"

definition CreateAccount :: "LedgerAccount \<Rightarrow> DevLedger \<Rightarrow> DevLedger" where
  "CreateAccount a d =
     (case accounts d (accID a) of
        Some _ \<Rightarrow> d
      | None \<Rightarrow> d\<lparr>accounts := (accounts d)(accID a \<mapsto>
                  LedgerAccount.extend a
                    (devAccount.fields 0 0 0 0))\<rparr>)"

definition CreateAccounts :: "LedgerAccount list \<Rightarrow> DevLedger \<Rightarrow> DevLedger" where
  "CreateAccounts accts d = fold CreateAccount accts d"

definition NewDevLedger :: DevLedger where
  "NewDevLedger = CreateAccounts
     (map (\<lambda>ns. \<lparr>accID = accountID LedgerVATRemittance ns, accLedger = int LedgerVATRemittance,
                 accCode = 5, accFlags = ''''\<rparr>)
        [NSVATFederalPool, NSVATStatePool, NSVATLGAPool])
     \<lparr>accounts = Map.empty, transfers = Map.empty, seq = 0\<rparr>"

text \<open>\<^verbatim>\<open>nextID\<close>: the counter is a uint64.\<close>

definition nextID :: "DevLedger \<Rightarrow> DevLedger \<times> string" where
  "nextID d = (let n = (seq d + 1) mod 2 ^ 64 in (d\<lparr>seq := n\<rparr>, ''dev-tx-'' @ show_nat n))"

definition checkFloat :: "devAccount \<Rightarrow> int64 \<Rightarrow> ledger_error + unit" where
  "checkFloat a amount =
     (if accFlags a = ''DEBITS_MUST_NOT_EXCEED_CREDITS'' \<and> add64 (debitsPosted a) amount > creditsPosted a
      then Inl FloatViolated else Inr ())"

definition checkAccounts :: "'a LedgerTransfer_scheme \<Rightarrow> DevLedger \<Rightarrow> ledger_error + unit" where
  "checkAccounts t d =
     (if AmountKobo t \<le> 0 then Inl AmountNotPositive
      else case accounts d (DebitAccountID t) of
        None \<Rightarrow> Inl (DebitAccountMissing (DebitAccountID t))
      | Some dr \<Rightarrow>
          (case accounts d (CreditAccountID t) of
             None \<Rightarrow> Inl (CreditAccountMissing (CreditAccountID t))
           | Some _ \<Rightarrow> checkFloat dr (AmountKobo t)))"

definition add_posted :: "string \<Rightarrow> string \<Rightarrow> int64 \<Rightarrow> DevLedger \<Rightarrow> DevLedger" where
  "add_posted dr cr amt d =
     adj cr (\<lambda>a. a\<lparr>creditsPosted := add64 (creditsPosted a) amt\<rparr>)
       (adj dr (\<lambda>a. a\<lparr>debitsPosted := add64 (debitsPosted a) amt\<rparr>) d)"

definition add_pending :: "string \<Rightarrow> string \<Rightarrow> int64 \<Rightarrow> DevLedger \<Rightarrow> DevLedger" where
  "add_pending dr cr amt d =
     adj cr (\<lambda>a. a\<lparr>creditsPending := add64 (creditsPending a) amt\<rparr>)
       (adj dr (\<lambda>a. a\<lparr>debitsPending := add64 (debitsPending a) amt\<rparr>) d)"

definition sub_pending :: "string \<Rightarrow> string \<Rightarrow> int64 \<Rightarrow> DevLedger \<Rightarrow> DevLedger" where
  "sub_pending dr cr amt d =
     adj cr (\<lambda>a. a\<lparr>creditsPending := sub64 (creditsPending a) amt\<rparr>)
       (adj dr (\<lambda>a. a\<lparr>debitsPending := sub64 (debitsPending a) amt\<rparr>) d)"

definition put_transfer :: "string \<Rightarrow> devTransfer \<Rightarrow> DevLedger \<Rightarrow> DevLedger" where
  "put_transfer i t d = d\<lparr>transfers := (transfers d)(i \<mapsto> t)\<rparr>"

definition mk_transfer :: "LedgerTransfer \<Rightarrow> string \<Rightarrow> bool \<Rightarrow> bool \<Rightarrow> devTransfer" where
  "mk_transfer t i pend post = LedgerTransfer.extend (t\<lparr>txID := i\<rparr>) (devTransfer.fields pend False post)"

definition assign_id :: "LedgerTransfer \<Rightarrow> DevLedger \<Rightarrow> DevLedger \<times> string" where
  "assign_id t d = (if txID t = '''' then nextID d else (d, txID t))"

definition Transfer :: "LedgerTransfer \<Rightarrow> DevLedger \<Rightarrow> DevLedger \<times> (ledger_error + string)" where
  "Transfer t d =
     (case checkAccounts t d of
        Inl e \<Rightarrow> (d, Inl e)
      | Inr _ \<Rightarrow>
          (let (d1, i) = assign_id t d;
               d2 = add_posted (DebitAccountID t) (CreditAccountID t) (AmountKobo t) d1
           in (put_transfer i (mk_transfer t i False True) d2, Inr i)))"

definition PendingTransfer :: "LedgerTransfer \<Rightarrow> DevLedger \<Rightarrow> DevLedger \<times> (ledger_error + string)" where
  "PendingTransfer t d =
     (case (if txID t \<noteq> '''' then transfers d (txID t) else None) of
        Some existing \<Rightarrow>
          if pending existing \<and> sameLedgerTransfer existing t then (d, Inr (txID t))
          else (d, Inl TransferIdExists)
      | None \<Rightarrow>
          (case checkAccounts t d of
             Inl e \<Rightarrow> (d, Inl e)
           | Inr _ \<Rightarrow>
               (let (d1, i) = assign_id t d;
                    d2 = add_pending (DebitAccountID t) (CreditAccountID t) (AmountKobo t) d1
                in (put_transfer i (mk_transfer t i True False) d2, Inr i))))"

definition PostPending :: "string \<Rightarrow> int64 \<Rightarrow> DevLedger \<Rightarrow> DevLedger \<times> (ledger_error + string)" where
  "PostPending pendingID amount d =
     (case transfers d pendingID of
        None \<Rightarrow> (d, Inl NotPostable)
      | Some tr \<Rightarrow>
          if \<not> pending tr \<or> voided tr then (d, Inl NotPostable)
          else if amount \<le> 0 \<or> amount > AmountKobo tr then (d, Inl PostAmountExceeds)
          else (case (accounts d (DebitAccountID tr), accounts d (CreditAccountID tr)) of
                  (Some dr, Some cr) \<Rightarrow>
                    (let d1 = sub_pending (DebitAccountID tr) (CreditAccountID tr) (AmountKobo tr) d
                     in case checkFloat dr amount of
                          Inl e \<Rightarrow> (d1, Inl e)
                        | Inr _ \<Rightarrow>
                            (put_transfer pendingID (tr\<lparr>pending := False, posted := True\<rparr>)
                               (add_posted (DebitAccountID tr) (CreditAccountID tr) amount d1),
                             Inr pendingID))
                | _ \<Rightarrow> (d, Inl NilAccount)))"

definition VoidPending :: "string \<Rightarrow> DevLedger \<Rightarrow> DevLedger \<times> (ledger_error + unit)" where
  "VoidPending pendingID d =
     (case transfers d pendingID of
        None \<Rightarrow> (d, Inl NotVoidable)
      | Some tr \<Rightarrow>
          if \<not> pending tr \<or> voided tr then (d, Inl NotVoidable)
          else (case (accounts d (DebitAccountID tr), accounts d (CreditAccountID tr)) of
                  (Some dr, Some cr) \<Rightarrow>
                    (put_transfer pendingID (tr\<lparr>pending := False, voided := True\<rparr>)
                       (sub_pending (DebitAccountID tr) (CreditAccountID tr) (AmountKobo tr) d),
                     Inr ())
                | _ \<Rightarrow> (d, Inl NilAccount)))"

definition GetTransfer :: "string \<Rightarrow> DevLedger \<Rightarrow> ledger_error + LedgerTransferState" where
  "GetTransfer i d =
     (case transfers d i of
        None \<Rightarrow> Inl TransferNotFound
      | Some tr \<Rightarrow> Inr \<lparr>tsID = i, tsPending = pending tr, tsPosted = posted tr, tsVoided = voided tr\<rparr>)"

definition Balance :: "string \<Rightarrow> DevLedger \<Rightarrow> ledger_error + LedgerBalance" where
  "Balance i d =
     (case accounts d i of
        None \<Rightarrow> Inl AccountNotFound
      | Some a \<Rightarrow> Inr \<lparr>balAccountID = i, DebitsPosted = debitsPosted a, CreditsPosted = creditsPosted a,
                     DebitsPending = debitsPending a, CreditsPending = creditsPending a\<rparr>)"

text \<open>Go's interface type: a value of it is a table of methods over some ledger state.\<close>

record 'l LedgerClient =
  lcCreateAccounts :: "LedgerAccount list \<Rightarrow> 'l \<Rightarrow> 'l"
  lcTransfer :: "LedgerTransfer \<Rightarrow> 'l \<Rightarrow> 'l \<times> (ledger_error + string)"
  lcPendingTransfer :: "LedgerTransfer \<Rightarrow> 'l \<Rightarrow> 'l \<times> (ledger_error + string)"
  lcPostPending :: "string \<Rightarrow> int64 \<Rightarrow> 'l \<Rightarrow> 'l \<times> (ledger_error + string)"
  lcVoidPending :: "string \<Rightarrow> 'l \<Rightarrow> 'l \<times> (ledger_error + unit)"
  lcGetTransfer :: "string \<Rightarrow> 'l \<Rightarrow> ledger_error + LedgerTransferState"
  lcBalance :: "string \<Rightarrow> 'l \<Rightarrow> ledger_error + LedgerBalance"
  lcMode :: string

definition devClient :: "DevLedger LedgerClient" where
  "devClient = \<lparr>lcCreateAccounts = CreateAccounts, lcTransfer = Transfer,
     lcPendingTransfer = PendingTransfer, lcPostPending = PostPending, lcVoidPending = VoidPending,
     lcGetTransfer = GetTransfer, lcBalance = Balance, lcMode = ''dev''\<rparr>"

section \<open>The ledger invariant\<close>

text \<open>What the pending transfers hold back on one side of an account.\<close>

definition held :: "(devTransfer \<Rightarrow> string) \<Rightarrow> DevLedger \<Rightarrow> string \<Rightarrow> int" where
  "held side d a = msum (\<lambda>t. if pending t \<and> side t = a then AmountKobo t else 0) (transfers d)"

definition transfer_ok :: "DevLedger \<Rightarrow> string \<Rightarrow> devTransfer \<Rightarrow> bool" where
  "transfer_ok d i t \<longleftrightarrow>
     txID t = i \<and> 0 < AmountKobo t \<and> in64 (AmountKobo t) \<and>
     accounts d (DebitAccountID t) \<noteq> None \<and> accounts d (CreditAccountID t) \<noteq> None \<and>
     (pending t \<and> \<not> posted t \<and> \<not> voided t \<or> \<not> pending t \<and> posted t \<and> \<not> voided t \<or>
      \<not> pending t \<and> \<not> posted t \<and> voided t)"

definition ledger_inv :: "DevLedger \<Rightarrow> bool" where
  "ledger_inv d \<longleftrightarrow>
     finite (dom (accounts d)) \<and> finite (dom (transfers d)) \<and>
     (\<forall>i t. transfers d i = Some t \<longrightarrow> transfer_ok d i t) \<and>
     (\<forall>a acc. accounts d a = Some acc \<longrightarrow>
        debitsPending acc = wrap64 (held DebitAccountID d a) \<and>
        creditsPending acc = wrap64 (held CreditAccountID d a)) \<and>
     wrap64 (msum debitsPosted (accounts d)) = wrap64 (msum creditsPosted (accounts d))"

text \<open>What each write does, field by field.\<close>

lemma adj_simps [simp]:
  "transfers (adj a f d) = transfers d" "seq (adj a f d) = seq d"
  "dom (accounts (adj a f d)) = dom (accounts d)"
  "accounts (adj a f d) b = (if b = a then map_option f (accounts d a) else accounts d b)"
  by (auto simp: adj_def split: option.splits)

lemma add_posted_simps [simp]:
  "transfers (add_posted dr cr amt d) = transfers d" "seq (add_posted dr cr amt d) = seq d"
  "dom (accounts (add_posted dr cr amt d)) = dom (accounts d)"
  by (simp_all add: add_posted_def)

lemma add_pending_simps [simp]:
  "transfers (add_pending dr cr amt d) = transfers d" "seq (add_pending dr cr amt d) = seq d"
  "dom (accounts (add_pending dr cr amt d)) = dom (accounts d)"
  by (simp_all add: add_pending_def)

lemma sub_pending_simps [simp]:
  "transfers (sub_pending dr cr amt d) = transfers d" "seq (sub_pending dr cr amt d) = seq d"
  "dom (accounts (sub_pending dr cr amt d)) = dom (accounts d)"
  by (simp_all add: sub_pending_def)

lemma accounts_add_posted:
  "accounts (add_posted dr cr amt d) a =
     map_option (\<lambda>acc. acc\<lparr>debitsPosted := (if a = dr then add64 (debitsPosted acc) amt else debitsPosted acc),
                           creditsPosted := (if a = cr then add64 (creditsPosted acc) amt else creditsPosted acc)\<rparr>)
       (accounts d a)"
  by (cases "accounts d a") (auto simp: add_posted_def)

lemma accounts_add_pending:
  "accounts (add_pending dr cr amt d) a =
     map_option (\<lambda>acc. acc\<lparr>debitsPending := (if a = dr then add64 (debitsPending acc) amt else debitsPending acc),
                           creditsPending := (if a = cr then add64 (creditsPending acc) amt else creditsPending acc)\<rparr>)
       (accounts d a)"
  by (cases "accounts d a") (auto simp: add_pending_def)

lemma accounts_sub_pending:
  "accounts (sub_pending dr cr amt d) a =
     map_option (\<lambda>acc. acc\<lparr>debitsPending := (if a = dr then sub64 (debitsPending acc) amt else debitsPending acc),
                           creditsPending := (if a = cr then sub64 (creditsPending acc) amt else creditsPending acc)\<rparr>)
       (accounts d a)"
  by (cases "accounts d a") (auto simp: sub_pending_def)

lemma put_transfer_simps [simp]:
  "accounts (put_transfer i t d) = accounts d" "seq (put_transfer i t d) = seq d"
  "transfers (put_transfer i t d) = (transfers d)(i \<mapsto> t)"
  by (simp_all add: put_transfer_def)

lemma mk_transfer_simps [simp]:
  "txID (mk_transfer t i p q) = i" "DebitAccountID (mk_transfer t i p q) = DebitAccountID t"
  "CreditAccountID (mk_transfer t i p q) = CreditAccountID t" "AmountKobo (mk_transfer t i p q) = AmountKobo t"
  "txLedger (mk_transfer t i p q) = txLedger t" "txCode (mk_transfer t i p q) = txCode t"
  "pending (mk_transfer t i p q) = p" "posted (mk_transfer t i p q) = q" "voided (mk_transfer t i p q) = False"
  by (simp_all add: mk_transfer_def LedgerTransfer.defs devTransfer.defs)

lemma assign_id_simps [simp]:
  "accounts (fst (assign_id t d)) = accounts d" "transfers (fst (assign_id t d)) = transfers d"
  by (simp_all add: assign_id_def nextID_def Let_def)

lemma msum_adj:
  assumes "finite (dom (accounts d))" "accounts d a = Some acc"
  shows "msum g (accounts (adj a f d)) = msum g (accounts d) - g acc + g (f acc)"
  using assms by (simp add: adj_def msum_upd)

text \<open>Two readings of the accounts that an \<open>adj\<close> does not write are unchanged by it.\<close>

lemma msum_adj_same:
  assumes "\<And>acc. g (f acc) = g acc"
  shows "msum g (accounts (adj a f d)) = msum g (accounts d)"
proof -
  have "(case accounts (adj a f d) b of None \<Rightarrow> 0 | Some v \<Rightarrow> g v)
      = (case accounts d b of None \<Rightarrow> 0 | Some v \<Rightarrow> g v)" for b
    by (auto simp: assms split: option.splits)
  then show ?thesis by (simp add: msum_def)
qed

lemma trial_balance_add_posted:
  assumes fin: "finite (dom (accounts d))" and dr: "accounts d dr \<noteq> None" and cr: "accounts d cr \<noteq> None"
  shows "wrap64 (msum debitsPosted (accounts (add_posted dr cr amt d))) = wrap64 (msum debitsPosted (accounts d) + amt)"
    and "wrap64 (msum creditsPosted (accounts (add_posted dr cr amt d))) = wrap64 (msum creditsPosted (accounts d) + amt)"
proof -
  let ?f = "\<lambda>a. a\<lparr>debitsPosted := add64 (debitsPosted a) amt\<rparr>"
  let ?g = "\<lambda>a. a\<lparr>creditsPosted := add64 (creditsPosted a) amt\<rparr>"
  obtain x where x: "accounts d dr = Some x" using dr by auto
  obtain y where y: "accounts d cr = Some y" using cr by auto
  have shift: "wrap64 (s - u + add64 u amt) = wrap64 (s + amt)" for s u
    by (simp add: add64_def)
  have "msum debitsPosted (accounts (add_posted dr cr amt d)) = msum debitsPosted (accounts (adj dr ?f d))"
    unfolding add_posted_def by (rule msum_adj_same) simp
  then show "wrap64 (msum debitsPosted (accounts (add_posted dr cr amt d))) = wrap64 (msum debitsPosted (accounts d) + amt)"
    using msum_adj [OF fin x, of debitsPosted ?f] shift by simp
  obtain y' where y': "accounts (adj dr ?f d) cr = Some y'" "creditsPosted y' = creditsPosted y"
    using y by (cases "cr = dr") auto
  have "msum creditsPosted (accounts (adj cr ?g (adj dr ?f d)))
      = msum creditsPosted (accounts (adj dr ?f d)) - creditsPosted y' + add64 (creditsPosted y') amt"
    using msum_adj [OF _ y'(1), of creditsPosted ?g] fin by simp
  moreover have "msum creditsPosted (accounts (adj dr ?f d)) = msum creditsPosted (accounts d)"
    by (rule msum_adj_same) simp
  ultimately show "wrap64 (msum creditsPosted (accounts (add_posted dr cr amt d))) = wrap64 (msum creditsPosted (accounts d) + amt)"
    using shift by (simp add: add_posted_def)
qed

lemma trial_balance_pending:
  "msum debitsPosted (accounts (add_pending dr cr amt d)) = msum debitsPosted (accounts d)"
  "msum creditsPosted (accounts (add_pending dr cr amt d)) = msum creditsPosted (accounts d)"
  "msum debitsPosted (accounts (sub_pending dr cr amt d)) = msum debitsPosted (accounts d)"
  "msum creditsPosted (accounts (sub_pending dr cr amt d)) = msum creditsPosted (accounts d)"
  unfolding add_pending_def sub_pending_def
  by (rule trans [OF msum_adj_same msum_adj_same]; simp)+

text \<open>What one pending transfer holds, and how replacing a transfer changes the holds.\<close>

definition hold :: "(devTransfer \<Rightarrow> string) \<Rightarrow> devTransfer option \<Rightarrow> string \<Rightarrow> int" where
  "hold side ot a = (case ot of None \<Rightarrow> 0 | Some t \<Rightarrow> if pending t \<and> side t = a then AmountKobo t else 0)"

lemma held_put:
  assumes "finite (dom (transfers d))" "transfers d' = (transfers d)(i \<mapsto> t)"
  shows "held side d' a = held side d a - hold side (transfers d i) a + hold side (Some t) a"
  using assms by (simp add: held_def msum_upd hold_def split: option.splits)

lemma ledger_invD:
  assumes "ledger_inv d"
  shows "finite (dom (accounts d))" "finite (dom (transfers d))"
    "transfers d i = Some t \<Longrightarrow> transfer_ok d i t"
    "accounts d a = Some acc \<Longrightarrow> debitsPending acc = wrap64 (held DebitAccountID d a)"
    "accounts d a = Some acc \<Longrightarrow> creditsPending acc = wrap64 (held CreditAccountID d a)"
    "wrap64 (msum debitsPosted (accounts d)) = wrap64 (msum creditsPosted (accounts d))"
  using assms by (auto simp: ledger_inv_def)

text \<open>
  The one proof obligation of every operation: the transfer table gains or replaces one
  entry \<open>t\<close> at \<open>i\<close>, the pending totals of every account move by the difference of what
  the old and the new entry hold, and the trial balance is kept.
\<close>

lemma ledger_inv_step:
  assumes inv: "ledger_inv d"
    and tr: "transfers d' = (transfers d)(i \<mapsto> t)"
    and dom: "dom (accounts d') = dom (accounts d)"
    and ok: "transfer_ok d i t"
    and pend: "\<And>a acc'. accounts d' a = Some acc' \<Longrightarrow> \<exists>acc. accounts d a = Some acc \<and>
        debitsPending acc' = wrap64 (debitsPending acc - hold DebitAccountID (transfers d i) a + hold DebitAccountID (Some t) a) \<and>
        creditsPending acc' = wrap64 (creditsPending acc - hold CreditAccountID (transfers d i) a + hold CreditAccountID (Some t) a)"
    and bal: "wrap64 (msum debitsPosted (accounts d')) = wrap64 (msum creditsPosted (accounts d'))"
  shows "ledger_inv d'"
proof -
  note D = ledger_invD [OF inv]
  have exists: "accounts d' a \<noteq> None \<longleftrightarrow> accounts d a \<noteq> None" for a
    using dom by (auto simp: dom_def)
  have oks: "transfer_ok d' j u" if "transfers d' j = Some u" for j u
  proof (cases "j = i")
    case True
    with that tr ok exists show ?thesis by (simp add: transfer_ok_def)
  next
    case False
    with that tr have "transfer_ok d j u" by (intro D(3)) simp
    with exists show ?thesis by (simp add: transfer_ok_def)
  qed
  moreover have "debitsPending acc' = wrap64 (held DebitAccountID d' a) \<and> creditsPending acc' = wrap64 (held CreditAccountID d' a)"
    if a: "accounts d' a = Some acc'" for a acc'
  proof -
    obtain acc where acc: "accounts d a = Some acc"
      "debitsPending acc' = wrap64 (debitsPending acc - hold DebitAccountID (transfers d i) a + hold DebitAccountID (Some t) a)"
      "creditsPending acc' = wrap64 (creditsPending acc - hold CreditAccountID (transfers d i) a + hold CreditAccountID (Some t) a)"
      using pend [OF a] by blast
    have w: "wrap64 (wrap64 x - u + v) = wrap64 (x - u + v)" for x u v
      using wrap64_add_left [of x "v - u"] by (simp add: algebra_simps)
    show ?thesis
      unfolding held_put [OF D(2) tr] acc(2,3) D(4) [OF acc(1)] D(5) [OF acc(1)] w by simp
  qed
  ultimately show ?thesis
    using D(1,2) dom tr bal by (auto simp: ledger_inv_def)
qed

section \<open>The operations keep the invariant\<close>

lemma hold_None [simp]: "hold side None a = 0"
  by (simp add: hold_def)

lemma hold_Some: "hold side (Some t) a = (if pending t \<and> side t = a then AmountKobo t else 0)"
  by (simp add: hold_def)

lemma hold_not_pending [simp]: "\<not> pending t \<Longrightarrow> hold side (Some t) a = 0"
  by (simp add: hold_def)

text \<open>Nothing is held on an account that does not exist.\<close>

lemma held_no_account:
  assumes "ledger_inv d" "accounts d a = None"
  shows "held DebitAccountID d a = 0" "held CreditAccountID d a = 0"
proof -
  have "DebitAccountID t \<noteq> a \<and> CreditAccountID t \<noteq> a" if "transfers d i = Some t" for i t
    using ledger_invD(3) [OF assms(1) that] assms(2) by (auto simp: transfer_ok_def)
  then show "held DebitAccountID d a = 0" "held CreditAccountID d a = 0"
    by (auto simp: held_def msum_def intro!: sum.neutral split: option.splits)
qed

lemma CreateAccount_inv:
  assumes inv: "ledger_inv d"
  shows "ledger_inv (CreateAccount a d)"
proof (cases "accounts d (accID a)")
  case (Some acc)
  with inv show ?thesis by (simp add: CreateAccount_def)
next
  case None
  let ?new = "LedgerAccount.extend a (devAccount.fields 0 0 0 0)"
  let ?d = "d\<lparr>accounts := (accounts d)(accID a \<mapsto> ?new)\<rparr>"
  note D = ledger_invD [OF inv] and H = held_no_account [OF inv None]
  have held: "held side ?d b = held side d b" for side b
    by (simp add: held_def)
  have "transfer_ok ?d i t" if "transfers d i = Some t" for i t
    using D(3) [OF that] by (auto simp: transfer_ok_def)
  moreover have "debitsPending ?new = 0" "creditsPending ?new = 0" "debitsPosted ?new = 0" "creditsPosted ?new = 0"
    by (simp_all add: LedgerAccount.defs devAccount.defs)
  moreover have "wrap64 0 = 0" by (simp add: wrap64_id)
  ultimately have "ledger_inv ?d"
    using D None H by (auto simp: ledger_inv_def held msum_upd)
  with None show ?thesis by (simp add: CreateAccount_def)
qed

lemma CreateAccounts_inv: "ledger_inv d \<Longrightarrow> ledger_inv (CreateAccounts accts d)"
  unfolding CreateAccounts_def by (induction accts arbitrary: d) (simp_all add: CreateAccount_inv)

lemma NewDevLedger_inv: "ledger_inv NewDevLedger"
  unfolding NewDevLedger_def
  by (rule CreateAccounts_inv) (simp add: ledger_inv_def wrap64_id)

lemma checkAccounts_ok:
  assumes "checkAccounts t d = Inr u"
  shows "0 < AmountKobo t" "accounts d (DebitAccountID t) \<noteq> None" "accounts d (CreditAccountID t) \<noteq> None"
  using assms by (auto simp: checkAccounts_def split: if_splits option.splits)

text \<open>An id may be used for a new transfer when no transfer under it is still pending.\<close>

definition not_pending :: "DevLedger \<Rightarrow> string \<Rightarrow> bool" where
  "not_pending d i \<longleftrightarrow> (\<forall>u. transfers d i = Some u \<longrightarrow> \<not> pending u)"

lemma hold_not_pending_id: "not_pending d i \<Longrightarrow> hold side (transfers d i) a = 0"
  by (cases "transfers d i") (auto simp: not_pending_def)

lemma wrap64_accounts:
  assumes "ledger_inv d" "accounts d a = Some acc"
  shows "wrap64 (debitsPending acc) = debitsPending acc" "wrap64 (creditsPending acc) = creditsPending acc"
  using ledger_invD(4,5) [OF assms(1) assms(2)] by (simp_all add: wrap64_id)

lemma Transfer_inv:
  assumes inv: "ledger_inv d" and amt: "in64 (AmountKobo t)"
    and fresh: "not_pending d (snd (assign_id t d))"
  shows "ledger_inv (fst (Transfer t d))"
proof (cases "checkAccounts t d")
  case (Inl e)
  with inv show ?thesis by (simp add: Transfer_def)
next
  case (Inr u)
  note A = checkAccounts_ok [OF Inr]
  let ?i = "snd (assign_id t d)" and ?x = "mk_transfer t (snd (assign_id t d)) False True"
  let ?p = "add_posted (DebitAccountID t) (CreditAccountID t) (AmountKobo t) (fst (assign_id t d))"
  have res: "fst (Transfer t d) = put_transfer ?i ?x ?p"
    using Inr by (simp add: Transfer_def Let_def split_beta)
  show ?thesis
  proof (rule ledger_inv_step [OF inv, where i = ?i and t = ?x])
    show "transfers (fst (Transfer t d)) = (transfers d)(?i \<mapsto> ?x)"
      "dom (accounts (fst (Transfer t d))) = dom (accounts d)"
      by (simp_all add: res)
    show "transfer_ok d ?i ?x"
      using A amt by (simp add: transfer_ok_def)
    show "wrap64 (msum debitsPosted (accounts (fst (Transfer t d)))) = wrap64 (msum creditsPosted (accounts (fst (Transfer t d))))"
      using trial_balance_add_posted [of "fst (assign_id t d)" "DebitAccountID t" "CreditAccountID t"]
        ledger_invD(1,6) [OF inv] A
      by (simp add: res) (metis wrap64_add_left)
  next
    fix a acc'
    assume "accounts (fst (Transfer t d)) a = Some acc'"
    then obtain acc where "accounts d a = Some acc" "debitsPending acc' = debitsPending acc" "creditsPending acc' = creditsPending acc"
      by (auto simp: res accounts_add_posted)
    then show "\<exists>acc. accounts d a = Some acc \<and>
        debitsPending acc' = wrap64 (debitsPending acc - hold DebitAccountID (transfers d ?i) a + hold DebitAccountID (Some ?x) a) \<and>
        creditsPending acc' = wrap64 (creditsPending acc - hold CreditAccountID (transfers d ?i) a + hold CreditAccountID (Some ?x) a)"
      using wrap64_accounts [OF inv] by (simp add: hold_not_pending_id [OF fresh])
  qed
qed

lemma PendingTransfer_inv:
  assumes inv: "ledger_inv d" and amt: "in64 (AmountKobo t)"
    and fresh: "txID t = '''' \<Longrightarrow> not_pending d (snd (assign_id t d))"
  shows "ledger_inv (fst (PendingTransfer t d))"
proof (cases "(if txID t \<noteq> '''' then transfers d (txID t) else None) = None \<and> is_ok (checkAccounts t d)")
  case False
  with inv show ?thesis
    by (auto simp: PendingTransfer_def is_ok_iff split: option.splits sum.splits)
next
  case True
  then obtain u where ok: "checkAccounts t d = Inr u" by (auto simp: is_ok_iff)
  note A = checkAccounts_ok [OF ok]
  let ?i = "snd (assign_id t d)" and ?x = "mk_transfer t (snd (assign_id t d)) True False"
  let ?p = "add_pending (DebitAccountID t) (CreditAccountID t) (AmountKobo t) (fst (assign_id t d))"
  have free: "not_pending d ?i"
    using True fresh by (auto simp: assign_id_def not_pending_def split: if_splits)
  have res: "fst (PendingTransfer t d) = put_transfer ?i ?x ?p"
    using True ok by (simp add: PendingTransfer_def Let_def split_beta)
  show ?thesis
  proof (rule ledger_inv_step [OF inv, where i = ?i and t = ?x])
    show "transfers (fst (PendingTransfer t d)) = (transfers d)(?i \<mapsto> ?x)"
      "dom (accounts (fst (PendingTransfer t d))) = dom (accounts d)"
      by (simp_all add: res)
    show "transfer_ok d ?i ?x"
      using A amt by (simp add: transfer_ok_def)
    show "wrap64 (msum debitsPosted (accounts (fst (PendingTransfer t d)))) = wrap64 (msum creditsPosted (accounts (fst (PendingTransfer t d))))"
      using ledger_invD(6) [OF inv] by (simp add: res trial_balance_pending)
  next
    fix a acc'
    assume "accounts (fst (PendingTransfer t d)) a = Some acc'"
    then obtain acc where "accounts d a = Some acc"
      "debitsPending acc' = (if a = DebitAccountID t then add64 (debitsPending acc) (AmountKobo t) else debitsPending acc)"
      "creditsPending acc' = (if a = CreditAccountID t then add64 (creditsPending acc) (AmountKobo t) else creditsPending acc)"
      by (auto simp: res accounts_add_pending)
    then show "\<exists>acc. accounts d a = Some acc \<and>
        debitsPending acc' = wrap64 (debitsPending acc - hold DebitAccountID (transfers d ?i) a + hold DebitAccountID (Some ?x) a) \<and>
        creditsPending acc' = wrap64 (creditsPending acc - hold CreditAccountID (transfers d ?i) a + hold CreditAccountID (Some ?x) a)"
      using wrap64_accounts [OF inv] by (auto simp: hold_not_pending_id [OF free] hold_Some add64_def)
  qed
qed

text \<open>The accounts a pending transfer names are there, so posting and voiding never panic.\<close>

lemma pending_accounts:
  assumes "ledger_inv d" "transfers d i = Some tr"
  obtains dr cr where "accounts d (DebitAccountID tr) = Some dr" "accounts d (CreditAccountID tr) = Some cr"
  using ledger_invD(3) [OF assms] by (auto simp: transfer_ok_def)

text \<open>Releasing the reservation of a pending transfer that leaves the pending state.\<close>

lemma release_inv:
  assumes inv: "ledger_inv d" and tr: "transfers d i = Some tr" and pend: "pending tr"
    and tr': "\<not> pending tr'" "transfer_ok d i tr'"
    and d': "transfers d' = (transfers d)(i \<mapsto> tr')"
      "dom (accounts d') = dom (accounts d)"
      "\<And>a. map_option (\<lambda>acc. (debitsPending acc, creditsPending acc)) (accounts d' a)
         = map_option (\<lambda>acc. (debitsPending acc, creditsPending acc))
             (accounts (sub_pending (DebitAccountID tr) (CreditAccountID tr) (AmountKobo tr) d) a)"
      "wrap64 (msum debitsPosted (accounts d')) = wrap64 (msum creditsPosted (accounts d'))"
  shows "ledger_inv d'"
proof (rule ledger_inv_step [OF inv d'(1,2) tr'(2)])
  show "wrap64 (msum debitsPosted (accounts d')) = wrap64 (msum creditsPosted (accounts d'))"
    by (rule d'(4))
  fix a acc'
  assume a: "accounts d' a = Some acc'"
  then obtain acc where "accounts d a = Some acc"
    "debitsPending acc' = (if a = DebitAccountID tr then sub64 (debitsPending acc) (AmountKobo tr) else debitsPending acc)"
    "creditsPending acc' = (if a = CreditAccountID tr then sub64 (creditsPending acc) (AmountKobo tr) else creditsPending acc)"
    using d'(3) [of a] by (cases "accounts d a") (auto simp: accounts_sub_pending)
  then show "\<exists>acc. accounts d a = Some acc \<and>
      debitsPending acc' = wrap64 (debitsPending acc - hold DebitAccountID (transfers d i) a + hold DebitAccountID (Some tr') a) \<and>
      creditsPending acc' = wrap64 (creditsPending acc - hold CreditAccountID (transfers d i) a + hold CreditAccountID (Some tr') a)"
    using wrap64_accounts [OF inv] tr pend tr'(1) by (auto simp: hold_Some sub64_def)
qed

lemma VoidPending_inv:
  assumes inv: "ledger_inv d"
  shows "ledger_inv (fst (VoidPending i d))"
proof (cases "\<exists>tr. transfers d i = Some tr \<and> pending tr \<and> \<not> voided tr")
  case False
  with inv show ?thesis by (auto simp: VoidPending_def split: option.splits)
next
  case True
  then obtain tr where tr: "transfers d i = Some tr" "pending tr" "\<not> voided tr" by blast
  obtain dr cr where acc: "accounts d (DebitAccountID tr) = Some dr" "accounts d (CreditAccountID tr) = Some cr"
    using pending_accounts [OF inv tr(1)] .
  let ?t = "tr\<lparr>pending := False, voided := True\<rparr>"
  have res: "fst (VoidPending i d) = put_transfer i ?t (sub_pending (DebitAccountID tr) (CreditAccountID tr) (AmountKobo tr) d)"
    using tr acc by (simp add: VoidPending_def)
  show ?thesis
  proof (rule release_inv [OF inv tr(1,2), where tr' = ?t])
    show "transfer_ok d i ?t"
      using ledger_invD(3) [OF inv tr(1)] tr by (auto simp: transfer_ok_def)
    show "wrap64 (msum debitsPosted (accounts (fst (VoidPending i d)))) = wrap64 (msum creditsPosted (accounts (fst (VoidPending i d))))"
      using ledger_invD(6) [OF inv] by (simp add: res trial_balance_pending)
  qed (simp_all add: res)
qed

lemma PostPending_inv:
  assumes inv: "ledger_inv d" and nofloat: "snd (PostPending i amount d) \<noteq> Inl FloatViolated"
  shows "ledger_inv (fst (PostPending i amount d))"
proof (cases "\<exists>tr. transfers d i = Some tr \<and> pending tr \<and> \<not> voided tr \<and> 0 < amount \<and> amount \<le> AmountKobo tr")
  case False
  with inv show ?thesis by (auto simp: PostPending_def split: option.splits)
next
  case True
  then obtain tr where tr: "transfers d i = Some tr" "pending tr" "\<not> voided tr" "0 < amount" "amount \<le> AmountKobo tr"
    by blast
  obtain dr cr where acc: "accounts d (DebitAccountID tr) = Some dr" "accounts d (CreditAccountID tr) = Some cr"
    using pending_accounts [OF inv tr(1)] .
  have float: "checkFloat dr amount = Inr ()"
    using nofloat tr acc by (auto simp: PostPending_def checkFloat_def Let_def split: if_splits)
  let ?t = "tr\<lparr>pending := False, posted := True\<rparr>"
  let ?s = "sub_pending (DebitAccountID tr) (CreditAccountID tr) (AmountKobo tr) d"
  let ?p = "add_posted (DebitAccountID tr) (CreditAccountID tr) amount ?s"
  have res: "fst (PostPending i amount d) = put_transfer i ?t ?p"
    using tr acc float by (simp add: PostPending_def Let_def)
  have ex: "accounts ?s (DebitAccountID tr) \<noteq> None" "accounts ?s (CreditAccountID tr) \<noteq> None"
    using acc by (simp_all add: accounts_sub_pending)
  have fin: "finite (dom (accounts ?s))" using ledger_invD(1) [OF inv] by simp
  show ?thesis
  proof (rule release_inv [OF inv tr(1,2), where tr' = ?t])
    show "transfer_ok d i ?t"
      using ledger_invD(3) [OF inv tr(1)] tr by (auto simp: transfer_ok_def)
    show "wrap64 (msum debitsPosted (accounts (fst (PostPending i amount d)))) = wrap64 (msum creditsPosted (accounts (fst (PostPending i amount d))))"
      using trial_balance_add_posted [OF fin ex, of amount] ledger_invD(6) [OF inv]
      by (simp add: res trial_balance_pending) (metis wrap64_add_left)
  qed (auto simp: res accounts_add_posted option.map_comp comp_def)
qed

section \<open>Reachable ledgers\<close>

definition float_flag :: string where
  "float_flag = ''DEBITS_MUST_NOT_EXCEED_CREDITS''"

definition unflagged :: "DevLedger \<Rightarrow> bool" where
  "unflagged d \<longleftrightarrow> (\<forall>a acc. accounts d a = Some acc \<longrightarrow> accFlags acc \<noteq> float_flag)"

text \<open>
  The ledgers the service can produce: it opens accounts without the float flag, and it
  names a new transfer by an id under which nothing is pending.
\<close>

inductive ledger_reach :: "DevLedger \<Rightarrow> bool" where
  new: "ledger_reach NewDevLedger"
| create: "ledger_reach d \<Longrightarrow> \<forall>a\<in>set accts. accFlags a \<noteq> float_flag \<Longrightarrow>
     ledger_reach (CreateAccounts accts d)"
| transfer: "ledger_reach d \<Longrightarrow> in64 (AmountKobo t) \<Longrightarrow> not_pending d (snd (assign_id t d)) \<Longrightarrow>
     ledger_reach (fst (Transfer t d))"
| hold_funds: "ledger_reach d \<Longrightarrow> in64 (AmountKobo t) \<Longrightarrow> txID t \<noteq> '''' \<Longrightarrow>
     ledger_reach (fst (PendingTransfer t d))"
| post: "ledger_reach d \<Longrightarrow> ledger_reach (fst (PostPending i amount d))"
| void: "ledger_reach d \<Longrightarrow> ledger_reach (fst (VoidPending i d))"

lemma flags_add_posted: "map_option accFlags (accounts (add_posted dr cr amt d) a) = map_option accFlags (accounts d a)"
  by (cases "accounts d a") (simp_all add: accounts_add_posted)

lemma flags_add_pending: "map_option accFlags (accounts (add_pending dr cr amt d) a) = map_option accFlags (accounts d a)"
  by (cases "accounts d a") (simp_all add: accounts_add_pending)

lemma flags_sub_pending: "map_option accFlags (accounts (sub_pending dr cr amt d) a) = map_option accFlags (accounts d a)"
  by (cases "accounts d a") (simp_all add: accounts_sub_pending)

lemmas flags_simps = flags_add_posted flags_add_pending flags_sub_pending

lemma flags_ops:
  "map_option accFlags (accounts (fst (Transfer t d)) a) = map_option accFlags (accounts d a)"
  "map_option accFlags (accounts (fst (PendingTransfer t d)) a) = map_option accFlags (accounts d a)"
  "map_option accFlags (accounts (fst (PostPending i amount d)) a) = map_option accFlags (accounts d a)"
  "map_option accFlags (accounts (fst (VoidPending i d)) a) = map_option accFlags (accounts d a)"
  by (simp_all add: Transfer_def PendingTransfer_def PostPending_def VoidPending_def Let_def split_beta
        flags_simps split: sum.split option.split prod.split)

lemma unflagged_same:
  assumes "\<And>a. map_option accFlags (accounts d' a) = map_option accFlags (accounts d a)" "unflagged d"
  shows "unflagged d'"
  unfolding unflagged_def
proof (intro allI impI)
  fix a acc
  assume "accounts d' a = Some acc"
  then obtain acc0 where "accounts d a = Some acc0" "accFlags acc = accFlags acc0"
    using assms(1) [of a] by (cases "accounts d a") auto
  with assms(2) show "accFlags acc \<noteq> float_flag" by (auto simp: unflagged_def)
qed

lemma unflagged_CreateAccount: "unflagged d \<Longrightarrow> accFlags a \<noteq> float_flag \<Longrightarrow> unflagged (CreateAccount a d)"
  by (auto simp: unflagged_def CreateAccount_def LedgerAccount.defs devAccount.defs split: option.splits if_splits)

lemma unflagged_CreateAccounts:
  "unflagged d \<Longrightarrow> \<forall>a\<in>set accts. accFlags a \<noteq> float_flag \<Longrightarrow> unflagged (CreateAccounts accts d)"
  unfolding CreateAccounts_def by (induction accts arbitrary: d) (simp_all add: unflagged_CreateAccount)

lemma unflagged_NewDevLedger: "unflagged NewDevLedger"
  unfolding NewDevLedger_def
  by (rule unflagged_CreateAccounts) (auto simp: unflagged_def float_flag_def)

lemma unflagged_no_float: "unflagged d \<Longrightarrow> snd (PostPending i amount d) \<noteq> Inl FloatViolated"
  by (auto simp: PostPending_def checkFloat_def unflagged_def float_flag_def Let_def
      split: option.splits if_splits)

lemma ledger_reach_inv: "ledger_reach d \<Longrightarrow> ledger_inv d \<and> unflagged d"
proof (induction rule: ledger_reach.induct)
  case (hold_funds d t)
  then show ?case
    using PendingTransfer_inv [of d t] unflagged_same [OF flags_ops(2)] by auto
qed (auto intro: NewDevLedger_inv unflagged_NewDevLedger CreateAccounts_inv unflagged_CreateAccounts
       Transfer_inv PostPending_inv VoidPending_inv unflagged_same [OF flags_ops(1)]
       unflagged_same [OF flags_ops(3)] unflagged_same [OF flags_ops(4)] dest: unflagged_no_float)

text \<open>
  A post refused by the float constraint has already released the reservation while the
  transfer stays pending: the pending totals no longer match the pending transfers.
\<close>

lemma PostPending_float_breaks:
  assumes inv: "ledger_inv d" and err: "snd (PostPending i amount d) = Inl FloatViolated"
  shows "\<not> ledger_inv (fst (PostPending i amount d))"
proof
  assume inv': "ledger_inv (fst (PostPending i amount d))"
  obtain tr where tr: "transfers d i = Some tr" "pending tr"
    using err by (auto simp: PostPending_def split: option.splits if_splits)
  obtain dr cr where acc: "accounts d (DebitAccountID tr) = Some dr" "accounts d (CreditAccountID tr) = Some cr"
    using pending_accounts [OF inv tr(1)] .
  let ?d = "sub_pending (DebitAccountID tr) (CreditAccountID tr) (AmountKobo tr) d"
  have res: "fst (PostPending i amount d) = ?d"
    using err tr acc by (auto simp: PostPending_def Let_def split: if_splits sum.splits)
  have amt: "0 < AmountKobo tr" "in64 (AmountKobo tr)"
    using ledger_invD(3) [OF inv tr(1)] by (auto simp: transfer_ok_def)
  have "\<exists>acc'. accounts ?d (DebitAccountID tr) = Some acc' \<and> debitsPending acc' = sub64 (debitsPending dr) (AmountKobo tr)"
    using acc(1) by (simp add: accounts_sub_pending)
  moreover have "held DebitAccountID ?d = held DebitAccountID d" by (simp add: held_def fun_eq_iff)
  ultimately have "sub64 (debitsPending dr) (AmountKobo tr) = debitsPending dr"
    using ledger_invD(4) [OF inv', unfolded res] ledger_invD(4) [OF inv acc(1)] by auto
  then have "wrap64 (debitsPending dr - AmountKobo tr) = wrap64 (debitsPending dr)"
    using wrap64_accounts(1) [OF inv acc(1)] by (simp add: sub64_def)
  then have "(2 ^ 64 :: int) dvd AmountKobo tr"
    by (simp add: wrap64_cong mod_eq_dvd_iff)
  then have "(2 ^ 64 :: int) \<le> AmountKobo tr" using amt(1) by (rule zdvd_imp_le)
  with amt(2) show False by (simp add: in64_def)
qed

section \<open>The client interface\<close>

text \<open>
  What the settlement saga relies on: posting makes the transfer report \<open>Posted\<close>, a failed
  post and a repeated reservation change no reported state, and an operation on one id never
  touches what is reported for another.
\<close>

locale ledger_client =
  fixes L :: "'l LedgerClient"
  assumes post_posts: "lcPostPending L i amt l = (l', Inr j) \<Longrightarrow>
      \<exists>ts. lcGetTransfer L i l' = Inr ts \<and> tsPosted ts"
    and post_frame: "lcPostPending L i amt l = (l', r) \<Longrightarrow> k \<noteq> i \<Longrightarrow>
      lcGetTransfer L k l' = lcGetTransfer L k l"
    and post_fail: "lcPostPending L i amt l = (l', Inl e) \<Longrightarrow> lcGetTransfer L i l' = lcGetTransfer L i l"
    and pend_frame: "lcPendingTransfer L t l = (l', r) \<Longrightarrow> txID t \<noteq> '''' \<Longrightarrow> k \<noteq> txID t \<Longrightarrow>
      lcGetTransfer L k l' = lcGetTransfer L k l"
    and pend_keeps: "lcPendingTransfer L t l = (l', r) \<Longrightarrow> txID t \<noteq> '''' \<Longrightarrow>
      lcGetTransfer L (txID t) l = Inr ts \<Longrightarrow> lcGetTransfer L (txID t) l' = Inr ts"
    and pend_makes: "lcPendingTransfer L t l = (l', Inr j) \<Longrightarrow> txID t \<noteq> '''' \<Longrightarrow>
      \<exists>ts. lcGetTransfer L (txID t) l' = Inr ts \<and> tsPending ts"
begin

definition reports_posted :: "'l \<Rightarrow> string \<Rightarrow> bool" where
  "reports_posted l i \<longleftrightarrow> (\<exists>ts. lcGetTransfer L i l = Inr ts \<and> tsPosted ts)"

lemma posted_stays_pend:
  assumes "lcPendingTransfer L t l = (l', r)" "txID t \<noteq> ''''" "reports_posted l k"
  shows "reports_posted l' k"
  using assms pend_frame [of t l l' r k] pend_keeps [of t l l' r]
  by (cases "k = txID t") (auto simp: reports_posted_def)

lemma posted_stays_post:
  assumes "lcPostPending L i amt l = (l', r)" "reports_posted l k"
  shows "reports_posted l' k"
proof (cases "k = i")
  case True
  with assms show ?thesis
    by (cases r) (auto simp: reports_posted_def dest: post_posts post_fail)
next
  case False
  with assms show ?thesis by (auto simp: reports_posted_def dest: post_frame)
qed

end

lemma devClient_simps [simp]:
  "lcCreateAccounts devClient = CreateAccounts" "lcTransfer devClient = Transfer"
  "lcPendingTransfer devClient = PendingTransfer" "lcPostPending devClient = PostPending"
  "lcVoidPending devClient = VoidPending" "lcGetTransfer devClient = GetTransfer"
  "lcBalance devClient = Balance" "lcMode devClient = ''dev''"
  by (simp_all add: devClient_def)

interpretation dev: ledger_client devClient
proof (unfold_locales, goal_cases)
  case (1 i amt l l' j)
  then show ?case
    by (auto simp: PostPending_def GetTransfer_def Let_def split: option.splits if_splits sum.splits)
next
  case (2 i amt l l' r k)
  then show ?case
    by (auto simp: PostPending_def GetTransfer_def Let_def split: option.splits if_splits sum.splits)
next
  case (3 i amt l l' e)
  then show ?case
    by (auto simp: PostPending_def GetTransfer_def Let_def split: option.splits if_splits sum.splits)
next
  case (4 t l l' r k)
  then show ?case
    by (auto simp: PendingTransfer_def GetTransfer_def assign_id_def Let_def split: option.splits if_splits sum.splits)
next
  case (5 t l l' r ts)
  then show ?case
    by (auto simp: PendingTransfer_def GetTransfer_def assign_id_def Let_def split: option.splits if_splits sum.splits)
next
  case (6 t l l' j)
  then show ?case
    by (auto simp: PendingTransfer_def GetTransfer_def assign_id_def Let_def split: option.splits if_splits sum.splits)
qed

end
