(* ===== verification/Pos_Receipts.thy ===== *)
theory Pos_Receipts
  imports Pos_Store Pos_Packs Pos_Ledger
begin

text \<open>
  Receipt processing of the POS VAT service (\<^verbatim>\<open>services/pos-vat/handlers.go\<close>, lines 12-237):
  half-up rounding in basis points, basket classification and VAT of the lines, the federal,
  state and LGA attribution, ingest with its idempotency guards, and the drain of the
  store-and-forward spool.

  A handler takes the decoded request (\<open>None\<close>: the body did not decode), the service state
  and the values it reads from its surroundings (clock, fresh ULID), and returns the new
  state with the response. What the service is configured with is the record \<open>Deps\<close>: the
  geo client, the keyed hash behind \<^verbatim>\<open>TINHash\<close>, the digest behind
  \<^verbatim>\<open>DeterministicTransferID\<close>, the citation index, the ledger client and the cache.
\<close>

record ('l, 'c) Deps =
  geoAttributePoint :: "float64 \<Rightarrow> float64 \<Rightarrow> (string \<times> string) option"
  hmac16 :: "string \<Rightarrow> string \<Rightarrow> string"
  sha16 :: "string \<Rightarrow> string"
  resolver :: CitationResolver
  ledgerClient :: "'l LedgerClient"
  cacheClient :: "'c Cache"
  tinKey :: string
  attributionMode :: string

definition TINHash :: "('l, 'c) Deps \<Rightarrow> string \<Rightarrow> string \<Rightarrow> string" where
  "TINHash dp tin key = hmac16 dp key tin"

section \<open>Rounding and attribution\<close>

definition roundBpsHalfUp :: "int64 \<Rightarrow> int64 \<Rightarrow> int64" where
  "roundBpsHalfUp amountKobo rateBps =
     (if amountKobo \<ge> 0 then quot64 (add64 (mul64 amountKobo rateBps) 5000) 10000
      else neg64 (quot64 (add64 (mul64 (neg64 amountKobo) rateBps) 5000) 10000))"

definition computeAttribution :: "int64 \<Rightarrow> string \<Rightarrow> AttributionConfig \<Rightarrow> AttributionResult" where
  "computeAttribution vat state acfg =
     (let res = zeroAttribution\<lparr>arMode := acMode acfg, arState := state\<rparr>;
          federal = roundBpsHalfUp vat (FederalShareBPS acfg);
          stateShare = roundBpsHalfUp vat (StateShareBPS acfg);
          lgaShare = sub64 (sub64 vat federal) stateShare
      in if acMode acfg = ''federal''
         then res\<lparr>FederalKobo := vat, StateKobo := 0, LGAKobo := 0,
                  ShadowFederal := federal, ShadowState := stateShare, ShadowLGA := lgaShare\<rparr>
         else if acMode acfg = ''dual_shadow''
         then res\<lparr>FederalKobo := federal, StateKobo := stateShare, LGAKobo := lgaShare,
                  ShadowFederal := vat, ShadowState := 0, ShadowLGA := 0\<rparr>
         else res\<lparr>FederalKobo := federal, StateKobo := stateShare, LGAKobo := lgaShare\<rparr>)"

section \<open>Processing one receipt\<close>

datatype process_error = InvalidLine string | GeoFailed | StoreFailed store_error

record line_totals =
  ltBaskets :: "string \<Rightarrow> int64"
  ltCats :: "string \<Rightarrow> string list"
  ltTotal :: int64
  ltVAT :: int64

definition zero_totals :: line_totals where
  "zero_totals = \<lparr>ltBaskets = (\<lambda>_. 0), ltCats = (\<lambda>_. []), ltTotal = 0, ltVAT = 0\<rparr>"

definition line_amount :: "ReceiptLine \<Rightarrow> int64" where
  "line_amount ln = quot64 (mul64 (UnitPrice ln) (Qty ln)) 1000"

definition add_line :: "PackSet \<Rightarrow> int64 \<Rightarrow> ReceiptLine \<Rightarrow> line_totals \<Rightarrow> line_totals" where
  "add_line ps rate ln t =
     (let amount = line_amount ln; basket = BasketFor ps (Category ln)
      in t\<lparr>ltBaskets := (ltBaskets t)(basket := add64 (ltBaskets t basket) amount),
           ltCats := (ltCats t)(basket := ltCats t basket @ [Category ln]),
           ltTotal := add64 (ltTotal t) amount,
           ltVAT := (if basket = ''standard_75'' then add64 (ltVAT t) (roundBpsHalfUp amount rate) else ltVAT t)\<rparr>)"

fun process_lines :: "PackSet \<Rightarrow> int64 \<Rightarrow> ReceiptLine list \<Rightarrow> line_totals \<Rightarrow> process_error + line_totals" where
  "process_lines ps rate [] t = Inr t"
| "process_lines ps rate (ln # lns) t =
     (if Qty ln \<le> 0 \<or> UnitPrice ln < 0 then Inl (InvalidLine (SKU ln))
      else process_lines ps rate lns (add_line ps rate ln t))"

definition idemHash :: "('l, 'c) Deps \<Rightarrow> string \<Rightarrow> string" where
  "idemHash dp k =
     (let h = filter (\<lambda>c. c \<noteq> CHR ''-'' \<and> c \<noteq> CHR ''_'') (TINHash dp k ''pos-idem'')
      in if length h > 24 then take 24 h else h)"

definition processReceipt :: "('l, 'c) Deps \<Rightarrow> PackSet \<Rightarrow> string \<Rightarrow> Receipt \<Rightarrow> string \<Rightarrow> Store \<Rightarrow>
    Store \<times> (process_error + Receipt)" where
  "processReceipt dp ps now rc idem st =
     (let rc1 = (if rcID rc = '''' then rc\<lparr>rcID := ''rcpt-'' @ idemHash dp idem\<rparr> else rc);
          rc2 = (if Currency rc1 = '''' then rc1\<lparr>Currency := ''NGN''\<rparr> else rc1);
          rc3 = rc2\<lparr>RulePackVersion := VersionString ps, MerchantTINHash := TINHash dp (MerchantTIN rc2) (tinKey dp)\<rparr>;
          rc4 = (if CapturedAt rc3 = '''' then rc3\<lparr>CapturedAt := now\<rparr> else rc3)
      in case process_lines ps (StandardRateBPS ps) (Lines rc4) zero_totals of
           Inl e \<Rightarrow> (st, Inl e)
         | Inr t \<Rightarrow>
             (let rc5 = rc4\<lparr>Baskets := ltBaskets t, TotalKobo := ltTotal t, VATKobo := ltVAT t\<rparr>;
                  rc6 = (if IsPlatformCollector ps (MerchantTIN rc5)
                         then rc5\<lparr>PlatformCollected := True, CollectorTIN := MerchantTIN rc5\<rparr> else rc5);
                  rc7 = rc6\<lparr>Citations := receiptCitations (resolver dp) ps (ltCats t)\<rparr>
              in case geoAttributePoint dp (Lat rc7) (Lon rc7) of
                   None \<Rightarrow> (st, Inl GeoFailed)
                 | Some (state, lga) \<Rightarrow>
                     (let rc8 = rc7\<lparr>rcState := state, rcLGA := lga,
                                    Attribution := computeAttribution (ltVAT t) state (attributionConfig ps (attributionMode dp)),
                                    rcStatus := ''ingested''\<rparr>
                      in case PutReceipt rc8 st of
                           (st1, Inl e) \<Rightarrow> (st1, Inl (StoreFailed e))
                         | (st1, Inr _) \<Rightarrow> (st1, Inr rc8))))"

section \<open>Ingest\<close>

record IngestRequest = Receipt +
  StoreAndForward :: bool
  SpoolReason :: string

text \<open>The events the handlers publish; a settlement record and the reports are added by
  constructors of their own.\<close>

datatype pos_event =
    EvReceipt Receipt
  | EvDrained string string
  | EvRecon ReconRecord
  | EvB2C string string nat int64 int64
  | EvCert string nat nat
  | EvWorkflow string

record ('l, 'c) Service =
  svStore :: Store
  svLedger :: 'l
  svPacks :: PackSet
  svBus :: "pos_event InprocBus"
  svCache :: 'c

datatype ingest_reply = Duplicate Receipt | Spooled string | Ingested Receipt

record request_env =
  nowRFC3339 :: string
  nowNanos :: int
  freshULID :: string

definition idem_key_of :: "'a Receipt_scheme \<Rightarrow> string" where
  "idem_key_of rc =
     (if IdempotencyKey rc = '''' then MerchantTIN rc @ '':'' @ TerminalID rc @ '':'' @ ReceiptNo rc
      else IdempotencyKey rc)"

definition sevenDays :: int where
  "sevenDays = 7 * 24 * 3600 * 1000000000"

definition orElse :: "string \<Rightarrow> string \<Rightarrow> string" where
  "orElse s d = (if s = '''' then d else s)"

definition handleIngestReceipt :: "('l, 'c) Deps \<Rightarrow> request_env \<Rightarrow> IngestRequest option \<Rightarrow> ('l, 'c) Service \<Rightarrow>
    ('l, 'c) Service \<times> ingest_reply response" where
  "handleIngestReceipt dp env body sv =
     (case body of
        None \<Rightarrow> (sv, Problem 400 ''bad request'')
      | Some req \<Rightarrow>
          if Lines req = [] \<or> ReceiptNo req = '''' then (sv, Problem 422 ''validation failed'')
          else
            (let idem = idem_key_of req; idemKey = ''rcpt-'' @ idemHash dp idem
             in case GetReceipt idemKey (svStore sv) of
                  Some existing \<Rightarrow> (sv, Reply 200 (Duplicate existing))
                | None \<Rightarrow>
                    (case cSetNX (cacheClient dp) (''idem:'' @ idem) ''1'' sevenDays (nowNanos env) (svCache sv) of
                       (c, Inl e) \<Rightarrow> (sv\<lparr>svCache := c\<rparr>, Problem 503 ''idempotency store unavailable'')
                     | (c, Inr False) \<Rightarrow>
                         (case GetReceipt idemKey (svStore sv) of
                            Some existing \<Rightarrow> (sv\<lparr>svCache := c\<rparr>, Reply 200 (Duplicate existing))
                          | None \<Rightarrow> (sv\<lparr>svCache := c\<rparr>, Problem 409 ''conflict''))
                     | (c, Inr True) \<Rightarrow>
                         (let sv1 = sv\<lparr>svCache := c\<rparr>
                          in if StoreAndForward req then
                               (let entry = \<lparr>spoolID = freshULID env, QueuedAt = nowRFC3339 env,
                                             spoolReason = orElse (SpoolReason req) ''offline-terminal'',
                                             Payload = Some (Receipt.truncate req)\<rparr>
                                in case Spool entry (svStore sv1) of
                                     (st, Inl e) \<Rightarrow> (sv1\<lparr>svStore := st\<rparr>, Problem 500 ''spool failed'')
                                   | (st, Inr _) \<Rightarrow> (sv1\<lparr>svStore := st\<rparr>, Reply 202 (Spooled (spoolID entry))))
                             else
                               (case processReceipt dp (svPacks sv1) (nowRFC3339 env) (Receipt.truncate req) idem (svStore sv1) of
                                  (st, Inl e) \<Rightarrow> (sv1\<lparr>svStore := st\<rparr>, Problem 422 ''processing failed'')
                                | (st, Inr rcpt) \<Rightarrow>
                                    (sv1\<lparr>svStore := st,
                                         svBus := Publish ''nrs.pos.receipts.v1'' (rcTenantID rcpt) (VersionString (svPacks sv1))
                                                    (EvReceipt rcpt) (svBus sv1)\<rparr>,
                                     Reply 201 (Ingested rcpt)))))))"

section \<open>Draining the spool\<close>

text \<open>One spooled entry; the second component is the failure message, if any.\<close>

definition drain_entry :: "('l, 'c) Deps \<Rightarrow> string \<Rightarrow> SpoolEntry \<Rightarrow> ('l, 'c) Service \<Rightarrow>
    ('l, 'c) Service \<times> (string \<times> process_error option) option" where
  "drain_entry dp now e sv =
     (case Payload e of
        None \<Rightarrow> (sv, Some (spoolID e, None))
      | Some rc \<Rightarrow>
          (case processReceipt dp (svPacks sv) now rc (idem_key_of rc) (svStore sv) of
             (st, Inl err) \<Rightarrow> (sv\<lparr>svStore := st\<rparr>, Some (spoolID e, Some err))
           | (st, Inr out) \<Rightarrow>
               (sv\<lparr>svStore := SpoolRemove (spoolID e) st,
                   svBus := Publish ''nrs.pos.spool.drained.v1'' (rcTenantID out) (VersionString (svPacks sv))
                              (EvDrained (spoolID e) (rcID out))
                              (Publish ''nrs.pos.receipts.v1'' (rcTenantID out) (VersionString (svPacks sv))
                                 (EvReceipt out) (svBus sv))\<rparr>, None)))"

fun drain_loop :: "('l, 'c) Deps \<Rightarrow> string \<Rightarrow> SpoolEntry list \<Rightarrow> ('l, 'c) Service \<Rightarrow> nat \<Rightarrow>
    (string \<times> process_error option) list \<Rightarrow> ('l, 'c) Service \<times> nat \<times> (string \<times> process_error option) list" where
  "drain_loop dp now [] sv drained failed = (sv, drained, failed)"
| "drain_loop dp now (e # es) sv drained failed =
     (case drain_entry dp now e sv of
        (sv1, Some f) \<Rightarrow> drain_loop dp now es sv1 drained (failed @ [f])
      | (sv1, None) \<Rightarrow> drain_loop dp now es sv1 (drained + 1) failed)"

definition handleSpoolDrain :: "('l, 'c) Deps \<Rightarrow> request_env \<Rightarrow> ('l, 'c) Service \<Rightarrow>
    ('l, 'c) Service \<times> (nat \<times> (string \<times> process_error option) list \<times> nat) response" where
  "handleSpoolDrain dp env sv =
     (let (sv1, drained, failed) = drain_loop dp (nowRFC3339 env) (SpoolList (svStore sv)) sv 0 []
      in (sv1, Reply 200 (drained, failed, length (SpoolList (svStore sv1)))))"

definition handleListReceipts :: "string list \<Rightarrow> string \<Rightarrow> string \<Rightarrow> int \<Rightarrow> ('l, 'c) Service \<Rightarrow> Receipt list response" where
  "handleListReceipts ord tenant state limit sv =
     Reply 200 (ListReceipts ord tenant state (if limit \<le> 0 then 100 else nat limit) (svStore sv))"

definition handleGetReceipt :: "string \<Rightarrow> ('l, 'c) Service \<Rightarrow> Receipt response" where
  "handleGetReceipt i sv =
     (case GetReceipt i (svStore sv) of None \<Rightarrow> Problem 404 ''not found'' | Some rc \<Rightarrow> Reply 200 rc)"

definition handleListSpool :: "('l, 'c) Service \<Rightarrow> SpoolEntry list response" where
  "handleListSpool sv = Reply 200 (SpoolList (svStore sv))"

section \<open>Rounding is exact half-up rounding\<close>

lemma roundBpsHalfUp_nonneg:
  assumes "0 \<le> a" "0 \<le> r" "a * r + 5000 < 2 ^ 63"
  shows "roundBpsHalfUp a r = (a * r + 5000) div 10000"
proof -
  have "0 \<le> a * r" using assms by simp
  then have *: "in64 (a * r)" "in64 (a * r + 5000)" "0 \<le> a * r + 5000"
    using assms(3) by (simp_all add: in64_def)
  then have "mul64 a r = a * r" "add64 (a * r) 5000 = a * r + 5000"
    by (simp_all add: mul64_exact add64_exact)
  with assms(1) * show ?thesis
    by (simp add: roundBpsHalfUp_def quot64_nonneg)
qed

lemma roundBpsHalfUp_neg:
  assumes "a < 0" "0 \<le> r" "- a * r + 5000 < 2 ^ 63" "in64 (- a)"
  shows "roundBpsHalfUp a r = - roundBpsHalfUp (- a) r"
proof -
  let ?x = "(- a * r + 5000) div 10000"
  have nn: "neg64 a = - a" using assms(4) by (simp add: neg64_def wrap64_id)
  have pos: "roundBpsHalfUp (- a) r = ?x"
    using assms by (intro roundBpsHalfUp_nonneg) simp_all
  have "0 \<le> - a * r" using assms(1,2) by (simp add: mult_nonpos_nonneg)
  then have "0 \<le> ?x" "?x \<le> - a * r + 5000" by (simp_all add: int_div_le_self)
  then have "in64 (- ?x)" using assms(3) by (auto simp: in64_def)
  then have "neg64 ?x = - ?x" by (simp add: neg64_def wrap64_id)
  moreover have "roundBpsHalfUp a r = neg64 (roundBpsHalfUp (- a) r)"
    using assms(1) nn by (simp add: roundBpsHalfUp_def)
  ultimately show ?thesis using pos by simp
qed

lemma half_up_error:
  fixes x :: int
  shows "- 5000 < 10000 * ((x + 5000) div 10000) - x" "10000 * ((x + 5000) div 10000) - x \<le> 5000"
  using div_mult_mod_eq [of "x + 5000" 10000] pos_mod_bound [of 10000 "x + 5000"]
    pos_mod_sign [of 10000 "x + 5000"] by linarith+

lemma roundBpsHalfUp_error:
  assumes "0 \<le> a" "0 \<le> r" "a * r + 5000 < 2 ^ 63"
  shows "- 5000 < 10000 * roundBpsHalfUp a r - a * r" "10000 * roundBpsHalfUp a r - a * r \<le> 5000"
  unfolding roundBpsHalfUp_nonneg [OF assms] by (rule half_up_error)+

lemma in64_round [simp]: "in64 (roundBpsHalfUp a r)"
  by (simp add: roundBpsHalfUp_def)

section \<open>Attribution conserves the VAT\<close>

lemma attribution_sum:
  assumes "in64 vat"
  shows "add64 (add64 (FederalKobo (computeAttribution vat state cfg)) (StateKobo (computeAttribution vat state cfg)))
           (LGAKobo (computeAttribution vat state cfg)) = vat"
proof -
  have "wrap64 (wrap64 (f + s) + wrap64 (wrap64 (vat - f) - s)) = vat" for f s
    using assms by (simp add: wrap64_id)
  with assms show ?thesis
    by (simp add: computeAttribution_def Let_def add64_def sub64_def wrap64_id)
qed

lemma attribution_shadow_sum:
  assumes "in64 vat" "acMode cfg = ''federal'' \<or> acMode cfg = ''dual_shadow''"
  shows "add64 (add64 (ShadowFederal (computeAttribution vat state cfg)) (ShadowState (computeAttribution vat state cfg)))
           (ShadowLGA (computeAttribution vat state cfg)) = vat"
proof -
  have "wrap64 (wrap64 (f + s) + wrap64 (wrap64 (vat - f) - s)) = vat" for f s
    using assms by (simp add: wrap64_id)
  with assms show ?thesis
    by (auto simp: computeAttribution_def Let_def add64_def sub64_def wrap64_id)
qed

text \<open>The statutory split of NTAA 2025: 10% federal, 55% state, 35% local government.\<close>

definition statutory :: "string \<Rightarrow> AttributionConfig" where
  "statutory mode = \<lparr>acMode = mode, FederalShareBPS = 1000, StateShareBPS = 5500, LGAShareBPS = 3500\<rparr>"

lemma share_bounds:
  fixes v :: int
  assumes "0 \<le> v"
  shows "0 \<le> (v * 1000 + 5000) div 10000" "(v * 1000 + 5000) div 10000 \<le> v"
    "0 \<le> (v * 5500 + 5000) div 10000" "(v * 5500 + 5000) div 10000 \<le> v"
    "(v * 1000 + 5000) div 10000 + (v * 5500 + 5000) div 10000 \<le> v"
proof -
  note e = half_up_error [of "v * 1000"] half_up_error [of "v * 5500"]
  have small: "v = 0 \<or> v = 1 \<or> v = 2 \<or> 3 \<le> v" using assms by linarith
  show "0 \<le> (v * 1000 + 5000) div 10000" "0 \<le> (v * 5500 + 5000) div 10000"
    using assms by simp_all
  show "(v * 1000 + 5000) div 10000 + (v * 5500 + 5000) div 10000 \<le> v"
    using small e by (elim disjE) (simp, simp, simp, linarith)
  then show "(v * 1000 + 5000) div 10000 \<le> v" "(v * 5500 + 5000) div 10000 \<le> v"
    using \<open>0 \<le> (v * 1000 + 5000) div 10000\<close> \<open>0 \<le> (v * 5500 + 5000) div 10000\<close> by linarith+
qed

lemma statutory_split:
  fixes vat :: int64 and state mode :: string
  assumes "0 \<le> vat" "vat * 5500 + 5000 < 2 ^ 63" "mode \<noteq> ''federal''"
  defines "res \<equiv> computeAttribution vat state (statutory mode)"
  shows "FederalKobo res = (vat * 1000 + 5000) div 10000"
    and "StateKobo res = (vat * 5500 + 5000) div 10000"
    and "LGAKobo res = vat - (vat * 1000 + 5000) div 10000 - (vat * 5500 + 5000) div 10000"
proof -
  let ?f = "(vat * 1000 + 5000) div 10000" and ?s = "(vat * 5500 + 5000) div 10000"
  have f: "roundBpsHalfUp vat 1000 = ?f" and s: "roundBpsHalfUp vat 5500 = ?s"
    using assms(1,2) by (simp_all add: roundBpsHalfUp_nonneg)
  have "vat < 2 ^ 62" using assms(1,2) by simp
  with share_bounds [OF assms(1)] have "sub64 vat ?f = vat - ?f" "sub64 (vat - ?f) ?s = vat - ?f - ?s"
    using assms(1) by (simp_all add: sub64_exact in64_def)
  with f s assms(3) show "FederalKobo res = ?f" "StateKobo res = ?s" "LGAKobo res = vat - ?f - ?s"
    by (simp_all add: res_def computeAttribution_def statutory_def Let_def)
qed

section \<open>Lines, baskets and VAT\<close>

definition basket_names :: "string list" where
  "basket_names = [''standard_75'', ''zero_rated'', ''exempt'']"

definition basket_sum :: "(string \<Rightarrow> int64) \<Rightarrow> int64" where
  "basket_sum b = add64 (add64 (b ''standard_75'') (b ''zero_rated'')) (b ''exempt'')"

lemma basket_sum_add:
  assumes "b \<in> {''standard_75'', ''exempt'', ''zero_rated''}"
  shows "basket_sum (f(b := add64 (f b) x)) = add64 (basket_sum f) x"
  using assms by (auto simp: basket_sum_def add64_def algebra_simps)

lemma add_line_baskets:
  "basket_sum (ltBaskets (add_line ps rate ln t)) = add64 (basket_sum (ltBaskets t)) (line_amount ln)"
  "ltTotal (add_line ps rate ln t) = add64 (ltTotal t) (line_amount ln)"
  by (simp_all add: add_line_def Let_def basket_sum_add [OF BasketFor_cases] del: fun_upd_apply)

lemma process_lines_baskets:
  assumes "process_lines ps rate lns t = Inr t'" "basket_sum (ltBaskets t) = ltTotal t"
  shows "basket_sum (ltBaskets t') = ltTotal t'"
  using assms
proof (induction ps rate lns t rule: process_lines.induct)
  case (2 ps rate ln lns t)
  then show ?case
    by (auto simp: add_line_baskets split: if_splits)
qed simp

lemma process_lines_valid:
  "process_lines ps rate lns t = Inr t' \<Longrightarrow> ln \<in> set lns \<Longrightarrow> 0 < Qty ln \<and> 0 \<le> UnitPrice ln"
  by (induction ps rate lns t rule: process_lines.induct) (auto split: if_splits)

lemma process_lines_ok:
  "(\<forall>ln\<in>set lns. 0 < Qty ln \<and> 0 \<le> UnitPrice ln) \<Longrightarrow>
     process_lines ps rate lns t = Inr (fold (add_line ps rate) lns t)"
  by (induction ps rate lns t rule: process_lines.induct) auto

lemma process_lines_fold:
  "process_lines ps rate lns t = Inr t' \<Longrightarrow> t' = fold (add_line ps rate) lns t"
  using process_lines_ok [of lns ps rate t] process_lines_valid [of ps rate lns t t'] by auto

text \<open>The totals of the loop are running sums over the lines.\<close>

lemma fold_add_line:
  "ltTotal (fold (add_line ps rate) lns t) = foldl (\<lambda>acc ln. add64 acc (line_amount ln)) (ltTotal t) lns"
  "ltVAT (fold (add_line ps rate) lns t) =
     foldl (\<lambda>acc ln. add64 acc (roundBpsHalfUp (line_amount ln) rate)) (ltVAT t)
       (filter (\<lambda>ln. BasketFor ps (Category ln) = ''standard_75'') lns)"
  "ltBaskets (fold (add_line ps rate) lns t) b =
     foldl (\<lambda>acc ln. add64 acc (line_amount ln)) (ltBaskets t b) (filter (\<lambda>ln. BasketFor ps (Category ln) = b) lns)"
  by (induction lns arbitrary: t) (simp_all add: add_line_def Let_def)

lemma zero_totals_sums:
  "ltTotal (fold (add_line ps rate) lns zero_totals) = sum64 line_amount lns"
  "ltVAT (fold (add_line ps rate) lns zero_totals) =
     sum64 (\<lambda>ln. roundBpsHalfUp (line_amount ln) rate) (filter (\<lambda>ln. BasketFor ps (Category ln) = ''standard_75'') lns)"
  "ltBaskets (fold (add_line ps rate) lns zero_totals) b =
     sum64 line_amount (filter (\<lambda>ln. BasketFor ps (Category ln) = b) lns)"
  by (simp_all add: fold_add_line zero_totals_def sum64_def)

section \<open>Processing, step by step\<close>

definition receipt_id :: "('l, 'c) Deps \<Rightarrow> Receipt \<Rightarrow> string \<Rightarrow> string" where
  "receipt_id dp rc idem = (if rcID rc = '''' then ''rcpt-'' @ idemHash dp idem else rcID rc)"

lemma processReceipt_okD:
  assumes "processReceipt dp ps now rc idem st = (st', Inr out)"
  obtains t lga where
    "process_lines ps (StandardRateBPS ps) (Lines rc) zero_totals = Inr t"
    "geoAttributePoint dp (Lat rc) (Lon rc) = Some (rcState out, lga)"
    "PutReceipt out st = (st', Inr ())"
    "rcID out = receipt_id dp rc idem" "rcTenantID out = rcTenantID rc" "Lines out = Lines rc"
    "SettledIn out = SettledIn rc" "rcStatus out = ''ingested''"
    "Baskets out = ltBaskets t" "TotalKobo out = ltTotal t" "VATKobo out = ltVAT t"
    "PlatformCollected out = (PlatformCollected rc \<or> IsPlatformCollector ps (MerchantTIN rc))"
    "Attribution out = computeAttribution (ltVAT t) (rcState out) (attributionConfig ps (attributionMode dp))"
    "CapturedAt out = (if CapturedAt rc = '''' then now else CapturedAt rc)"
  using assms unfolding processReceipt_def receipt_id_def Let_def
  by (auto split: sum.splits option.splits prod.splits if_splits)

lemma PutReceipt_receipts:
  "receipts (fst (PutReceipt r st)) =
     (if receipts st (rcID r) = None \<and> is_ok (snd (PutReceipt r st)) then (receipts st)(rcID r \<mapsto> r) else receipts st)"
  by (cases "receipts st (rcID r)") (simp_all add: PutReceipt_def Let_def split_beta split: sum.split)

lemma PutReceipt_okD:
  assumes "PutReceipt r st = (st', Inr u)"
  shows "receipts st' = (if receipts st (rcID r) = None then (receipts st)(rcID r \<mapsto> r) else receipts st)"
  using PutReceipt_receipts [of r st] assms by simp

lemma PutReceipt_errD:
  assumes "PutReceipt r st = (st', Inl e)"
  shows "receipts st' = receipts st"
  using PutReceipt_receipts [of r st] assms by simp

lemma processReceipt_errD:
  assumes "processReceipt dp ps now rc idem st = (st', Inl e)"
  shows "receipts st' = receipts st"
  using assms unfolding processReceipt_def Let_def
  by (auto split: sum.splits option.splits prod.splits dest: PutReceipt_errD)

lemma processReceipt_stored:
  assumes "processReceipt dp ps now rc idem st = (st', Inr out)"
  shows "receipts st' = (if receipts st (receipt_id dp rc idem) = None
      then (receipts st)(receipt_id dp rc idem \<mapsto> out) else receipts st)"
  using assms by (rule processReceipt_okD) (simp add: PutReceipt_okD)

lemma processReceipt_mono:
  assumes "processReceipt dp ps now rc idem st = (st', r)" "receipts st i = Some x"
  shows "receipts st' i = Some x"
  using assms by (cases r) (auto simp: processReceipt_errD processReceipt_stored)

text \<open>The amounts of a processed receipt are those of its lines.\<close>

lemma processReceipt_amounts:
  assumes "processReceipt dp ps now rc idem st = (st', Inr out)"
  shows "TotalKobo out = sum64 line_amount (Lines rc)"
    "VATKobo out = sum64 (\<lambda>ln. roundBpsHalfUp (line_amount ln) (StandardRateBPS ps))
       (filter (\<lambda>ln. BasketFor ps (Category ln) = ''standard_75'') (Lines rc))"
    "Baskets out b = sum64 line_amount (filter (\<lambda>ln. BasketFor ps (Category ln) = b) (Lines rc))"
    "basket_sum (Baskets out) = TotalKobo out"
    "\<forall>ln\<in>set (Lines rc). 0 < Qty ln \<and> 0 \<le> UnitPrice ln"
proof -
  obtain t where t: "process_lines ps (StandardRateBPS ps) (Lines rc) zero_totals = Inr t"
    "Baskets out = ltBaskets t" "TotalKobo out = ltTotal t" "VATKobo out = ltVAT t"
    using assms by (rule processReceipt_okD) blast
  have "t = fold (add_line ps (StandardRateBPS ps)) (Lines rc) zero_totals"
    by (rule process_lines_fold [OF t(1)])
  with t show "TotalKobo out = sum64 line_amount (Lines rc)"
    "VATKobo out = sum64 (\<lambda>ln. roundBpsHalfUp (line_amount ln) (StandardRateBPS ps))
       (filter (\<lambda>ln. BasketFor ps (Category ln) = ''standard_75'') (Lines rc))"
    "Baskets out b = sum64 line_amount (filter (\<lambda>ln. BasketFor ps (Category ln) = b) (Lines rc))"
    by (simp_all add: zero_totals_sums)
  show "basket_sum (Baskets out) = TotalKobo out"
    using process_lines_baskets [OF t(1)] t by (simp add: zero_totals_def basket_sum_def)
  show "\<forall>ln\<in>set (Lines rc). 0 < Qty ln \<and> 0 \<le> UnitPrice ln"
    using process_lines_valid [OF t(1)] by blast
qed

section \<open>Ingest: at most one receipt per key\<close>

lemma truncate_simps [simp]:
  "rcID (Receipt.truncate req) = rcID req" "Lines (Receipt.truncate req) = Lines req"
  "rcTenantID (Receipt.truncate req) = rcTenantID req" "SettledIn (Receipt.truncate req) = SettledIn req"
  "Lat (Receipt.truncate req) = Lat req" "Lon (Receipt.truncate req) = Lon req"
  "CapturedAt (Receipt.truncate req) = CapturedAt req" "MerchantTIN (Receipt.truncate req) = MerchantTIN req"
  by (simp_all add: Receipt.truncate_def)

definition key_of :: "('l, 'c) Deps \<Rightarrow> 'a Receipt_scheme \<Rightarrow> string" where
  "key_of dp req = ''rcpt-'' @ idemHash dp (idem_key_of req)"

lemma ingest_duplicate:
  assumes "receipts (svStore sv) (key_of dp req) = Some r" "Lines req \<noteq> []" "ReceiptNo req \<noteq> ''''"
  shows "handleIngestReceipt dp env (Some req) sv = (sv, Reply 200 (Duplicate r))"
  using assms by (simp add: handleIngestReceipt_def key_of_def GetReceipt_def Let_def)

text \<open>A reply 201 comes only after every guard has passed and the receipt is stored.\<close>

lemma ingest_okD:
  assumes "handleIngestReceipt dp env (Some req) sv = (sv', Reply 201 (Ingested r))"
  obtains c st where
    "receipts (svStore sv) (key_of dp req) = None"
    "cSetNX (cacheClient dp) (''idem:'' @ idem_key_of req) ''1'' sevenDays (nowNanos env) (svCache sv) = (c, Inr True)"
    "processReceipt dp (svPacks sv) (nowRFC3339 env) (Receipt.truncate req) (idem_key_of req) (svStore sv) = (st, Inr r)"
    "svStore sv' = st" "svPacks sv' = svPacks sv" "svLedger sv' = svLedger sv" "svCache sv' = c"
    "Lines req \<noteq> []" "ReceiptNo req \<noteq> ''''"
proof -
  show ?thesis
    using assms that unfolding handleIngestReceipt_def key_of_def GetReceipt_def Let_def
    by (auto split: if_splits option.splits prod.splits sum.splits bool.splits)
qed

lemma ingest_stored:
  assumes "handleIngestReceipt dp env (Some req) sv = (sv', Reply 201 (Ingested r))" "rcID req = ''''"
  shows "receipts (svStore sv') (key_of dp req) = Some r"
  using assms(1)
proof (rule ingest_okD)
  fix c st
  assume none: "receipts (svStore sv) (key_of dp req) = None"
    and proc: "processReceipt dp (svPacks sv) (nowRFC3339 env) (Receipt.truncate req) (idem_key_of req) (svStore sv) = (st, Inr r)"
    and st: "svStore sv' = st"
  have "receipt_id dp (Receipt.truncate req) (idem_key_of req) = key_of dp req"
    using assms(2) by (simp add: receipt_id_def key_of_def)
  with processReceipt_stored [OF proc] none st show ?thesis by simp
qed

lemma Spool_receipts: "receipts (fst (Spool e st)) = receipts st"
  by (simp add: Spool_def Let_def split_beta)

lemma ingest_mono:
  assumes "receipts (svStore sv) i = Some x"
  shows "receipts (svStore (fst (handleIngestReceipt dp env body sv))) i = Some x"
proof -
  have "receipts st i = Some x" if "Spool e (svStore sv) = (st, r)" for e st r
    using Spool_receipts [of e "svStore sv"] that assms by simp
  moreover have "receipts st i = Some x" if "processReceipt dp ps now rc idem (svStore sv) = (st, r)" for ps now rc idem st r
    using processReceipt_mono [OF that assms] .
  ultimately show ?thesis
    using assms unfolding handleIngestReceipt_def GetReceipt_def Let_def
    by (auto split: option.splits prod.splits sum.splits bool.splits)
qed

text \<open>A whole sequence of ingest requests, in the order the service handles them.\<close>

fun ingest_run :: "('l, 'c) Deps \<Rightarrow> (request_env \<times> IngestRequest option) list \<Rightarrow> ('l, 'c) Service \<Rightarrow>
    ('l, 'c) Service \<times> ingest_reply response list" where
  "ingest_run dp [] sv = (sv, [])"
| "ingest_run dp ((env, body) # reqs) sv =
     (let (sv1, resp) = handleIngestReceipt dp env body sv;
          (sv2, resps) = ingest_run dp reqs sv1
      in (sv2, resp # resps))"

definition ingested_under :: "('l, 'c) Deps \<Rightarrow> string \<Rightarrow> (request_env \<times> IngestRequest option) \<times> ingest_reply response \<Rightarrow> bool" where
  "ingested_under dp key x =
     (case x of ((env, body), resp) \<Rightarrow>
        (case body of Some req \<Rightarrow> key_of dp req = key | None \<Rightarrow> False) \<and>
        (case resp of Reply n (Ingested r) \<Rightarrow> n = 201 | _ \<Rightarrow> False))"

lemma ingested_underD:
  assumes "ingested_under dp key ((env, body), resp)"
  obtains req r where "body = Some req" "key_of dp req = key" "resp = Reply 201 (Ingested r)"
  using assms by (auto simp: ingested_under_def split: option.splits response.splits ingest_reply.splits)

lemma ingest_run_none_after:
  assumes "receipts (svStore sv) key = Some x"
  shows "filter (ingested_under dp key) (zip reqs (snd (ingest_run dp reqs sv))) = []"
  using assms
proof (induction dp reqs sv rule: ingest_run.induct)
  case (2 dp env body reqs sv)
  let ?h = "handleIngestReceipt dp env body sv"
  have "\<not> ingested_under dp key ((env, body), snd ?h)"
  proof
    assume "ingested_under dp key ((env, body), snd ?h)"
    then obtain req r where *: "body = Some req" "key_of dp req = key" "snd ?h = Reply 201 (Ingested r)"
      by (rule ingested_underD)
    then have "handleIngestReceipt dp env (Some req) sv = (fst ?h, Reply 201 (Ingested r))"
      by (metis prod.collapse)
    then show False using "2.prems" * by (auto elim: ingest_okD)
  qed
  moreover have "receipts (svStore (fst ?h)) key = Some x"
    by (rule ingest_mono [OF "2.prems"])
  ultimately show ?case using "2.IH" [of ?h "fst ?h" "snd ?h"]
    by (simp add: Let_def split_beta)
qed simp

lemma ingest_run_at_most_one:
  assumes "\<forall>(env, body)\<in>set reqs. \<forall>req. body = Some req \<longrightarrow> key_of dp req = key \<longrightarrow> rcID req = ''''"
  shows "length (filter (ingested_under dp key) (zip reqs (snd (ingest_run dp reqs sv)))) \<le> 1"
  using assms
proof (induction dp reqs sv rule: ingest_run.induct)
  case (2 dp env body reqs sv)
  let ?h = "handleIngestReceipt dp env body sv"
  show ?case
  proof (cases "ingested_under dp key ((env, body), snd ?h)")
    case True
    then obtain req r where *: "body = Some req" "key_of dp req = key" "snd ?h = Reply 201 (Ingested r)"
      by (rule ingested_underD)
    then have "handleIngestReceipt dp env (Some req) sv = (fst ?h, Reply 201 (Ingested r))"
      by (metis prod.collapse)
    then have "receipts (svStore (fst ?h)) key = Some r"
      using ingest_stored [of dp env req sv] * "2.prems" by auto
    from ingest_run_none_after [OF this] show ?thesis using True by (simp add: Let_def split_beta)
  next
    case False
    then show ?thesis using "2.IH" [of ?h "fst ?h" "snd ?h"] "2.prems" by (simp add: Let_def split_beta)
  qed
qed simp

section \<open>Refused retries\<close>

text \<open>
  A request whose processing fails has already taken its key in the cache: within the seven
  days of the key's life the same request is answered 409, although nothing is in progress.
\<close>

lemma SetNX_no_error: "\<exists>c b. SetNX k v ttl now m = (c, Inr b)"
  by (cases "m k") (auto simp: SetNX_def)

lemma ingest_failedD:
  assumes "handleIngestReceipt dp env (Some req) sv = (sv', Problem 422 ''processing failed'')"
  obtains c where
    "cSetNX (cacheClient dp) (''idem:'' @ idem_key_of req) ''1'' sevenDays (nowNanos env) (svCache sv) = (c, Inr True)"
    "svCache sv' = c" "receipts (svStore sv') = receipts (svStore sv)"
    "receipts (svStore sv) (key_of dp req) = None" "Lines req \<noteq> []" "ReceiptNo req \<noteq> ''''"
proof -
  show ?thesis
    using assms that unfolding handleIngestReceipt_def key_of_def GetReceipt_def Let_def
    by (auto split: if_splits option.splits prod.splits sum.splits bool.splits dest: processReceipt_errD)
qed

lemma ingest_failed_then_conflict:
  assumes cache: "cacheClient dp = memCache" and dp': "cacheClient dp' = memCache" "hmac16 dp' = hmac16 dp"
    and fail: "handleIngestReceipt dp env (Some req) sv = (sv', Problem 422 ''processing failed'')"
    and time: "nowNanos env \<le> nowNanos env'" "nowNanos env' < nowNanos env + sevenDays"
  shows "snd (handleIngestReceipt dp' env' (Some req) sv') = Problem 409 ''conflict''"
  using fail
proof (rule ingest_failedD)
  fix c
  assume c: "cSetNX (cacheClient dp) (''idem:'' @ idem_key_of req) ''1'' sevenDays (nowNanos env) (svCache sv) = (c, Inr True)"
    "svCache sv' = c" "receipts (svStore sv') = receipts (svStore sv)"
    "receipts (svStore sv) (key_of dp req) = None" "Lines req \<noteq> []" "ReceiptNo req \<noteq> ''''"
  have key: "''rcpt-'' @ idemHash dp' (idem_key_of req) = key_of dp req"
    using dp'(2) by (simp add: key_of_def idemHash_def TINHash_def)
  obtain c2 b where c2: "cSetNX memCache (''idem:'' @ idem_key_of req) ''1'' sevenDays (nowNanos env') c = (c2, Inr b)"
    using SetNX_no_error [of "''idem:'' @ idem_key_of req" "''1''" sevenDays "nowNanos env'" c]
    by (auto simp: memCache_def)
  with mem.at_most_once [OF c(1) [unfolded cache] time] have "\<not> b" by blast
  with c c2 key dp'(1) show ?thesis
    by (simp add: handleIngestReceipt_def GetReceipt_def Let_def)
qed

section \<open>The spool drain loses nothing\<close>

lemma SpoolRemove_simps [simp]:
  "receipts (SpoolRemove i st) = receipts st"
  "spoolDir (SpoolRemove i st) = filter (\<lambda>f. spoolID f \<noteq> i) (spoolDir st)"
  by (simp_all add: SpoolRemove_def)

lemma PutReceipt_spool: "spoolDir (fst (PutReceipt r st)) = spoolDir st"
  by (simp add: PutReceipt_def log_write_def flushLocked_def log_sync_def Let_def split_beta index_receipt_def
      split: sum.split)

lemma processReceipt_spool:
  assumes "processReceipt dp ps now rc idem st = (st', r)"
  shows "spoolDir st' = spoolDir st"
proof -
  have "spoolDir st1 = spoolDir st" if "PutReceipt x st = (st1, v)" for x st1 v
    using PutReceipt_spool [of x st] that by simp
  then show ?thesis
    using assms unfolding processReceipt_def Let_def
    by (auto split: sum.splits option.splits prod.splits)
qed

text \<open>An entry is safe when it is still spooled or its receipt is in the store.\<close>

definition entry_safe :: "('l, 'c) Deps \<Rightarrow> SpoolEntry \<Rightarrow> Store \<Rightarrow> bool" where
  "entry_safe dp e st \<longleftrightarrow> e \<in> set (spoolDir st) \<or>
     (\<exists>rc. Payload e = Some rc \<and> receipts st (receipt_id dp rc (idem_key_of rc)) \<noteq> None)"

lemma drain_entry_safe:
  assumes "drain_entry dp now e sv = (sv', res)" "entry_safe dp f (svStore sv)" "spoolID f \<noteq> spoolID e \<or> f = e"
  shows "entry_safe dp f (svStore sv')"
proof (cases "Payload e")
  case None
  with assms show ?thesis by (simp add: drain_entry_def)
next
  case (Some rc)
  obtain st r where p: "processReceipt dp (svPacks sv) now rc (idem_key_of rc) (svStore sv) = (st, r)"
    by fastforce
  have keep: "receipts st i \<noteq> None" if "receipts (svStore sv) i \<noteq> None" for i
    using that processReceipt_mono [OF p] by auto
  have spool: "spoolDir st = spoolDir (svStore sv)" by (rule processReceipt_spool [OF p])
  show ?thesis
  proof (cases r)
    case (Inl err)
    with assms(1,2) Some p keep spool show ?thesis by (auto simp: drain_entry_def entry_safe_def)
  next
    case (Inr out)
    then have sv': "svStore sv' = SpoolRemove (spoolID e) st"
      using assms(1) Some p by (auto simp: drain_entry_def)
    have "receipts st (receipt_id dp rc (idem_key_of rc)) \<noteq> None"
      using processReceipt_stored p Inr by (metis fun_upd_same option.distinct(1))
    with sv' Some assms(2,3) keep spool show ?thesis by (auto simp: entry_safe_def)
  qed
qed

lemma drain_loop_safe:
  assumes "drain_loop dp now es sv n fs = (sv', n', fs')" "entry_safe dp f (svStore sv)"
    and "\<forall>e\<in>set es. spoolID f \<noteq> spoolID e \<or> f = e"
  shows "entry_safe dp f (svStore sv')"
  using assms
proof (induction dp now es sv n fs rule: drain_loop.induct)
  case (2 dp now e es sv n fs)
  obtain sv1 res where d: "drain_entry dp now e sv = (sv1, res)" by fastforce
  have "entry_safe dp f (svStore sv1)"
    using drain_entry_safe [OF d "2.prems"(2)] "2.prems"(3) by simp
  then show ?case
    using 2 d by (cases res) auto
qed simp

lemma drain_loop_counts:
  "drain_loop dp now es sv n fs = (sv', n', fs') \<Longrightarrow> n' + length fs' = n + length fs + length es"
  by (induction dp now es sv n fs rule: drain_loop.induct) (auto split: prod.splits option.splits)

lemma drain_safe:
  assumes "distinct (map spoolID (spoolDir (svStore sv)))" "e \<in> set (spoolDir (svStore sv))"
  shows "entry_safe dp e (svStore (fst (handleSpoolDrain dp env sv)))"
proof -
  obtain sv' n' fs' where d: "drain_loop dp (nowRFC3339 env) (SpoolList (svStore sv)) sv 0 [] = (sv', n', fs')"
    by (metis prod_cases3)
  have "spoolID e \<noteq> spoolID f \<or> e = f" if "f \<in> set (SpoolList (svStore sv))" for f
    using that assms by (auto simp: SpoolList_def distinct_map inj_on_def)
  then have "entry_safe dp e (svStore sv')"
    using drain_loop_safe [OF d] assms(2) by (simp add: entry_safe_def)
  with d show ?thesis by (simp add: handleSpoolDrain_def)
qed

end
