(* ===== verification/Pos_Settlement.thy ===== *)
theory Pos_Settlement
  imports Pos_Receipts
begin

text \<open>
  Period settlement and the reports of the POS VAT service (\<^verbatim>\<open>services/pos-vat/handlers.go\<close>,
  lines 239-602): aggregation of the unsettled receipts of a period, the settlement saga over
  the three statutory legs (federal, state, LGA) with its durable marker, the variance and
  B2C reports and the certification run. The saga is written against the \<open>LedgerClient\<close> interface; the ledger and
  the store are threaded through it.
\<close>

section \<open>The saga\<close>

record leg =
  legName :: string
  legPendID :: string
  legAmount :: int64
  legAccount :: string

text \<open>The messages of the ledger errors, as they appear in a marker's fail reason.\<close>

fun ledger_error_text :: "ledger_error \<Rightarrow> string" where
  "ledger_error_text AmountNotPositive = ''amount must be positive kobo''"
| "ledger_error_text (DebitAccountMissing a) = ''debit account '' @ a @ '' missing''"
| "ledger_error_text (CreditAccountMissing a) = ''credit account '' @ a @ '' missing''"
| "ledger_error_text FloatViolated = ''float constraint violated: debits would exceed credits''"
| "ledger_error_text TransferIdExists = ''transfer id exists with different parameters or state''"
| "ledger_error_text NotPostable = ''pending transfer not found or not postable''"
| "ledger_error_text PostAmountExceeds = ''post amount must be <= pending amount''"
| "ledger_error_text NotVoidable = ''pending transfer not found or not voidable''"
| "ledger_error_text TransferNotFound = ''transfer not found''"
| "ledger_error_text AccountNotFound = ''account not found''"
| "ledger_error_text NilAccount = ''nil pointer dereference''"
| "ledger_error_text (RemoteError s) = s"

datatype legs_outcome =
    LegsDone
  | LegPendingFailed string ledger_error
  | LegPostFailed string ledger_error bool \<comment> \<open>leg, error, still resumable\<close>

definition leg_transfer :: "string \<Rightarrow> leg \<Rightarrow> LedgerTransfer" where
  "leg_transfer merchant g =
     \<lparr>txID = legPendID g, DebitAccountID = merchant, CreditAccountID = legAccount g,
      AmountKobo = legAmount g, txLedger = int LedgerVATRemittance, txCode = 5\<rparr>"

definition leg_posted :: "'l LedgerClient \<Rightarrow> string \<Rightarrow> 'l \<Rightarrow> bool" where
  "leg_posted L i l = (case lcGetTransfer L i l of Inr ts \<Rightarrow> tsPosted ts | Inl _ \<Rightarrow> False)"

definition leg_resumable :: "'l LedgerClient \<Rightarrow> string \<Rightarrow> 'l \<Rightarrow> bool" where
  "leg_resumable L i l =
     (case lcGetTransfer L i l of
        Inr ts \<Rightarrow> tsPending ts \<and> \<not> tsPosted ts \<and> \<not> tsVoided ts
      | Inl _ \<Rightarrow> False)"

definition reversal :: "('l, 'c) Deps \<Rightarrow> string \<Rightarrow> string \<Rightarrow> string \<Rightarrow> leg \<Rightarrow> LedgerTransfer" where
  "reversal dp tenant period merchant g =
     \<lparr>txID = sha16 dp (''posv-rev:'' @ tenant @ '':'' @ period @ '':'' @ legName g),
      DebitAccountID = legAccount g, CreditAccountID = merchant, AmountKobo = legAmount g,
      txLedger = int LedgerVATRemittance, txCode = 3\<rparr>"

definition compensate :: "('l, 'c) Deps \<Rightarrow> string \<Rightarrow> string \<Rightarrow> string \<Rightarrow> leg list \<Rightarrow> string list \<Rightarrow> 'l \<Rightarrow> 'l" where
  "compensate dp tenant period merchant legs postedLegs l =
     fold (\<lambda>g l. if legName g \<in> set postedLegs
                 then fst (lcTransfer (ledgerClient dp) (reversal dp tenant period merchant g) l) else l) legs l"

text \<open>The loop over the legs; \<open>all\<close> is the whole list of legs, \<open>done\<close> the names posted so far.\<close>

fun settle_legs :: "('l, 'c) Deps \<Rightarrow> string \<Rightarrow> string \<Rightarrow> string \<Rightarrow> leg list \<Rightarrow> leg list \<Rightarrow> string list \<Rightarrow> 'l \<Rightarrow>
    'l \<times> legs_outcome" where
  "settle_legs dp tenant period merchant all [] done l = (l, LegsDone)"
| "settle_legs dp tenant period merchant all (g # gs) done l =
     (if legAmount g \<le> 0 then settle_legs dp tenant period merchant all gs done l
      else if leg_posted (ledgerClient dp) (legPendID g) l
      then settle_legs dp tenant period merchant all gs (legName g # done) l
      else (case lcPendingTransfer (ledgerClient dp) (leg_transfer merchant g) l of
              (l1, pend) \<Rightarrow>
                if \<not> is_ok pend \<and> \<not> is_ok (lcGetTransfer (ledgerClient dp) (legPendID g) l1)
                then (l1, LegPendingFailed (legName g) (projl pend))
                else (case lcPostPending (ledgerClient dp) (legPendID g) (legAmount g) l1 of
                        (l2, Inr _) \<Rightarrow> settle_legs dp tenant period merchant all gs (legName g # done) l2
                      | (l2, Inl e) \<Rightarrow>
                          if leg_resumable (ledgerClient dp) (legPendID g) l2
                          then (l2, LegPostFailed (legName g) e True)
                          else (compensate dp tenant period merchant all done l2, LegPostFailed (legName g) e False))))"

definition settle_suffix :: "nat \<Rightarrow> string" where
  "settle_suffix supp = (if supp > 0 then '':supp:'' @ show_nat supp else '''')"

definition pend_id :: "('l, 'c) Deps \<Rightarrow> string \<Rightarrow> string \<Rightarrow> string \<Rightarrow> nat \<Rightarrow> string" where
  "pend_id dp tenant period name supp =
     sha16 dp (''posv-pend:'' @ tenant @ '':'' @ period @ '':'' @ name @ settle_suffix supp)"

definition pool :: "nat \<Rightarrow> string" where
  "pool ns = accountID LedgerVATRemittance ns"

definition settle_leg_list :: "('l, 'c) Deps \<Rightarrow> string \<Rightarrow> string \<Rightarrow> nat \<Rightarrow> int64 \<Rightarrow> int64 \<Rightarrow> int64 \<Rightarrow> leg list" where
  "settle_leg_list dp tenant period supp federal state lga =
     [\<lparr>legName = ''federal'', legPendID = pend_id dp tenant period ''federal'' supp,
       legAmount = federal, legAccount = pool NSVATFederalPool\<rparr>,
      \<lparr>legName = ''state'', legPendID = pend_id dp tenant period ''state'' supp,
       legAmount = state, legAccount = pool NSVATStatePool\<rparr>,
      \<lparr>legName = ''lga'', legPendID = pend_id dp tenant period ''lga'' supp,
       legAmount = lga, legAccount = pool NSVATLGAPool\<rparr>]"

definition new_marker :: "string \<Rightarrow> string \<Rightarrow> string \<Rightarrow> SettledPeriod" where
  "new_marker tenant period now =
     \<lparr>spTenantID = tenant, spPeriod = period, spFederalKobo = 0, spStateKobo = 0, spLGAKobo = 0,
      FederalPendingID = '''', StatePendingID = '''', LGAPendingID = '''', Supplements = 0,
      spStatus = ''pending'', ReconID = '''', FailReason = '''', spUpdatedAt = now\<rparr>"

definition settle_marker :: "('l, 'c) Deps \<Rightarrow> string \<Rightarrow> string \<Rightarrow> string \<Rightarrow> int64 \<Rightarrow> int64 \<Rightarrow> int64 \<Rightarrow> string \<Rightarrow> nat \<Rightarrow>
    SettledPeriod \<Rightarrow> SettledPeriod" where
  "settle_marker dp tenant period now federal state lga reconID supp sp =
     (if supp = 0
      then sp\<lparr>spFederalKobo := federal, spStateKobo := state, spLGAKobo := lga\<rparr>
      else sp\<lparr>spFederalKobo := add64 (spFederalKobo sp) federal, spStateKobo := add64 (spStateKobo sp) state,
              spLGAKobo := add64 (spLGAKobo sp) lga\<rparr>)
     \<lparr>FederalPendingID := pend_id dp tenant period ''federal'' supp,
      StatePendingID := pend_id dp tenant period ''state'' supp,
      LGAPendingID := pend_id dp tenant period ''lga'' supp,
      ReconID := reconID, Supplements := supp, spStatus := ''pending'', spUpdatedAt := now\<rparr>"

datatype settle_error =
    MarkerNotPersisted store_error
  | LegPending string ledger_error
  | LegPost string ledger_error bool

definition settlePeriod :: "('l, 'c) Deps \<Rightarrow> string \<Rightarrow> string \<Rightarrow> string \<Rightarrow> string \<Rightarrow> int64 \<Rightarrow> int64 \<Rightarrow> int64 \<Rightarrow> string \<Rightarrow> nat \<Rightarrow>
    Store \<times> 'l \<Rightarrow> (Store \<times> 'l) \<times> (settle_error + unit)" where
  "settlePeriod dp now tenant period merchant federal state lga reconID supp = (\<lambda>(st, l).
     (let sp0 = (case GetSettledPeriod tenant period st of
                   None \<Rightarrow> new_marker tenant period now | Some sp \<Rightarrow> sp);
          sp = settle_marker dp tenant period now federal state lga reconID supp sp0;
          legs = settle_leg_list dp tenant period supp federal state lga
      in case SaveSettledPeriod sp st of
           (st1, Inl e) \<Rightarrow> ((st1, l), Inl (MarkerNotPersisted e))
         | (st1, Inr _) \<Rightarrow>
             (case settle_legs dp tenant period merchant legs legs [] l of
                (l1, LegPendingFailed nm e) \<Rightarrow> ((st1, l1), Inl (LegPending nm e))
              | (l1, LegPostFailed nm e resumable) \<Rightarrow>
                  (let sp' = sp\<lparr>spStatus := ''failed'', FailReason := nm @ '' post: '' @ ledger_error_text e,
                                spUpdatedAt := now\<rparr>
                   in ((fst (SaveSettledPeriod sp' st1), l1), Inl (LegPost nm e resumable)))
              | (l1, LegsDone) \<Rightarrow>
                  (case SaveSettledPeriod (sp\<lparr>spStatus := ''settled'', spUpdatedAt := now\<rparr>) st1 of
                     (st2, Inl e) \<Rightarrow> ((st2, l1), Inl (MarkerNotPersisted e))
                   | (st2, Inr _) \<Rightarrow> ((st2, l1), Inr ())))))"

section \<open>The settlement handler\<close>

record settle_totals =
  agVAT :: int64
  agFederal :: int64
  agState :: int64
  agLGA :: int64
  agPlatformVAT :: int64
  agPlatformCount :: nat
  agCount :: nat
  agIDs :: "string list"
  agTotalCount :: nat

definition zero_agg :: settle_totals where
  "zero_agg = \<lparr>agVAT = 0, agFederal = 0, agState = 0, agLGA = 0, agPlatformVAT = 0, agPlatformCount = 0,
     agCount = 0, agIDs = [], agTotalCount = 0\<rparr>"

definition lga_leg :: "Receipt \<Rightarrow> int64" where
  "lga_leg rc =
     (if LGAKobo (Attribution rc) = 0 \<and> arMode (Attribution rc) \<noteq> ''federal''
      then sub64 (sub64 (VATKobo rc) (FederalKobo (Attribution rc))) (StateKobo (Attribution rc))
      else LGAKobo (Attribution rc))"

definition agg_receipt :: "string \<Rightarrow> Receipt \<Rightarrow> settle_totals \<Rightarrow> settle_totals" where
  "agg_receipt period rc a =
     (if \<not> HasPrefix (CapturedAt rc) period then a
      else (let a1 = a\<lparr>agTotalCount := agTotalCount a + 1\<rparr>
            in if SettledIn rc \<noteq> '''' then a1
               else (let a2 = a1\<lparr>agVAT := add64 (agVAT a1) (VATKobo rc),
                                 agFederal := add64 (agFederal a1) (FederalKobo (Attribution rc)),
                                 agState := add64 (agState a1) (StateKobo (Attribution rc)),
                                 agLGA := add64 (agLGA a1) (lga_leg rc)\<rparr>;
                         a3 = (if PlatformCollected rc
                               then a2\<lparr>agPlatformVAT := add64 (agPlatformVAT a2) (VATKobo rc),
                                       agPlatformCount := agPlatformCount a2 + 1\<rparr>
                               else a2)
                     in a3\<lparr>agCount := agCount a3 + 1, agIDs := agIDs a3 @ [rcID rc]\<rparr>)))"

definition aggregate :: "string \<Rightarrow> Receipt list \<Rightarrow> settle_totals" where
  "aggregate period rcs = fold (agg_receipt period) rcs zero_agg"

datatype recon_reply = ReplayRecon ReconRecord | ReplayMarker SettledPeriod | SettledAs ReconRecord

definition recon_id :: "('l, 'c) Deps \<Rightarrow> string \<Rightarrow> string \<Rightarrow> nat \<Rightarrow> string" where
  "recon_id dp tenant period supp =
     take 16 (sha16 dp (''posv-recon:'' @ tenant @ '':'' @ period @ '':'' @ show_nat supp))"

definition merchant_account :: string where
  "merchant_account = accountID LedgerVATRemittance NSVATMerchant"

definition posted_ids :: "SettledPeriod \<Rightarrow> string" where
  "posted_ids sp = join '','' (filter (\<lambda>i. i \<noteq> '''') [FederalPendingID sp, StatePendingID sp, LGAPendingID sp])"

text \<open>The supplement number: one more than the marker's for late receipts of a settled period, 0 otherwise.\<close>

definition supplement_no :: "SettledPeriod option \<Rightarrow> nat" where
  "supplement_no sp = (case sp of Some s \<Rightarrow> if spStatus s = ''settled'' then Supplements s + 1 else 0 | None \<Rightarrow> 0)"

definition handleSettlementRecon :: "('l, 'c) Deps \<Rightarrow> request_env \<Rightarrow> string list \<Rightarrow> (string \<times> string) option \<Rightarrow>
    ('l, 'c) Service \<Rightarrow> ('l, 'c) Service \<times> recon_reply response" where
  "handleSettlementRecon dp env ord body sv =
     (case body of
        None \<Rightarrow> (sv, Problem 400 ''bad request'')
      | Some (period, tenant) \<Rightarrow>
          if period = '''' then (sv, Problem 422 ''validation failed'')
          else
            (let a = aggregate period (ListReceipts ord tenant '''' 0 (svStore sv));
                 sp0 = GetSettledPeriod tenant period (svStore sv);
                 settled = (case sp0 of Some s \<Rightarrow> spStatus s = ''settled'' | None \<Rightarrow> False)
             in if agTotalCount a = 0 then (sv, Problem 404 ''no receipts'')
                else if settled \<and> agCount a = 0
                then (case find (\<lambda>rc. recID rc = ReconID (the sp0)) (Recons (svStore sv)) of
                        Some rc \<Rightarrow> (sv, Reply 200 (ReplayRecon rc))
                      | None \<Rightarrow> (sv, Reply 200 (ReplayMarker (the sp0))))
                else
                  (let supp = supplement_no sp0;
                       reconID = recon_id dp tenant period supp;
                       rec = \<lparr>recID = reconID, recPeriod = period, recTenantID = tenant, recReceipts = agCount a,
                              recVATKobo = agVAT a, recFederalKobo = agFederal a, recStateKobo = agState a,
                              recLGAKobo = agLGA a, PlatformCollectedKobo = agPlatformVAT a,
                              PlatformReceipts = agPlatformCount a, Supplement = supp, recLedgerTransfer = '''',
                              LedgerMode = lcMode (ledgerClient dp), PostedAt = nowRFC3339 env\<rparr>;
                       l0 = lcCreateAccounts (ledgerClient dp)
                              [\<lparr>accID = merchant_account, accLedger = int LedgerVATRemittance, accCode = 4, accFlags = ''''\<rparr>]
                              (svLedger sv)
                   in case settlePeriod dp (nowRFC3339 env) tenant period merchant_account (agFederal a) (agState a) (agLGA a)
                             reconID supp (svStore sv, l0) of
                        ((st1, l1), Inl e) \<Rightarrow> (sv\<lparr>svStore := st1, svLedger := l1\<rparr>, Problem 502 ''settlement saga failed'')
                      | ((st1, l1), Inr _) \<Rightarrow>
                          (case MarkReceiptsSettled (agIDs a) tenant period st1 of
                             (st2, Inl e) \<Rightarrow> (sv\<lparr>svStore := st2, svLedger := l1\<rparr>, Problem 502 ''settlement marker failed'')
                           | (st2, Inr _) \<Rightarrow>
                               (let ids = (case GetSettledPeriod tenant period st2 of Some sp \<Rightarrow> posted_ids sp | None \<Rightarrow> '''');
                                    rec' = rec\<lparr>recLedgerTransfer := ids\<rparr>
                                in (sv\<lparr>svStore := AddRecon rec' st2, svLedger := l1,
                                       svBus := Publish ''nrs.pos.settlement.recon.v1'' tenant (VersionString (svPacks sv))
                                                  (EvRecon rec') (svBus sv)\<rparr>,
                                    Reply 201 (SettledAs rec')))))))"

definition handleListRecon :: "('l, 'c) Service \<Rightarrow> ReconRecord list response" where
  "handleListRecon sv = Reply 200 (Recons (svStore sv))"

section \<open>Reports\<close>

record varianceRow =
  vrReceiptID :: string
  vrKind :: string
  vrExpected :: int64
  vrActual :: int64
  vrDelta :: int64

definition variance_rows :: "int64 \<Rightarrow> Receipt \<Rightarrow> varianceRow list" where
  "variance_rows rate rc =
     (let recompute = roundBpsHalfUp (Baskets rc ''standard_75'') rate;
          delta1 = sub64 (VATKobo rc) recompute;
          attrSum = add64 (FederalKobo (Attribution rc)) (StateKobo (Attribution rc));
          delta2 = sub64 (VATKobo rc) attrSum
      in (if delta1 < -1 \<or> delta1 > 1
          then [\<lparr>vrReceiptID = rcID rc, vrKind = ''vat-recompute-drift'', vrExpected = recompute,
                 vrActual = VATKobo rc, vrDelta = delta1\<rparr>] else []) @
         (if arMode (Attribution rc) \<noteq> ''federal'' \<and> (delta2 < -1 \<or> delta2 > 1)
          then [\<lparr>vrReceiptID = rcID rc, vrKind = ''attribution-sum-mismatch'', vrExpected = VATKobo rc,
                 vrActual = attrSum, vrDelta = delta2\<rparr>] else []))"

definition handleVariance :: "string list \<Rightarrow> string \<Rightarrow> ('l, 'c) Service \<Rightarrow> varianceRow list response" where
  "handleVariance ord tenant sv =
     Reply 200 (concat (map (variance_rows (StandardRateBPS (svPacks sv))) (ListReceipts ord tenant '''' 0 (svStore sv))))"

record b2c_row =
  b2ReceiptID :: string
  b2CapturedAt :: string
  b2TotalKobo :: int64
  b2VATKobo :: int64
  b2State :: string
  b2TINHash :: string

record b2c_report =
  b2Tenant :: string
  b2Period :: string
  b2Transactions :: nat
  b2TotalSales :: int64
  b2TotalVAT :: int64
  b2Rows :: "b2c_row list"

definition b2c_of :: "Receipt \<Rightarrow> b2c_row" where
  "b2c_of rc = \<lparr>b2ReceiptID = rcID rc, b2CapturedAt = CapturedAt rc, b2TotalKobo = TotalKobo rc,
     b2VATKobo = VATKobo rc, b2State = rcState rc, b2TINHash = MerchantTINHash rc\<rparr>"

definition handleB2CReport :: "string list \<Rightarrow> (string \<times> string) option \<Rightarrow> ('l, 'c) Service \<Rightarrow>
    ('l, 'c) Service \<times> b2c_report response" where
  "handleB2CReport ord body sv =
     (case body of
        None \<Rightarrow> (sv, Problem 400 ''bad request'')
      | Some (tenant, period) \<Rightarrow>
          (let rcs = filter (\<lambda>rc. period = '''' \<or> HasPrefix (CapturedAt rc) period)
                       (ListReceipts ord tenant '''' 0 (svStore sv));
               report = \<lparr>b2Tenant = tenant, b2Period = period, b2Transactions = length rcs,
                         b2TotalSales = sum64 TotalKobo rcs, b2TotalVAT = sum64 VATKobo rcs,
                         b2Rows = map b2c_of rcs\<rparr>
           in (sv\<lparr>svBus := Publish ''nrs.pos.b2c.report.v1'' tenant (VersionString (svPacks sv))
                            (EvB2C tenant period (length rcs) (b2TotalSales report) (b2TotalVAT report)) (svBus sv)\<rparr>,
               Reply 201 report)))"

text \<open>
  The certification run: one check per line against the basket of its category, one geo check
  per receipt with the embedded lookup (the argument \<open>embeddedGeo\<close>).
\<close>

datatype cert_failure = BasketFailure string string string | GeoFailure string

definition cert_line :: "PackSet \<Rightarrow> Receipt \<Rightarrow> ReceiptLine \<Rightarrow> cert_failure list" where
  "cert_line ps rc ln =
     (let want = BasketFor ps (Category ln); amount = line_amount ln;
          ok = (if want = ''exempt'' \<or> want = ''zero_rated'' then Baskets rc want \<ge> amount
                else Baskets rc ''standard_75'' \<ge> amount)
      in if ok then [] else [BasketFailure (rcID rc) (SKU ln) want])"

definition cert_receipt :: "(float64 \<Rightarrow> float64 \<Rightarrow> (string \<times> string) option) \<Rightarrow> PackSet \<Rightarrow> Receipt \<Rightarrow> cert_failure list" where
  "cert_receipt embeddedGeo ps rc =
     concat (map (cert_line ps rc) (Lines rc)) @
     (if embeddedGeo (Lat rc) (Lon rc) = None then [GeoFailure (rcID rc)] else [])"

record cert_report =
  ceChecks :: nat
  cePassed :: nat
  ceVerdict :: string
  ceFailures :: "cert_failure list"

definition handleCertRun :: "(float64 \<Rightarrow> float64 \<Rightarrow> (string \<times> string) option) \<Rightarrow> string list \<Rightarrow> string \<Rightarrow> int \<Rightarrow>
    ('l, 'c) Service \<Rightarrow> ('l, 'c) Service \<times> cert_report response" where
  "handleCertRun embeddedGeo ord tenant sample sv =
     (let n = (if sample \<le> 0 then 50 else nat sample);
          rcs = ListReceipts ord tenant '''' n (svStore sv);
          checks = sum_list (map (\<lambda>rc. length (Lines rc) + 1) rcs);
          failures = concat (map (cert_receipt embeddedGeo (svPacks sv)) rcs);
          passed = checks - length failures
      in (sv\<lparr>svBus := Publish ''nrs.pos.cert.run.v1'' tenant (VersionString (svPacks sv)) (EvCert tenant checks passed) (svBus sv)\<rparr>,
          Reply 201 \<lparr>ceChecks = checks, cePassed = passed,
                     ceVerdict = (if failures = [] then ''PASS'' else ''FAIL''), ceFailures = failures\<rparr>))"

definition handleAttributionMode :: "('l, 'c) Deps \<Rightarrow> ('l, 'c) Service \<Rightarrow> AttributionConfig response" where
  "handleAttributionMode dp sv = Reply 200 (attributionConfig (svPacks sv) (attributionMode dp))"

definition handleEvents :: "('l, 'c) Service \<Rightarrow> pos_event Envelope list response" where
  "handleEvents sv = Reply 200 (Recent 50 (svBus sv))"


section \<open>Settlement on any ledger\<close>

context ledger_client
begin

lemma leg_posted_iff: "leg_posted L i l \<longleftrightarrow> reports_posted l i"
  by (auto simp: leg_posted_def reports_posted_def split: sum.splits)

text \<open>A completed run has every positive leg posted, and never un-posts a transfer.\<close>

lemma settle_legs_posted:
  assumes "ledgerClient dp = L" "settle_legs dp t p m all gs don l = (l', LegsDone)"
    "\<forall>g\<in>set gs. legPendID g \<noteq> ''''"
  shows "(\<forall>g\<in>set gs. 0 < legAmount g \<longrightarrow> reports_posted l' (legPendID g)) \<and>
     (\<forall>k. reports_posted l k \<longrightarrow> reports_posted l' k)"
  using assms(2,3)
proof (induction gs arbitrary: don l)
  case Nil
  then show ?case by simp
next
  case (Cons g gs)
  show ?case
  proof (cases "legAmount g \<le> 0 \<or> leg_posted L (legPendID g) l")
    case True
    then obtain don' where "settle_legs dp t p m all gs don' l = (l', LegsDone)"
      using Cons.prems(1) assms(1) by (auto split: if_splits)
    from Cons.IH [OF this] Cons.prems(2) True show ?thesis by (auto simp: leg_posted_iff)
  next
    case False
    obtain l1 pend where pend: "lcPendingTransfer L (leg_transfer m g) l = (l1, pend)" by fastforce
    obtain l2 r where post: "lcPostPending L (legPendID g) (legAmount g) l1 = (l2, r)" by fastforce
    obtain j where r: "r = Inr j" and rest: "settle_legs dp t p m all gs (legName g # don) l2 = (l', LegsDone)"
      using Cons.prems(1) False pend post assms(1)
      by (cases r) (auto split: if_splits)
    have stays: "reports_posted l k \<Longrightarrow> reports_posted l2 k" for k
      using posted_stays_pend [OF pend] posted_stays_post [OF post] Cons.prems(2)
      by (simp add: leg_transfer_def)
    have "reports_posted l2 (legPendID g)"
      using post_posts post r by (simp add: reports_posted_def)
    with Cons.IH [OF rest] Cons.prems(2) stays show ?thesis by auto
  qed
qed

text \<open>Once every positive leg is posted, another run leaves the ledger alone.\<close>

lemma settle_legs_replay:
  assumes "ledgerClient dp = L" "\<forall>g\<in>set gs. 0 < legAmount g \<longrightarrow> reports_posted l (legPendID g)"
  shows "settle_legs dp t p m all gs don l = (l, LegsDone)"
  using assms(2)
  by (induction gs arbitrary: don) (auto simp: assms(1) leg_posted_iff)

end

section \<open>Settlement on the in-memory ledger\<close>

text \<open>
  What the saga finds for a leg it has to pay: no transfer under the leg's id yet, the
  reservation of an interrupted run, or the leg already posted.
\<close>

definition is_posted :: "DevLedger \<Rightarrow> string \<Rightarrow> bool" where
  "is_posted d i = (case transfers d i of Some tr \<Rightarrow> posted tr | None \<Rightarrow> False)"

definition leg_ready :: "string \<Rightarrow> DevLedger \<Rightarrow> leg \<Rightarrow> bool" where
  "leg_ready m d g \<longleftrightarrow>
     legPendID g \<noteq> '''' \<and> accounts d (legAccount g) \<noteq> None \<and>
     (case transfers d (legPendID g) of
        None \<Rightarrow> True
      | Some tr \<Rightarrow> posted tr \<or> pending tr \<and> \<not> voided tr \<and> sameLedgerTransfer tr (leg_transfer m g))"

definition legs_due :: "DevLedger \<Rightarrow> leg list \<Rightarrow> leg list" where
  "legs_due d gs = filter (\<lambda>g. 0 < legAmount g \<and> \<not> is_posted d (legPendID g)) gs"

lemma leg_posted_dev [simp]: "leg_posted devClient i d = is_posted d i"
  by (simp add: leg_posted_def is_posted_def GetTransfer_def split: option.split)

lemma unflagged_float: "unflagged d \<Longrightarrow> accounts d a = Some acc \<Longrightarrow> checkFloat acc amt = Inr ()"
  by (simp add: checkFloat_def unflagged_def float_flag_def)

text \<open>The posted debits and credits of an account.\<close>

definition posted_totals :: "DevLedger \<Rightarrow> string \<Rightarrow> (int64 \<times> int64) option" where
  "posted_totals d a = map_option (\<lambda>x. (debitsPosted x, creditsPosted x)) (accounts d a)"

text \<open>Reserve a leg, then post it in full.\<close>

lemma pend_leg:
  assumes "unflagged d" "accounts d m \<noteq> None" "leg_ready m d g" "0 < legAmount g" "\<not> is_posted d (legPendID g)"
  obtains d1 tr where "PendingTransfer (leg_transfer m g) d = (d1, Inr (legPendID g))"
    "transfers d1 = (transfers d)(legPendID g \<mapsto> tr)" "pending tr" "\<not> voided tr" "\<not> posted tr"
    "DebitAccountID tr = m" "CreditAccountID tr = legAccount g" "AmountKobo tr = legAmount g"
    "posted_totals d1 = posted_totals d"
proof (cases "transfers d (legPendID g)")
  case (Some tr)
  then have "PendingTransfer (leg_transfer m g) d = (d, Inr (legPendID g))" "pending tr" "\<not> voided tr" "\<not> posted tr"
     "DebitAccountID tr = m" "CreditAccountID tr = legAccount g" "AmountKobo tr = legAmount g"
    using assms by (auto simp: PendingTransfer_def leg_ready_def is_posted_def leg_transfer_def sameLedgerTransfer_def)
  with that Some show ?thesis by (metis fun_upd_triv)
next
  case None
  let ?t = "leg_transfer m g"
  have "checkAccounts ?t d = Inr ()"
    using assms by (auto simp: checkAccounts_def leg_transfer_def leg_ready_def unflagged_float)
  with None assms(3) have "PendingTransfer ?t d =
      (put_transfer (legPendID g) (mk_transfer ?t (legPendID g) True False) (add_pending m (legAccount g) (legAmount g) d), Inr (legPendID g))"
    by (simp add: PendingTransfer_def assign_id_def leg_transfer_def leg_ready_def)
  then show ?thesis
    by (rule that) (simp_all add: fun_eq_iff posted_totals_def accounts_add_pending option.map_comp comp_def, simp_all add: leg_transfer_def)
qed

lemma post_leg:
  assumes "unflagged d" "transfers d i = Some tr" "pending tr" "\<not> voided tr" "0 < AmountKobo tr"
    "accounts d (DebitAccountID tr) \<noteq> None" "accounts d (CreditAccountID tr) \<noteq> None"
  obtains d1 where "PostPending i (AmountKobo tr) d = (d1, Inr i)"
    "transfers d1 = (transfers d)(i \<mapsto> tr\<lparr>pending := False, posted := True\<rparr>)"
    "\<And>a. map_option (\<lambda>x. (debitsPosted x, creditsPosted x)) (accounts d1 a)
        = map_option (\<lambda>x. (if a = DebitAccountID tr then add64 (debitsPosted x) (AmountKobo tr) else debitsPosted x,
                           if a = CreditAccountID tr then add64 (creditsPosted x) (AmountKobo tr) else creditsPosted x)) (accounts d a)"
proof -
  let ?d1 = "put_transfer i (tr\<lparr>pending := False, posted := True\<rparr>)
       (add_posted (DebitAccountID tr) (CreditAccountID tr) (AmountKobo tr)
         (sub_pending (DebitAccountID tr) (CreditAccountID tr) (AmountKobo tr) d))"
  have "PostPending i (AmountKobo tr) d = (?d1, Inr i)"
    using assms by (auto simp: PostPending_def unflagged_float Let_def)
  then show ?thesis
  proof (rule that)
    fix a
    show "map_option (\<lambda>x. (debitsPosted x, creditsPosted x)) (accounts ?d1 a)
        = map_option (\<lambda>x. (if a = DebitAccountID tr then add64 (debitsPosted x) (AmountKobo tr) else debitsPosted x,
                           if a = CreditAccountID tr then add64 (creditsPosted x) (AmountKobo tr) else creditsPosted x)) (accounts d a)"
      by (cases "accounts d a") (simp_all add: accounts_add_posted accounts_sub_pending)
  qed simp
qed


text \<open>The amounts of a list of legs booked on one account of merchant \<open>m\<close>'s settlement.\<close>

definition book_leg :: "string \<Rightarrow> string \<Rightarrow> leg \<Rightarrow> int64 \<times> int64 \<Rightarrow> int64 \<times> int64" where
  "book_leg m a g = (\<lambda>(dr, cr). (if a = m then add64 dr (legAmount g) else dr,
                               if a = legAccount g then add64 cr (legAmount g) else cr))"

lemma settle_one_leg:
  assumes "unflagged d" "accounts d m \<noteq> None" "leg_ready m d g" "0 < legAmount g" "\<not> is_posted d (legPendID g)"
  obtains d1 d2 tr where "PendingTransfer (leg_transfer m g) d = (d1, Inr (legPendID g))"
    "PostPending (legPendID g) (legAmount g) d1 = (d2, Inr (legPendID g))"
    "transfers d2 = (transfers d)(legPendID g \<mapsto> tr)" "posted tr" "unflagged d2"
    "\<And>a. posted_totals d2 a = map_option (book_leg m a g) (posted_totals d a)"
proof -
  obtain d1 tr where pend: "PendingTransfer (leg_transfer m g) d = (d1, Inr (legPendID g))"
    and tr: "transfers d1 = (transfers d)(legPendID g \<mapsto> tr)" "pending tr" "\<not> voided tr" "\<not> posted tr"
    "DebitAccountID tr = m" "CreditAccountID tr = legAccount g" "AmountKobo tr = legAmount g"
    and acc: "posted_totals d1 = posted_totals d"
    by (rule pend_leg [OF assms])
  have uf1: "unflagged d1" using unflagged_same [OF flags_ops(2) assms(1)] pend by (metis fst_conv)
  have ex: "accounts d1 a \<noteq> None" if "accounts d a \<noteq> None" for a
    using fun_cong [OF acc, of a] that by (auto simp: posted_totals_def)
  have t1: "transfers d1 (legPendID g) = Some tr" using tr(1) by simp
  obtain d2 where post: "PostPending (legPendID g) (AmountKobo tr) d1 = (d2, Inr (legPendID g))"
    and tr2: "transfers d2 = (transfers d1)(legPendID g \<mapsto> tr\<lparr>pending := False, posted := True\<rparr>)"
    and acc2: "\<And>a. map_option (\<lambda>x. (debitsPosted x, creditsPosted x)) (accounts d2 a)
        = map_option (\<lambda>x. (if a = DebitAccountID tr then add64 (debitsPosted x) (AmountKobo tr) else debitsPosted x,
                           if a = CreditAccountID tr then add64 (creditsPosted x) (AmountKobo tr) else creditsPosted x)) (accounts d1 a)"
    using post_leg [OF uf1 t1 tr(2,3)] tr assms ex by (auto simp: leg_ready_def)
  have uf2: "unflagged d2" using unflagged_same [OF flags_ops(3) uf1] post by (metis fst_conv)
  have "posted_totals d2 a = map_option (book_leg m a g) (posted_totals d a)" for a
  proof -
    have "posted_totals d2 a = map_option (book_leg m a g) (posted_totals d1 a)"
      using acc2 [of a] unfolding tr(5-7) by (cases "accounts d1 a") (auto simp: posted_totals_def book_leg_def)
    then show ?thesis using acc by simp
  qed
  then show ?thesis
    using that [OF pend _ _ _ uf2, of "tr\<lparr>pending := False, posted := True\<rparr>"] post tr tr2 by simp
qed

lemma settle_legs_resume:
  assumes dp: "ledgerClient dp = devClient" and "unflagged d" "accounts d m \<noteq> None"
    "distinct (map legPendID gs)" "\<forall>g\<in>set gs. leg_ready m d g"
  shows "\<exists>d'. settle_legs dp t p m all gs don d = (d', LegsDone) \<and>
     (\<forall>a. posted_totals d' a = map_option (fold (book_leg m a) (legs_due d gs)) (posted_totals d a))"
  using assms(2-5)
proof (induction gs arbitrary: d don)
  case Nil
  then show ?case by (simp add: legs_due_def option.map_ident id_def)
next
  case (Cons g gs)
  show ?case
  proof (cases "0 < legAmount g \<and> \<not> is_posted d (legPendID g)")
    case False
    with Cons dp show ?thesis by (auto simp: legs_due_def)
  next
    case True
    obtain d1 d2 tr where pend: "PendingTransfer (leg_transfer m g) d = (d1, Inr (legPendID g))"
      and post: "PostPending (legPendID g) (legAmount g) d1 = (d2, Inr (legPendID g))"
      and tr: "transfers d2 = (transfers d)(legPendID g \<mapsto> tr)" "posted tr" "unflagged d2"
      and tot: "\<And>a. posted_totals d2 a = map_option (book_leg m a g) (posted_totals d a)"
      using settle_one_leg [OF Cons.prems(1,2)] Cons.prems(4) True by (metis list.set_intros(1))
    have ex: "accounts d2 a \<noteq> None \<longleftrightarrow> accounts d a \<noteq> None" for a
      using tot [of a] by (cases "accounts d a"; cases "accounts d2 a") (simp_all add: posted_totals_def)
    have ready: "leg_ready m d2 h" if "h \<in> set gs" for h
      using Cons.prems(3,4) that ex [of "legAccount h"] by (force simp: leg_ready_def tr)
    have due: "legs_due d2 gs = legs_due d gs"
      unfolding legs_due_def using Cons.prems(3) by (intro filter_cong) (auto simp: is_posted_def tr image_iff)
    obtain d' where rest: "settle_legs dp t p m all gs (legName g # don) d2 = (d', LegsDone)"
       "\<And>a. posted_totals d' a = map_option (fold (book_leg m a) (legs_due d gs)) (posted_totals d2 a)"
      using Cons.IH [OF tr(3), of "legName g # don"] ex ready Cons.prems(2,3) due by auto
    have "settle_legs dp t p m all (g # gs) don d = (d', LegsDone)"
      using True pend post rest(1) dp by simp
    moreover have "legs_due d (g # gs) = g # legs_due d gs" using True by (simp add: legs_due_def)
    ultimately show ?thesis using rest(2) tot by (auto simp: option.map_comp comp_def)
  qed
qed


section \<open>What a period owes\<close>

text \<open>The receipts a settlement run picks up, and the totals of the aggregation loop over them.\<close>

definition in_period :: "string \<Rightarrow> Receipt list \<Rightarrow> Receipt list" where
  "in_period period rcs = filter (\<lambda>rc. HasPrefix (CapturedAt rc) period) rcs"

definition unsettled :: "string \<Rightarrow> Receipt list \<Rightarrow> Receipt list" where
  "unsettled period rcs = filter (\<lambda>rc. SettledIn rc = '''') (in_period period rcs)"

lemma sum64_Nil: "sum64 f [] = 0"
  by (simp add: sum64_def)

lemma aggregate_totals:
  "aggregate period rcs =
     \<lparr>agVAT = sum64 VATKobo (unsettled period rcs),
      agFederal = sum64 (\<lambda>rc. FederalKobo (Attribution rc)) (unsettled period rcs),
      agState = sum64 (\<lambda>rc. StateKobo (Attribution rc)) (unsettled period rcs),
      agLGA = sum64 lga_leg (unsettled period rcs),
      agPlatformVAT = sum64 VATKobo (filter PlatformCollected (unsettled period rcs)),
      agPlatformCount = length (filter PlatformCollected (unsettled period rcs)),
      agCount = length (unsettled period rcs), agIDs = map rcID (unsettled period rcs),
      agTotalCount = length (in_period period rcs)\<rparr>"
proof (induction rcs rule: rev_induct)
  case Nil
  then show ?case by (simp add: aggregate_def zero_agg_def unsettled_def in_period_def sum64_Nil)
next
  case (snoc rc rcs)
  have "aggregate period (rcs @ [rc]) = agg_receipt period rc (aggregate period rcs)"
    by (simp add: aggregate_def)
  then show ?case
    unfolding snoc by (simp add: agg_receipt_def Let_def unsettled_def in_period_def sum64_snoc)
qed

text \<open>A receipt whose attribution adds up to its VAT.\<close>

definition attributed :: "Receipt \<Rightarrow> bool" where
  "attributed rc \<longleftrightarrow>
     add64 (add64 (FederalKobo (Attribution rc)) (StateKobo (Attribution rc))) (LGAKobo (Attribution rc)) = VATKobo rc"

lemma attributed_legs:
  assumes "attributed rc"
  shows "wrap64 (FederalKobo (Attribution rc) + StateKobo (Attribution rc) + lga_leg rc) = wrap64 (VATKobo rc)"
proof -
  have "wrap64 (f + s + wrap64 (wrap64 (v - f) - s)) = wrap64 v" for f s v :: int by simp
  moreover have "wrap64 (VATKobo rc) = VATKobo rc"
    using assms by (metis attributed_def in64_ops(1) wrap64_id)
  ultimately show ?thesis
    using assms by (simp add: attributed_def lga_leg_def add64_def sub64_def)
qed

lemma wrap64_sum_cong:
  assumes "\<And>x. x \<in> set xs \<Longrightarrow> wrap64 (f x) = wrap64 (g x)"
  shows "wrap64 (\<Sum>x\<leftarrow>xs. f x) = wrap64 (\<Sum>x\<leftarrow>xs. g x)"
  using assms
proof (induction xs)
  case (Cons x xs)
  have "wrap64 (f x + (\<Sum>x\<leftarrow>xs. f x)) = wrap64 (wrap64 (f x) + wrap64 (\<Sum>x\<leftarrow>xs. f x))" by simp
  also have "\<dots> = wrap64 (wrap64 (g x) + wrap64 (\<Sum>x\<leftarrow>xs. g x))" using Cons by simp
  finally show ?case by simp
qed simp

lemma aggregate_balanced:
  assumes "\<forall>rc\<in>set (unsettled period rcs). attributed rc"
  shows "add64 (add64 (agFederal (aggregate period rcs)) (agState (aggregate period rcs))) (agLGA (aggregate period rcs))
     = agVAT (aggregate period rcs)"
proof -
  let ?u = "unsettled period rcs"
  have "wrap64 (\<Sum>rc\<leftarrow>?u. FederalKobo (Attribution rc) + StateKobo (Attribution rc) + lga_leg rc) = wrap64 (\<Sum>rc\<leftarrow>?u. VATKobo rc)"
    using assms by (intro wrap64_sum_cong) (simp add: attributed_legs)
  then show ?thesis
    by (simp add: aggregate_totals sum64_eq add64_def sum_list_addf add.assoc)
qed

lemma processed_attributed:
  assumes "processReceipt dp ps now rc idem st = (st', Inr out)"
  shows "attributed out"
proof -
  obtain t where t: "process_lines ps (StandardRateBPS ps) (Lines rc) zero_totals = Inr t" "VATKobo out = ltVAT t"
    "Attribution out = computeAttribution (ltVAT t) (rcState out) (attributionConfig ps (attributionMode dp))"
    using assms by (rule processReceipt_okD) blast
  have "in64 (VATKobo out)" using processReceipt_amounts(2) [OF assms] by simp
  then show ?thesis using t attribution_sum [of "ltVAT t"] by (simp add: attributed_def)
qed

section \<open>Stamping\<close>

definition stamp :: "string \<Rightarrow> Receipt \<Rightarrow> Receipt" where
  "stamp key r = r\<lparr>SettledIn := key, rcStatus := ''settled''\<rparr>"

lemma stamp_simps [simp]:
  "SettledIn (stamp key r) = key" "CapturedAt (stamp key r) = CapturedAt r" "rcID (stamp key r) = rcID r"
  "stamp key (stamp key r) = stamp key r"
  by (simp_all add: stamp_def)

lemma mark_loop_effect:
  assumes "io st = []"
  shows "receipts (fst (mark_loop ids key st)) =
      (\<lambda>i. if i \<in> set ids then map_option (stamp key) (receipts st i) else receipts st i) \<and>
    byTenant (fst (mark_loop ids key st)) = byTenant st \<and> recon (fst (mark_loop ids key st)) = recon st \<and>
    settledPeriods (fst (mark_loop ids key st)) = settledPeriods st"
  using assms
proof (induction ids arbitrary: st)
  case (Cons i ids)
  show ?case
  proof (cases "receipts st i")
    case None
    with Cons show ?thesis by (auto simp: fun_eq_iff)
  next
    case (Some r)
    let ?s = "st\<lparr>receipts := (receipts st)(i \<mapsto> stamp key r)\<rparr>"
    let ?t = "if logOpen st then ?s\<lparr>receiptsLog := receiptsLog st @ [if logTorn st then None else Some (stamp key r)], logTorn := False\<rparr> else ?s"
    have t: "mark_loop (i # ids) key st = mark_loop ids key ?t"
      using Cons.prems Some by (simp add: log_write_ok Let_def stamp_def)
    show ?thesis
      using Cons.IH [of ?t] Cons.prems Some unfolding t by (auto simp: fun_eq_iff option.map_comp comp_def)
  qed
qed (simp add: fun_eq_iff)

text \<open>The stamps of a run are the only records it adds to the log.\<close>

lemma mark_loop_log:
  "Some r \<in> set (receiptsLog (fst (mark_loop ids key st))) \<Longrightarrow>
     Some r \<in> set (receiptsLog st) \<or> (\<exists>i q. receipts st i = Some q \<and> rcID r = rcID q)"
proof (induction ids arbitrary: st)
  case (Cons i ids)
  show ?case
  proof (cases "receipts st i")
    case None
    with Cons show ?thesis by simp
  next
    case (Some q)
    let ?s = "st\<lparr>receipts := (receipts st)(i \<mapsto> stamp key q)\<rparr>"
    have s: "(\<exists>i q. receipts ?s i = Some q \<and> rcID r = rcID q) \<longleftrightarrow> (\<exists>i q. receipts st i = Some q \<and> rcID r = rcID q)"
      using Some by (auto split: if_splits) (metis option.inject stamp_simps(3))+
    have w: "Some r \<in> set (receiptsLog st) \<or> (\<exists>i q. receipts st i = Some q \<and> rcID r = rcID q)"
      if "Some r \<in> set (receiptsLog (fst (log_write (stamp key q) ?s)))"
    proof -
      from that have "Some r \<in> set (receiptsLog st) \<or> r = stamp key q" by (auto split: if_splits)
      with Some show ?thesis by (metis stamp_simps(3))
    qed
    show ?thesis
      using Cons.prems Some w Cons.IH [of ?s] Cons.IH [of "fst (log_write (stamp key q) ?s)"] s
      by (auto simp: Let_def split_beta stamp_def [symmetric] split: if_splits)
  qed
qed simp

lemma mark_effect:
  assumes "io st = []"
  obtains st' where "MarkReceiptsSettled ids tenant period st = (st', Inr ())" "io st' = []"
    "receipts st' = (\<lambda>i. if i \<in> set ids
       then map_option (stamp (settledKey tenant period)) (receipts st i) else receipts st i)"
    "byTenant st' = byTenant st" "recon st' = recon st" "settledPeriods st' = settledPeriods st"
    "\<forall>r. Some r \<in> set (receiptsLog st') \<longrightarrow> Some r \<in> set (receiptsLog st) \<or> (\<exists>i q. receipts st i = Some q \<and> rcID r = rcID q)"
proof -
  let ?m = "mark_loop ids (settledKey tenant period) st"
  let ?s = "if logOpen st then (fst ?m)\<lparr>durable := length (receiptsLog (fst ?m))\<rparr> else fst ?m"
  note m = mark_loop_nofault [OF assms, of ids "settledKey tenant period"]
  have "?m = (fst ?m, Inr ())" using m by (metis surjective_pairing)
  then have "MarkReceiptsSettled ids tenant period st = (?s, Inr ())"
    using m by (cases ?m) (simp add: MarkReceiptsSettled_def log_sync_def io_step_ok Let_def)
  then show ?thesis
    by (rule that) (use m mark_loop_effect [OF assms, of ids "settledKey tenant period"] mark_loop_log [of _ ids "settledKey tenant period" st] in \<open>simp_all split: if_split\<close>)
qed

definition keyed :: "Store \<Rightarrow> bool" where
  "keyed st \<longleftrightarrow> (\<forall>i r. receipts st i = Some r \<longrightarrow> rcID r = i)"

lemma logged_keyed: "logged E st \<Longrightarrow> keyed st"
  by (simp add: logged_def keyed_def)

text \<open>After the stamp, no receipt of the period is left to settle.\<close>

lemma stamped_none_left:
  assumes "keyed st" and rs: "\<And>i. receipts st' i = (if i \<in> set (map rcID (unsettled period (ListReceipts ord tenant '''' 0 st)))
       then map_option (stamp (settledKey tenant period)) (receipts st i) else receipts st i)"
    and bt: "byTenant st' = byTenant st"
  shows "unsettled period (ListReceipts ord tenant '''' 0 st') = []"
    "length (in_period period (ListReceipts ord tenant '''' 0 st')) = length (in_period period (ListReceipts ord tenant '''' 0 st))"
proof -
  let ?ids = "if tenant \<noteq> '''' then byTenant st tenant else ord"
  let ?u = "unsettled period (List.map_filter (receipts st) ?ids)"
  have L: "ListReceipts ord tenant '''' 0 st = List.map_filter (receipts st) ?ids"
    "ListReceipts ord tenant '''' 0 st' = List.map_filter (receipts st') ?ids"
    by (simp_all only: ListReceipts_all bt)
  have "SettledIn r \<noteq> '''' \<or> \<not> HasPrefix (CapturedAt r) period" if "receipts st' i = Some r" "i \<in> set ?ids" for i r
  proof (cases "receipts st i")
    case None
    with that rs show ?thesis by (auto split: if_splits)
  next
    case (Some r0)
    show ?thesis
    proof (cases "i \<in> set (map rcID ?u)")
      case True
      then show ?thesis using that rs Some unfolding L by (auto simp: settledKey_def)
    next
      case False
      then have r: "r = r0" using that rs Some unfolding L by auto
      have "rcID r0 = i" using Some assms(1) by (simp add: keyed_def)
      moreover have "r0 \<in> set (List.map_filter (receipts st) ?ids)"
        using Some that(2) by (force simp: List.map_filter_def)
      ultimately have "r0 \<notin> set ?u" using False by force
      with \<open>r0 \<in> set (List.map_filter (receipts st) ?ids)\<close> show ?thesis
        by (auto simp: r unsettled_def in_period_def)
    qed
  qed
  then show "unsettled period (ListReceipts ord tenant '''' 0 st') = []"
    unfolding L by (auto simp: unsettled_def in_period_def filter_empty_conv List.map_filter_def)
  have "receipts st' i = map_option (\<lambda>r. if i \<in> set (map rcID ?u) then stamp (settledKey tenant period) r else r) (receipts st i)" for i
    using rs [of i] unfolding L by (cases "receipts st i") auto
  then have "length (in_period period (List.map_filter (receipts st') ids)) = length (in_period period (List.map_filter (receipts st) ids))" for ids
    by (induction ids) (auto simp: in_period_def List.map_filter_simps split: option.splits)
  then show "length (in_period period (ListReceipts ord tenant '''' 0 st')) = length (in_period period (ListReceipts ord tenant '''' 0 st))"
    unfolding L .
qed


section \<open>The whole handler\<close>

text \<open>The merchant account is opened before the saga runs.\<close>

definition merchant_acct :: LedgerAccount where
  "merchant_acct = \<lparr>accID = merchant_account, accLedger = int LedgerVATRemittance, accCode = 4, accFlags = ''''\<rparr>"

lemma open_merchant:
  assumes "unflagged d"
  shows "unflagged (CreateAccounts [merchant_acct] d)" "transfers (CreateAccounts [merchant_acct] d) = transfers d"
    "accounts (CreateAccounts [merchant_acct] d) merchant_account \<noteq> None"
    "a \<noteq> merchant_account \<Longrightarrow> accounts (CreateAccounts [merchant_acct] d) a = accounts d a"
    "posted_totals (CreateAccounts [merchant_acct] d) merchant_account =
       Some (case posted_totals d merchant_account of None \<Rightarrow> (0, 0) | Some t \<Rightarrow> t)"
proof -
  show "unflagged (CreateAccounts [merchant_acct] d)"
    using assms by (rule unflagged_CreateAccounts) (simp add: merchant_acct_def float_flag_def)
qed (simp_all add: CreateAccounts_def CreateAccount_def merchant_acct_def posted_totals_def
       LedgerAccount.defs devAccount.defs split: option.split)

lemma settle_marker_simps:
  "spTenantID (settle_marker dp tenant period now federal state lga reconID supp sp) = spTenantID sp"
  "spPeriod (settle_marker dp tenant period now federal state lga reconID supp sp) = spPeriod sp"
  "ReconID (settle_marker dp tenant period now federal state lga reconID supp sp) = reconID"
  "Supplements (settle_marker dp tenant period now federal state lga reconID supp sp) = supp"
  unfolding settle_marker_def by (cases "supp = 0"; simp)+

lemma settlePeriod_done:
  assumes "ledgerClient dp = devClient" "io st = []" "unflagged d" "accounts d m \<noteq> None"
    "\<forall>sp. GetSettledPeriod tenant period st = Some sp \<longrightarrow> spTenantID sp = tenant \<and> spPeriod sp = period"
    and gs: "gs = settle_leg_list dp tenant period supp federal state lga"
    and "distinct (map legPendID gs)" "\<forall>g\<in>set gs. leg_ready m d g"
  obtains st' d' sp where
    "settlePeriod dp now tenant period m federal state lga reconID supp (st, d) = ((st', d'), Inr ())"
    "io st' = []" "receipts st' = receipts st" "byTenant st' = byTenant st" "recon st' = recon st"
    "settledPeriods st' = (settledPeriods st)(settledKey tenant period \<mapsto> sp)" "spStatus sp = ''settled''"
    "spTenantID sp = tenant" "spPeriod sp = period" "ReconID sp = reconID" "Supplements sp = supp"
    "posted_totals d' = (\<lambda>a. map_option (fold (book_leg m a) (legs_due d gs)) (posted_totals d a))"
    "receiptsLog st' = receiptsLog st"
proof -
  obtain d' where d': "settle_legs dp tenant period m gs gs [] d = (d', LegsDone)"
    "posted_totals d' = (\<lambda>a. map_option (fold (book_leg m a) (legs_due d gs)) (posted_totals d a))"
    using settle_legs_resume [OF assms(1,3,4,7,8), of tenant period gs "[]"] by (auto simp: fun_eq_iff)
  define sp where "sp = settle_marker dp tenant period now federal state lga reconID supp
    (case GetSettledPeriod tenant period st of None \<Rightarrow> new_marker tenant period now | Some sp \<Rightarrow> sp)"
  define fin where "fin = sp\<lparr>spStatus := ''settled'', spUpdatedAt := now\<rparr>"
  have key: "spTenantID sp = tenant" "spPeriod sp = period"
    using assms(5) by (cases "GetSettledPeriod tenant period st"; simp add: sp_def settle_marker_simps new_marker_def)+
  have fin: "spTenantID fin = tenant" "spPeriod fin = period" "spStatus fin = ''settled''"
    "ReconID fin = reconID" "Supplements fin = supp"
    using key by (simp_all add: fin_def) (simp_all add: sp_def settle_marker_simps)
  define st1 where "st1 = st\<lparr>settledPeriods := (settledPeriods st)(settledKey tenant period \<mapsto> sp), settledLog := settledLog st @ [sp]\<rparr>"
  define st2 where "st2 = st1\<lparr>settledPeriods := (settledPeriods st1)(settledKey tenant period \<mapsto> fin), settledLog := settledLog st1 @ [fin]\<rparr>"
  have s1: "SaveSettledPeriod sp st = (st1, Inr ())"
    using SaveSettledPeriod_ok [OF assms(2), of sp] key by (simp add: st1_def)
  have s2: "SaveSettledPeriod fin st1 = (st2, Inr ())"
    using SaveSettledPeriod_ok [of st1 fin] assms(2) fin by (simp add: st1_def st2_def)
  have run: "settlePeriod dp now tenant period m federal state lga reconID supp (st, d) = ((st2, d'), Inr ())"
    by (simp only: settlePeriod_def Let_def split gs [symmetric] sp_def [symmetric] fin_def [symmetric]
          s1 s2 d'(1) prod.case sum.case legs_outcome.case)
  have st2: "io st2 = []" "receipts st2 = receipts st" "byTenant st2 = byTenant st" "recon st2 = recon st"
    "settledPeriods st2 = (settledPeriods st)(settledKey tenant period \<mapsto> fin)"
    using assms(2) by (simp_all add: st1_def st2_def)
  show ?thesis
    by (rule that [OF run st2 fin(3,1,2,4,5) d'(2)]) (simp add: st1_def st2_def)
qed

lemma settlement_run:
  fixes dp :: "(DevLedger, 'c) Deps"
  assumes dp: "ledgerClient dp = devClient" and io: "io (svStore sv) = []" and uf: "unflagged (svLedger sv)"
    and marker: "\<forall>sp. GetSettledPeriod tenant period (svStore sv) = Some sp \<longrightarrow> spTenantID sp = tenant \<and> spPeriod sp = period"
    and keyed: "keyed (svStore sv)" and period: "period \<noteq> ''''"
    and a: "a = aggregate period (ListReceipts ord tenant '''' 0 (svStore sv))" "agCount a \<noteq> 0"
    and gs: "gs = settle_leg_list dp tenant period (supplement_no (GetSettledPeriod tenant period (svStore sv)))
                    (agFederal a) (agState a) (agLGA a)"
      "distinct (map legPendID gs)" "\<forall>g\<in>set gs. leg_ready merchant_account (svLedger sv) g \<and> legAccount g \<noteq> merchant_account"
  obtains sv' rec where
    "handleSettlementRecon dp env ord (Some (period, tenant)) sv = (sv', Reply 201 (SettledAs rec))"
    "recVATKobo rec = agVAT a" "recReceipts rec = agCount a"
    "\<And>x. posted_totals (svLedger sv') x =
       map_option (fold (book_leg merchant_account x) (legs_due (svLedger sv) gs))
         (if x = merchant_account then Some (case posted_totals (svLedger sv) x of None \<Rightarrow> (0, 0) | Some t \<Rightarrow> t)
          else posted_totals (svLedger sv) x)"
    "\<exists>sp. GetSettledPeriod tenant period (svStore sv') = Some sp \<and> spStatus sp = ''settled'' \<and> ReconID sp = recID rec"
    "unsettled period (ListReceipts ord tenant '''' 0 (svStore sv')) = []"
    "in_period period (ListReceipts ord tenant '''' 0 (svStore sv')) \<noteq> []"
    "rec \<in> set (Recons (svStore sv'))" "io (svStore sv') = []"
    "\<forall>r. Some r \<in> set (receiptsLog (svStore sv')) \<longrightarrow>
       Some r \<in> set (receiptsLog (svStore sv)) \<or> (\<exists>i q. receipts (svStore sv) i = Some q \<and> rcID r = rcID q)"
proof -
  let ?st = "svStore sv" and ?d = "CreateAccounts [merchant_acct] (svLedger sv)"
  let ?sp0 = "GetSettledPeriod tenant period ?st"
  let ?supp = "supplement_no ?sp0"
  let ?L = "ListReceipts ord tenant '''' 0 ?st"
  note om = open_merchant [OF uf]
  have ready: "\<forall>g\<in>set gs. leg_ready merchant_account ?d g"
    using gs(3) om(2,4) by (auto simp: leg_ready_def)
  have due: "legs_due ?d gs = legs_due (svLedger sv) gs"
    by (simp add: legs_due_def is_posted_def om(2))
  obtain st1 d' sp where run:
    "settlePeriod dp (nowRFC3339 env) tenant period merchant_account (agFederal a) (agState a) (agLGA a)
       (recon_id dp tenant period ?supp) ?supp (?st, ?d) = ((st1, d'), Inr ())"
    and st1: "io st1 = []" "receipts st1 = receipts ?st" "byTenant st1 = byTenant ?st" "recon st1 = recon ?st"
    "settledPeriods st1 = (settledPeriods ?st)(settledKey tenant period \<mapsto> sp)" 
    and sp: "spStatus sp = ''settled''"
    "spTenantID sp = tenant" "spPeriod sp = period" "ReconID sp = recon_id dp tenant period ?supp" "Supplements sp = ?supp"
    and tot: "posted_totals d' = (\<lambda>x. map_option (fold (book_leg merchant_account x) (legs_due ?d gs)) (posted_totals ?d x))"
    and lg: "receiptsLog st1 = receiptsLog ?st"
    by (rule settlePeriod_done [OF dp io om(1,3) marker gs(1,2) ready])
  obtain st2 where mark: "MarkReceiptsSettled (agIDs a) tenant period st1 = (st2, Inr ())" "io st2 = []"
    and rs: "receipts st2 = (\<lambda>i. if i \<in> set (agIDs a) then map_option (stamp (settledKey tenant period)) (receipts st1 i) else receipts st1 i)"
    and st2: "byTenant st2 = byTenant st1" "recon st2 = recon st1" "settledPeriods st2 = settledPeriods st1"
    and lg2: "\<forall>r. Some r \<in> set (receiptsLog st2) \<longrightarrow> Some r \<in> set (receiptsLog st1) \<or> (\<exists>i q. receipts st1 i = Some q \<and> rcID r = rcID q)"
    by (rule mark_effect [OF st1(1)])
  have ids: "agIDs a = map rcID (unsettled period ?L)" "agCount a = length (unsettled period ?L)" "agTotalCount a = length (in_period period ?L)"
    by (simp_all add: a(1) aggregate_totals)
  have some: "in_period period ?L \<noteq> []" using a(2) ids(2) by (auto simp: unsettled_def)
  have none: "unsettled period (ListReceipts ord tenant '''' 0 st2) = []"
    "length (in_period period (ListReceipts ord tenant '''' 0 st2)) = length (in_period period ?L)"
    using stamped_none_left [OF keyed, of st2 period ord tenant] rs st1 st2 by (simp_all add: ids(1))
  let ?rec = "\<lparr>recID = recon_id dp tenant period ?supp, recPeriod = period, recTenantID = tenant, recReceipts = agCount a,
       recVATKobo = agVAT a, recFederalKobo = agFederal a, recStateKobo = agState a,
       recLGAKobo = agLGA a, PlatformCollectedKobo = agPlatformVAT a,
       PlatformReceipts = agPlatformCount a, Supplement = ?supp, recLedgerTransfer = posted_ids sp,
       LedgerMode = lcMode (ledgerClient dp), PostedAt = nowRFC3339 env\<rparr>"
  let ?sv = "sv\<lparr>svStore := AddRecon ?rec st2, svLedger := d',
       svBus := Publish ''nrs.pos.settlement.recon.v1'' tenant (VersionString (svPacks sv)) (EvRecon ?rec) (svBus sv)\<rparr>"
  have some2: "in_period period (ListReceipts ord tenant '''' 0 st2) \<noteq> []" using none(2) some by auto
  have add: "ListReceipts ord tenant '''' 0 (AddRecon r st2) = ListReceipts ord tenant '''' 0 st2" for r
    by (simp add: AddRecon_def ListReceipts_def)
  have sp2: "GetSettledPeriod tenant period st2 = Some sp" by (simp add: GetSettledPeriod_def st1 st2)
  have res: "handleSettlementRecon dp env ord (Some (period, tenant)) sv = (?sv, Reply 201 (SettledAs ?rec))"
    using period a(2) some ids(3) run mark(1) sp2
    by (simp add: handleSettlementRecon_def Let_def a(1) [symmetric] dp merchant_acct_def [symmetric])
  show ?thesis
  proof (rule that [OF res])
    show "posted_totals (svLedger ?sv) x =
       map_option (fold (book_leg merchant_account x) (legs_due (svLedger sv) gs))
         (if x = merchant_account then Some (case posted_totals (svLedger sv) x of None \<Rightarrow> (0, 0) | Some t \<Rightarrow> t)
          else posted_totals (svLedger sv) x)" for x
      using due om(4,5) by (auto simp: tot posted_totals_def)
    show "\<forall>r. Some r \<in> set (receiptsLog (svStore ?sv)) \<longrightarrow>
        Some r \<in> set (receiptsLog ?st) \<or> (\<exists>i q. receipts ?st i = Some q \<and> rcID r = rcID q)"
      using lg2 by (simp add: AddRecon_def lg st1(2))
  qed (use none some2 sp sp2 mark(2) in \<open>simp_all add: add\<close>, simp_all add: AddRecon_def GetSettledPeriod_def Recons_def)
qed

text \<open>A second request for a settled period changes nothing.\<close>

lemma settlement_replay:
  assumes "period \<noteq> ''''" "GetSettledPeriod tenant period (svStore sv) = Some sp" "spStatus sp = ''settled''"
    "unsettled period (ListReceipts ord tenant '''' 0 (svStore sv)) = []"
    "in_period period (ListReceipts ord tenant '''' 0 (svStore sv)) \<noteq> []"
  shows "\<exists>r. handleSettlementRecon dp env ord (Some (period, tenant)) sv = (sv, Reply 200 r)"
  using assms by (simp add: handleSettlementRecon_def Let_def aggregate_totals split: option.split)


section \<open>Certification and variance of processed receipts\<close>

lemma sum_list_filter_bounds:
  fixes f :: "'a \<Rightarrow> int"
  assumes "\<forall>x\<in>set xs. 0 \<le> f x"
  shows "0 \<le> (\<Sum>x\<leftarrow>filter P xs. f x)" "(\<Sum>x\<leftarrow>filter P xs. f x) \<le> (\<Sum>x\<leftarrow>xs. f x)"
    "y \<in> set xs \<Longrightarrow> P y \<Longrightarrow> f y \<le> (\<Sum>x\<leftarrow>filter P xs. f x)"
proof -
  show nn: "0 \<le> (\<Sum>x\<leftarrow>filter P xs. f x)" using assms by (induction xs) auto
  show "(\<Sum>x\<leftarrow>filter P xs. f x) \<le> (\<Sum>x\<leftarrow>xs. f x)" using assms by (induction xs) auto
  show "y \<in> set xs \<Longrightarrow> P y \<Longrightarrow> f y \<le> (\<Sum>x\<leftarrow>filter P xs. f x)"
    using assms by (intro member_le_sum_list) auto
qed

lemma cert_processed:
  assumes ok: "processReceipt dp ps now rc idem st = (st', Inr out)"
    and nn: "\<forall>ln\<in>set (Lines rc). 0 \<le> line_amount ln" and tot: "in64 (\<Sum>ln\<leftarrow>Lines rc. line_amount ln)"
    and ln: "ln \<in> set (Lines rc)"
  shows "cert_line ps out ln = []"
proof -
  let ?b = "BasketFor ps (Category ln)"
  let ?f = "filter (\<lambda>l. BasketFor ps (Category l) = ?b) (Lines rc)"
  note b = sum_list_filter_bounds [OF nn, where P = "\<lambda>l. BasketFor ps (Category l) = ?b"]
  have "in64 (\<Sum>l\<leftarrow>?f. line_amount l)" using b(1,2) tot by (auto simp: in64_def)
  then have "line_amount ln \<le> Baskets out ?b"
    using b(3) [OF ln] processReceipt_amounts(3) [OF ok, of ?b] by (simp add: sum64_exact)
  moreover have "?b = ''standard_75''" if "?b \<noteq> ''exempt''" "?b \<noteq> ''zero_rated''"
    using BasketFor_cases that by blast
  ultimately show ?thesis by (auto simp: cert_line_def Let_def)
qed

text \<open>
  The variance check compares the VAT with the federal and state parts only: under the
  statutory split, a receipt of VAT 6 kobo or more is reported as a mismatch.
\<close>

lemma variance_flags_attributed:
  assumes "6 \<le> VATKobo rc" "VATKobo rc * 5500 + 5000 < 2 ^ 63" "mode \<noteq> ''federal''"
    "Attribution rc = computeAttribution (VATKobo rc) state (statutory mode)"
  shows "attributed rc \<and> (\<exists>row\<in>set (variance_rows rate rc). vrKind row = ''attribution-sum-mismatch'')"
proof -
  let ?v = "VATKobo rc"
  let ?f = "(?v * 1000 + 5000) div 10000" and ?s = "(?v * 5500 + 5000) div 10000"
  have v: "0 \<le> ?v" "?v < 2 ^ 62" "in64 ?v" using assms(1,2) by (simp_all add: in64_def)
  note split = statutory_split [OF v(1) assms(2,3), of state]
  have m: "arMode (Attribution rc) = mode" by (simp add: assms(4) computeAttribution_def statutory_def Let_def)
  note sb = share_bounds [OF v(1)]
  have sum: "add64 (FederalKobo (Attribution rc)) (StateKobo (Attribution rc)) = ?f + ?s"
    unfolding assms(4) split using sb v by (simp add: add64_exact in64_def)
  have sub: "sub64 ?v (?f + ?s) = ?v - (?f + ?s)" using sb v by (simp add: sub64_exact in64_def)
  have "?v - (?f + ?s) > 1"
    using half_up_error(2) [of "?v * 1000"] half_up_error(2) [of "?v * 5500"] assms(1) by linarith
  then have "\<exists>row\<in>set (variance_rows rate rc). vrKind row = ''attribution-sum-mismatch''"
    using assms(3) m by (simp add: variance_rows_def Let_def sum sub)
  moreover have "attributed rc"
    using attribution_sum [OF v(3), of state "statutory mode"] by (simp add: attributed_def assms(4))
  ultimately show ?thesis by simp
qed


section \<open>Settling twice, on any ledger and any disk\<close>

lemma mark_loop_ok:
  assumes "mark_loop ids key st = (st', Inr ())"
  shows "receipts st' = (\<lambda>i. if i \<in> set ids then map_option (stamp key) (receipts st i) else receipts st i) \<and>
    byTenant st' = byTenant st \<and> settledPeriods st' = settledPeriods st"
  using assms
proof (induction ids arbitrary: st)
  case (Cons i ids)
  show ?case
  proof (cases "receipts st i")
    case None
    with Cons show ?thesis by (auto simp: fun_eq_iff)
  next
    case (Some r)
    let ?s = "st\<lparr>receipts := (receipts st)(i \<mapsto> stamp key r)\<rparr>"
    obtain t where t: "mark_loop ids key t = (st', Inr ())" "receipts t = receipts ?s" "byTenant t = byTenant st"
      "settledPeriods t = settledPeriods st"
    proof (cases "logOpen st")
      case True
      have "settledPeriods (fst (log_write r' s)) = settledPeriods s" for r' s
        by (simp add: log_write_def Let_def split_beta)
      with Cons.prems Some True that [of "fst (log_write (stamp key r) ?s)"] show ?thesis
        by (simp add: Let_def split_beta stamp_def [symmetric] split: if_splits)
    next
      case False
      with Cons.prems Some that [of ?s] show ?thesis by (simp add: Let_def stamp_def [symmetric])
    qed
    show ?thesis
      using Cons.IH [OF t(1)] t(2-4) Some by (auto simp: fun_eq_iff option.map_comp comp_def)
  qed
qed (simp add: fun_eq_iff)

lemma log_sync_settled [simp]: "settledPeriods (fst (log_sync st)) = settledPeriods st"
  by (simp add: log_sync_def Let_def split_beta)

lemma mark_ok:
  assumes "MarkReceiptsSettled ids tenant period st = (st', Inr ())"
  shows "receipts st' = (\<lambda>i. if i \<in> set ids then map_option (stamp (settledKey tenant period)) (receipts st i) else receipts st i) \<and>
    byTenant st' = byTenant st \<and> settledPeriods st' = settledPeriods st"
proof -
  obtain st1 where m: "mark_loop ids (settledKey tenant period) st = (st1, Inr ())"
    and s: "st' = (if logOpen st1 then fst (log_sync st1) else st1)"
    using assms by (cases "mark_loop ids (settledKey tenant period) st")
      (auto simp: MarkReceiptsSettled_def Let_def split_beta split: sum.splits if_splits)
  show ?thesis using mark_loop_ok [OF m] s by simp
qed

lemma SaveSettledPeriod_effect:
  assumes "SaveSettledPeriod sp st = (st', r)"
  shows "receipts st' = receipts st \<and> byTenant st' = byTenant st \<and>
    settledPeriods st' = (settledPeriods st)(settledKey (spTenantID sp) (spPeriod sp) \<mapsto> sp)"
  using SaveSettledPeriod_simps(1,4,5) [of sp st] assms by simp

lemma settlePeriod_ok:
  assumes run: "settlePeriod dp now tenant period m federal state lga reconID supp (st, l) = ((st', l'), Inr ())"
    and marker: "\<forall>sp. GetSettledPeriod tenant period st = Some sp \<longrightarrow> spTenantID sp = tenant \<and> spPeriod sp = period"
  defines "legs \<equiv> settle_leg_list dp tenant period supp federal state lga"
  obtains sp where "receipts st' = receipts st" "byTenant st' = byTenant st"
    "GetSettledPeriod tenant period st' = Some sp" "spStatus sp = ''settled''"
    "settle_legs dp tenant period m legs legs [] l = (l', LegsDone)"
proof -
  define sp where "sp = settle_marker dp tenant period now federal state lga reconID supp
    (case GetSettledPeriod tenant period st of None \<Rightarrow> new_marker tenant period now | Some sp \<Rightarrow> sp)"
  define fin where "fin = sp\<lparr>spStatus := ''settled'', spUpdatedAt := now\<rparr>"
  have key: "spTenantID sp = tenant" "spPeriod sp = period"
    using marker by (cases "GetSettledPeriod tenant period st"; simp add: sp_def settle_marker_simps new_marker_def)+
  have fin: "spTenantID fin = tenant" "spPeriod fin = period" "spStatus fin = ''settled''"
    using key by (simp_all add: fin_def)
  obtain st1 r1 where s1: "SaveSettledPeriod sp st = (st1, r1)" by fastforce
  obtain l1 out where legs: "settle_legs dp tenant period m legs legs [] l = (l1, out)" by fastforce
  obtain st2 r2 where s2: "SaveSettledPeriod fin st1 = (st2, r2)" by fastforce
  have "r1 = Inr () \<and> out = LegsDone \<and> st' = st2 \<and> l' = l1"
    using run unfolding settlePeriod_def Let_def
    by (simp add: sp_def [symmetric] fin_def [symmetric] legs_def [symmetric] s1 s2 legs
          split: sum.splits legs_outcome.splits)
  with legs SaveSettledPeriod_effect [OF s1] SaveSettledPeriod_effect [OF s2] fin key show ?thesis
    by (intro that [of fin]) (simp_all add: GetSettledPeriod_def)
qed

lemma settlement_done_state:
  assumes run: "handleSettlementRecon dp env ord (Some (period, tenant)) sv = (sv', Reply 201 r)"
    and marker: "\<forall>sp. GetSettledPeriod tenant period (svStore sv) = Some sp \<longrightarrow> spTenantID sp = tenant \<and> spPeriod sp = period"
    and keyed: "keyed (svStore sv)"
  shows "\<exists>sp. GetSettledPeriod tenant period (svStore sv') = Some sp \<and> spStatus sp = ''settled''"
    "unsettled period (ListReceipts ord tenant '''' 0 (svStore sv')) = []"
    "in_period period (ListReceipts ord tenant '''' 0 (svStore sv')) \<noteq> []"
    "period \<noteq> ''''"
proof -
  let ?L = "ListReceipts ord tenant '''' 0 (svStore sv)"
  let ?a = "aggregate period ?L"
  let ?supp = "supplement_no (GetSettledPeriod tenant period (svStore sv))"
  let ?l0 = "lcCreateAccounts (ledgerClient dp)
      [\<lparr>accID = merchant_account, accLedger = int LedgerVATRemittance, accCode = 4, accFlags = ''''\<rparr>] (svLedger sv)"
  obtain st1 l1 r1 where sp: "settlePeriod dp (nowRFC3339 env) tenant period merchant_account (agFederal ?a) (agState ?a) (agLGA ?a)
       (recon_id dp tenant period ?supp) ?supp (svStore sv, ?l0) = ((st1, l1), r1)" by (metis prod.exhaust)
  obtain st2 r2 where m: "MarkReceiptsSettled (agIDs ?a) tenant period st1 = (st2, r2)" by fastforce
  note run' = run [unfolded handleSettlementRecon_def Let_def option.case prod.case sp m]
  have nz: "agTotalCount ?a \<noteq> 0" "period \<noteq> ''''"
    using run' by (auto split: if_splits)
  have r: "r1 = Inr ()" "r2 = Inr ()" "\<exists>rec. svStore sv' = AddRecon rec st2"
    using run' by (auto split: if_splits sum.splits option.splits)
  obtain s where s: "receipts st1 = receipts (svStore sv)" "byTenant st1 = byTenant (svStore sv)"
    "GetSettledPeriod tenant period st1 = Some s" "spStatus s = ''settled''"
    using settlePeriod_ok [OF sp [unfolded r(1)] marker] by blast
  note m2 = mark_ok [OF m [unfolded r(2)]]
  have ids: "agIDs ?a = map rcID (unsettled period ?L)" "agTotalCount ?a = length (in_period period ?L)"
    by (simp_all add: aggregate_totals)
  have none: "unsettled period (ListReceipts ord tenant '''' 0 st2) = []"
    "length (in_period period (ListReceipts ord tenant '''' 0 st2)) = length (in_period period ?L)"
    using stamped_none_left [OF keyed, of st2 period ord tenant] m2 s by (simp_all add: ids(1))
  obtain rec where rec: "svStore sv' = AddRecon rec st2" using r(3) by blast
  have L: "ListReceipts ord tenant '''' 0 (svStore sv') = ListReceipts ord tenant '''' 0 st2"
    by (simp add: rec AddRecon_def ListReceipts_def)
  show "unsettled period (ListReceipts ord tenant '''' 0 (svStore sv')) = []" using none L by simp
  show "in_period period (ListReceipts ord tenant '''' 0 (svStore sv')) \<noteq> []" using none(2) nz(1) L ids(2) by auto
  show "\<exists>sp. GetSettledPeriod tenant period (svStore sv') = Some sp \<and> spStatus sp = ''settled''"
    using s m2 by (simp add: rec AddRecon_def GetSettledPeriod_def)
  show "period \<noteq> ''''" by (rule nz(2))
qed

lemma reopen_no_markers: "settledPeriods (reopen fits st) = Map.empty"
  by (simp add: reopen_def NewStore_log)

end
