(* ===== verification/Pos_Books.thy ===== *)
theory Pos_Books
  imports Pos_Settlement
begin

text \<open>
  The books of a running POS VAT service: what every sequence of requests keeps of the receipts
  in memory and of the index by tenant that the settlement reads, for every ledger client, cache
  and pattern of disk failures. From it follows that a settlement run aggregates each unsettled
  receipt of the tenant exactly once.
\<close>

section \<open>The requests of a running service\<close>

inductive pos_step :: "('l, 'c) Deps \<Rightarrow> ('l, 'c) Service \<Rightarrow> ('l, 'c) Service \<Rightarrow> bool" for dp where
  ingest: "pos_step dp sv (fst (handleIngestReceipt dp env body sv))"
| drain: "pos_step dp sv (fst (handleSpoolDrain dp env sv))"
| settle: "pos_step dp sv (fst (handleSettlementRecon dp env ord period_tenant sv))"
| b2c: "pos_step dp sv (fst (handleB2CReport ord tenant_period sv))"
| cert: "pos_step dp sv (fst (handleCertRun geo ord tenant sample sv))"
| tick: "pos_step dp sv (sv\<lparr>svStore := flusher_tick (svStore sv)\<rparr>)"

section \<open>Invariants of the store\<close>

text \<open>
  What each operation of the store has to keep for a fact to hold in every reachable service: the
  handlers reach the store through these operations only, and store a receipt only after its VAT
  has been attributed.
\<close>

locale store_invariant =
  fixes I :: "Store \<Rightarrow> bool"
  assumes put: "I st \<Longrightarrow> PutReceipt r st = (st', res) \<Longrightarrow> (res = Inr () \<Longrightarrow> attributed r \<and> rcID r \<noteq> '''') \<Longrightarrow> I st'"
    and spool: "I st \<Longrightarrow> Spool e st = (st', sres) \<Longrightarrow> I st'"
    and unspool: "I st \<Longrightarrow> I (SpoolRemove i st)"
    and mark: "I st \<Longrightarrow> MarkReceiptsSettled ids tenant period st = (st', mres) \<Longrightarrow> I st'"
    and save: "I st \<Longrightarrow> I (fst (SaveSettledPeriod sp st))"
    and add_recon: "I st \<Longrightarrow> I (AddRecon rec st)"
    and flush: "I st \<Longrightarrow> I (flusher_tick st)"
begin

lemma process:
  assumes "I st" "processReceipt dp ps now rc idem st = (st', res)"
  shows "I st'"
proof (cases res)
  case (Inr out)
  then have ok: "processReceipt dp ps now rc idem st = (st', Inr out)" using assms(2) by simp
  then have "PutReceipt out st = (st', Inr ()) \<and> rcID out = receipt_id dp rc idem" by (rule processReceipt_okD) blast
  with put [OF assms(1)] processed_attributed [OF ok] show ?thesis by (auto simp: receipt_id_def split: if_splits)
next
  case (Inl e)
  have "I st1" if "PutReceipt r st = (st1, Inl f)" for r st1 f
    using put [OF assms(1) that] by simp
  with assms Inl show ?thesis unfolding processReceipt_def Let_def
    by (auto split: sum.splits option.splits prod.splits)
qed

lemma ingest:
  assumes "I (svStore sv)"
  shows "I (svStore (fst (handleIngestReceipt dp env body sv)))"
  using assms spool [OF assms] process [OF assms]
  unfolding handleIngestReceipt_def Let_def
  by (auto split: option.splits prod.splits sum.splits bool.splits)

lemma drain_one:
  assumes "I (svStore sv)" "drain_entry dp now e sv = (sv', res)"
  shows "I (svStore sv')"
  using assms unfolding drain_entry_def
  by (auto split: option.splits prod.splits sum.splits intro!: unspool elim: process [OF assms(1)])

lemma drain_all: "drain_loop dp now es sv n fs = (sv', n', fs') \<Longrightarrow> I (svStore sv) \<Longrightarrow> I (svStore sv')"
  by (induction dp now es sv n fs rule: drain_loop.induct) (auto split: prod.splits option.splits dest: drain_one)

lemma settle_period:
  assumes "I st" "settlePeriod dp now tenant period m federal state lga reconID supp (st, l) = ((st', l'), res)"
  shows "I st'"
proof -
  define sp where "sp = settle_marker dp tenant period now federal state lga reconID supp
    (case GetSettledPeriod tenant period st of None \<Rightarrow> new_marker tenant period now | Some sp \<Rightarrow> sp)"
  define legs where "legs = settle_leg_list dp tenant period supp federal state lga"
  obtain st1 r1 where s1: "SaveSettledPeriod sp st = (st1, r1)" by fastforce
  obtain l1 out where legs: "settle_legs dp tenant period m legs legs [] l = (l1, out)" by fastforce
  have b1: "I st1" using save [OF assms(1), of sp] s1 by simp
  have "st' = st1 \<or> (\<exists>sp'. st' = fst (SaveSettledPeriod sp' st1))"
    using assms(2) unfolding settlePeriod_def Let_def
    by (auto simp: sp_def [symmetric] legs_def [symmetric] s1 legs split: sum.splits legs_outcome.splits prod.splits) (metis fst_conv)+
  with b1 save show ?thesis by blast
qed

lemma settle_request:
  assumes "I (svStore sv)"
  shows "I (svStore (fst (handleSettlementRecon dp env ord body sv)))"
proof (cases body)
  case (Some pt)
  obtain period tenant where pt: "pt = (period, tenant)" by fastforce
  let ?a = "aggregate period (ListReceipts ord tenant '''' 0 (svStore sv))"
  let ?supp = "supplement_no (GetSettledPeriod tenant period (svStore sv))"
  let ?l0 = "lcCreateAccounts (ledgerClient dp)
      [\<lparr>accID = merchant_account, accLedger = int LedgerVATRemittance, accCode = 4, accFlags = ''''\<rparr>] (svLedger sv)"
  obtain st1 l1 r1 where sp: "settlePeriod dp (nowRFC3339 env) tenant period merchant_account (agFederal ?a) (agState ?a) (agLGA ?a)
       (recon_id dp tenant period ?supp) ?supp (svStore sv, ?l0) = ((st1, l1), r1)" by (metis prod.exhaust)
  obtain st2 r2 where m: "MarkReceiptsSettled (agIDs ?a) tenant period st1 = (st2, r2)" by fastforce
  have b1: "I st1" by (rule settle_period [OF assms sp])
  have b2: "I st2" by (rule mark [OF b1 m])
  with b1 assms add_recon [OF b2] show ?thesis
    unfolding handleSettlementRecon_def Let_def Some pt option.case prod.case sp m by (auto split: sum.split option.split)
qed (simp add: handleSettlementRecon_def assms)

lemma kept: "pos_step dp sv sv' \<Longrightarrow> I (svStore sv) \<Longrightarrow> I (svStore sv')"
proof (induction rule: pos_step.induct)
  case (drain sv env)
  obtain sv1 n fs where d: "drain_loop dp (nowRFC3339 env) (SpoolList (svStore sv)) sv 0 [] = (sv1, n, fs)" by (metis prod_cases3)
  with drain_all [OF d drain] show ?case by (simp add: handleSpoolDrain_def)
qed (simp_all add: ingest settle_request flush handleB2CReport_def handleCertRun_def Let_def split: option.split prod.split)

lemma reached: "(pos_step dp)\<^sup>*\<^sup>* sv0 sv \<Longrightarrow> I (svStore sv0) \<Longrightarrow> I (svStore sv)"
  by (induction rule: rtranclp_induct) (auto intro: kept)

end

section \<open>The index\<close>

text \<open>
  Receipts are stored under their id with a VAT that is fully attributed, the index of a tenant
  holds the ids of its receipts and no others, and the id of a receipt that is not settled at
  most once.
\<close>

definition books :: "Store \<Rightarrow> bool" where
  "books st \<longleftrightarrow> keyed st \<and> (\<forall>i r. receipts st i = Some r \<longrightarrow> attributed r) \<and>
     (\<forall>t i. i \<in> set (byTenant st t) \<longleftrightarrow> (\<exists>r. receipts st i = Some r \<and> rcTenantID r = t)) \<and>
     (\<forall>t i r. receipts st i = Some r \<longrightarrow> SettledIn r = '''' \<longrightarrow> count_list (byTenant st t) i \<le> 1)"

lemma books_cong: "receipts st' = receipts st \<Longrightarrow> byTenant st' = byTenant st \<Longrightarrow> books st \<Longrightarrow> books st'"
  by (simp add: books_def keyed_def)

lemma books_unindexed: "books st \<Longrightarrow> receipts st i = None \<Longrightarrow> i \<notin> set (byTenant st t)"
  by (simp add: books_def)

lemma books_index:
  assumes "books st" "receipts st (rcID r) = None" "attributed r"
  shows "books (index_receipt r st)"
proof -
  have zero: "count_list (byTenant st t) (rcID r) = 0" for t
    using books_unindexed [OF assms(1,2)] by (simp add: count_list_0_iff)
  have "i \<in> set (byTenant (index_receipt r st) t) \<longleftrightarrow> (\<exists>q. receipts (index_receipt r st) i = Some q \<and> rcTenantID q = t)" for t i
    using assms(1) books_unindexed [OF assms(1,2)] by (cases "i = rcID r") (auto simp: books_def)
  moreover have "count_list (byTenant (index_receipt r st) t) i \<le> 1"
    if "receipts (index_receipt r st) i = Some q" "SettledIn q = ''''" for t i q
  proof (cases "i = rcID r")
    case True
    then show ?thesis using zero by simp
  next
    case False
    with that have "receipts st i = Some q" by simp
    with that(2) assms(1) have "count_list (byTenant st t) i \<le> 1" for t by (simp add: books_def)
    then show ?thesis using False by simp
  qed
  ultimately show ?thesis
    using assms unfolding books_def by (auto simp: keyed_def)
qed

lemma put_index:
  assumes "PutReceipt r st = (st', res)"
  shows "receipts st' = receipts st \<and> byTenant st' = byTenant st \<or>
    receipts st (rcID r) = None \<and> res = Inr () \<and> receipts st' = receipts (index_receipt r st) \<and> byTenant st' = byTenant (index_receipt r st)"
  using assms by (auto simp: PutReceipt_def Let_def split_beta split: if_splits sum.splits prod.splits dest: sym)

lemma mark_loop_stamps:
  assumes "mark_loop ids key st = (st', res)"
  shows "\<exists>S. receipts st' = (\<lambda>i. if i \<in> S then map_option (stamp key) (receipts st i) else receipts st i) \<and> byTenant st' = byTenant st"
  using assms
proof (induction ids arbitrary: st)
  case Nil
  then show ?case by (intro exI [of _ "{}"]) simp
next
  case (Cons i ids)
  show ?case
  proof (cases "receipts st i")
    case None
    with Cons show ?thesis by simp
  next
    case (Some r)
    let ?s = "st\<lparr>receipts := (receipts st)(i \<mapsto> stamp key r)\<rparr>"
    have one: "\<exists>S. receipts ?s = (\<lambda>i. if i \<in> S then map_option (stamp key) (receipts st i) else receipts st i)"
      using Some by (intro exI [of _ "{i}"]) (auto simp: fun_eq_iff)
    have more: "\<exists>S. receipts st' = (\<lambda>i. if i \<in> S then map_option (stamp key) (receipts st i) else receipts st i) \<and> byTenant st' = byTenant st"
      if t: "mark_loop ids key t = (st', res)" "receipts t = receipts ?s" "byTenant t = byTenant st" for t
    proof -
      obtain S where "receipts st' = (\<lambda>i. if i \<in> S then map_option (stamp key) (receipts t i) else receipts t i)" "byTenant st' = byTenant t"
        using Cons.IH t(1) by blast
      then show ?thesis using t(2,3) Some
        by (intro exI [of _ "insert i S"]) (auto simp: fun_eq_iff option.map_comp comp_def)
    qed
    show ?thesis
    proof (cases "logOpen st \<and> \<not> snd (log_write (stamp key r) ?s)")
      case True
      then have "st' = fst (log_write (stamp key r) ?s)"
        using Cons.prems Some by (auto simp: Let_def split_beta stamp_def [symmetric])
      then have "receipts st' = receipts ?s" "byTenant st' = byTenant st" by simp_all
      then show ?thesis using one by presburger
    next
      case False
      then show ?thesis
        using Cons.prems Some by (intro more [of "if logOpen st then fst (log_write (stamp key r) ?s) else ?s"])
          (auto simp: Let_def split_beta stamp_def [symmetric])
    qed
  qed
qed

lemma stamp_keeps [simp]:
  "rcTenantID (stamp key r) = rcTenantID r" "VATKobo (stamp key r) = VATKobo r" "attributed (stamp key r) = attributed r"
  by (simp_all add: stamp_def attributed_def)

lemma books_stamped:
  assumes "books st" "receipts st' = (\<lambda>i. if i \<in> S then map_option (stamp key) (receipts st i) else receipts st i)"
    "byTenant st' = byTenant st" "key \<noteq> ''''"
  shows "books st'"
proof -
  have src: "\<exists>r. receipts st i = Some r \<and> rcID q = rcID r \<and> rcTenantID q = rcTenantID r \<and> attributed q = attributed r \<and>
      (SettledIn q = '''' \<longrightarrow> SettledIn r = '''')" if "receipts st' i = Some q" for i q
    using that assms(2,4) by (auto split: if_splits)
  have dst: "\<exists>q. receipts st' i = Some q \<and> rcTenantID q = rcTenantID r" if "receipts st i = Some r" for i r
    using that assms(2) by auto
  have "keyed st'" "\<forall>i r. receipts st' i = Some r \<longrightarrow> attributed r"
    using assms(1) src unfolding books_def keyed_def by metis+
  moreover have "i \<in> set (byTenant st' t) \<longleftrightarrow> (\<exists>r. receipts st' i = Some r \<and> rcTenantID r = t)" for t i
    using assms(1) src dst unfolding assms(3) books_def by metis
  moreover have "count_list (byTenant st' t) i \<le> 1" if "receipts st' i = Some r" "SettledIn r = ''''" for t i r
    using assms(1) src [OF that(1)] that(2) unfolding assms(3) books_def by metis
  ultimately show ?thesis unfolding books_def by blast
qed

lemma books_mark:
  assumes "books st" "MarkReceiptsSettled ids tenant period st = (st', res)"
  shows "books st'"
proof -
  obtain st1 r1 where loop: "mark_loop ids (settledKey tenant period) st = (st1, r1)" by fastforce
  then have b1: "books st1" using mark_loop_stamps [OF loop] books_stamped [OF assms(1)] by (auto simp: settledKey_def)
  have "books (fst (log_sync st1))" using b1 by (rule books_cong [rotated 2]) simp_all
  with b1 assms(2) loop show ?thesis by (auto simp: MarkReceiptsSettled_def Let_def split_beta split: sum.splits if_splits)
qed

interpretation bk: store_invariant books
proof unfold_locales
  fix st st' r res
  assume "books st" "PutReceipt r st = (st', res)" "res = Inr () \<Longrightarrow> attributed r \<and> rcID r \<noteq> ''''"
  then show "books st'" using put_index [of r st st' res] books_index [of st r] books_cong by blast
next
  fix st :: Store and e st' res
  assume "books st" "Spool e st = (st', res)"
  then show "books st'" by (elim books_cong [rotated 2]) (auto simp: Spool_def Let_def split_beta split: if_splits)
next
  fix st ids tenant period st' res
  assume "books st" "MarkReceiptsSettled ids tenant period st = (st', res)"
  then show "books st'" by (rule books_mark)
qed (auto elim!: books_cong [rotated 2] simp: SpoolRemove_def AddRecon_def flusher_tick_def)

section \<open>Starting on a log\<close>

text \<open>
  The logs a service can start on: every record is attributed, the records of one id name one
  tenant, and an id has several records only when the last one is stamped as settled.
\<close>

definition records :: "string \<Rightarrow> Receipt option list \<Rightarrow> Receipt list" where
  "records i ls = filter (\<lambda>r. rcID r = i) (List.map_filter id ls)"

definition sound_log :: "Receipt option list \<Rightarrow> bool" where
  "sound_log ls \<longleftrightarrow> (\<forall>r. Some r \<in> set ls \<longrightarrow> attributed r) \<and>
     (\<forall>r q. Some r \<in> set ls \<longrightarrow> Some q \<in> set ls \<longrightarrow> rcID r = rcID q \<longrightarrow> rcTenantID r = rcTenantID q) \<and>
     (\<forall>i r. log_view ls i = Some r \<longrightarrow> SettledIn r = '''' \<longrightarrow> length (records i ls) \<le> 1)"

lemma sound_log_Nil: "sound_log []"
  by (simp add: sound_log_def records_def log_view_def List.map_filter_simps)

definition indexed_lines :: "Receipt option list \<Rightarrow> Receipt list" where
  "indexed_lines ls = filter (\<lambda>r. rcID r \<noteq> '''') (List.map_filter id ls)"

lemma byTenant_replay:
  "byTenant (fold replay_line ls st) t = byTenant st t @ map rcID (filter (\<lambda>r. rcTenantID r = t) (indexed_lines ls))"
  by (induction ls arbitrary: st)
    (auto simp: replay_line_def indexed_lines_def index_receipt_def List.map_filter_simps split: option.split)

lemma log_view_line: "log_view ls i = Some r \<Longrightarrow> r \<in> set (indexed_lines ls)"
proof (induction ls arbitrary: i r rule: rev_induct)
  case (snoc l ls)
  then show ?case by (auto simp: log_view_snoc indexed_lines_def List.map_filter_def split: option.splits if_splits)
qed (simp add: log_view_def)

lemma indexed_viewed: "r \<in> set (indexed_lines ls) \<Longrightarrow> log_view ls (rcID r) \<noteq> None"
proof (induction ls rule: rev_induct)
  case (snoc l ls)
  then show ?case by (auto simp: log_view_snoc indexed_lines_def List.map_filter_def split: option.splits if_splits)
qed (simp add: indexed_lines_def List.map_filter_simps)

lemma count_ids: "count_list (map rcID rs) i = length (filter (\<lambda>r. rcID r = i) rs)"
  by (induction rs) simp_all

lemma books_replayed:
  assumes "sound_log ls" "receipts st = log_view ls"
    "\<And>t. byTenant st t = map rcID (filter (\<lambda>r. rcTenantID r = t) (indexed_lines ls))"
  shows "books st"
proof -
  have line: "Some r \<in> set ls" if "r \<in> set (indexed_lines ls)" for r
    using that by (auto simp: indexed_lines_def List.map_filter_def)
  have ten: "rcTenantID r = rcTenantID q" if "r \<in> set (indexed_lines ls)" "q \<in> set (indexed_lines ls)" "rcID r = rcID q" for r q
    using assms(1) line that unfolding sound_log_def by blast
  have "keyed st" using log_view_keyed by (simp add: keyed_def assms(2))
  moreover have "attributed r" if "receipts st i = Some r" for i r
    using that assms(1,2) log_view_line line unfolding sound_log_def by metis
  moreover have "i \<in> set (byTenant st t) \<longleftrightarrow> (\<exists>r. receipts st i = Some r \<and> rcTenantID r = t)" for t i
  proof
    assume "i \<in> set (byTenant st t)"
    then obtain r where r: "r \<in> set (indexed_lines ls)" "rcID r = i" "rcTenantID r = t" by (auto simp: assms(3))
    with indexed_viewed obtain q where q: "log_view ls i = Some q" by blast
    with ten [OF log_view_line [OF q] r(1)] log_view_keyed [OF q] r show "\<exists>r. receipts st i = Some r \<and> rcTenantID r = t"
      by (simp add: assms(2))
  next
    assume "\<exists>r. receipts st i = Some r \<and> rcTenantID r = t"
    then obtain r where r: "log_view ls i = Some r" "rcTenantID r = t" by (auto simp: assms(2))
    with log_view_line [OF r(1)] log_view_keyed [OF r(1)] show "i \<in> set (byTenant st t)" by (force simp: assms(3))
  qed
  moreover have "count_list (byTenant st t) i \<le> 1" if "receipts st i = Some r" "SettledIn r = ''''" for t i r
  proof -
    have "count_list (byTenant st t) i = length (filter (\<lambda>r. rcID r \<noteq> '''' \<and> rcTenantID r = t) (records i ls))"
      by (simp add: assms(3) count_ids indexed_lines_def records_def conj_ac)
    also have "\<dots> \<le> length (records i ls)" by (rule length_filter_le)
    also have "\<dots> \<le> 1" using assms(1) that unfolding sound_log_def assms(2) by blast
    finally show ?thesis .
  qed
  ultimately show ?thesis unfolding books_def by blast
qed

lemma books_NewStore:
  assumes "sound_log (takeWhile fits rlog)"
  shows "books (NewStore fits rlog torn slog spool faults)"
proof (cases "faults = [] \<or> hd faults = IoOk")
  case True
  then have "byTenant (NewStore fits rlog torn slog spool faults) t =
      map rcID (filter (\<lambda>r. rcTenantID r = t) (indexed_lines (takeWhile fits rlog)))" for t
    by (cases faults) (simp_all add: NewStore_def replay_def io_step_def Let_def split_beta byTenant_replay split: list.split)
  with True show ?thesis by (intro books_replayed [OF assms]) (simp_all add: NewStore_receipts)
next
  case False
  then have "byTenant (NewStore fits rlog torn slog spool faults) = (\<lambda>_. [])"
    by (cases faults) (simp_all add: NewStore_def replay_def io_step_def Let_def split_beta split: list.split)
  with False show ?thesis by (simp add: books_def keyed_def NewStore_receipts)
qed

section \<open>The log of a service without disk failures\<close>

text \<open>While the disk serves every request, memory is what a restart would rebuild, and the log stays sound.\<close>

definition exact :: "Store \<Rightarrow> bool" where
  "exact st \<longleftrightarrow> io st = [] \<and> logOpen st \<and> \<not> logTorn st \<and> receipts st = log_view (receiptsLog st) \<and> sound_log (receiptsLog st)"

lemma records_snoc: "records i (ls @ [Some r]) = records i ls @ (if rcID r = i then [r] else [])"
  by (simp add: records_def List.map_filter_def)

lemma known_line:
  assumes "Some q \<in> set ls" "rcID q \<noteq> ''''"
  shows "log_view ls (rcID q) \<noteq> None"
  using assms by (intro indexed_viewed) (force simp: indexed_lines_def List.map_filter_def)

lemma sound_logD:
  assumes "sound_log ls"
  shows "Some r \<in> set ls \<Longrightarrow> attributed r"
    "Some r \<in> set ls \<Longrightarrow> Some q \<in> set ls \<Longrightarrow> rcID r = rcID q \<Longrightarrow> rcTenantID r = rcTenantID q"
    "log_view ls i = Some r \<Longrightarrow> SettledIn r = '''' \<Longrightarrow> length (records i ls) \<le> 1"
  using assms unfolding sound_log_def by blast+

lemma sound_logI:
  assumes "\<And>r. Some r \<in> set ls \<Longrightarrow> attributed r"
    "\<And>r q. Some r \<in> set ls \<Longrightarrow> Some q \<in> set ls \<Longrightarrow> rcID r = rcID q \<Longrightarrow> rcTenantID r = rcTenantID q"
    "\<And>i r. log_view ls i = Some r \<Longrightarrow> SettledIn r = '''' \<Longrightarrow> length (records i ls) \<le> 1"
  shows "sound_log ls"
  using assms unfolding sound_log_def by blast

lemma sound_log_new:
  assumes "sound_log ls" "rcID r \<noteq> ''''" "attributed r" "log_view ls (rcID r) = None"
  shows "sound_log (ls @ [Some r])"
proof -
  have new: "rcID q \<noteq> rcID r" if "Some q \<in> set ls" for q
    using known_line [OF that] assms(2,4) by auto
  then have none: "records (rcID r) ls = []" by (auto simp: records_def filter_empty_conv List.map_filter_def)
  show ?thesis
  proof (rule sound_logI)
    fix x q assume "Some x \<in> set (ls @ [Some r])" "Some q \<in> set (ls @ [Some r])" "rcID x = rcID q"
    then show "rcTenantID x = rcTenantID q" using sound_logD(2) [OF assms(1), of x q] new [of x] new [of q] by auto
  next
    fix i q assume v: "log_view (ls @ [Some r]) i = Some q" "SettledIn q = ''''"
    show "length (records i (ls @ [Some r])) \<le> 1"
      using v assms(2) none sound_logD(3) [OF assms(1), of i q] by (cases "i = rcID r") (simp_all add: records_snoc log_view_snoc)
  qed (use assms(3) sound_logD(1) [OF assms(1)] in auto)
qed

lemma sound_log_stamp:
  assumes "sound_log ls" "log_view ls (rcID q) = Some q" "rcID r = rcID q" "rcTenantID r = rcTenantID q" "attributed r" "SettledIn r \<noteq> ''''"
  shows "sound_log (ls @ [Some r])"
proof -
  have q: "Some q \<in> set ls" "rcID q \<noteq> ''''"
    using log_view_line [OF assms(2)] by (auto simp: indexed_lines_def List.map_filter_def)
  have ten: "rcTenantID x = rcTenantID q" if "Some x \<in> set ls" "rcID x = rcID q" for x
    using assms(1) that q(1) unfolding sound_log_def by blast
  show ?thesis
  proof (rule sound_logI)
    fix x y assume "Some x \<in> set (ls @ [Some r])" "Some y \<in> set (ls @ [Some r])" "rcID x = rcID y"
    with ten [of x] ten [of y] assms(3,4) sound_logD(2) [OF assms(1), of x y] show "rcTenantID x = rcTenantID y" by auto
  next
    fix i x assume v: "log_view (ls @ [Some r]) i = Some x" "SettledIn x = ''''"
    show "length (records i (ls @ [Some r])) \<le> 1"
      using v assms(3,6) q(2) sound_logD(3) [OF assms(1), of i x] by (cases "i = rcID r") (simp_all add: records_snoc log_view_snoc)
  qed (use assms(5) sound_logD(1) [OF assms(1)] in auto)
qed

lemma exact_put:
  assumes "exact st" "PutReceipt r st = (st', res)" "res = Inr () \<Longrightarrow> attributed r \<and> rcID r \<noteq> ''''"
  shows "exact st'"
proof (cases "receipts st (rcID r) = None")
  case False
  with assms(1,2) show ?thesis by (simp add: PutReceipt_def)
next
  case True
  have io: "io st = []" "logOpen st" "\<not> logTorn st" using assms(1) by (simp_all add: exact_def)
  have res: "res = Inr ()" and st': "receipts st' = (receipts st)(rcID r \<mapsto> r)" "receiptsLog st' = receiptsLog st @ [Some r]"
    "io st' = []" "logOpen st'" "\<not> logTorn st'"
    using assms(2) True io
    by (auto simp: PutReceipt_def log_write_ok flushLocked_def log_sync_def io_step_ok Let_def split: if_splits)
  with assms(1) sound_log_new [of "receiptsLog st" r] assms(3) True show ?thesis
    by (auto simp: exact_def log_view_snoc)
qed

lemma exact_mark_loop: "exact st \<Longrightarrow> key \<noteq> '''' \<Longrightarrow> \<exists>st'. mark_loop ids key st = (st', Inr ()) \<and> exact st'"
proof (induction ids arbitrary: st)
  case (Cons i ids)
  show ?case
  proof (cases "receipts st i")
    case None
    with Cons show ?thesis by simp
  next
    case (Some r)
    have st: "io st = []" "logOpen st" "\<not> logTorn st" "receipts st = log_view (receiptsLog st)" "sound_log (receiptsLog st)"
      using Cons.prems(1) by (simp_all add: exact_def)
    let ?t = "st\<lparr>receipts := (receipts st)(i \<mapsto> stamp key r), receiptsLog := receiptsLog st @ [Some (stamp key r)], logTorn := False\<rparr>"
    have i: "rcID r = i" "i \<noteq> ''''" "log_view (receiptsLog st) (rcID r) = Some r" using Some st(4) log_view_keyed by auto
    have a: "attributed r" using log_view_line [OF i(3)] st(5) by (auto simp: sound_log_def indexed_lines_def List.map_filter_def)
    have "sound_log (receiptsLog ?t)"
      using sound_log_stamp [OF st(5) i(3), of "stamp key r"] a Cons.prems(2) by simp
    then have "exact ?t" using st i(1,2) by (simp add: exact_def log_view_snoc)
    moreover have "mark_loop (i # ids) key st = mark_loop ids key ?t"
      using st Some by (simp add: log_write_ok Let_def stamp_def)
    ultimately show ?thesis using Cons.IH [of ?t] Cons.prems(2) by simp
  qed
qed simp

interpretation ex: store_invariant exact
proof unfold_locales
  fix st st' r res
  assume "exact st" "PutReceipt r st = (st', res)" "res = Inr () \<Longrightarrow> attributed r \<and> rcID r \<noteq> ''''"
  then show "exact st'" by (rule exact_put)
next
  fix st ids tenant period st' res
  assume st: "exact st" "MarkReceiptsSettled ids tenant period st = (st', res)"
  obtain st1 where l: "mark_loop ids (settledKey tenant period) st = (st1, Inr ())" "exact st1"
    using exact_mark_loop [OF st(1), of "settledKey tenant period" ids] by (auto simp: settledKey_def)
  then have "st' = st1\<lparr>durable := length (receiptsLog st1)\<rparr>"
    using st(2) by (simp add: MarkReceiptsSettled_def exact_def log_sync_def io_step_ok Let_def)
  with l(2) show "exact st'" by (simp add: exact_def)
next
  fix st sp
  assume "exact st"
  then show "exact (fst (SaveSettledPeriod sp st))" by (simp add: exact_def SaveSettledPeriod_ok)
next
  fix st
  assume "exact st"
  then show "exact (flusher_tick st)"
    by (auto simp: exact_def flusher_tick_def flushLocked_def log_sync_def io_step_ok Let_def)
qed (auto simp: exact_def Spool_def io_step_ok SpoolRemove_def AddRecon_def Let_def)

lemma exact_NewStore:
  assumes "sound_log rlog" "\<forall>l\<in>set rlog. fits l"
  shows "exact (NewStore fits rlog False slog spool [])"
  using assms
  by (simp add: exact_def NewStore_receipts NewStore_log takeWhile_eq_all_conv [THEN iffD2])
    (simp add: NewStore_def replay_def Let_def split_beta replay_frame io_step_def split: list.splits)

section \<open>What a settlement run adds up\<close>

definition owed :: "string \<Rightarrow> string \<Rightarrow> Store \<Rightarrow> Receipt set" where
  "owed tenant period st = {r. (\<exists>i. receipts st i = Some r) \<and> rcTenantID r = tenant \<and> prefix period (CapturedAt r) \<and> SettledIn r = ''''}"

lemma distinct_filter_count: "(\<And>x. x \<in> set xs \<Longrightarrow> P x \<Longrightarrow> count_list xs x \<le> 1) \<Longrightarrow> distinct (filter P xs)"
proof (induction xs)
  case (Cons x xs)
  have "count_list xs y \<le> 1" if "y \<in> set xs" "P y" for y
    using Cons.prems [of y] that by (auto split: if_splits)
  moreover have "P x \<Longrightarrow> x \<notin> set xs" using Cons.prems [of x] by (auto simp: count_list_0_iff)
  ultimately show ?case using Cons.IH by auto
qed simp

text \<open>The list the settlement aggregates holds each owed receipt once.\<close>

lemma unsettled_owed:
  assumes "books st" "tenant \<noteq> ''''"
  shows "set (unsettled period (ListReceipts ord tenant '''' 0 st)) = owed tenant period st"
    "distinct (unsettled period (ListReceipts ord tenant '''' 0 st))"
proof -
  let ?P = "\<lambda>r. HasPrefix (CapturedAt r) period \<and> SettledIn r = ''''"
  let ?Q = "\<lambda>i. case receipts st i of Some r \<Rightarrow> ?P r | None \<Rightarrow> False"
  have L: "unsettled period (ListReceipts ord tenant '''' 0 st) = filter ?P (List.map_filter (receipts st) (byTenant st tenant))"
    using assms(2) by (auto simp: ListReceipts_all unsettled_def in_period_def conj_commute intro!: filter_cong)
  show "set (unsettled period (ListReceipts ord tenant '''' 0 st)) = owed tenant period st"
  proof (intro equalityI subsetI)
    fix r assume "r \<in> set (unsettled period (ListReceipts ord tenant '''' 0 st))"
    then obtain i where "i \<in> set (byTenant st tenant)" "receipts st i = Some r" "?P r" unfolding L by (auto simp: List.map_filter_def)
    with assms(1) show "r \<in> owed tenant period st" by (auto simp: books_def owed_def HasPrefix_iff)
  next
    fix r assume "r \<in> owed tenant period st"
    then obtain i where "receipts st i = Some r" "rcTenantID r = tenant" "?P r" by (auto simp: owed_def HasPrefix_iff)
    moreover from this assms(1) have "i \<in> set (byTenant st tenant)" by (auto simp: books_def)
    ultimately show "r \<in> set (unsettled period (ListReceipts ord tenant '''' 0 st))" unfolding L by (force simp: List.map_filter_def)
  qed
  have ids: "map rcID (filter ?P (List.map_filter (receipts st) is)) = filter ?Q is" for "is"
    using assms(1) by (induction "is") (auto simp: List.map_filter_simps books_def keyed_def split: option.splits)
  have "distinct (filter ?Q (byTenant st tenant))"
    using assms(1) by (intro distinct_filter_count) (auto simp: books_def split: option.splits)
  then show "distinct (unsettled period (ListReceipts ord tenant '''' 0 st))"
    unfolding L ids [symmetric] by (simp add: distinct_map)
qed

lemma recon_reply_fields:
  assumes "handleSettlementRecon dp env ord (Some (period, tenant)) sv = (sv', Reply 201 (SettledAs rec))"
  defines "a \<equiv> aggregate period (ListReceipts ord tenant '''' 0 (svStore sv))"
  shows "recReceipts rec = agCount a \<and> recVATKobo rec = agVAT a \<and> recFederalKobo rec = agFederal a \<and>
    recStateKobo rec = agState a \<and> recLGAKobo rec = agLGA a"
  using assms(1) unfolding handleSettlementRecon_def Let_def option.case prod.case a_def [symmetric]
  by (auto split: if_splits option.splits prod.splits sum.splits)

lemma settled_sums:
  assumes "books (svStore sv)" "tenant \<noteq> ''''"
    "handleSettlementRecon dp env ord (Some (period, tenant)) sv = (sv', Reply 201 (SettledAs rec))"
  defines "U \<equiv> owed tenant period (svStore sv)"
  shows "recReceipts rec = card U" "recVATKobo rec = wrap64 (\<Sum>r\<in>U. VATKobo r)"
    "wrap64 (recFederalKobo rec + recStateKobo rec + recLGAKobo rec) = wrap64 (\<Sum>r\<in>U. VATKobo r)"
proof -
  let ?L = "ListReceipts ord tenant '''' 0 (svStore sv)"
  note f = recon_reply_fields [OF assms(3)]
  note u = unsettled_owed [OF assms(1,2), of period ord]
  have sum: "(\<Sum>r\<leftarrow>unsettled period ?L. VATKobo r) = (\<Sum>r\<in>U. VATKobo r)"
    using u by (simp add: U_def sum_list_distinct_conv_sum_set)
  show "recReceipts rec = card U" using f distinct_card [OF u(2)] u(1) by (simp add: aggregate_totals U_def)
  show vat: "recVATKobo rec = wrap64 (\<Sum>r\<in>U. VATKobo r)" using f sum by (simp add: aggregate_totals sum64_eq)
  have "\<forall>rc\<in>set (unsettled period ?L). attributed rc"
    using assms(1) by (auto simp: u(1) owed_def books_def)
  from aggregate_balanced [OF this] show "wrap64 (recFederalKobo rec + recStateKobo rec + recLGAKobo rec) = wrap64 (\<Sum>r\<in>U. VATKobo r)"
    using f vat by (simp add: add64_def)
qed

section \<open>A settled period after a restart\<close>

lemma recon_legs_run:
  assumes "handleSettlementRecon dp env ord (Some (period, tenant)) sv = (sv', Reply 201 (SettledAs rec))"
    and marker: "GetSettledPeriod tenant period (svStore sv) = None"
  defines "legs \<equiv> settle_leg_list dp tenant period 0 (recFederalKobo rec) (recStateKobo rec) (recLGAKobo rec)"
  shows "\<exists>l0. settle_legs dp tenant period merchant_account legs legs [] l0 = (svLedger sv', LegsDone)"
proof -
  let ?a = "aggregate period (ListReceipts ord tenant '''' 0 (svStore sv))"
  let ?l0 = "lcCreateAccounts (ledgerClient dp)
      [\<lparr>accID = merchant_account, accLedger = int LedgerVATRemittance, accCode = 4, accFlags = ''''\<rparr>] (svLedger sv)"
  note f = recon_reply_fields [OF assms(1)]
  have supp: "supplement_no (GetSettledPeriod tenant period (svStore sv)) = 0" by (simp add: supplement_no_def marker)
  obtain st1 l1 r1 where sp: "settlePeriod dp (nowRFC3339 env) tenant period merchant_account (agFederal ?a) (agState ?a) (agLGA ?a)
       (recon_id dp tenant period 0) 0 (svStore sv, ?l0) = ((st1, l1), r1)" by (metis prod.exhaust)
  have "r1 = Inr () \<and> svLedger sv' = l1"
    using assms(1) unfolding handleSettlementRecon_def Let_def option.case prod.case supp sp
    by (auto split: if_splits option.splits prod.splits sum.splits)
  with sp settlePeriod_ok [of dp "nowRFC3339 env" tenant period merchant_account "agFederal ?a" "agState ?a" "agLGA ?a"
      "recon_id dp tenant period 0" 0 "svStore sv" ?l0 st1 l1] marker f show ?thesis
    by (auto simp: legs_def)
qed

text \<open>A run without a marker whose legs a ledger already reports as posted books nothing and stamps every unsettled receipt.\<close>

lemma recon_unpaid:
  assumes lc: "ledger_client L" "ledgerClient dp = L"
    and acc: "\<And>i l. lcGetTransfer L i (lcCreateAccounts L [merchant_acct] l) = lcGetTransfer L i l"
    and st: "GetSettledPeriod tenant period (svStore sv) = None" "io (svStore sv) = []" "period \<noteq> ''''"
    and posted: "\<And>name. name \<in> {''federal'', ''state'', ''lga''} \<Longrightarrow>
        ledger_client.reports_posted L (svLedger sv) (pend_id dp tenant period name 0)"
    and late: "r \<in> set (unsettled period (ListReceipts ord tenant '''' 0 (svStore sv)))" "receipts (svStore sv) (rcID r) = Some r"
  shows "\<exists>sv' rec r'. handleSettlementRecon dp env ord (Some (period, tenant)) sv = (sv', Reply 201 (SettledAs rec)) \<and>
    svLedger sv' = lcCreateAccounts L [merchant_acct] (svLedger sv) \<and>
    receipts (svStore sv') (rcID r) = Some r' \<and> SettledIn r' = settledKey tenant period"
proof -
  let ?st = "svStore sv" and ?l = "lcCreateAccounts L [merchant_acct] (svLedger sv)"
  define a where "a = aggregate period (ListReceipts ord tenant '''' 0 ?st)"
  define legs where "legs = settle_leg_list dp tenant period 0 (agFederal a) (agState a) (agLGA a)"
  have "ledger_client.reports_posted L ?l (legPendID g)" if "g \<in> set legs" for g
    using posted that acc by (auto simp: legs_def settle_leg_list_def ledger_client.reports_posted_def [OF lc(1)])
  then have run: "settle_legs dp tenant period merchant_account legs legs [] ?l = (?l, LegsDone)"
    using ledger_client.settle_legs_replay [OF lc] by blast
  obtain st1 where sp: "settlePeriod dp (nowRFC3339 env) tenant period merchant_account (agFederal a) (agState a) (agLGA a)
       (recon_id dp tenant period 0) 0 (?st, ?l) = ((st1, ?l), Inr ())" "io st1 = []" "receipts st1 = receipts ?st"
    using st(2) run by (simp add: settlePeriod_def Let_def SaveSettledPeriod_ok legs_def)
  obtain st2 where mark: "MarkReceiptsSettled (agIDs a) tenant period st1 = (st2, Inr ())"
    "receipts st2 = (\<lambda>i. if i \<in> set (agIDs a) then map_option (stamp (settledKey tenant period)) (receipts st1 i) else receipts st1 i)"
    by (rule mark_effect [OF sp(2)])
  have "rcID r \<in> set (agIDs a)" "agTotalCount a \<noteq> 0"
    using late(1) by (auto simp: a_def aggregate_totals unsettled_def)
  with late(2) st(1,3) sp mark lc(2) show ?thesis
    by (auto simp: handleSettlementRecon_def Let_def a_def [symmetric] supplement_no_def merchant_acct_def [symmetric] AddRecon_def)
qed

lemma put_fresh:
  assumes "io st = []" "receipts st (rcID r) = None"
  shows "receipts (fst (PutReceipt r st)) = (receipts st)(rcID r \<mapsto> r)"
    "byTenant (fst (PutReceipt r st)) = (byTenant st)(rcTenantID r := byTenant st (rcTenantID r) @ [rcID r])"
    "io (fst (PutReceipt r st)) = []" "settledPeriods (fst (PutReceipt r st)) = settledPeriods st"
  using assms by (simp_all add: PutReceipt_def log_write_ok flushLocked_def log_sync_def io_step_ok Let_def index_receipt_def)

lemma reopen_io: "io st = [] \<Longrightarrow> io (reopen fits st) = []"
  using NewStore_io [of fits "receiptsLog st" "logTorn st" "settledLog st" "spoolDir st" "[]"] by (simp add: reopen_def)

lemma late_after_restart:
  assumes "ledger_client L" "ledgerClient dp = L"
    and "\<And>i l. lcGetTransfer L i (lcCreateAccounts L [merchant_acct] l) = lcGetTransfer L i l"
    and ids: "\<And>name. pend_id dp tenant period name 0 \<noteq> ''''"
    and first: "handleSettlementRecon dp env ord (Some (period, tenant)) sv = (sv1, Reply 201 (SettledAs rec))"
      "GetSettledPeriod tenant period (svStore sv) = None"
      "0 < recFederalKobo rec" "0 < recStateKobo rec" "0 < recLGAKobo rec" "io (svStore sv1) = []"
    and late: "receipts (reopen fits (svStore sv1)) (rcID late) = None" "rcTenantID late = tenant" "tenant \<noteq> ''''"
      "prefix period (CapturedAt late)" "SettledIn late = ''''"
    and sv2: "svStore sv2 = fst (PutReceipt late (reopen fits (svStore sv1)))" "svLedger sv2 = svLedger sv1"
  shows "\<exists>sv3 rec3 r. handleSettlementRecon dp env' ord (Some (period, tenant)) sv2 = (sv3, Reply 201 (SettledAs rec3)) \<and>
    svLedger sv3 = lcCreateAccounts L [merchant_acct] (svLedger sv1) \<and>
    receipts (svStore sv3) (rcID late) = Some r \<and> SettledIn r = settledKey tenant period"
proof -
  let ?st = "reopen fits (svStore sv1)"
  note put = put_fresh [OF reopen_io [OF first(6)] late(1)]
  define legs where "legs = settle_leg_list dp tenant period 0 (recFederalKobo rec) (recStateKobo rec) (recLGAKobo rec)"
  obtain l0 where run: "settle_legs dp tenant period merchant_account legs legs [] l0 = (svLedger sv1, LegsDone)"
    using recon_legs_run [OF first(1,2)] unfolding legs_def by blast
  have posted: "\<forall>g\<in>set legs. ledger_client.reports_posted L (svLedger sv1) (legPendID g)"
    using ledger_client.settle_legs_posted [OF assms(1,2) run] first(3-5) ids
    by (simp add: legs_def settle_leg_list_def)
  have "period \<noteq> ''''" using first(1) by (auto simp: handleSettlementRecon_def)
  moreover have "late \<in> set (unsettled period (ListReceipts ord tenant '''' 0 (svStore sv2)))"
    using late(2-5) unfolding sv2 ListReceipts_all put
    by (auto simp: unsettled_def in_period_def List.map_filter_def HasPrefix_iff)
  moreover have "GetSettledPeriod tenant period (svStore sv2) = None"
    using put(4) by (simp add: GetSettledPeriod_def sv2 reopen_no_markers)
  moreover have "ledger_client.reports_posted L (svLedger sv2) (pend_id dp tenant period name 0)"
    if "name \<in> {''federal'', ''state'', ''lga''}" for name
    using posted that by (auto simp: legs_def settle_leg_list_def sv2)
  ultimately show ?thesis
    using recon_unpaid [OF assms(1-3), of tenant period sv2 late ord env'] put sv2 by simp
qed

end
