(* ===== verification/Pos_Properties.thy ===== *)
theory Pos_Properties
  imports Pos_Books
begin

text \<open>
  The properties of the POS VAT service that clients of the service rely on, each with an
  instance on the small service defined first: one merchant, one terminal, no rule packs
  (so the standard rate and the statutory split apply), the in-memory ledger and cache.
\<close>

section \<open>A small service\<close>

definition demo_deps :: "string \<Rightarrow> (DevLedger, string \<Rightarrow> (string \<times> int) option) Deps" where
  "demo_deps mode = \<lparr>geoAttributePoint = (\<lambda>lat lon. if lat = 0 then None else Some (''Lagos'', ''Ikeja'')),
     hmac16 = (\<lambda>key tin. tin), sha16 = (\<lambda>s. s), resolver = (\<lambda>_. []), ledgerClient = devClient,
     cacheClient = memCache, tinKey = ''k'', attributionMode = mode\<rparr>"

definition demo_request :: "string \<Rightarrow> float64 \<Rightarrow> IngestRequest" where
  "demo_request no lat = \<lparr>rcID = '''', rcTenantID = ''t1'', MerchantTIN = ''10000001'', MerchantTINHash = '''', TerminalID = ''T'',
     ReceiptNo = no, CapturedAt = ''2026-01-05'', Lat = lat, Lon = 0,
     Lines = [\<lparr>SKU = ''s'', lnDescription = '''', Qty = 2000, UnitPrice = 50000, Category = ''''\<rparr>],
     Currency = '''', IdempotencyKey = '''', Baskets = (\<lambda>_. 0), PlatformCollected = False, CollectorTIN = '''',
     VATKobo = 0, TotalKobo = 0, rcState = '''', rcLGA = '''', Attribution = zeroAttribution, rcStatus = '''',
     SettledIn = '''', RulePackVersion = '''', Citations = [], StoreAndForward = False, SpoolReason = ''''\<rparr>"

definition demo_env :: request_env where
  "demo_env = \<lparr>nowRFC3339 = ''2026-01-05'', nowNanos = 0, freshULID = ''01ULID''\<rparr>"

definition demo_receipt :: Receipt where
  "demo_receipt = (Receipt.truncate (demo_request ''R1'' 1))\<lparr>rcID := ''r1'', VATKobo := 7500, TotalKobo := 100000,
     Attribution := computeAttribution 7500 ''Lagos'' (statutory ''dual_shadow'')\<rparr>"

definition demo_store :: Store where
  "demo_store = fst (PutReceipt demo_receipt fresh_store)"

definition demo_service :: "Store \<Rightarrow> DevLedger \<Rightarrow> (DevLedger, string \<Rightarrow> (string \<times> int) option) Service" where
  "demo_service st d = \<lparr>svStore = st, svLedger = d, svPacks = Map.empty,
     svBus = \<lparr>events = [], outbox = []\<rparr>, svCache = Map.empty\<rparr>"

lemma demo_new: "fresh_store = \<lparr>receipts = Map.empty, byTenant = (\<lambda>_. []), recon = [], logOpen = True,
   pendingSync = 0, syncCount = 0, receiptsLog = [], logTorn = False, durable = 0,
   settledPeriods = Map.empty, settledLog = [], spoolDir = [], io = []\<rparr>"
  by (simp add: NewStore_def replay_def io_step_def)

lemma demo_packs:
  "BasketFor Map.empty c = ''standard_75''" "StandardRateBPS Map.empty = 750"
  "IsPlatformCollector Map.empty x = False" "attributionConfig Map.empty m = statutory m"
  by (simp_all add: BasketFor_def StandardRateBPS_def IsPlatformCollector_def attributionConfig_def pack_rules_def
      statutory_def List.map_filter_simps Let_def)

lemma ledgerClient_demo: "ledgerClient (demo_deps mode) = devClient"
  by (simp add: demo_deps_def)

lemmas demo_simps = demo_deps_def demo_request_def demo_receipt_def demo_service_def demo_env_def Receipt.truncate_def demo_packs

lemma demo_store_fields:
  "receipts demo_store = [''r1'' \<mapsto> demo_receipt]" "byTenant demo_store = (\<lambda>_. [])(''t1'' := [''r1''])"
  "io demo_store = []" "settledPeriods demo_store = Map.empty" "receiptsLog demo_store = [Some demo_receipt]" "logOpen demo_store" "\<not> logTorn demo_store"
  by (simp_all add: demo_store_def demo_new PutReceipt_def log_write_def io_step_def syncHighWater_def index_receipt_def
      demo_receipt_def demo_request_def Receipt.truncate_def)

lemma demo_reopen: "reopen (\<lambda>_. True) demo_store = demo_store\<lparr>durable := 1, pendingSync := 0\<rparr>"
  by (simp add: reopen_def NewStore_def replay_def replay_line_def index_receipt_def io_step_def demo_store_def demo_new
      PutReceipt_def log_write_def syncHighWater_def demo_receipt_def demo_request_def Receipt.truncate_def)

lemma demo_vat: "VATKobo demo_receipt = 7500"
  by (simp add: demo_receipt_def)

lemma demo_list: "ListReceipts [] ''t1'' '''' 0 demo_store = [demo_receipt]"
  by (simp add: ListReceipts_def demo_store_fields)

lemma demo_attributed: "attributed demo_receipt"
  using attribution_sum [of 7500 "''Lagos''" "statutory ''dual_shadow''"]
  by (simp add: attributed_def demo_receipt_def in64_def)

lemma demo_unsettled: "unsettled ''2026-01'' [demo_receipt] = [demo_receipt]" "in_period ''2026-01'' [demo_receipt] = [demo_receipt]"
  by (simp_all add: unsettled_def in_period_def HasPrefix_def demo_receipt_def demo_request_def Receipt.truncate_def)

section \<open>Settlement\<close>

text \<open>C1. Settling a period is idempotent on every ledger client and every pattern of disk
  failures: once a request was answered 201, repeating it is answered 200 and changes nothing,
  neither the ledger nor the store nor the event bus.\<close>

theorem settlement_idempotent:
  assumes "handleSettlementRecon dp env ord (Some (period, tenant)) sv = (sv', Reply 201 r)"
    and "\<forall>sp. GetSettledPeriod tenant period (svStore sv) = Some sp \<longrightarrow> spTenantID sp = tenant \<and> spPeriod sp = period"
    and "keyed (svStore sv)"
  shows "\<exists>r'. handleSettlementRecon dp' env' ord (Some (period, tenant)) sv' = (sv', Reply 200 r')"
  using settlement_done_state [OF assms] settlement_replay by metis

text \<open>What the small service owes for January 2026, and that its ledger is ready for it.\<close>

lemma demo_shares: "roundBpsHalfUp 7500 1000 = 750" "roundBpsHalfUp 7500 5500 = 4125"
  by (simp_all add: roundBpsHalfUp_nonneg)

lemma demo_aggregate:
  "agCount (aggregate ''2026-01'' [demo_receipt]) = 1" "agVAT (aggregate ''2026-01'' [demo_receipt]) = 7500"
  "agFederal (aggregate ''2026-01'' [demo_receipt]) = 750" "agState (aggregate ''2026-01'' [demo_receipt]) = 4125"
  "agLGA (aggregate ''2026-01'' [demo_receipt]) = 2625"
  by (simp_all add: aggregate_totals demo_unsettled sum64_eq lga_leg_def)
    (simp_all add: demo_receipt_def computeAttribution_def statutory_def demo_shares Let_def sub64_def wrap64_def)

lemma pool_accounts:
  "pool NSVATFederalPool \<noteq> merchant_account" "pool NSVATStatePool \<noteq> merchant_account" "pool NSVATLGAPool \<noteq> merchant_account"
  by (simp_all add: pool_def merchant_account_def ledger_consts) code_simp+

lemma pools_open:
  "accounts NewDevLedger (pool NSVATFederalPool) \<noteq> None" "accounts NewDevLedger (pool NSVATStatePool) \<noteq> None"
  "accounts NewDevLedger (pool NSVATLGAPool) \<noteq> None"
  by (simp_all add: NewDevLedger_def CreateAccounts_def CreateAccount_def pool_def split: option.split)

lemma no_transfers: "transfers NewDevLedger = Map.empty"
  by (simp add: NewDevLedger_def CreateAccounts_def CreateAccount_def split: option.split)

lemma demo_legs:
  fixes mode f s l
  defines "gs \<equiv> settle_leg_list (demo_deps mode) ''t1'' ''2026-01'' 0 f s l"
  shows "distinct (map legPendID gs)"
    "\<forall>g\<in>set gs. leg_ready merchant_account NewDevLedger g \<and> legAccount g \<noteq> merchant_account"
  using pool_accounts pools_open
  by (simp_all add: gs_def settle_leg_list_def pend_id_def settle_suffix_def demo_deps_def leg_ready_def no_transfers)

lemma demo_marker: "GetSettledPeriod tenant period demo_store = None"
  by (simp add: GetSettledPeriod_def demo_store_fields)

lemma demo_keyed: "keyed demo_store"
  by (simp add: keyed_def demo_store_fields demo_receipt_def)


text \<open>The first settlement of January, before and after a restart of the service.\<close>

lemma demo_run_from:
  assumes "st = demo_store \<or> st = reopen (\<lambda>_. True) demo_store"
  obtains sv' rec where "handleSettlementRecon (demo_deps ''dual_shadow'') demo_env [] (Some (''2026-01'', ''t1''))
    (demo_service st NewDevLedger) = (sv', Reply 201 (SettledAs rec))" "io (svStore sv') = []"
    "\<forall>r. Some r \<in> set (receiptsLog (svStore sv')) \<longrightarrow> rcID r = ''r1''"
proof -
  have st: "receipts st = [''r1'' \<mapsto> demo_receipt]" "byTenant st = (\<lambda>_. [])(''t1'' := [''r1''])" "io st = []"
    "settledPeriods st = Map.empty" "receiptsLog st = [Some demo_receipt]"
    using assms by (auto simp: demo_store_fields demo_reopen)
  have L: "ListReceipts [] ''t1'' '''' 0 st = [demo_receipt]" by (simp add: ListReceipts_def st)
  have ids: "rcID demo_receipt = ''r1''" by (simp add: demo_receipt_def)
  show ?thesis
  proof (rule settlement_run [of "demo_deps ''dual_shadow''" "demo_service st NewDevLedger" "''t1''" "''2026-01''",
          OF ledgerClient_demo _ _ _ _ _ refl _ refl, where ord = "[]"])
    fix sv' rec
    assume "handleSettlementRecon (demo_deps ''dual_shadow'') demo_env [] (Some (''2026-01'', ''t1''))
        (demo_service st NewDevLedger) = (sv', Reply 201 (SettledAs rec))" "io (svStore sv') = []"
      and "\<forall>r. Some r \<in> set (receiptsLog (svStore sv')) \<longrightarrow> Some r \<in> set (receiptsLog (svStore (demo_service st NewDevLedger))) \<or>
        (\<exists>i q. receipts (svStore (demo_service st NewDevLedger)) i = Some q \<and> rcID r = rcID q)"
    then show thesis by (intro that) (auto simp: demo_service_def st ids split: if_splits)
  qed (simp_all add: demo_service_def st unflagged_NewDevLedger GetSettledPeriod_def keyed_def ids L demo_aggregate
      supplement_no_def demo_legs)
qed

lemma demo_run:
  obtains sv' rec where "handleSettlementRecon (demo_deps ''dual_shadow'') demo_env [] (Some (''2026-01'', ''t1''))
    (demo_service demo_store NewDevLedger) = (sv', Reply 201 (SettledAs rec))"
  by (rule demo_run_from) auto

theorem settlement_idempotent_witness:
  "\<exists>sv' r r'. handleSettlementRecon (demo_deps ''dual_shadow'') demo_env [] (Some (''2026-01'', ''t1''))
       (demo_service demo_store NewDevLedger) = (sv', Reply 201 r) \<and>
     handleSettlementRecon (demo_deps ''dual_shadow'') demo_env [] (Some (''2026-01'', ''t1'')) sv' = (sv', Reply 200 r')"
proof -
  obtain sv' rec where run: "handleSettlementRecon (demo_deps ''dual_shadow'') demo_env [] (Some (''2026-01'', ''t1''))
    (demo_service demo_store NewDevLedger) = (sv', Reply 201 (SettledAs rec))" by (rule demo_run)
  show ?thesis
    using run settlement_idempotent [OF run] by (auto simp: demo_service_def demo_marker demo_keyed)
qed



text \<open>C13. A settlement run counts every receipt it owes for once: in every service reached by
  requests from a start on a log in which each sale has one record (or several of which the last
  is stamped as settled, as in the logs that log_stays_sound is about), with any ledger client, cache and disk failures, a run for a tenant that
  is answered 201 reports the number and the VAT of the tenant's stored receipts of the period
  that are not settled, and its federal, state and local-government parts add up to that VAT,
  all in 64-bit arithmetic.\<close>

theorem settlement_conserves_vat:
  assumes "svStore sv0 = NewStore fits rlog torn slog spool faults" "sound_log (takeWhile fits rlog)"
    and "(pos_step dp)\<^sup>*\<^sup>* sv0 sv" "tenant \<noteq> ''''"
    and "handleSettlementRecon dp env ord (Some (period, tenant)) sv = (sv', Reply 201 (SettledAs rec))"
    and "U = {r. (\<exists>i. receipts (svStore sv) i = Some r) \<and> rcTenantID r = tenant \<and> prefix period (CapturedAt r) \<and> SettledIn r = ''''}"
  shows "recReceipts rec = card U \<and> recVATKobo rec = wrap64 (\<Sum>r\<in>U. VATKobo r) \<and>
    wrap64 (recFederalKobo rec + recStateKobo rec + recLGAKobo rec) = wrap64 (\<Sum>r\<in>U. VATKobo r)"
proof -
  have "books (svStore sv)"
    using bk.reached [OF assms(3)] by (simp add: assms(1) books_NewStore [OF assms(2)])
  from settled_sums [OF this assms(4,5)] show ?thesis by (simp add: assms(6) owed_def)
qed

text \<open>Such logs are the ones the service writes while the disk serves every request: a service
  started on one leaves one behind, from the empty log of the first start on.\<close>

theorem log_stays_sound:
  assumes "svStore sv0 = NewStore fits rlog False slog spool []" "sound_log rlog" "\<forall>l\<in>set rlog. fits l" "(pos_step dp)\<^sup>*\<^sup>* sv0 sv"
  shows "sound_log (receiptsLog (svStore sv)) \<and> receipts (svStore sv) = log_view (receiptsLog (svStore sv))"
  using ex.reached [OF assms(4)] exact_NewStore [OF assms(2,3)] by (simp add: assms(1) exact_def)

theorem log_stays_sound_witness: "sound_log (receiptsLog (svStore (demo_service fresh_store NewDevLedger)))"
  using log_stays_sound [of "demo_service fresh_store NewDevLedger" "\<lambda>_. True" "[]" "[]" "[]" "demo_deps ''federal''", OF _ sound_log_Nil _ rtranclp.rtrancl_refl]
  by (simp add: demo_service_def)

lemma demo_sound: "sound_log [Some demo_receipt]"
  using demo_attributed by (auto simp: sound_log_def records_def List.map_filter_simps)

theorem settlement_conserves_vat_witness:
  "\<exists>sv' rec. handleSettlementRecon (demo_deps ''dual_shadow'') demo_env [] (Some (''2026-01'', ''t1''))
      (demo_service (reopen (\<lambda>_. True) demo_store) NewDevLedger) = (sv', Reply 201 (SettledAs rec)) \<and>
    recReceipts rec = 1 \<and> recVATKobo rec = 7500 \<and> wrap64 (recFederalKobo rec + recStateKobo rec + recLGAKobo rec) = 7500"
proof -
  let ?st = "reopen (\<lambda>_. True) demo_store"
  obtain sv' rec where run: "handleSettlementRecon (demo_deps ''dual_shadow'') demo_env [] (Some (''2026-01'', ''t1''))
    (demo_service ?st NewDevLedger) = (sv', Reply 201 (SettledAs rec))" by (rule demo_run_from [of ?st]) auto
  have start: "svStore (demo_service ?st NewDevLedger) =
      NewStore (\<lambda>_. True) [Some demo_receipt] False (settledLog demo_store) (spoolDir demo_store) []"
    by (simp add: demo_service_def reopen_def demo_store_fields)
  have "{r. (\<exists>i. receipts ?st i = Some r) \<and> rcTenantID r = ''t1'' \<and> prefix ''2026-01'' (CapturedAt r) \<and> SettledIn r = ''''} = {demo_receipt}"
    by (auto simp: demo_reopen demo_store_fields split: if_splits) (simp_all add: demo_receipt_def demo_request_def Receipt.truncate_def)
  with settlement_conserves_vat [OF start _ rtranclp.rtrancl_refl _ run refl] demo_sound run show ?thesis
    by (auto simp: demo_service_def demo_vat wrap64_id in64_def)
qed

text \<open>A settlement that reports success has every leg with a positive amount posted in the
  ledger, whatever was there before.\<close>

theorem settlement_success_posts_every_leg:
  assumes "ledgerClient dp = devClient"
    and "settlePeriod dp now tenant period m federal state lga reconID supp (st, d) = ((st', d'), Inr ())"
    and "\<forall>sp. GetSettledPeriod tenant period st = Some sp \<longrightarrow> spTenantID sp = tenant \<and> spPeriod sp = period"
    and "g \<in> set (settle_leg_list dp tenant period supp federal state lga)" "0 < legAmount g"
    and "\<forall>h\<in>set (settle_leg_list dp tenant period supp federal state lga). legPendID h \<noteq> ''''"
  shows "is_posted d' (legPendID g) \<and> (\<exists>sp. GetSettledPeriod tenant period st' = Some sp \<and> spStatus sp = ''settled'')"
proof (rule settlePeriod_ok [OF assms(2,3)])
  fix sp
  let ?legs = "settle_leg_list dp tenant period supp federal state lga"
  assume "settle_legs dp tenant period m ?legs ?legs [] d = (d', LegsDone)"
    and sp: "GetSettledPeriod tenant period st' = Some sp" "spStatus sp = ''settled''"
  with dev.settle_legs_posted [OF assms(1)] assms(4-6) show ?thesis
    by (auto simp: dev.leg_posted_iff [symmetric])
qed

theorem settlement_success_posts_every_leg_witness:
  "\<exists>st' d'. settlePeriod (demo_deps ''dual_shadow'') ''now'' ''t1'' ''2026-01'' (pool NSVATLGAPool) 0 25 0 ''r'' 0
      (fresh_store, NewDevLedger) = ((st', d'), Inr ()) \<and>
    is_posted d' (pend_id (demo_deps ''dual_shadow'') ''t1'' ''2026-01'' ''state'' 0)"
proof -
  let ?dp = "demo_deps ''dual_shadow''" and ?gs = "settle_leg_list (demo_deps ''dual_shadow'') ''t1'' ''2026-01'' 0 0 25 0"
  have ready: "\<forall>g\<in>set ?gs. leg_ready (pool NSVATLGAPool) NewDevLedger g"
    using pools_open by (simp add: settle_leg_list_def pend_id_def settle_suffix_def demo_deps_def leg_ready_def no_transfers)
  obtain st' d' where run: "settlePeriod ?dp ''now'' ''t1'' ''2026-01'' (pool NSVATLGAPool) 0 25 0 ''r'' 0
      (fresh_store, NewDevLedger) = ((st', d'), Inr ())"
    by (rule settlePeriod_done [of ?dp "fresh_store" NewDevLedger "pool NSVATLGAPool" "''t1''" "''2026-01''", OF _ _ _ _ _ refl])
      (use pools_open ready in \<open>simp_all add: ledgerClient_demo demo_new unflagged_NewDevLedger GetSettledPeriod_def demo_legs\<close>)
  show ?thesis
    using run settlement_success_posts_every_leg [OF _ run, of "?gs ! 1"]
    by (auto simp: ledgerClient_demo demo_new GetSettledPeriod_def settle_leg_list_def pend_id_def demo_deps_def)
qed

text \<open>C40. Receipts that arrive after a settlement and a restart are stamped as settled without
  being paid, on every ledger that outlives the process. The marker of a settled period is
  written to disk and never read back; after the restart the next run reuses the transfer ids of
  the first settlement, the ledger reports the three legs as posted, and the run is answered 201,
  opens the merchant account as before, books nothing and stamps the late receipt. The ledger
  keeps posted transfers and its account creation leaves transfers alone; the transfer ids are
  not empty, the first run paid all three legs, and the disk served it.\<close>

theorem late_receipts_stamped_unpaid:
  assumes "ledger_client L" "ledgerClient dp = L"
    and "\<And>i l. lcGetTransfer L i (lcCreateAccounts L [merchant_acct] l) = lcGetTransfer L i l"
    and "\<And>name. pend_id dp tenant period name 0 \<noteq> ''''"
    and "handleSettlementRecon dp env ord (Some (period, tenant)) sv = (sv1, Reply 201 (SettledAs rec))"
    and "GetSettledPeriod tenant period (svStore sv) = None"
    and "0 < recFederalKobo rec" "0 < recStateKobo rec" "0 < recLGAKobo rec" "io (svStore sv1) = []"
    and "receipts (reopen fits (svStore sv1)) (rcID late) = None" "rcTenantID late = tenant" "tenant \<noteq> ''''"
    and "prefix period (CapturedAt late)" "SettledIn late = ''''"
    and "svStore sv2 = fst (PutReceipt late (reopen fits (svStore sv1)))" "svLedger sv2 = svLedger sv1"
  shows "\<exists>sv3 rec3 r. handleSettlementRecon dp env' ord (Some (period, tenant)) sv2 = (sv3, Reply 201 (SettledAs rec3)) \<and>
    svLedger sv3 = lcCreateAccounts L [merchant_acct] (svLedger sv1) \<and>
    receipts (svStore sv3) (rcID late) = Some r \<and> SettledIn r = settledKey tenant period"
  by (rule late_after_restart [OF assms])

definition demo_late :: Receipt where
  "demo_late = demo_receipt\<lparr>rcID := ''r2''\<rparr>"

theorem late_receipts_stamped_unpaid_witness:
  "\<exists>sv1 rec sv3 rec3 r. handleSettlementRecon (demo_deps ''dual_shadow'') demo_env [] (Some (''2026-01'', ''t1''))
      (demo_service demo_store NewDevLedger) = (sv1, Reply 201 (SettledAs rec)) \<and> recVATKobo rec = 7500 \<and>
    handleSettlementRecon (demo_deps ''dual_shadow'') demo_env [] (Some (''2026-01'', ''t1''))
      (sv1\<lparr>svStore := fst (PutReceipt demo_late (reopen (\<lambda>_. True) (svStore sv1)))\<rparr>) = (sv3, Reply 201 (SettledAs rec3)) \<and>
    posted_totals (svLedger sv3) (pool NSVATStatePool) = posted_totals (svLedger sv1) (pool NSVATStatePool) \<and>
    receipts (svStore sv3) ''r2'' = Some r \<and> SettledIn r = ''t1|2026-01''"
proof -
  let ?dp = "demo_deps ''dual_shadow''"
  obtain sv1 rec where run: "handleSettlementRecon ?dp demo_env [] (Some (''2026-01'', ''t1''))
      (demo_service demo_store NewDevLedger) = (sv1, Reply 201 (SettledAs rec))" "io (svStore sv1) = []"
    and lg: "\<forall>r. Some r \<in> set (receiptsLog (svStore sv1)) \<longrightarrow> rcID r = ''r1''" by (rule demo_run_from) auto
  have f: "recVATKobo rec = 7500" "recFederalKobo rec = 750" "recStateKobo rec = 4125" "recLGAKobo rec = 2625"
    using recon_reply_fields [OF run(1)] by (simp_all add: demo_service_def demo_list demo_aggregate)
  have fresh: "receipts (reopen (\<lambda>_. True) (svStore sv1)) ''r2'' = None"
  proof (rule ccontr)
    assume "receipts (reopen (\<lambda>_. True) (svStore sv1)) ''r2'' \<noteq> None"
    then obtain r where "log_view (receiptsLog (svStore sv1)) ''r2'' = Some r" using run(2) by (auto simp: reopen_receipts)
    then show False using lg log_view_line log_view_keyed by (fastforce simp: indexed_lines_def List.map_filter_def)
  qed
  let ?sv2 = "sv1\<lparr>svStore := fst (PutReceipt demo_late (reopen (\<lambda>_. True) (svStore sv1)))\<rparr>"
  have "\<exists>sv3 rec3 r. handleSettlementRecon ?dp demo_env [] (Some (''2026-01'', ''t1'')) ?sv2 = (sv3, Reply 201 (SettledAs rec3)) \<and>
      svLedger sv3 = lcCreateAccounts devClient [merchant_acct] (svLedger sv1) \<and>
      receipts (svStore sv3) (rcID demo_late) = Some r \<and> SettledIn r = settledKey ''t1'' ''2026-01''"
    by (rule late_receipts_stamped_unpaid [OF dev.ledger_client_axioms ledgerClient_demo _ _ run(1) _ _ _ _ run(2), where fits = "\<lambda>_. True"])
      (use fresh in \<open>simp_all add: f pend_id_def demo_deps_def demo_service_def demo_marker demo_late_def demo_receipt_def
          demo_request_def Receipt.truncate_def GetTransfer_def CreateAccounts_def CreateAccount_def split: option.split\<close>)
  moreover have "posted_totals (lcCreateAccounts devClient [merchant_acct] l) (pool NSVATStatePool) = posted_totals l (pool NSVATStatePool)" for l
    using pool_accounts by (simp add: posted_totals_def CreateAccounts_def CreateAccount_def merchant_acct_def split: option.split)
  ultimately show ?thesis using run(1) f(1) by (auto simp: demo_late_def settledKey_def)
qed

section \<open>The ledger\<close>

text \<open>C5. In every ledger the service can produce, the pending totals of each account equal what
  the pending transfers hold, posted debits and credits balance, every transfer refers to
  existing accounts and is in exactly one of the states pending, posted and voided.\<close>

theorem ledger_reachable_sound:
  assumes "ledger_reach d"
  shows "ledger_inv d"
  using ledger_reach_inv [OF assms] by blast

theorem ledger_reachable_sound_witness:
  "ledger_inv (fst (PostPending ''p'' 7 (fst (PendingTransfer
      \<lparr>txID = ''p'', DebitAccountID = pool 1, CreditAccountID = pool 2, AmountKobo = 7, txLedger = 300, txCode = 5\<rparr> NewDevLedger))))"
  by (intro ledger_reachable_sound ledger_reach.post ledger_reach.hold_funds ledger_reach.new) (simp_all add: in64_def)

text \<open>A post that the float constraint refuses leaves the ledger inconsistent: the reservation
  is released although the transfer stays pending.\<close>

theorem float_refusal_breaks_ledger:
  assumes "ledger_inv d" "snd (PostPending i amount d) = Inl FloatViolated"
  shows "\<not> ledger_inv (fst (PostPending i amount d))"
  using assms by (rule PostPending_float_breaks)


text \<open>A float account whose ten kobo are spent, with ten more reserved: the post is refused.\<close>

definition demo_float :: DevLedger where
  "demo_float = \<lparr>accounts =
     [''f'' \<mapsto> \<lparr>accID = ''f'', accLedger = 300, accCode = 4, accFlags = float_flag,
                debitsPosted = 10, creditsPosted = 10, debitsPending = 10, creditsPending = 0\<rparr>,
      ''x'' \<mapsto> \<lparr>accID = ''x'', accLedger = 300, accCode = 5, accFlags = '''',
                debitsPosted = 10, creditsPosted = 10, debitsPending = 0, creditsPending = 10\<rparr>],
     transfers = [''q'' \<mapsto> \<lparr>txID = ''q'', DebitAccountID = ''f'', CreditAccountID = ''x'', AmountKobo = 10,
                txLedger = 300, txCode = 5, pending = True, voided = False, posted = False\<rparr>], seq = 0\<rparr>"

lemma demo_float_refused: "snd (PostPending ''q'' 10 demo_float) = Inl FloatViolated"
  by (simp add: demo_float_def PostPending_def checkFloat_def float_flag_def add64_def wrap64_def Let_def)

lemma demo_float_inv: "ledger_inv demo_float"
  by (simp add: ledger_inv_def demo_float_def held_def msum_upd transfer_ok_def in64_def wrap64_def)

theorem float_refusal_breaks_ledger_witness: "\<not> ledger_inv (fst (PostPending ''q'' 10 demo_float))"
  by (rule float_refusal_breaks_ledger [OF demo_float_inv demo_float_refused])


section \<open>The store\<close>


lemma demo_put_step: "store_step fresh_store demo_store"
  unfolding demo_store_def by (rule store_step.put) (simp add: demo_receipt_def)


text \<open>A write that fails half-way loses the next receipt: the service refuses the first one, appends
  the second to the torn line and acknowledges it; the line does not decode on the next start.\<close>

theorem torn_write_loses_next:
  assumes "logOpen st" "\<not> logTorn st" "io st = [IoTorn]" "rcID r1 \<noteq> rcID r2"
    "receipts st (rcID r1) = None" "receipts st (rcID r2) = None" "\<forall>r. Some r \<in> set (receiptsLog st) \<longrightarrow> rcID r \<noteq> rcID r2"
  shows "snd (PutReceipt r1 st) = Inl WriteFailed \<and>
    (snd (PutReceipt r2 (fst (PutReceipt r1 st))) = Inr () \<and>
     receipts (reopen fits (fst (PutReceipt r2 (fst (PutReceipt r1 st))))) (rcID r2) = None)"
proof -
  let ?s1 = "st\<lparr>io := [], logTorn := True\<rparr>"
  let ?s2 = "fst (PutReceipt r2 ?s1)"
  have p1: "PutReceipt r1 st = (?s1, Inl WriteFailed)"
    using assms(1-3,5) by (simp add: PutReceipt_def log_write_def io_step_def tears_def)
  have p2: "snd (PutReceipt r2 ?s1) = Inr ()" "receiptsLog ?s2 = receiptsLog st @ [None]"
    using assms(1,6) by (simp_all add: PutReceipt_def log_write_def io_step_def flushLocked_def log_sync_def Let_def)
  have "receipts (reopen fits ?s2) (rcID r2) = None"
  proof (rule ccontr)
    assume "receipts (reopen fits ?s2) (rcID r2) \<noteq> None"
    then obtain q where q: "log_view (takeWhile fits (receiptsLog st @ [None])) (rcID r2) = Some q"
      by (auto simp: reopen_def NewStore_receipts p2 split: if_splits)
    from log_view_line [OF q] have "Some q \<in> set (receiptsLog st)"
      by (auto simp: indexed_lines_def List.map_filter_def dest: set_takeWhileD)
    with log_view_keyed [OF q] assms(7) show False by blast
  qed
  with p1 p2 show ?thesis by simp
qed

text \<open>Group commit: while the disk serves every request, fewer than \<open>syncHighWater\<close> log
  records are ever waiting for an fsync.\<close>

theorem group_commit_window:
  assumes "store_step\<^sup>*\<^sup>* (NewStore fits rlog torn slog spool []) st"
  shows "length (receiptsLog st) - durable st < syncHighWater \<and> durable st \<le> length (receiptsLog st)"
proof -
  have "commit_inv st"
    using assms by (induction rule: rtranclp_induct) (auto intro: commit_NewStore store_step_commit)
  then show ?thesis by (auto simp: commit_inv_def)
qed

theorem group_commit_window_witness:
  "length (receiptsLog demo_store) - durable demo_store < syncHighWater"
proof -
  have "store_step\<^sup>*\<^sup>* fresh_store demo_store" using demo_put_step by blast
  from group_commit_window [OF this] show ?thesis by blast
qed

section \<open>Ingest\<close>



text \<open>A receipt whose processing failed cannot be retried for seven days: the failed attempt
  keeps the idempotency key, so the same request is answered 409 although nothing is in
  progress, even if the cause of the failure is gone.\<close>

theorem failed_ingest_blocks_retry:
  assumes "cacheClient dp = memCache" "cacheClient dp' = memCache" "hmac16 dp' = hmac16 dp"
    and "handleIngestReceipt dp env (Some req) sv = (sv', Problem 422 ''processing failed'')"
    and "nowNanos env \<le> nowNanos env'" "nowNanos env' < nowNanos env + sevenDays"
  shows "snd (handleIngestReceipt dp' env' (Some req) sv') = Problem 409 ''conflict''"
  using assms by (rule ingest_failed_then_conflict)

lemma demo_geo_failure:
  "\<exists>sv'. handleIngestReceipt (demo_deps ''federal'') demo_env (Some (demo_request ''R1'' 0))
      (demo_service fresh_store NewDevLedger) = (sv', Problem 422 ''processing failed'')"
  by (simp add: handleIngestReceipt_def processReceipt_def demo_simps demo_new GetReceipt_def memCache_def SetNX_def Let_def)

theorem failed_ingest_blocks_retry_witness:
  "\<exists>sv'. handleIngestReceipt (demo_deps ''federal'') demo_env (Some (demo_request ''R1'' 0))
      (demo_service fresh_store NewDevLedger) = (sv', Problem 422 ''processing failed'') \<and>
    snd (handleIngestReceipt (demo_deps ''federal'') demo_env (Some (demo_request ''R1'' 0)) sv') = Problem 409 ''conflict''"
proof -
  obtain sv' where f: "handleIngestReceipt (demo_deps ''federal'') demo_env (Some (demo_request ''R1'' 0))
      (demo_service fresh_store NewDevLedger) = (sv', Problem 422 ''processing failed'')"
    using demo_geo_failure by blast
  have "snd (handleIngestReceipt (demo_deps ''federal'') demo_env (Some (demo_request ''R1'' 0)) sv') = Problem 409 ''conflict''"
    by (rule failed_ingest_blocks_retry [OF _ _ _ f]) (simp_all add: demo_deps_def sevenDays_def)
  with f show ?thesis by blast
qed

text \<open>Draining the spool loses no receipt: every spooled entry is afterwards either still in
  the spool or its receipt is in the store.\<close>

theorem spool_drain_loses_nothing:
  assumes "distinct (map spoolID (spoolDir (svStore sv)))" "e \<in> set (spoolDir (svStore sv))"
  shows "entry_safe dp e (svStore (fst (handleSpoolDrain dp env sv)))"
  using assms by (rule drain_safe)

definition demo_entry :: SpoolEntry where
  "demo_entry = \<lparr>spoolID = ''s1'', QueuedAt = ''2026-01-05'', spoolReason = ''offline-terminal'', Payload = Some demo_receipt\<rparr>"

theorem spool_drain_loses_nothing_witness:
  "entry_safe (demo_deps ''federal'') demo_entry
     (svStore (fst (handleSpoolDrain (demo_deps ''federal'') demo_env (demo_service (demo_store\<lparr>spoolDir := [demo_entry]\<rparr>) NewDevLedger))))"
  by (rule spool_drain_loses_nothing) (simp_all add: demo_service_def)

section \<open>Amounts\<close>

text \<open>A processed receipt adds up: its total is the sum of the line amounts, its VAT the sum of
  the rounded VAT of the standard-rated lines, the three baskets partition the total, and the
  federal, state and LGA parts of the attribution sum to the VAT.\<close>

theorem processed_receipt_adds_up:
  assumes "processReceipt dp ps now rc idem st = (st', Inr out)"
  shows "TotalKobo out = sum64 line_amount (Lines rc) \<and>
    VATKobo out = sum64 (\<lambda>ln. roundBpsHalfUp (line_amount ln) (StandardRateBPS ps))
       (filter (\<lambda>ln. BasketFor ps (Category ln) = ''standard_75'') (Lines rc)) \<and>
    basket_sum (Baskets out) = TotalKobo out \<and> attributed out"
  using processReceipt_amounts [OF assms] processed_attributed [OF assms] by blast

lemma demo_processed:
  "\<exists>st' out. processReceipt (demo_deps ''dual_shadow'') Map.empty ''now'' (Receipt.truncate (demo_request ''R1'' 1)) ''key''
     fresh_store = (st', Inr out)"
  by (simp add: processReceipt_def demo_simps demo_new PutReceipt_def log_write_def io_step_def Let_def syncHighWater_def)

theorem processed_receipt_adds_up_witness:
  "\<exists>st' out. processReceipt (demo_deps ''dual_shadow'') Map.empty ''now'' (Receipt.truncate (demo_request ''R1'' 1)) ''key''
     fresh_store = (st', Inr out) \<and> basket_sum (Baskets out) = TotalKobo out \<and> attributed out"
  using demo_processed processed_receipt_adds_up by blast

text \<open>The statutory split of a non-negative VAT: 10 and 55 per cent rounded half up, the
  local-government part the remainder; the remainder is never negative and nothing is lost.\<close>

theorem statutory_split_exact:
  assumes "0 \<le> vat" "vat * 5500 + 5000 < 2 ^ 63" "mode \<noteq> ''federal''"
  shows "FederalKobo (computeAttribution vat state (statutory mode)) = (vat * 1000 + 5000) div 10000 \<and>
    StateKobo (computeAttribution vat state (statutory mode)) = (vat * 5500 + 5000) div 10000 \<and>
    FederalKobo (computeAttribution vat state (statutory mode)) + StateKobo (computeAttribution vat state (statutory mode)) +
      LGAKobo (computeAttribution vat state (statutory mode)) = vat \<and>
    0 \<le> LGAKobo (computeAttribution vat state (statutory mode))"
  using statutory_split [OF assms, of state] share_bounds [OF assms(1)] by simp

theorem statutory_split_exact_witness:
  "FederalKobo (computeAttribution 7 ''Lagos'' (statutory ''dual_shadow'')) = 1 \<and>
   StateKobo (computeAttribution 7 ''Lagos'' (statutory ''dual_shadow'')) = 4"
  using statutory_split_exact [of 7 "''dual_shadow''" "''Lagos''"] by simp

text \<open>The certification run accepts the basket of every line of a receipt the service itself
  processed under the same packs, as long as the line amounts and their sum do not overflow.\<close>

theorem certification_accepts_processed:
  assumes "processReceipt dp ps now rc idem st = (st', Inr out)"
    and "\<forall>ln\<in>set (Lines rc). 0 \<le> line_amount ln" "in64 (\<Sum>ln\<leftarrow>Lines rc. line_amount ln)"
    and "ln \<in> set (Lines rc)"
  shows "cert_line ps out ln = []"
  using assms by (rule cert_processed)

theorem certification_accepts_processed_witness:
  "\<exists>st' out. processReceipt (demo_deps ''dual_shadow'') Map.empty ''now'' (Receipt.truncate (demo_request ''R1'' 1)) ''key''
     fresh_store = (st', Inr out) \<and> cert_line Map.empty out (hd (Lines (demo_request ''R1'' 1))) = []"
proof -
  obtain st' out where p: "processReceipt (demo_deps ''dual_shadow'') Map.empty ''now'' (Receipt.truncate (demo_request ''R1'' 1)) ''key''
     fresh_store = (st', Inr out)" using demo_processed by blast
  have "cert_line Map.empty out (hd (Lines (demo_request ''R1'' 1))) = []"
    by (rule certification_accepts_processed [OF p])
      (simp_all add: demo_request_def Receipt.truncate_def line_amount_def mul64_exact quot64_nonneg in64_def)
  with p show ?thesis by blast
qed

text \<open>The variance report flags correct receipts: it compares the VAT with the federal and
  state parts only, so under the statutory split every receipt of VAT 6 kobo or more, although
  fully attributed, is reported as an attribution mismatch.\<close>

theorem variance_flags_correct_receipts:
  assumes "6 \<le> VATKobo rc" "VATKobo rc * 5500 + 5000 < 2 ^ 63" "mode \<noteq> ''federal''"
    and "Attribution rc = computeAttribution (VATKobo rc) state (statutory mode)"
  shows "attributed rc \<and> (\<exists>row\<in>set (variance_rows rate rc). vrKind row = ''attribution-sum-mismatch'')"
  using assms by (rule variance_flags_attributed)

theorem variance_flags_correct_receipts_witness:
  "attributed demo_receipt \<and> (\<exists>row\<in>set (variance_rows 750 demo_receipt). vrKind row = ''attribution-sum-mismatch'')"
  by (rule variance_flags_correct_receipts [of _ "''dual_shadow''" "''Lagos''"]) (simp_all add: demo_receipt_def)

end
