(* ===== verification/Einv_Model.thy ===== *)
theory Einv_Model
  imports Rule_Citations Pos_Receipts
begin

text \<open>
  The canonical invoice of the e-invoicing service (\<^verbatim>\<open>services/einvoicing/model.go\<close>,
  \<^verbatim>\<open>citations.go\<close>): the data model, normalisation with its integer VAT, the consistency check
  of the totals, the locked core of an invoice and the context handed to the rule packs.

  A \<^verbatim>\<open>time.Time\<close> is an optional number of nanoseconds (\<open>None\<close>: the zero time). The digests
  behind \<^verbatim>\<open>CoreHash\<close> and \<^verbatim>\<open>Hash\<close> are parameters, functions of exactly the fields that the
  code encodes. Money is integer kobo in 64 bits.
\<close>

section \<open>Data\<close>

record Party =
  ptTIN :: string
  ptName :: string
  ptAddress :: string
  ptCity :: string
  ptState :: string
  ptCountry :: string
  ptEmail :: string

record InvoiceLine =
  ilID :: string
  ilDescription :: string
  QuantityMilli :: int64
  UnitPriceKobo :: int64
  LineTotalKobo :: int64
  VatCategory :: string
  ilVatRateBps :: int64
  VatAmountKobo :: int64
  ilCitations :: "Citation list"

record CryptoStamp =
  stAlgorithm :: string
  stKeyID :: string
  stIRN :: string
  stPayload :: string
  stSignature :: string
  StampedAt :: string

record AuditEntry =
  auAt :: string
  auAction :: string
  auDetail :: string
  auActor :: string

record Violation =
  vPack :: string
  vMessage :: string
  vSeverity :: string

record CanonicalInvoice =
  ciID :: string
  ciTenantID :: string
  InvoiceNumber :: string
  InvoiceType :: string
  IssueDate :: string
  DueDate :: string
  ciCurrency :: string
  Supplier :: Party
  Customer :: Party
  ciLines :: "InvoiceLine list"
  TaxExclusiveKobo :: int64
  TaxKobo :: int64
  PayableKobo :: int64
  ciStatus :: string
  IRN :: string
  ciStamp :: "CryptoStamp option"
  CSIDSignature :: string
  CSIDKeyID :: string
  ciIdempotencyKey :: string
  SourceAdapter :: string
  BusinessID :: string
  ServiceID :: string
  InvoiceTypeCode :: string
  PaymentStatus :: string
  PaymentReference :: string
  SignedCoreHash :: string
  NRSPayload :: string
  Audit :: "AuditEntry list"
  UBLXML :: string
  Validation :: "Violation list"
  CreatedAt :: "int option"
  UpdatedAt :: "int option"

text \<open>The fields under \<^verbatim>\<open>CoreHash\<close> and \<^verbatim>\<open>Hash\<close>.\<close>

record invoice_core =
  coNumber :: string
  coIssued :: string
  coDue :: string
  coTypeCode :: string
  coCurrency :: string
  coSupplier :: Party
  coCustomer :: Party
  coLines :: "InvoiceLine list"
  coExcl :: int64
  coTax :: int64
  coPayable :: int64

definition core_of :: "CanonicalInvoice \<Rightarrow> invoice_core" where
  "core_of iv = \<lparr>coNumber = InvoiceNumber iv, coIssued = IssueDate iv, coDue = DueDate iv,
     coTypeCode = InvoiceTypeCode iv, coCurrency = ciCurrency iv, coSupplier = Supplier iv, coCustomer = Customer iv,
     coLines = ciLines iv, coExcl = TaxExclusiveKobo iv, coTax = TaxKobo iv, coPayable = PayableKobo iv\<rparr>"

type_synonym digests = "(invoice_core \<Rightarrow> string) \<times> (string \<times> string \<times> string \<times> string \<times> int64 \<times> string \<Rightarrow> string)"

definition CoreHash :: "digests \<Rightarrow> CanonicalInvoice \<Rightarrow> string" where
  "CoreHash dg iv = fst dg (core_of iv)"

definition Hash :: "digests \<Rightarrow> CanonicalInvoice \<Rightarrow> string" where
  "Hash dg iv = snd dg (InvoiceNumber iv, IssueDate iv, ptTIN (Supplier iv), ptTIN (Customer iv), PayableKobo iv, ciCurrency iv)"

section \<open>Normalisation\<close>

definition RoundBpsHalfUp :: "int64 \<Rightarrow> int64 \<Rightarrow> int64" where
  "RoundBpsHalfUp amountKobo rateBps =
     (if amountKobo \<ge> 0 then quot64 (add64 (mul64 amountKobo rateBps) 5000) 10000
      else neg64 (quot64 (add64 (mul64 (neg64 amountKobo) rateBps) 5000) 10000))"

definition em_dash :: string where
  "em_dash = map (char_of :: nat \<Rightarrow> char) [0xE2, 0x80, 0x94]"

definition vatRuleByCategory :: "string \<rightharpoonup> string \<times> string" where
  "vatRuleByCategory = map_of
     [(''S'', ''vat.rate.standard'', ''VAT Act (as amended by Finance Act 2019), standard rate 7.5%''),
      (''Z'', ''vat.rate.zero'', ''Nigeria Tax Act 2025 s.187, zero-rated supplies (0%; input VAT recoverable)''),
      (''E'', ''vat.rate.exempt'', ''VAT Act, First Schedule '' @ em_dash @ '' exempt supplies (no input VAT recovery)'')]"

definition attach_citation :: "CitationResolver \<Rightarrow> InvoiceLine \<Rightarrow> InvoiceLine" where
  "attach_citation res l =
     (case vatRuleByCategory (VatCategory l) of
        None \<Rightarrow> l
      | Some (rule, citation) \<Rightarrow> l\<lparr>ilCitations := [Resolve res ''rp-vat-rates'' ''1.0.0'' rule citation]\<rparr>)"

definition normal_line :: "nat \<Rightarrow> InvoiceLine \<Rightarrow> InvoiceLine" where
  "normal_line i l =
     (let l1 = (if ilID l = '''' then l\<lparr>ilID := show_nat (i + 1)\<rparr> else l);
          l2 = (if VatCategory l1 = '''' then l1\<lparr>VatCategory := ''S''\<rparr> else l1);
          l3 = (if VatCategory l2 = ''S'' \<and> ilVatRateBps l2 = 0 then l2\<lparr>ilVatRateBps := 750\<rparr> else l2);
          l4 = (if LineTotalKobo l3 = 0 \<and> QuantityMilli l3 \<noteq> 0
                then l3\<lparr>LineTotalKobo := quot64 (mul64 (QuantityMilli l3) (UnitPriceKobo l3)) 1000\<rparr> else l3)
      in l4\<lparr>VatAmountKobo := RoundBpsHalfUp (LineTotalKobo l4) (ilVatRateBps l4)\<rparr>)"

definition default_country :: "Party \<Rightarrow> Party" where
  "default_country p = (if ptCountry p = '''' then p\<lparr>ptCountry := ''NG''\<rparr> else p)"

text \<open>\<open>ulid\<close> and \<open>today\<close>: the values of \<^verbatim>\<open>envelope.ULID()\<close> and of today's date at the call.\<close>

definition Normalise :: "CitationResolver \<Rightarrow> string \<Rightarrow> string \<Rightarrow> CanonicalInvoice \<Rightarrow> CanonicalInvoice" where
  "Normalise res ulid today iv =
     (let lines = map (\<lambda>(i, l). normal_line i l) (enumerate 0 (ciLines iv));
          excl = sum64 LineTotalKobo lines;
          tax = sum64 VatAmountKobo lines;
          iv1 = iv\<lparr>ciID := (if ciID iv = '''' then ulid else ciID iv),
                     ciCurrency := (if ciCurrency iv = '''' then ''NGN'' else ciCurrency iv),
                     InvoiceType := (if InvoiceType iv = '''' then ''B2B'' else InvoiceType iv),
                     IssueDate := (if IssueDate iv = '''' then today else IssueDate iv),
                     Supplier := default_country (Supplier iv), Customer := default_country (Customer iv),
                     ciLines := map (attach_citation res) lines,
                     TaxExclusiveKobo := (if TaxExclusiveKobo iv = 0 then excl else TaxExclusiveKobo iv),
                     TaxKobo := (if TaxKobo iv = 0 then tax else TaxKobo iv)\<rparr>
      in iv1\<lparr>PayableKobo := (if PayableKobo iv1 = 0 then add64 (TaxExclusiveKobo iv1) (TaxKobo iv1)
                               else PayableKobo iv1)\<rparr>)"

definition TotalsConsistent :: "CanonicalInvoice \<Rightarrow> bool" where
  "TotalsConsistent iv \<longleftrightarrow>
     sum64 LineTotalKobo (ciLines iv) = TaxExclusiveKobo iv \<and>
     PayableKobo iv = add64 (TaxExclusiveKobo iv) (TaxKobo iv)"

section \<open>The rule context\<close>

datatype ctx_val = CStr string | CInt int64 | CBool bool

text \<open>\<open>None\<close> is the index-out-of-range panic of \<^verbatim>\<open>keys[0]\<close> for an invoice without lines.\<close>

definition RuleContext :: "bool \<Rightarrow> CanonicalInvoice \<Rightarrow> (string \<times> ctx_val) list option" where
  "RuleContext duplicate iv =
     (let base = [(''invoice_number'', CStr (InvoiceNumber iv)), (''issue_date'', CStr (IssueDate iv)),
                  (''currency'', CStr (ciCurrency iv)), (''invoice_type'', CStr (InvoiceType iv)),
                  (''supplier_tin'', CStr (ptTIN (Supplier iv))), (''supplier_name'', CStr (ptName (Supplier iv))),
                  (''customer_tin'', CStr (ptTIN (Customer iv))), (''customer_name'', CStr (ptName (Customer iv))),
                  (''payable_amount_kobo'', CInt (PayableKobo iv)), (''line_count'', CInt (int (length (ciLines iv)))),
                  (''totals_consistent'', CBool (TotalsConsistent iv)), (''duplicate'', CBool duplicate)];
          tin = (if ptTIN (Supplier iv) \<noteq> ''''
                 then [(''supplier_tin_len'', CInt (int (length (TrimSpace (ptTIN (Supplier iv))))))] else []);
          maxRate = foldl (\<lambda>m l. if ilVatRateBps l > m then ilVatRateBps l else m) 0 (ciLines iv)
      in case sort (remdups (map VatCategory (ciLines iv))) of
           [] \<Rightarrow> None
         | c # _ \<Rightarrow> Some (base @ tin @ [(''vat_rate_bps'', CInt maxRate), (''vat_category'', CStr c)]))"

section \<open>Lemmas\<close>

text \<open>The two services round alike.\<close>

lemma RoundBpsHalfUp_pos: "RoundBpsHalfUp = roundBpsHalfUp"
  by (simp add: fun_eq_iff RoundBpsHalfUp_def roundBpsHalfUp_def)

lemma attach_citation_simps [simp]:
  "LineTotalKobo (attach_citation res l) = LineTotalKobo l" "VatAmountKobo (attach_citation res l) = VatAmountKobo l"
  "VatCategory (attach_citation res l) = VatCategory l"
  by (simp_all add: attach_citation_def split: option.split prod.split)

lemma sum64_map: "sum64 f (map g xs) = sum64 (\<lambda>x. f (g x)) xs"
  by (simp add: sum64_eq comp_def)

lemma Normalise_lines:
  "ciLines (Normalise res ulid today iv) = map (attach_citation res) (map (\<lambda>(i, l). normal_line i l) (enumerate 0 (ciLines iv)))"
  by (simp add: Normalise_def Let_def)

text \<open>An invoice that declares no totals gets consistent ones.\<close>

lemma Normalise_consistent:
  assumes "TaxExclusiveKobo iv = 0" "PayableKobo iv = 0"
  shows "TotalsConsistent (Normalise res ulid today iv)"
  using assms by (simp add: TotalsConsistent_def Normalise_def Let_def sum64_map)

text \<open>A line that needs no default and carries its own VAT is left as it is.\<close>

definition line_normal :: "InvoiceLine \<Rightarrow> bool" where
  "line_normal l \<longleftrightarrow> ilID l \<noteq> '''' \<and> VatCategory l \<noteq> '''' \<and> (VatCategory l = ''S'' \<longrightarrow> ilVatRateBps l \<noteq> 0) \<and>
     (LineTotalKobo l = 0 \<and> QuantityMilli l \<noteq> 0 \<longrightarrow> quot64 (mul64 (QuantityMilli l) (UnitPriceKobo l)) 1000 = 0) \<and>
     VatAmountKobo l = RoundBpsHalfUp (LineTotalKobo l) (ilVatRateBps l)"

lemma normal_line_fix: "line_normal l \<Longrightarrow> normal_line i l = l"
  by (cases "LineTotalKobo l = 0 \<and> QuantityMilli l \<noteq> 0") (auto simp: line_normal_def normal_line_def Let_def)

lemma normal_line_fields:
  "ilID (normal_line i l) = (if ilID l = '''' then show_nat (i + 1) else ilID l)"
  "VatCategory (normal_line i l) = (if VatCategory l = '''' then ''S'' else VatCategory l)"
  "QuantityMilli (normal_line i l) = QuantityMilli l" "UnitPriceKobo (normal_line i l) = UnitPriceKobo l"
  "ilVatRateBps (normal_line i l) = (if VatCategory l \<in> {'''', ''S''} \<and> ilVatRateBps l = 0 then 750 else ilVatRateBps l)"
  "LineTotalKobo (normal_line i l) = (if LineTotalKobo l = 0 \<and> QuantityMilli l \<noteq> 0
     then quot64 (mul64 (QuantityMilli l) (UnitPriceKobo l)) 1000 else LineTotalKobo l)"
  "VatAmountKobo (normal_line i l) = RoundBpsHalfUp (LineTotalKobo (normal_line i l)) (ilVatRateBps (normal_line i l))"
  by (auto simp: normal_line_def Let_def)

lemma line_normal_normal_line: "line_normal (attach_citation res (normal_line i l))"
proof -
  have a: "ilID (attach_citation res m) = ilID m" "QuantityMilli (attach_citation res m) = QuantityMilli m"
    "UnitPriceKobo (attach_citation res m) = UnitPriceKobo m" "ilVatRateBps (attach_citation res m) = ilVatRateBps m" for m
    by (simp_all add: attach_citation_def split: option.split prod.split)
  show ?thesis unfolding line_normal_def a attach_citation_simps by (auto simp: normal_line_fields)
qed

lemma attach_citation_idem [simp]: "attach_citation res (attach_citation res l) = attach_citation res l"
  by (simp add: attach_citation_def split: option.split prod.split)

lemma normal_lines_idem:
  "map (\<lambda>(i, l). normal_line i l) (enumerate n (map (attach_citation res) (map (\<lambda>(i, l). normal_line i l) (enumerate n ls))))
     = map (attach_citation res) (map (\<lambda>(i, l). normal_line i l) (enumerate n ls))"
  by (induction ls arbitrary: n) (simp_all add: normal_line_fix line_normal_normal_line)

lemma default_country_idem [simp]: "default_country (default_country p) = default_country p"
  by (simp add: default_country_def)

definition normal_lines :: "CanonicalInvoice \<Rightarrow> InvoiceLine list" where
  "normal_lines iv = map (\<lambda>(i, l). normal_line i l) (enumerate 0 (ciLines iv))"

lemma Normalise_fields [simp]:
  "ciID (Normalise res ulid today iv) = (if ciID iv = '''' then ulid else ciID iv)"
  "ciTenantID (Normalise res ulid today iv) = ciTenantID iv"
  "InvoiceNumber (Normalise res ulid today iv) = InvoiceNumber iv"
  "InvoiceType (Normalise res ulid today iv) = (if InvoiceType iv = '''' then ''B2B'' else InvoiceType iv)"
  "IssueDate (Normalise res ulid today iv) = (if IssueDate iv = '''' then today else IssueDate iv)"
  "DueDate (Normalise res ulid today iv) = DueDate iv"
  "ciCurrency (Normalise res ulid today iv) = (if ciCurrency iv = '''' then ''NGN'' else ciCurrency iv)"
  "Supplier (Normalise res ulid today iv) = default_country (Supplier iv)"
  "Customer (Normalise res ulid today iv) = default_country (Customer iv)"
  "ciLines (Normalise res ulid today iv) = map (attach_citation res) (normal_lines iv)"
  "TaxExclusiveKobo (Normalise res ulid today iv) = (if TaxExclusiveKobo iv = 0 then sum64 LineTotalKobo (normal_lines iv) else TaxExclusiveKobo iv)"
  "TaxKobo (Normalise res ulid today iv) = (if TaxKobo iv = 0 then sum64 VatAmountKobo (normal_lines iv) else TaxKobo iv)"
  "PayableKobo (Normalise res ulid today iv) = (if PayableKobo iv = 0
     then add64 (if TaxExclusiveKobo iv = 0 then sum64 LineTotalKobo (normal_lines iv) else TaxExclusiveKobo iv)
            (if TaxKobo iv = 0 then sum64 VatAmountKobo (normal_lines iv) else TaxKobo iv) else PayableKobo iv)"
  "ciStatus (Normalise res ulid today iv) = ciStatus iv" "IRN (Normalise res ulid today iv) = IRN iv"
  "ciStamp (Normalise res ulid today iv) = ciStamp iv" "CSIDSignature (Normalise res ulid today iv) = CSIDSignature iv"
  "CSIDKeyID (Normalise res ulid today iv) = CSIDKeyID iv" "ciIdempotencyKey (Normalise res ulid today iv) = ciIdempotencyKey iv"
  "SourceAdapter (Normalise res ulid today iv) = SourceAdapter iv" "BusinessID (Normalise res ulid today iv) = BusinessID iv"
  "ServiceID (Normalise res ulid today iv) = ServiceID iv" "InvoiceTypeCode (Normalise res ulid today iv) = InvoiceTypeCode iv"
  "PaymentStatus (Normalise res ulid today iv) = PaymentStatus iv" "PaymentReference (Normalise res ulid today iv) = PaymentReference iv"
  "SignedCoreHash (Normalise res ulid today iv) = SignedCoreHash iv" "NRSPayload (Normalise res ulid today iv) = NRSPayload iv"
  "Audit (Normalise res ulid today iv) = Audit iv" "UBLXML (Normalise res ulid today iv) = UBLXML iv"
  "Validation (Normalise res ulid today iv) = Validation iv" "CreatedAt (Normalise res ulid today iv) = CreatedAt iv"
  "UpdatedAt (Normalise res ulid today iv) = UpdatedAt iv"
  by (simp_all add: Normalise_def Let_def normal_lines_def)

text \<open>Normalising twice is normalising once, whatever fresh values the second call draws.\<close>

lemma Normalise_idem:
  assumes "ulid \<noteq> ''''" "today \<noteq> ''''"
  shows "Normalise res ulid' today' (Normalise res ulid today iv) = Normalise res ulid today iv"
proof -
  have again: "normal_lines (Normalise res ulid today iv) = map (attach_citation res) (normal_lines iv)"
    using normal_lines_idem [of 0 res "ciLines iv"]
    by (subst normal_lines_def) (simp add: normal_lines_def)
  show ?thesis
    by (rule CanonicalInvoice.equality)
      (use assms in \<open>simp_all add: again sum64_map comp_def\<close>)
qed

end
