(* ===== verification/Einv_Store.thy ===== *)
theory Einv_Store
  imports Einv_Model
begin

text \<open>
  The invoice store of the e-invoicing service (\<^verbatim>\<open>services/einvoicing/store.go\<close>): the
  append-only log, the in-memory indexes, the idempotency window with its payload binding,
  the Postgres uniqueness constraints and the purge of expired keys.

  \<open>SaveCtx\<close> takes the outcomes of its surroundings as the record \<open>save_env\<close> (clock, fault hook,
  the three file operations, the answer of Postgres) and returns the new store, the invoice
  as the caller's pointer sees it afterwards, the prior id and the error. Following an id of
  an index to a missing record would be a nil dereference in Go; \<open>store_ok\<close> excludes it, so
  the model reads such a record as absent.

  Shown: every operation keeps the indexes consistent, a restart rebuilds the same store, and
  within the replay window one idempotency key names one invoice.
\<close>

section \<open>Definitions\<close>

record InvoiceStore =
  byID :: "string \<rightharpoonup> CanonicalInvoice"
  byIdemKey :: "string \<rightharpoonup> string"
  bySuppNum :: "string \<rightharpoonup> string"
  byIRN :: "string \<rightharpoonup> string"
  isOrder :: "string list"
  invLog :: "CanonicalInvoice list"
  docs :: bool

datatype pg_result = PgOk | PgUnique string | PgError string

record save_env =
  saveNow :: int
  hookFault :: "string option"
  openOk :: bool
  writeOk :: bool
  syncOk :: bool
  pgPut :: pg_result

datatype save_error =
    FaultInjected string
  | IdempotentReplay
  | IdempotencyPayloadConflict
  | Conflict string
  | FileFailed
  | PgPersist string

definition idem_key :: "CanonicalInvoice \<Rightarrow> string" where
  "idem_key iv = ciTenantID iv @ ''|'' @ ciIdempotencyKey iv"

definition supp_key :: "CanonicalInvoice \<Rightarrow> string" where
  "supp_key iv = ciTenantID iv @ ''|'' @ ptTIN (Supplier iv) @ ''|'' @ InvoiceNumber iv"

definition index :: "CanonicalInvoice \<Rightarrow> InvoiceStore \<Rightarrow> InvoiceStore" where
  "index iv s =
     s\<lparr>isOrder := (if byID s (ciID iv) = None then isOrder s @ [ciID iv] else isOrder s),
       byID := (byID s)(ciID iv \<mapsto> iv),
       byIdemKey := (if ciIdempotencyKey iv \<noteq> '''' then (byIdemKey s)(idem_key iv \<mapsto> ciID iv) else byIdemKey s),
       bySuppNum := (if ptTIN (Supplier iv) \<noteq> '''' \<and> InvoiceNumber iv \<noteq> ''''
                     then (bySuppNum s)(supp_key iv \<mapsto> ciID iv) else bySuppNum s),
       byIRN := (if IRN iv \<noteq> '''' then (byIRN s)(IRN iv \<mapsto> ciID iv) else byIRN s)\<rparr>"

definition empty_store :: InvoiceStore where
  "empty_store = \<lparr>byID = Map.empty, byIdemKey = Map.empty, bySuppNum = Map.empty, byIRN = Map.empty,
     isOrder = [], invLog = [], docs = False\<rparr>"

definition load :: "InvoiceStore \<Rightarrow> InvoiceStore" where
  "load s = fold index (invLog s) s"

text \<open>\<^verbatim>\<open>NewInvoiceStore\<close> on a log file all of whose lines decode.\<close>

definition NewInvoiceStore :: "CanonicalInvoice list \<Rightarrow> InvoiceStore" where
  "NewInvoiceStore file = load (empty_store\<lparr>invLog := file\<rparr>)"

definition SetPG :: "CanonicalInvoice list \<Rightarrow> InvoiceStore \<Rightarrow> InvoiceStore" where
  "SetPG docsList s = fold index docsList (s\<lparr>docs := True\<rparr>)"

definition GetByIRN :: "string \<Rightarrow> InvoiceStore \<Rightarrow> CanonicalInvoice option" where
  "GetByIRN irn s = (case byIRN s irn of None \<Rightarrow> None | Some i \<Rightarrow> byID s i)"

definition GetInvoice :: "string \<Rightarrow> InvoiceStore \<Rightarrow> CanonicalInvoice option" where
  "GetInvoice i s = byID s i"

definition ListInvoices :: "InvoiceStore \<Rightarrow> CanonicalInvoice list" where
  "ListInvoices s = List.map_filter (byID s) (isOrder s)"

definition idempotencyTTL :: int where
  "idempotencyTTL = 7 * 24 * 3600 * 1000000000"

definition terminalInvoiceStatuses :: "string set" where
  "terminalInvoiceStatuses = {''reported'', ''failed''}"

definition idemMappingExpired :: "CanonicalInvoice \<Rightarrow> int \<Rightarrow> bool" where
  "idemMappingExpired iv now = (case CreatedAt iv of None \<Rightarrow> False | Some c \<Rightarrow> now - c > idempotencyTTL)"

definition stamp_times :: "int \<Rightarrow> CanonicalInvoice \<Rightarrow> CanonicalInvoice" where
  "stamp_times now iv = iv\<lparr>UpdatedAt := Some now, CreatedAt := (case CreatedAt iv of None \<Rightarrow> Some now | Some c \<Rightarrow> Some c)\<rparr>"

text \<open>The idempotency check: the prior id and the error, if the save is refused.\<close>

definition idem_refusal :: "digests \<Rightarrow> int \<Rightarrow> CanonicalInvoice \<Rightarrow> InvoiceStore \<Rightarrow> (string \<times> save_error) option" where
  "idem_refusal dg now iv s =
     (if ciIdempotencyKey iv = '''' then None
      else case byIdemKey s (idem_key iv) of
        None \<Rightarrow> None
      | Some i \<Rightarrow>
          if i = ciID iv then None
          else (case byID s i of
                  None \<Rightarrow> None
                | Some prior \<Rightarrow>
                    if idemMappingExpired prior now then None
                    else if CoreHash dg prior \<noteq> CoreHash dg iv then Some (i, IdempotencyPayloadConflict)
                    else Some (i, IdempotentReplay)))"

definition pg_refusal :: "digests \<Rightarrow> string \<Rightarrow> CanonicalInvoice \<Rightarrow> InvoiceStore \<Rightarrow> string \<times> save_error" where
  "pg_refusal dg constraint iv s =
     (if constraint = ''einvoicing_idem_ux''
      then (let priorID = (case byIdemKey s (idem_key iv) of Some i \<Rightarrow> i | None \<Rightarrow> '''')
            in case byID s priorID of
                 Some prior \<Rightarrow> (priorID, if CoreHash dg prior \<noteq> CoreHash dg iv then IdempotencyPayloadConflict else IdempotentReplay)
               | None \<Rightarrow> (priorID, IdempotentReplay))
      else ('''', Conflict constraint))"

definition SaveCtx :: "digests \<Rightarrow> save_env \<Rightarrow> CanonicalInvoice \<Rightarrow> InvoiceStore \<Rightarrow>
    InvoiceStore \<times> CanonicalInvoice \<times> string \<times> save_error option" where
  "SaveCtx dg env iv s =
     (case hookFault env of
        Some e \<Rightarrow> (s, iv, '''', Some (FaultInjected e))
      | None \<Rightarrow>
          (case idem_refusal dg (saveNow env) iv s of
             Some (i, e) \<Rightarrow> (s, iv, i, Some e)
           | None \<Rightarrow>
               (let iv1 = stamp_times (saveNow env) iv;
                    s1 = s\<lparr>invLog := invLog s @ [iv1]\<rparr>
                in if \<not> openOk env \<or> \<not> writeOk env then (s, iv1, '''', Some FileFailed)
                   else if \<not> syncOk env then (s1, iv1, '''', Some FileFailed)
                   else if docs s
                   then (case pgPut env of
                           PgOk \<Rightarrow> (index iv1 s1, iv1, '''', None)
                         | PgUnique c \<Rightarrow> (case pg_refusal dg c iv1 s1 of (i, e) \<Rightarrow> (s1, iv1, i, Some e))
                         | PgError e \<Rightarrow> (s1, iv1, '''', Some (PgPersist e)))
                   else (index iv1 s1, iv1, '''', None))))"

definition purgeable :: "int \<Rightarrow> InvoiceStore \<Rightarrow> string \<Rightarrow> bool" where
  "purgeable now s i =
     (case byID s i of
        None \<Rightarrow> False
      | Some iv \<Rightarrow> ciStatus iv \<in> terminalInvoiceStatuses \<and> idemMappingExpired iv now)"

definition purge_key :: "int \<Rightarrow> string \<Rightarrow> InvoiceStore \<times> nat \<Rightarrow> InvoiceStore \<times> nat" where
  "purge_key now key = (\<lambda>(s, n).
     case byIdemKey s key of
       Some i \<Rightarrow> if purgeable now s i then (s\<lparr>byIdemKey := (byIdemKey s)(key := None)\<rparr>, n + 1) else (s, n)
     | None \<Rightarrow> (s, n))"

text \<open>The loop deletes while it ranges; \<open>ord\<close> is the order in which it visits the keys.\<close>

definition PurgeExpiredIdempotencyKeys :: "int \<Rightarrow> string list \<Rightarrow> InvoiceStore \<Rightarrow> InvoiceStore \<times> nat" where
  "PurgeExpiredIdempotencyKeys now ord s =
     fold (purge_key now) ord (s, 0)"

definition IsDuplicate :: "CanonicalInvoice \<Rightarrow> InvoiceStore \<Rightarrow> bool" where
  "IsDuplicate iv s = (case bySuppNum s (supp_key iv) of None \<Rightarrow> False | Some i \<Rightarrow> i \<noteq> ciID iv)"

section \<open>Consistent indexes\<close>

definition store_ok :: "InvoiceStore \<Rightarrow> bool" where
  "store_ok s \<longleftrightarrow> distinct (isOrder s) \<and> set (isOrder s) = dom (byID s) \<and>
     (\<forall>i iv. byID s i = Some iv \<longrightarrow> ciID iv = i) \<and>
     ran (byIdemKey s) \<union> ran (bySuppNum s) \<union> ran (byIRN s) \<subseteq> dom (byID s)"

lemma store_ok_empty: "store_ok (empty_store\<lparr>invLog := file\<rparr>)"
  by (simp add: store_ok_def empty_store_def)

lemma ran_upd_sub: "ran m \<subseteq> D \<Longrightarrow> ran (m(k \<mapsto> v)) \<subseteq> insert v D"
  by (auto simp: ran_def)

lemma store_ok_index: "store_ok s \<Longrightarrow> store_ok (index iv s)"
proof -
  assume ok: "store_ok s"
  have "ran (byIdemKey (index iv s)) \<union> ran (bySuppNum (index iv s)) \<union> ran (byIRN (index iv s)) \<subseteq> insert (ciID iv) (dom (byID s))"
    using ok ran_upd_sub [of "byIdemKey s" "dom (byID s)"] ran_upd_sub [of "bySuppNum s" "dom (byID s)"]
      ran_upd_sub [of "byIRN s" "dom (byID s)"]
    by (auto simp: index_def store_ok_def)
  with ok show "store_ok (index iv s)"
    by (auto simp: store_ok_def index_def)
qed

lemma store_ok_fold: "store_ok s \<Longrightarrow> store_ok (fold index ivs s)"
  by (induction ivs arbitrary: s) (simp_all add: store_ok_index)

lemma store_ok_New: "store_ok (NewInvoiceStore file)"
  unfolding NewInvoiceStore_def load_def by (rule store_ok_fold [OF store_ok_empty])

lemma store_ok_log [simp]: "store_ok (s\<lparr>invLog := l\<rparr>) = store_ok s" "store_ok (s\<lparr>docs := b\<rparr>) = store_ok s"
  by (simp_all add: store_ok_def)

lemma store_ok_SetPG: "store_ok s \<Longrightarrow> store_ok (SetPG ds s)"
  by (simp add: SetPG_def store_ok_fold)

lemma store_ok_Save: "store_ok s \<Longrightarrow> store_ok (fst (SaveCtx dg env iv s))"
  by (simp add: SaveCtx_def Let_def store_ok_index split: option.split prod.split pg_result.split)

lemma purge_step_ok:
  "store_ok s \<Longrightarrow> store_ok (s\<lparr>byIdemKey := (byIdemKey s)(key := None)\<rparr>)"
  by (auto simp: store_ok_def ran_def)

lemma purge_key_cases:
  obtains (keep) "purge_key now key (s, n) = (s, n)"
  | (drop) i where "byIdemKey s key = Some i" "purgeable now s i"
      "purge_key now key (s, n) = (s\<lparr>byIdemKey := (byIdemKey s)(key := None)\<rparr>, n + 1)"
proof (cases "\<exists>i. byIdemKey s key = Some i \<and> purgeable now s i")
  case True
  then show ?thesis using that(2) by (auto simp: purge_key_def)
next
  case False
  then have "purge_key now key (s, n) = (s, n)" by (auto simp: purge_key_def split: option.split)
  then show ?thesis by (rule that(1))
qed

lemma store_ok_Purge: "store_ok s \<Longrightarrow> store_ok (fst (PurgeExpiredIdempotencyKeys now ord s))"
proof -
  have "store_ok (fst (fold (purge_key now) ord (s, n)))" if "store_ok s" for s n
    using that
  proof (induction ord arbitrary: s n)
    case (Cons key ord)
    then show ?case by (cases rule: purge_key_cases [of now key s n]) (simp_all add: purge_step_ok)
  qed simp
  then show "store_ok s \<Longrightarrow> ?thesis" by (simp add: PurgeExpiredIdempotencyKeys_def)
qed

text \<open>A purge removes keys of expired invoices in a terminal state only, and no record.\<close>

lemma purge_keeps:
  assumes "fold (purge_key now) ord (s, n) = (s', n')"
  shows "byID s' = byID s \<and> (\<forall>k. byIdemKey s' k = byIdemKey s k \<or>
     byIdemKey s' k = None \<and> (\<exists>i. byIdemKey s k = Some i \<and> purgeable now s i))"
  using assms
proof (induction ord arbitrary: s n)
  case (Cons key ord)
  show ?case
  proof (cases rule: purge_key_cases [of now key s n])
    case keep
    with Cons show ?thesis by simp
  next
    case (drop i)
    let ?t = "s\<lparr>byIdemKey := (byIdemKey s)(key := None)\<rparr>"
    have "byID s' = byID ?t \<and> (\<forall>k. byIdemKey s' k = byIdemKey ?t k \<or>
       byIdemKey s' k = None \<and> (\<exists>i. byIdemKey ?t k = Some i \<and> purgeable now ?t i))"
      using Cons.IH [of ?t "n + 1"] Cons.prems drop(3) by simp
    with drop show ?thesis by (auto simp: purgeable_def split: if_splits)
  qed
qed simp

section \<open>Restart\<close>

text \<open>The store in memory is what the log rebuilds (keys that were purged apart).\<close>

definition in_step :: "InvoiceStore \<Rightarrow> bool" where
  "in_step s \<longleftrightarrow> (let t = NewInvoiceStore (invLog s) in
     byID t = byID s \<and> byIRN t = byIRN s \<and> bySuppNum t = bySuppNum s \<and> isOrder t = isOrder s \<and> byIdemKey s \<subseteq>\<^sub>m byIdemKey t)"

lemma fold_index_log: "invLog (fold index ivs s) = invLog s" "docs (fold index ivs s) = docs s"
  by (induction ivs arbitrary: s) (simp_all add: index_def)

lemma New_snoc:
  fixes lg :: "CanonicalInvoice list" and iv
  defines "t \<equiv> NewInvoiceStore (lg @ [iv])" and "u \<equiv> index iv (NewInvoiceStore lg)"
  shows "byID t = byID u" "byIRN t = byIRN u" "bySuppNum t = bySuppNum u" "isOrder t = isOrder u" "byIdemKey t = byIdemKey u"
proof -
  have f: "byID (fold index ivs (s\<lparr>invLog := l\<rparr>)) = byID (fold index ivs s) \<and>
      byIRN (fold index ivs (s\<lparr>invLog := l\<rparr>)) = byIRN (fold index ivs s) \<and>
      bySuppNum (fold index ivs (s\<lparr>invLog := l\<rparr>)) = bySuppNum (fold index ivs s) \<and>
      isOrder (fold index ivs (s\<lparr>invLog := l\<rparr>)) = isOrder (fold index ivs s) \<and>
      byIdemKey (fold index ivs (s\<lparr>invLog := l\<rparr>)) = byIdemKey (fold index ivs s)" for ivs s l
  proof (induction ivs arbitrary: s)
    case (Cons v ivs)
    have "index v (s\<lparr>invLog := l\<rparr>) = (index v s)\<lparr>invLog := l\<rparr>" by (simp add: index_def)
    with Cons [of "index v s"] show ?case by simp
  qed simp
  show "byID t = byID u" "byIRN t = byIRN u" "bySuppNum t = bySuppNum u" "isOrder t = isOrder u" "byIdemKey t = byIdemKey u"
    unfolding t_def u_def NewInvoiceStore_def load_def
    using f [where ivs = lg and s = empty_store and l = "lg @ [iv]"] f [where ivs = lg and s = empty_store and l = lg] by (simp_all add: index_def)
qed

text \<open>A save whose file and database operations succeed or whose write fails leaves no
  record in the log that memory does not have.\<close>

definition clean_env :: "save_env \<Rightarrow> bool" where
  "clean_env env \<longleftrightarrow> openOk env \<and> writeOk env \<longrightarrow> syncOk env \<and> pgPut env = PgOk"

lemma in_step_Save:
  assumes "in_step s" "clean_env env"
  shows "in_step (fst (SaveCtx dg env iv s))"
proof -
  let ?v = "stamp_times (saveNow env) iv"
  let ?s1 = "s\<lparr>invLog := invLog s @ [?v]\<rparr>"
  have "fst (SaveCtx dg env iv s) = s \<or> fst (SaveCtx dg env iv s) = index ?v ?s1"
    using assms(2) by (auto simp: SaveCtx_def Let_def clean_env_def split: option.splits prod.splits pg_result.splits)
  moreover have "in_step (index ?v ?s1)"
  proof -
    have log: "invLog (index ?v ?s1) = invLog s @ [?v]" by (simp add: index_def)
    note n = New_snoc [of "invLog s" ?v]
    show ?thesis
      using assms(1) unfolding in_step_def Let_def log n
      by (auto simp: index_def map_le_def)
  qed
  ultimately show ?thesis using assms(1) by auto
qed

lemma in_step_Purge: "in_step s \<Longrightarrow> in_step (fst (PurgeExpiredIdempotencyKeys now ord s))"
proof -
  have "in_step (fst (fold (purge_key now) ord (s, n)))" if "in_step s" for s n
    using that
  proof (induction ord arbitrary: s n)
    case (Cons key ord)
    have "in_step (s\<lparr>byIdemKey := (byIdemKey s)(key := None)\<rparr>)"
      using Cons.prems by (auto simp: in_step_def Let_def map_le_def)
    with Cons show ?case by (cases rule: purge_key_cases [of now key s n]) simp_all
  qed simp
  then show "in_step s \<Longrightarrow> ?thesis" by (simp add: PurgeExpiredIdempotencyKeys_def)
qed

section \<open>One invoice per key\<close>

lemma idem_refusal_binds:
  assumes "ciIdempotencyKey iv \<noteq> ''''" "byIdemKey s (idem_key iv) = Some i" "byID s i = Some prior" "i \<noteq> ciID iv"
    "\<not> idemMappingExpired prior now"
  shows "idem_refusal dg now iv s =
    Some (i, if CoreHash dg prior \<noteq> CoreHash dg iv then IdempotencyPayloadConflict else IdempotentReplay)"
  using assms by (simp add: idem_refusal_def)

text \<open>
  A caller either saves a new invoice, whose creation time is still zero, or saves back a
  record it read from the store, so it keeps the creation time and the key.
\<close>

definition honest :: "InvoiceStore \<Rightarrow> CanonicalInvoice \<Rightarrow> bool" where
  "honest s iv \<longleftrightarrow> (case byID s (ciID iv) of
      None \<Rightarrow> CreatedAt iv = None
    | Some old \<Rightarrow> CreatedAt iv = CreatedAt old \<and> idem_key iv = idem_key old \<and> ciIdempotencyKey iv = ciIdempotencyKey old)"

fun save_run :: "digests \<Rightarrow> (save_env \<times> CanonicalInvoice) list \<Rightarrow> InvoiceStore \<Rightarrow> InvoiceStore \<times> save_error option list" where
  "save_run dg [] s = (s, [])"
| "save_run dg ((env, iv) # ops) s =
     (let (s1, _, _, e) = SaveCtx dg env iv s; (s2, es) = save_run dg ops s1 in (s2, e # es))"

fun honest_run :: "digests \<Rightarrow> (save_env \<times> CanonicalInvoice) list \<Rightarrow> InvoiceStore \<Rightarrow> bool" where
  "honest_run dg [] s = True"
| "honest_run dg ((env, iv) # ops) s = (honest s iv \<and> honest_run dg ops (fst (SaveCtx dg env iv s)))"

text \<open>A run of saves stays in step with the log.\<close>

lemma in_step_New: "in_step (NewInvoiceStore lg)"
proof -
  have "invLog (NewInvoiceStore lg) = lg" by (simp add: NewInvoiceStore_def load_def fold_index_log)
  then show ?thesis by (simp add: in_step_def Let_def)
qed

lemma in_step_run:
  assumes "in_step s" "\<forall>(env, iv)\<in>set ops. clean_env env"
  shows "in_step (fst (save_run dg ops s))"
  using assms
proof (induction ops arbitrary: s)
  case (Cons op ops)
  obtain env iv where op: "op = (env, iv)" by fastforce
  have "in_step (fst (SaveCtx dg env iv s))" using Cons.prems op in_step_Save by auto
  then have "in_step (fst (save_run dg ops (fst (SaveCtx dg env iv s))))" using Cons.IH Cons.prems(2) by simp
  then show ?case by (simp add: op split_beta Let_def)
qed simp

text \<open>The key \<open>k\<close> is taken by invoice \<open>i\<close>, created at \<open>c\<close>.\<close>

definition taken :: "InvoiceStore \<Rightarrow> string \<Rightarrow> string \<Rightarrow> int \<Rightarrow> bool" where
  "taken s k i c \<longleftrightarrow> byIdemKey s k = Some i \<and>
     (\<exists>prior. byID s i = Some prior \<and> CreatedAt prior = Some c \<and> idem_key prior = k \<and> ciIdempotencyKey prior \<noteq> '''')"

lemma SaveCtx_store:
  obtains (same) "byID (fst (SaveCtx dg env iv s)) = byID s" "byIdemKey (fst (SaveCtx dg env iv s)) = byIdemKey s"
      "byIRN (fst (SaveCtx dg env iv s)) = byIRN s" "snd (snd (snd (SaveCtx dg env iv s))) \<noteq> None"
      "fst (snd (SaveCtx dg env iv s)) \<in> {iv, stamp_times (saveNow env) iv}"
  | (saved) "idem_refusal dg (saveNow env) iv s = None" "snd (snd (snd (SaveCtx dg env iv s))) = None"
      "fst (snd (SaveCtx dg env iv s)) = stamp_times (saveNow env) iv"
      "byIRN (fst (SaveCtx dg env iv s)) = byIRN (index (stamp_times (saveNow env) iv) s)"
      "byID (fst (SaveCtx dg env iv s)) = byID (index (stamp_times (saveNow env) iv) s)"
      "byIdemKey (fst (SaveCtx dg env iv s)) = byIdemKey (index (stamp_times (saveNow env) iv) s)"
proof -
  let ?v = "stamp_times (saveNow env) iv"
  have ix: "byID (index ?v (s\<lparr>invLog := l\<rparr>)) = byID (index ?v s)" "byIdemKey (index ?v (s\<lparr>invLog := l\<rparr>)) = byIdemKey (index ?v s)"
    "byIRN (index ?v (s\<lparr>invLog := l\<rparr>)) = byIRN (index ?v s)" for l
    by (simp_all add: index_def)
  show ?thesis
  proof (cases "hookFault env = None \<and> idem_refusal dg (saveNow env) iv s = None \<and> openOk env \<and> writeOk env \<and> syncOk env \<and>
      (docs s \<longrightarrow> pgPut env = PgOk)")
    case True
    with ix show ?thesis by (intro saved) (auto simp: SaveCtx_def Let_def)
  next
    case False
    then have "byID (fst (SaveCtx dg env iv s)) = byID s \<and> byIdemKey (fst (SaveCtx dg env iv s)) = byIdemKey s \<and>
        byIRN (fst (SaveCtx dg env iv s)) = byIRN s \<and> snd (snd (snd (SaveCtx dg env iv s))) \<noteq> None \<and>
        fst (snd (SaveCtx dg env iv s)) \<in> {iv, ?v}"
      by (cases "hookFault env"; cases "idem_refusal dg (saveNow env) iv s"; cases "pgPut env")
        (auto simp: SaveCtx_def Let_def split: prod.split)
    then show ?thesis by (intro same) blast+
  qed
qed

lemma stamp_times_fields [simp]:
  "ciID (stamp_times n iv) = ciID iv" "idem_key (stamp_times n iv) = idem_key iv"
  "ciIdempotencyKey (stamp_times n iv) = ciIdempotencyKey iv"
  "CreatedAt (stamp_times n iv) = (case CreatedAt iv of None \<Rightarrow> Some n | Some c \<Rightarrow> Some c)"
  "IRN (stamp_times n iv) = IRN iv" "core_of (stamp_times n iv) = core_of iv" "PayableKobo (stamp_times n iv) = PayableKobo iv"
  "ciTenantID (stamp_times n iv) = ciTenantID iv" "ciStatus (stamp_times n iv) = ciStatus iv"
  "SignedCoreHash (stamp_times n iv) = SignedCoreHash iv" "InvoiceNumber (stamp_times n iv) = InvoiceNumber iv"
  "IssueDate (stamp_times n iv) = IssueDate iv"
  by (simp_all add: stamp_times_def idem_key_def core_of_def)

lemma taken_Save:
  assumes "taken s k i c" "honest s iv" "saveNow env - c \<le> idempotencyTTL"
  shows "taken (fst (SaveCtx dg env iv s)) k i c"
    "snd (snd (snd (SaveCtx dg env iv s))) = None \<Longrightarrow> ciIdempotencyKey iv \<noteq> '''' \<Longrightarrow> idem_key iv = k \<Longrightarrow> ciID iv = i"
proof -
  obtain prior where t: "byIdemKey s k = Some i" "byID s i = Some prior" "CreatedAt prior = Some c" "idem_key prior = k"
    "ciIdempotencyKey prior \<noteq> ''''"
    using assms(1) by (auto simp: taken_def)
  have live: "\<not> idemMappingExpired prior (saveNow env)" using assms(3) t(3) by (simp add: idemMappingExpired_def)
  have "taken (fst (SaveCtx dg env iv s)) k i c \<and>
    (snd (snd (snd (SaveCtx dg env iv s))) = None \<longrightarrow> ciIdempotencyKey iv \<noteq> '''' \<longrightarrow> idem_key iv = k \<longrightarrow> ciID iv = i)"
  proof (cases rule: SaveCtx_store [of dg env iv s])
    case same
    with assms(1) show ?thesis by (auto simp: taken_def)
  next
    case saved
    have key: "ciID iv = i" if "ciIdempotencyKey iv \<noteq> ''''" "idem_key iv = k"
      using idem_refusal_binds [of iv s i prior "saveNow env" dg] that t live saved(1) by auto
    have "taken (index (stamp_times (saveNow env) iv) s) k i c"
    proof (cases "ciID iv = i")
      case True
      with assms(2) t show ?thesis by (auto simp: taken_def honest_def index_def)
    next
      case False
      then have "\<not> (ciIdempotencyKey iv \<noteq> '''' \<and> idem_key iv = k)" using key by blast
      with False t show ?thesis by (auto simp: taken_def index_def)
    qed
    with saved(4-6) key show ?thesis by (simp add: taken_def)
  qed
  then show "taken (fst (SaveCtx dg env iv s)) k i c"
    "snd (snd (snd (SaveCtx dg env iv s))) = None \<Longrightarrow> ciIdempotencyKey iv \<noteq> '''' \<Longrightarrow> idem_key iv = k \<Longrightarrow> ciID iv = i"
    by blast+
qed

lemma taken_run:
  assumes "taken s k i c" "honest_run dg ops s" "\<forall>(env, iv)\<in>set ops. saveNow env - c \<le> idempotencyTTL"
    and "((env, iv), None) \<in> set (zip ops (snd (save_run dg ops s)))" "ciIdempotencyKey iv \<noteq> ''''" "idem_key iv = k"
  shows "ciID iv = i"
  using assms
proof (induction dg ops s rule: save_run.induct)
  case (2 dg env' iv' ops s)
  obtain s1 v p e where sv: "SaveCtx dg env' iv' s = (s1, v, p, e)" by (metis prod_cases4)
  have t: "taken s1 k i c" and hd: "e = None \<Longrightarrow> ciIdempotencyKey iv' \<noteq> '''' \<Longrightarrow> idem_key iv' = k \<Longrightarrow> ciID iv' = i"
    using taken_Save [OF "2.prems"(1), of iv' env' dg] "2.prems"(2,3) sv by auto
  have zip: "((env, iv), None) \<in> insert ((env', iv'), e) (set (zip ops (snd (save_run dg ops s1))))"
    using "2.prems"(4) by (simp add: sv Let_def split_beta)
  show ?case
  proof (cases "((env, iv), None) = ((env', iv'), e)")
    case True
    with hd "2.prems"(5,6) show ?thesis by blast
  next
    case False
    have IH: "taken s1 k i c \<Longrightarrow> honest_run dg ops s1 \<Longrightarrow> \<forall>(env, iv)\<in>set ops. saveNow env - c \<le> idempotencyTTL \<Longrightarrow>
        ((env, iv), None) \<in> set (zip ops (snd (save_run dg ops s1))) \<Longrightarrow> ciIdempotencyKey iv \<noteq> '''' \<Longrightarrow> idem_key iv = k \<Longrightarrow> ciID iv = i"
      using "2.IH" [of "(s1, v, p, e)" s1 "(v, p, e)" v "(p, e)" p e] sv by simp
    show ?thesis using IH [OF t] "2.prems"(2,3,5,6) zip False sv by auto
  qed
qed simp

text \<open>Keys of different tenants never clash, as long as tenant ids contain no bar.\<close>

lemma idem_key_tenant:
  assumes "idem_key a = idem_key b" "CHR ''|'' \<notin> set (ciTenantID a)" "CHR ''|'' \<notin> set (ciTenantID b)"
  shows "ciTenantID a = ciTenantID b \<and> ciIdempotencyKey a = ciIdempotencyKey b"
proof -
  let ?p = "\<lambda>c. c \<noteq> CHR ''|''"
  have tw: "takeWhile ?p (t @ CHR ''|'' # r) = t" if "CHR ''|'' \<notin> set t" for t r
    using that by (induction t) auto
  have eq: "ciTenantID a @ CHR ''|'' # ciIdempotencyKey a = ciTenantID b @ CHR ''|'' # ciIdempotencyKey b"
    using assms(1) by (simp add: idem_key_def)
  have "ciTenantID a = ciTenantID b"
    using arg_cong [OF eq, of "takeWhile ?p"] tw [OF assms(2)] tw [OF assms(3)] by simp
  with eq show ?thesis by simp
qed

end
