(* ===== verification/Einv_Irn.thy ===== *)
theory Einv_Irn
  imports Go_Prelude
begin

text \<open>
  Invoice reference numbers of the e-invoicing service (\<^verbatim>\<open>services/einvoicing/nrs_irn.go\<close>):
  \<open>InvoiceNumber-ServiceID-YYYYMMDD\<close>, the calendar check of the date stamp
  (\<^verbatim>\<open>time.Parse("20060102", d)\<close>), building and parsing, and the registry of service ids.

  Shown: parsing undoes building, a built number determines its three parts, an accepted
  number has exactly the documented shape, and a registered service id never changes.
\<close>

section \<open>Definitions\<close>

definition isAlnum :: "char \<Rightarrow> bool" where
  "isAlnum c \<longleftrightarrow> isDigit c \<or> (65 \<le> (of_char c :: nat) \<and> (of_char c :: nat) \<le> 90) \<or>
     (97 \<le> (of_char c :: nat) \<and> (of_char c :: nat) \<le> 122)"

definition ValidServiceID :: "string \<Rightarrow> bool" where
  "ValidServiceID s \<longleftrightarrow> length s = 8 \<and> list_all isAlnum s"

text \<open>The proleptic Gregorian calendar of package \<^verbatim>\<open>time\<close>.\<close>

definition isLeap :: "nat \<Rightarrow> bool" where
  "isLeap y \<longleftrightarrow> y mod 4 = 0 \<and> (y mod 100 \<noteq> 0 \<or> y mod 400 = 0)"

definition daysIn :: "nat \<Rightarrow> nat \<Rightarrow> nat" where
  "daysIn m y = (if m = 2 then (if isLeap y then 29 else 28)
                 else if m \<in> {4, 6, 9, 11} then 30 else 31)"

text \<open>\<^verbatim>\<open>time.Parse("20060102", d)\<close> on eight bytes: eight digits, month and day in range.\<close>

definition parseYMD :: "string \<Rightarrow> (nat \<times> nat \<times> nat) option" where
  "parseYMD d =
     (if length d = 8 \<and> list_all isDigit d
      then (let y = read_nat (take 4 d); m = read_nat (take 2 (drop 4 d)); dd = read_nat (drop 6 d)
            in if 1 \<le> m \<and> m \<le> 12 \<and> 1 \<le> dd \<and> dd \<le> daysIn m y then Some (y, m, dd) else None)
      else None)"

datatype irn_error = NoInvoiceNumber | BadServiceID string | BadDateStamp string | MalformedIRN string

definition DateStamp :: "string \<Rightarrow> irn_error + string" where
  "DateStamp issueDate =
     (let d = TrimSpace (filter (\<lambda>c. c \<noteq> CHR ''-'') issueDate)
      in if length d \<noteq> 8 then Inl (BadDateStamp issueDate)
         else (case parseYMD d of None \<Rightarrow> Inl (BadDateStamp issueDate) | Some _ \<Rightarrow> Inr d))"

definition BuildIRN :: "string \<Rightarrow> string \<Rightarrow> string \<Rightarrow> irn_error + string" where
  "BuildIRN invoiceNumber serviceID issueDate =
     (let num = TrimSpace invoiceNumber
      in if num = '''' then Inl NoInvoiceNumber
         else if \<not> ValidServiceID serviceID then Inl (BadServiceID serviceID)
         else (case DateStamp issueDate of
                 Inl e \<Rightarrow> Inl e
               | Inr ds \<Rightarrow> Inr (num @ ''-'' @ serviceID @ ''-'' @ ds)))"

text \<open>\<^verbatim>\<open>strings.LastIndex(s, c)\<close> for one byte; \<open>None\<close> is -1.\<close>

definition last_index :: "char \<Rightarrow> string \<Rightarrow> nat option" where
  "last_index c s = (case dropWhile (\<lambda>x. x \<noteq> c) (rev s) of [] \<Rightarrow> None | _ # r \<Rightarrow> Some (length r))"

text \<open>The guard \<^verbatim>\<open>i <= 0 || i == len(s)-1\<close> and the two slices around the hyphen.\<close>

definition split_last :: "string \<Rightarrow> (string \<times> string) option" where
  "split_last s =
     (case last_index (CHR ''-'') s of
        None \<Rightarrow> None
      | Some i \<Rightarrow> if i = 0 \<or> i = length s - 1 then None else Some (take i s, drop (i + 1) s))"

definition ParseIRN :: "string \<Rightarrow> irn_error + (string \<times> string \<times> string)" where
  "ParseIRN irn0 =
     (let irn = TrimSpace irn0
      in case split_last irn of
           None \<Rightarrow> Inl (MalformedIRN irn)
         | Some (rest, dateStamp) \<Rightarrow>
             (case split_last rest of
                None \<Rightarrow> Inl (MalformedIRN irn)
              | Some (invoiceNumber, serviceID) \<Rightarrow>
                  if \<not> ValidServiceID serviceID then Inl (MalformedIRN irn)
                  else (case DateStamp dateStamp of
                          Inl _ \<Rightarrow> Inl (MalformedIRN irn)
                        | Inr _ \<Rightarrow> Inr (invoiceNumber, serviceID, dateStamp))))"

definition ValidIRN :: "string \<Rightarrow> bool" where
  "ValidIRN irn = is_ok (ParseIRN irn)"

type_synonym ServiceIDRegistry = "string \<rightharpoonup> string"

definition NewServiceIDRegistry :: ServiceIDRegistry where
  "NewServiceIDRegistry = Map.empty"

datatype registry_error = BusinessRequired | RegBadServiceID string | AlreadyRegistered string string | NoEntropy

definition Register :: "string \<Rightarrow> string \<Rightarrow> ServiceIDRegistry \<Rightarrow> ServiceIDRegistry \<times> (registry_error + unit)" where
  "Register businessID serviceID r =
     (if TrimSpace businessID = '''' then (r, Inl BusinessRequired)
      else if \<not> ValidServiceID serviceID then (r, Inl (RegBadServiceID serviceID))
      else (case r businessID of
              Some existing \<Rightarrow>
                if existing \<noteq> serviceID then (r, Inl (AlreadyRegistered businessID existing))
                else (r(businessID \<mapsto> serviceID), Inr ())
            | None \<Rightarrow> (r(businessID \<mapsto> serviceID), Inr ())))"

definition Lookup :: "string \<Rightarrow> ServiceIDRegistry \<Rightarrow> string" where
  "Lookup businessID r = (case r businessID of Some i \<Rightarrow> i | None \<Rightarrow> '''')"

definition serviceIDAlphabet :: string where
  "serviceIDAlphabet = ''ABCDEFGHIJKLMNOPQRSTUVWXYZ0123456789''"

text \<open>\<open>raw\<close>: the eight bytes of \<^verbatim>\<open>rand.Read\<close>, \<open>None\<close> when it fails.\<close>

definition randomServiceID :: "nat list option \<Rightarrow> registry_error + string" where
  "randomServiceID raw =
     (case raw of None \<Rightarrow> Inl NoEntropy
      | Some bs \<Rightarrow> Inr (map (\<lambda>b. serviceIDAlphabet ! (b mod length serviceIDAlphabet)) bs))"

definition GetOrAssign :: "nat list option \<Rightarrow> string \<Rightarrow> ServiceIDRegistry \<Rightarrow> ServiceIDRegistry \<times> (registry_error + string)" where
  "GetOrAssign raw businessID r =
     (if Lookup businessID r \<noteq> '''' then (r, Inr (Lookup businessID r))
      else (case randomServiceID raw of
              Inl e \<Rightarrow> (r, Inl e)
            | Inr i \<Rightarrow>
                (case r businessID of
                   Some existing \<Rightarrow> (r, Inr existing)
                 | None \<Rightarrow> (r(businessID \<mapsto> i), Inr i))))"

section \<open>Splitting at the last hyphen\<close>

lemma dropWhile_no: "c \<notin> set b \<Longrightarrow> dropWhile (\<lambda>x. x \<noteq> c) (b @ c # a) = c # a"
  by (induction b) auto

lemma last_index_app: "c \<notin> set b \<Longrightarrow> last_index c (a @ c # b) = Some (length a)"
  by (simp add: last_index_def dropWhile_no)

lemma last_index_Some:
  assumes "last_index c s = Some i"
  shows "s = take i s @ c # drop (i + 1) s" "c \<notin> set (drop (i + 1) s)" "i < length s"
proof -
  obtain x r where r: "dropWhile (\<lambda>x. x \<noteq> c) (rev s) = x # r" "i = length r"
    using assms by (auto simp: last_index_def split: list.splits)
  have x: "x = c" using r(1) by (auto simp: dropWhile_eq_Cons_conv)
  let ?t = "takeWhile (\<lambda>x. x \<noteq> c) (rev s)"
  have s: "s = rev r @ c # rev ?t"
    using takeWhile_dropWhile_id [of "\<lambda>x. x \<noteq> c" "rev s"] unfolding r(1) x
    by (metis append.assoc append_Cons append_Nil rev.simps(2) rev_append rev_rev_ident)
  have no: "c \<notin> set ?t" using set_takeWhileD by fastforce
  have "take i s = rev r" "drop (i + 1) s = rev ?t"
    using r(2) by (subst s, simp)+
  with s no show "s = take i s @ c # drop (i + 1) s" "c \<notin> set (drop (i + 1) s)" by simp_all
  show "i < length s" using s r(2) by (metis add_Suc_right length_append length_Cons length_rev less_add_Suc1)
qed

lemma split_last_app:
  "CHR ''-'' \<notin> set b \<Longrightarrow> a \<noteq> [] \<Longrightarrow> b \<noteq> [] \<Longrightarrow> split_last (a @ CHR ''-'' # b) = Some (a, b)"
  by (simp add: split_last_def last_index_app)

lemma split_last_Some:
  assumes "split_last s = Some (a, b)"
  shows "s = a @ CHR ''-'' # b" "CHR ''-'' \<notin> set b" "a \<noteq> []" "b \<noteq> []"
proof -
  obtain i where i: "last_index (CHR ''-'') s = Some i" "i \<noteq> 0" "i \<noteq> length s - 1" "a = take i s" "b = drop (i + 1) s"
    using assms by (auto simp: split_last_def split: option.splits if_splits)
  note l = last_index_Some [OF i(1)]
  show "s = a @ CHR ''-'' # b" "CHR ''-'' \<notin> set b" using l(1,2) i(4,5) by simp_all
  show "a \<noteq> []" "b \<noteq> []" using i l(3) by auto
qed

section \<open>White space around a reference number\<close>

lemma space_seqs_props: "\<forall>p\<in>set space_seqs. p \<noteq> [] \<and> \<not> isDigit (last p) \<and> CHR ''-'' \<notin> set p"
  by code_simp

lemma trimmed_hyphen_digits:
  assumes "trimmed num" "ds \<noteq> []" "list_all isDigit ds"
  shows "trimmed (num @ CHR ''-'' # mid @ ds)"
  unfolding trimmed_def
proof (intro ballI conjI)
  fix p
  assume p: "p \<in> set space_seqs"
  note sp = bspec [OF space_seqs_props p]
  show "\<not> prefix p (num @ CHR ''-'' # mid @ ds)"
  proof
    assume "prefix p (num @ CHR ''-'' # mid @ ds)"
    then consider "prefix p num" | q where "p = num @ q" "prefix q (CHR ''-'' # mid @ ds)"
      by (auto simp: prefix_append)
    then show False
    proof cases
      case 1
      with assms(1) p show False by (simp add: trimmed_def)
    next
      case (2 q)
      then show False using sp assms(1) p by (cases q) (auto simp: trimmed_def)
    qed
  qed
  show "\<not> suffix p (num @ CHR ''-'' # mid @ ds)"
  proof
    assume "suffix p (num @ CHR ''-'' # mid @ ds)"
    then obtain z where "num @ CHR ''-'' # mid @ ds = z @ p" by (auto simp: suffix_def)
    then have "last p = last ds" using sp assms(2) by (metis append_Cons append_assoc last_append list.distinct(1) append_is_Nil_conv)
    then show False using sp assms(2,3) by (simp add: list_all_iff)
  qed
qed

lemma trimmed_digits: "list_all isDigit ds \<Longrightarrow> ds \<noteq> [] \<Longrightarrow> trimmed ds"
proof -
  assume ds: "list_all isDigit ds" "ds \<noteq> []"
  have first: "\<forall>p\<in>set space_seqs. \<not> isDigit (hd p)" by code_simp
  show "trimmed ds"
    unfolding trimmed_def
  proof (intro ballI conjI notI)
    fix p assume p: "p \<in> set space_seqs"
    note sp = bspec [OF space_seqs_props p] bspec [OF first p]
    show False if "prefix p ds"
      using that sp ds by (auto simp: prefix_def list_all_iff)
    show False if "suffix p ds"
      using that sp ds by (auto simp: suffix_def list_all_iff)
  qed
qed

section \<open>Building and parsing\<close>

lemma parseYMD_digits: "parseYMD d = Some x \<Longrightarrow> length d = 8 \<and> list_all isDigit d"
  by (auto simp: parseYMD_def split: if_splits)

lemma digits_no_hyphen: "list_all isDigit d \<Longrightarrow> CHR ''-'' \<notin> set d"
  by (auto simp: list_all_iff isDigit_def)

lemma alnum_no_hyphen: "list_all isAlnum d \<Longrightarrow> CHR ''-'' \<notin> set d"
  by (auto simp: list_all_iff isDigit_def isAlnum_def)

lemma DateStamp_ok:
  assumes "DateStamp x = Inr d"
  shows "length d = 8" "list_all isDigit d" "parseYMD d \<noteq> None" "d = TrimSpace (filter (\<lambda>c. c \<noteq> CHR ''-'') x)"
proof -
  show p: "parseYMD d \<noteq> None" "d = TrimSpace (filter (\<lambda>c. c \<noteq> CHR ''-'') x)"
    using assms by (auto simp: DateStamp_def Let_def split: if_splits option.splits)
  obtain y where "parseYMD d = Some y" using p(1) by (cases "parseYMD d") simp_all
  from parseYMD_digits [OF this] show "length d = 8" "list_all isDigit d" by simp_all
qed

text \<open>A stamp is its own stamp.\<close>

lemma DateStamp_idem:
  assumes "DateStamp x = Inr d"
  shows "DateStamp d = Inr d"
proof -
  note d = DateStamp_ok [OF assms]
  have "filter (\<lambda>c. c \<noteq> CHR ''-'') d = d"
    using digits_no_hyphen [OF d(2)] by (auto intro: filter_True)
  moreover have "d \<noteq> []" using d(1) by auto
  then have "TrimSpace d = d" using d(2) by (intro TrimSpace_id trimmed_digits)
  ultimately show ?thesis using d(1,3) by (auto simp: DateStamp_def)
qed

lemma ParseIRN_BuildIRN:
  assumes "BuildIRN num sid date = Inr irn"
  shows "\<exists>ds. DateStamp date = Inr ds \<and> ParseIRN irn = Inr (TrimSpace num, sid, ds)"
proof -
  obtain ds where ds: "DateStamp date = Inr ds" and n: "TrimSpace num \<noteq> []" and sid: "ValidServiceID sid"
    and irn: "irn = TrimSpace num @ ''-'' @ sid @ ''-'' @ ds"
    using assms by (auto simp: BuildIRN_def Let_def split: if_splits sum.splits)
  note d = DateStamp_ok [OF ds]
  have ds0: "ds \<noteq> []" using d(1) by auto
  have sid0: "sid \<noteq> []" "CHR ''-'' \<notin> set sid"
    using sid alnum_no_hyphen by (auto simp: ValidServiceID_def)
  have "trimmed irn"
    using trimmed_hyphen_digits [OF trimmed_TrimSpace ds0 d(2), of num "sid @ ''-''"] by (simp add: irn)
  then have t: "TrimSpace irn = irn" by (rule TrimSpace_id)
  have s1: "split_last irn = Some (TrimSpace num @ CHR ''-'' # sid, ds)"
    using split_last_app [of ds "TrimSpace num @ CHR ''-'' # sid"] digits_no_hyphen [OF d(2)] ds0 by (simp add: irn)
  have s2: "split_last (TrimSpace num @ CHR ''-'' # sid) = Some (TrimSpace num, sid)"
    using split_last_app sid0 n by blast
  show ?thesis
    using ds sid DateStamp_idem [OF ds] by (simp add: ParseIRN_def t s1 s2)
qed

text \<open>What an accepted number looks like.\<close>

lemma ParseIRN_shape:
  assumes "ParseIRN irn = Inr (num, sid, ds)"
  shows "TrimSpace irn = num @ ''-'' @ sid @ ''-'' @ ds" "num \<noteq> ''''" "ValidServiceID sid" "is_ok (DateStamp ds)"
proof -
  obtain rest where s1: "split_last (TrimSpace irn) = Some (rest, ds)" and s2: "split_last rest = Some (num, sid)"
    and "ValidServiceID sid" "is_ok (DateStamp ds)"
    using assms by (auto simp: ParseIRN_def Let_def split: option.splits if_splits sum.splits)
  then show "ValidServiceID sid" "is_ok (DateStamp ds)" by simp_all
  show "TrimSpace irn = num @ ''-'' @ sid @ ''-'' @ ds" "num \<noteq> ''''"
    using split_last_Some [OF s1] split_last_Some [OF s2] by simp_all
qed

lemma BuildIRN_injective:
  assumes "BuildIRN n1 s1 d1 = Inr irn" "BuildIRN n2 s2 d2 = Inr irn"
  shows "TrimSpace n1 = TrimSpace n2 \<and> s1 = s2 \<and> DateStamp d1 = DateStamp d2"
  using ParseIRN_BuildIRN [OF assms(1)] ParseIRN_BuildIRN [OF assms(2)] by auto

section \<open>The registry\<close>

definition registry_ok :: "ServiceIDRegistry \<Rightarrow> bool" where
  "registry_ok r \<longleftrightarrow> (\<forall>b i. r b = Some i \<longrightarrow> ValidServiceID i)"

lemma alphabet_alnum: "list_all isAlnum serviceIDAlphabet" "serviceIDAlphabet \<noteq> []"
  by code_simp+

lemma randomServiceID_valid:
  assumes "randomServiceID (Some bs) = Inr i" "length bs = 8"
  shows "ValidServiceID i"
proof -
  have "isAlnum (serviceIDAlphabet ! (b mod length serviceIDAlphabet))" for b
    using alphabet_alnum by (simp add: list_all_length)
  then show ?thesis using assms by (auto simp: randomServiceID_def ValidServiceID_def list_all_iff)
qed

lemma Register_ok: "registry_ok r \<Longrightarrow> registry_ok (fst (Register b i r))"
  by (auto simp: registry_ok_def Register_def split: option.splits)

lemma GetOrAssign_ok:
  assumes "registry_ok r" "\<forall>bs. raw = Some bs \<longrightarrow> length bs = 8"
  shows "registry_ok (fst (GetOrAssign raw b r))"
proof (cases raw)
  case None
  with assms show ?thesis by (simp add: GetOrAssign_def randomServiceID_def)
next
  case (Some bs)
  then have "ValidServiceID i" if "randomServiceID (Some bs) = Inr i" for i
    using that assms(2) randomServiceID_valid by blast
  with assms(1) Some show ?thesis
    by (auto simp: registry_ok_def GetOrAssign_def randomServiceID_def split: option.splits)
qed

lemma GetOrAssign_valid:
  assumes "registry_ok r" "\<forall>bs. raw = Some bs \<longrightarrow> length bs = 8" "GetOrAssign raw b r = (r', Inr i)"
  shows "ValidServiceID i \<and> r' b = Some i"
proof (cases "r b")
  case None
  with assms show ?thesis
    by (cases raw) (auto simp: GetOrAssign_def Lookup_def randomServiceID_def
        intro!: randomServiceID_valid split: if_splits)
next
  case (Some j)
  then have "length j = 8" using assms(1) by (simp add: registry_ok_def ValidServiceID_def)
  then have "j \<noteq> ''''" by auto
  with Some assms show ?thesis by (auto simp: GetOrAssign_def Lookup_def registry_ok_def)
qed

text \<open>A business keeps its id.\<close>

lemma registry_stable:
  "r b = Some i \<Longrightarrow> fst (Register c j r) b = Some i"
  "r b = Some i \<Longrightarrow> registry_ok r \<Longrightarrow> fst (GetOrAssign raw c r) b = Some i"
  by (auto simp: Register_def GetOrAssign_def Lookup_def split: option.splits sum.splits)

end
