(* ===== verification/Einv_Lifecycle.thy ===== *)
theory Einv_Lifecycle
  imports Einv_Store Einv_Irn
begin

text \<open>
  The workflows of the e-invoicing service: the in-process runner with its retries
  (\<^verbatim>\<open>services/einvoicing/workflow.go\<close>), the eight-step NRS lifecycle
  (\<^verbatim>\<open>nrs_lifecycle.go\<close>) and the recovery of interrupted invoices with the per-invoice in-flight
  guard (\<^verbatim>\<open>nrs_resume.go\<close>).

  A workflow runs on \<open>wf_state\<close>: the store, the service-id registry, the invoice the workflow
  function holds by pointer, the recorded steps and the outbox. What the surroundings answer
  (disk and database, signer, validator, webhooks, event envelopes, entropy, cancellation of
  the context during a backoff) is read from \<open>world\<close> at the running index \<open>tick\<close>, so a
  statement for every world covers every pattern of failures, also failures that go away on a
  retry. The fallible closures of the source are the functions \<open>act_\<dots>\<close>.
\<close>

section \<open>The runner\<close>

record Step =
  stepName :: string
  stepAttempt :: nat
  stepStatus :: string
  stepDetail :: string

text \<open>\<open>wsResult\<close> is the local variable \<^verbatim>\<open>result\<close> of the pre-clearance workflow.\<close>

record ClearanceResult =
  crIRN :: string
  crStamp :: "CryptoStamp option"
  crStatus :: string
  crReason :: string
  crClearedAt :: string

record wf_state =
  wsStore :: InvoiceStore
  wsReg :: ServiceIDRegistry
  wsInv :: CanonicalInvoice
  wsSteps :: "Step list"
  wsOutbox :: "(string \<times> string \<times> string) list" \<comment> \<open>topic, invoice id, IRN\<close>
  wsResult :: "ClearanceResult option"
  tick :: nat

record world =
  wSave :: "nat \<Rightarrow> save_env"
  wSign :: "nat \<Rightarrow> string \<Rightarrow> string option"
  wKeyID :: string
  wValidate :: "nat \<Rightarrow> CanonicalInvoice \<Rightarrow> bool \<Rightarrow> string + (Violation list \<times> bool)"
  wSchema :: "string \<Rightarrow> string option" \<comment> \<open>decoding and schema errors of a stored payload\<close>
  wNotify :: "nat \<Rightarrow> bool"
  wEvent :: "nat \<Rightarrow> bool"
  wPublish :: "nat \<Rightarrow> bool"
  wRand :: "nat \<Rightarrow> nat list option"
  wCancel :: "nat \<Rightarrow> bool"
  wTime :: "nat \<Rightarrow> string"
  wDigests :: digests

type_synonym activity = "wf_state \<Rightarrow> wf_state \<times> (string + string)"

text \<open>The closure \<open>rec\<close>: a step of the same name is replaced, otherwise appended.\<close>

fun put_step :: "Step \<Rightarrow> Step list \<Rightarrow> Step list" where
  "put_step s [] = [s]"
| "put_step s (t # ts) = (if stepName t = stepName s then s # ts else t # put_step s ts)"

definition rec_step :: "string \<Rightarrow> nat \<Rightarrow> string \<Rightarrow> string \<Rightarrow> wf_state \<Rightarrow> wf_state" where
  "rec_step name i status detail st =
     st\<lparr>wsSteps := put_step \<lparr>stepName = name, stepAttempt = i, stepStatus = status, stepDetail = detail\<rparr> (wsSteps st)\<rparr>"

definition next_tick :: "wf_state \<Rightarrow> wf_state" where
  "next_tick st = st\<lparr>tick := tick st + 1\<rparr>"

fun retry_from :: "world \<Rightarrow> string \<Rightarrow> activity \<Rightarrow> nat \<Rightarrow> nat \<Rightarrow> string \<Rightarrow> wf_state \<Rightarrow> wf_state \<times> (string + unit)" where
  "retry_from w name fn 0 i err st = (st, Inl (''activity '' @ name @ '' failed: '' @ err))"
| "retry_from w name fn (Suc left) i err st =
     (case fn st of
        (st1, Inr detail) \<Rightarrow> (rec_step name i ''ok'' detail st1, Inr ())
      | (st1, Inl e) \<Rightarrow>
          (let st2 = rec_step name i ''failed'' e st1
           in if wCancel w (tick st2) then (next_tick st2, Inl ''context canceled'')
              else retry_from w name fn left (i + 1) e (next_tick st2)))"

definition retryActivity :: "world \<Rightarrow> string \<Rightarrow> nat \<Rightarrow> activity \<Rightarrow> wf_state \<Rightarrow> wf_state \<times> (string + unit)" where
  "retryActivity w name attempts fn st = retry_from w name fn attempts 1 '''' st"

text \<open>\<^verbatim>\<open>store.Save(inv)\<close> on the invoice the workflow holds.\<close>

definition save_inv :: "world \<Rightarrow> wf_state \<Rightarrow> wf_state \<times> save_error option" where
  "save_inv w st =
     (case SaveCtx (wDigests w) (wSave w (tick st)) (wsInv st) (wsStore st) of
        (s, v, _, e) \<Rightarrow> (next_tick (st\<lparr>wsStore := s, wsInv := v\<rparr>), e))"

fun save_error_text :: "save_error \<Rightarrow> string" where
  "save_error_text (FaultInjected e) = e"
| "save_error_text IdempotentReplay = ''idempotency key already used''"
| "save_error_text IdempotencyPayloadConflict = ''idempotency key already used with a different payload''"
| "save_error_text (Conflict c) = ''invoice conflicts with an existing record (constraint '' @ c @ '')''"
| "save_error_text FileFailed = ''file operation failed''"
| "save_error_text (PgPersist e) = ''pg persist: '' @ e"

definition upd_inv :: "(CanonicalInvoice \<Rightarrow> CanonicalInvoice) \<Rightarrow> wf_state \<Rightarrow> wf_state" where
  "upd_inv f st = st\<lparr>wsInv := f (wsInv st)\<rparr>"

text \<open>\<^verbatim>\<open>newInvoiceEvent\<close> and \<^verbatim>\<open>outbox.Publish\<close>.\<close>

definition emit :: "world \<Rightarrow> string \<Rightarrow> wf_state \<Rightarrow> wf_state \<times> (string + unit)" where
  "emit w topic st =
     (if \<not> wEvent w (tick st) then (next_tick st, Inl ''envelope failed'')
      else if \<not> wPublish w (tick st) then (next_tick st, Inl ''publish failed'')
      else (next_tick (st\<lparr>wsOutbox := wsOutbox st @ [(topic, ciID (wsInv st), IRN (wsInv st))]\<rparr>), Inr ()))"

section \<open>The steps of the lifecycle\<close>

definition act_create :: "string \<Rightarrow> activity" where
  "act_create invoiceID st =
     (case GetInvoice invoiceID (wsStore st) of
        None \<Rightarrow> (st, Inl (''invoice '' @ invoiceID @ '' not persisted''))
      | Some _ \<Rightarrow> (st, Inr (''stored draft '' @ invoiceID)))"

fun irn_error_text :: "irn_error \<Rightarrow> string" where
  "irn_error_text NoInvoiceNumber = ''invoice number is required for IRN''"
| "irn_error_text (BadServiceID s) = ''service id '' @ s @ '' invalid: must be 8 alphanumeric characters''"
| "irn_error_text (BadDateStamp d) = ''date stamp '' @ d @ '' invalid''"
| "irn_error_text (MalformedIRN i) = ''irn '' @ i @ '' malformed''"

definition act_irn_generate :: "world \<Rightarrow> activity" where
  "act_irn_generate w st =
     (if IRN (wsInv st) \<noteq> '''' then (st, Inr (''skipped: client-supplied IRN '' @ IRN (wsInv st)))
      else (case GetOrAssign (wRand w (tick st)) (BusinessID (wsInv st)) (wsReg st) of
              (r, Inl _) \<Rightarrow> (next_tick (st\<lparr>wsReg := r\<rparr>), Inl ''no entropy'')
            | (r, Inr sid) \<Rightarrow>
                (let st1 = next_tick (st\<lparr>wsReg := r\<rparr>)
                 in case BuildIRN (InvoiceNumber (wsInv st)) sid (IssueDate (wsInv st)) of
                      Inl e \<Rightarrow> (st1, Inl (irn_error_text e))
                    | Inr irn \<Rightarrow> (upd_inv (\<lambda>v. v\<lparr>ServiceID := sid, IRN := irn\<rparr>) st1, Inr (''generated '' @ irn)))))"

definition act_irn_validate :: "activity" where
  "act_irn_validate st =
     (let v = wsInv st
      in case ParseIRN (IRN v) of
           Inl e \<Rightarrow> (st, Inl (irn_error_text e))
         | Inr (num, sid, ds) \<Rightarrow>
             if num \<noteq> InvoiceNumber v then (st, Inl ''irn invoice number does not match'')
             else if ds \<noteq> (case DateStamp (IssueDate v) of Inr want \<Rightarrow> want | Inl _ \<Rightarrow> '''')
             then (st, Inl ''irn date stamp does not match'')
             else if \<not> ValidServiceID sid then (st, Inl ''irn service id invalid'')
             else (case GetByIRN (IRN v) (wsStore st) of
                     Some existing \<Rightarrow>
                       if ciID existing \<noteq> ciID v then (st, Inl ''irn already used (not unique)'')
                       else (upd_inv (\<lambda>v. v\<lparr>ServiceID := sid\<rparr>) st, Inr ''irn valid: format+uniqueness+structure ok'')
                   | None \<Rightarrow> (upd_inv (\<lambda>v. v\<lparr>ServiceID := sid\<rparr>) st, Inr ''irn valid: format+uniqueness+structure ok'')))"

definition sign_payload_of :: "digests \<Rightarrow> CanonicalInvoice \<Rightarrow> string" where
  "sign_payload_of dg v = ''NRS-IRN-SIGN-V1|'' @ IRN v @ ''|'' @ ptTIN (Supplier v) @ ''|'' @ Hash dg v"

definition act_irn_sign :: "world \<Rightarrow> activity" where
  "act_irn_sign w st =
     (let payload = sign_payload_of (wDigests w) (wsInv st)
      in case wSign w (tick st) payload of
           None \<Rightarrow> (next_tick st, Inl ''csid sign failed'')
         | Some sig \<Rightarrow>
             (next_tick (upd_inv (\<lambda>v. v\<lparr>ciStamp := Some \<lparr>stAlgorithm = ''ed25519'', stKeyID = wKeyID w, stIRN = IRN v,
                  stPayload = payload, stSignature = sig, StampedAt = wTime w (tick st)\<rparr>\<rparr>) st),
              Inr (''irn signed with '' @ wKeyID w)))"

definition act_schema :: "world \<Rightarrow> activity" where
  "act_schema w st =
     (case (if NRSPayload (wsInv st) \<noteq> '''' then wSchema w (NRSPayload (wsInv st)) else None) of
        Some e \<Rightarrow> (st, Inl e)
      | None \<Rightarrow>
          (case wValidate w (tick st) (wsInv st) False of
             Inl e \<Rightarrow> (next_tick st, Inl e)
           | Inr (violations, fatal) \<Rightarrow>
               (let st1 = next_tick (upd_inv (\<lambda>v. v\<lparr>Validation := violations\<rparr>) st)
                in if fatal then (st1, Inl ''fatal validation violations'') else (st1, Inr ''schema valid''))))"

text \<open>\<^verbatim>\<open>SignInvoiceCtx\<close>: a failed signature leaves the invoice unchanged.\<close>

definition sign_invoice :: "world \<Rightarrow> nat \<Rightarrow> CanonicalInvoice \<Rightarrow> CanonicalInvoice \<times> bool" where
  "sign_invoice w n v =
     (case wSign w n (Hash (wDigests w) v) of
        None \<Rightarrow> (v, False)
      | Some sig \<Rightarrow> (v\<lparr>CSIDSignature := sig, CSIDKeyID := wKeyID w\<rparr>, True))"

definition act_sign :: "world \<Rightarrow> activity" where
  "act_sign w st =
     (let st1 = next_tick (upd_inv (\<lambda>v. fst (sign_invoice w (tick st) v)) st);
          st2 = upd_inv (\<lambda>v. v\<lparr>SignedCoreHash := CoreHash (wDigests w) v, ciStatus := ''signed''\<rparr>) st1
      in case save_inv w st2 of
           (st3, Some e) \<Rightarrow> (st3, Inl (save_error_text e))
         | (st3, None) \<Rightarrow> (st3, Inr ''invoice signed; core fields locked''))"

definition act_transmit :: "world \<Rightarrow> activity" where
  "act_transmit w st =
     (if \<not> wNotify w (tick st) then (next_tick st, Inl ''all webhook endpoints failed'')
      else (case emit w ''nrs.einvoice.transmitted.v1'' (next_tick st) of
              (st1, Inl e) \<Rightarrow> (st1, Inl e)
            | (st1, Inr _) \<Rightarrow>
                (case save_inv w (upd_inv (\<lambda>v. v\<lparr>ciStatus := ''transmitted''\<rparr>) st1) of
                   (st2, Some e) \<Rightarrow> (st2, Inl (save_error_text e))
                 | (st2, None) \<Rightarrow> (st2, Inr ''transmitted''))))"

definition act_confirm :: "world \<Rightarrow> activity" where
  "act_confirm w st =
     (let v = wsInv st
      in case GetInvoice (ciID v) (wsStore st) of
           None \<Rightarrow> (st, Inl ''missing from store at confirmation'')
         | Some stored \<Rightarrow>
             if IRN stored \<noteq> IRN v then (st, Inl ''reconciliation: stored irn differs'')
             else if CoreHash (wDigests w) stored \<noteq> SignedCoreHash v then (st, Inl ''reconciliation: core fields diverged after signage'')
             else if PayableKobo stored \<noteq> PayableKobo v then (st, Inl ''reconciliation: payable differs'')
             else (case save_inv w (upd_inv (\<lambda>v. v\<lparr>ciStatus := ''confirmed''\<rparr>) st) of
                     (st1, Some e) \<Rightarrow> (st1, Inl (save_error_text e))
                   | (st1, None) \<Rightarrow>
                       (case emit w ''nrs.einvoice.confirmed.v1'' st1 of
                          (st2, Inl e) \<Rightarrow> (st2, Inl e)
                        | (st2, Inr _) \<Rightarrow> (st2, Inr ''reconciled; status confirmed''))))"

definition nrsFail :: "world \<Rightarrow> wf_state \<times> (string + unit) \<Rightarrow> wf_state \<times> (string + unit)" where
  "nrsFail w r = (fst (save_inv w (upd_inv (\<lambda>v. v\<lparr>ciStatus := ''failed''\<rparr>) (fst r))), snd r)"

text \<open>Run a step; a failure of steps 2 to 8 marks the invoice as failed and ends the workflow.\<close>

fun run_steps :: "world \<Rightarrow> (string \<times> activity) list \<Rightarrow> wf_state \<Rightarrow> wf_state \<times> (string + unit)" where
  "run_steps w [] st = (st, Inr ())"
| "run_steps w ((name, fn) # rest) st =
     (case retryActivity w name 3 fn st of
        (st1, Inl e) \<Rightarrow> nrsFail w (st1, Inl e)
      | (st1, Inr _) \<Rightarrow> run_steps w rest st1)"

definition nrs_steps :: "world \<Rightarrow> (string \<times> activity) list" where
  "nrs_steps w =
     [(''2-irn-generate'', act_irn_generate w), (''3-irn-validate'', act_irn_validate), (''4-irn-sign'', act_irn_sign w),
      (''5-schema-validate'', act_schema w), (''6-invoice-sign'', act_sign w), (''7-transmit'', act_transmit w),
      (''8-confirm'', act_confirm w)]"

definition wfNRSEinvoice :: "world \<Rightarrow> string \<Rightarrow> wf_state \<Rightarrow> wf_state \<times> (string + unit)" where
  "wfNRSEinvoice w invoiceID st =
     (case GetInvoice invoiceID (wsStore st) of
        None \<Rightarrow> (st, Inl (''invoice '' @ invoiceID @ '' not found''))
      | Some v \<Rightarrow>
          (case retryActivity w ''1-create-store'' 3 (act_create invoiceID) (st\<lparr>wsInv := v\<rparr>) of
             (st1, Inl e) \<Rightarrow> (st1, Inl e)
           | (st1, Inr _) \<Rightarrow> run_steps w (nrs_steps w) st1))"

section \<open>Runs, recovery and the in-flight guard\<close>

record WorkflowRun =
  wrID :: string
  wrName :: string
  wrInputID :: string
  wrSteps :: "Step list"
  wrStatus :: string

record InprocRunner =
  runs :: "WorkflowRun list"
  runSeq :: nat

definition pad6 :: "nat \<Rightarrow> string" where
  "pad6 n = replicate (6 - length (show_nat n)) (CHR ''0'') @ show_nat n"

definition RunWorkflow :: "string \<Rightarrow> (string \<Rightarrow> wf_state \<Rightarrow> wf_state \<times> (string + unit)) \<Rightarrow> string \<Rightarrow>
    InprocRunner \<times> wf_state \<Rightarrow> (InprocRunner \<times> wf_state) \<times> WorkflowRun \<times> (string + unit)" where
  "RunWorkflow name fn invoiceID = (\<lambda>(r, st).
     (let n = runSeq r + 1;
          (st1, res) = fn invoiceID (st\<lparr>wsSteps := []\<rparr>);
          run = \<lparr>wrID = ''run-'' @ name @ ''-'' @ pad6 n, wrName = name, wrInputID = invoiceID, wrSteps = wsSteps st1,
                 wrStatus = (if is_ok res then ''completed'' else ''failed'')\<rparr>
      in ((\<lparr>runs = runs r @ [run], runSeq = n\<rparr>, st1), run, res)))"

definition nrsInterimStatus :: "CanonicalInvoice option \<Rightarrow> bool" where
  "nrsInterimStatus ov =
     (case ov of None \<Rightarrow> False
      | Some v \<Rightarrow> NRSPayload v \<noteq> '''' \<and> ciStatus v \<in> {''received'', ''signed'', ''transmitted''})"

text \<open>One driver, with the set of invoices other drivers are running.\<close>

definition runNRSWorkflow :: "world \<Rightarrow> string set \<Rightarrow> string \<Rightarrow> InprocRunner \<times> wf_state \<Rightarrow>
    (InprocRunner \<times> wf_state) \<times> (WorkflowRun \<times> (string + unit)) option" where
  "runNRSWorkflow w inflight invoiceID rs =
     (if invoiceID \<in> inflight then (rs, None)
      else (case RunWorkflow ''wf-nrs-einvoice'' (wfNRSEinvoice w) invoiceID rs of (rs1, run, res) \<Rightarrow> (rs1, Some (run, res))))"

definition RecoverInterruptedNRS :: "world \<Rightarrow> string set \<Rightarrow> InprocRunner \<times> wf_state \<Rightarrow> (InprocRunner \<times> wf_state) \<times> nat" where
  "RecoverInterruptedNRS w inflight rs0 =
     fold (\<lambda>v (rs, n). if \<not> nrsInterimStatus (Some v) then (rs, n)
              else (case runNRSWorkflow w inflight (ciID v) rs of
                      (rs1, None) \<Rightarrow> (rs1, n)
                    | (rs1, Some _) \<Rightarrow> (rs1, n + 1)))
       (ListInvoices (wsStore (snd rs0))) (rs0, 0)"

text \<open>
  The guard under concurrency. The drivers (handler, retry, sweep) interleave; each takes
  the lock to enter, runs without it, and takes it again to leave. \<open>gActive i\<close> counts the
  drivers inside the workflow of invoice \<open>i\<close>.
\<close>

record guard_state =
  resumeInFlight :: "string set"
  gActive :: "string \<Rightarrow> nat"

inductive guard_step :: "guard_state \<Rightarrow> guard_state \<Rightarrow> bool" where
  enter: "i \<notin> resumeInFlight g \<Longrightarrow>
     guard_step g (g\<lparr>resumeInFlight := insert i (resumeInFlight g), gActive := (gActive g)(i := gActive g i + 1)\<rparr>)"
| refused: "i \<in> resumeInFlight g \<Longrightarrow> guard_step g g"
| leave: "0 < gActive g i \<Longrightarrow>
     guard_step g (g\<lparr>resumeInFlight := resumeInFlight g - {i}, gActive := (gActive g)(i := gActive g i - 1)\<rparr>)"

lemma guard_exclusive:
  assumes "guard_step\<^sup>*\<^sup>* \<lparr>resumeInFlight = {}, gActive = (\<lambda>_. 0)\<rparr> g"
  shows "gActive g i = (if i \<in> resumeInFlight g then 1 else 0)"
proof -
  have "\<forall>i. gActive g i = (if i \<in> resumeInFlight g then 1 else 0)"
    using assms
  proof (induction rule: rtranclp_induct)
    case (step g h)
    from step.hyps(2) step.IH show ?case by (cases rule: guard_step.cases) auto
  qed simp
  then show ?thesis by blast
qed

section \<open>Retries\<close>

text \<open>What the proofs follow: the store, the registry and the invoice in hand.\<close>

abbreviation holds :: "(InvoiceStore \<Rightarrow> ServiceIDRegistry \<Rightarrow> CanonicalInvoice \<Rightarrow> bool) \<Rightarrow> wf_state \<Rightarrow> bool" where
  "holds P st \<equiv> P (wsStore st) (wsReg st) (wsInv st)"

lemma rec_step_simps [simp]:
  "wsStore (rec_step n i a b st) = wsStore st" "wsReg (rec_step n i a b st) = wsReg st" "wsInv (rec_step n i a b st) = wsInv st"
  "tick (rec_step n i a b st) = tick st" "wsResult (rec_step n i a b st) = wsResult st" "wsOutbox (rec_step n i a b st) = wsOutbox st"
  by (simp_all add: rec_step_def)

lemma next_tick_simps [simp]:
  "wsStore (next_tick st) = wsStore st" "wsReg (next_tick st) = wsReg st" "wsInv (next_tick st) = wsInv st"
  "wsSteps (next_tick st) = wsSteps st" "wsOutbox (next_tick st) = wsOutbox st" "wsResult (next_tick st) = wsResult st"
  by (simp_all add: next_tick_def)

lemma upd_inv_simps [simp]:
  "wsStore (upd_inv f st) = wsStore st" "wsReg (upd_inv f st) = wsReg st" "wsInv (upd_inv f st) = f (wsInv st)"
  "wsResult (upd_inv f st) = wsResult st" "wsOutbox (upd_inv f st) = wsOutbox st" "tick (upd_inv f st) = tick st"
  by (simp_all add: upd_inv_def)

text \<open>
  A property that failed attempts keep holds before the successful attempt, or at the end.
  The first rule is for any property of the state that recording a step keeps.
\<close>

lemma retry_rule_state:
  assumes "retryActivity w name n fn st = (st', r)" "P st"
    and frame: "\<And>s m i a b. P s \<Longrightarrow> P (rec_step m i a b s)" "\<And>s. P s \<Longrightarrow> P (next_tick s)" "\<And>s m i a b. Q s \<Longrightarrow> Q (rec_step m i a b s)"
    and keep: "\<And>s s' e. P s \<Longrightarrow> fn s = (s', Inl e) \<Longrightarrow> P s'"
    and succ: "\<And>s s' d. P s \<Longrightarrow> fn s = (s', Inr d) \<Longrightarrow> Q s'"
  shows "case r of Inr _ \<Rightarrow> Q st' | Inl _ \<Rightarrow> P st'"
proof -
  have "case r of Inr _ \<Rightarrow> Q st' | Inl _ \<Rightarrow> P st'"
    if "retry_from w name fn n i err st = (st', r)" "P st" for i err st
    using that
  proof (induction n arbitrary: i err st)
    case (Suc left)
    obtain st1 x where f: "fn st = (st1, x)" by fastforce
    show ?case
    proof (cases x)
      case (Inl e)
      have "P (next_tick (rec_step name i ''failed'' e st1))" using keep [OF Suc.prems(2)] f Inl frame(1,2) by blast
      with Suc.IH [of "i + 1" e "next_tick (rec_step name i ''failed'' e st1)"] Suc.prems(1) f Inl show ?thesis
        by (auto simp: Let_def split: if_splits)
    next
      case (Inr d)
      with succ [OF Suc.prems(2)] Suc.prems(1) f frame(3) show ?thesis by auto
    qed
  qed auto
  then show ?thesis using assms(1,2) by (simp add: retryActivity_def)
qed

lemma retry_rule:
  assumes "retryActivity w name n fn st = (st', r)" "holds P st"
    and keep: "\<And>s s' e. holds P s \<Longrightarrow> fn s = (s', Inl e) \<Longrightarrow> holds P s'"
    and succ: "\<And>s s' d. holds P s \<Longrightarrow> fn s = (s', Inr d) \<Longrightarrow> holds Q s'"
  shows "case r of Inr _ \<Rightarrow> holds Q st' | Inl _ \<Rightarrow> holds P st'"
  using assms(1,2) by (rule retry_rule_state [where P = "\<lambda>s. holds P s" and Q = "\<lambda>s. holds Q s"]) (use keep succ in auto)

section \<open>What a successful lifecycle leaves behind\<close>

lemma save_inv_cases:
  assumes "save_inv w st = (st', e)"
  obtains (refused) "e \<noteq> None" "byID (wsStore st') = byID (wsStore st)" "byIRN (wsStore st') = byIRN (wsStore st)"
      "wsReg st' = wsReg st" "wsInv st' = wsInv st \<or> (\<exists>n. wsInv st' = stamp_times n (wsInv st))"
  | (saved) n where "e = None" "wsReg st' = wsReg st" "wsInv st' = stamp_times n (wsInv st)"
      "byID (wsStore st') = (byID (wsStore st))(ciID (wsInv st) \<mapsto> stamp_times n (wsInv st))"
      "byIRN (wsStore st') = (if IRN (wsInv st) \<noteq> '''' then (byIRN (wsStore st))(IRN (wsInv st) \<mapsto> ciID (wsInv st)) else byIRN (wsStore st))"
proof -
  let ?r = "SaveCtx (wDigests w) (wSave w (tick st)) (wsInv st) (wsStore st)"
  have st': "wsStore st' = fst ?r" "wsInv st' = fst (snd ?r)" "wsReg st' = wsReg st" "e = snd (snd (snd ?r))"
    using assms by (auto simp: save_inv_def split: prod.splits)
  show ?thesis
  proof (cases rule: SaveCtx_store [of "wDigests w" "wSave w (tick st)" "wsInv st" "wsStore st"])
    case same
    with st' show ?thesis by (intro refused) auto
  next
    case saved
    with st' show ?thesis by (intro that(2) [of "saveNow (wSave w (tick st))"]) (simp_all add: index_def)
  qed
qed

text \<open>The invoice in hand is still the one the workflow was started for.\<close>

definition same_invoice :: "CanonicalInvoice \<Rightarrow> CanonicalInvoice \<Rightarrow> bool" where
  "same_invoice v0 v \<longleftrightarrow> ciID v = ciID v0 \<and> core_of v = core_of v0 \<and> ciTenantID v = ciTenantID v0 \<and>
     (IRN v0 \<noteq> '''' \<longrightarrow> IRN v = IRN v0)"

definition irn_good :: "CanonicalInvoice \<Rightarrow> bool" where
  "irn_good v \<longleftrightarrow> (\<exists>sid ds. ParseIRN (IRN v) = Inr (InvoiceNumber v, sid, ds) \<and> DateStamp (IssueDate v) = Inr ds)"

lemma same_invoice_stamp [simp]: "same_invoice v0 (stamp_times n v) = same_invoice v0 v" "irn_good (stamp_times n v) = irn_good v"
  by (simp_all add: same_invoice_def irn_good_def)

definition untouched :: "InvoiceStore \<Rightarrow> InvoiceStore \<Rightarrow> bool" where
  "untouched s0 s \<longleftrightarrow> byID s = byID s0 \<and> byIRN s = byIRN s0"

definition drafted :: "InvoiceStore \<Rightarrow> CanonicalInvoice \<Rightarrow> InvoiceStore \<Rightarrow> ServiceIDRegistry \<Rightarrow> CanonicalInvoice \<Rightarrow> bool" where
  "drafted s0 v0 s r v \<longleftrightarrow> same_invoice v0 v \<and> untouched s0 s"

definition numbered :: "InvoiceStore \<Rightarrow> CanonicalInvoice \<Rightarrow> InvoiceStore \<Rightarrow> ServiceIDRegistry \<Rightarrow> CanonicalInvoice \<Rightarrow> bool" where
  "numbered s0 v0 s r v \<longleftrightarrow> drafted s0 v0 s r v \<and> irn_good v \<and>
     (byIRN s0 (IRN v) = None \<or> byIRN s0 (IRN v) = Some (ciID v0))"

text \<open>The stored record of a signed invoice carries the hash of its own core.\<close>

definition locked :: "digests \<Rightarrow> string set \<Rightarrow> InvoiceStore \<Rightarrow> CanonicalInvoice \<Rightarrow> InvoiceStore \<Rightarrow> ServiceIDRegistry \<Rightarrow> CanonicalInvoice \<Rightarrow> bool" where
  "locked dg statuses s0 v0 s r v \<longleftrightarrow> same_invoice v0 v \<and> irn_good v \<and> SignedCoreHash v = CoreHash dg v \<and>
     (byIRN s0 (IRN v) = None \<or> byIRN s0 (IRN v) = Some (ciID v0)) \<and>
     (\<exists>u. byID s (ciID v0) = Some u \<and> same_invoice v0 u \<and> IRN u = IRN v \<and> SignedCoreHash u = CoreHash dg u \<and> ciStatus u \<in> statuses) \<and>
     byIRN s (IRN v) = Some (ciID v0) \<and> (\<forall>j. j \<noteq> ciID v0 \<longrightarrow> byID s j = byID s0 j) \<and>
     (\<forall>i. i \<noteq> IRN v \<longrightarrow> byIRN s i = byIRN s0 i)"

lemma irn_good_nonempty: "irn_good v \<Longrightarrow> IRN v \<noteq> ''''"
proof
  assume "irn_good v" "IRN v = ''''"
  then obtain num sid ds where "ParseIRN '''' = Inr (num, sid, ds)" by (auto simp: irn_good_def)
  from ParseIRN_shape(1) [OF this] show False by simp
qed

text \<open>Saving a locked invoice under a new status keeps it locked.\<close>

lemma locked_save:
  assumes "save_inv w st = (st', e)" "holds (locked (wDigests w) A s0 v0) (st\<lparr>wsInv := v\<rparr>)"
    "wsInv st = v\<lparr>ciStatus := x\<rparr>"
  shows "case e of Some _ \<Rightarrow> holds (locked (wDigests w) A s0 v0) st' | None \<Rightarrow> holds (locked (wDigests w) {x} s0 v0) st'"
proof -
  let ?dg = "wDigests w"
  have inv: "same_invoice v0 (wsInv st) \<and> irn_good (wsInv st) \<and> SignedCoreHash (wsInv st) = CoreHash ?dg (wsInv st) \<and>
      IRN (wsInv st) = IRN v \<and> ciID (wsInv st) = ciID v0 \<and> ciStatus (wsInv st) = x"
    using assms(2,3) by (auto simp: locked_def same_invoice_def irn_good_def CoreHash_def core_of_def)
  show ?thesis
    using assms(1)
  proof (cases rule: save_inv_cases)
    case refused
    have v': "same_invoice v0 (wsInv st') \<and> irn_good (wsInv st') \<and> SignedCoreHash (wsInv st') = CoreHash ?dg (wsInv st') \<and> IRN (wsInv st') = IRN v"
      using refused(5) inv by (auto simp: CoreHash_def)
    with refused assms(2) show ?thesis by (cases e) (auto simp: locked_def)
  next
    case (saved n)
    have ne: "IRN v \<noteq> ''''" using inv irn_good_nonempty [of "wsInv st"] by auto
    let ?u = "stamp_times n (wsInv st)"
    have u: "same_invoice v0 ?u \<and> irn_good ?u \<and> SignedCoreHash ?u = CoreHash ?dg ?u \<and> IRN ?u = IRN v \<and> ciID ?u = ciID v0 \<and> ciStatus ?u = x"
      using inv by (simp add: CoreHash_def)
    have old: "byIRN s0 (IRN v) = None \<or> byIRN s0 (IRN v) = Some (ciID v0)" "\<forall>j. j \<noteq> ciID v0 \<longrightarrow> byID (wsStore st) j = byID s0 j"
      "\<forall>i. i \<noteq> IRN v \<longrightarrow> byIRN (wsStore st) i = byIRN s0 i"
      using assms(2) by (auto simp: locked_def)
    show ?thesis
      unfolding locked_def saved(1,3-5) option.case using u old inv ne by simp
  qed
qed

lemma locked_mono: "locked dg A s0 v0 s r v \<Longrightarrow> A \<subseteq> B \<Longrightarrow> locked dg B s0 v0 s r v"
  unfolding locked_def by blast

lemma core_irn: "core_of (v\<lparr>ServiceID := a, IRN := b\<rparr>) = core_of v" "core_of (v\<lparr>ServiceID := a\<rparr>) = core_of v"
  "core_of (v\<lparr>ciStamp := c\<rparr>) = core_of v" "core_of (v\<lparr>Validation := d\<rparr>) = core_of v" "core_of (v\<lparr>ciStatus := e\<rparr>) = core_of v"
  "core_of (v\<lparr>SignedCoreHash := f\<rparr>) = core_of v" "core_of (v\<lparr>CSIDSignature := g, CSIDKeyID := h\<rparr>) = core_of v"
  by (simp_all add: core_of_def)

lemma drafted_generate:
  assumes "holds (drafted s0 v0) st" "act_irn_generate w st = (st', x)"
  shows "holds (drafted s0 v0) st'"
  using assms
  by (auto simp: act_irn_generate_def drafted_def same_invoice_def core_irn Let_def split: if_splits prod.splits sum.splits)

lemma DateStamp_nonempty: "DateStamp x = Inr d \<Longrightarrow> d \<noteq> ''''"
  using DateStamp_ok(1) by fastforce

lemma numbered_validate:
  assumes "holds (drafted s0 v0) st" "act_irn_validate st = (st', Inr d)" "store_ok s0"
  shows "holds (numbered s0 v0) st'"
proof -
  obtain num sid ds where p: "ParseIRN (IRN (wsInv st)) = Inr (num, sid, ds)" "num = InvoiceNumber (wsInv st)"
    "ds = (case DateStamp (IssueDate (wsInv st)) of Inr want \<Rightarrow> want | Inl _ \<Rightarrow> '''')"
    and u: "\<forall>ex. GetByIRN (IRN (wsInv st)) (wsStore st) = Some ex \<longrightarrow> ciID ex = ciID (wsInv st)"
    and st': "st' = upd_inv (\<lambda>v. v\<lparr>ServiceID := sid\<rparr>) st"
    using assms(2) by (auto simp: act_irn_validate_def Let_def split: sum.splits prod.splits if_splits option.splits)
  have "is_ok (DateStamp ds)" using ParseIRN_shape(4) [OF p(1)] .
  then have "ds \<noteq> ''''" using DateStamp_nonempty [of ds] by (auto simp: is_ok_iff DateStamp_def Let_def split: if_splits option.splits)
  then have ds: "DateStamp (IssueDate (wsInv st)) = Inr ds" using p(3) by (auto split: sum.splits)
  have d: "same_invoice v0 (wsInv st)" "byID (wsStore st) = byID s0" "byIRN (wsStore st) = byIRN s0"
    using assms(1) by (simp_all add: drafted_def untouched_def)
  have uniq: "byIRN s0 (IRN (wsInv st)) = None \<or> byIRN s0 (IRN (wsInv st)) = Some (ciID v0)"
  proof (cases "byIRN s0 (IRN (wsInv st))")
    case (Some j)
    then have "j \<in> dom (byID s0)" using assms(3) by (auto simp: store_ok_def ran_def)
    then obtain ex where ex: "byID s0 j = Some ex" by blast
    then have "ciID ex = j" using assms(3) by (simp add: store_ok_def)
    moreover have "ciID ex = ciID (wsInv st)" using u Some ex d by (simp add: GetByIRN_def)
    ultimately show ?thesis using Some d(1) by (simp add: same_invoice_def)
  qed simp
  have "irn_good (wsInv st)" using p(1) [unfolded p(2)] ds unfolding irn_good_def by blast
  then show ?thesis
    using assms(1) uniq by (simp add: st' numbered_def drafted_def same_invoice_def irn_good_def core_irn)
qed

lemma drafted_validate_fail: "act_irn_validate st = (st', Inl e) \<Longrightarrow> st' = st"
  by (auto simp: act_irn_validate_def Let_def split: sum.splits prod.splits if_splits option.splits)

lemma numbered_upd:
  assumes "numbered s0 v0 s r v" "core_of v' = core_of v" "ciID v' = ciID v" "IRN v' = IRN v" "ciTenantID v' = ciTenantID v"
  shows "numbered s0 v0 s r v'"
proof -
  have "InvoiceNumber v' = InvoiceNumber v" "IssueDate v' = IssueDate v" using assms(2) by (simp_all add: core_of_def)
  with assms show ?thesis by (simp add: numbered_def drafted_def same_invoice_def irn_good_def)
qed

lemma numbered_irn_sign:
  assumes "holds (numbered s0 v0) st" "act_irn_sign w st = (st', x)"
  shows "holds (numbered s0 v0) st'"
  using assms by (auto simp: act_irn_sign_def Let_def core_irn split: option.splits elim!: numbered_upd)

lemma numbered_schema:
  assumes "holds (numbered s0 v0) st" "act_schema w st = (st', x)"
  shows "holds (numbered s0 v0) st'"
  using assms by (auto simp: act_schema_def Let_def core_irn split: option.splits sum.splits prod.splits if_splits elim!: numbered_upd)

lemma sign_invoice_frame:
  "core_of (fst (sign_invoice w n v)) = core_of v" "ciID (fst (sign_invoice w n v)) = ciID v"
  "IRN (fst (sign_invoice w n v)) = IRN v" "ciTenantID (fst (sign_invoice w n v)) = ciTenantID v"
  by (simp_all add: sign_invoice_def core_irn split: option.split)

lemma act_sign_rule:
  assumes "holds (numbered s0 v0) st" "act_sign w st = (st', x)"
  shows "case x of Inl _ \<Rightarrow> holds (numbered s0 v0) st' | Inr _ \<Rightarrow> holds (locked (wDigests w) {''signed''} s0 v0) st'"
proof -
  let ?f = "\<lambda>v. let u = fst (sign_invoice w (tick st) v) in u\<lparr>SignedCoreHash := CoreHash (wDigests w) u, ciStatus := ''signed''\<rparr>"
  let ?v = "?f (wsInv st)"
  obtain st2 e where s: "save_inv w st2 = (st', e)" "wsStore st2 = wsStore st" "wsReg st2 = wsReg st" "wsInv st2 = ?v"
    and x: "x = (case e of Some er \<Rightarrow> Inl (save_error_text er) | None \<Rightarrow> Inr ''invoice signed; core fields locked'')"
    using assms(2) by (auto simp: act_sign_def Let_def split: prod.splits option.splits)
  have v: "core_of ?v = core_of (wsInv st)" "ciID ?v = ciID (wsInv st)" "IRN ?v = IRN (wsInv st)" "ciTenantID ?v = ciTenantID (wsInv st)"
    "SignedCoreHash ?v = CoreHash (wDigests w) ?v" "ciStatus ?v = ''signed''"
    by (simp_all add: Let_def core_irn sign_invoice_frame CoreHash_def)
  have n: "numbered s0 v0 (wsStore st) (wsReg st) ?v" by (rule numbered_upd [OF assms(1) v(1-4)])
  show ?thesis
    using s(1)
  proof (cases rule: save_inv_cases)
    case refused
    then obtain er where er: "e = Some er" by blast
    have "numbered s0 v0 (wsStore st') (wsReg st') (wsInv st')"
      using refused n s(2-4) by (auto simp: numbered_def drafted_def untouched_def)
    then show ?thesis using x er by simp
  next
    case (saved m)
    have id: "ciID ?v = ciID v0" and si: "same_invoice v0 ?v" and g: "irn_good ?v" and un: "untouched s0 (wsStore st)"
      and uq: "byIRN s0 (IRN ?v) = None \<or> byIRN s0 (IRN ?v) = Some (ciID v0)"
      using n by (auto simp: numbered_def drafted_def same_invoice_def)
    note fields = saved(2-5) [unfolded s(2-4)]
    have "locked (wDigests w) {''signed''} s0 v0 (wsStore st') (wsReg st') (wsInv st')"
      unfolding locked_def fields using id si g un uq v(5,6) irn_good_nonempty [OF g]
      by (simp add: untouched_def CoreHash_def del: Let_def)
    then show ?thesis using x saved(1) by simp
  qed
qed


lemma emit_frame:
  assumes "emit w topic st = (st', x)"
  shows "wsStore st' = wsStore st \<and> wsReg st' = wsReg st \<and> wsInv st' = wsInv st"
  using assms by (auto simp: emit_def split: if_splits)

lemma act_transmit_rule:
  assumes "holds (locked (wDigests w) {''signed''} s0 v0) st" "act_transmit w st = (st', x)"
  shows "case x of Inl _ \<Rightarrow> holds (locked (wDigests w) {''signed''} s0 v0) st' | Inr _ \<Rightarrow> holds (locked (wDigests w) {''transmitted''} s0 v0) st'"
proof (cases "wNotify w (tick st)")
  case False
  with assms show ?thesis by (auto simp: act_transmit_def)
next
  case True
  obtain st1 y where e: "emit w ''nrs.einvoice.transmitted.v1'' (next_tick st) = (st1, y)" by fastforce
  note f = emit_frame [OF e]
  show ?thesis
  proof (cases y)
    case (Inl er)
    with True e assms f show ?thesis by (auto simp: act_transmit_def)
  next
    case (Inr u)
    let ?st2 = "upd_inv (\<lambda>v. v\<lparr>ciStatus := ''transmitted''\<rparr>) st1"
    obtain st3 er where s: "save_inv w ?st2 = (st3, er)" by fastforce
    have st': "st' = st3" "x = (case er of Some e \<Rightarrow> Inl (save_error_text e) | None \<Rightarrow> Inr ''transmitted'')"
      using assms(2) True e Inr s by (auto simp: act_transmit_def split: option.splits)
    have "case er of Some _ \<Rightarrow> holds (locked (wDigests w) {''signed''} s0 v0) st3 | None \<Rightarrow> holds (locked (wDigests w) {''transmitted''} s0 v0) st3"
      by (rule locked_save [OF s, where v = "wsInv st"]) (use assms(1) f in simp_all)
    then show ?thesis using st' by (cases er) simp_all
  qed
qed

lemma act_confirm_rule:
  assumes "holds (locked (wDigests w) {''transmitted'', ''confirmed''} s0 v0) st" "act_confirm w st = (st', x)"
  shows "case x of Inl _ \<Rightarrow> holds (locked (wDigests w) {''transmitted'', ''confirmed''} s0 v0) st' | Inr _ \<Rightarrow> holds (locked (wDigests w) {''confirmed''} s0 v0) st'"
proof (cases "st' = st \<and> \<not> is_ok x")
  case True
  with assms show ?thesis by (cases x) auto
next
  case False
  let ?st1 = "upd_inv (\<lambda>v. v\<lparr>ciStatus := ''confirmed''\<rparr>) st"
  obtain st2 er where s: "save_inv w ?st1 = (st2, er)" by fastforce
  have rest: "(st', x) = (case er of Some e \<Rightarrow> (st2, Inl (save_error_text e))
      | None \<Rightarrow> (case emit w ''nrs.einvoice.confirmed.v1'' st2 of (st3, Inl e) \<Rightarrow> (st3, Inl e) | (st3, Inr _) \<Rightarrow> (st3, Inr ''reconciled; status confirmed'')))"
    using assms(2) False s by (auto simp: act_confirm_def Let_def split: option.splits if_splits prod.splits)
  have sv: "case er of Some _ \<Rightarrow> holds (locked (wDigests w) {''transmitted'', ''confirmed''} s0 v0) st2 | None \<Rightarrow> holds (locked (wDigests w) {''confirmed''} s0 v0) st2"
    by (rule locked_save [OF s, where v = "wsInv st"]) (use assms(1) in simp_all)
  show ?thesis
  proof (cases er)
    case (Some e)
    with rest sv show ?thesis by simp
  next
    case None
    obtain st3 y where e: "emit w ''nrs.einvoice.confirmed.v1'' st2 = (st3, y)" by fastforce
    have "holds (locked (wDigests w) {''confirmed''} s0 v0) st3" using emit_frame [OF e] sv None by simp
    then show ?thesis using rest None e by (cases y) (auto elim: locked_mono)
  qed
qed

text \<open>All eight steps.\<close>

lemma retry_ok:
  assumes "retryActivity w name n fn st = (st', Inr u)" "holds P st"
    and step: "\<And>s s' x. holds P s \<Longrightarrow> fn s = (s', x) \<Longrightarrow> (case x of Inl _ \<Rightarrow> holds P s' | Inr _ \<Rightarrow> holds Q s')"
  shows "holds Q st'"
proof -
  have "case (Inr u :: string + unit) of Inr _ \<Rightarrow> holds Q st' | Inl _ \<Rightarrow> holds P st'"
    by (rule retry_rule [where P = P, OF assms(1,2)]) (use step in fastforce)+
  then show ?thesis by simp
qed

lemma run_step_ok:
  assumes "run_steps w ((name, fn) # rest) st = (st', Inr u)" "holds P st"
    and "\<And>s s' x. holds P s \<Longrightarrow> fn s = (s', x) \<Longrightarrow> (case x of Inl _ \<Rightarrow> holds P s' | Inr _ \<Rightarrow> holds Q s')"
  obtains st1 where "holds Q st1" "run_steps w rest st1 = (st', Inr u)"
proof -
  obtain st1 where r: "retryActivity w name 3 fn st = (st1, Inr ())" "run_steps w rest st1 = (st', Inr u)"
    using assms(1) by (auto simp: nrsFail_def split: prod.splits sum.splits)
  have "holds Q st1" by (rule retry_ok [where P = P and Q = Q, OF r(1) assms(2,3)])
  then show ?thesis using r(2) by (rule that)
qed

lemma lifecycle_locked:
  assumes run: "wfNRSEinvoice w i st = (st', Inr u)" and ok: "store_ok (wsStore st)" and v0: "byID (wsStore st) i = Some v0"
  shows "holds (locked (wDigests w) {''confirmed''} (wsStore st) v0) st'"
proof -
  let ?D = "drafted (wsStore st) v0" and ?N = "numbered (wsStore st) v0" and ?L = "\<lambda>A. locked (wDigests w) A (wsStore st) v0"
  obtain st1 where r1: "retryActivity w ''1-create-store'' 3 (act_create i) (st\<lparr>wsInv := v0\<rparr>) = (st1, Inr ())"
    and r: "run_steps w (nrs_steps w) st1 = (st', Inr u)"
    using run v0 by (auto simp: wfNRSEinvoice_def GetInvoice_def split: prod.splits sum.splits)
  have start: "holds ?D (st\<lparr>wsInv := v0\<rparr>)" by (simp add: drafted_def same_invoice_def untouched_def)
  have frame: "s' = s" if "act_create i s = (s', y)" for s s' y
    using that by (auto simp: act_create_def split: option.splits)
  have d1: "holds ?D st1"
    by (rule retry_ok [where P = ?D and Q = ?D, OF r1 start]) (use frame in \<open>auto split: sum.split\<close>)
  obtain st2 where d2: "holds ?D st2" and r: "run_steps w (tl (nrs_steps w)) st2 = (st', Inr u)"
    using r unfolding nrs_steps_def list.sel
    by (rule run_step_ok [where P = ?D and Q = ?D, OF _ d1]) (simp add: drafted_generate split: sum.split)
  obtain st3 where d3: "holds ?N st3" and r: "run_steps w (tl (tl (nrs_steps w))) st3 = (st', Inr u)"
    using r unfolding nrs_steps_def list.sel
    by (rule run_step_ok [where P = ?D and Q = ?N, OF _ d2])
       (auto dest: drafted_validate_fail intro: numbered_validate [OF _ _ ok] split: sum.split)
  obtain st4 where d4: "holds ?N st4" and r: "run_steps w ((''5-schema-validate'', act_schema w) # [(''6-invoice-sign'', act_sign w), (''7-transmit'', act_transmit w), (''8-confirm'', act_confirm w)]) st4 = (st', Inr u)"
    using r unfolding nrs_steps_def list.sel
    by (rule run_step_ok [where P = ?N and Q = ?N, OF _ d3]) (simp_all add: numbered_irn_sign split: sum.split)
  obtain st5 where d5: "holds ?N st5" and r: "run_steps w [(''6-invoice-sign'', act_sign w), (''7-transmit'', act_transmit w), (''8-confirm'', act_confirm w)] st5 = (st', Inr u)"
    using r by (rule run_step_ok [where P = ?N and Q = ?N, OF _ d4]) (simp_all add: numbered_schema split: sum.split)
  obtain st6 where d6: "holds (?L {''signed''}) st6" and r: "run_steps w [(''7-transmit'', act_transmit w), (''8-confirm'', act_confirm w)] st6 = (st', Inr u)"
    using r by (rule run_step_ok [where P = ?N and Q = "?L {''signed''}", OF _ d5 act_sign_rule])
  obtain st7 where d7: "holds (?L {''transmitted''}) st7" and r: "run_steps w [(''8-confirm'', act_confirm w)] st7 = (st', Inr u)"
    using r by (rule run_step_ok [where P = "?L {''signed''}" and Q = "?L {''transmitted''}", OF _ d6 act_transmit_rule])
  have "holds (?L {''transmitted'', ''confirmed''}) st7" using d7 by (rule locked_mono) simp
  with r obtain st8 where "holds (?L {''confirmed''}) st8" "run_steps w [] st8 = (st', Inr u)"
    by (rule run_step_ok [where P = "?L {''transmitted'', ''confirmed''}" and Q = "?L {''confirmed''}", OF _ _ act_confirm_rule])
  then show ?thesis by simp
qed

end
