(* ===== verification/Einv_Preclear.thy ===== *)
theory Einv_Preclear
  imports Einv_Lifecycle
begin

text \<open>
  Pre-clearance: the MBS client interface with the sandbox simulator
  (\<^verbatim>\<open>services/einvoicing/mbs.go\<close>), the router from tenants to access-point providers
  (\<^verbatim>\<open>router.go\<close>) and the workflow \<^verbatim>\<open>wf-mbs-preclearance\<close> (\<^verbatim>\<open>workflow.go\<close>).

  A client is the record \<open>MBSClient\<close> of its methods; the answer to a call may depend on the
  running index of \<open>Einv_Lifecycle\<close>, so a client may fail now and answer later. The HTTP
  client and the live rail are values of this type about which nothing is assumed. The
  generator of UBL documents is a parameter of the workflow.
\<close>

section \<open>Clients\<close>

record B2CReportReceipt =
  rcReportID :: string
  rcIRN :: string
  rcAcceptedAt :: string
  rcStatus :: string

record MBSClient =
  mbsName :: string
  mbsPreclear :: "nat \<Rightarrow> CanonicalInvoice \<Rightarrow> string \<Rightarrow> string + ClearanceResult"
  mbsReportB2C :: "nat \<Rightarrow> CanonicalInvoice \<Rightarrow> string + B2CReportReceipt"

definition sandboxServiceID :: string where
  "sandboxServiceID = ''MBSSIM01''"

definition stampPayload :: "string \<Rightarrow> string \<Rightarrow> string \<Rightarrow> string" where
  "stampPayload irn invoiceHash ts = ''MBS-STAMP-V1|'' @ irn @ ''|'' @ invoiceHash @ ''|'' @ ts"

definition rejected :: "string \<Rightarrow> ClearanceResult" where
  "rejected reason = \<lparr>crIRN = '''', crStamp = None, crStatus = ''rejected'', crReason = reason, crClearedAt = ''''\<rparr>"

text \<open>The simulator; \<open>sign\<close> is its stamping key, \<open>ts\<close> its clock, \<open>n\<close> its sequence counter.\<close>

definition SandboxPreclear :: "digests \<Rightarrow> (string \<Rightarrow> string) \<Rightarrow> string \<Rightarrow> CanonicalInvoice \<Rightarrow> nat \<Rightarrow> nat \<times> ClearanceResult" where
  "SandboxPreclear dg sign ts v n =
     (if CSIDSignature v = '''' then (n, rejected ''invoice not CSID-signed'')
      else (let svcID = (if ValidServiceID (ServiceID v) then ServiceID v else sandboxServiceID)
            in case BuildIRN (InvoiceNumber v) svcID (IssueDate v) of
                 Inl e \<Rightarrow> (n, rejected (''IRN build: '' @ irn_error_text e))
               | Inr irn \<Rightarrow>
                   (let payload = stampPayload irn (Hash dg v) ts
                    in (n + 1, \<lparr>crIRN = irn,
                         crStamp = Some \<lparr>stAlgorithm = ''ed25519'', stKeyID = ''mbs-sandbox-2026'', stIRN = irn, stPayload = payload,
                                         stSignature = sign payload, StampedAt = ts\<rparr>,
                         crStatus = ''cleared'', crReason = '''', crClearedAt = ts\<rparr>))))"

definition pad8 :: "nat \<Rightarrow> string" where
  "pad8 n = replicate (8 - length (show_nat n)) (CHR ''0'') @ show_nat n"

definition SandboxReportB2C :: "string \<Rightarrow> CanonicalInvoice \<Rightarrow> nat \<Rightarrow> nat \<times> B2CReportReceipt" where
  "SandboxReportB2C ts v n =
     (n + 1, \<lparr>rcReportID = ''B2C-RPT-'' @ pad8 (n + 1), rcIRN = IRN v, rcAcceptedAt = ts, rcStatus = ''accepted''\<rparr>)"

text \<open>The simulator as a client, given its clock and its counter at each index.\<close>

definition SandboxMBS :: "digests \<Rightarrow> (string \<Rightarrow> string) \<Rightarrow> (nat \<Rightarrow> string) \<Rightarrow> (nat \<Rightarrow> nat) \<Rightarrow> MBSClient" where
  "SandboxMBS dg sign ts cnt =
     \<lparr>mbsName = ''mbs-sandbox'',
      mbsPreclear = (\<lambda>n v xml. Inr (snd (SandboxPreclear dg sign (ts n) v (cnt n)))),
      mbsReportB2C = (\<lambda>n v. Inr (snd (SandboxReportB2C (ts n) v (cnt n))))\<rparr>"

section \<open>The router\<close>

record APP =
  appID :: string
  appClient :: MBSClient
  appKind :: string

record APPRouter =
  apps :: "string \<rightharpoonup> APP"
  routes :: "string \<rightharpoonup> string"

definition RegisterAPP :: "APP \<Rightarrow> APPRouter \<Rightarrow> APPRouter" where
  "RegisterAPP a r = r\<lparr>apps := (apps r)(appID a \<mapsto> a)\<rparr>"

definition Route :: "string \<Rightarrow> string \<Rightarrow> APPRouter \<Rightarrow> APPRouter" where
  "Route tenantID app r = r\<lparr>routes := (routes r)(tenantID \<mapsto> app)\<rparr>"

definition add_route :: "string \<Rightarrow> APPRouter \<Rightarrow> APPRouter" where
  "add_route pair r = (case split_first (CHR ''='') (TrimSpace pair) of None \<Rightarrow> r | Some (k, v) \<Rightarrow> Route k v r)"

definition NewAPPRouter :: "MBSClient \<Rightarrow> bool \<Rightarrow> string \<Rightarrow> APPRouter" where
  "NewAPPRouter defaultClient isHTTP routesEnv =
     (let r = Route ''*'' (mbsName defaultClient)
                (RegisterAPP \<lparr>appID = mbsName defaultClient, appClient = defaultClient, appKind = (if isHTTP then ''http'' else ''simulator'')\<rparr>
                   \<lparr>apps = Map.empty, routes = Map.empty\<rparr>)
      in if routesEnv \<noteq> '''' then fold add_route (split_on (CHR '','') routesEnv) r else r)"

definition ResolveAPP :: "string \<Rightarrow> APPRouter \<Rightarrow> string + APP" where
  "ResolveAPP tenantID r =
     (let app = (case routes r tenantID of Some a \<Rightarrow> a | None \<Rightarrow> (case routes r ''*'' of Some a \<Rightarrow> a | None \<Rightarrow> ''''))
      in case apps r app of None \<Rightarrow> Inl (''no APP for tenant '' @ tenantID) | Some a \<Rightarrow> Inr a)"

definition RoutePreclear :: "nat \<Rightarrow> CanonicalInvoice \<Rightarrow> string \<Rightarrow> APPRouter \<Rightarrow> string + (ClearanceResult \<times> string)" where
  "RoutePreclear n v xml r =
     (case ResolveAPP (ciTenantID v) r of
        Inl e \<Rightarrow> Inl e
      | Inr a \<Rightarrow> (case mbsPreclear (appClient a) n v xml of Inl e \<Rightarrow> Inl e | Inr res \<Rightarrow> Inr (res, appID a)))"

definition RouteReportB2C :: "nat \<Rightarrow> CanonicalInvoice \<Rightarrow> APPRouter \<Rightarrow> string + (B2CReportReceipt \<times> string)" where
  "RouteReportB2C n v r =
     (case ResolveAPP (ciTenantID v) r of
        Inl e \<Rightarrow> Inl e
      | Inr a \<Rightarrow> (case mbsReportB2C (appClient a) n v of Inl e \<Rightarrow> Inl e | Inr res \<Rightarrow> Inr (res, appID a)))"

section \<open>The workflow\<close>

definition act_validate :: "world \<Rightarrow> activity" where
  "act_validate w st =
     (case wValidate w (tick st) (wsInv st) (IsDuplicate (wsInv st) (wsStore st)) of
        Inl e \<Rightarrow> (next_tick st, Inl e)
      | Inr (violations, fatal) \<Rightarrow>
          (let st1 = next_tick (upd_inv (\<lambda>v. v\<lparr>Validation := violations\<rparr>) st)
           in if fatal then (st1, Inl (''fatal validation violations: '' @ show_nat (length violations)))
              else (st1, Inr (''validated against 2 packs, '' @ show_nat (length violations) @ '' warnings''))))"

definition act_csid :: "world \<Rightarrow> activity" where
  "act_csid w st =
     (case sign_invoice w (tick st) (wsInv st) of
        (v, True) \<Rightarrow> (next_tick (st\<lparr>wsInv := v\<rparr>), Inr (''signed with '' @ wKeyID w))
      | (v, False) \<Rightarrow> (next_tick st, Inl ''csid sign failed''))"

definition act_ubl :: "(CanonicalInvoice \<Rightarrow> string option) \<Rightarrow> activity" where
  "act_ubl ubl st =
     (case ubl (wsInv st) of
        None \<Rightarrow> (st, Inl ''ubl error'')
      | Some xml \<Rightarrow> (upd_inv (\<lambda>v. v\<lparr>UBLXML := xml\<rparr>) st, Inr (''UBL 2.1 generated ('' @ show_nat (length xml) @ '' bytes)'')))"

text \<open>\<^verbatim>\<open>ublXML\<close> is the document that the previous step stored on the invoice.\<close>

definition act_submit :: "APPRouter \<Rightarrow> activity" where
  "act_submit r st =
     (case RoutePreclear (tick st) (wsInv st) (UBLXML (wsInv st)) r of
        Inl e \<Rightarrow> (next_tick (st\<lparr>wsResult := None\<rparr>), Inl e)
      | Inr (res, app) \<Rightarrow>
          (let st1 = next_tick (st\<lparr>wsResult := Some res\<rparr>)
           in if crStatus res \<noteq> ''cleared'' then (st1, Inl (''mbs rejected: '' @ crReason res))
              else (st1, Inr (''cleared via '' @ app @ '': '' @ crIRN res))))"

text \<open>The step is only reached with a cleared result.\<close>

definition act_record :: "world \<Rightarrow> activity" where
  "act_record w st =
     (case wsResult st of
        None \<Rightarrow> (st, Inl ''no result'')
      | Some res \<Rightarrow>
          (case save_inv w (upd_inv (\<lambda>v. v\<lparr>IRN := crIRN res, ciStamp := crStamp res, ciStatus := ''precleared''\<rparr>) st) of
             (st1, Some e) \<Rightarrow> (st1, Inl (save_error_text e))
           | (st1, None) \<Rightarrow>
               (case emit w ''nrs.mbs.preclearance.v1'' st1 of
                  (st2, Inl e) \<Rightarrow> (st2, Inl e)
                | (st2, Inr _) \<Rightarrow> (st2, Inr (''recorded IRN '' @ crIRN res)))))"

definition wfMBSPreclearance :: "world \<Rightarrow> (CanonicalInvoice \<Rightarrow> string option) \<Rightarrow> APPRouter \<Rightarrow> string \<Rightarrow> wf_state \<Rightarrow> wf_state \<times> (string + unit)" where
  "wfMBSPreclearance w ubl r invoiceID st =
     (case GetInvoice invoiceID (wsStore st) of
        None \<Rightarrow> (st, Inl (''invoice '' @ invoiceID @ '' not found''))
      | Some v \<Rightarrow>
          (case retryActivity w ''validate'' 3 (act_validate w) (st\<lparr>wsInv := v\<rparr>) of
             (st1, Inl e) \<Rightarrow> nrsFail w (st1, Inl e)
           | (st1, Inr _) \<Rightarrow>
               (case retryActivity w ''csid-sign'' 3 (act_csid w) st1 of
                  (st2, Inl e) \<Rightarrow> (st2, Inl e)
                | (st2, Inr _) \<Rightarrow>
                    (case retryActivity w ''ubl-map'' 3 (act_ubl ubl) st2 of
                       (st3, Inl e) \<Rightarrow> (st3, Inl e)
                     | (st3, Inr _) \<Rightarrow>
                         (case retryActivity w ''mbs-submit'' 3 (act_submit r) st3 of
                            (st4, Inl e) \<Rightarrow> nrsFail w (st4, Inl e)
                          | (st4, Inr _) \<Rightarrow> retryActivity w ''record'' 3 (act_record w) st4)))))"

section \<open>A compliant client\<close>

text \<open>An IRN that belongs to the invoice: its number, eight alphanumeric characters, its issue date.\<close>

definition irn_for :: "CanonicalInvoice \<Rightarrow> string \<Rightarrow> bool" where
  "irn_for v irn \<longleftrightarrow> (\<exists>sid ds. ParseIRN irn = Inr (TrimSpace (InvoiceNumber v), sid, ds) \<and> DateStamp (IssueDate v) = Inr ds)"

definition clears :: "CanonicalInvoice \<Rightarrow> ClearanceResult \<Rightarrow> bool" where
  "clears v res \<longleftrightarrow> crStatus res = ''cleared'' \<and> irn_for v (crIRN res) \<and> (\<exists>sp. crStamp res = Some sp \<and> stIRN sp = crIRN res)"

lemma stamp_times_stamp [simp]: "ciStamp (stamp_times n v) = ciStamp v"
  by (simp add: stamp_times_def)

lemma clears_core: "core_of v' = core_of v \<Longrightarrow> clears v' res = clears v res"
  by (simp add: clears_def irn_for_def core_of_def)

lemma irn_for_nonempty: "irn_for v irn \<Longrightarrow> irn \<noteq> ''''"
  using ParseIRN_shape(1) by (fastforce simp: irn_for_def)

text \<open>The invoice in hand during the workflow, before and after the submission.\<close>

definition carried :: "InvoiceStore \<Rightarrow> CanonicalInvoice \<Rightarrow> wf_state \<Rightarrow> bool" where
  "carried s0 v0 st \<longleftrightarrow> ciID (wsInv st) = ciID v0 \<and> core_of (wsInv st) = core_of v0 \<and> ciTenantID (wsInv st) = ciTenantID v0 \<and>
     (\<forall>j. j \<noteq> ciID v0 \<longrightarrow> byID (wsStore st) j = byID s0 j)"

definition answered :: "InvoiceStore \<Rightarrow> CanonicalInvoice \<Rightarrow> wf_state \<Rightarrow> bool" where
  "answered s0 v0 st \<longleftrightarrow> carried s0 v0 st \<and> (\<exists>res. wsResult st = Some res \<and> clears v0 res)"

definition recorded :: "InvoiceStore \<Rightarrow> CanonicalInvoice \<Rightarrow> wf_state \<Rightarrow> bool" where
  "recorded s0 v0 st \<longleftrightarrow> answered s0 v0 st \<and> (\<exists>u. byID (wsStore st) (ciID v0) = Some u \<and> core_of u = core_of v0 \<and>
     ciTenantID u = ciTenantID v0 \<and> ciStatus u = ''precleared'' \<and> irn_for v0 (IRN u) \<and>
     (\<exists>sp. ciStamp u = Some sp \<and> stIRN sp = IRN u) \<and> byIRN (wsStore st) (IRN u) = Some (ciID v0))"

lemma carried_frames [simp]:
  "carried s0 v0 (rec_step m i a b st) = carried s0 v0 st" "carried s0 v0 (next_tick st) = carried s0 v0 st"
  "answered s0 v0 (rec_step m i a b st) = answered s0 v0 st" "answered s0 v0 (next_tick st) = answered s0 v0 st"
  "recorded s0 v0 (rec_step m i a b st) = recorded s0 v0 st"
  by (simp_all add: carried_def answered_def recorded_def)

lemma retry_state_ok:
  assumes "retryActivity w name n fn st = (st', Inr u)" "P st"
    and "\<And>s m i a b. P s \<Longrightarrow> P (rec_step m i a b s)" "\<And>s. P s \<Longrightarrow> P (next_tick s)" "\<And>s m i a b. Q s \<Longrightarrow> Q (rec_step m i a b s)"
    and "\<And>s s' x. P s \<Longrightarrow> fn s = (s', x) \<Longrightarrow> (case x of Inl _ \<Rightarrow> P s' | Inr _ \<Rightarrow> Q s')"
  shows "Q st'"
proof -
  have "case (Inr u :: string + unit) of Inr _ \<Rightarrow> Q st' | Inl _ \<Rightarrow> P st'"
    using assms(1,2) by (rule retry_rule_state [where P = P and Q = Q]) (use assms(3-6) in fastforce)+
  then show ?thesis by simp
qed

lemma carried_validate: "carried s0 v0 s \<Longrightarrow> act_validate w s = (s', x) \<Longrightarrow> carried s0 v0 s'"
  by (auto simp: act_validate_def carried_def core_irn Let_def split: sum.splits if_splits)

lemma carried_csid: "carried s0 v0 s \<Longrightarrow> act_csid w s = (s', x) \<Longrightarrow> carried s0 v0 s'"
  by (auto simp: act_csid_def sign_invoice_def carried_def core_irn split: prod.splits option.splits bool.splits)

lemma carried_ubl: "carried s0 v0 s \<Longrightarrow> act_ubl ubl s = (s', x) \<Longrightarrow> carried s0 v0 s'"
  by (auto simp: act_ubl_def carried_def core_of_def split: option.splits)

text \<open>The promise of the rail to the workflow: whatever it clears carries an IRN and a stamp for that invoice.\<close>

locale mbs_rail =
  fixes router :: APPRouter
  assumes cleared: "RoutePreclear n v xml router = Inr (res, app) \<Longrightarrow> crStatus res = ''cleared'' \<Longrightarrow> clears v res"
begin

lemma submit_rule:
  assumes "carried s0 v0 s" "act_submit router s = (s', x)"
  shows "case x of Inl _ \<Rightarrow> carried s0 v0 s' | Inr _ \<Rightarrow> answered s0 v0 s'"
proof (cases "RoutePreclear (tick s) (wsInv s) (UBLXML (wsInv s)) router")
  case (Inl e)
  with assms show ?thesis by (auto simp: act_submit_def carried_def)
next
  case (Inr p)
  obtain res app where p: "p = (res, app)" by fastforce
  have "clears v0 res" if "crStatus res = ''cleared''"
    using cleared [OF Inr [unfolded p] that] clears_core [of "wsInv s" v0 res] assms(1) by (simp add: carried_def)
  with assms Inr p show ?thesis
    by (auto simp: act_submit_def carried_def answered_def Let_def split: if_splits)
qed

lemma record_rule:
  assumes "answered s0 v0 s" "act_record w s = (s', x)"
  shows "case x of Inl _ \<Rightarrow> answered s0 v0 s' | Inr _ \<Rightarrow> recorded s0 v0 s'"
proof -
  obtain res where res: "wsResult s = Some res" "clears v0 res" using assms(1) by (auto simp: answered_def)
  let ?v = "(wsInv s)\<lparr>IRN := crIRN res, ciStamp := crStamp res, ciStatus := ''precleared''\<rparr>"
  let ?s1 = "upd_inv (\<lambda>v. v\<lparr>IRN := crIRN res, ciStamp := crStamp res, ciStatus := ''precleared''\<rparr>) s"
  obtain s2 e where sv: "save_inv w ?s1 = (s2, e)" by fastforce
  have r2: "wsResult s2 = Some res" using sv res by (auto simp: save_inv_def split: prod.splits)
  have v: "ciID ?v = ciID v0" "core_of ?v = core_of v0" "ciTenantID ?v = ciTenantID v0" "\<forall>j. j \<noteq> ciID v0 \<longrightarrow> byID (wsStore s) j = byID s0 j"
    using assms(1) by (simp_all add: answered_def carried_def core_of_def)
  have irn: "crIRN res \<noteq> ''''" "irn_for v0 (crIRN res)" "\<exists>sp. crStamp res = Some sp \<and> stIRN sp = crIRN res"
    using res(2) irn_for_nonempty by (auto simp: clears_def)
  have after: "answered s0 v0 s2 \<and> (e = None \<longrightarrow> recorded s0 v0 s2)"
    using sv
  proof (cases rule: save_inv_cases)
    case refused
    then show ?thesis using v r2 res(2) by (auto simp: answered_def carried_def)
  next
    case (saved n)
    then show ?thesis using v r2 res(2) irn by (simp add: answered_def carried_def recorded_def)
  qed
  show ?thesis
  proof (cases e)
    case (Some er)
    with assms(2) res(1) sv after show ?thesis by (auto simp: act_record_def)
  next
    case None
    obtain s3 y where em: "emit w ''nrs.mbs.preclearance.v1'' s2 = (s3, y)" by fastforce
    then have "wsStore s3 = wsStore s2" "wsInv s3 = wsInv s2" "wsResult s3 = wsResult s2"
      by (auto simp: emit_def split: if_splits)
    then have "answered s0 v0 s3" "recorded s0 v0 s3"
      using after None by (simp_all add: recorded_def answered_def carried_def)
    then show ?thesis using assms(2) res(1) sv None em by (cases y) (auto simp: act_record_def)
  qed
qed

lemma preclearance_records:
  assumes run: "wfMBSPreclearance w ubl router i st = (st', Inr u)" and v0: "byID (wsStore st) i = Some v0"
  shows "recorded (wsStore st) v0 st'"
proof -
  let ?C = "carried (wsStore st) v0" and ?A = "answered (wsStore st) v0" and ?R = "recorded (wsStore st) v0"
  obtain st1 st2 st3 st4 where
    r1: "retryActivity w ''validate'' 3 (act_validate w) (st\<lparr>wsInv := v0\<rparr>) = (st1, Inr ())" and
    r2: "retryActivity w ''csid-sign'' 3 (act_csid w) st1 = (st2, Inr ())" and
    r3: "retryActivity w ''ubl-map'' 3 (act_ubl ubl) st2 = (st3, Inr ())" and
    r4: "retryActivity w ''mbs-submit'' 3 (act_submit router) st3 = (st4, Inr ())" and
    r5: "retryActivity w ''record'' 3 (act_record w) st4 = (st', Inr u)"
    using run v0 by (auto simp: wfMBSPreclearance_def GetInvoice_def nrsFail_def split: prod.splits sum.splits)
  have c0: "?C (st\<lparr>wsInv := v0\<rparr>)" by (simp add: carried_def)
  have c1: "?C st1" by (rule retry_state_ok [where P = ?C and Q = ?C, OF r1 c0]) (auto dest: carried_validate split: sum.split)
  have c2: "?C st2" by (rule retry_state_ok [where P = ?C and Q = ?C, OF r2 c1]) (auto dest: carried_csid split: sum.split)
  have c3: "?C st3" by (rule retry_state_ok [where P = ?C and Q = ?C, OF r3 c2]) (auto dest: carried_ubl split: sum.split)
  have c4: "?A st4" by (rule retry_state_ok [where P = ?C and Q = ?A, OF r4 c3]) (simp_all add: submit_rule)
  show ?thesis by (rule retry_state_ok [where P = ?A and Q = ?R, OF r5 c4]) (simp_all add: record_rule)
qed

end

section \<open>The sandbox is compliant\<close>

lemma sandboxServiceID_valid [simp]: "ValidServiceID sandboxServiceID"
  by (simp add: ValidServiceID_def sandboxServiceID_def isAlnum_def isDigit_def)

lemma SandboxPreclear_clears:
  assumes "crStatus (snd (SandboxPreclear dg sign ts v n)) = ''cleared''"
  shows "clears v (snd (SandboxPreclear dg sign ts v n))"
proof -
  let ?sid = "if ValidServiceID (ServiceID v) then ServiceID v else sandboxServiceID"
  obtain irn where b: "BuildIRN (InvoiceNumber v) ?sid (IssueDate v) = Inr irn" and c: "CSIDSignature v \<noteq> ''''"
    using assms by (auto simp: SandboxPreclear_def rejected_def Let_def split: if_splits sum.splits)
  have "irn_for v irn" using ParseIRN_BuildIRN [OF b] by (auto simp: irn_for_def)
  then show ?thesis using b c by (auto simp: SandboxPreclear_def clears_def Let_def)
qed

text \<open>A router all of whose providers are the simulator; this is what the service boots with outside production.\<close>

definition sandbox_router :: "digests \<Rightarrow> (string \<Rightarrow> string) \<Rightarrow> (nat \<Rightarrow> string) \<Rightarrow> (nat \<Rightarrow> nat) \<Rightarrow> APPRouter" where
  "sandbox_router dg sign ts cnt = NewAPPRouter (SandboxMBS dg sign ts cnt) False ''''"

lemma sandbox_routes:
  "RoutePreclear n v xml (sandbox_router dg sign ts cnt) = Inr (snd (SandboxPreclear dg sign (ts n) v (cnt n)), ''mbs-sandbox'')"
  by (simp add: RoutePreclear_def sandbox_router_def NewAPPRouter_def ResolveAPP_def Route_def RegisterAPP_def SandboxMBS_def)

interpretation sandbox: mbs_rail "sandbox_router dg sign ts cnt"
proof
  fix n v xml res app
  assume "RoutePreclear n v xml (sandbox_router dg sign ts cnt) = Inr (res, app)" "crStatus res = ''cleared''"
  then show "clears v res" by (auto simp: sandbox_routes intro: SandboxPreclear_clears)
qed

lemma sandbox_same_irn:
  assumes "InvoiceNumber v = InvoiceNumber v'" "IssueDate v = IssueDate v'" "\<not> ValidServiceID (ServiceID v)" "\<not> ValidServiceID (ServiceID v')"
    "CSIDSignature v \<noteq> ''''" "CSIDSignature v' \<noteq> ''''"
  shows "crIRN (snd (SandboxPreclear dg sign ts v n)) = crIRN (snd (SandboxPreclear dg sign ts' v' n'))"
  using assms by (simp add: SandboxPreclear_def rejected_def Let_def split: sum.split)

section \<open>Routing\<close>

lemma Resolve_explicit:
  assumes "apps r a = Some p"
  shows "ResolveAPP t (Route t a r) = Inr p" "t \<noteq> u \<Longrightarrow> u \<noteq> ''*'' \<Longrightarrow> ResolveAPP t (Route u a r) = ResolveAPP t r"
  using assms by (auto simp: ResolveAPP_def Route_def split: option.split)

lemma Resolve_default:
  assumes "routes r t = None" "routes r ''*'' = Some a" "apps r a = Some p"
  shows "ResolveAPP t r = Inr p"
  using assms by (simp add: ResolveAPP_def)

end
