(* ===== verification/Einv_ApiKeys.thy ===== *)
theory Einv_ApiKeys
  imports Pos_Receipts "HOL-Library.AList"
begin

text \<open>
  The merchant API keys of the e-invoicing service (\<^verbatim>\<open>services/einvoicing/apikeys.go\<close>): the key
  store with its snapshot file, creation, rotation, revocation and verification of keys, the
  path scope of machine principals and the middleware and handlers around them.

  The Go map \<^verbatim>\<open>byID\<close> is an association list with distinct keys; every loop over it either
  sorts or does not depend on the order. The bytes drawn from \<^verbatim>\<open>crypto/rand\<close>, the outcome of
  the file operations and the clock are arguments; SHA-256 is the parameter \<open>sha\<close>, a function
  from strings to bytes. A nil dereference is the result \<open>None\<close> of \<open>VerifyKey\<close>.
\<close>

section \<open>Hexadecimal bytes\<close>

definition hex_val :: "char \<Rightarrow> nat option" where
  "hex_val c =
     (let n = of_char c in
      if 48 \<le> n \<and> n \<le> 57 then Some (n - 48)
      else if 97 \<le> n \<and> n \<le> 102 then Some (n - 87)
      else if 65 \<le> n \<and> n \<le> 70 then Some (n - 55) else None)"

fun hex_encode :: "nat list \<Rightarrow> string" where
  "hex_encode [] = []"
| "hex_encode (b # bs) = hex_digit (b div 16) # hex_digit (b mod 16) # hex_encode bs"

fun hex_decode :: "string \<Rightarrow> nat list option" where
  "hex_decode [] = Some []"
| "hex_decode [c] = None"
| "hex_decode (c # d # s) =
     (case (hex_val c, hex_val d, hex_decode s) of
        (Some h, Some l, Some bs) \<Rightarrow> Some ((16 * h + l) # bs)
      | _ \<Rightarrow> None)"

definition bytes :: "nat list \<Rightarrow> bool" where
  "bytes bs \<longleftrightarrow> list_all (\<lambda>b. b < 256) bs"

lemma hex_val_digit: "d < 16 \<Longrightarrow> hex_val (hex_digit d) = Some d"
  by (simp add: hex_val_def hex_digit_def)

lemma hex_decode_encode: "bytes bs \<Longrightarrow> hex_decode (hex_encode bs) = Some bs"
proof (induction bs)
  case (Cons b bs)
  then have "b div 16 < 16" "hex_decode (hex_encode bs) = Some bs" by (auto simp: bytes_def)
  then show ?case by (simp add: hex_val_digit)
qed simp

lemma hex_encode_inj: "bytes a \<Longrightarrow> bytes b \<Longrightarrow> hex_encode a = hex_encode b \<Longrightarrow> a = b"
  using hex_decode_encode by (metis option.inject)

section \<open>The key store\<close>

definition apiKeyPrefix :: string where
  "apiKeyPrefix = ''mrk_''"

record APIKey =
  akID :: string
  akTenantID :: string
  akName :: string
  akPrefix :: string
  akHash :: string
  akCreatedBy :: string
  akCreatedAt :: int
  RotatedAt :: "int option"
  RevokedAt :: "int option"
  LastUsedAt :: "int option"

definition Active :: "APIKey \<Rightarrow> bool" where
  "Active k \<longleftrightarrow> RevokedAt k = None"

text \<open>What \<^verbatim>\<open>public()\<close> hands out: everything but the hash.\<close>

record public_key =
  pkID :: string
  pkTenantID :: string
  pkName :: string
  pkPrefix :: string
  pkCreatedBy :: string
  pkCreatedAt :: int
  pkRotatedAt :: "int option"
  pkRevokedAt :: "int option"
  pkLastUsedAt :: "int option"
  pkActive :: bool

definition public :: "APIKey \<Rightarrow> public_key" where
  "public k = \<lparr>pkID = akID k, pkTenantID = akTenantID k, pkName = akName k, pkPrefix = akPrefix k, pkCreatedBy = akCreatedBy k,
     pkCreatedAt = akCreatedAt k, pkRotatedAt = RotatedAt k, pkRevokedAt = RevokedAt k, pkLastUsedAt = LastUsedAt k, pkActive = Active k\<rparr>"

record APIKeyStore =
  keysByID :: "(string \<times> APIKey) list"
  byPrefix :: "string \<Rightarrow> string list"
  keyFile :: "APIKey list"

definition load_key :: "APIKey \<Rightarrow> APIKeyStore \<Rightarrow> APIKeyStore" where
  "load_key k s = s\<lparr>keysByID := AList.update (akID k) k (keysByID s),
     byPrefix := (byPrefix s)(akPrefix k := byPrefix s (akPrefix k) @ [akID k])\<rparr>"

definition NewAPIKeyStore :: "APIKey list \<Rightarrow> APIKeyStore" where
  "NewAPIKeyStore snapshot = fold load_key snapshot \<lparr>keysByID = [], byPrefix = (\<lambda>_. []), keyFile = snapshot\<rparr>"

text \<open>The snapshot is written to a temporary file and renamed: a failure leaves the old file.\<close>

definition persistLocked :: "bool \<Rightarrow> APIKeyStore \<Rightarrow> APIKeyStore" where
  "persistLocked ok s =
     (if ok then s\<lparr>keyFile := List.map_filter (map_of (keysByID s)) (sort (map fst (keysByID s)))\<rparr> else s)"

definition generateSecret :: "(string \<Rightarrow> nat list) \<Rightarrow> nat list option \<Rightarrow> (string \<times> string \<times> string) option" where
  "generateSecret sha rnd =
     (case rnd of
        None \<Rightarrow> None
      | Some buf \<Rightarrow>
          (let plaintext = apiKeyPrefix @ hex_encode buf
           in Some (plaintext, take (length apiKeyPrefix + 8) plaintext, hex_encode (sha plaintext))))"

datatype key_error = NoRandom | KeyPersistFailed | KeyNotExist | KeyRevoked

definition CreateKey :: "(string \<Rightarrow> nat list) \<Rightarrow> nat list option \<Rightarrow> nat list option \<Rightarrow> int \<Rightarrow> bool \<Rightarrow> string \<Rightarrow> string \<Rightarrow> string \<Rightarrow>
    APIKeyStore \<Rightarrow> APIKeyStore \<times> (key_error + (APIKey \<times> string))" where
  "CreateKey sha rnd idRnd now ok tenantID name actor s =
     (case (generateSecret sha rnd, idRnd) of
        (Some (plain, pre, h), Some idBuf) \<Rightarrow>
          (let k = \<lparr>akID = ''key_'' @ hex_encode idBuf, akTenantID = tenantID, akName = name, akPrefix = pre, akHash = h,
                    akCreatedBy = actor, akCreatedAt = now, RotatedAt = None, RevokedAt = None, LastUsedAt = None\<rparr>;
               s1 = load_key k s
           in if ok then (persistLocked True s1, Inr (k, plain))
              else (s1\<lparr>keysByID := AList.delete (akID k) (keysByID s1)\<rparr>, Inl KeyPersistFailed))
      | _ \<Rightarrow> (s, Inl NoRandom))"

definition ListKeys :: "string \<Rightarrow> APIKeyStore \<Rightarrow> APIKey list" where
  "ListKeys tenantID s = sort_key akCreatedAt (filter (\<lambda>k. akTenantID k = tenantID) (map snd (keysByID s)))"

definition Rotate :: "(string \<Rightarrow> nat list) \<Rightarrow> nat list option \<Rightarrow> int \<Rightarrow> bool \<Rightarrow> string \<Rightarrow> string \<Rightarrow>
    APIKeyStore \<Rightarrow> APIKeyStore \<times> (key_error + (APIKey \<times> string))" where
  "Rotate sha rnd now ok tenantID i s =
     (case map_of (keysByID s) i of
        None \<Rightarrow> (s, Inl KeyNotExist)
      | Some k \<Rightarrow>
          if akTenantID k \<noteq> tenantID then (s, Inl KeyNotExist)
          else if \<not> Active k then (s, Inl KeyRevoked)
          else (case generateSecret sha rnd of
                  None \<Rightarrow> (s, Inl NoRandom)
                | Some (plain, pre, h) \<Rightarrow>
                    (let s1 = s\<lparr>byPrefix := (byPrefix s)(akPrefix k := remove1 i (byPrefix s (akPrefix k)))\<rparr>;
                         k1 = k\<lparr>akPrefix := pre, akHash := h, RotatedAt := Some now\<rparr>;
                         s2 = s1\<lparr>keysByID := AList.update i k1 (keysByID s1), byPrefix := (byPrefix s1)(pre := byPrefix s1 pre @ [i])\<rparr>
                     in if ok then (persistLocked True s2, Inr (k1, plain)) else (s2, Inl KeyPersistFailed))))"

definition Revoke :: "int \<Rightarrow> bool \<Rightarrow> string \<Rightarrow> string \<Rightarrow> APIKeyStore \<Rightarrow> APIKeyStore \<times> (key_error + APIKey)" where
  "Revoke now ok tenantID i s =
     (case map_of (keysByID s) i of
        None \<Rightarrow> (s, Inl KeyNotExist)
      | Some k \<Rightarrow>
          if akTenantID k \<noteq> tenantID then (s, Inl KeyNotExist)
          else if RevokedAt k = None
          then (let k1 = k\<lparr>RevokedAt := Some now\<rparr>; s1 = s\<lparr>keysByID := AList.update i k1 (keysByID s)\<rparr>
                in if ok then (persistLocked True s1, Inr k1) else (s1, Inl KeyPersistFailed))
          else (s, Inr k))"

definition usageStampInterval :: int where
  "usageStampInterval = 60 * 10 ^ 9"

text \<open>The loop over the candidates keeps the last match; \<open>None\<close> is the nil dereference.\<close>

fun match_keys :: "APIKeyStore \<Rightarrow> nat list \<Rightarrow> string list \<Rightarrow> APIKey option \<Rightarrow> APIKey option option" where
  "match_keys s want [] matched = Some matched"
| "match_keys s want (i # ids) matched =
     (case map_of (keysByID s) i of
        None \<Rightarrow> None
      | Some k \<Rightarrow> match_keys s want ids (if hex_decode (akHash k) = Some want then Some k else matched))"

definition stamp_due :: "int \<Rightarrow> APIKey \<Rightarrow> bool" where
  "stamp_due now k = (case LastUsedAt k of None \<Rightarrow> True | Some t \<Rightarrow> now - t > usageStampInterval)"

definition VerifyKey :: "(string \<Rightarrow> nat list) \<Rightarrow> int \<Rightarrow> bool \<Rightarrow> string \<Rightarrow> APIKeyStore \<Rightarrow> (APIKeyStore \<times> APIKey option) option" where
  "VerifyKey sha now ok plaintext s =
     (if \<not> HasPrefix plaintext apiKeyPrefix \<or> length plaintext < length apiKeyPrefix + 8 then Some (s, None)
      else (case match_keys s (sha plaintext) (byPrefix s (take (length apiKeyPrefix + 8) plaintext)) None of
              None \<Rightarrow> None
            | Some None \<Rightarrow> Some (s, None)
            | Some (Some k) \<Rightarrow>
                if \<not> Active k then Some (s, None)
                else if stamp_due now k
                then (let k1 = k\<lparr>LastUsedAt := Some now\<rparr>
                      in Some (persistLocked ok (s\<lparr>keysByID := AList.update (akID k) k1 (keysByID s)\<rparr>), Some k1))
                else Some (s, Some k)))"

section \<open>Middleware and handlers\<close>

record Claims =
  Sub :: string
  Roles :: "string list"
  TenantID :: string

definition apiKeyAllowedPath :: "string \<Rightarrow> bool" where
  "apiKeyAllowedPath p =
     (if p = ''/v1/apikeys'' \<or> HasPrefix p ''/v1/apikeys/'' then False
      else list_ex (HasPrefix p) [''/v1/invoices'', ''/v1/b2c/'', ''/v1/vat/''])"

text \<open>What the middleware makes of a request: a problem, or a handler with a principal.\<close>

datatype routed = Denied nat | ServedAs Claims | ToFallback

definition apiKeyMiddleware :: "(string \<Rightarrow> nat list) \<Rightarrow> int \<Rightarrow> bool \<Rightarrow> string \<Rightarrow> string \<Rightarrow> APIKeyStore \<Rightarrow> (APIKeyStore \<times> routed) option" where
  "apiKeyMiddleware sha now ok path key s =
     (if key = '''' then Some (s, ToFallback)
      else if \<not> apiKeyAllowedPath path then Some (s, Denied 403)
      else (case VerifyKey sha now ok key s of
              None \<Rightarrow> None
            | Some (s1, None) \<Rightarrow> Some (s1, Denied 401)
            | Some (s1, Some k) \<Rightarrow> Some (s1, ServedAs \<lparr>Sub = ''apikey:'' @ akID k, Roles = [''operator''], TenantID = akTenantID k\<rparr>)))"

definition hasAnyRole :: "string list \<Rightarrow> string list \<Rightarrow> bool" where
  "hasAnyRole have want = list_ex (\<lambda>h. list_ex (\<lambda>w. h = w) want) have"

definition requireSelfService :: "Claims option \<Rightarrow> 'a response + Claims" where
  "requireSelfService ctx =
     (case ctx of
        None \<Rightarrow> Inl (Problem 401 ''unauthorized'')
      | Some c \<Rightarrow>
          if Sub c = '''' then Inl (Problem 401 ''unauthorized'')
          else if \<not> hasAnyRole (Roles c) [''admin'', ''operator''] then Inl (Problem 403 ''forbidden'')
          else if TenantID c = '''' then Inl (Problem 403 ''forbidden'')
          else Inr c)"

definition handleAPIKeyCreate :: "(string \<Rightarrow> nat list) \<Rightarrow> nat list option \<Rightarrow> nat list option \<Rightarrow> int \<Rightarrow> bool \<Rightarrow> Claims option \<Rightarrow> string option \<Rightarrow>
    APIKeyStore \<Rightarrow> APIKeyStore \<times> (public_key \<times> string) response" where
  "handleAPIKeyCreate sha rnd idRnd now ok ctx reqName s =
     (case requireSelfService ctx of
        Inl p \<Rightarrow> (s, p)
      | Inr c \<Rightarrow>
          (case reqName of
             None \<Rightarrow> (s, Problem 400 ''bad request'')
           | Some raw \<Rightarrow>
               (let name = TrimSpace raw
                in if name = '''' \<or> 120 < length name then (s, Problem 422 ''invalid name'')
                   else (case CreateKey sha rnd idRnd now ok (TenantID c) name (Sub c) s of
                           (s1, Inl _) \<Rightarrow> (s1, Problem 500 ''persist failed'')
                         | (s1, Inr (k, plain)) \<Rightarrow> (s1, Reply 201 (public k, plain))))))"

definition handleAPIKeyList :: "Claims option \<Rightarrow> APIKeyStore \<Rightarrow> public_key list response" where
  "handleAPIKeyList ctx s =
     (case requireSelfService ctx of Inl p \<Rightarrow> p | Inr c \<Rightarrow> Reply 200 (map public (ListKeys (TenantID c) s)))"

definition handleAPIKeyRotate :: "(string \<Rightarrow> nat list) \<Rightarrow> nat list option \<Rightarrow> int \<Rightarrow> bool \<Rightarrow> Claims option \<Rightarrow> string \<Rightarrow>
    APIKeyStore \<Rightarrow> APIKeyStore \<times> (public_key \<times> string) response" where
  "handleAPIKeyRotate sha rnd now ok ctx i s =
     (case requireSelfService ctx of
        Inl p \<Rightarrow> (s, p)
      | Inr c \<Rightarrow>
          (case Rotate sha rnd now ok (TenantID c) i s of
             (s1, Inl KeyNotExist) \<Rightarrow> (s1, Problem 404 ''not found'')
           | (s1, Inl _) \<Rightarrow> (s1, Problem 409 ''conflict'')
           | (s1, Inr (k, plain)) \<Rightarrow> (s1, Reply 200 (public k, plain))))"

definition handleAPIKeyRevoke :: "int \<Rightarrow> bool \<Rightarrow> Claims option \<Rightarrow> string \<Rightarrow> APIKeyStore \<Rightarrow> APIKeyStore \<times> public_key response" where
  "handleAPIKeyRevoke now ok ctx i s =
     (case requireSelfService ctx of
        Inl p \<Rightarrow> (s, p)
      | Inr c \<Rightarrow>
          (case Revoke now ok (TenantID c) i s of
             (s1, Inl KeyNotExist) \<Rightarrow> (s1, Problem 404 ''not found'')
           | (s1, Inl _) \<Rightarrow> (s1, Problem 500 ''persist failed'')
           | (s1, Inr k) \<Rightarrow> (s1, Reply 200 (public k))))"

section \<open>The indexes stay consistent\<close>

declare map_of_eq_Some_iff [simp del]

abbreviation get_key :: "APIKeyStore \<Rightarrow> string \<Rightarrow> APIKey option" where
  "get_key s i \<equiv> map_of (keysByID s) i"

definition keys_ok :: "APIKeyStore \<Rightarrow> bool" where
  "keys_ok s \<longleftrightarrow> distinct (map fst (keysByID s)) \<and> (\<forall>i k. get_key s i = Some k \<longrightarrow> akID k = i) \<and>
     (\<forall>p. distinct (byPrefix s p)) \<and>
     (\<forall>p i. i \<in> set (byPrefix s p) \<longleftrightarrow> (\<exists>k. get_key s i = Some k \<and> akPrefix k = p))"

lemma keys_okD:
  assumes "keys_ok s"
  shows "get_key s i = Some k \<Longrightarrow> akID k = i" "i \<in> set (byPrefix s p) \<longleftrightarrow> (\<exists>k. get_key s i = Some k \<and> akPrefix k = p)"
    "distinct (byPrefix s p)" "distinct (map fst (keysByID s))"
  using assms by (simp_all add: keys_ok_def)

lemma get_update [simp]: "map_of (AList.update i k xs) = (map_of xs)(i \<mapsto> k)"
  by (simp add: update_conv' fun_eq_iff)

lemma persist_simps [simp]: "keysByID (persistLocked ok s) = keysByID s" "byPrefix (persistLocked ok s) = byPrefix s"
  by (simp_all add: persistLocked_def)

lemma keys_ok_persist [simp]: "keys_ok (persistLocked ok s) = keys_ok s"
  by (simp add: keys_ok_def)

lemma keys_ok_load:
  assumes "keys_ok s" "get_key s (akID k) = None"
  shows "keys_ok (load_key k s)"
proof -
  have "akID k \<notin> set (byPrefix s p)" for p using keys_okD(2) [OF assms(1)] assms(2) by simp
  then show ?thesis
    using assms by (auto simp: keys_ok_def load_key_def distinct_update)
qed

lemma keys_ok_Create:
  assumes "keys_ok s" "CreateKey sha rnd idRnd now ok t n a s = (s', Inr (k, plain))" "get_key s (akID k) = None"
  shows "keys_ok s' \<and> get_key s' = (get_key s)(akID k \<mapsto> k)"
proof -
  have "s' = persistLocked True (load_key k s)"
    using assms(2) by (auto simp: CreateKey_def Let_def split: option.splits if_splits)
  then show ?thesis using keys_ok_load [OF assms(1,3)] by (auto simp: load_key_def)
qed

lemma keys_ok_Rotate:
  assumes "keys_ok s"
  shows "keys_ok (fst (Rotate sha rnd now ok t i s))"
proof (cases "get_key s i")
  case None
  then show ?thesis using assms by (simp add: Rotate_def)
next
  case (Some k)
  have upd: "keys_ok (s\<lparr>keysByID := AList.update i (k\<lparr>akPrefix := p, akHash := h, RotatedAt := n\<rparr>) (keysByID s),
      byPrefix := ((byPrefix s)(akPrefix k := remove1 i (byPrefix s (akPrefix k))))
        (p := ((byPrefix s)(akPrefix k := remove1 i (byPrefix s (akPrefix k)))) p @ [i])\<rparr>)" for p h n
    unfolding keys_ok_def using assms Some by (auto simp: keys_ok_def distinct_update)
  show ?thesis using assms Some upd by (auto simp: Rotate_def Let_def split: option.splits)
qed

lemma keys_ok_same_prefix:
  assumes "keys_ok s" "get_key s i = Some k" "akPrefix k' = akPrefix k" "akID k' = i"
  shows "keys_ok (s\<lparr>keysByID := AList.update i k' (keysByID s)\<rparr>)"
  unfolding keys_ok_def using assms by (auto simp: keys_ok_def distinct_update)

lemma keys_ok_Revoke: "keys_ok s \<Longrightarrow> keys_ok (fst (Revoke now ok t i s))"
  by (auto simp: Revoke_def Let_def keys_okD(1) split: option.splits intro!: keys_ok_same_prefix)

section \<open>Verification\<close>

definition matches :: "nat list \<Rightarrow> APIKey \<Rightarrow> bool" where
  "matches want k \<longleftrightarrow> hex_decode (akHash k) = Some want"

lemma match_keys_total:
  assumes "\<forall>i\<in>set ids. get_key s i \<noteq> None"
  shows "match_keys s want ids m \<noteq> None"
  using assms by (induction ids arbitrary: m) auto

lemma match_keys_found:
  assumes "match_keys s want ids m = Some r"
  shows "r = m \<or> (\<exists>i\<in>set ids. \<exists>k. get_key s i = Some k \<and> matches want k \<and> r = Some k)"
  using assms
proof (induction ids arbitrary: m)
  case (Cons i ids)
  then obtain k where "get_key s i = Some k" by (auto split: option.splits)
  with Cons show ?case by (fastforce simp: matches_def split: if_splits)
qed simp

lemma match_keys_only:
  assumes "\<forall>j\<in>set ids. \<exists>k'. get_key s j = Some k' \<and> (matches want k' \<longrightarrow> j = i)" "get_key s i = Some k" "matches want k"
  shows "match_keys s want ids m = Some (if i \<in> set ids then Some k else m)"
  using assms by (induction ids arbitrary: m) (auto simp: matches_def)

lemma match_keys_dangling:
  assumes "i \<in> set ids" "get_key s i = None"
  shows "match_keys s want ids m = None"
  using assms by (induction ids arbitrary: m) (auto split: option.split)

definition well_shaped :: "string \<Rightarrow> bool" where
  "well_shaped p \<longleftrightarrow> HasPrefix p apiKeyPrefix \<and> length apiKeyPrefix + 8 \<le> length p"

abbreviation lookup_prefix :: "string \<Rightarrow> string" where
  "lookup_prefix p \<equiv> take (length apiKeyPrefix + 8) p"

lemma verify_total:
  assumes "keys_ok s"
  shows "VerifyKey sha now ok p s \<noteq> None"
proof -
  have "match_keys s (sha p) (byPrefix s (lookup_prefix p)) None \<noteq> None"
    by (rule match_keys_total) (use keys_okD(2) [OF assms] in auto)
  then show ?thesis by (auto simp: VerifyKey_def Let_def split: option.splits)
qed

lemma verify_sound:
  assumes "keys_ok s" "VerifyKey sha now ok p s = Some (s', Some k)"
  shows "\<exists>k0. get_key s (akID k) = Some k0 \<and> Active k0 \<and> matches (sha p) k0 \<and> akTenantID k = akTenantID k0"
proof -
  obtain k0 where m: "match_keys s (sha p) (byPrefix s (lookup_prefix p)) None = Some (Some k0)" "Active k0"
    and k: "akID k = akID k0" "akTenantID k = akTenantID k0"
    using assms(2) by (auto simp: VerifyKey_def Let_def split: option.splits if_splits)
  from match_keys_found [OF m(1)] obtain i where "get_key s i = Some k0" "matches (sha p) k0" by auto
  with keys_okD(1) [OF assms(1) this(1)] m k show ?thesis by auto
qed

lemma verify_complete:
  assumes "keys_ok s" "well_shaped p" "get_key s i = Some k" "Active k" "matches (sha p) k" "akPrefix k = lookup_prefix p"
    and only: "\<And>j k'. get_key s j = Some k' \<Longrightarrow> matches (sha p) k' \<Longrightarrow> j = i"
  shows "\<exists>s' k'. VerifyKey sha now ok p s = Some (s', Some k') \<and> akID k' = i \<and> akTenantID k' = akTenantID k"
proof -
  let ?ids = "byPrefix s (lookup_prefix p)"
  have all: "\<forall>j\<in>set ?ids. \<exists>k'. get_key s j = Some k' \<and> (matches (sha p) k' \<longrightarrow> j = i)"
    using keys_okD(2) [OF assms(1)] only by blast
  have "i \<in> set ?ids" using keys_okD(2) [OF assms(1)] assms(3,6) by blast
  then have "match_keys s (sha p) ?ids None = Some (Some k)" using match_keys_only [OF all assms(3,5)] by simp
  then show ?thesis
    using assms(2,4) keys_okD(1) [OF assms(1,3)] by (auto simp: VerifyKey_def well_shaped_def Let_def)
qed

lemma verify_rejects:
  assumes "keys_ok s" "\<And>i k. get_key s i = Some k \<Longrightarrow> matches (sha p) k \<Longrightarrow> \<not> Active k"
  shows "VerifyKey sha now ok p s = Some (s, None)"
proof -
  obtain r where r: "VerifyKey sha now ok p s = Some r" using verify_total [OF assms(1)] by fastforce
  obtain s' ok' where r': "r = (s', ok')" by fastforce
  have "ok' = None" using verify_sound [OF assms(1)] r r' assms(2) by (cases ok') blast+
  then show ?thesis using r r' by (auto simp: VerifyKey_def Let_def split: option.splits if_splits)
qed

lemma keys_ok_Verify:
  assumes "keys_ok s" "VerifyKey sha now ok p s = Some (s', r)"
  shows "keys_ok s'"
proof -
  have "keys_ok (s\<lparr>keysByID := AList.update (akID k) (k\<lparr>LastUsedAt := Some now\<rparr>) (keysByID s)\<rparr>)"
    if "match_keys s (sha p) (byPrefix s (lookup_prefix p)) None = Some (Some k)" for k
  proof -
    from match_keys_found [OF that] obtain i where "get_key s i = Some k" by auto
    with keys_ok_same_prefix [OF assms(1)] keys_okD(1) [OF assms(1)] show ?thesis by auto
  qed
  then show ?thesis using assms by (auto simp: VerifyKey_def Let_def split: option.splits if_splits)
qed

section \<open>The life of a key\<close>

text \<open>A fresh secret has the shape the verifier expects and is stored under its own prefix.\<close>

lemma hex_encode_length [simp]: "length (hex_encode bs) = 2 * length bs"
  by (induction bs) auto

lemma generateSecret_shape:
  assumes "generateSecret sha (Some buf) = Some (plain, pre, h)" "4 \<le> length buf"
  shows "well_shaped plain" "pre = lookup_prefix plain" "h = hex_encode (sha plain)"
  using assms by (auto simp: generateSecret_def Let_def well_shaped_def HasPrefix_iff)

definition unused :: "(string \<Rightarrow> nat list) \<Rightarrow> string \<Rightarrow> APIKeyStore \<Rightarrow> bool" where
  "unused sha p s \<longleftrightarrow> (\<forall>i k. get_key s i = Some k \<longrightarrow> \<not> matches (sha p) k)"

lemma create_verifies:
  assumes "keys_ok s" "CreateKey sha (Some buf) idRnd now ok t n a s = (s', Inr (k, plain))" "4 \<le> length buf"
    and "get_key s (akID k) = None" "bytes (sha plain)" "unused sha plain s"
  shows "\<exists>s'' k'. VerifyKey sha now' ok' plain s' = Some (s'', Some k') \<and> akID k' = akID k \<and> akTenantID k' = t"
proof -
  obtain pre h where g: "generateSecret sha (Some buf) = Some (plain, pre, h)" and k: "akPrefix k = pre" "akHash k = h" "Active k" "akTenantID k = t"
    using assms(2) by (auto simp: CreateKey_def Let_def Active_def split: option.splits if_splits)
  note sh = generateSecret_shape [OF g assms(3)]
  have s': "keys_ok s'" "get_key s' = (get_key s)(akID k \<mapsto> k)" using keys_ok_Create [OF assms(1,2,4)] by blast+
  have m: "matches (sha plain) k" using k sh assms(5) by (simp add: matches_def hex_decode_encode)
  have at: "get_key s' (akID k) = Some k" "akPrefix k = lookup_prefix plain" using s'(2) k(1) sh(2) by simp_all
  have "j = akID k" if "get_key s' j = Some k'" "matches (sha plain) k'" for j k'
    using that s'(2) assms(6) by (auto simp: unused_def split: if_splits)
  then have "\<exists>s'' k'. VerifyKey sha now' ok' plain s' = Some (s'', Some k') \<and> akID k' = akID k \<and> akTenantID k' = akTenantID k"
    by (rule verify_complete [where sha = sha, OF s'(1) sh(1) at(1) k(3) m at(2)])
  then show ?thesis using k(4) by simp
qed

lemma rotate_replaces:
  assumes "keys_ok s" "Rotate sha (Some buf) now ok t i s = (s', Inr (k1, plain))" "4 \<le> length buf"
    and "bytes (sha plain)" "unused sha plain s"
  shows "\<exists>s'' k'. VerifyKey sha now' ok' plain s' = Some (s'', Some k') \<and> akID k' = i \<and> akTenantID k' = t"
    and "\<lbrakk>get_key s i = Some k; matches (sha old) k; sha old \<noteq> sha plain; \<forall>j k'. get_key s j = Some k' \<longrightarrow> j \<noteq> i \<longrightarrow> \<not> matches (sha old) k'\<rbrakk>
        \<Longrightarrow> VerifyKey sha now' ok' old s' = Some (s', None)"
proof -
  obtain k0 pre h where k0: "get_key s i = Some k0" "akTenantID k0 = t" "Active k0" and g: "generateSecret sha (Some buf) = Some (plain, pre, h)"
    and k1: "k1 = k0\<lparr>akPrefix := pre, akHash := h, RotatedAt := Some now\<rparr>" and s': "get_key s' = (get_key s)(i \<mapsto> k1)"
    using assms(2) by (auto simp: Rotate_def Let_def split: option.splits if_splits)
  note sh = generateSecret_shape [OF g assms(3)]
  have ok': "keys_ok s'" using keys_ok_Rotate [OF assms(1)] assms(2) by (metis fst_conv)
  have m: "matches (sha plain) k1" using k1 sh assms(4) by (simp add: matches_def hex_decode_encode)
  have f: "akPrefix k1 = pre" "Active k1" "akTenantID k1 = t" using k1 k0 by (simp_all add: Active_def)
  have at: "get_key s' i = Some k1" "akPrefix k1 = lookup_prefix plain" using s' f(1) sh(2) by simp_all
  have "j = i" if "get_key s' j = Some k'" "matches (sha plain) k'" for j k'
    using that s' assms(5) by (auto simp: unused_def split: if_splits)
  then have "\<exists>s'' k'. VerifyKey sha now' ok' plain s' = Some (s'', Some k') \<and> akID k' = i \<and> akTenantID k' = akTenantID k1"
    by (rule verify_complete [where sha = sha, OF ok' sh(1) at(1) f(2) m at(2)])
  then show "\<exists>s'' k'. VerifyKey sha now' ok' plain s' = Some (s'', Some k') \<and> akID k' = i \<and> akTenantID k' = t"
    using f(3) by simp
  show "VerifyKey sha now' ok' old s' = Some (s', None)"
    if "get_key s i = Some k" "matches (sha old) k" "sha old \<noteq> sha plain" "\<forall>j k'. get_key s j = Some k' \<longrightarrow> j \<noteq> i \<longrightarrow> \<not> matches (sha old) k'"
    by (rule verify_rejects [OF ok']) (use that s' m in \<open>auto simp: matches_def split: if_splits\<close>)
qed

lemma revoke_kills:
  assumes "keys_ok s" "Revoke now ok t i s = (s', r)" "r \<noteq> Inl KeyNotExist"
    and "\<And>j k'. get_key s j = Some k' \<Longrightarrow> matches (sha p) k' \<Longrightarrow> j = i"
  shows "VerifyKey sha now' ok' p s' = Some (s', None)"
proof (rule verify_rejects)
  show "keys_ok s'" using keys_ok_Revoke [OF assms(1)] assms(2) by (metis fst_conv)
  fix j k assume j: "get_key s' j = Some k" "matches (sha p) k"
  obtain k0 where k0: "get_key s i = Some k0" "\<not> Active k0 \<and> s' = s \<or> get_key s' = (get_key s)(i \<mapsto> k0\<lparr>RevokedAt := Some now\<rparr>)"
    using assms(2,3) by (auto simp: Revoke_def Let_def Active_def split: option.splits if_splits)
  then show "\<not> Active k"
    using j assms(4) [of j k] by (auto simp: Active_def split: if_splits)
qed

text \<open>Only a caller of the owning tenant changes a key.\<close>

lemma lifecycle_other_tenant:
  assumes "get_key s i = Some k" "akTenantID k \<noteq> t"
  shows "Rotate sha rnd now ok t i s = (s, Inl KeyNotExist)" "Revoke now ok t i s = (s, Inl KeyNotExist)"
  using assms by (simp_all add: Rotate_def Revoke_def)

section \<open>Restart\<close>

lemma fold_load_get: "get_key (fold load_key ks s) i = (case map_of (map (\<lambda>k. (akID k, k)) (rev ks)) i of Some k \<Rightarrow> Some k | None \<Rightarrow> get_key s i)"
  by (induction ks arbitrary: s) (auto simp: load_key_def map_add_def split: option.splits)

lemma map_filter_total: "\<forall>x\<in>set xs. f x \<noteq> None \<Longrightarrow> List.map_filter f xs = map (\<lambda>x. the (f x)) xs"
  by (induction xs) (auto simp: List.map_filter_simps)

text \<open>A completed write makes the file hold exactly the keys in memory.\<close>

lemma restart_keys:
  assumes "keys_ok s"
  shows "get_key (NewAPIKeyStore (keyFile (persistLocked True s))) = get_key s"
proof
  fix i
  let ?ids = "sort (map fst (keysByID s))" and ?g = "\<lambda>x. the (get_key s x)"
  have snap: "keyFile (persistLocked True s) = map ?g ?ids"
    unfolding persistLocked_def by (simp, rule map_filter_total) (auto simp: map_of_eq_None_iff)
  have ids: "akID (?g x) = x" if "x \<in> set ?ids" for x
    using that keys_okD(1) [OF assms] by (auto simp: map_of_eq_None_iff dest: weak_map_of_SomeI)
  have "map (\<lambda>k. (akID k, k)) (rev (map ?g ?ids)) = map (\<lambda>x. (x, ?g x)) (rev ?ids)"
    using ids by (simp add: rev_map)
  moreover have "map_of (map (\<lambda>x. (x, ?g x)) (rev ?ids)) i = get_key s i"
    unfolding map_of_map_restrict
    by (cases "get_key s i") (auto simp: restrict_map_def map_of_eq_None_iff dest: map_of_SomeD intro: rev_image_eqI map_of_eq_None_iff [THEN iffD2, symmetric])
  ultimately show "get_key (NewAPIKeyStore (keyFile (persistLocked True s))) i = get_key s i"
    by (simp add: NewAPIKeyStore_def snap fold_load_get split: option.split)
qed

text \<open>
  A revocation whose write fails is final in memory only: the caller's retry is told that
  the key is revoked, without another write, and a restart serves the key again.
\<close>

lemma revoke_retry_not_durable:
  assumes "get_key s i = Some k" "Active k" "akTenantID k = t"
    and "Revoke now False t i s = (s1, r1)" "Revoke now' True t i s1 = (s2, r2)"
  shows "r1 = Inl KeyPersistFailed \<and> is_ok r2 \<and> keyFile s2 = keyFile s"
  using assms by (auto simp: Revoke_def Let_def Active_def)

text \<open>A creation whose write fails leaves its id in the prefix index; verifying a key with that prefix dereferences nil.\<close>

lemma failed_create_panics:
  assumes "CreateKey sha (Some buf) (Some idBuf) now False t n a s = (s', r)" "4 \<le> length buf"
    and "well_shaped p" "lookup_prefix p = lookup_prefix (apiKeyPrefix @ hex_encode buf)"
  shows "VerifyKey sha now' ok' p s' = None"
proof -
  let ?i = "''key_'' @ hex_encode idBuf"
  have s': "get_key s' ?i = None" "?i \<in> set (byPrefix s' (lookup_prefix p))"
    using assms(1,4) by (auto simp: CreateKey_def generateSecret_def Let_def load_key_def AList.delete_conv')
  show ?thesis
    using match_keys_dangling [OF s'(2,1)] assms(3) by (simp add: VerifyKey_def well_shaped_def)
qed

end
