(* ===== verification/Einv_Webhooks.thy ===== *)
theory Einv_Webhooks
  imports Einv_Store Einv_Irn Einv_ApiKeys
begin

text \<open>
  Stakeholder webhooks (\<^verbatim>\<open>services/einvoicing/webhooks.go\<close>) with their two handlers
  (\<^verbatim>\<open>nrs_handlers.go\<close>), and the VAT dashboard (\<^verbatim>\<open>vatsummary.go\<close>): the read paths that must not
  cross tenants.

  The process environment, the URL parser and the DNS resolver are the record \<open>hook_env\<close>. An
  address is its list of bytes, 4 or 16, as in \<^verbatim>\<open>net.IP\<close>. A delivery attempt is the answer of the
  sink at that attempt, with the cancellation of the context.
\<close>

section \<open>The callback policy\<close>

record hook_env =
  envENV :: string
  envAPP_ENV :: string
  envPROFILE :: string
  envAllow :: string
  urlParse :: "string \<Rightarrow> (string \<times> string) option" \<comment> \<open>scheme and host name\<close>
  lookupIP :: "string \<Rightarrow> nat list list option"

fun Contains :: "string \<Rightarrow> string \<Rightarrow> bool" where
  "Contains [] p = (p = [])"
| "Contains (c # s) p = (HasPrefix (c # s) p \<or> Contains s p)"

definition prodEnv :: "hook_env \<Rightarrow> bool" where
  "prodEnv e = Contains (ToLower (envENV e @ envAPP_ENV e)) ''prod''"

definition devProfile :: "hook_env \<Rightarrow> bool" where
  "devProfile e = (\<not> prodEnv e \<and> ToLower (envPROFILE e) \<noteq> ''prod'')"

text \<open>\<^verbatim>\<open>net.IP.To4\<close>: IPv4 addresses, also in their IPv6-mapped form.\<close>

definition to4 :: "nat list \<Rightarrow> nat list option" where
  "to4 ip = (if length ip = 4 then Some ip
             else if length ip = 16 \<and> take 12 ip = replicate 10 0 @ [255, 255] then Some (drop 12 ip) else None)"

definition isPrivateEgressIP :: "nat list \<Rightarrow> bool" where
  "isPrivateEgressIP ip =
     (case to4 ip of
        Some a \<Rightarrow>
          a ! 0 = 127 \<or>
          a ! 0 = 10 \<or> a ! 0 = 172 \<and> a ! 1 div 16 = 1 \<or> a ! 0 = 192 \<and> a ! 1 = 168 \<or>
          a ! 0 = 169 \<and> a ! 1 = 254 \<or>
          a ! 0 = 224 \<and> a ! 1 = 0 \<and> a ! 2 = 0 \<or>
          a = [0, 0, 0, 0]
      | None \<Rightarrow>
          ip = replicate 15 0 @ [1] \<or>
          length ip = 16 \<and> ip ! 0 div 2 = 126 \<or>
          length ip = 16 \<and> ip ! 0 = 254 \<and> ip ! 1 div 64 = 2 \<or>
          length ip = 16 \<and> ip ! 0 = 255 \<and> ip ! 1 mod 16 = 2 \<or>
          ip = replicate 16 0)"

datatype hook_error =
  BusinessIDRequired | TenantRequired | URLRequired | URLInvalid | NotHTTP | NotHTTPS | NotAllowlisted | Unresolvable | PrivateAddress
| SecretTooShort | OwnedByOther | AlreadyRegisteredURL

definition host_allowed :: "string \<Rightarrow> string \<Rightarrow> bool" where
  "host_allowed allow host =
     list_ex (\<lambda>raw. let suf = ToLower (TrimSpace raw) in suf \<noteq> '''' \<and> (host = suf \<or> HasSuffix host (''.'' @ suf)))
       (split_on (CHR '','') allow)"

definition validateWebhookURL :: "hook_env \<Rightarrow> string \<Rightarrow> hook_error option" where
  "validateWebhookURL e raw =
     (case urlParse e raw of
        None \<Rightarrow> Some URLInvalid
      | Some (sch, hostname) \<Rightarrow>
          if hostname = '''' then Some URLInvalid
          else (let scheme = ToLower sch; host = ToLower hostname
                in if scheme \<noteq> ''https'' \<and> scheme \<noteq> ''http'' then Some NotHTTP
                   else if scheme = ''http'' \<and> \<not> devProfile e then Some NotHTTPS
                   else if envAllow e \<noteq> '''' \<and> \<not> host_allowed (envAllow e) host then Some NotAllowlisted
                   else if \<not> devProfile e
                   then (case lookupIP e host of
                           None \<Rightarrow> Some Unresolvable
                         | Some ips \<Rightarrow> if list_ex isPrivateEgressIP ips then Some PrivateAddress else None)
                   else None))"

section \<open>The registry\<close>

record WebhookEndpoint =
  weURL :: string
  weSecret :: string
  weCreatedAt :: string

record WebhookDelivery =
  wdURL :: string
  wdEvent :: string
  wdAttempts :: nat
  wdStatus :: string
  wdLastError :: string
  wdBusinessID :: string

record WebhookRegistry =
  byBusiness :: "string \<Rightarrow> WebhookEndpoint list"
  owners :: "string \<rightharpoonup> string"
  deliveries :: "WebhookDelivery list"

definition NewWebhookRegistry :: WebhookRegistry where
  "NewWebhookRegistry = \<lparr>byBusiness = (\<lambda>_. []), owners = Map.empty, deliveries = []\<rparr>"

definition Owner :: "string \<Rightarrow> WebhookRegistry \<Rightarrow> string" where
  "Owner businessID r = (case owners r businessID of None \<Rightarrow> '''' | Some t \<Rightarrow> t)"

definition dev_secret :: "(string \<Rightarrow> nat list) \<Rightarrow> string \<Rightarrow> string \<Rightarrow> string" where
  "dev_secret sha businessID url = hex_encode (take 8 (sha (''meridian-dev-webhook|'' @ businessID @ ''|'' @ url)))"

definition RegisterWebhook :: "hook_env \<Rightarrow> (string \<Rightarrow> nat list) \<Rightarrow> string \<Rightarrow> string \<Rightarrow> string \<Rightarrow> string \<Rightarrow> string \<Rightarrow>
    WebhookRegistry \<Rightarrow> WebhookRegistry \<times> hook_error option" where
  "RegisterWebhook e sha now businessID ownerTenant url secret r =
     (if TrimSpace businessID = '''' then (r, Some BusinessIDRequired)
      else if TrimSpace ownerTenant = '''' then (r, Some TenantRequired)
      else if TrimSpace url = '''' then (r, Some URLRequired)
      else (case validateWebhookURL e url of
              Some er \<Rightarrow> (r, Some er)
            | None \<Rightarrow>
                if prodEnv e \<and> length secret < 16 then (r, Some SecretTooShort)
                else (let sec = (if secret = '''' then dev_secret sha businessID url else secret)
                      in if owners r businessID \<noteq> None \<and> owners r businessID \<noteq> Some ownerTenant then (r, Some OwnedByOther)
                         else if list_ex (\<lambda>ep. weURL ep = url) (byBusiness r businessID) then (r, Some AlreadyRegisteredURL)
                         else (r\<lparr>owners := (owners r)(businessID \<mapsto> ownerTenant),
                                 byBusiness := (byBusiness r)(businessID := byBusiness r businessID @ [\<lparr>weURL = url, weSecret = sec, weCreatedAt = now\<rparr>])\<rparr>,
                               None))))"

definition Endpoints :: "string \<Rightarrow> WebhookRegistry \<Rightarrow> WebhookEndpoint list" where
  "Endpoints businessID r = byBusiness r businessID"

definition DeliveriesFor :: "string \<Rightarrow> WebhookRegistry \<Rightarrow> WebhookDelivery list" where
  "DeliveriesFor tenant r =
     filter (\<lambda>d. wdBusinessID d \<noteq> '''' \<and> (case owners r (wdBusinessID d) of None \<Rightarrow> '''' | Some t \<Rightarrow> t) = tenant) (deliveries r)"

text \<open>The attempts for one endpoint: the number made and the last error.\<close>

fun post_from :: "(nat \<Rightarrow> string option) \<Rightarrow> (nat \<Rightarrow> bool) \<Rightarrow> nat \<Rightarrow> nat \<Rightarrow> string option \<Rightarrow> nat \<times> string option" where
  "post_from post cancel 0 attempt err = (attempt - 1, err)"
| "post_from post cancel (Suc left) attempt err =
     (case post attempt of
        None \<Rightarrow> (attempt, None)
      | Some er \<Rightarrow> if cancel attempt then (attempt, Some ''context canceled'') else post_from post cancel left (attempt + 1) (Some er))"

definition deliver :: "(nat \<Rightarrow> string option) \<Rightarrow> (nat \<Rightarrow> bool) \<Rightarrow> string \<Rightarrow> string \<Rightarrow> WebhookEndpoint \<Rightarrow> WebhookDelivery" where
  "deliver post cancel businessID event ep =
     (case post_from post cancel 3 1 None of
        (n, None) \<Rightarrow> \<lparr>wdURL = weURL ep, wdEvent = event, wdAttempts = n, wdStatus = ''delivered'', wdLastError = '''', wdBusinessID = businessID\<rparr>
      | (n, Some er) \<Rightarrow> \<lparr>wdURL = weURL ep, wdEvent = event, wdAttempts = n, wdStatus = ''failed'', wdLastError = er, wdBusinessID = businessID\<rparr>)"

text \<open>\<open>post ep attempt\<close> is the answer of the sink; the signature header is part of what the sink sees.\<close>

definition Notify :: "(WebhookEndpoint \<Rightarrow> nat \<Rightarrow> string option) \<Rightarrow> (WebhookEndpoint \<Rightarrow> nat \<Rightarrow> bool) \<Rightarrow> bool \<Rightarrow> string \<Rightarrow> string \<Rightarrow>
    WebhookRegistry \<Rightarrow> WebhookRegistry \<times> string option" where
  "Notify post cancel marshals businessID event r =
     (if \<not> marshals then (r, Some ''marshal failed'')
      else (let eps = byBusiness r businessID
            in if eps = [] then (r, None)
               else (let ds = map (\<lambda>ep. deliver (post ep) (cancel ep) businessID event ep) eps;
                         failures = length (filter (\<lambda>d. wdStatus d = ''failed'') ds);
                         r1 = r\<lparr>deliveries := deliveries r @ ds\<rparr>
                     in if failures = length eps then (r1, Some ''all webhook endpoints failed'') else (r1, None))))"

section \<open>Handlers\<close>

definition handleWebhookRegister :: "hook_env \<Rightarrow> (string \<Rightarrow> nat list) \<Rightarrow> string \<Rightarrow> Claims option \<Rightarrow> (string \<times> string \<times> string) option \<Rightarrow>
    InvoiceStore \<Rightarrow> WebhookRegistry \<Rightarrow> WebhookRegistry \<times> (string \<times> string) response" where
  "handleWebhookRegister e sha now ctx req s r =
     (case ctx of
        None \<Rightarrow> (r, Problem 401 ''unauthorized'')
      | Some c \<Rightarrow>
          if Sub c = '''' then (r, Problem 401 ''unauthorized'')
          else if \<not> hasAnyRole (Roles c) [''admin'', ''operator''] then (r, Problem 403 ''forbidden'')
          else if TenantID c = '''' then (r, Problem 403 ''forbidden'')
          else (case req of
                  None \<Rightarrow> (r, Problem 400 ''bad request'')
                | Some (businessID, url, secret) \<Rightarrow>
                    if list_ex (\<lambda>v. BusinessID v = businessID \<and> ciTenantID v \<noteq> '''' \<and> ciTenantID v \<noteq> TenantID c) (ListInvoices s)
                    then (r, Problem 403 ''forbidden'')
                    else (case RegisterWebhook e sha now businessID (TenantID c) url secret r of
                            (r1, Some er) \<Rightarrow> (r1, Problem (if er = OwnedByOther then 403 else 422) ''webhook registration failed'')
                          | (r1, None) \<Rightarrow> (r1, Reply 201 (url, businessID)))))"

text \<open>The secret of an endpoint is never serialised.\<close>

definition handleWebhookList :: "Claims option \<Rightarrow> string \<Rightarrow> WebhookRegistry \<Rightarrow> ((string \<times> string) list \<times> WebhookDelivery list) response" where
  "handleWebhookList ctx businessID r =
     (case ctx of
        None \<Rightarrow> Problem 401 ''unauthorized''
      | Some c \<Rightarrow>
          if Sub c = '''' then Problem 401 ''unauthorized''
          else if businessID \<noteq> '''' \<and> Owner businessID r \<noteq> '''' \<and> Owner businessID r \<noteq> TenantID c then Problem 403 ''forbidden''
          else if businessID \<noteq> '''' \<and> Owner businessID r = '''' \<and> TenantID c = '''' then Problem 403 ''forbidden''
          else if TenantID c = '''' then Problem 403 ''forbidden''
          else Reply 200 (map (\<lambda>ep. (weURL ep, weCreatedAt ep)) (Endpoints businessID r), DeliveriesFor (TenantID c) r))"

section \<open>The VAT dashboard\<close>

record VATPeriod =
  vpPeriod :: string
  InvoiceCount :: int
  vpTaxExclusive :: int64
  vpTax :: int64
  vpPayable :: int64

record VATSummary =
  vsTenantID :: string
  Periods :: "VATPeriod list"
  ByStatus :: "string \<Rightarrow> nat"
  TotalInvoices :: nat
  TotalTaxKobo :: int64
  TotalPayableKobo :: int64

text \<open>\<open>month\<close> formats a creation time as year and month.\<close>

definition invoicePeriod :: "(int \<Rightarrow> string) \<Rightarrow> CanonicalInvoice \<Rightarrow> string" where
  "invoicePeriod month v =
     (if 7 \<le> length (IssueDate v) then take 7 (IssueDate v)
      else (case CreatedAt v of Some t \<Rightarrow> month t | None \<Rightarrow> ''undated''))"

definition bump_period :: "string \<Rightarrow> CanonicalInvoice \<Rightarrow> (string \<times> VATPeriod) list \<Rightarrow> (string \<times> VATPeriod) list" where
  "bump_period p v m =
     (let b = (case map_of m p of Some b \<Rightarrow> b | None \<Rightarrow> \<lparr>vpPeriod = p, InvoiceCount = 0, vpTaxExclusive = 0, vpTax = 0, vpPayable = 0\<rparr>)
      in AList.update p (b\<lparr>InvoiceCount := InvoiceCount b + 1, vpTaxExclusive := add64 (vpTaxExclusive b) (TaxExclusiveKobo v),
           vpTax := add64 (vpTax b) (TaxKobo v), vpPayable := add64 (vpPayable b) (PayableKobo v)\<rparr>) m)"

definition add_invoice :: "(int \<Rightarrow> string) \<Rightarrow> string \<Rightarrow> CanonicalInvoice \<Rightarrow> (string \<times> VATPeriod) list \<times> VATSummary \<Rightarrow> (string \<times> VATPeriod) list \<times> VATSummary" where
  "add_invoice month tenantID v = (\<lambda>(m, sm).
     if ciTenantID v = '''' \<or> ciTenantID v \<noteq> tenantID then (m, sm)
     else (let status = (if ciStatus v = '''' then ''unknown'' else ciStatus v)
           in (bump_period (invoicePeriod month v) v m,
               sm\<lparr>ByStatus := (ByStatus sm)(status := ByStatus sm status + 1), TotalInvoices := TotalInvoices sm + 1,
                  TotalTaxKobo := add64 (TotalTaxKobo sm) (TaxKobo v), TotalPayableKobo := add64 (TotalPayableKobo sm) (PayableKobo v)\<rparr>)))"

definition SummarizeVAT :: "(int \<Rightarrow> string) \<Rightarrow> CanonicalInvoice list \<Rightarrow> string \<Rightarrow> VATSummary" where
  "SummarizeVAT month invs tenantID =
     (case fold (add_invoice month tenantID) invs
             ([], \<lparr>vsTenantID = tenantID, Periods = [], ByStatus = (\<lambda>_. 0), TotalInvoices = 0, TotalTaxKobo = 0, TotalPayableKobo = 0\<rparr>) of
        (m, sm) \<Rightarrow> sm\<lparr>Periods := sort_key vpPeriod (map snd m)\<rparr>)"

definition handleVATSummary :: "(int \<Rightarrow> string) \<Rightarrow> Claims option \<Rightarrow> InvoiceStore \<Rightarrow> VATSummary response" where
  "handleVATSummary month ctx s =
     (case ctx of
        None \<Rightarrow> Problem 401 ''unauthorized''
      | Some c \<Rightarrow>
          if Sub c = '''' then Problem 401 ''unauthorized''
          else if TenantID c = '''' then Problem 403 ''forbidden''
          else Reply 200 (SummarizeVAT month (ListInvoices s) (TenantID c)))"

section \<open>Ownership of a business\<close>

text \<open>A business with endpoints is bound to a tenant, and its endpoint URLs are distinct.\<close>

definition hooks_ok :: "WebhookRegistry \<Rightarrow> bool" where
  "hooks_ok r \<longleftrightarrow> (\<forall>b. byBusiness r b \<noteq> [] \<longrightarrow> owners r b \<noteq> None) \<and> (\<forall>b. distinct (map weURL (byBusiness r b))) \<and>
     (\<forall>b t. owners r b = Some t \<longrightarrow> TrimSpace t \<noteq> '''' \<and> TrimSpace b \<noteq> '''')"

lemma hooks_ok_New [simp]: "hooks_ok NewWebhookRegistry"
  by (simp add: hooks_ok_def NewWebhookRegistry_def)

lemma RegisterWebhook_cases:
  assumes "RegisterWebhook e sha now b t url secret r = (r', x)"
  obtains (refused) "r' = r" "x \<noteq> None"
  | (added) sec where "x = None" "TrimSpace b \<noteq> ''''" "TrimSpace t \<noteq> ''''" "validateWebhookURL e url = None"
      "prodEnv e \<Longrightarrow> 16 \<le> length secret" "owners r b = None \<or> owners r b = Some t" "url \<notin> weURL ` set (byBusiness r b)"
      "r' = r\<lparr>owners := (owners r)(b \<mapsto> t), byBusiness := (byBusiness r)(b := byBusiness r b @ [\<lparr>weURL = url, weSecret = sec, weCreatedAt = now\<rparr>])\<rparr>"
      "sec = (if secret = '''' then dev_secret sha b url else secret)"
proof (cases x)
  case (Some er)
  then show ?thesis using assms by (intro refused) (auto simp: RegisterWebhook_def Let_def split: if_splits option.splits)
next
  case None
  then show ?thesis
    using assms by (intro added) (auto simp: RegisterWebhook_def Let_def list_ex_iff image_iff split: if_splits option.splits)
qed

lemma hooks_ok_Register:
  assumes "hooks_ok r" "RegisterWebhook e sha now b t url secret r = (r', x)"
  shows "hooks_ok r'"
  using assms(2) by (cases rule: RegisterWebhook_cases) (use assms(1) in \<open>auto simp: hooks_ok_def\<close>)

lemma owner_stable:
  assumes "RegisterWebhook e sha now b t url secret r = (r', x)" "owners r c = Some o1"
  shows "owners r' c = Some o1" "c \<noteq> b \<or> t \<noteq> o1 \<Longrightarrow> byBusiness r' c = byBusiness r c"
  using assms(1) by (cases rule: RegisterWebhook_cases; use assms(2) in auto)+

lemma hooks_ok_Notify: "hooks_ok r \<Longrightarrow> hooks_ok (fst (Notify post cancel m b ev r))"
  by (simp add: Notify_def hooks_ok_def Let_def)

text \<open>Outside the dev profile an endpoint is an https URL whose host resolved to public addresses only.\<close>

lemma registered_is_public:
  assumes "RegisterWebhook e sha now b t url secret r = (r', None)" "\<not> devProfile e"
  shows "\<exists>sch host ips. urlParse e url = Some (sch, host) \<and> ToLower sch = ''https'' \<and> lookupIP e (ToLower host) = Some ips \<and>
      (\<forall>ip\<in>set ips. \<not> isPrivateEgressIP ip)"
  using assms(1)
proof (cases rule: RegisterWebhook_cases)
  case (added sec)
  from added(4) assms(2) show ?thesis
    by (auto simp: validateWebhookURL_def Let_def list_ex_iff split: option.splits if_splits)
qed simp

text \<open>
  With \<^verbatim>\<open>PROFILE=prod\<close> and no \<^verbatim>\<open>ENV\<close> the URL policy is that of production, but an empty secret is
  accepted and replaced by the development secret, which is computable from the public
  business id and URL.
\<close>

lemma prod_profile_dev_secret:
  assumes "ToLower (envPROFILE e) = ''prod''" "envENV e = ''''" "envAPP_ENV e = ''''"
    and "RegisterWebhook e sha now b t url '''' r = (r', None)"
  shows "\<not> devProfile e \<and> weSecret (last (byBusiness r' b)) = dev_secret sha b url"
  using assms(4) by (cases rule: RegisterWebhook_cases) (use assms(1-3) in \<open>auto simp: devProfile_def\<close>)

lemma list_own_only:
  assumes "handleWebhookList ctx b r = Reply n (eps, ds)" "hooks_ok r"
  shows "\<exists>c. ctx = Some c \<and> TenantID c \<noteq> '''' \<and> (eps \<noteq> [] \<longrightarrow> owners r b = Some (TenantID c)) \<and> (\<forall>d\<in>set ds. owners r (wdBusinessID d) = Some (TenantID c))"
proof -
  obtain c where c: "ctx = Some c" "TenantID c \<noteq> ''''" "b = '''' \<or> Owner b r = '''' \<or> Owner b r = TenantID c"
    and eps: "eps = map (\<lambda>ep. (weURL ep, weCreatedAt ep)) (byBusiness r b)" and ds: "ds = DeliveriesFor (TenantID c) r"
    using assms(1) by (auto simp: handleWebhookList_def Endpoints_def split: option.splits if_splits)
  have "owners r b = Some (TenantID c)" if "eps \<noteq> []"
  proof -
    from that eps obtain t where t: "owners r b = Some t" "TrimSpace t \<noteq> ''''" "TrimSpace b \<noteq> ''''" using assms(2) by (auto simp: hooks_ok_def)
    then have "t \<noteq> ''''" "b \<noteq> ''''" using TrimSpace_Nil by auto
    with c(3) t show ?thesis by (simp add: Owner_def)
  qed
  then show ?thesis using c(1,2) ds by (auto simp: DeliveriesFor_def split: option.splits)
qed

section \<open>Delivery\<close>

lemma post_from_attempts:
  assumes "post_from post cancel left k err = (n, r)" "0 < left"
  shows "k \<le> n \<and> n < k + left \<and> (r = None \<longleftrightarrow> post n = None)"
  using assms
proof (induction left arbitrary: k err)
  case (Suc left)
  show ?case
  proof (cases "left = 0")
    case True
    with Suc.prems show ?thesis by (auto split: option.splits if_splits)
  next
    case False
    with Suc show ?thesis by (fastforce split: option.splits if_splits)
  qed
qed simp

lemma notify_outcome:
  assumes "Notify post cancel True b ev r = (r', x)"
  shows "\<exists>ds. deliveries r' = deliveries r @ ds \<and> map wdURL ds = map weURL (byBusiness r b) \<and>
     (\<forall>d\<in>set ds. wdBusinessID d = b \<and> 1 \<le> wdAttempts d \<and> wdAttempts d \<le> 3) \<and>
     (x \<noteq> None \<longleftrightarrow> ds \<noteq> [] \<and> (\<forall>d\<in>set ds. wdStatus d = ''failed''))"
proof -
  let ?ds = "map (\<lambda>ep. deliver (post ep) (cancel ep) b ev ep) (byBusiness r b)"
  have d: "wdURL (deliver p c b ev ep) = weURL ep \<and> wdBusinessID (deliver p c b ev ep) = b \<and>
      1 \<le> wdAttempts (deliver p c b ev ep) \<and> wdAttempts (deliver p c b ev ep) \<le> 3" for p c ep
  proof -
    obtain n er where pf: "post_from p c 3 1 None = (n, er)" by fastforce
    then show ?thesis using post_from_attempts [OF pf] by (auto simp: deliver_def split: option.split)
  qed
  have all: "length (filter P (map f xs)) = length xs \<longleftrightarrow> (\<forall>y\<in>set (map f xs). P y)" for P f xs
    using filter_id_conv [of P "map f xs"] length_filter_less [of _ "map f xs" P] by (metis length_map less_irrefl)
  have "deliveries r' = deliveries r @ ?ds" "x \<noteq> None \<longleftrightarrow> ?ds \<noteq> [] \<and> (\<forall>y\<in>set ?ds. wdStatus y = ''failed'')"
    using assms all [of "\<lambda>y. wdStatus y = ''failed''"] by (auto simp: Notify_def Let_def split: if_splits)
  then show ?thesis using d by (intro exI [of _ ?ds]) auto
qed

section \<open>What the dashboard shows\<close>

definition own :: "string \<Rightarrow> CanonicalInvoice list \<Rightarrow> CanonicalInvoice list" where
  "own t vs = filter (\<lambda>v. ciTenantID v = t \<and> t \<noteq> '''') vs"

lemma fold_add_own: "fold (add_invoice month t) vs st = fold (add_invoice month t) (own t vs) st"
  by (induction vs arbitrary: st) (auto simp: own_def add_invoice_def split: prod.split)

lemma own_idem [simp]: "own t (own t vs) = own t vs"
  by (simp add: own_def)

text \<open>The rows of other tenants have no influence.\<close>

lemma summary_noninterference: "own t vs = own t vs' \<Longrightarrow> SummarizeVAT month vs t = SummarizeVAT month vs' t"
  unfolding SummarizeVAT_def by (simp add: fold_add_own [of month t vs] fold_add_own [of month t vs'])

text \<open>A bucket is the sum of the invoices of its period.\<close>

definition bucket :: "string \<Rightarrow> CanonicalInvoice list \<Rightarrow> VATPeriod" where
  "bucket p vs = \<lparr>vpPeriod = p, InvoiceCount = int (length vs), vpTaxExclusive = sum64 TaxExclusiveKobo vs, vpTax = sum64 TaxKobo vs,
     vpPayable = sum64 PayableKobo vs\<rparr>"

lemma bump_bucket:
  assumes "\<forall>q. map_of m q = (let us = filter (\<lambda>v. per v = q) vs in if us = [] then None else Some (bucket q us))"
  shows "map_of (bump_period (per v) v m) q = (let us = filter (\<lambda>v. per v = q) (vs @ [v]) in if us = [] then None else Some (bucket q us))"
  using assms by (auto simp: bump_period_def bucket_def Let_def sum64_snoc sum64_eq add64_def)

lemma fold_add_buckets:
  assumes "list_all (\<lambda>v. ciTenantID v = t \<and> t \<noteq> '''') vs"
  shows "\<exists>m sm. fold (add_invoice month t) vs ([], sm0) = (m, sm) \<and> distinct (map fst m) \<and>
     (\<forall>q. map_of m q = (let us = filter (\<lambda>v. invoicePeriod month v = q) vs in if us = [] then None else Some (bucket q us))) \<and>
     TotalInvoices sm = TotalInvoices sm0 + length vs \<and> (in64 (TotalTaxKobo sm0) \<longrightarrow> TotalTaxKobo sm = add64 (TotalTaxKobo sm0) (sum64 TaxKobo vs)) \<and>
     (in64 (TotalPayableKobo sm0) \<longrightarrow> TotalPayableKobo sm = add64 (TotalPayableKobo sm0) (sum64 PayableKobo vs)) \<and> vsTenantID sm = vsTenantID sm0"
  using assms
proof (induction vs rule: rev_induct)
  case Nil
  then show ?case by (simp add: sum64_eq wrap64_id)
next
  case (snoc v vs)
  then obtain m sm where f: "fold (add_invoice month t) vs ([], sm0) = (m, sm)" "distinct (map fst m)"
    and m: "\<forall>q. map_of m q = (let us = filter (\<lambda>v. invoicePeriod month v = q) vs in if us = [] then None else Some (bucket q us))"
    and sm: "TotalInvoices sm = TotalInvoices sm0 + length vs" "in64 (TotalTaxKobo sm0) \<longrightarrow> TotalTaxKobo sm = add64 (TotalTaxKobo sm0) (sum64 TaxKobo vs)"
      "in64 (TotalPayableKobo sm0) \<longrightarrow> TotalPayableKobo sm = add64 (TotalPayableKobo sm0) (sum64 PayableKobo vs)" "vsTenantID sm = vsTenantID sm0"
    by auto
  have own: "ciTenantID v = t" "t \<noteq> ''''" using snoc.prems by auto
  let ?m = "bump_period (invoicePeriod month v) v m"
  obtain sm' where sm': "fold (add_invoice month t) (vs @ [v]) ([], sm0) = (?m, sm')" "TotalInvoices sm' = TotalInvoices sm + 1"
    "TotalTaxKobo sm' = add64 (TotalTaxKobo sm) (TaxKobo v)" "TotalPayableKobo sm' = add64 (TotalPayableKobo sm) (PayableKobo v)" "vsTenantID sm' = vsTenantID sm"
    using f own by (simp add: add_invoice_def Let_def)
  have "distinct (map fst ?m)" using f(2) by (simp add: bump_period_def Let_def distinct_update)
  moreover note bump_bucket [OF m]
  moreover have "TotalInvoices sm' = TotalInvoices sm0 + length (vs @ [v])" "in64 (TotalTaxKobo sm0) \<longrightarrow> TotalTaxKobo sm' = add64 (TotalTaxKobo sm0) (sum64 TaxKobo (vs @ [v]))"
    "in64 (TotalPayableKobo sm0) \<longrightarrow> TotalPayableKobo sm' = add64 (TotalPayableKobo sm0) (sum64 PayableKobo (vs @ [v]))" "vsTenantID sm' = vsTenantID sm0"
    using sm sm'(2-5) by (simp_all add: sum64_snoc add64_assoc)
  ultimately show ?case using sm'(1) by blast
qed

lemma summary_correct:
  assumes "t \<noteq> ''''"
  shows "set (Periods (SummarizeVAT month vs t)) = {bucket p us |p us. us = filter (\<lambda>v. invoicePeriod month v = p) (own t vs) \<and> us \<noteq> []}"
    "sorted (map vpPeriod (Periods (SummarizeVAT month vs t)))" "distinct (map vpPeriod (Periods (SummarizeVAT month vs t)))"
    "TotalInvoices (SummarizeVAT month vs t) = length (own t vs)" "TotalTaxKobo (SummarizeVAT month vs t) = sum64 TaxKobo (own t vs)"
    "TotalPayableKobo (SummarizeVAT month vs t) = sum64 PayableKobo (own t vs)"
proof -
  let ?sm0 = "\<lparr>vsTenantID = t, Periods = [], ByStatus = (\<lambda>_. 0), TotalInvoices = 0, TotalTaxKobo = 0, TotalPayableKobo = 0\<rparr>"
  obtain m sm where f: "fold (add_invoice month t) (own t vs) ([], ?sm0) = (m, sm)" "distinct (map fst m)"
    and m: "\<forall>q. map_of m q = (let us = filter (\<lambda>v. invoicePeriod month v = q) (own t vs) in if us = [] then None else Some (bucket q us))"
    and tot: "TotalInvoices sm = length (own t vs)" "TotalTaxKobo sm = add64 0 (sum64 TaxKobo (own t vs))"
      "TotalPayableKobo sm = add64 0 (sum64 PayableKobo (own t vs))"
    using fold_add_buckets [of t "own t vs" month ?sm0] assms by (auto simp: own_def list_all_iff)
  have s: "SummarizeVAT month vs t = sm\<lparr>Periods := sort_key vpPeriod (map snd m)\<rparr>"
    unfolding SummarizeVAT_def by (subst fold_add_own) (simp add: f)
  have per: "vpPeriod b = q" if "(q, b) \<in> set m" for q b
    using map_of_is_SomeI [OF f(2) that] m by (auto simp: Let_def bucket_def split: if_splits)
  have keys: "map vpPeriod (map snd m) = map fst m" using per by auto
  show "set (Periods (SummarizeVAT month vs t)) = {bucket p us |p us. us = filter (\<lambda>v. invoicePeriod month v = p) (own t vs) \<and> us \<noteq> []}"
  proof -
    have "b \<in> snd ` set m \<longleftrightarrow> (\<exists>q. map_of m q = Some b)" for b
      using f(2) by (auto simp: map_of_eq_Some_iff image_iff Bex_def)
    moreover have "(\<exists>q. map_of m q = Some b) \<longleftrightarrow> (\<exists>p us. b = bucket p us \<and> us = filter (\<lambda>v. invoicePeriod month v = p) (own t vs) \<and> us \<noteq> [])" for b
      using m by (simp add: Let_def) blast
    ultimately show ?thesis unfolding s by (simp add: set_eq_iff)
  qed
  show "sorted (map vpPeriod (Periods (SummarizeVAT month vs t)))" unfolding s by simp
  have "distinct (map vpPeriod (map snd m))" unfolding keys by (rule f(2))
  then show "distinct (map vpPeriod (Periods (SummarizeVAT month vs t)))"
    unfolding s by (auto simp: distinct_map intro: inj_on_imageI2 inj_on_imageI)
  show "TotalInvoices (SummarizeVAT month vs t) = length (own t vs)" "TotalTaxKobo (SummarizeVAT month vs t) = sum64 TaxKobo (own t vs)"
    "TotalPayableKobo (SummarizeVAT month vs t) = sum64 PayableKobo (own t vs)" unfolding s using tot by simp_all
qed


section \<open>Reachable registries\<close>

text \<open>The registry changes by registrations and by deliveries.\<close>

inductive hook_step :: "WebhookRegistry \<Rightarrow> WebhookRegistry \<Rightarrow> bool" where
  register: "RegisterWebhook e sha now b t url secret r = (r', x) \<Longrightarrow> hook_step r r'"
| notify: "Notify post cancel m b ev r = (r', x) \<Longrightarrow> hook_step r r'"

lemma hook_step_ok: "hook_step r r' \<Longrightarrow> hooks_ok r \<Longrightarrow> hooks_ok r'"
proof (induction rule: hook_step.induct)
  case (notify post cancel m b ev r r' x)
  then show ?case using hooks_ok_Notify [of r post cancel m b ev] by simp
qed (rule hooks_ok_Register)

lemma Notify_owners: "owners (fst (Notify post cancel m b ev r)) = owners r"
  by (simp add: Notify_def Let_def)

lemma hook_step_owner: "hook_step r r' \<Longrightarrow> owners r b = Some t \<Longrightarrow> owners r' b = Some t"
proof (induction rule: hook_step.induct)
  case (notify post cancel m c ev r r' x)
  then show ?case using Notify_owners [of post cancel m c ev r] by simp
qed (rule owner_stable(1))

lemma hook_reach_ok: "hook_step\<^sup>*\<^sup>* NewWebhookRegistry r \<Longrightarrow> hooks_ok r"
  by (induction rule: rtranclp_induct) (simp_all add: hook_step_ok)

lemma hook_reach_owner: "hook_step\<^sup>*\<^sup>* r r' \<Longrightarrow> owners r b = Some t \<Longrightarrow> owners r' b = Some t"
  by (induction rule: rtranclp_induct) (simp_all add: hook_step_owner)

lemma Register_fresh:
  assumes "TrimSpace b \<noteq> ''''" "TrimSpace t \<noteq> ''''" "TrimSpace url \<noteq> ''''" "validateWebhookURL e url = None" "16 \<le> length secret"
  shows "RegisterWebhook e sha now b t url secret NewWebhookRegistry = (NewWebhookRegistry\<lparr>owners := [b \<mapsto> t],
     byBusiness := (\<lambda>_. [])(b := [\<lparr>weURL = url, weSecret = secret, weCreatedAt = now\<rparr>])\<rparr>, None)"
proof -
  have "secret \<noteq> ''''" "\<not> length secret < 16" using assms(5) by auto
  then show ?thesis using assms(1-4) by (simp add: RegisterWebhook_def NewWebhookRegistry_def Let_def)
qed

end
