(* ===== verification/Einv_Handlers.thy ===== *)
theory Einv_Handlers
  imports Einv_Preclear Einv_Webhooks
begin

text \<open>
  The HTTP handlers of the e-invoicing service that read or change invoices
  (\<^verbatim>\<open>services/einvoicing/main.go\<close>, \<^verbatim>\<open>nrs_handlers.go\<close>, \<^verbatim>\<open>nrs_resume.go\<close>): ingestion through an
  adapter, NRS ingestion with its idempotent replays, the payment update, pre-clearance, B2C
  reporting and retrieval, with the tenant guard.

  The state of a handler is the runner with the workflow state of \<open>Einv_Lifecycle\<close>. A request
  arrives decoded: the claims of its principal if it has one, its headers, and the result of
  the parser of its body. A response is a problem with its status or a reply with its status
  and contents.
\<close>

type_synonym server = "InprocRunner \<times> wf_state"

section \<open>The tenant guard\<close>

definition tenantGuard :: "Claims option \<Rightarrow> CanonicalInvoice \<Rightarrow> 'a response option" where
  "tenantGuard ctx v =
     (case ctx of
        None \<Rightarrow> None
      | Some c \<Rightarrow>
          if ciTenantID v = '''' \<or> ciTenantID v = TenantID c then None
          else if TenantID c = '''' then Some (Problem 403 ''forbidden'')
          else Some (Problem 404 ''not found''))"

fun writeStoreConflict :: "save_error \<Rightarrow> 'a response" where
  "writeStoreConflict IdempotencyPayloadConflict = Problem 409 ''conflict''"
| "writeStoreConflict IdempotentReplay = Problem 409 ''conflict''"
| "writeStoreConflict (Conflict _) = Problem 409 ''conflict''"
| "writeStoreConflict _ = Problem 500 ''persist failed''"

text \<open>The tenant of \<^verbatim>\<open>claims, _ := devjwt.FromContext(r)\<close>: empty without a principal.\<close>

definition claim_tenant :: "Claims option \<Rightarrow> string" where
  "claim_tenant ctx = (case ctx of None \<Rightarrow> '''' | Some c \<Rightarrow> TenantID c)"

text \<open>\<^verbatim>\<open>store.Save(inv)\<close> with its two results; the invoice in hand is the saved one.\<close>

definition save_with :: "world \<Rightarrow> CanonicalInvoice \<Rightarrow> wf_state \<Rightarrow> wf_state \<times> string \<times> save_error option" where
  "save_with w v st =
     (case SaveCtx (wDigests w) (wSave w (tick st)) v (wsStore st) of
        (s, v1, priorID, e) \<Rightarrow> (next_tick (st\<lparr>wsStore := s, wsInv := v1\<rparr>), priorID, e))"

section \<open>Ingestion\<close>

record request =
  rqClaims :: "Claims option"
  rqIdempotencyKey :: string

datatype create_reply = Replayed CanonicalInvoice | Created "CanonicalInvoice list"

text \<open>A parsed invoice, normalised and bound to the tenant and key of the request.\<close>

definition ingest_draft :: "CitationResolver \<Rightarrow> string \<Rightarrow> string \<Rightarrow> string \<Rightarrow> request \<Rightarrow> CanonicalInvoice \<Rightarrow> CanonicalInvoice" where
  "ingest_draft res ulid today adapter rq v0 =
     (let v1 = (Normalise res ulid today v0)\<lparr>ciTenantID := claim_tenant (rqClaims rq), ciIdempotencyKey := rqIdempotencyKey rq\<rparr>
      in if SourceAdapter v1 = '''' then v1\<lparr>SourceAdapter := adapter\<rparr> else v1)"

text \<open>One round per parsed invoice; the first failure or replay ends the request.\<close>

fun create_loop :: "world \<Rightarrow> CitationResolver \<Rightarrow> (nat \<Rightarrow> string) \<Rightarrow> string \<Rightarrow> string \<Rightarrow> request \<Rightarrow> CanonicalInvoice list \<Rightarrow> CanonicalInvoice list \<Rightarrow>
    wf_state \<Rightarrow> wf_state \<times> create_reply response" where
  "create_loop w res ulid today adapter rq [] created st = (st, Reply 201 (Created created))"
| "create_loop w res ulid today adapter rq (v0 # rest) created st =
     (let v2 = ingest_draft res (ulid (tick st)) today adapter rq v0
      in case wValidate w (tick st) v2 (IsDuplicate v2 (wsStore st)) of
           Inl e \<Rightarrow> (next_tick st, Problem 500 ''validation error'')
         | Inr (violations, fatal) \<Rightarrow>
             (let v3 = v2\<lparr>Validation := violations, ciStatus := (if fatal then ''failed'' else ''validated'')\<rparr>
              in case save_with w v3 (next_tick st) of
                   (st1, priorID, e) \<Rightarrow>
                     if priorID \<noteq> ''''
                     then (case e of
                             Some IdempotentReplay \<Rightarrow> (case GetInvoice priorID (wsStore st1) of
                                Some prior \<Rightarrow> (st1, Reply 200 (Replayed prior)) | None \<Rightarrow> (st1, Problem 500 ''missing prior''))
                           | Some er \<Rightarrow> (st1, writeStoreConflict er)
                           | None \<Rightarrow> (case GetInvoice priorID (wsStore st1) of
                                Some prior \<Rightarrow> (st1, Reply 200 (Replayed prior)) | None \<Rightarrow> (st1, Problem 500 ''missing prior'')))
                     else (case e of
                             Some er \<Rightarrow> (st1, writeStoreConflict er)
                           | None \<Rightarrow>
                               create_loop w res ulid today adapter rq rest (created @ [wsInv st1])
                                 (fst (emit w ''nrs.mbs.invoice.received.v1'' st1)))))"

text \<open>\<open>parsed\<close> is the outcome of reading the body and of the adapter: a status or the invoices.\<close>

definition handleCreateInvoice :: "world \<Rightarrow> CitationResolver \<Rightarrow> (nat \<Rightarrow> string) \<Rightarrow> string \<Rightarrow> string \<Rightarrow> request \<Rightarrow> nat + CanonicalInvoice list \<Rightarrow>
    server \<Rightarrow> server \<times> create_reply response" where
  "handleCreateInvoice w res ulid today adapter rq parsed = (\<lambda>(r, st).
     case parsed of
       Inl status \<Rightarrow> ((r, st), Problem status ''bad request'')
     | Inr invs \<Rightarrow> (case create_loop w res ulid today adapter rq invs [] st of (st1, resp) \<Rightarrow> ((r, st1), resp)))"

section \<open>NRS ingestion\<close>

record nrs_reply =
  nrInvoice :: CanonicalInvoice
  nrRun :: "WorkflowRun option"
  nrError :: bool
  nrReplay :: bool

text \<open>
  A record that a lookup just returned is read again; under a consistent store it is there
  (\<open>None\<close> would be a nil dereference).
\<close>

definition reply_stored :: "nat \<Rightarrow> WorkflowRun option \<Rightarrow> bool \<Rightarrow> bool \<Rightarrow> string \<Rightarrow> server \<Rightarrow> nrs_reply response" where
  "reply_stored status run err again i rs =
     (case GetInvoice i (wsStore (snd rs)) of
        None \<Rightarrow> Problem 500 ''nil invoice''
      | Some v \<Rightarrow> Reply status \<lparr>nrInvoice = v, nrRun = run, nrError = err, nrReplay = again\<rparr>)"

definition resumeInterrupted :: "world \<Rightarrow> string set \<Rightarrow> string \<Rightarrow> server \<Rightarrow> server \<times> nrs_reply response option" where
  "resumeInterrupted w inflight i rs =
     (case runNRSWorkflow w inflight i rs of
        (rs1, None) \<Rightarrow> (rs1, None)
      | (rs1, Some (run, res)) \<Rightarrow>
          (rs1, Some (if is_ok res then reply_stored 200 (Some run) False True i rs1 else reply_stored 422 (Some run) True True i rs1)))"

text \<open>Both replay paths: the guard, then a resumption of a mid-flow record, then the record itself.\<close>

definition replay_existing :: "world \<Rightarrow> string set \<Rightarrow> Claims option \<Rightarrow> CanonicalInvoice \<Rightarrow> server \<Rightarrow> server \<times> nrs_reply response" where
  "replay_existing w inflight ctx existing rs =
     (case tenantGuard ctx existing of
        Some p \<Rightarrow> (rs, p)
      | None \<Rightarrow>
          (let plain = Reply 200 \<lparr>nrInvoice = existing, nrRun = None, nrError = False, nrReplay = True\<rparr>
           in if nrsInterimStatus (Some existing)
              then (case resumeInterrupted w inflight (ciID existing) rs of
                      (rs1, Some resp) \<Rightarrow> (rs1, resp)
                    | (rs1, None) \<Rightarrow> (rs1, plain))
              else (rs, plain)))"

text \<open>What the handler makes of a converted payload before it saves it.\<close>

definition nrs_draft :: "CitationResolver \<Rightarrow> string \<Rightarrow> string \<Rightarrow> request \<Rightarrow> string \<Rightarrow> CanonicalInvoice \<Rightarrow> CanonicalInvoice" where
  "nrs_draft res ulid today rq body v0 =
     (let v1 = Normalise res ulid today
            (v0\<lparr>ciTenantID := claim_tenant (rqClaims rq), ciIdempotencyKey := rqIdempotencyKey rq, NRSPayload := body\<rparr>)
      in if PaymentStatus v1 = '''' then v1\<lparr>PaymentStatus := ''PENDING''\<rparr> else v1)"

text \<open>\<open>irn\<close> is the IRN of the decoded payload, \<open>conv\<close> what \<^verbatim>\<open>FromNRS\<close> makes of it, \<open>body\<close> its text.\<close>

definition handleNRSCreate :: "world \<Rightarrow> CitationResolver \<Rightarrow> string \<Rightarrow> string \<Rightarrow> string set \<Rightarrow> request \<Rightarrow> string \<Rightarrow> string \<Rightarrow> CanonicalInvoice option \<Rightarrow>
    server \<Rightarrow> server \<times> nrs_reply response" where
  "handleNRSCreate w res ulid today inflight rq body irn conv rs =
     (case (if irn \<noteq> '''' then GetByIRN (TrimSpace irn) (wsStore (snd rs)) else None) of
        Some existing \<Rightarrow> replay_existing w inflight (rqClaims rq) existing rs
      | None \<Rightarrow>
          (case conv of
             None \<Rightarrow> (rs, Problem 422 ''NRS schema validation failed'')
           | Some v0 \<Rightarrow>
               (let v2 = nrs_draft res ulid today rq body v0
                in case save_with w v2 (snd rs) of
                     (st1, priorID, e) \<Rightarrow>
                       (let rs1 = (fst rs, st1)
                        in if priorID \<noteq> ''''
                           then (if e \<noteq> None \<and> e \<noteq> Some IdempotentReplay then (rs1, writeStoreConflict (the e))
                                 else (case GetInvoice priorID (wsStore st1) of
                                         None \<Rightarrow> (rs1, Problem 500 ''nil invoice'')
                                       | Some prior \<Rightarrow> replay_existing w inflight (rqClaims rq) prior rs1))
                           else (case e of
                                   Some er \<Rightarrow> (rs1, writeStoreConflict er)
                                 | None \<Rightarrow>
                                     (case runNRSWorkflow w inflight (ciID v2) rs1 of
                                        (rs2, None) \<Rightarrow> (rs2, reply_stored 202 None False False (ciID v2) rs2)
                                      | (rs2, Some (run, r)) \<Rightarrow>
                                          (rs2, if is_ok r then reply_stored 201 (Some run) False False (ciID v2) rs2
                                                else reply_stored 422 (Some run) True False (ciID v2) rs2)))))))"

section \<open>Updates of a signed invoice\<close>

definition PaymentStatuses :: "string list" where
  "PaymentStatuses = [''PENDING'', ''PAID'', ''REJECTED'']"

definition ValidPaymentStatus :: "string \<Rightarrow> bool" where
  "ValidPaymentStatus s = (ToUpper (TrimSpace s) \<in> set PaymentStatuses)"

text \<open>The decoded body of a PATCH: its keys, and the two fields (empty when absent or of another type).\<close>

record patch =
  pKeys :: "string list"
  pPaymentStatus :: string
  pReference :: string

definition apply_patch :: "string \<Rightarrow> string \<Rightarrow> patch \<Rightarrow> CanonicalInvoice \<Rightarrow> CanonicalInvoice" where
  "apply_patch now actor p v =
     (let v1 = (if pPaymentStatus p \<noteq> '''' then v\<lparr>PaymentStatus := ToUpper (pPaymentStatus p)\<rparr> else v);
          v2 = (if pReference p \<noteq> '''' then v1\<lparr>PaymentReference := pReference p\<rparr> else v1)
      in v2\<lparr>Audit := Audit v2 @ [\<lparr>auAt = now, auAction = ''payment_status_update'',
           auDetail = ''payment_status='' @ PaymentStatus v2 @ '' reference='' @ PaymentReference v2, auActor = actor\<rparr>]\<rparr>)"

definition handleNRSUpdate :: "world \<Rightarrow> string \<Rightarrow> Claims option \<Rightarrow> string \<Rightarrow> nat + patch \<Rightarrow> server \<Rightarrow> server \<times> CanonicalInvoice response" where
  "handleNRSUpdate w now ctx irn body rs =
     (case GetByIRN irn (wsStore (snd rs)) of
        None \<Rightarrow> (rs, Problem 404 ''not found'')
      | Some v \<Rightarrow>
          (case tenantGuard ctx v of
             Some p \<Rightarrow> (rs, p)
           | None \<Rightarrow>
               (case body of
                  Inl status \<Rightarrow> (rs, Problem status ''bad request'')
                | Inr p \<Rightarrow>
                    if list_ex (\<lambda>k. k \<noteq> ''payment_status'' \<and> k \<noteq> ''reference'') (pKeys p) then (rs, Problem 409 ''field locked'')
                    else if pPaymentStatus p = '''' \<and> pReference p = '''' then (rs, Problem 400 ''bad request'')
                    else if pPaymentStatus p \<noteq> '''' \<and> \<not> ValidPaymentStatus (pPaymentStatus p) then (rs, Problem 422 ''invalid payment_status'')
                    else (let v1 = apply_patch now (case ctx of None \<Rightarrow> '''' | Some c \<Rightarrow> Sub c) p v
                          in case save_with w v1 (snd rs) of
                               (st1, _, Some e) \<Rightarrow> ((fst rs, st1), Problem 500 ''persist failed'')
                             | (st1, _, None) \<Rightarrow>
                                 ((fst rs, fst (emit w ''nrs.einvoice.payment_status.v1'' st1)), Reply 200 (wsInv st1))))))"

section \<open>Retrieval, pre-clearance and B2C reports\<close>

definition handleGetInvoice :: "Claims option \<Rightarrow> string \<Rightarrow> server \<Rightarrow> CanonicalInvoice response" where
  "handleGetInvoice ctx i rs =
     (case GetInvoice i (wsStore (snd rs)) of
        None \<Rightarrow> Problem 404 ''not found''
      | Some v \<Rightarrow> (case tenantGuard ctx v of Some p \<Rightarrow> p | None \<Rightarrow> Reply 200 v))"

definition handlePreclear :: "world \<Rightarrow> (CanonicalInvoice \<Rightarrow> string option) \<Rightarrow> APPRouter \<Rightarrow> Claims option \<Rightarrow> string \<Rightarrow>
    server \<Rightarrow> server \<times> (WorkflowRun \<times> CanonicalInvoice option) response" where
  "handlePreclear w ubl router ctx i rs =
     (case GetInvoice i (wsStore (snd rs)) of
        None \<Rightarrow> (rs, Problem 404 ''not found'')
      | Some v \<Rightarrow>
          (case tenantGuard ctx v of
             Some p \<Rightarrow> (rs, p)
           | None \<Rightarrow>
               (case RunWorkflow ''wf-mbs-preclearance'' (wfMBSPreclearance w ubl router) i rs of
                  (rs1, run, res) \<Rightarrow>
                    (rs1, if is_ok res then Reply 200 (run, GetInvoice i (wsStore (snd rs1))) else Reply 422 (run, None)))))"

datatype b2c_request = ByID string | ByInvoice CanonicalInvoice | NoInvoice

definition b2c_finish :: "world \<Rightarrow> APPRouter \<Rightarrow> CanonicalInvoice \<Rightarrow> wf_state \<Rightarrow> wf_state \<times> (B2CReportReceipt \<times> string \<times> string) response" where
  "b2c_finish w router v st =
     (let v1 = v\<lparr>InvoiceType := ''B2C''\<rparr>
      in case RouteReportB2C (tick st) v1 router of
           Inl e \<Rightarrow> (next_tick st, Problem 502 ''mbs report failed'')
         | Inr (receipt, app) \<Rightarrow>
             (case save_with w (v1\<lparr>ciStatus := ''reported''\<rparr>) (next_tick st) of
                (st1, _, _) \<Rightarrow> (fst (emit w ''nrs.mbs.b2c.report.v1'' st1), Reply 200 (receipt, app, ciID v1))))"

definition handleB2CReport :: "world \<Rightarrow> CitationResolver \<Rightarrow> string \<Rightarrow> string \<Rightarrow> APPRouter \<Rightarrow> Claims option \<Rightarrow> b2c_request option \<Rightarrow>
    server \<Rightarrow> server \<times> (B2CReportReceipt \<times> string \<times> string) response" where
  "handleB2CReport w res ulid today router ctx rq = (\<lambda>(r, st).
     case rq of
       None \<Rightarrow> ((r, st), Problem 400 ''bad request'')
     | Some (ByID i) \<Rightarrow>
         (case GetInvoice i (wsStore st) of
            None \<Rightarrow> ((r, st), Problem 404 ''not found'')
          | Some v \<Rightarrow>
              (case tenantGuard ctx v of
                 Some p \<Rightarrow> ((r, st), p)
               | None \<Rightarrow> (case b2c_finish w router v st of (st1, resp) \<Rightarrow> ((r, st1), resp))))
     | Some (ByInvoice v0) \<Rightarrow>
         (let v1 = (Normalise res ulid today v0)\<lparr>InvoiceType := ''B2C''\<rparr>;
              v2 = (case ctx of None \<Rightarrow> v1 | Some c \<Rightarrow> v1\<lparr>ciTenantID := TenantID c\<rparr>);
              v3 = (if ciStatus v2 = '''' then v2\<lparr>ciStatus := ''received''\<rparr> else v2)
          in case save_with w v3 st of
               (st1, _, Some e) \<Rightarrow> ((r, st1), Problem 500 ''persist failed'')
             | (st1, _, None) \<Rightarrow> (case b2c_finish w router (wsInv st1) st1 of (st2, resp) \<Rightarrow> ((r, st2), resp)))
     | Some NoInvoice \<Rightarrow> ((r, st), Problem 400 ''bad request''))"

end
