(* ===== verification/Einv_Guarantees.thy ===== *)
theory Einv_Guarantees
  imports Einv_Handlers
begin

text \<open>
  What the handlers of the e-invoicing service guarantee, from the frame of the workflow:
  whatever fails, a run of the NRS lifecycle keeps the core, the tenant, the key and the
  creation time of the invoice it drives and touches no other invoice. On top of it: tenant
  isolation of the responses, immutability of signed data under updates, and exactly-once
  submission under an idempotency key.
\<close>

section \<open>The frame of the lifecycle\<close>

text \<open>The part of an invoice that no workflow step writes.\<close>

definition fixed_part :: "CanonicalInvoice \<Rightarrow> string \<times> invoice_core \<times> string \<times> string \<times> int option" where
  "fixed_part v = (ciID v, core_of v, ciTenantID v, ciIdempotencyKey v, CreatedAt v)"

lemma fixed_partD:
  assumes "fixed_part v = fixed_part v0"
  shows "ciID v = ciID v0" "core_of v = core_of v0" "ciTenantID v = ciTenantID v0" "ciIdempotencyKey v = ciIdempotencyKey v0"
    "CreatedAt v = CreatedAt v0" "idem_key v = idem_key v0"
  using assms by (simp_all add: fixed_part_def idem_key_def)

lemma fixed_part_stamp: "CreatedAt v \<noteq> None \<Longrightarrow> fixed_part (stamp_times n v) = fixed_part v"
  by (auto simp: fixed_part_def)

text \<open>The key of the invoice, if it has one, still names it.\<close>

definition keyed_in :: "InvoiceStore \<Rightarrow> CanonicalInvoice \<Rightarrow> bool" where
  "keyed_in s v \<longleftrightarrow> (ciIdempotencyKey v \<noteq> '''' \<longrightarrow> byIdemKey s (idem_key v) = Some (ciID v))"

definition framed :: "InvoiceStore \<Rightarrow> CanonicalInvoice \<Rightarrow> InvoiceStore \<Rightarrow> ServiceIDRegistry \<Rightarrow> CanonicalInvoice \<Rightarrow> bool" where
  "framed s0 v0 s r v \<longleftrightarrow> fixed_part v = fixed_part v0 \<and> (\<exists>u. byID s (ciID v0) = Some u \<and> fixed_part u = fixed_part v0) \<and>
     (\<forall>j. j \<noteq> ciID v0 \<longrightarrow> byID s j = byID s0 j) \<and> (keyed_in s0 v0 \<longrightarrow> byIdemKey s = byIdemKey s0) \<and> (store_ok s0 \<longrightarrow> store_ok s)"

text \<open>A stored invoice with its creation time set.\<close>

definition settled_in :: "InvoiceStore \<Rightarrow> CanonicalInvoice \<Rightarrow> bool" where
  "settled_in s v \<longleftrightarrow> byID s (ciID v) = Some v \<and> CreatedAt v \<noteq> None"

lemma framed_start: "settled_in s0 v0 \<Longrightarrow> framed s0 v0 s0 r v0"
  by (simp add: framed_def settled_in_def)

lemma framed_upd: "framed s0 v0 s r v \<Longrightarrow> fixed_part v' = fixed_part v \<Longrightarrow> framed s0 v0 s r' v'"
  by (simp add: framed_def)

lemma framed_save:
  assumes "save_inv w st = (st', e)" "holds (framed s0 v0) st" "settled_in s0 v0"
  shows "holds (framed s0 v0) st'"
proof -
  let ?r = "SaveCtx (wDigests w) (wSave w (tick st)) (wsInv st) (wsStore st)"
  have st': "wsStore st' = fst ?r" "wsInv st' = fst (snd ?r)" using assms(1) by (auto simp: save_inv_def split: prod.splits)
  note f = assms(2) [unfolded framed_def]
  have fp: "fixed_part (wsInv st) = fixed_part v0" using f by blast
  have c: "CreatedAt (wsInv st) \<noteq> None" using fixed_partD(5) [OF fp] assms(3) by (simp add: settled_in_def)
  have ok: "store_ok s0 \<longrightarrow> store_ok (fst ?r)" using f store_ok_Save by blast
  show ?thesis
  proof (cases rule: SaveCtx_store [of "wDigests w" "wSave w (tick st)" "wsInv st" "wsStore st"])
    case same
    have "fixed_part (fst (snd ?r)) = fixed_part v0" using same(5) fp fixed_part_stamp [OF c] by auto
    with same f ok show ?thesis by (simp add: framed_def st')
  next
    case saved
    let ?u = "stamp_times (saveNow (wSave w (tick st))) (wsInv st)"
    have u: "fixed_part ?u = fixed_part v0" "ciID ?u = ciID v0" "idem_key ?u = idem_key v0" "ciIdempotencyKey ?u = ciIdempotencyKey v0"
      using fp fixed_part_stamp [OF c] fixed_partD [OF fp] by simp_all
    have "byIdemKey (index ?u (wsStore st)) = byIdemKey s0" if "keyed_in s0 v0"
      using f that u by (auto simp: index_def keyed_in_def fun_eq_iff)
    with saved f u ok show ?thesis by (simp add: framed_def st' index_def)
  qed
qed

lemma emit_frame2: "wsStore (fst (emit w t st)) = wsStore st" "wsInv (fst (emit w t st)) = wsInv st" "wsReg (fst (emit w t st)) = wsReg st"
  by (simp_all add: emit_def)

lemma framed_upd_inv:
  assumes "holds (framed s0 v0) st" "\<And>v. fixed_part (f v) = fixed_part v"
  shows "holds (framed s0 v0) (upd_inv f st)" "holds (framed s0 v0) (next_tick (upd_inv f st))"
  using assms by (simp_all add: framed_def)

lemma fixed_part_upds [simp]:
  "fixed_part (v\<lparr>ciStatus := a\<rparr>) = fixed_part v" "fixed_part (v\<lparr>ServiceID := b\<rparr>) = fixed_part v"
  "fixed_part (v\<lparr>ServiceID := b, IRN := c\<rparr>) = fixed_part v" "fixed_part (v\<lparr>ciStamp := d\<rparr>) = fixed_part v"
  "fixed_part (v\<lparr>Validation := x\<rparr>) = fixed_part v" "fixed_part (v\<lparr>CSIDSignature := g, CSIDKeyID := h\<rparr>) = fixed_part v"
  "fixed_part (v\<lparr>SignedCoreHash := i\<rparr>) = fixed_part v"
  by (simp_all add: fixed_part_def core_of_def)

lemma framed_reg: "framed s0 v0 s r v = framed s0 v0 s r' v"
  by (simp add: framed_def)

lemma framed_confirm:
  assumes "holds (framed s0 v0) st" "settled_in s0 v0"
  shows "holds (framed s0 v0) (fst (act_confirm w st))"
proof -
  let ?st = "upd_inv (\<lambda>v. v\<lparr>ciStatus := ''confirmed''\<rparr>) st"
  obtain st1 e where s: "save_inv w ?st = (st1, e)" by fastforce
  have "holds (framed s0 v0) st1" using framed_save [OF s framed_upd_inv(1) [OF assms(1)] assms(2)] by simp
  then show ?thesis
    using assms(1) s emit_frame2 [of w "''nrs.einvoice.confirmed.v1''" st1]
    by (auto simp: act_confirm_def Let_def split: option.split sum.split prod.split)
qed

lemma framed_transmit:
  assumes "holds (framed s0 v0) st" "settled_in s0 v0"
  shows "holds (framed s0 v0) (fst (act_transmit w st))"
proof -
  obtain st1 y where e: "emit w ''nrs.einvoice.transmitted.v1'' (next_tick st) = (st1, y)" by fastforce
  have f1: "holds (framed s0 v0) st1" using assms(1) emit_frame [OF e] by simp
  obtain st2 er where s: "save_inv w (upd_inv (\<lambda>v. v\<lparr>ciStatus := ''transmitted''\<rparr>) st1) = (st2, er)" by fastforce
  have "holds (framed s0 v0) st2" using framed_save [OF s framed_upd_inv(1) [OF f1] assms(2)] by simp
  then show ?thesis using assms(1) f1 e s by (auto simp: act_transmit_def split: sum.split option.split)
qed

lemma framed_sign:
  assumes "holds (framed s0 v0) st" "settled_in s0 v0"
  shows "holds (framed s0 v0) (fst (act_sign w st))"
proof -
  let ?st1 = "next_tick (upd_inv (\<lambda>v. fst (sign_invoice w (tick st) v)) st)"
  let ?st2 = "upd_inv (\<lambda>v. v\<lparr>SignedCoreHash := CoreHash (wDigests w) v, ciStatus := ''signed''\<rparr>) ?st1"
  have "fixed_part (fst (sign_invoice w (tick st) v)) = fixed_part v" for v by (simp add: sign_invoice_def split: option.split)
  then have "holds (framed s0 v0) ?st2" using assms(1) by (simp add: framed_def)
  moreover obtain st3 e where s: "save_inv w ?st2 = (st3, e)" by fastforce
  ultimately have "holds (framed s0 v0) st3" using framed_save assms(2) by blast
  then show ?thesis using s by (auto simp: act_sign_def Let_def split: option.split)
qed

text \<open>Every step of the lifecycle keeps the frame, whether it succeeds or fails.\<close>

lemma framed_steps:
  assumes "(name, fn) \<in> set (nrs_steps w)" "holds (framed s0 v0) st" "settled_in s0 v0"
  shows "holds (framed s0 v0) (fst (fn st))"
proof -
  have gen: "holds (framed s0 v0) (fst (act_irn_generate w st))"
    using assms(2) by (auto simp: act_irn_generate_def Let_def framed_def split: sum.split prod.split)
  have val: "holds (framed s0 v0) (fst (act_irn_validate st))"
    using assms(2) by (auto simp: act_irn_validate_def Let_def framed_def split: sum.split option.split)
  have sig: "holds (framed s0 v0) (fst (act_irn_sign w st))"
    using assms(2) by (auto simp: act_irn_sign_def Let_def framed_def split: option.split)
  have sch: "holds (framed s0 v0) (fst (act_schema w st))"
    using assms(2) by (auto simp: act_schema_def Let_def framed_def split: option.split sum.split)
  show ?thesis
    using assms(1) gen val sig sch framed_sign [OF assms(2,3)] framed_transmit [OF assms(2,3)] framed_confirm [OF assms(2,3)]
    by (auto simp: nrs_steps_def)
qed

lemma framed_retry:
  assumes "holds (framed s0 v0) st" "\<And>st. holds (framed s0 v0) st \<Longrightarrow> holds (framed s0 v0) (fst (fn st))"
  shows "holds (framed s0 v0) (fst (retryActivity w name n fn st))"
proof -
  obtain st' r where r: "retryActivity w name n fn st = (st', r)" by fastforce
  have "case r of Inr _ \<Rightarrow> holds (framed s0 v0) st' | Inl _ \<Rightarrow> holds (framed s0 v0) st'"
    by (rule retry_rule [where P = "framed s0 v0", OF r assms(1)]) (use assms(2) in force)+
  then show ?thesis using r by (cases r) auto
qed

lemma framed_fail:
  assumes "holds (framed s0 v0) (fst p)" "settled_in s0 v0"
  shows "holds (framed s0 v0) (fst (nrsFail w p))"
proof -
  obtain st' e where s: "save_inv w (upd_inv (\<lambda>v. v\<lparr>ciStatus := ''failed''\<rparr>) (fst p)) = (st', e)" by fastforce
  show ?thesis using framed_save [OF s framed_upd_inv(1) [OF assms(1)] assms(2)] s by (simp add: nrsFail_def)
qed

lemma framed_run:
  assumes "\<And>name fn st. (name, fn) \<in> set steps \<Longrightarrow> holds (framed s0 v0) st \<Longrightarrow> holds (framed s0 v0) (fst (fn st))"
    "holds (framed s0 v0) st" "settled_in s0 v0"
  shows "holds (framed s0 v0) (fst (run_steps w steps st))"
  using assms
proof (induction steps arbitrary: st)
  case (Cons nf steps)
  obtain name fn where nf: "nf = (name, fn)" by fastforce
  obtain st1 r where r: "retryActivity w name 3 fn st = (st1, r)" by fastforce
  have "holds (framed s0 v0) (fst (retryActivity w name 3 fn st))"
    by (rule framed_retry [OF Cons.prems(2)]) (use Cons.prems(1) nf in auto)
  then have f1: "holds (framed s0 v0) st1" using r by simp
  show ?case
  proof (cases r)
    case (Inl e)
    with nf r framed_fail [of s0 v0 "(st1, Inl e)" w] f1 Cons.prems(3) show ?thesis by simp
  next
    case (Inr u)
    have "holds (framed s0 v0) (fst (run_steps w steps st1))" by (rule Cons.IH [OF _ f1 Cons.prems(3)]) (use Cons.prems(1) in auto)
    with nf r Inr show ?thesis by simp
  qed
qed simp

lemma lifecycle_framed:
  assumes "settled_in (wsStore st) v0"
  shows "holds (framed (wsStore st) v0) (fst (wfNRSEinvoice w (ciID v0) st))"
proof -
  let ?F = "framed (wsStore st) v0"
  obtain st1 r where r: "retryActivity w ''1-create-store'' 3 (act_create (ciID v0)) (st\<lparr>wsInv := v0\<rparr>) = (st1, r)" by fastforce
  have "holds ?F (st\<lparr>wsInv := v0\<rparr>)" using framed_start [OF assms] by simp
  then have "holds ?F (fst (retryActivity w ''1-create-store'' 3 (act_create (ciID v0)) (st\<lparr>wsInv := v0\<rparr>)))"
    by (rule framed_retry) (auto simp: act_create_def split: option.split)
  then have f1: "holds ?F st1" using r by simp
  have "holds ?F (fst (run_steps w (nrs_steps w) st1))" by (rule framed_run [OF _ f1 assms]) (rule framed_steps [OF _ _ assms])
  then show ?thesis using assms r f1 by (cases r) (auto simp: wfNRSEinvoice_def GetInvoice_def settled_in_def)
qed

section \<open>Saving from a handler\<close>

lemma save_with_inv: "save_with w v st = (st1, p, e) \<Longrightarrow> save_inv w (st\<lparr>wsInv := v\<rparr>) = (st1, e)"
  by (auto simp: save_with_def save_inv_def next_tick_def split: prod.splits)

lemma save_with_ok:
  assumes "store_ok (wsStore st)" "save_with w v st = (st1, p, e)"
  shows "store_ok (wsStore st1)"
  using assms store_ok_Save [OF assms(1), of "wDigests w" "wSave w (tick st)" v] by (auto simp: save_with_def split: prod.splits)

lemma save_with_cases:
  assumes "save_with w v st = (st1, p, e)"
  obtains (refused) "e \<noteq> None" "byID (wsStore st1) = byID (wsStore st)" "byIRN (wsStore st1) = byIRN (wsStore st)"
  | (saved) n where "e = None" "wsInv st1 = stamp_times n v" "byID (wsStore st1) = (byID (wsStore st))(ciID v \<mapsto> stamp_times n v)"
      "byIRN (wsStore st1) = (if IRN v \<noteq> '''' then (byIRN (wsStore st))(IRN v \<mapsto> ciID v) else byIRN (wsStore st))"
  using save_with_inv [OF assms] by (cases rule: save_inv_cases) (auto intro: that)

section \<open>Updates leave signed data alone\<close>

text \<open>Everything but the payment fields, the audit trail and the update time.\<close>

definition signed_part :: "CanonicalInvoice \<Rightarrow> CanonicalInvoice" where
  "signed_part v = v\<lparr>PaymentStatus := '''', PaymentReference := '''', Audit := [], UpdatedAt := None, CreatedAt := None\<rparr>"

lemma signed_part_stamp [simp]: "signed_part (stamp_times n v) = signed_part v"
  by (simp add: signed_part_def stamp_times_def)

lemma signed_part_patch [simp]: "signed_part (apply_patch now actor p v) = signed_part v" "ciID (apply_patch now actor p v) = ciID v"
  "Audit (stamp_times n (apply_patch now actor p v)) \<noteq> []"
  by (simp_all add: signed_part_def apply_patch_def stamp_times_def Let_def)

definition may_access :: "Claims option \<Rightarrow> CanonicalInvoice \<Rightarrow> bool" where
  "may_access ctx v \<longleftrightarrow> (case ctx of None \<Rightarrow> True | Some c \<Rightarrow> ciTenantID v = '''' \<or> ciTenantID v = TenantID c)"

lemma tenantGuard_pass: "may_access ctx v \<Longrightarrow> tenantGuard ctx v = None"
  by (auto simp: tenantGuard_def may_access_def split: option.splits)

lemma tenantGuard_stop: "\<not> may_access ctx v \<Longrightarrow> \<exists>n t. tenantGuard ctx v = Some (Problem n t)"
  by (auto simp: tenantGuard_def may_access_def split: option.splits)

lemma GetByIRN_ok: "store_ok s \<Longrightarrow> GetByIRN irn s = Some v \<Longrightarrow> byID s (ciID v) = Some v"
  by (auto simp: GetByIRN_def store_ok_def split: option.splits)

lemma update_frame:
  assumes "handleNRSUpdate w now ctx irn body rs = (rs', resp)" "store_ok (wsStore (snd rs))"
  shows "byID (wsStore (snd rs')) i = byID (wsStore (snd rs)) i \<or>
    (\<exists>v v'. byID (wsStore (snd rs)) i = Some v \<and> byID (wsStore (snd rs')) i = Some v' \<and> GetByIRN irn (wsStore (snd rs)) = Some v \<and>
       may_access ctx v \<and> signed_part v' = signed_part v \<and> length (Audit v') = length (Audit v) + 1)"
proof (cases "byID (wsStore (snd rs')) = byID (wsStore (snd rs))")
  case False
  from False assms(1) obtain v where "GetByIRN irn (wsStore (snd rs)) = Some v" by (auto simp: handleNRSUpdate_def split: option.splits)
  moreover from this False assms(1) have "may_access ctx v"
    using tenantGuard_stop [of ctx v, where ?'a = CanonicalInvoice] by (fastforce simp: handleNRSUpdate_def)
  ultimately obtain p where v: "GetByIRN irn (wsStore (snd rs)) = Some v" "may_access ctx v" and b: "body = Inr p"
    and c: "\<not> list_ex (\<lambda>k. k \<noteq> ''payment_status'' \<and> k \<noteq> ''reference'') (pKeys p)" "\<not> (pPaymentStatus p = '''' \<and> pReference p = '''')"
      "\<not> (pPaymentStatus p \<noteq> '''' \<and> \<not> ValidPaymentStatus (pPaymentStatus p))"
    using False assms(1) by (auto simp: handleNRSUpdate_def tenantGuard_pass split: sum.splits if_splits)
  let ?v = "apply_patch now (case ctx of None \<Rightarrow> '''' | Some c \<Rightarrow> Sub c) p v"
  obtain st1 pr e where s: "save_with w ?v (snd rs) = (st1, pr, e)" by (metis prod_cases3)
  have st: "wsStore (snd rs') = wsStore st1"
    using assms(1) s c by (auto simp: handleNRSUpdate_def tenantGuard_pass v b Let_def emit_frame2 split: option.splits if_splits)
  have id: "byID (wsStore (snd rs)) (ciID v) = Some v" by (rule GetByIRN_ok [OF assms(2) v(1)])
  show ?thesis
    using s
  proof (cases rule: save_with_cases)
    case refused
    then show ?thesis using False st by simp
  next
    case (saved n)
    have "length (Audit (stamp_times n ?v)) = length (Audit v) + 1" by (simp add: stamp_times_def apply_patch_def Let_def)
    then show ?thesis using saved st id v by simp
  qed
qed simp

section \<open>Responses stay within the tenant\<close>

lemma runNRS_framed:
  assumes "runNRSWorkflow w inflight (ciID v0) (r, st) = (rs1, x)" "settled_in (wsStore st) v0"
  shows "\<exists>u. byID (wsStore (snd rs1)) (ciID v0) = Some u \<and> fixed_part u = fixed_part v0"
    "keyed_in (wsStore st) v0 \<Longrightarrow> byIdemKey (wsStore (snd rs1)) = byIdemKey (wsStore st)"
    "store_ok (wsStore st) \<Longrightarrow> store_ok (wsStore (snd rs1))" "j \<noteq> ciID v0 \<Longrightarrow> byID (wsStore (snd rs1)) j = byID (wsStore st) j"
proof -
  let ?st = "st\<lparr>wsSteps := []\<rparr>"
  have "settled_in (wsStore ?st) v0" using assms(2) by simp
  from lifecycle_framed [OF this, of w] have f: "holds (framed (wsStore st) v0) (fst (wfNRSEinvoice w (ciID v0) ?st))" by simp
  have "snd rs1 = st \<or> snd rs1 = fst (wfNRSEinvoice w (ciID v0) ?st)"
    using assms(1) by (auto simp: runNRSWorkflow_def RunWorkflow_def Let_def split: if_splits prod.splits)
  moreover have "holds (framed (wsStore st) v0) (st\<lparr>wsInv := v0\<rparr>)" using framed_start [OF assms(2)] by simp
  ultimately have "\<exists>u. byID (wsStore (snd rs1)) (ciID v0) = Some u \<and> fixed_part u = fixed_part v0"
    "keyed_in (wsStore st) v0 \<longrightarrow> byIdemKey (wsStore (snd rs1)) = byIdemKey (wsStore st)" "store_ok (wsStore st) \<longrightarrow> store_ok (wsStore (snd rs1))"
    "\<forall>j. j \<noteq> ciID v0 \<longrightarrow> byID (wsStore (snd rs1)) j = byID (wsStore st) j"
    using f by (auto simp: framed_def)
  then show "\<exists>u. byID (wsStore (snd rs1)) (ciID v0) = Some u \<and> fixed_part u = fixed_part v0"
    "keyed_in (wsStore st) v0 \<Longrightarrow> byIdemKey (wsStore (snd rs1)) = byIdemKey (wsStore st)" "store_ok (wsStore st) \<Longrightarrow> store_ok (wsStore (snd rs1))"
    "j \<noteq> ciID v0 \<Longrightarrow> byID (wsStore (snd rs1)) j = byID (wsStore st) j"
    by blast+
qed

text \<open>Every stored record has a creation time, as \<^verbatim>\<open>Save\<close> sets it.\<close>

definition dated :: "InvoiceStore \<Rightarrow> bool" where
  "dated s \<longleftrightarrow> (\<forall>i v. byID s i = Some v \<longrightarrow> CreatedAt v \<noteq> None)"

lemma settled_if_dated: "store_ok s \<Longrightarrow> dated s \<Longrightarrow> byID s i = Some v \<Longrightarrow> settled_in s v"
  by (auto simp: settled_in_def dated_def store_ok_def)

lemma dated_save:
  assumes "save_with w v st = (st1, p, e)" "dated (wsStore st)"
  shows "dated (wsStore st1)"
  using assms(1) by (cases rule: save_with_cases) (use assms(2) in \<open>auto simp: dated_def split: option.splits\<close>)

lemma may_access_fixed: "fixed_part u = fixed_part v \<Longrightarrow> may_access ctx u = may_access ctx v"
  using fixed_partD(3) [of u v] by (simp add: may_access_def split: option.split)

lemma reply_stored_access:
  assumes "reply_stored n run e b i rs = Reply k rep" "byID (wsStore (snd rs)) i = Some u"
  shows "nrInvoice rep = u"
  using assms by (auto simp: reply_stored_def GetInvoice_def)

lemma replay_access:
  assumes "replay_existing w inflight ctx v rs = (rs', Reply k rep)" "settled_in (wsStore (snd rs)) v"
  shows "may_access ctx (nrInvoice rep)"
proof -
  have acc: "may_access ctx v"
    using tenantGuard_stop [of ctx v, where ?'a = nrs_reply] assms(1) by (fastforce simp: replay_existing_def)
  obtain rs1 x where run: "runNRSWorkflow w inflight (ciID v) rs = (rs1, x)" by fastforce
  obtain u where u: "byID (wsStore (snd rs1)) (ciID v) = Some u" "fixed_part u = fixed_part v"
    using runNRS_framed(1) [of w inflight v "fst rs" "snd rs"] run assms(2) by auto
  have "nrInvoice rep = v \<or> nrInvoice rep = u"
    using assms(1) acc run reply_stored_access [OF _ u(1)]
    by (auto simp: replay_existing_def resumeInterrupted_def tenantGuard_pass Let_def split: option.splits if_splits)
  then show ?thesis using acc may_access_fixed [OF u(2)] by auto
qed

text \<open>A record saved without error is in the store, dated, and named by its key.\<close>

lemma save_with_settled:
  assumes "save_with w v st = (st1, p, None)"
  obtains n where "settled_in (wsStore st1) (stamp_times n v)" "keyed_in (wsStore st1) (stamp_times n v)" "p = ''''"
    "n = saveNow (wSave w (tick st))"
proof -
  let ?env = "wSave w (tick st)"
  let ?r = "SaveCtx (wDigests w) ?env v (wsStore st)"
  have st1: "wsStore st1 = fst ?r" "snd (snd (snd ?r)) = None" "p = fst (snd (snd ?r))"
    using assms by (auto simp: save_with_def split: prod.splits)
  have p: "p = ''''" using st1(2,3) by (auto simp: SaveCtx_def Let_def split: option.splits if_splits pg_result.splits prod.splits)
  show ?thesis
  proof (cases rule: SaveCtx_store [of "wDigests w" ?env v "wsStore st"])
    case same
    then show ?thesis using st1(2) by simp
  next
    case saved
    show ?thesis
      by (rule that [of "saveNow ?env"]) (use saved p st1(1) in \<open>auto simp: settled_in_def keyed_in_def index_def split: option.split\<close>)
  qed
qed

lemma nrs_draft_fields:
  "ciTenantID (nrs_draft res ulid today rq body v0) = claim_tenant (rqClaims rq)"
  "ciIdempotencyKey (nrs_draft res ulid today rq body v0) = rqIdempotencyKey rq"
  "ciID (nrs_draft res ulid today rq body v0) = (if ciID v0 = '''' then ulid else ciID v0)"
  by (simp_all add: nrs_draft_def Normalise_def Let_def)

lemma nrs_draft_core:
  "IssueDate v0 \<noteq> '''' \<Longrightarrow> core_of (nrs_draft res ulid today rq body v0) = core_of (nrs_draft res ulid' today' rq body v0)"
  by (simp add: nrs_draft_def Normalise_def Let_def core_of_def)

text \<open>A reply to a submission without an IRN of its own: a replay, or the outcome of a fresh run.\<close>

lemma nrs_create_cases:
  assumes "handleNRSCreate w res ulid today inflight rq body irn conv rs = (rs', Reply k rep)"
  obtains (by_irn) v where "GetByIRN (TrimSpace irn) (wsStore (snd rs)) = Some v" "replay_existing w inflight (rqClaims rq) v rs = (rs', Reply k rep)"
  | (by_key) st1 p e prior where "save_with w (nrs_draft res ulid today rq body (the conv)) (snd rs) = (st1, p, e)" "byID (wsStore st1) p = Some prior"
      "replay_existing w inflight (rqClaims rq) prior (fst rs, st1) = (rs', Reply k rep)"
  | (fresh) st1 run r where "save_with w (nrs_draft res ulid today rq body (the conv)) (snd rs) = (st1, '''', None)"
      "runNRSWorkflow w inflight (ciID (nrs_draft res ulid today rq body (the conv))) (fst rs, st1) = (rs', Some (run, r))" "conv \<noteq> None"
      "reply_stored (if is_ok r then 201 else 422) (Some run) (\<not> is_ok r) False (ciID (nrs_draft res ulid today rq body (the conv))) rs' = Reply k rep"
  | (busy) st1 where "save_with w (nrs_draft res ulid today rq body (the conv)) (snd rs) = (st1, '''', None)"
      "runNRSWorkflow w inflight (ciID (nrs_draft res ulid today rq body (the conv))) (fst rs, st1) = (rs', None)"
      "reply_stored 202 None False False (ciID (nrs_draft res ulid today rq body (the conv))) rs' = Reply k rep"
proof (cases "if irn \<noteq> '''' then GetByIRN (TrimSpace irn) (wsStore (snd rs)) else None")
  case (Some v)
  then show ?thesis using assms by (intro by_irn) (auto simp: handleNRSCreate_def split: if_splits)
next
  case None
  then obtain v0 where v0: "conv = Some v0" using assms by (auto simp: handleNRSCreate_def split: option.splits)
  let ?v = "nrs_draft res ulid today rq body v0"
  obtain st1 p e where s: "save_with w ?v (snd rs) = (st1, p, e)" by (metis prod_cases3)
  obtain rs2 x where x: "runNRSWorkflow w inflight (ciID ?v) (fst rs, st1) = (rs2, x)" by fastforce
  have def: "handleNRSCreate w res ulid today inflight rq body irn conv rs =
      (if p \<noteq> '''' then (if e \<noteq> None \<and> e \<noteq> Some IdempotentReplay then ((fst rs, st1), writeStoreConflict (the e))
         else (case GetInvoice p (wsStore st1) of None \<Rightarrow> ((fst rs, st1), Problem 500 ''nil invoice'')
               | Some prior \<Rightarrow> replay_existing w inflight (rqClaims rq) prior (fst rs, st1)))
       else (case e of Some er \<Rightarrow> ((fst rs, st1), writeStoreConflict er)
             | None \<Rightarrow> (case x of None \<Rightarrow> (rs2, reply_stored 202 None False False (ciID ?v) rs2)
                | Some (run, r) \<Rightarrow> (rs2, if is_ok r then reply_stored 201 (Some run) False False (ciID ?v) rs2
                                     else reply_stored 422 (Some run) True False (ciID ?v) rs2))))"
    unfolding handleNRSCreate_def None v0 by (simp add: Let_def s x split: option.split)
  have conf: "writeStoreConflict er \<noteq> Reply k rep" "Reply k rep \<noteq> writeStoreConflict er" for er by (cases er; simp)+
  show ?thesis
  proof (cases "p = ''''")
    case False
    then obtain prior where "byID (wsStore st1) p = Some prior" "replay_existing w inflight (rqClaims rq) prior (fst rs, st1) = (rs', Reply k rep)"
      using assms conf unfolding def by (auto simp: GetInvoice_def split: if_splits option.splits)
    with s v0 show ?thesis by (intro by_key [of st1 p e prior]) simp_all
  next
    case True
    with assms def conf have e: "e = None" by (auto split: option.splits)
    show ?thesis
    proof (cases x)
      case None
      with assms def s v0 x True e show ?thesis by (intro busy [of st1]) auto
    next
      case (Some rr)
      obtain run r where "rr = (run, r)" by fastforce
      with Some assms def s v0 x True e show ?thesis by (intro fresh [of st1 run r]) (auto split: if_splits)
    qed
  qed
qed

lemma nrs_create_access:
  assumes "handleNRSCreate w res ulid today inflight rq body irn conv rs = (rs', Reply k rep)"
    and ok: "store_ok (wsStore (snd rs))" "dated (wsStore (snd rs))"
  shows "may_access (rqClaims rq) (nrInvoice rep)"
proof -
  let ?v = "nrs_draft res ulid today rq body (the conv)"
  have drafted: "may_access (rqClaims rq) (nrInvoice rep)"
    if s: "save_with w ?v (snd rs) = (st1, '''', None)" and run: "runNRSWorkflow w inflight (ciID ?v) (fst rs, st1) = (rs', x)"
      and rep: "reply_stored n r e b (ciID ?v) rs' = Reply k rep" for st1 x n r e b
  proof -
    obtain m where m: "settled_in (wsStore st1) (stamp_times m ?v)" using s by (rule save_with_settled)
    obtain u where u: "byID (wsStore (snd rs')) (ciID ?v) = Some u" "fixed_part u = fixed_part (stamp_times m ?v)"
      using runNRS_framed(1) [OF _ m, of w inflight "fst rs"] run by auto
    have "ciTenantID u = claim_tenant (rqClaims rq)" using fixed_partD(3) [OF u(2)] by (simp add: nrs_draft_fields)
    then show ?thesis using reply_stored_access [OF rep u(1)] by (simp add: may_access_def claim_tenant_def split: option.split)
  qed
  show ?thesis
    using assms(1)
  proof (cases rule: nrs_create_cases)
    case (by_irn v)
    have "settled_in (wsStore (snd rs)) v" using GetByIRN_ok [OF ok(1) by_irn(1)] settled_if_dated [OF ok] by blast
    then show ?thesis by (rule replay_access [OF by_irn(2)])
  next
    case (by_key st1 p e prior)
    have "settled_in (wsStore st1) prior"
      using settled_if_dated [OF save_with_ok [OF ok(1) by_key(1)] dated_save [OF by_key(1) ok(2)] by_key(2)] .
    then show ?thesis using replay_access [OF by_key(3)] by simp
  next
    case (fresh st1 run r)
    show ?thesis by (rule drafted [OF fresh(1,2,4)])
  next
    case (busy st1)
    show ?thesis by (rule drafted [OF busy(1,2,3)])
  qed
qed

section \<open>A retried submission\<close>

text \<open>The answer 201 means that the stored record is confirmed and still named by its key.\<close>

lemma nrs_created:
  assumes "handleNRSCreate w res ulid today inflight rq body irn conv rs = (rs', Reply 201 rep)" "store_ok (wsStore (snd rs))"
  shows "byID (wsStore (snd rs')) (ciID (nrInvoice rep)) = Some (nrInvoice rep) \<and> ciStatus (nrInvoice rep) = ''confirmed'' \<and>
    ciID (nrInvoice rep) = ciID (nrs_draft res ulid today rq body (the conv)) \<and>
    core_of (nrInvoice rep) = core_of (nrs_draft res ulid today rq body (the conv)) \<and>
    ciTenantID (nrInvoice rep) = claim_tenant (rqClaims rq) \<and>
    (rqIdempotencyKey rq \<noteq> '''' \<longrightarrow> byIdemKey (wsStore (snd rs')) (claim_tenant (rqClaims rq) @ ''|'' @ rqIdempotencyKey rq) = Some (ciID (nrInvoice rep))) \<and>
    irn_good (nrInvoice rep) \<and> SignedCoreHash (nrInvoice rep) = CoreHash (wDigests w) (nrInvoice rep) \<and>
    CreatedAt (nrInvoice rep) = CreatedAt (stamp_times (saveNow (wSave w (tick (snd rs)))) (nrs_draft res ulid today rq body (the conv)))"
  using assms(1)
proof (cases rule: nrs_create_cases)
  case (fresh st1 run r)
  let ?v = "nrs_draft res ulid today rq body (the conv)"
  obtain m where m: "settled_in (wsStore st1) (stamp_times m ?v)" "keyed_in (wsStore st1) (stamp_times m ?v)"
    and mv: "m = saveNow (wSave w (tick (snd rs)))"
    using fresh(1) by (rule save_with_settled)
  obtain st2 where run: "wfNRSEinvoice w (ciID ?v) (st1\<lparr>wsSteps := []\<rparr>) = (st2, r)" "snd rs' = st2"
    using fresh(2) by (auto simp: runNRSWorkflow_def RunWorkflow_def Let_def split: if_splits prod.splits)
  have r: "\<exists>u. r = Inr u" using fresh(4) by (cases r) (auto simp: reply_stored_def split: option.splits)
  then obtain un where un: "r = Inr un" by blast
  have ok1: "store_ok (wsStore (st1\<lparr>wsSteps := []\<rparr>))" using save_with_ok [OF assms(2) fresh(1)] by simp
  have at: "byID (wsStore (st1\<lparr>wsSteps := []\<rparr>)) (ciID ?v) = Some (stamp_times m ?v)" using m(1) by (simp add: settled_in_def)
  have l: "holds (locked (wDigests w) {''confirmed''} (wsStore st1) (stamp_times m ?v)) st2"
    using lifecycle_locked [OF run(1) [unfolded un] ok1 at] by simp
  then obtain u where u: "byID (wsStore st2) (ciID ?v) = Some u" "ciStatus u = ''confirmed''" "same_invoice (stamp_times m ?v) u"
    "SignedCoreHash u = CoreHash (wDigests w) u" "IRN u = IRN (wsInv st2)" "irn_good (wsInv st2)" "same_invoice (stamp_times m ?v) (wsInv st2)"
    by (auto simp: locked_def)
  have good: "irn_good u" using u(3,5-7) by (auto simp: irn_good_def same_invoice_def core_of_def)
  have rep: "nrInvoice rep = u" using reply_stored_access [OF fresh(4)] run(2) u(1) by simp
  have "fixed_part u = fixed_part (stamp_times m ?v)"
    using runNRS_framed(1) [OF _ m(1), of w inflight "fst rs"] fresh(2) run(2) u(1) by auto
  then have "CreatedAt u = CreatedAt (stamp_times m ?v)" by (rule fixed_partD(5))
  moreover have "byIdemKey (wsStore (snd rs')) = byIdemKey (wsStore st1)"
    using runNRS_framed(2) [OF _ m(1) m(2), of w inflight "fst rs"] fresh(2) by auto
  ultimately show ?thesis
    using u good rep run(2) m(2) unfolding mv by (auto simp: same_invoice_def keyed_in_def nrs_draft_fields idem_key_def)
qed (auto simp: replay_existing_def resumeInterrupted_def reply_stored_def Let_def tenantGuard_def split: option.splits if_splits prod.splits)

lemma nrs_retry:
  assumes first: "handleNRSCreate w res ulid today inflight rq body '''' (Some v0) rs = (rs1, Reply 201 rep1)" "store_ok (wsStore (snd rs))"
    and second: "handleNRSCreate w' res ulid' today' inflight' rq body '''' (Some v0) rs1 = (rs2, resp)"
    and req: "rqIdempotencyKey rq \<noteq> ''''" "ciID v0 = ''''" "IssueDate v0 \<noteq> ''''" "ulid \<noteq> ''''" "ulid' \<noteq> ulid"
    and env: "wDigests w' = wDigests w" "hookFault (wSave w' (tick (snd rs1))) = None"
      "\<not> idemMappingExpired (nrInvoice rep1) (saveNow (wSave w' (tick (snd rs1))))"
  shows "wsStore (snd rs2) = wsStore (snd rs1) \<and> (\<exists>rep2. resp = Reply 200 rep2 \<and> nrInvoice rep2 = nrInvoice rep1)"
proof -
  let ?u = "nrInvoice rep1" and ?v' = "nrs_draft res ulid' today' rq body v0"
  note c = nrs_created [OF first, unfolded option.sel]
  have core: "core_of ?u = core_of ?v'" using c nrs_draft_core [OF req(3)] by simp
  have id: "ciID ?u = ulid" using c req(2) by (simp add: nrs_draft_fields)
  have "idem_refusal (wDigests w') (saveNow (wSave w' (tick (snd rs1)))) ?v' (wsStore (snd rs1)) = Some (ulid, IdempotentReplay)"
    using c req env(3) core id by (simp add: idem_refusal_def idem_key_def nrs_draft_fields CoreHash_def)
  then have s: "save_with w' ?v' (snd rs1) = (next_tick ((snd rs1)\<lparr>wsInv := ?v'\<rparr>), ulid, Some IdempotentReplay)"
    using env(2) by (simp add: save_with_def SaveCtx_def)
  have st: "nrsInterimStatus (Some ?u) = False" using c by (simp add: nrsInterimStatus_def)
  have acc: "may_access (rqClaims rq) ?u" using c by (simp add: may_access_def claim_tenant_def split: option.split)
  have at: "GetInvoice ulid (wsStore (snd rs1)) = Some ?u" using c unfolding id GetInvoice_def by blast
  have eq: "handleNRSCreate w' res ulid' today' inflight' rq body '''' (Some v0) rs1 =
      ((fst rs1, next_tick ((snd rs1)\<lparr>wsInv := ?v'\<rparr>)), Reply 200 \<lparr>nrInvoice = ?u, nrRun = None, nrError = False, nrReplay = True\<rparr>)"
    by (simp add: handleNRSCreate_def Let_def s req(4) at replay_existing_def tenantGuard_pass [OF acc] st)
  have "rs2 = (fst rs1, next_tick ((snd rs1)\<lparr>wsInv := ?v'\<rparr>)) \<and>
      resp = Reply 200 \<lparr>nrInvoice = ?u, nrRun = None, nrError = False, nrReplay = True\<rparr>"
    using trans [OF second [symmetric] eq] by blast
  then show ?thesis by simp
qed

end
