(* ===== verification/Einv_Liveness.thy ===== *)
theory Einv_Liveness
  imports Einv_Guarantees
begin

text \<open>
  The NRS lifecycle completes when its surroundings answer: a stored draft with a valid number,
  date and registered business, whose IRN is not taken, is confirmed. And what the code does in
  the situations it handles badly: a second invoice with the same number takes over the IRN of
  the first, a failed CSID signature is not noticed, a client chooses the id of somebody
  else's invoice, a reused key blocks later updates, a padded payment status is stored.
\<close>

section \<open>Surroundings without faults\<close>

definition disk_ok :: "world \<Rightarrow> bool" where
  "disk_ok w \<longleftrightarrow> (\<forall>n. hookFault (wSave w n) = None \<and> openOk (wSave w n) \<and> writeOk (wSave w n) \<and> syncOk (wSave w n) \<and> pgPut (wSave w n) = PgOk)"

definition healthy :: "world \<Rightarrow> bool" where
  "healthy w \<longleftrightarrow> disk_ok w \<and> (\<forall>n. wNotify w n \<and> wEvent w n \<and> wPublish w n) \<and> (\<forall>n p. wSign w n p \<noteq> None)"

lemma disk_save:
  assumes "disk_ok w" "idem_refusal (wDigests w) (saveNow (wSave w (tick st))) v (wsStore st) = None"
  shows "\<exists>st1. save_with w v st = (st1, '''', None)"
  using assms by (simp add: save_with_def SaveCtx_def disk_ok_def Let_def split: prod.split)

lemma keyed_no_refusal: "keyed_in s v \<Longrightarrow> idem_refusal dg now v s = None"
  by (auto simp: keyed_in_def idem_refusal_def)

lemma keyed_save:
  assumes "disk_ok w" "holds (framed s0 v0) st" "settled_in s0 v0" "keyed_in s0 v0"
  shows "\<exists>st1. save_inv w st = (st1, None)"
proof -
  have "keyed_in (wsStore st) (wsInv st)"
    using assms(2,4) fixed_partD [of "wsInv st" v0] by (auto simp: framed_def keyed_in_def)
  then have "idem_refusal (wDigests w) (saveNow (wSave w (tick st))) (wsInv st) (wsStore st) = None" by (rule keyed_no_refusal)
  with assms(1) show ?thesis by (simp add: save_inv_def SaveCtx_def disk_ok_def Let_def)
qed

section \<open>The lifecycle completes\<close>

lemma retry_first: "fn st = (st1, Inr d) \<Longrightarrow> retryActivity w name 3 fn st = (rec_step name 1 ''ok'' d st1, Inr ())"
  by (simp add: retryActivity_def eval_nat_numeral)

lemma run_step_first:
  "fn st = (st1, Inr d) \<Longrightarrow> run_steps w ((name, fn) # rest) st = run_steps w rest (rec_step name 1 ''ok'' d st1)"
  by (simp add: retry_first)

lemma run_first:
  assumes "holds P st" "\<And>s. holds P s \<Longrightarrow> \<exists>s' d. fn s = (s', Inr d) \<and> holds Q s'"
    and "\<And>s. holds Q s \<Longrightarrow> \<exists>s'. run_steps w rest s = (s', Inr ())"
  shows "\<exists>s'. run_steps w ((name, fn) # rest) st = (s', Inr ())"
proof -
  obtain s1 d where f: "fn st = (s1, Inr d)" "holds Q s1" using assms(1,2) by blast
  have "holds Q (rec_step name 1 ''ok'' d s1)" using f(2) by simp
  from assms(3) [OF this] show ?thesis using retry_first [of fn st s1 d, OF f(1)] by simp
qed

text \<open>A draft that is ready for the lifecycle: the IRN its steps will build is \<open>irn\<close>.\<close>

definition ready :: "InvoiceStore \<Rightarrow> ServiceIDRegistry \<Rightarrow> CanonicalInvoice \<Rightarrow> string \<Rightarrow> string \<Rightarrow> bool" where
  "ready s0 r v0 sid irn \<longleftrightarrow> settled_in s0 v0 \<and> keyed_in s0 v0 \<and> store_ok s0 \<and> IRN v0 = '''' \<and> TrimSpace (BusinessID v0) \<noteq> '''' \<and> r (BusinessID v0) = Some sid \<and>
     TrimSpace (InvoiceNumber v0) = InvoiceNumber v0 \<and> BuildIRN (InvoiceNumber v0) sid (IssueDate v0) = Inr irn \<and> byIRN s0 irn = None"

definition generated :: "InvoiceStore \<Rightarrow> CanonicalInvoice \<Rightarrow> string \<Rightarrow> InvoiceStore \<Rightarrow> ServiceIDRegistry \<Rightarrow> CanonicalInvoice \<Rightarrow> bool" where
  "generated s0 v0 irn s r v \<longleftrightarrow> framed s0 v0 s r v \<and> drafted s0 v0 s r v \<and> IRN v = irn"

lemma generate_ok:
  assumes "ready s0 r0 v0 sid irn" "wsStore st = s0" "wsReg st = r0" "wsInv st = v0"
  shows "\<exists>s' d. act_irn_generate w st = (s', Inr d) \<and> holds (generated s0 v0 irn) s'"
proof -
  have valid: "sid \<noteq> []" using assms(1) by (auto simp: ready_def BuildIRN_def ValidServiceID_def Let_def split: if_splits)
  have g: "GetOrAssign x (BusinessID v0) r0 = (r0, Inr sid)" for x
    using assms(1) valid by (auto simp: ready_def GetOrAssign_def Lookup_def)
  have "fixed_part (v0\<lparr>ServiceID := sid, IRN := irn\<rparr>) = fixed_part v0" by simp
  with assms g show ?thesis
    by (auto simp: act_irn_generate_def ready_def generated_def framed_def drafted_def untouched_def same_invoice_def core_irn settled_in_def Let_def)
qed

lemma validate_ok:
  assumes "ready s0 r0 v0 sid irn" "holds (generated s0 v0 irn) st"
  shows "\<exists>s' d. act_irn_validate st = (s', Inr d) \<and> holds (\<lambda>s r v. framed s0 v0 s r v \<and> numbered s0 v0 s r v) s'"
proof -
  have r: "BuildIRN (InvoiceNumber v0) sid (IssueDate v0) = Inr irn" "TrimSpace (InvoiceNumber v0) = InvoiceNumber v0" "byIRN s0 irn = None" "store_ok s0"
    using assms(1) by (simp_all add: ready_def)
  obtain ds where ds: "DateStamp (IssueDate v0) = Inr ds" "ParseIRN irn = Inr (InvoiceNumber v0, sid, ds)"
    using ParseIRN_BuildIRN [OF r(1)] r(2) by auto
  have sid: "ValidServiceID sid" using r(1) by (auto simp: BuildIRN_def Let_def split: if_splits sum.splits)
  have v: "IRN (wsInv st) = irn" "core_of (wsInv st) = core_of v0" "byIRN (wsStore st) = byIRN s0" "framed s0 v0 (wsStore st) (wsReg st) (wsInv st)"
    and d: "holds (drafted s0 v0) st"
    using assms(2) by (auto simp: generated_def drafted_def untouched_def same_invoice_def)
  have num: "InvoiceNumber (wsInv st) = InvoiceNumber v0" "IssueDate (wsInv st) = IssueDate v0" using v(2) by (simp_all add: core_of_def)
  have a: "act_irn_validate st = (upd_inv (\<lambda>v. v\<lparr>ServiceID := sid\<rparr>) st, Inr ''irn valid: format+uniqueness+structure ok'')"
    using v num ds sid r(3) by (simp add: act_irn_validate_def GetByIRN_def Let_def)
  have "holds (numbered s0 v0) (upd_inv (\<lambda>v. v\<lparr>ServiceID := sid\<rparr>) st)" by (rule numbered_validate [OF d a r(4)])
  then show ?thesis using a v(4) by (auto simp: framed_def)
qed

text \<open>The remaining steps: signed invoices are framed and locked under their status.\<close>

definition staged :: "world \<Rightarrow> string \<Rightarrow> InvoiceStore \<Rightarrow> CanonicalInvoice \<Rightarrow> InvoiceStore \<Rightarrow> ServiceIDRegistry \<Rightarrow> CanonicalInvoice \<Rightarrow> bool" where
  "staged w status s0 v0 s r v \<longleftrightarrow> framed s0 v0 s r v \<and> locked (wDigests w) {status} s0 v0 s r v"

definition checked :: "InvoiceStore \<Rightarrow> CanonicalInvoice \<Rightarrow> InvoiceStore \<Rightarrow> ServiceIDRegistry \<Rightarrow> CanonicalInvoice \<Rightarrow> bool" where
  "checked s0 v0 s r v \<longleftrightarrow> framed s0 v0 s r v \<and> numbered s0 v0 s r v \<and> NRSPayload v = NRSPayload v0"

lemma checked_upd:
  assumes "checked s0 v0 s r v" "fixed_part v' = fixed_part v" "IRN v' = IRN v" "NRSPayload v' = NRSPayload v"
  shows "checked s0 v0 s r v'"
proof -
  have "numbered s0 v0 s r v'"
    using assms numbered_upd [of s0 v0 s r v v'] fixed_partD [OF assms(2)] by (simp add: checked_def)
  with assms show ?thesis by (simp add: checked_def framed_def)
qed

lemma irn_sign_ok:
  assumes "healthy w" "holds (checked s0 v0) st"
  shows "\<exists>s' d. act_irn_sign w st = (s', Inr d) \<and> holds (checked s0 v0) s'"
proof -
  obtain sig where "wSign w (tick st) (sign_payload_of (wDigests w) (wsInv st)) = Some sig" using assms(1) unfolding healthy_def by blast
  then show ?thesis using assms(2) by (auto simp: act_irn_sign_def Let_def elim: checked_upd)
qed

lemma schema_ok:
  assumes "holds (checked s0 v0) st" "NRSPayload v0 = '''' \<or> wSchema w (NRSPayload v0) = None"
    and "\<And>n v. core_of v = core_of v0 \<Longrightarrow> \<exists>vs. wValidate w n v False = Inr (vs, False)"
  shows "\<exists>s' d. act_schema w st = (s', Inr d) \<and> holds (checked s0 v0) s'"
proof -
  have "core_of (wsInv st) = core_of v0" using assms(1) fixed_partD(2) [of "wsInv st" v0] by (simp add: checked_def framed_def)
  then obtain vs where "wValidate w (tick st) (wsInv st) False = Inr (vs, False)" using assms(3) by blast
  moreover have "checked s0 v0 (wsStore st) (wsReg st) ((wsInv st)\<lparr>Validation := vs\<rparr>)" by (rule checked_upd [OF assms(1)]) simp_all
  moreover have "NRSPayload (wsInv st) = NRSPayload v0" using assms(1) by (simp add: checked_def)
  ultimately show ?thesis using assms(2) by (auto simp: act_schema_def Let_def)
qed

lemma sign_ok:
  assumes "disk_ok w" "settled_in s0 v0" "keyed_in s0 v0" "holds (checked s0 v0) st"
  shows "\<exists>s' d. act_sign w st = (s', Inr d) \<and> holds (staged w ''signed'' s0 v0) s'"
proof -
  let ?s2 = "upd_inv (\<lambda>v. v\<lparr>SignedCoreHash := CoreHash (wDigests w) v, ciStatus := ''signed''\<rparr>)
      (next_tick (upd_inv (\<lambda>v. fst (sign_invoice w (tick st) v)) st))"
  have fr: "holds (framed s0 v0) st" "holds (numbered s0 v0) st" using assms(4) by (simp_all add: checked_def)
  have "fixed_part (fst (sign_invoice w (tick st) v)) = fixed_part v" for v by (simp add: sign_invoice_def split: option.split)
  then have "holds (framed s0 v0) ?s2" using fr(1) by (simp add: framed_def)
  then obtain s3 where s3: "save_inv w ?s2 = (s3, None)" using keyed_save [OF assms(1) _ assms(2,3)] by blast
  have a: "act_sign w st = (s3, Inr ''invoice signed; core fields locked'')" by (simp add: act_sign_def Let_def s3)
  show ?thesis using a act_sign_rule [OF fr(2) a] framed_sign [OF fr(1) assms(2), of w] by (simp add: staged_def)
qed

lemma transmit_ok:
  assumes "healthy w" "settled_in s0 v0" "keyed_in s0 v0" "holds (staged w ''signed'' s0 v0) st"
  shows "\<exists>s' d. act_transmit w st = (s', Inr d) \<and> holds (staged w ''transmitted'' s0 v0) s'"
proof -
  let ?s1 = "fst (emit w ''nrs.einvoice.transmitted.v1'' (next_tick st))"
  have fr: "holds (framed s0 v0) st" "holds (locked (wDigests w) {''signed''} s0 v0) st" using assms(4) by (simp_all add: staged_def)
  have "holds (framed s0 v0) (upd_inv (\<lambda>v. v\<lparr>ciStatus := ''transmitted''\<rparr>) ?s1)" using fr(1) by (simp add: framed_def emit_frame2)
  then obtain s2 where s2: "save_inv w (upd_inv (\<lambda>v. v\<lparr>ciStatus := ''transmitted''\<rparr>) ?s1) = (s2, None)"
    using keyed_save [OF _ _ assms(2,3)] assms(1) unfolding healthy_def by blast
  have a: "act_transmit w st = (s2, Inr ''transmitted'')" using s2 assms(1) by (simp add: act_transmit_def healthy_def emit_def)
  show ?thesis using a act_transmit_rule [OF fr(2) a] framed_transmit [OF fr(1) assms(2), of w] by (simp add: staged_def)
qed

lemma confirm_ok:
  assumes "healthy w" "settled_in s0 v0" "keyed_in s0 v0" "holds (staged w ''transmitted'' s0 v0) st"
  shows "\<exists>s' d. act_confirm w st = (s', Inr d) \<and> holds (staged w ''confirmed'' s0 v0) s'"
proof -
  have fr: "holds (framed s0 v0) st" "holds (locked (wDigests w) {''transmitted''} s0 v0) st" using assms(4) by (simp_all add: staged_def)
  then obtain u where u: "byID (wsStore st) (ciID v0) = Some u" "same_invoice v0 u" "IRN u = IRN (wsInv st)" "same_invoice v0 (wsInv st)"
    "SignedCoreHash (wsInv st) = CoreHash (wDigests w) (wsInv st)" by (auto simp: locked_def)
  have core: "core_of u = core_of (wsInv st)" "ciID (wsInv st) = ciID v0" using u(2,4) by (simp_all add: same_invoice_def)
  then have pay: "PayableKobo u = PayableKobo (wsInv st)" by (simp add: core_of_def)
  have "holds (framed s0 v0) (upd_inv (\<lambda>v. v\<lparr>ciStatus := ''confirmed''\<rparr>) st)" using fr(1) by (simp add: framed_def)
  then obtain s1 where s1: "save_inv w (upd_inv (\<lambda>v. v\<lparr>ciStatus := ''confirmed''\<rparr>) st) = (s1, None)"
    using keyed_save [OF _ _ assms(2,3)] assms(1) unfolding healthy_def by blast
  have "\<exists>s' d. act_confirm w st = (s', Inr d)"
    using u core pay s1 assms(1) by (simp add: act_confirm_def GetInvoice_def CoreHash_def emit_def healthy_def)
  then obtain s' d where a: "act_confirm w st = (s', Inr d)" by blast
  have "holds (locked (wDigests w) {''transmitted'', ''confirmed''} s0 v0) st" by (rule locked_mono [OF fr(2)]) simp
  from act_confirm_rule [OF this a] show ?thesis using a framed_confirm [OF fr(1) assms(2), of w] by (simp add: staged_def)
qed

lemma lifecycle_completes:
  assumes h: "healthy w" and rd: "ready (wsStore st) (wsReg st) v0 sid irn"
    and schema: "NRSPayload v0 = '''' \<or> wSchema w (NRSPayload v0) = None"
    and packs: "\<And>n v. core_of v = core_of v0 \<Longrightarrow> \<exists>vs. wValidate w n v False = Inr (vs, False)"
  shows "\<exists>st'. wfNRSEinvoice w (ciID v0) st = (st', Inr ())"
proof -
  let ?s0 = "wsStore st" and ?D = "\<lambda>s r v. s = wsStore st \<and> r = wsReg st \<and> v = v0"
  note sk = rd [unfolded ready_def, THEN conjunct1] rd [unfolded ready_def, THEN conjunct2, THEN conjunct1]
  have dk: "disk_ok w" using h by (simp add: healthy_def)
  have pay: "NRSPayload (wsInv s') = NRSPayload (wsInv s)" if "act_irn_validate s = (s', x)" for s s' x
    using that by (auto simp: act_irn_validate_def Let_def split: sum.splits option.splits if_splits)
  let ?G = "\<lambda>s r v. generated ?s0 v0 irn s r v \<and> NRSPayload v = NRSPayload v0"
  have gen: "\<exists>s' d. act_irn_generate w s = (s', Inr d) \<and> holds ?G s'" if "holds ?D s" for s
  proof -
    obtain s' d where a: "act_irn_generate w s = (s', Inr d)" "holds (generated ?s0 v0 irn) s'"
      using generate_ok [OF rd, of s] \<open>holds ?D s\<close> by blast
    have "NRSPayload (wsInv s') = NRSPayload v0"
      using a(1) that by (auto simp: act_irn_generate_def Let_def split: sum.splits prod.splits if_splits)
    with a show ?thesis by blast
  qed
  have val: "\<exists>s' d. act_irn_validate s = (s', Inr d) \<and> holds (checked ?s0 v0) s'" if "holds ?G s" for s
    using validate_ok [OF rd, of s] that pay by (fastforce simp: checked_def)
  have steps: "\<exists>s'. run_steps w (nrs_steps w) s = (s', Inr ())" if "holds ?D s" for s
    unfolding nrs_steps_def
    by (rule run_first [where P = ?D and Q = ?G, OF that gen], assumption,
        rule run_first [where P = ?G and Q = "checked ?s0 v0", OF _ val], assumption+,
        rule run_first [where P = "checked ?s0 v0" and Q = "checked ?s0 v0", OF _ irn_sign_ok [OF h]], assumption+,
        rule run_first [where P = "checked ?s0 v0" and Q = "checked ?s0 v0", OF _ schema_ok [OF _ schema packs]], assumption+,
        rule run_first [where P = "checked ?s0 v0" and Q = "staged w ''signed'' ?s0 v0", OF _ sign_ok [OF dk sk]], assumption+,
        rule run_first [where P = "staged w ''signed'' ?s0 v0" and Q = "staged w ''transmitted'' ?s0 v0", OF _ transmit_ok [OF h sk]], assumption+,
        rule run_first [where P = "staged w ''transmitted'' ?s0 v0" and Q = "staged w ''confirmed'' ?s0 v0", OF _ confirm_ok [OF h sk]], assumption+, simp)
  have g: "GetInvoice (ciID v0) ?s0 = Some v0" using sk(1) by (simp add: settled_in_def GetInvoice_def)
  have c: "act_create (ciID v0) (st\<lparr>wsInv := v0\<rparr>) = (st\<lparr>wsInv := v0\<rparr>, Inr (''stored draft '' @ ciID v0))"
    using g by (simp add: act_create_def)
  show ?thesis
    using steps [of "rec_step ''1-create-store'' 1 ''ok'' (''stored draft '' @ ciID v0) (st\<lparr>wsInv := v0\<rparr>)"]
    by (simp add: wfNRSEinvoice_def g retry_first [of "act_create (ciID v0)", OF c])
qed

section \<open>The steps of a run\<close>

text \<open>An activity leaves the record of the steps to \<open>retryActivity\<close>, which appends one entry for a step that succeeds, after however many attempts.\<close>

definition steps_kept :: "activity \<Rightarrow> bool" where
  "steps_kept fn \<longleftrightarrow> (\<forall>st. wsSteps (fst (fn st)) = wsSteps st)"

lemma put_step_new: "stepName s \<notin> stepName ` set ss \<Longrightarrow> put_step s ss = ss @ [s]"
  by (induction ss) auto

lemma put_step_again: "stepName s \<notin> stepName ` set ss \<Longrightarrow> stepName t = stepName s \<Longrightarrow> put_step s (ss @ [t]) = ss @ [s]"
  by (induction ss) auto

lemma retry_from_steps:
  assumes "steps_kept fn" "retry_from w name fn n i err st = (st', Inr u)" "name \<notin> stepName ` set ss"
    and "wsSteps st = ss \<or> (\<exists>t. wsSteps st = ss @ [t] \<and> stepName t = name)"
  shows "\<exists>s. wsSteps st' = ss @ [s] \<and> stepName s = name \<and> stepStatus s = ''ok''"
  using assms(2,4)
proof (induction n arbitrary: i err st)
  case (Suc n)
  obtain st1 x where f: "fn st = (st1, x)" by fastforce
  have keep: "wsSteps st1 = wsSteps st" using assms(1) f by (metis fst_conv steps_kept_def)
  have put: "wsSteps (rec_step name i a d st1) = ss @ [\<lparr>stepName = name, stepAttempt = i, stepStatus = a, stepDetail = d\<rparr>]" for a d
    using Suc.prems(2) assms(3) by (auto simp: rec_step_def keep put_step_new put_step_again)
  show ?case
  proof (cases x)
    case (Inl e)
    have "wsSteps (next_tick (rec_step name i ''failed'' e st1)) = ss @ [\<lparr>stepName = name, stepAttempt = i, stepStatus = ''failed'', stepDetail = e\<rparr>]"
      by (simp add: put)
    with Suc.IH [of "i + 1" e "next_tick (rec_step name i ''failed'' e st1)"] Suc.prems(1) f Inl show ?thesis
      by (auto simp: Let_def split: if_splits)
  next
    case (Inr d)
    with Suc.prems(1) f put show ?thesis by auto
  qed
qed simp

lemma run_steps_recorded:
  assumes "run_steps w fs st = (st', Inr u)" "\<forall>(name, fn)\<in>set fs. steps_kept fn" "distinct (map fst fs)"
    and "fst ` set fs \<inter> stepName ` set (wsSteps st) = {}"
  shows "\<exists>ss. wsSteps st' = wsSteps st @ ss \<and> map stepName ss = map fst fs \<and> (\<forall>s\<in>set ss. stepStatus s = ''ok'')"
  using assms
proof (induction fs arbitrary: st)
  case (Cons f fs)
  obtain name fn where f: "f = (name, fn)" by fastforce
  obtain st1 r where r: "retryActivity w name 3 fn st = (st1, r)" by fastforce
  with Cons.prems(1) f have ok: "r = Inr ()" "run_steps w fs st1 = (st', Inr u)" by (auto simp: nrsFail_def split: sum.splits)
  obtain s where s: "wsSteps st1 = wsSteps st @ [s]" "stepName s = name" "stepStatus s = ''ok''"
    using retry_from_steps [of fn w name 3 1 "''''" st st1 "()" "wsSteps st"] Cons.prems r f ok(1) by (auto simp: retryActivity_def)
  obtain ss where "wsSteps st' = wsSteps st1 @ ss" "map stepName ss = map fst fs" "\<forall>s\<in>set ss. stepStatus s = ''ok''"
    using Cons.IH [OF ok(2)] Cons.prems f s by auto
  then show ?case using s f by (intro exI [of _ "s # ss"]) simp
qed simp

lemma save_inv_steps [simp]: "wsSteps (fst (save_inv w st)) = wsSteps st"
  by (simp add: save_inv_def next_tick_def split: prod.split)

lemma steps_kept_acts:
  "steps_kept (act_create i)" "steps_kept (act_irn_generate w)" "steps_kept act_irn_validate" "steps_kept (act_irn_sign w)"
  "steps_kept (act_schema w)" "steps_kept (act_sign w)" "steps_kept (act_transmit w)" "steps_kept (act_confirm w)"
proof -
  have u: "wsSteps (upd_inv f st) = wsSteps st" "wsSteps (fst (emit w t st)) = wsSteps st" for f t st
    by (simp_all add: upd_inv_def emit_def)
  have sv: "save_inv w s = (s', e) \<Longrightarrow> wsSteps s' = wsSteps s" for s s' e using save_inv_steps [of w s] by simp
  have em: "emit w t s = (s', e) \<Longrightarrow> wsSteps s' = wsSteps s" for t s s' e using u(2) [of t s] by simp
  show "steps_kept (act_create i)" "steps_kept (act_irn_generate w)" "steps_kept act_irn_validate" "steps_kept (act_irn_sign w)" "steps_kept (act_schema w)"
    by (auto simp: steps_kept_def act_create_def act_irn_generate_def act_irn_validate_def act_irn_sign_def act_schema_def u(1) Let_def
        split: option.split sum.split prod.split)
  show "steps_kept (act_sign w)" "steps_kept (act_transmit w)" "steps_kept (act_confirm w)"
    by (auto simp: steps_kept_def act_sign_def act_transmit_def act_confirm_def u(1) Let_def split: option.split sum.split prod.split dest!: sv em)
qed

definition nrs_step_names :: "string list" where
  "nrs_step_names = [''1-create-store'', ''2-irn-generate'', ''3-irn-validate'', ''4-irn-sign'', ''5-schema-validate'', ''6-invoice-sign'', ''7-transmit'', ''8-confirm'']"

lemma lifecycle_recorded:
  assumes "wfNRSEinvoice w i st = (st', Inr u)" "wsSteps st = []"
  shows "map stepName (wsSteps st') = nrs_step_names \<and> (\<forall>s\<in>set (wsSteps st'). stepStatus s = ''ok'')"
proof -
  obtain v where v: "GetInvoice i (wsStore st) = Some v" using assms(1) by (auto simp: wfNRSEinvoice_def split: option.splits)
  obtain st1 r where r: "retryActivity w ''1-create-store'' 3 (act_create i) (st\<lparr>wsInv := v\<rparr>) = (st1, r)" by fastforce
  then have ok: "r = Inr ()" "run_steps w (nrs_steps w) st1 = (st', Inr u)" using assms(1) v by (auto simp: wfNRSEinvoice_def split: sum.splits)
  obtain s where s: "wsSteps st1 = [s]" "stepName s = ''1-create-store''" "stepStatus s = ''ok''"
    using retry_from_steps [of "act_create i" w "''1-create-store''" 3 1 "''''" "st\<lparr>wsInv := v\<rparr>" st1 "()" "[]"] steps_kept_acts(1) r ok(1) assms(2)
    by (auto simp: retryActivity_def)
  have "\<exists>ss. wsSteps st' = wsSteps st1 @ ss \<and> map stepName ss = map fst (nrs_steps w) \<and> (\<forall>s\<in>set ss. stepStatus s = ''ok'')"
    by (rule run_steps_recorded [OF ok(2)]) (auto simp: nrs_steps_def steps_kept_acts s)
  then show ?thesis using s by (auto simp: nrs_steps_def nrs_step_names_def)
qed

text \<open>After the IRN is generated no step changes it.\<close>

definition irn_kept :: "activity \<Rightarrow> bool" where
  "irn_kept fn \<longleftrightarrow> (\<forall>st. IRN (wsInv (fst (fn st))) = IRN (wsInv st))"

lemma save_inv_irn: "IRN (wsInv (fst (save_inv w st))) = IRN (wsInv st)"
proof -
  obtain s' e where s: "save_inv w st = (s', e)" by fastforce
  then show ?thesis by (cases rule: save_inv_cases) (auto simp: s stamp_times_def)
qed

lemma irn_kept_acts:
  "irn_kept act_irn_validate" "irn_kept (act_irn_sign w)" "irn_kept (act_schema w)" "irn_kept (act_sign w)" "irn_kept (act_transmit w)" "irn_kept (act_confirm w)"
proof -
  have em: "emit w t s = (s', e) \<Longrightarrow> wsInv s' = wsInv s" for t s s' e by (auto simp: emit_def split: if_splits)
  have sv: "save_inv w s = (s', e) \<Longrightarrow> IRN (wsInv s') = IRN (wsInv s)" for s s' e using save_inv_irn [of w s] by simp
  have sg: "IRN (fst (sign_invoice w n v)) = IRN v" for n v by (simp add: sign_invoice_def split: option.split)
  show "irn_kept act_irn_validate" "irn_kept (act_irn_sign w)" "irn_kept (act_schema w)"
    by (auto simp: irn_kept_def act_irn_validate_def act_irn_sign_def act_schema_def Let_def split: option.split sum.split prod.split)
  show "irn_kept (act_sign w)" "irn_kept (act_transmit w)" "irn_kept (act_confirm w)"
    by (auto simp: irn_kept_def act_sign_def act_transmit_def act_confirm_def sg Let_def split: option.split sum.split prod.split dest!: sv em)
qed

lemma run_steps_irn:
  assumes "run_steps w fs st = (st', Inr u)" "\<forall>(name, fn)\<in>set fs. irn_kept fn"
  shows "IRN (wsInv st') = IRN (wsInv st)"
  using assms
proof (induction fs arbitrary: st)
  case (Cons f fs)
  obtain name fn where f: "f = (name, fn)" by fastforce
  obtain st1 r where r: "retryActivity w name 3 fn st = (st1, r)" by fastforce
  have "case r of Inr _ \<Rightarrow> IRN (wsInv st1) = IRN (wsInv st) | Inl _ \<Rightarrow> IRN (wsInv st1) = IRN (wsInv st)"
    by (rule retry_rule_state [OF r, where P = "\<lambda>s. IRN (wsInv s) = IRN (wsInv st)" and Q = "\<lambda>s. IRN (wsInv s) = IRN (wsInv st)"])
      (use Cons.prems(2) f in \<open>auto simp: irn_kept_def\<close>, (metis fst_conv)+)
  with Cons.IH [of st1] Cons.prems f r show ?case by (auto simp: nrsFail_def split: sum.splits)
qed simp

lemma lifecycle_irn:
  assumes "ready (wsStore st) (wsReg st) v0 sid irn" "wfNRSEinvoice w (ciID v0) st = (st', Inr u)"
  shows "IRN (wsInv st') = irn"
proof -
  have g: "GetInvoice (ciID v0) (wsStore st) = Some v0" using assms(1) by (simp add: ready_def settled_in_def GetInvoice_def)
  have c: "act_create (ciID v0) (st\<lparr>wsInv := v0\<rparr>) = (st\<lparr>wsInv := v0\<rparr>, Inr (''stored draft '' @ ciID v0))" using g by (simp add: act_create_def)
  let ?st1 = "rec_step ''1-create-store'' 1 ''ok'' (''stored draft '' @ ciID v0) (st\<lparr>wsInv := v0\<rparr>)"
  have r: "run_steps w (nrs_steps w) ?st1 = (st', Inr u)"
    using assms(2) by (simp add: wfNRSEinvoice_def g retry_first [of "act_create (ciID v0)", OF c])
  obtain s d where a: "act_irn_generate w ?st1 = (s, Inr d)" "IRN (wsInv s) = irn"
    using generate_ok [OF assms(1), of ?st1 w] by (auto simp: generated_def)
  have "run_steps w (tl (nrs_steps w)) (rec_step ''2-irn-generate'' 1 ''ok'' d s) = (st', Inr u)"
    using r unfolding nrs_steps_def list.sel run_step_first [of "act_irn_generate w", OF a(1)] .
  from run_steps_irn [OF this] show ?thesis using a(2) by (simp add: nrs_steps_def irn_kept_acts)
qed

text \<open>What a successful run leaves in the store, whatever failed on the way.\<close>

lemma lifecycle_final:
  assumes "wfNRSEinvoice w i st = (st', Inr u)" "store_ok (wsStore st)" "byID (wsStore st) i = Some v0"
  shows "\<exists>v. byID (wsStore st') i = Some v \<and> ciStatus v = ''confirmed'' \<and> core_of v = core_of v0 \<and> SignedCoreHash v = CoreHash (wDigests w) v \<and>
     IRN v = IRN (wsInv st') \<and> irn_good v \<and>
     (byIRN (wsStore st) (IRN v) = None \<or> byIRN (wsStore st) (IRN v) = Some i) \<and> byIRN (wsStore st') (IRN v) = Some i \<and>
     (\<forall>j. j \<noteq> i \<longrightarrow> byID (wsStore st') j = byID (wsStore st) j)"
proof -
  have id: "ciID v0 = i" using assms(2,3) by (simp add: store_ok_def)
  have l: "holds (locked (wDigests w) {''confirmed''} (wsStore st) v0) st'" by (rule lifecycle_locked [OF assms])
  then obtain v where v: "byID (wsStore st') i = Some v" "same_invoice v0 v" "IRN v = IRN (wsInv st')" "SignedCoreHash v = CoreHash (wDigests w) v"
    "ciStatus v = ''confirmed''" "irn_good (wsInv st')" "same_invoice v0 (wsInv st')" using id by (auto simp: locked_def)
  have "irn_good v" using v(2,3,6,7) by (auto simp: irn_good_def same_invoice_def core_of_def)
  then show ?thesis using v l id by (auto simp: locked_def same_invoice_def)
qed

section \<open>A second invoice with the same number\<close>

text \<open>An activity that keeps failing without touching the state ends the retries in an error.\<close>

lemma retry_stuck:
  assumes "retryActivity w name n fn st = (st', x)" "holds P st" "\<And>s. holds P s \<Longrightarrow> \<exists>e. fn s = (s, Inl e)"
  shows "\<exists>e. x = Inl e" "holds P st'"
proof -
  have "case x of Inr _ \<Rightarrow> holds (\<lambda>_ _ _. False) st' | Inl _ \<Rightarrow> holds P st'"
    by (rule retry_rule [where P = P and Q = "\<lambda>_ _ _. False", OF assms(1,2)]) (use assms(3) in fastforce)+
  then show "\<exists>e. x = Inl e" "holds P st'" by (auto split: sum.splits)
qed

lemma validate_taken:
  assumes "byIRN (wsStore st) (IRN (wsInv st)) = Some j" "byID (wsStore st) j = Some old" "ciID old \<noteq> ciID (wsInv st)"
  shows "\<exists>e. act_irn_validate st = (st, Inl e)"
  using assms by (auto simp: act_irn_validate_def GetByIRN_def Let_def split: sum.split)

lemma fail_reindexes:
  assumes "disk_ok w" "keyed_in (wsStore st) (wsInv st)" "IRN (wsInv st) \<noteq> ''''"
  shows "byIRN (wsStore (fst (nrsFail w (st, x)))) (IRN (wsInv st)) = Some (ciID (wsInv st)) \<and>
     (\<exists>u. byID (wsStore (fst (nrsFail w (st, x)))) (ciID (wsInv st)) = Some u \<and> ciStatus u = ''failed'' \<and> ciID u = ciID (wsInv st))"
proof -
  let ?v = "(wsInv st)\<lparr>ciStatus := ''failed''\<rparr>"
  have "idem_refusal (wDigests w) (saveNow (wSave w (tick st))) ?v (wsStore st) = None"
    by (rule keyed_no_refusal) (use assms(2) in \<open>simp add: keyed_in_def idem_key_def\<close>)
  then obtain s1 where "save_inv w (upd_inv (\<lambda>v. v\<lparr>ciStatus := ''failed''\<rparr>) st) = (s1, None)"
    using assms(1) by (simp add: save_inv_def SaveCtx_def disk_ok_def Let_def upd_inv_def)
  note s1 = this
  from s1 show ?thesis
    by (cases rule: save_inv_cases) (use assms(3) s1 in \<open>simp_all add: nrsFail_def\<close>)
qed

text \<open>
  Submitting an invoice number of the same business and date again fails at the uniqueness check.
  The failure handler then saves the rejected duplicate together with the IRN, so the index
  gives the duplicate for the IRN of the original.
\<close>

lemma duplicate_takes_irn:
  assumes dk: "disk_ok w" and v0: "settled_in (wsStore st) v0" "keyed_in (wsStore st) v0" "IRN v0 = ''''"
    and reg: "TrimSpace (BusinessID v0) \<noteq> ''''" "wsReg st (BusinessID v0) = Some sid" "BuildIRN (InvoiceNumber v0) sid (IssueDate v0) = Inr irn"
    and old: "byIRN (wsStore st) irn = Some (ciID old)" "byID (wsStore st) (ciID old) = Some old" "ciID old \<noteq> ciID v0"
    and run: "wfNRSEinvoice w (ciID v0) st = (st', x)"
  shows "\<not> is_ok x \<and> (\<exists>u. GetByIRN irn (wsStore st') = Some u \<and> ciID u = ciID v0 \<and> ciStatus u = ''failed'')"
proof -
  let ?v = "v0\<lparr>ServiceID := sid, IRN := irn\<rparr>" and ?s0 = "wsStore st"
  let ?P = "\<lambda>s r v. s = ?s0 \<and> v = ?v"
  have g: "GetInvoice (ciID v0) ?s0 = Some v0" using v0(1) by (simp add: settled_in_def GetInvoice_def)
  have sid: "sid \<noteq> ''''" using reg(3) by (auto simp: BuildIRN_def ValidServiceID_def Let_def split: if_splits)
  let ?st1 = "rec_step ''1-create-store'' 1 ''ok'' (''stored draft '' @ ciID v0) (st\<lparr>wsInv := v0\<rparr>)"
  have c: "act_create (ciID v0) (st\<lparr>wsInv := v0\<rparr>) = (st\<lparr>wsInv := v0\<rparr>, Inr (''stored draft '' @ ciID v0))" using g by (simp add: act_create_def)
  have r1: "run_steps w (nrs_steps w) ?st1 = (st', x)"
    using run by (simp add: wfNRSEinvoice_def g retry_first [of "act_create (ciID v0)", OF c])
  have go: "GetOrAssign y (BusinessID v0) (wsReg st) = (wsReg st, Inr sid)" for y using reg sid by (auto simp: GetOrAssign_def Lookup_def)
  obtain st2 d where a: "act_irn_generate w ?st1 = (st2, Inr d)" "holds ?P st2"
    using v0(3) reg(3) go by (simp add: act_irn_generate_def Let_def)
  let ?st2 = "rec_step ''2-irn-generate'' 1 ''ok'' d st2"
  have r2: "run_steps w (tl (nrs_steps w)) ?st2 = (st', x)"
    using r1 unfolding nrs_steps_def list.sel run_step_first [of "act_irn_generate w", OF a(1)] .
  obtain st3 y where y: "retryActivity w ''3-irn-validate'' 3 act_irn_validate ?st2 = (st3, y)" by fastforce
  have stuck: "\<exists>e. act_irn_validate s = (s, Inl e)" if "holds ?P s" for s
    by (rule validate_taken [of s "ciID old" old]) (use that old in auto)
  have P2: "holds ?P ?st2" using a(2) by simp
  obtain e where e: "y = Inl e" using retry_stuck(1) [where P = ?P, OF y P2 stuck] by blast
  have P3: "holds ?P st3" by (rule retry_stuck(2) [where P = ?P, OF y P2 stuck])
  have f: "(st', x) = nrsFail w (st3, Inl e)" using r2 unfolding nrs_steps_def list.sel run_steps.simps y e by simp
  have irn: "irn \<noteq> ''''" using reg(3) by (auto simp: BuildIRN_def Let_def split: if_splits sum.splits)
  have "keyed_in (wsStore st3) (wsInv st3)" using P3 v0(2) by (simp add: keyed_in_def idem_key_def)
  from fail_reindexes [OF dk this, of "Inl e"] P3 irn f [symmetric]
  have "byIRN (wsStore st') irn = Some (ciID v0)" "\<exists>u. byID (wsStore st') (ciID v0) = Some u \<and> ciStatus u = ''failed'' \<and> ciID u = ciID v0"
    by auto
  moreover have "x = Inl e" using f by (simp add: nrsFail_def)
  ultimately show ?thesis by (auto simp: GetByIRN_def)
qed

section \<open>A signature that is not there\<close>

text \<open>Step 6 drops the error of the signer: the invoice is locked and saved without a signature.\<close>

lemma sign_error_dropped:
  assumes "wSign w (tick st) (Hash (wDigests w) (wsInv st)) = None" "disk_ok w" "keyed_in (wsStore st) (wsInv st)"
  shows "\<exists>st' d u. act_sign w st = (st', Inr d) \<and> byID (wsStore st') (ciID (wsInv st)) = Some u \<and> ciStatus u = ''signed'' \<and>
     CSIDSignature u = CSIDSignature (wsInv st)"
proof -
  let ?v = "(wsInv st)\<lparr>SignedCoreHash := CoreHash (wDigests w) (wsInv st), ciStatus := ''signed''\<rparr>"
  let ?st2 = "upd_inv (\<lambda>v. v\<lparr>SignedCoreHash := CoreHash (wDigests w) v, ciStatus := ''signed''\<rparr>)
        (next_tick (upd_inv (\<lambda>v. fst (sign_invoice w (tick st) v)) st))"
  have v: "wsInv ?st2 = ?v" "wsStore ?st2 = wsStore st" using assms(1) by (simp_all add: sign_invoice_def)
  have kv: "keyed_in (wsStore st) ?v" using assms(3) by (simp add: keyed_in_def idem_key_def)
  have "idem_refusal (wDigests w) n (wsInv ?st2) (wsStore ?st2) = None" for n unfolding v by (rule keyed_no_refusal [OF kv])
  then obtain s3 where s3: "save_inv w ?st2 = (s3, None)" using assms(2) by (simp add: save_inv_def SaveCtx_def disk_ok_def Let_def)
  have a: "act_sign w st = (s3, Inr ''invoice signed; core fields locked'')" by (simp add: act_sign_def Let_def s3)
  from s3 have "\<exists>n. byID (wsStore s3) (ciID (wsInv ?st2)) = Some (stamp_times n (wsInv ?st2))"
    by (cases rule: save_inv_cases) auto
  then have "\<exists>n. byID (wsStore s3) (ciID (wsInv st)) = Some (stamp_times n ?v)" unfolding v by simp
  then show ?thesis using a by (auto simp: stamp_times_def)
qed

section \<open>The id of somebody else\<close>

text \<open>The ingestion handler keeps an id that the client sends: it replaces the record of any tenant.\<close>

lemma create_replaces_any_id:
  assumes "disk_ok w" "rqIdempotencyKey rq = ''''" "ciID v0 \<noteq> ''''"
    and "\<And>v dup. \<exists>vs fatal. wValidate w (tick (snd rs)) v dup = Inr (vs, fatal)"
    and "handleCreateInvoice w res ulid today adapter rq (Inr [v0]) rs = (rs', resp)"
  shows "\<exists>u. byID (wsStore (snd rs')) (ciID v0) = Some u \<and> ciTenantID u = claim_tenant (rqClaims rq) \<and> InvoiceNumber u = InvoiceNumber v0"
proof -
  obtain r st where rs: "rs = (r, st)" by fastforce
  define v where "v = ingest_draft res (ulid (tick st)) today adapter rq v0"
  obtain vs fatal where val: "wValidate w (tick st) v (IsDuplicate v (wsStore st)) = Inr (vs, fatal)" using assms(4) rs by fastforce
  define v3 where "v3 = v\<lparr>Validation := vs, ciStatus := (if fatal then ''failed'' else ''validated'')\<rparr>"
  have f: "ciID v3 = ciID v0" "ciTenantID v3 = claim_tenant (rqClaims rq)" "InvoiceNumber v3 = InvoiceNumber v0" "ciIdempotencyKey v3 = ''''"
    using assms(2,3) by (simp_all add: v3_def v_def ingest_draft_def Normalise_def Let_def)
  then have "idem_refusal (wDigests w) n v3 (wsStore (next_tick st)) = None" for n by (simp add: idem_refusal_def)
  then obtain st1 where s: "save_with w v3 (next_tick st) = (st1, '''', None)" using disk_save [OF assms(1)] by blast
  have "handleCreateInvoice w res ulid today adapter rq (Inr [v0]) rs =
      ((r, fst (emit w ''nrs.mbs.invoice.received.v1'' st1)), Reply 201 (Created [wsInv st1]))"
    by (simp add: rs handleCreateInvoice_def Let_def v_def [symmetric] val v3_def [symmetric] s)
  then have st': "wsStore (snd rs') = wsStore st1" using assms(5) by (auto simp: emit_frame2)
  from s show ?thesis by (cases rule: save_with_cases) (use f st' in auto)
qed

section \<open>Payment updates\<close>

text \<open>The check trims the status, the assignment does not: a padded status is stored as it came.\<close>

lemma padded_status_stored:
  assumes "disk_ok w" "GetByIRN irn (wsStore (snd rs)) = Some v" "may_access ctx v" "keyed_in (wsStore (snd rs)) v"
    and "pKeys p = [''payment_status'']" "ValidPaymentStatus (pPaymentStatus p)" "pPaymentStatus p \<noteq> ''''" "pReference p = ''''"
  shows "\<exists>rs' u. handleNRSUpdate w now ctx irn (Inr p) rs = (rs', Reply 200 u) \<and> PaymentStatus u = ToUpper (pPaymentStatus p)"
proof -
  let ?v = "apply_patch now (case ctx of None \<Rightarrow> '''' | Some c \<Rightarrow> Sub c) p v"
  have kv: "keyed_in (wsStore (snd rs)) ?v" using assms(4) by (simp add: keyed_in_def idem_key_def apply_patch_def Let_def)
  obtain st1 where s: "save_with w ?v (snd rs) = (st1, '''', None)" using disk_save [OF assms(1) keyed_no_refusal [OF kv]] by blast
  have "\<exists>n. wsInv st1 = stamp_times n ?v" using s by (cases rule: save_with_cases) auto
  then have "PaymentStatus (wsInv st1) = ToUpper (pPaymentStatus p)"
    using assms(7,8) by (auto simp: stamp_times_def apply_patch_def Let_def)
  moreover have "handleNRSUpdate w now ctx irn (Inr p) rs = ((fst rs, fst (emit w ''nrs.einvoice.payment_status.v1'' st1)), Reply 200 (wsInv st1))"
    using assms(5-8) by (simp add: handleNRSUpdate_def assms(2) tenantGuard_pass [OF assms(3)] s Let_def)
  ultimately show ?thesis by blast
qed

text \<open>Once an expired key was reused, the first invoice of that key cannot be updated any more.\<close>

lemma reused_key_blocks_update:
  assumes "GetByIRN irn (wsStore (snd rs)) = Some v" "may_access ctx v" "ciIdempotencyKey v \<noteq> ''''"
    and "byIdemKey (wsStore (snd rs)) (idem_key v) = Some j" "j \<noteq> ciID v" "byID (wsStore (snd rs)) j = Some prior"
    and "\<not> idemMappingExpired prior (saveNow (wSave w (tick (snd rs))))"
    and "pKeys p = [''payment_status'']" "ValidPaymentStatus (pPaymentStatus p)" "pPaymentStatus p \<noteq> ''''"
  shows "\<exists>rs'. handleNRSUpdate w now ctx irn (Inr p) rs = (rs', Problem 500 ''persist failed'') \<and> byID (wsStore (snd rs')) = byID (wsStore (snd rs))"
proof -
  let ?v = "apply_patch now (case ctx of None \<Rightarrow> '''' | Some c \<Rightarrow> Sub c) p v"
  obtain st1 q e where s: "save_with w ?v (snd rs) = (st1, q, e)" by (metis prod_cases3)
  have f: "ciID ?v = ciID v" "idem_key ?v = idem_key v" "ciIdempotencyKey ?v = ciIdempotencyKey v"
    by (simp_all add: apply_patch_def idem_key_def Let_def)
  have "e \<noteq> None" "byID (wsStore st1) = byID (wsStore (snd rs))"
    using s assms(3-7) f by (auto simp: save_with_def SaveCtx_def idem_refusal_def split: option.splits prod.splits if_splits)
  then obtain er where "e = Some er" by blast
  then show ?thesis
    using assms(8-10) s \<open>byID (wsStore st1) = _\<close> by (simp add: handleNRSUpdate_def assms(1) tenantGuard_pass [OF assms(2)] Let_def)
qed

section \<open>A fresh submission is confirmed\<close>

lemma submission_confirmed:
  assumes h: "healthy w" and ok: "store_ok (wsStore (snd rs))" and free: "ciID d \<notin> inflight" "byIdemKey (wsStore (snd rs)) (idem_key d) = None"
    and d: "d = nrs_draft res ulid today rq body v0" "IRN d = ''''" "TrimSpace (BusinessID d) \<noteq> ''''" "TrimSpace (InvoiceNumber d) = InvoiceNumber d"
    and irn: "wsReg (snd rs) (BusinessID d) = Some sid" "BuildIRN (InvoiceNumber d) sid (IssueDate d) = Inr irn" "byIRN (wsStore (snd rs)) irn = None"
    and schema: "NRSPayload d = '''' \<or> wSchema w (NRSPayload d) = None"
    and packs: "\<And>n v. core_of v = core_of d \<Longrightarrow> \<exists>vs. wValidate w n v False = Inr (vs, False)"
  shows "\<exists>rs' rep. handleNRSCreate w res ulid today inflight rq body '''' (Some v0) rs = (rs', Reply 201 rep)"
proof -
  have dk: "disk_ok w" using h by (simp add: healthy_def)
  have "idem_refusal (wDigests w) n d (wsStore (snd rs)) = None" for n using free(2) by (simp add: idem_refusal_def)
  then obtain st1 where s: "save_with w d (snd rs) = (st1, '''', None)" using disk_save [OF dk] by blast
  obtain n where n: "settled_in (wsStore st1) (stamp_times n d)" "keyed_in (wsStore st1) (stamp_times n d)" using s by (rule save_with_settled)
  have "byIRN (wsStore st1) irn = None" using s by (cases rule: save_with_cases) (use d(2) irn(3) in simp_all)
  moreover have "wsReg st1 = wsReg (snd rs)" using s by (auto simp: save_with_def split: prod.splits)
  moreover have f: "IRN (stamp_times n d) = ''''" "BusinessID (stamp_times n d) = BusinessID d" "NRSPayload (stamp_times n d) = NRSPayload d"
    using d(2) by (simp_all add: stamp_times_def)
  ultimately have rd: "ready (wsStore (st1\<lparr>wsSteps := []\<rparr>)) (wsReg (st1\<lparr>wsSteps := []\<rparr>)) (stamp_times n d) sid irn"
    using n save_with_ok [OF ok s] d(3,4) irn(1,2) by (simp add: ready_def)
  obtain st2 where st2: "wfNRSEinvoice w (ciID (stamp_times n d)) (st1\<lparr>wsSteps := []\<rparr>) = (st2, Inr ())"
    using lifecycle_completes [OF h rd] schema packs f(3) by auto
  then have st2: "wfNRSEinvoice w (ciID d) (st1\<lparr>wsSteps := []\<rparr>) = (st2, Inr ())" by simp
  obtain rs2 run where run: "runNRSWorkflow w inflight (ciID d) (fst rs, st1) = (rs2, Some (run, Inr ()))"
    using free(1) st2 by (simp add: runNRSWorkflow_def RunWorkflow_def Let_def)
  obtain u where "byID (wsStore (snd rs2)) (ciID d) = Some u" using runNRS_framed(1) [OF _ n(1), of w inflight "fst rs"] run by auto
  then show ?thesis using s run d(1) by (simp add: handleNRSCreate_def Let_def reply_stored_def GetInvoice_def)
qed

end
