(* ===== verification/Einv_Demo.thy ===== *)
theory Einv_Demo
  imports Einv_Liveness
begin

text \<open>
  A small e-invoicing service, on which the properties of the service are instantiated: a tenant
  with one registered business, an empty or nearly empty store and surroundings that answer.
\<close>

section \<open>A small service\<close>

definition demo_party :: Party where
  "demo_party = \<lparr>ptTIN = ''12345678'', ptName = ''Ada Ltd'', ptAddress = '''', ptCity = '''', ptState = '''', ptCountry = ''NG'', ptEmail = ''''\<rparr>"

definition demo_line :: InvoiceLine where
  "demo_line = \<lparr>ilID = ''1'', ilDescription = ''rice'', QuantityMilli = 1000, UnitPriceKobo = 100000, LineTotalKobo = 100000,
     VatCategory = ''S'', ilVatRateBps = 750, VatAmountKobo = 7500, ilCitations = []\<rparr>"

definition demo_inv :: CanonicalInvoice where
  "demo_inv = \<lparr>ciID = '''', ciTenantID = '''', InvoiceNumber = ''INV7'', InvoiceType = ''B2B'', IssueDate = ''2026-01-15'', DueDate = '''',
     ciCurrency = ''NGN'', Supplier = demo_party, Customer = demo_party, ciLines = [demo_line], TaxExclusiveKobo = 100000, TaxKobo = 7500,
     PayableKobo = 107500, ciStatus = ''received'', IRN = '''', ciStamp = None, CSIDSignature = '''', CSIDKeyID = '''', ciIdempotencyKey = '''',
     SourceAdapter = ''nrs'', BusinessID = ''BIZ'', ServiceID = '''', InvoiceTypeCode = ''381'', PaymentStatus = ''PENDING'', PaymentReference = '''',
     SignedCoreHash = '''', NRSPayload = '''', Audit = [], UBLXML = '''', Validation = [], CreatedAt = None, UpdatedAt = None\<rparr>"

definition demo_save_env :: save_env where
  "demo_save_env = \<lparr>saveNow = 0, hookFault = None, openOk = True, writeOk = True, syncOk = True, pgPut = PgOk\<rparr>"

definition demo_world :: world where
  "demo_world = \<lparr>wSave = (\<lambda>_. demo_save_env), wSign = (\<lambda>_ p. Some ''sig''), wKeyID = ''csid-1'', wValidate = (\<lambda>_ _ _. Inr ([], False)),
     wSchema = (\<lambda>_. None), wNotify = (\<lambda>_. True), wEvent = (\<lambda>_. True), wPublish = (\<lambda>_. True), wRand = (\<lambda>_. None), wCancel = (\<lambda>_. False),
     wTime = (\<lambda>_. ''2026-01-15T10:00:00Z''), wDigests = (coNumber, \<lambda>(n, _). n)\<rparr>"

definition demo_reg :: ServiceIDRegistry where
  "demo_reg = [''BIZ'' \<mapsto> ''ABCD1234'']"

definition demo_state :: "InvoiceStore \<Rightarrow> wf_state" where
  "demo_state s = \<lparr>wsStore = s, wsReg = demo_reg, wsInv = demo_inv, wsSteps = [], wsOutbox = [], wsResult = None, tick = 0\<rparr>"

definition demo_runner :: InprocRunner where
  "demo_runner = \<lparr>runs = [], runSeq = 0\<rparr>"

definition demo_claims :: Claims where
  "demo_claims = \<lparr>Sub = ''ada'', Roles = [''operator''], TenantID = ''t1''\<rparr>"

definition demo_rq :: request where
  "demo_rq = \<lparr>rqClaims = Some demo_claims, rqIdempotencyKey = ''k1''\<rparr>"

text \<open>A stored draft of the tenant.\<close>

definition demo_draft :: CanonicalInvoice where
  "demo_draft = demo_inv\<lparr>ciID := ''i1'', ciTenantID := ''t1'', CreatedAt := Some 0, UpdatedAt := Some 0\<rparr>"

definition demo_invoices :: InvoiceStore where
  "demo_invoices = NewInvoiceStore [demo_draft]"

lemma demo_healthy: "healthy demo_world"
  by (simp add: healthy_def disk_ok_def demo_world_def demo_save_env_def)

lemma demo_disk: "disk_ok demo_world"
  using demo_healthy by (simp add: healthy_def)

lemma demo_irn: "BuildIRN ''INV7'' ''ABCD1234'' ''2026-01-15'' = Inr ''INV7-ABCD1234-20260115''"
  by (simp add: BuildIRN_def DateStamp_def TrimSpace_printable printable_def ValidServiceID_def isAlnum_def isDigit_def parseYMD_def
      read_nat_def digit_val_def daysIn_def isLeap_def)

lemma demo_trims: "TrimSpace ''INV7'' = ''INV7''" "TrimSpace ''BIZ'' \<noteq> ''''"
  by (simp_all add: TrimSpace_printable printable_def)

lemma demo_invoices_fields:
  "byID demo_invoices = [''i1'' \<mapsto> demo_draft]" "byIRN demo_invoices = Map.empty" "byIdemKey demo_invoices = Map.empty" "store_ok demo_invoices"
  using store_ok_New [of "[demo_draft]"]
  by (simp_all add: demo_invoices_def NewInvoiceStore_def load_def empty_store_def index_def demo_draft_def demo_inv_def)

lemma demo_draft_in: "settled_in demo_invoices demo_draft" "keyed_in demo_invoices demo_draft" "dated demo_invoices"
  by (auto simp: settled_in_def keyed_in_def dated_def demo_invoices_fields demo_draft_def demo_inv_def)

lemma demo_ready: "ready (wsStore (demo_state demo_invoices)) (wsReg (demo_state demo_invoices)) demo_draft ''ABCD1234'' ''INV7-ABCD1234-20260115''"
  using demo_draft_in demo_irn demo_trims
  by (simp add: ready_def demo_state_def demo_invoices_fields demo_draft_def demo_inv_def demo_reg_def)

lemma demo_checks: "\<exists>vs. wValidate demo_world n v False = Inr (vs, False)"
  by (simp add: demo_world_def)

lemma demo_lifecycle: "\<exists>st'. wfNRSEinvoice demo_world ''i1'' (demo_state demo_invoices) = (st', Inr ())"
  using lifecycle_completes [OF demo_healthy demo_ready] demo_checks by (simp add: demo_draft_def demo_inv_def)

lemma demo_first:
  "\<exists>rs' rep. handleNRSCreate demo_world (\<lambda>_. []) ''u1'' ''2026-02-01'' {} demo_rq ''{}'' '''' (Some demo_inv) (demo_runner, demo_state empty_store) = (rs', Reply 201 rep)"
proof -
  let ?d = "nrs_draft (\<lambda>_. []) ''u1'' ''2026-02-01'' demo_rq ''{}'' demo_inv"
  have f: "InvoiceNumber ?d = ''INV7''" "IssueDate ?d = ''2026-01-15''" "BusinessID ?d = ''BIZ''" "IRN ?d = ''''"
    by (simp_all add: nrs_draft_def demo_inv_def Let_def)
  show ?thesis
    by (rule submission_confirmed [OF demo_healthy, where d = ?d and sid = "''ABCD1234''" and irn = "''INV7-ABCD1234-20260115''"])
      (use store_ok_New [of "[]"] demo_irn demo_trims demo_checks f in
        \<open>simp_all add: demo_state_def demo_reg_def demo_world_def NewInvoiceStore_def load_def empty_store_def\<close>)
qed

text \<open>A stored, confirmed invoice of the tenant, and a patch of its payment status.\<close>

definition demo_signed :: CanonicalInvoice where
  "demo_signed = demo_draft\<lparr>IRN := ''INV7-ABCD1234-20260115'', ciStatus := ''confirmed''\<rparr>"

definition demo_patch :: patch where
  "demo_patch = \<lparr>pKeys = [''payment_status''], pPaymentStatus = ''PAID'', pReference = ''''\<rparr>"

lemma demo_signed_store:
  "byID (NewInvoiceStore [demo_signed]) = [''i1'' \<mapsto> demo_signed]" "byIRN (NewInvoiceStore [demo_signed]) = [''INV7-ABCD1234-20260115'' \<mapsto> ''i1'']"
  "GetByIRN ''INV7-ABCD1234-20260115'' (NewInvoiceStore [demo_signed]) = Some demo_signed" "dated (NewInvoiceStore [demo_signed])"
  "keyed_in (NewInvoiceStore [demo_signed]) demo_signed"
  by (simp_all add: NewInvoiceStore_def load_def empty_store_def index_def demo_signed_def demo_draft_def demo_inv_def GetByIRN_def dated_def keyed_in_def)

lemma demo_update:
  "\<exists>u. byID (wsStore (snd (fst (handleNRSUpdate demo_world ''now'' (Some demo_claims) ''INV7-ABCD1234-20260115'' (Inr demo_patch)
     (demo_runner, demo_state (NewInvoiceStore [demo_signed])))))) ''i1'' = Some u \<and> PaymentStatus u = ''PAID''"
proof -
  let ?st = "demo_state (NewInvoiceStore [demo_signed])"
  let ?v = "apply_patch ''now'' ''ada'' demo_patch demo_signed"
  have kv: "keyed_in (wsStore ?st) ?v" using demo_signed_store(5) by (simp add: keyed_in_def idem_key_def apply_patch_def Let_def demo_state_def)
  obtain st1 where s: "save_with demo_world ?v ?st = (st1, '''', None)" using disk_save [OF demo_disk keyed_no_refusal [OF kv]] by blast
  have st: "\<exists>n. byID (wsStore st1) ''i1'' = Some (stamp_times n ?v)" using s
    by (cases rule: save_with_cases) (auto simp: apply_patch_def demo_signed_def demo_draft_def Let_def)
  have pay: "PaymentStatus (stamp_times n ?v) = ''PAID''" for n
    by (simp add: stamp_times_def apply_patch_def demo_patch_def ToUpper_def upper_char_def Let_def)
  have f: "ValidPaymentStatus ''PAID''" "Sub demo_claims = ''ada''" "pKeys demo_patch = [''payment_status'']" "pPaymentStatus demo_patch = ''PAID''"
    by (simp_all add: ValidPaymentStatus_def TrimSpace_printable printable_def PaymentStatuses_def ToUpper_def upper_char_def demo_claims_def demo_patch_def)
  have "may_access (Some demo_claims) demo_signed" by (simp add: may_access_def demo_claims_def demo_signed_def demo_draft_def demo_inv_def)
  note g = tenantGuard_pass [OF this]
  have b: "GetByIRN ''INV7-ABCD1234-20260115'' (wsStore ?st) = Some demo_signed" by (simp add: demo_state_def demo_signed_store)
  have "fst (handleNRSUpdate demo_world ''now'' (Some demo_claims) ''INV7-ABCD1234-20260115'' (Inr demo_patch) (demo_runner, ?st)) =
      (demo_runner, fst (emit demo_world ''nrs.einvoice.payment_status.v1'' st1))"
    by (simp add: handleNRSUpdate_def Let_def b g f s)
  moreover have "wsStore (fst (emit demo_world ''nrs.einvoice.payment_status.v1'' st1)) = wsStore st1"
    using emit_frame [of demo_world "''nrs.einvoice.payment_status.v1''" st1] by (metis prod.collapse)
  ultimately show ?thesis using st pay by fastforce
qed


text \<open>A draft of the tenant with the number and date of the confirmed invoice.\<close>

definition demo_twin :: CanonicalInvoice where
  "demo_twin = demo_draft\<lparr>ciID := ''i2''\<rparr>"

lemma demo_twin_facts:
  defines "st \<equiv> demo_state (NewInvoiceStore [demo_signed, demo_twin])"
  shows "settled_in (wsStore st) demo_twin" "keyed_in (wsStore st) demo_twin" "IRN demo_twin = ''''" "TrimSpace (BusinessID demo_twin) \<noteq> ''''"
    "wsReg st (BusinessID demo_twin) = Some ''ABCD1234''" "BuildIRN (InvoiceNumber demo_twin) ''ABCD1234'' (IssueDate demo_twin) = Inr ''INV7-ABCD1234-20260115''"
    "byIRN (wsStore st) ''INV7-ABCD1234-20260115'' = Some (ciID demo_signed)" "byID (wsStore st) (ciID demo_signed) = Some demo_signed"
    "ciID demo_signed \<noteq> ciID demo_twin" "ciID demo_twin = ''i2''"
  using demo_irn demo_trims
  by (simp_all add: st_def demo_state_def demo_reg_def settled_in_def keyed_in_def NewInvoiceStore_def load_def empty_store_def index_def
      demo_twin_def demo_signed_def demo_draft_def demo_inv_def)

text \<open>The sandbox rail with a fixed clock.\<close>

definition demo_rail :: APPRouter where
  "demo_rail = sandbox_router (wDigests demo_world) (\<lambda>p. ''stamp'') (\<lambda>_. ''2026-01-15T10:00:00Z'') (\<lambda>_. 0)"

lemma BuildIRN_demo_sandbox: "BuildIRN ''INV7'' sandboxServiceID ''2026-01-15'' = Inr ''INV7-MBSSIM01-20260115''"
  by (simp add: BuildIRN_def DateStamp_def TrimSpace_printable printable_def sandboxServiceID_def ValidServiceID_def isAlnum_def isDigit_def parseYMD_def
      read_nat_def digit_val_def daysIn_def isLeap_def)

lemma demo_preclear: "\<exists>st'. wfMBSPreclearance demo_world (\<lambda>_. Some ''<xml/>'') demo_rail ''i1'' (demo_state demo_invoices) = (st', Inr ())"
proof -
  have g: "GetInvoice ''i1'' (wsStore (demo_state demo_invoices)) = Some demo_draft" by (simp add: GetInvoice_def demo_state_def demo_invoices_fields)
  let ?st0 = "(demo_state demo_invoices)\<lparr>wsInv := demo_draft\<rparr>"
  obtain s1 d1 where a1: "act_validate demo_world ?st0 = (s1, Inr d1)" "wsStore s1 = demo_invoices" "wsInv s1 = demo_draft\<lparr>Validation := []\<rparr>"
    by (simp add: act_validate_def demo_world_def Let_def demo_state_def)
  let ?s1 = "rec_step ''validate'' 1 ''ok'' d1 s1"
  obtain s2 d2 where a2: "act_csid demo_world ?s1 = (s2, Inr d2)" "wsStore s2 = demo_invoices"
      "wsInv s2 = demo_draft\<lparr>Validation := [], CSIDSignature := ''sig'', CSIDKeyID := ''csid-1''\<rparr>"
    using a1 by (simp add: act_csid_def sign_invoice_def demo_world_def)
  let ?s2 = "rec_step ''csid-sign'' 1 ''ok'' d2 s2"
  obtain s3 d3 where a3: "act_ubl (\<lambda>_. Some ''<xml/>'') ?s2 = (s3, Inr d3)" "wsStore s3 = demo_invoices"
      "wsInv s3 = demo_draft\<lparr>Validation := [], CSIDSignature := ''sig'', CSIDKeyID := ''csid-1'', UBLXML := ''<xml/>''\<rparr>"
    using a2 by (simp add: act_ubl_def)
  let ?s3 = "rec_step ''ubl-map'' 1 ''ok'' d3 s3"
  let ?res = "snd (SandboxPreclear (wDigests demo_world) (\<lambda>p. ''stamp'') ''2026-01-15T10:00:00Z'' (wsInv s3) 0)"
  have "\<not> ValidServiceID ''''" by (simp add: ValidServiceID_def)
  then have res: "crStatus ?res = ''cleared''"
    using BuildIRN_demo_sandbox by (simp add: SandboxPreclear_def a3 demo_draft_def demo_inv_def Let_def)
  obtain s4 d4 where a4: "act_submit demo_rail ?s3 = (s4, Inr d4)" "wsStore s4 = demo_invoices" "wsInv s4 = wsInv s3" "wsResult s4 = Some ?res"
    using res by (simp add: act_submit_def demo_rail_def sandbox_routes a3 Let_def)
  let ?s4 = "rec_step ''mbs-submit'' 1 ''ok'' d4 s4"
  let ?s5 = "upd_inv (\<lambda>v. v\<lparr>IRN := crIRN ?res, ciStamp := crStamp ?res, ciStatus := ''precleared''\<rparr>) ?s4"
  have "keyed_in (wsStore ?s5) (wsInv ?s5)" by (simp add: keyed_in_def a4 a3 demo_draft_def demo_inv_def)
  then obtain s5 where sv: "save_inv demo_world ?s5 = (s5, None)"
    using disk_save [OF demo_disk keyed_no_refusal, of ?s5 "wsInv ?s5"] by (auto simp: save_with_def save_inv_def split: prod.splits)
  obtain s6 d6 where a5: "act_record demo_world ?s4 = (s6, Inr d6)"
    using sv by (simp add: act_record_def a4 emit_def demo_world_def split: prod.splits)
  show ?thesis
    by (simp add: wfMBSPreclearance_def g retry_first [where fn = "act_validate demo_world", OF a1(1)] retry_first [where fn = "act_csid demo_world", OF a2(1)]
        retry_first [where fn = "act_ubl (\<lambda>_. Some ''<xml/>'')", OF a3(1)] retry_first [where fn = "act_submit demo_rail", OF a4(1)]
        retry_first [where fn = "act_record demo_world", OF a5] del: One_nat_def)
qed

end
