(* ===== verification/Einv_Properties.thy ===== *)
theory Einv_Properties
  imports Einv_Demo
begin

text \<open>
  The properties of the e-invoicing service that concern submissions: the lifecycle of an invoice,
  retries, tenants, payment updates and pre-clearance. Each comes with a concrete instance on the
  service of \<open>Einv_Demo\<close>.
\<close>

section \<open>The lifecycle\<close>

text \<open>C2. A submission that the service answers with 201, repeated with the same idempotency key within the replay window,
  is answered with 200 and the same record, and the store does not change: an invoice is issued once.\<close>

theorem submission_exactly_once:
  assumes "handleNRSCreate w res ulid today inflight rq body '''' (Some v0) rs = (rs1, Reply 201 rep1)" "store_ok (wsStore (snd rs))"
    and "handleNRSCreate w' res ulid' today' inflight' rq body '''' (Some v0) rs1 = (rs2, resp)"
    and "rqIdempotencyKey rq \<noteq> ''''" "ciID v0 = ''''" "IssueDate v0 \<noteq> ''''" "ulid \<noteq> ''''" "ulid' \<noteq> ulid"
    and "wDigests w' = wDigests w" "hookFault (wSave w' (tick (snd rs1))) = None"
      "\<not> idemMappingExpired (nrInvoice rep1) (saveNow (wSave w' (tick (snd rs1))))"
  shows "wsStore (snd rs2) = wsStore (snd rs1) \<and> (\<exists>rep2. resp = Reply 200 rep2 \<and> nrInvoice rep2 = nrInvoice rep1)"
  using assms by (rule nrs_retry)

theorem submission_exactly_once_witness:
  "\<exists>rs1 rep1 rs2 rep2. handleNRSCreate demo_world (\<lambda>_. []) ''u1'' ''2026-02-01'' {} demo_rq ''{}'' '''' (Some demo_inv) (demo_runner, demo_state empty_store) = (rs1, Reply 201 rep1) \<and>
     handleNRSCreate demo_world (\<lambda>_. []) ''u2'' ''2026-02-02'' {} demo_rq ''{}'' '''' (Some demo_inv) rs1 = (rs2, Reply 200 rep2) \<and>
     nrInvoice rep2 = nrInvoice rep1 \<and> wsStore (snd rs2) = wsStore (snd rs1)"
proof -
  obtain rs1 rep1 where f: "handleNRSCreate demo_world (\<lambda>_. []) ''u1'' ''2026-02-01'' {} demo_rq ''{}'' '''' (Some demo_inv) (demo_runner, demo_state empty_store) = (rs1, Reply 201 rep1)"
    using demo_first by blast
  have ok: "store_ok (wsStore (snd (demo_runner, demo_state empty_store)))"
    using store_ok_New [of "[]"] by (simp add: demo_state_def NewInvoiceStore_def load_def empty_store_def)
  obtain rs2 resp where s: "handleNRSCreate demo_world (\<lambda>_. []) ''u2'' ''2026-02-02'' {} demo_rq ''{}'' '''' (Some demo_inv) rs1 = (rs2, resp)" by fastforce
  have "CreatedAt (nrInvoice rep1) = Some 0"
    using nrs_created [OF f ok] by (simp add: demo_world_def demo_save_env_def nrs_draft_def demo_inv_def Let_def)
  then have live: "\<not> idemMappingExpired (nrInvoice rep1) (saveNow (wSave demo_world (tick (snd rs1))))"
    by (simp add: idemMappingExpired_def demo_world_def demo_save_env_def idempotencyTTL_def)
  have "wsStore (snd rs2) = wsStore (snd rs1) \<and> (\<exists>rep2. resp = Reply 200 rep2 \<and> nrInvoice rep2 = nrInvoice rep1)"
    by (rule submission_exactly_once [OF f ok s _ _ _ _ _ _ _ live]) (simp_all add: demo_rq_def demo_inv_def demo_world_def demo_save_env_def)
  then show ?thesis using f s by blast
qed

text \<open>C8. In surroundings that answer (disk, signer, webhooks and event bus), a stored draft with a trimmed number and a valid date, of a registered business,
  whose IRN is free, whose payload passes the schema and which the validator passes without a fatal violation, is driven to confirmation: all eight steps are
  run in order and recorded as successful, and the stored invoice is confirmed, with the core of the draft locked by its hash, found under the IRN that was
  free, while no other invoice is touched.\<close>

theorem lifecycle_finishes:
  assumes "healthy w" "ready (wsStore st) (wsReg st) v0 sid irn" "NRSPayload v0 = '''' \<or> wSchema w (NRSPayload v0) = None"
    and "\<And>n v. core_of v = core_of v0 \<Longrightarrow> \<exists>vs. wValidate w n v False = Inr (vs, False)" "wsSteps st = []"
  shows "\<exists>st' v. wfNRSEinvoice w (ciID v0) st = (st', Inr ()) \<and>
     map stepName (wsSteps st') = [''1-create-store'', ''2-irn-generate'', ''3-irn-validate'', ''4-irn-sign'', ''5-schema-validate'', ''6-invoice-sign'', ''7-transmit'', ''8-confirm''] \<and>
     (\<forall>s\<in>set (wsSteps st'). stepStatus s = ''ok'') \<and>
     byID (wsStore st') (ciID v0) = Some v \<and> ciStatus v = ''confirmed'' \<and> core_of v = core_of v0 \<and> SignedCoreHash v = CoreHash (wDigests w) v \<and>
     IRN v = irn \<and> byIRN (wsStore st') irn = Some (ciID v0) \<and> (\<forall>j. j \<noteq> ciID v0 \<longrightarrow> byID (wsStore st') j = byID (wsStore st) j)"
proof -
  obtain st' where r: "wfNRSEinvoice w (ciID v0) st = (st', Inr ())" using lifecycle_completes [OF assms(1-4)] by blast
  have "store_ok (wsStore st)" "byID (wsStore st) (ciID v0) = Some v0" using assms(2) by (simp_all add: ready_def settled_in_def)
  from lifecycle_final [OF r this] lifecycle_irn [OF assms(2) r] lifecycle_recorded [OF r assms(5)] show ?thesis
    using r by (auto simp: nrs_step_names_def)
qed

theorem lifecycle_finishes_witness:
  "\<exists>st' v. wfNRSEinvoice demo_world ''i1'' (demo_state demo_invoices) = (st', Inr ()) \<and> length (wsSteps st') = 8 \<and>
     byID (wsStore st') ''i1'' = Some v \<and> ciStatus v = ''confirmed'' \<and> IRN v = ''INV7-ABCD1234-20260115''"
proof -
  have s: "wsSteps (demo_state demo_invoices) = []" by (simp add: demo_state_def)
  have i: "ciID demo_draft = ''i1''" by (simp add: demo_draft_def demo_inv_def)
  have c: "NRSPayload demo_draft = '''' \<or> wSchema demo_world (NRSPayload demo_draft) = None"
    by (simp add: demo_draft_def demo_inv_def)
  obtain st' v where r: "wfNRSEinvoice demo_world ''i1'' (demo_state demo_invoices) = (st', Inr ())"
     "length (map stepName (wsSteps st')) = 8" "byID (wsStore st') ''i1'' = Some v" "ciStatus v = ''confirmed''" "IRN v = ''INV7-ABCD1234-20260115''"
    using lifecycle_finishes [OF demo_healthy demo_ready c demo_checks s] i by auto
  then show ?thesis by auto
qed

text \<open>C4. A lifecycle run that succeeds, whatever failed on the way, leaves the invoice confirmed, with its core unchanged and locked by
  its hash, under a well-formed IRN that nobody else had, and no other invoice touched.\<close>

theorem lifecycle_confirms:
  assumes "wfNRSEinvoice w i st = (st', Inr u)" "store_ok (wsStore st)" "byID (wsStore st) i = Some v0"
  shows "\<exists>v. byID (wsStore st') i = Some v \<and> ciStatus v = ''confirmed'' \<and> core_of v = core_of v0 \<and> SignedCoreHash v = CoreHash (wDigests w) v \<and>
     (\<exists>num sid ds. ParseIRN (IRN v) = Inr (num, sid, ds) \<and> num = InvoiceNumber v \<and> DateStamp (IssueDate v) = Inr ds) \<and>
     (byIRN (wsStore st) (IRN v) = None \<or> byIRN (wsStore st) (IRN v) = Some i) \<and> byIRN (wsStore st') (IRN v) = Some i \<and>
     (\<forall>j. j \<noteq> i \<longrightarrow> byID (wsStore st') j = byID (wsStore st) j)"
  using lifecycle_final [OF assms] by (auto simp: irn_good_def)

theorem lifecycle_confirms_witness:
  "\<exists>st' v. wfNRSEinvoice demo_world ''i1'' (demo_state demo_invoices) = (st', Inr ()) \<and> byID (wsStore st') ''i1'' = Some v \<and> ciStatus v = ''confirmed''"
proof -
  obtain st' where r: "wfNRSEinvoice demo_world ''i1'' (demo_state demo_invoices) = (st', Inr ())" using demo_lifecycle by blast
  have "store_ok (wsStore (demo_state demo_invoices))" "byID (wsStore (demo_state demo_invoices)) ''i1'' = Some demo_draft"
    by (simp_all add: demo_state_def demo_invoices_fields)
  from lifecycle_confirms [OF r this] r show ?thesis by blast
qed

text \<open>C14. Whatever the surroundings answer, and whether the run succeeds or fails, the lifecycle keeps the core, tenant, idempotency key and
  creation time of its invoice, leaves every other invoice as it was and the indexes consistent.\<close>

theorem lifecycle_keeps_core:
  assumes "byID (wsStore st) i = Some v0" "CreatedAt v0 \<noteq> None" "store_ok (wsStore st)" "wfNRSEinvoice w i st = (st', x)"
  shows "store_ok (wsStore st') \<and> (\<forall>j. j \<noteq> i \<longrightarrow> byID (wsStore st') j = byID (wsStore st) j) \<and>
     (\<exists>v. byID (wsStore st') i = Some v \<and> core_of v = core_of v0 \<and> ciTenantID v = ciTenantID v0 \<and>
        ciIdempotencyKey v = ciIdempotencyKey v0 \<and> CreatedAt v = CreatedAt v0)"
proof -
  have id: "ciID v0 = i" using assms(1,3) by (simp add: store_ok_def)
  have "settled_in (wsStore st) v0" using assms(1,2) id by (simp add: settled_in_def)
  from lifecycle_framed [OF this, of w] have f: "holds (framed (wsStore st) v0) st'" using assms(4) id by simp
  then obtain v where "byID (wsStore st') i = Some v" "fixed_part v = fixed_part v0" using id by (auto simp: framed_def)
  then show ?thesis using f assms(3) id fixed_partD [of v v0] by (auto simp: framed_def)
qed

theorem lifecycle_keeps_core_witness:
  "\<exists>v. byID (wsStore (fst (wfNRSEinvoice (demo_world\<lparr>wSign := \<lambda>_ _. None\<rparr>) ''i1'' (demo_state demo_invoices)))) ''i1'' = Some v \<and> core_of v = core_of demo_draft"
proof -
  have "byID (wsStore (demo_state demo_invoices)) ''i1'' = Some demo_draft" "CreatedAt demo_draft \<noteq> None" "store_ok (wsStore (demo_state demo_invoices))"
    by (simp_all add: demo_state_def demo_invoices_fields demo_draft_def)
  from lifecycle_keeps_core [OF this, of "demo_world\<lparr>wSign := \<lambda>_ _. None\<rparr>"] show ?thesis by (metis prod.collapse)
qed


text \<open>However the drivers of the lifecycle interleave, at most one of them is inside the workflow of an invoice, and the in-flight set
  lists exactly those invoices.\<close>

theorem one_driver_per_invoice:
  assumes "guard_step\<^sup>*\<^sup>* \<lparr>resumeInFlight = {}, gActive = (\<lambda>_. 0)\<rparr> g"
  shows "gActive g i \<le> 1 \<and> (gActive g i = 1 \<longleftrightarrow> i \<in> resumeInFlight g)"
  using guard_exclusive [OF assms, of i] by simp

theorem one_driver_per_invoice_witness:
  "\<exists>g. guard_step\<^sup>*\<^sup>* \<lparr>resumeInFlight = {}, gActive = (\<lambda>_. 0)\<rparr> g \<and> ''i1'' \<in> resumeInFlight g \<and> gActive g ''i1'' = 1"
proof -
  let ?g = "\<lparr>resumeInFlight = {''i1''}, gActive = (\<lambda>_. 0)(''i1'' := 1)\<rparr>"
  have "guard_step \<lparr>resumeInFlight = {}, gActive = (\<lambda>_. 0)\<rparr> ?g"
    using guard_step.enter [of "''i1''" "\<lparr>resumeInFlight = {}, gActive = (\<lambda>_. 0)\<rparr>"] by simp
  then have r: "guard_step\<^sup>*\<^sup>* \<lparr>resumeInFlight = {}, gActive = (\<lambda>_. 0)\<rparr> ?g" by (rule r_into_rtranclp)
  from one_driver_per_invoice [OF r, of "''i1''"] r show ?thesis by (intro exI [of _ ?g]) simp
qed

section \<open>Tenants\<close>

text \<open>C15. Whatever a submission names, by IRN, by idempotency key or by a new payload, the invoice in the answer belongs to the tenant
  of the caller or to none.\<close>

theorem submission_stays_in_tenant:
  assumes "handleNRSCreate w res ulid today inflight rq body irn conv rs = (rs', Reply k rep)" "rqClaims rq = Some c"
    and "store_ok (wsStore (snd rs))" "dated (wsStore (snd rs))"
  shows "ciTenantID (nrInvoice rep) = '''' \<or> ciTenantID (nrInvoice rep) = TenantID c"
  using nrs_create_access [OF assms(1,3,4)] assms(2) by (simp add: may_access_def)

theorem submission_stays_in_tenant_witness:
  "\<exists>rs1 rep. handleNRSCreate demo_world (\<lambda>_. []) ''u1'' ''2026-02-01'' {} demo_rq ''{}'' '''' (Some demo_inv) (demo_runner, demo_state empty_store) = (rs1, Reply 201 rep) \<and>
     (ciTenantID (nrInvoice rep) = '''' \<or> ciTenantID (nrInvoice rep) = ''t1'')"
proof -
  obtain rs1 rep where f: "handleNRSCreate demo_world (\<lambda>_. []) ''u1'' ''2026-02-01'' {} demo_rq ''{}'' '''' (Some demo_inv) (demo_runner, demo_state empty_store) = (rs1, Reply 201 rep)"
    using demo_first by blast
  have "rqClaims demo_rq = Some demo_claims" "store_ok (wsStore (snd (demo_runner, demo_state empty_store)))"
    "dated (wsStore (snd (demo_runner, demo_state empty_store)))"
    using store_ok_New [of "[]"] by (simp_all add: demo_rq_def demo_state_def NewInvoiceStore_def load_def empty_store_def dated_def)
  from submission_stays_in_tenant [OF f this] f show ?thesis by (simp add: demo_claims_def)
qed

text \<open>C26. A payment update changes at most the invoice with that IRN, only when the caller may see it, and of it only the payment
  status and reference, the update time and one more audit entry: nothing that was signed.\<close>

theorem update_only_payment:
  assumes "handleNRSUpdate w now ctx irn body rs = (rs', resp)" "store_ok (wsStore (snd rs))"
    and "byID (wsStore (snd rs')) i \<noteq> byID (wsStore (snd rs)) i"
  shows "\<exists>v v'. GetByIRN irn (wsStore (snd rs)) = Some v \<and> ciID v = i \<and> may_access ctx v \<and> byID (wsStore (snd rs')) i = Some v' \<and>
    core_of v' = core_of v \<and> IRN v' = IRN v \<and> SignedCoreHash v' = SignedCoreHash v \<and> CSIDSignature v' = CSIDSignature v \<and>
    ciStatus v' = ciStatus v \<and> ciTenantID v' = ciTenantID v \<and> length (Audit v') = length (Audit v) + 1"
proof -
  obtain v v' where v: "byID (wsStore (snd rs)) i = Some v" "byID (wsStore (snd rs')) i = Some v'" "GetByIRN irn (wsStore (snd rs)) = Some v"
    "may_access ctx v" "signed_part v' = signed_part v" "length (Audit v') = length (Audit v) + 1"
    using update_frame [OF assms(1,2), of i] assms(3) by auto
  have "ciID v = i" using v(1) assms(2) by (simp add: store_ok_def)
  moreover have "core_of (signed_part u) = core_of u" "IRN (signed_part u) = IRN u" "SignedCoreHash (signed_part u) = SignedCoreHash u"
    "CSIDSignature (signed_part u) = CSIDSignature u" "ciStatus (signed_part u) = ciStatus u" "ciTenantID (signed_part u) = ciTenantID u" for u
    by (simp_all add: signed_part_def core_of_def)
  ultimately show ?thesis using v by metis
qed

theorem update_only_payment_witness:
  "\<exists>rs' resp v'. handleNRSUpdate demo_world ''now'' (Some demo_claims) ''INV7-ABCD1234-20260115'' (Inr demo_patch)
       (demo_runner, demo_state (NewInvoiceStore [demo_signed])) = (rs', resp) \<and>
     byID (wsStore (snd rs')) ''i1'' = Some v' \<and> PaymentStatus v' = ''PAID'' \<and> core_of v' = core_of demo_signed"
proof -
  obtain rs' resp where r: "handleNRSUpdate demo_world ''now'' (Some demo_claims) ''INV7-ABCD1234-20260115'' (Inr demo_patch)
       (demo_runner, demo_state (NewInvoiceStore [demo_signed])) = (rs', resp)" by fastforce
  have ok: "store_ok (wsStore (snd (demo_runner, demo_state (NewInvoiceStore [demo_signed]))))" by (simp add: demo_state_def store_ok_New)
  obtain u where u: "byID (wsStore (snd rs')) ''i1'' = Some u" "PaymentStatus u = ''PAID''" using demo_update r by auto
  have "byID (wsStore (snd rs')) ''i1'' \<noteq> byID (wsStore (snd (demo_runner, demo_state (NewInvoiceStore [demo_signed])))) ''i1''"
    using u by (auto simp: demo_state_def demo_signed_store) (simp add: demo_signed_def demo_draft_def demo_inv_def)
  from update_only_payment [OF r ok this] u r demo_signed_store(3) show ?thesis by (auto simp: demo_state_def)
qed


section \<open>Pre-clearance\<close>

text \<open>C37. A pre-clearance run on the sandbox rail that succeeds leaves the invoice stored as precleared, with its core and tenant
  unchanged, under an IRN that spells its number and issue date, found under that IRN, stamped for that same IRN.\<close>

theorem preclearance_sound:
  assumes "wfMBSPreclearance w ubl (sandbox_router dg sign ts cnt) i st = (st', Inr u)" "byID (wsStore st) i = Some v0" "store_ok (wsStore st)"
  shows "\<exists>v sp sid ds. byID (wsStore st') i = Some v \<and> ciStatus v = ''precleared'' \<and> core_of v = core_of v0 \<and> ciTenantID v = ciTenantID v0 \<and>
     ParseIRN (IRN v) = Inr (TrimSpace (InvoiceNumber v0), sid, ds) \<and> DateStamp (IssueDate v0) = Inr ds \<and>
     byIRN (wsStore st') (IRN v) = Some i \<and> ciStamp v = Some sp \<and> stIRN sp = IRN v"
proof -
  have "ciID v0 = i" using assms(2,3) by (simp add: store_ok_def)
  with sandbox.preclearance_records [OF assms(1,2)] show ?thesis by (auto simp: recorded_def irn_for_def)
qed

theorem preclearance_sound_witness:
  "\<exists>st' v. wfMBSPreclearance demo_world (\<lambda>_. Some ''<xml/>'') demo_rail ''i1'' (demo_state demo_invoices) = (st', Inr ()) \<and>
     byID (wsStore st') ''i1'' = Some v \<and> ciStatus v = ''precleared''"
proof -
  obtain st' where r: "wfMBSPreclearance demo_world (\<lambda>_. Some ''<xml/>'') demo_rail ''i1'' (demo_state demo_invoices) = (st', Inr ())"
    using demo_preclear by blast
  have "byID (wsStore (demo_state demo_invoices)) ''i1'' = Some demo_draft" "store_ok (wsStore (demo_state demo_invoices))"
    by (simp_all add: demo_state_def demo_invoices_fields)
  from preclearance_sound [OF r [unfolded demo_rail_def] this] r show ?thesis by blast
qed

section \<open>Where the service falls short\<close>

text \<open>A second invoice with the number and date of a confirmed one is refused by the lifecycle, and the refusal stores it under
  the IRN of the first: from then on the IRN finds the failed invoice instead of the confirmed one.\<close>

theorem refused_duplicate_takes_over_irn:
  assumes "disk_ok w" "settled_in (wsStore st) v0" "keyed_in (wsStore st) v0" "IRN v0 = ''''"
    and "TrimSpace (BusinessID v0) \<noteq> ''''" "wsReg st (BusinessID v0) = Some sid" "BuildIRN (InvoiceNumber v0) sid (IssueDate v0) = Inr irn"
    and "byIRN (wsStore st) irn = Some (ciID old)" "byID (wsStore st) (ciID old) = Some old" "ciID old \<noteq> ciID v0"
    and "wfNRSEinvoice w (ciID v0) st = (st', x)"
  shows "\<not> is_ok x \<and> (\<exists>u. GetByIRN irn (wsStore st') = Some u \<and> ciID u = ciID v0 \<and> ciStatus u = ''failed'')"
  using assms by (rule duplicate_takes_irn)

theorem refused_duplicate_takes_over_irn_witness:
  "\<exists>u. GetByIRN ''INV7-ABCD1234-20260115'' (NewInvoiceStore [demo_signed, demo_twin]) = Some demo_signed \<and>
     GetByIRN ''INV7-ABCD1234-20260115'' (wsStore (fst (wfNRSEinvoice demo_world ''i2'' (demo_state (NewInvoiceStore [demo_signed, demo_twin]))))) = Some u \<and>
     ciID u = ''i2'' \<and> ciStatus u = ''failed''"
proof -
  let ?st = "demo_state (NewInvoiceStore [demo_signed, demo_twin])"
  obtain st' x where r: "wfNRSEinvoice demo_world (ciID demo_twin) ?st = (st', x)" by fastforce
  have s: "settled_in (wsStore ?st) demo_twin" "keyed_in (wsStore ?st) demo_twin" "IRN demo_twin = ''''" "TrimSpace (BusinessID demo_twin) \<noteq> ''''"
    "wsReg ?st (BusinessID demo_twin) = Some ''ABCD1234''" "BuildIRN (InvoiceNumber demo_twin) ''ABCD1234'' (IssueDate demo_twin) = Inr ''INV7-ABCD1234-20260115''"
    "byIRN (wsStore ?st) ''INV7-ABCD1234-20260115'' = Some (ciID demo_signed)" "byID (wsStore ?st) (ciID demo_signed) = Some demo_signed" "ciID demo_signed \<noteq> ciID demo_twin"
    using demo_twin_facts by blast+
  from refused_duplicate_takes_over_irn [OF demo_disk s r] r demo_twin_facts show ?thesis by (auto simp: GetByIRN_def demo_state_def)
qed

text \<open>The ingestion endpoint takes the id of an invoice from the payload: an invoice that is posted with the id of a stored one
  replaces it, also when the stored one belongs to another tenant.\<close>

theorem ingestion_replaces_any_id:
  assumes "disk_ok w" "rqIdempotencyKey rq = ''''" "ciID v0 \<noteq> ''''"
    and "\<And>v dup. \<exists>vs fatal. wValidate w (tick (snd rs)) v dup = Inr (vs, fatal)"
    and "handleCreateInvoice w res ulid today adapter rq (Inr [v0]) rs = (rs', resp)"
  shows "\<exists>u. byID (wsStore (snd rs')) (ciID v0) = Some u \<and> ciTenantID u = claim_tenant (rqClaims rq) \<and> InvoiceNumber u = InvoiceNumber v0"
  using assms by (rule create_replaces_any_id)

theorem ingestion_replaces_any_id_witness:
  "\<exists>u. byID demo_invoices ''i1'' = Some demo_draft \<and> ciTenantID demo_draft = ''t1'' \<and>
     byID (wsStore (snd (fst (handleCreateInvoice demo_world (\<lambda>_. []) (\<lambda>_. ''u9'') ''2026-02-01'' ''json'' \<lparr>rqClaims = Some (demo_claims\<lparr>TenantID := ''t2''\<rparr>), rqIdempotencyKey = ''''\<rparr>
       (Inr [demo_inv\<lparr>ciID := ''i1'', InvoiceNumber := ''X''\<rparr>]) (demo_runner, demo_state demo_invoices))))) ''i1'' = Some u \<and> ciTenantID u = ''t2'' \<and> InvoiceNumber u = ''X''"
proof -
  let ?rq = "\<lparr>rqClaims = Some (demo_claims\<lparr>TenantID := ''t2''\<rparr>), rqIdempotencyKey = ''''\<rparr>" and ?v = "demo_inv\<lparr>ciID := ''i1'', InvoiceNumber := ''X''\<rparr>"
  obtain rs' resp where r: "handleCreateInvoice demo_world (\<lambda>_. []) (\<lambda>_. ''u9'') ''2026-02-01'' ''json'' ?rq (Inr [?v]) (demo_runner, demo_state demo_invoices) = (rs', resp)" by fastforce
  have "rqIdempotencyKey ?rq = ''''" "ciID ?v \<noteq> ''''" by simp_all
  moreover have "\<exists>vs fatal. wValidate demo_world (tick (snd (demo_runner, demo_state demo_invoices))) v dup = Inr (vs, fatal)" for v dup
    by (auto simp: demo_world_def)
  moreover have "byID demo_invoices ''i1'' = Some demo_draft" "ciTenantID demo_draft = ''t1''" by (simp_all add: demo_invoices_fields) (simp add: demo_draft_def)
  ultimately show ?thesis
    using ingestion_replaces_any_id [OF demo_disk _ _ _ r] r by (auto simp: claim_tenant_def)
qed

end
