(* ===== verification/Einv_Data_Properties.thy ===== *)
theory Einv_Data_Properties
  imports Einv_Demo
begin

text \<open>
  The properties of the e-invoicing service that concern its data: reference numbers, the canonical
  form, the invoice store, the API keys, the webhook registry and the VAT dashboard.
\<close>

section \<open>Reference numbers and the canonical form\<close>

text \<open>C33. Parsing a built IRN gives back the trimmed number, the service id and the date stamp, and two invoices share a built IRN only
  when they agree on all three.\<close>

theorem irn_roundtrip:
  assumes "BuildIRN num sid date = Inr irn"
  shows "(\<exists>ds. DateStamp date = Inr ds \<and> ParseIRN irn = Inr (TrimSpace num, sid, ds)) \<and>
    (\<forall>n s d. BuildIRN n s d = Inr irn \<longrightarrow> TrimSpace n = TrimSpace num \<and> s = sid \<and> DateStamp d = DateStamp date)"
  using ParseIRN_BuildIRN [OF assms] BuildIRN_injective [OF _ assms] by blast

theorem irn_roundtrip_witness:
  "\<exists>ds. DateStamp ''2026-01-15'' = Inr ds \<and> ParseIRN ''INV7-ABCD1234-20260115'' = Inr (''INV7'', ''ABCD1234'', ds)"
  using irn_roundtrip [OF demo_irn] demo_trims(1) by simp

text \<open>Canonicalising an invoice twice is the same as once, whatever id and date the second run would use, and an invoice that comes
  without totals gets totals that agree with its lines.\<close>

theorem normalise_stable:
  assumes "ulid \<noteq> ''''" "today \<noteq> ''''"
  shows "Normalise res ulid' today' (Normalise res ulid today iv) = Normalise res ulid today iv \<and>
    (TaxExclusiveKobo iv = 0 \<longrightarrow> PayableKobo iv = 0 \<longrightarrow> TotalsConsistent (Normalise res ulid today iv))"
  using Normalise_idem [OF assms] Normalise_consistent by blast

theorem normalise_stable_witness:
  "Normalise (\<lambda>_. []) ''u2'' ''2026-02-02'' (Normalise (\<lambda>_. []) ''u1'' ''2026-02-01'' demo_inv) = Normalise (\<lambda>_. []) ''u1'' ''2026-02-01'' demo_inv \<and>
   TotalsConsistent (Normalise (\<lambda>_. []) ''u1'' ''2026-02-01'' (demo_inv\<lparr>TaxExclusiveKobo := 0, PayableKobo := 0\<rparr>))"
proof -
  have u: "''u1'' \<noteq> ''''" "''2026-02-01'' \<noteq> ''''" by simp_all
  have z: "TaxExclusiveKobo (demo_inv\<lparr>TaxExclusiveKobo := 0, PayableKobo := 0\<rparr>) = 0" "PayableKobo (demo_inv\<lparr>TaxExclusiveKobo := 0, PayableKobo := 0\<rparr>) = 0" by simp_all
  from normalise_stable [OF u] z show ?thesis by blast
qed

section \<open>The store\<close>

text \<open>C32. After any sequence of saves none of which was written to the log without being acknowledged, a restart rebuilds the invoices, their order and the
  IRN and duplicate indexes exactly, and loses no idempotency key.\<close>

theorem invoices_survive_restart:
  assumes "\<forall>(env, iv)\<in>set ops. clean_env env"
  shows "let s = fst (save_run dg ops (NewInvoiceStore lg)); t = NewInvoiceStore (invLog s)
    in byID t = byID s \<and> byIRN t = byIRN s \<and> bySuppNum t = bySuppNum s \<and> isOrder t = isOrder s \<and> byIdemKey s \<subseteq>\<^sub>m byIdemKey t"
  using in_step_run [OF in_step_New assms] by (simp add: in_step_def Let_def)

theorem invoices_survive_restart_witness:
  "let s = fst (save_run (coNumber, \<lambda>(n, _). n) [(demo_save_env, demo_draft), (demo_save_env\<lparr>writeOk := False\<rparr>, demo_twin)] (NewInvoiceStore []))
    in byID s ''i1'' \<noteq> None \<and> byID (NewInvoiceStore (invLog s)) = byID s"
proof -
  let ?ops = "[(demo_save_env, demo_draft), (demo_save_env\<lparr>writeOk := False\<rparr>, demo_twin)]"
  have "byID (fst (save_run (coNumber, \<lambda>(n, _). n) ?ops (NewInvoiceStore []))) ''i1'' \<noteq> None"
    by (simp add: SaveCtx_def idem_refusal_def demo_save_env_def demo_draft_def demo_twin_def demo_inv_def NewInvoiceStore_def load_def empty_store_def
        index_def stamp_times_def Let_def)
  moreover have "\<forall>(env, iv)\<in>set ?ops. clean_env env" by (simp add: clean_env_def demo_save_env_def)
  ultimately show ?thesis using invoices_survive_restart [of ?ops "(coNumber, \<lambda>(n, _). n)" "[]"] by (simp add: Let_def)
qed





section \<open>API keys\<close>

text \<open>A new key is accepted for its tenant at once, also after a restart, and is refused from the moment of its revocation, on
  any clock and whether or not the usage stamp can be written.\<close>

theorem api_key_life:
  assumes "keys_ok s" "CreateKey sha (Some buf) idRnd now True t n a s = (s1, Inr (k, plain))" "4 \<le> length buf"
    and "get_key s (akID k) = None" "bytes (sha plain)" "unused sha plain s"
    and "Revoke now2 ok2 t (akID k) s1 = (s2, r)"
  shows "(\<exists>s' k'. VerifyKey sha now' ok' plain s1 = Some (s', Some k') \<and> akID k' = akID k \<and> akTenantID k' = t) \<and>
    get_key (NewAPIKeyStore (keyFile s1)) = get_key s1 \<and> r \<noteq> Inl KeyNotExist \<and> VerifyKey sha now'' ok'' plain s2 = Some (s2, None)"
proof -
  have c: "keys_ok s1" "get_key s1 = (get_key s)(akID k \<mapsto> k)" using keys_ok_Create [OF assms(1,2,4)] by blast+
  have t: "akTenantID k = t" "s1 = persistLocked True (load_key k s)"
    using assms(2) by (auto simp: CreateKey_def Let_def split: option.splits prod.splits)
  have r: "r \<noteq> Inl KeyNotExist" using assms(7) c(2) t(1) by (auto simp: Revoke_def Let_def split: if_splits)
  have "keys_ok (load_key k s)" by (rule keys_ok_load [OF assms(1,4)])
  then have "get_key (NewAPIKeyStore (keyFile s1)) = get_key s1" using restart_keys unfolding t(2) by fastforce
  moreover have "VerifyKey sha now'' ok'' plain s2 = Some (s2, None)"
    by (rule revoke_kills [OF c(1) assms(7) r]) (use assms(6) c(2) in \<open>auto simp: unused_def split: if_splits\<close>)
  ultimately show ?thesis using create_verifies [OF assms(1-6)] r by blast
qed

text \<open>A hash for the instances.\<close>

definition demo_sha :: "string \<Rightarrow> nat list" where
  "demo_sha = map of_char"

lemma demo_sha_bytes [simp]: "bytes (demo_sha p)"
  using nat_of_char_less_256 by (simp add: bytes_def demo_sha_def list_all_iff)

definition demo_keys :: "APIKeyStore" where
  "demo_keys = NewAPIKeyStore []"

lemma demo_keys_ok: "keys_ok demo_keys" "get_key demo_keys i = None" "unused demo_sha p demo_keys"
  by (simp_all add: keys_ok_def demo_keys_def NewAPIKeyStore_def unused_def)

theorem api_key_life_witness:
  "\<exists>s1 k plain s2 r s' k'. CreateKey demo_sha (Some [1, 2, 3, 4]) (Some [7]) 0 True ''t1'' ''pos'' ''ada'' demo_keys = (s1, Inr (k, plain)) \<and>
     Revoke 5 True ''t1'' (akID k) s1 = (s2, r) \<and>
     VerifyKey demo_sha 1 True plain s1 = Some (s', Some k') \<and> akTenantID k' = ''t1'' \<and> VerifyKey demo_sha 6 True plain s2 = Some (s2, None)"
proof -
  obtain s1 k plain where c: "CreateKey demo_sha (Some [1, 2, 3, 4]) (Some [7]) 0 True ''t1'' ''pos'' ''ada'' demo_keys = (s1, Inr (k, plain))"
    by (auto simp: CreateKey_def generateSecret_def Let_def)
  obtain s2 r where v: "Revoke 5 True ''t1'' (akID k) s1 = (s2, r)" by fastforce
  from api_key_life [OF demo_keys_ok(1) c _ demo_keys_ok(2) demo_sha_bytes demo_keys_ok(3) v, of 1 True 6 True] c v show ?thesis by auto
qed

text \<open>After a rotation the new secret of the key is accepted for the same tenant, and the old one is refused.\<close>

theorem api_key_rotation:
  assumes "keys_ok s" "Rotate sha (Some buf) now ok t i s = (s', Inr (k1, plain))" "4 \<le> length buf"
    and "bytes (sha plain)" "unused sha plain s"
    and "get_key s i = Some k" "matches (sha old) k" "sha old \<noteq> sha plain" "\<And>j k'. get_key s j = Some k' \<Longrightarrow> j \<noteq> i \<Longrightarrow> \<not> matches (sha old) k'"
  shows "(\<exists>s'' k'. VerifyKey sha now' ok' plain s' = Some (s'', Some k') \<and> akID k' = i \<and> akTenantID k' = t) \<and>
    VerifyKey sha now' ok' old s' = Some (s', None)"
  using rotate_replaces [OF assms(1-5)] assms(6-9) by blast

definition demo_key :: APIKey where
  "demo_key = \<lparr>akID = ''key_07'', akTenantID = ''t1'', akName = ''pos'', akPrefix = ''mrk_01020304'', akHash = hex_encode (demo_sha ''mrk_01020304''),
     akCreatedBy = ''ada'', akCreatedAt = 0, RotatedAt = None, RevokedAt = None, LastUsedAt = None\<rparr>"

lemma demo_one_key:
  "keys_ok (NewAPIKeyStore [demo_key])" "get_key (NewAPIKeyStore [demo_key]) i = (if i = ''key_07'' then Some demo_key else None)"
  "matches (demo_sha p) demo_key \<longleftrightarrow> p = ''mrk_01020304''" "Active demo_key" "akTenantID demo_key = ''t1''"
proof -
  have load: "NewAPIKeyStore [demo_key] = (load_key demo_key demo_keys)\<lparr>keyFile := [demo_key]\<rparr>"
    by (simp add: NewAPIKeyStore_def demo_keys_def load_key_def)
  have "keys_ok (load_key demo_key demo_keys)" by (rule keys_ok_load [OF demo_keys_ok(1,2)])
  then show "keys_ok (NewAPIKeyStore [demo_key])" unfolding load by (simp add: keys_ok_def)
  show "get_key (NewAPIKeyStore [demo_key]) i = (if i = ''key_07'' then Some demo_key else None)"
    unfolding load by (simp add: load_key_def demo_keys_ok(2)) (simp add: demo_key_def)
  have "inj demo_sha" unfolding demo_sha_def by (intro list.inj_map inj_of_char)
  then show "matches (demo_sha p) demo_key \<longleftrightarrow> p = ''mrk_01020304''"
    by (auto simp: matches_def demo_key_def hex_decode_encode dest: injD)
  show "Active demo_key" "akTenantID demo_key = ''t1''" by (simp_all add: Active_def demo_key_def)
qed

theorem api_key_rotation_witness:
  "\<exists>s' k1 plain s'' k'. Rotate demo_sha (Some [9, 9, 9, 9]) 5 True ''t1'' ''key_07'' (NewAPIKeyStore [demo_key]) = (s', Inr (k1, plain)) \<and>
     VerifyKey demo_sha 6 True plain s' = Some (s'', Some k') \<and> akTenantID k' = ''t1'' \<and> VerifyKey demo_sha 6 True ''mrk_01020304'' s' = Some (s', None)"
proof -
  let ?s = "NewAPIKeyStore [demo_key]"
  have g: "get_key ?s ''key_07'' = Some demo_key" using demo_one_key(2) by simp
  obtain s' k1 plain where r: "Rotate demo_sha (Some [9, 9, 9, 9]) 5 True ''t1'' ''key_07'' ?s = (s', Inr (k1, plain))" "plain = apiKeyPrefix @ hex_encode [9, 9, 9, 9]"
    using g demo_one_key(4,5) by (simp add: Rotate_def generateSecret_def Let_def)
  have p: "plain \<noteq> ''mrk_01020304''" unfolding r(2) by (simp add: apiKeyPrefix_def hex_digit_def)
  have "unused demo_sha plain ?s" using p demo_one_key(2,3) by (auto simp: unused_def split: if_splits)
  moreover have "demo_sha ''mrk_01020304'' \<noteq> demo_sha plain" using p demo_one_key(3) by metis
  ultimately have "(\<exists>s'' k'. VerifyKey demo_sha 6 True plain s' = Some (s'', Some k') \<and> akID k' = ''key_07'' \<and> akTenantID k' = ''t1'') \<and>
      VerifyKey demo_sha 6 True ''mrk_01020304'' s' = Some (s', None)"
    by (intro api_key_rotation [OF demo_one_key(1) r(1) _ demo_sha_bytes _ g]) (use demo_one_key(2,3) in \<open>auto split: if_splits\<close>)
  then show ?thesis using r(1) by blast
qed

text \<open>A revocation whose snapshot cannot be written reports an error; the retry then reports success without writing it,
  so that a restart brings the key back to life.\<close>

theorem revocation_retry_not_durable:
  assumes "get_key s i = Some k" "Active k" "akTenantID k = t"
    and "Revoke now False t i s = (s1, r1)" "Revoke now' True t i s1 = (s2, r2)"
  shows "r1 = Inl KeyPersistFailed \<and> is_ok r2 \<and> keyFile s2 = keyFile s"
  using assms by (rule revoke_retry_not_durable)

theorem revocation_retry_not_durable_witness:
  "\<exists>s1 s2 r2. Revoke 5 False ''t1'' ''key_07'' (NewAPIKeyStore [demo_key]) = (s1, Inl KeyPersistFailed) \<and> Revoke 6 True ''t1'' ''key_07'' s1 = (s2, r2) \<and> is_ok r2 \<and>
     NewAPIKeyStore (keyFile s2) = NewAPIKeyStore [demo_key]"
proof -
  let ?s = "NewAPIKeyStore [demo_key]"
  have g: "get_key ?s ''key_07'' = Some demo_key" using demo_one_key(2) by simp
  obtain s1 r1 where a: "Revoke 5 False ''t1'' ''key_07'' ?s = (s1, r1)" by fastforce
  obtain s2 r2 where b: "Revoke 6 True ''t1'' ''key_07'' s1 = (s2, r2)" by fastforce
  have "keyFile ?s = [demo_key]" by (simp add: NewAPIKeyStore_def load_key_def)
  with revocation_retry_not_durable [OF g demo_one_key(4,5) a b] a b show ?thesis by auto
qed

section \<open>Webhooks and the dashboard\<close>

text \<open>C39. Once a tenant owns a business it owns it for good, the endpoints of the business are listed to that tenant alone, and
  nobody is shown a delivery of a business it does not own.\<close>

theorem webhooks_stay_in_tenant:
  assumes "hook_step\<^sup>*\<^sup>* NewWebhookRegistry r" "owners r b = Some t" "hook_step\<^sup>*\<^sup>* r r'"
    and "handleWebhookList (Some c) b r' = Reply n (eps, ds)"
  shows "(eps \<noteq> [] \<longrightarrow> TenantID c = t) \<and> (\<forall>d\<in>set ds. owners r' (wdBusinessID d) = Some (TenantID c)) \<and> (\<forall>d\<in>set ds. wdBusinessID d = b \<longrightarrow> TenantID c = t)"
proof -
  have ok: "hooks_ok r'" using hook_reach_ok assms(1,3) rtranclp_trans by fast
  have own: "owners r' b = Some t" by (rule hook_reach_owner [OF assms(3,2)])
  from list_own_only [OF assms(4) ok] own show ?thesis by auto
qed

definition demo_hook_env :: hook_env where
  "demo_hook_env = \<lparr>envENV = ''prod'', envAPP_ENV = '''', envPROFILE = '''', envAllow = '''', urlParse = (\<lambda>_. Some (''https'', ''hooks.example'')), lookupIP = (\<lambda>_. Some [[8, 8, 8, 8]])\<rparr>"

lemma demo_register:
  "\<exists>r'. RegisterWebhook demo_hook_env demo_sha ''now'' ''BIZ'' ''t1'' ''https://hooks.example/a'' ''0123456789abcdef'' NewWebhookRegistry = (r', None) \<and>
     owners r' ''BIZ'' = Some ''t1'' \<and> map weURL (byBusiness r' ''BIZ'') = [''https://hooks.example/a'']"
proof -
  have e: "urlParse demo_hook_env u = Some (''https'', ''hooks.example'')" "lookupIP demo_hook_env h = Some [[8, 8, 8, 8]]" "envAllow demo_hook_env = ''''" for u h
    by (simp_all add: demo_hook_env_def)
  have "ToLower ''https'' = ''https''" by (simp add: ToLower_def lower_char_def)
  moreover have "\<not> isPrivateEgressIP [8, 8, 8, 8]" by (simp add: isPrivateEgressIP_def to4_def)
  ultimately have v: "validateWebhookURL demo_hook_env u = None" for u by (simp add: validateWebhookURL_def e Let_def)
  have "TrimSpace ''BIZ'' \<noteq> ''''" "TrimSpace ''t1'' \<noteq> ''''" "TrimSpace ''https://hooks.example/a'' \<noteq> ''''"
    by (simp_all add: TrimSpace_printable printable_def)
  from Register_fresh [OF this v, of "''0123456789abcdef''" demo_sha "''now''"] show ?thesis by simp
qed

theorem webhooks_stay_in_tenant_witness:
  "\<exists>r' eps ds. handleWebhookList (Some demo_claims) ''BIZ'' r' = Reply 200 (eps, ds) \<and> eps \<noteq> [] \<and> TenantID demo_claims = ''t1'' \<and>
     hook_step\<^sup>*\<^sup>* NewWebhookRegistry r'"
proof -
  obtain r' where r: "RegisterWebhook demo_hook_env demo_sha ''now'' ''BIZ'' ''t1'' ''https://hooks.example/a'' ''0123456789abcdef'' NewWebhookRegistry = (r', None)"
    "owners r' ''BIZ'' = Some ''t1''" "map weURL (byBusiness r' ''BIZ'') = [''https://hooks.example/a'']"
    using demo_register by (elim exE conjE) (rule that)
  have s: "hook_step\<^sup>*\<^sup>* NewWebhookRegistry r'" using r(1) by (intro r_into_rtranclp hook_step.register)
  obtain eps ds where l: "handleWebhookList (Some demo_claims) ''BIZ'' r' = Reply 200 (eps, ds)" "eps \<noteq> []"
    using r(2,3) by (auto simp: handleWebhookList_def Owner_def Endpoints_def demo_claims_def)
  from webhooks_stay_in_tenant [OF s r(2) rtranclp.rtrancl_refl l(1)] l s show ?thesis by blast
qed

text \<open>C38. The VAT dashboard of a tenant is the reference summary: per period of issue the count and the sums of the invoices of the tenant
  in that period, sorted by period, with the totals over all of them, in 64-bit arithmetic.\<close>

theorem vat_summary_correct:
  assumes "t \<noteq> ''''"
  shows "set (Periods (SummarizeVAT month vs t)) = {bucket p us |p us. us = filter (\<lambda>v. ciTenantID v = t \<and> invoicePeriod month v = p) vs \<and> us \<noteq> []} \<and>
    sorted (map vpPeriod (Periods (SummarizeVAT month vs t))) \<and> distinct (map vpPeriod (Periods (SummarizeVAT month vs t))) \<and>
    TotalTaxKobo (SummarizeVAT month vs t) = sum64 TaxKobo (filter (\<lambda>v. ciTenantID v = t) vs) \<and>
    TotalPayableKobo (SummarizeVAT month vs t) = sum64 PayableKobo (filter (\<lambda>v. ciTenantID v = t) vs)"
proof -
  have own: "own t vs = filter (\<lambda>v. ciTenantID v = t) vs" using assms by (simp add: own_def)
  have "filter (\<lambda>v. invoicePeriod month v = p) (own t vs) = filter (\<lambda>v. ciTenantID v = t \<and> invoicePeriod month v = p) vs" for p
    unfolding own by (simp add: conj_commute)
  with summary_correct [OF assms, of month vs] own show ?thesis by simp
qed

theorem vat_summary_correct_witness:
  "TotalTaxKobo (SummarizeVAT (\<lambda>_. '''') [demo_draft, demo_draft\<lparr>ciTenantID := ''t2''\<rparr>, demo_twin] ''t1'') = 15000"
  using vat_summary_correct [of "''t1''" "\<lambda>_. ''''" "[demo_draft, demo_draft\<lparr>ciTenantID := ''t2''\<rparr>, demo_twin]"]
  by (simp add: demo_draft_def demo_twin_def demo_inv_def sum64_eq wrap64_def)

end
