(* ===== verification/Case_Store.thy ===== *)
theory Case_Store
  imports Go_Prelude
begin

text \<open>
  The data of the case-management service (\<^verbatim>\<open>services/case-mgmt/store.go\<close>): matters, documents and
  deadlines with their append log, the blobs of the documents, the mirror in Postgres, and the
  file-backed checker of relations.

  The maps of the store hold pointers, and \<^verbatim>\<open>GetMatter\<close>, \<^verbatim>\<open>GetDeadline\<close> and the list operations hand
  these pointers out. Here the maps hold the records; a handler that changes a record through
  its pointer is written as an update of the map (\<open>poke_matter\<close>, \<open>poke_deadline\<close>), which is
  separate from storing the record in the log.

  A line of the log is the record it encodes. \<open>fits\<close> says which lines the reader accepts: its
  buffer holds \<^verbatim>\<open>1<<20\<close> bytes, and a longer line ends the reading of the log. Every outcome of a
  file or database operation is an argument.
\<close>

section \<open>Data\<close>

record Matter =
  mtID :: string
  mtTenantID :: string
  mtRef :: string
  mtTitle :: string
  mtClientID :: string
  mtClientName :: string
  mtPracticeArea :: string
  mtStatus :: string
  mtCounsel :: "string list"
  mtOpenedAt :: string
  mtClosedAt :: string
  mtNotes :: string

record Document =
  dcID :: string
  dcMatterID :: string
  dcName :: string
  dcMimeType :: string
  SizeBytes :: int64
  dcSHA256 :: string
  Privileged :: bool
  UploadedBy :: string
  UploadedAt :: string

record Deadline =
  dlID :: string
  dlMatterID :: string
  dlTitle :: string
  DueAt :: string
  Severity :: string
  dlStatus :: string
  Escalated :: bool
  dlCreatedAt :: string

datatype logRec = MatterRec Matter | DocRec Document | DeadlineRec Deadline

type_synonym blob = "nat list"

record CaseStore =
  matters :: "string \<rightharpoonup> Matter"
  csDocs :: "string \<rightharpoonup> Document"
  deadlines :: "string \<rightharpoonup> Deadline"
  csSeq :: nat
  caseLog :: "logRec list"
  logOpen :: bool \<comment> \<open>the log file could be opened\<close>
  blobs :: "string \<rightharpoonup> blob"
  csPG :: "logRec list option" \<comment> \<open>the rows written to Postgres, when it is attached\<close>

section \<open>Loading\<close>

definition index_rec :: "logRec \<Rightarrow> CaseStore \<Rightarrow> CaseStore" where
  "index_rec r st =
     (case r of
        MatterRec m \<Rightarrow> st\<lparr>matters := (matters st)(mtID m \<mapsto> m)\<rparr>
      | DocRec d \<Rightarrow> st\<lparr>csDocs := (csDocs st)(dcID d \<mapsto> d)\<rparr>
      | DeadlineRec dl \<Rightarrow> st\<lparr>deadlines := (deadlines st)(dlID dl \<mapsto> dl)\<rparr>)"

text \<open>The reader stops at the first line that does not fit its buffer.\<close>

definition case_replay :: "(logRec \<Rightarrow> bool) \<Rightarrow> logRec list \<Rightarrow> CaseStore \<Rightarrow> CaseStore" where
  "case_replay fits lg st = fold index_rec (takeWhile fits lg) st"

definition NewCaseStore :: "(logRec \<Rightarrow> bool) \<Rightarrow> bool \<Rightarrow> logRec list \<Rightarrow> (string \<rightharpoonup> blob) \<Rightarrow> CaseStore" where
  "NewCaseStore fits opens lg bs =
     (case_replay fits lg
        \<lparr>matters = Map.empty, csDocs = Map.empty, deadlines = Map.empty, csSeq = 0, caseLog = lg, logOpen = False, blobs = bs, csPG = None\<rparr>)
     \<lparr>logOpen := opens\<rparr>"

text \<open>Rows of the database are taken over when the log did not have them.\<close>

definition indexPG :: "logRec \<Rightarrow> CaseStore \<Rightarrow> CaseStore" where
  "indexPG r st =
     (case r of
        MatterRec m \<Rightarrow> if matters st (mtID m) = None then index_rec r st else st
      | DocRec d \<Rightarrow> if csDocs st (dcID d) = None then index_rec r st else st
      | DeadlineRec dl \<Rightarrow> if deadlines st (dlID dl) = None then index_rec r st else st)"

text \<open>The rows come kind by kind; a kind that cannot be listed is \<open>None\<close>.\<close>

definition AttachPG :: "logRec list option list \<Rightarrow> CaseStore \<Rightarrow> CaseStore" where
  "AttachPG rows st = fold (\<lambda>rs s. case rs of None \<Rightarrow> s | Some l \<Rightarrow> fold indexPG l s) rows (st\<lparr>csPG := Some []\<rparr>)"

section \<open>Writing\<close>

record log_env =
  logWrite :: bool
  pgWrite :: bool

definition rec_id :: "logRec \<Rightarrow> string" where
  "rec_id r = (case r of MatterRec m \<Rightarrow> mtID m | DocRec d \<Rightarrow> dcID d | DeadlineRec dl \<Rightarrow> dlID dl)"

text \<open>Failures of the file and of the database are not reported.\<close>

definition appendLog :: "log_env \<Rightarrow> logRec \<Rightarrow> CaseStore \<Rightarrow> CaseStore" where
  "appendLog e r st =
     (let st1 = (if logOpen st \<and> logWrite e then st\<lparr>caseLog := caseLog st @ [r]\<rparr> else st)
      in case csPG st1 of
           None \<Rightarrow> st1
         | Some rows \<Rightarrow> if rec_id r \<noteq> '''' \<and> pgWrite e then st1\<lparr>csPG := Some (rows @ [r])\<rparr> else st1)"

definition pad4 :: "nat \<Rightarrow> string" where
  "pad4 n = replicate (4 - length (show_nat n)) (CHR ''0'') @ show_nat n"

definition nextRef :: "nat \<Rightarrow> CaseStore \<Rightarrow> CaseStore \<times> string" where
  "nextRef year st = (st\<lparr>csSeq := csSeq st + 1\<rparr>, ''MTR-'' @ show_nat year @ ''-'' @ pad4 (csSeq st + 1))"

definition poke_matter :: "Matter \<Rightarrow> CaseStore \<Rightarrow> CaseStore" where
  "poke_matter m st = st\<lparr>matters := (matters st)(mtID m \<mapsto> m)\<rparr>"

definition poke_deadline :: "Deadline \<Rightarrow> CaseStore \<Rightarrow> CaseStore" where
  "poke_deadline dl st = st\<lparr>deadlines := (deadlines st)(dlID dl \<mapsto> dl)\<rparr>"

definition PutMatter :: "log_env \<Rightarrow> Matter \<Rightarrow> CaseStore \<Rightarrow> CaseStore" where
  "PutMatter e m st = appendLog e (MatterRec m) (poke_matter m st)"

definition GetMatter :: "string \<Rightarrow> CaseStore \<Rightarrow> Matter option" where
  "GetMatter i st = matters st i"

definition PutDocument :: "log_env \<Rightarrow> bool \<Rightarrow> Document \<Rightarrow> blob \<Rightarrow> CaseStore \<Rightarrow> CaseStore \<times> bool" where
  "PutDocument e blobOk d content st =
     (if \<not> blobOk then (st, False)
      else (appendLog e (DocRec d) (st\<lparr>blobs := (blobs st)(dcID d \<mapsto> content), csDocs := (csDocs st)(dcID d \<mapsto> d)\<rparr>), True))"

text \<open>The content is empty when the blob cannot be read.\<close>

definition GetDocument :: "string \<Rightarrow> CaseStore \<Rightarrow> (Document \<times> blob) option" where
  "GetDocument i st =
     (case csDocs st i of None \<Rightarrow> None | Some d \<Rightarrow> Some (d, case blobs st i of None \<Rightarrow> [] | Some b \<Rightarrow> b))"

definition PutDeadline :: "log_env \<Rightarrow> Deadline \<Rightarrow> CaseStore \<Rightarrow> CaseStore" where
  "PutDeadline e dl st = appendLog e (DeadlineRec dl) (poke_deadline dl st)"

definition GetDeadline :: "string \<Rightarrow> CaseStore \<Rightarrow> Deadline option" where
  "GetDeadline i st = deadlines st i"

section \<open>Listing\<close>

text \<open>
  \<open>ord\<close> is the order in which Go visits the keys of the map. \<^verbatim>\<open>sort.Slice\<close> is not stable, so the order
  among equal keys is not specified by the source either; here it is the order of the visit.
\<close>

definition sort_desc :: "('a \<Rightarrow> string) \<Rightarrow> 'a list \<Rightarrow> 'a list" where
  "sort_desc k xs = rev (sort_key k (rev xs))"

definition ListMatters :: "string list \<Rightarrow> string \<Rightarrow> string \<Rightarrow> string \<Rightarrow> CaseStore \<Rightarrow> Matter list" where
  "ListMatters ord tenant status clientID st =
     sort_desc mtOpenedAt (filter (\<lambda>m. (tenant = '''' \<or> mtTenantID m = tenant) \<and> (status = '''' \<or> mtStatus m = status) \<and>
         (clientID = '''' \<or> mtClientID m = clientID))
       (List.map_filter (matters st) ord))"

definition ListDocuments :: "string list \<Rightarrow> string \<Rightarrow> bool \<Rightarrow> CaseStore \<Rightarrow> Document list" where
  "ListDocuments ord matterID includePrivileged st =
     sort_desc UploadedAt (filter (\<lambda>d. dcMatterID d = matterID \<and> \<not> (Privileged d \<and> \<not> includePrivileged)) (List.map_filter (csDocs st) ord))"

definition ListDeadlines :: "string list \<Rightarrow> string \<Rightarrow> string \<Rightarrow> string \<Rightarrow> CaseStore \<Rightarrow> Deadline list" where
  "ListDeadlines ord matterID status dueBefore st =
     sort_key DueAt (filter (\<lambda>dl. (matterID = '''' \<or> dlMatterID dl = matterID) \<and> (status = '''' \<or> dlStatus dl = status) \<and>
         (dueBefore = '''' \<or> DueAt dl \<le> dueBefore))
       (List.map_filter (deadlines st) ord))"

section \<open>Relations\<close>

record RelationTuple =
  Entity :: string
  Relation :: string
  Subject :: string

record RelationChecker =
  tuples :: "RelationTuple list"
  relFile :: "RelationTuple list"

text \<open>\<^verbatim>\<open>os.WriteFile\<close> truncates before it writes; a file that does not parse is read as no tuples.\<close>

datatype file_write = Written | NotOpened | CutShort

definition NewRelationChecker :: "RelationTuple list \<Rightarrow> RelationChecker" where
  "NewRelationChecker f = \<lparr>tuples = f, relFile = f\<rparr>"

definition rel_persist :: "file_write \<Rightarrow> RelationChecker \<Rightarrow> RelationChecker" where
  "rel_persist o1 rc = (case o1 of Written \<Rightarrow> rc\<lparr>relFile := tuples rc\<rparr> | NotOpened \<Rightarrow> rc | CutShort \<Rightarrow> rc\<lparr>relFile := []\<rparr>)"

definition Grant :: "file_write \<Rightarrow> RelationTuple \<Rightarrow> RelationChecker \<Rightarrow> RelationChecker" where
  "Grant o1 t rc = (if t \<in> set (tuples rc) then rc else rel_persist o1 (rc\<lparr>tuples := tuples rc @ [t]\<rparr>))"

definition RevokeRel :: "file_write \<Rightarrow> string \<Rightarrow> string \<Rightarrow> string \<Rightarrow> RelationChecker \<Rightarrow> RelationChecker" where
  "RevokeRel o1 ent rel sub rc =
     rel_persist o1 (rc\<lparr>tuples := filter (\<lambda>e. \<not> (Entity e = ent \<and> Relation e = rel \<and> Subject e = sub)) (tuples rc)\<rparr>)"

definition has_tuple :: "RelationTuple list \<Rightarrow> string \<Rightarrow> string \<Rightarrow> string \<Rightarrow> bool" where
  "has_tuple ts ent rel sub = list_ex (\<lambda>e. Entity e = ent \<and> Relation e = rel \<and> Subject e = sub) ts"

text \<open>
  The file-backed check. \<open>None\<close> is the panic of \<^verbatim>\<open>parts[1]\<close>, for the entity \<^verbatim>\<open>doc\<close> without a colon. The
  recursive call of the source is always on a matter, so it is written out.
\<close>

definition check_matter_read :: "RelationChecker \<Rightarrow> string \<Rightarrow> string \<Rightarrow> bool" where
  "check_matter_read rc ent sub = (has_tuple (tuples rc) ent ''client'' sub \<or> has_tuple (tuples rc) ent ''counsel'' sub)"

definition Check :: "string \<Rightarrow> string \<Rightarrow> string \<Rightarrow> CaseStore \<Rightarrow> RelationChecker \<Rightarrow> bool option" where
  "Check entity permission subject st rc =
     (let kind = (case split_first (CHR '':'') entity of None \<Rightarrow> entity | Some (k, _) \<Rightarrow> k)
      in if kind = ''matter'' \<and> permission = ''read'' then Some (check_matter_read rc entity subject)
         else if kind = ''matter'' \<and> permission = ''write'' then Some (has_tuple (tuples rc) entity ''counsel'' subject)
         else if kind = ''doc'' \<and> permission = ''read''
         then (case split_first (CHR '':'') entity of
                 None \<Rightarrow> None
               | Some (_, docID) \<Rightarrow>
                   (case GetDocument docID st of
                      None \<Rightarrow> Some False
                    | Some (d, _) \<Rightarrow>
                        if \<not> Privileged d then Some (check_matter_read rc (''matter:'' @ dcMatterID d) subject)
                        else Some (has_tuple (tuples rc) (''doc:'' @ docID) ''privileged'' subject \<or>
                                   has_tuple (tuples rc) (''matter:'' @ dcMatterID d) ''counsel'' subject)))
         else Some False)"

end
