(* ===== verification/Case_Handlers.thy ===== *)
theory Case_Handlers
  imports Case_Store
begin

text \<open>
  The handlers of the case-management service (\<^verbatim>\<open>services/case-mgmt/handlers.go\<close>), the client of the
  Permify server (\<^verbatim>\<open>permify.go\<close>), the authentication wrapper (\<^verbatim>\<open>main.go\<close>), the local evidence store
  (\<^verbatim>\<open>integrations.go\<close>) and the deadline scan with the workflows (\<^verbatim>\<open>workflows.go\<close>).

  Requests arrive decoded: \<open>None\<close> is a body that does not decode. Clock, ULIDs, hashes, the order in
  which Go visits a map and the outcomes of file and network operations are arguments. A panic is
  answered 500 by the \<^verbatim>\<open>recover\<close> wrapper, with the state as it is at that moment.
\<close>

section \<open>Authentication\<close>

record principal =
  prSubject :: string
  prRole :: string

record inbound =
  hAuthorization :: string
  hXSubject :: string
  hXRole :: string
  hDevRole :: string
  hDevSubject :: string

record case_claims =
  ccSub :: string
  ccRoles :: "string list"
  ccExp :: int

text \<open>\<open>mac\<close> is HMAC-SHA-256 under the secret, \<open>b64\<close> the base64 decoder, \<open>claims\<close> the JSON decoder.\<close>

definition verifyHS256 :: "(string \<Rightarrow> string) \<Rightarrow> (string \<Rightarrow> string option) \<Rightarrow> (string \<Rightarrow> case_claims option) \<Rightarrow> int \<Rightarrow> string \<Rightarrow> string + case_claims" where
  "verifyHS256 mac b64 claims now token =
     (case split_on (CHR ''.'') token of
        [h, p, s] \<Rightarrow>
          (case b64 s of
             None \<Rightarrow> Inl ''bad signature''
           | Some sig \<Rightarrow>
               if mac (h @ ''.'' @ p) \<noteq> sig then Inl ''bad signature''
               else (case b64 p of
                       None \<Rightarrow> Inl ''bad payload''
                     | Some payload \<Rightarrow>
                         (case claims payload of
                            None \<Rightarrow> Inl ''bad claims''
                          | Some c \<Rightarrow> if ccExp c \<noteq> 0 \<and> now > ccExp c then Inl ''token expired'' else Inr c)))
      | _ \<Rightarrow> Inl ''malformed token'')"

text \<open>\<open>verify\<close> is the Keycloak verifier when one is configured, else \<open>verifyHS256\<close>. The inbound identity headers are dropped.\<close>

definition case_auth :: "(string \<Rightarrow> string + case_claims) \<Rightarrow> string \<Rightarrow> inbound \<Rightarrow> (string + principal)" where
  "case_auth verify authMode h0 =
     (let h = h0\<lparr>hXRole := '''', hXSubject := ''''\<rparr>
      in if HasPrefix (hAuthorization h) ''Bearer ''
         then (case verify (drop 7 (hAuthorization h)) of
                 Inl e \<Rightarrow> Inl e
               | Inr c \<Rightarrow> Inr \<lparr>prSubject = ''user:'' @ ccSub c, prRole = (case ccRoles c of [] \<Rightarrow> hXRole h | x # _ \<Rightarrow> x)\<rparr>)
         else if authMode = ''dev'' \<and> hDevRole h \<noteq> ''''
         then Inr \<lparr>prSubject = ''user:'' @ (if hDevSubject h = '''' then ''dev-'' @ hDevRole h else hDevSubject h), prRole = hDevRole h\<rparr>
         else Inl ''Bearer JWT or X-Dev-Role (dev mode) required'')"

section \<open>Permify\<close>

record permifyRef =
  refType :: string
  refID :: string

definition splitPermifyRef :: "string \<Rightarrow> string + permifyRef" where
  "splitPermifyRef s =
     (case split_first (CHR '':'') s of
        None \<Rightarrow> Inl (''permify reference '' @ s @ '' must be type:id'')
      | Some (t, i) \<Rightarrow> if t = '''' \<or> i = '''' then Inl (''permify reference '' @ s @ '' must be type:id'') else Inr \<lparr>refType = t, refID = i\<rparr>)"

text \<open>An answer of the server: none, or a status with the decoded body (\<^verbatim>\<open>allowed\<close> and \<^verbatim>\<open>can\<close>).\<close>

datatype http_reply = NoReply | HttpReply nat "(bool option \<times> string) option"

fun permify_do :: "http_reply \<Rightarrow> (string + bool) \<times> bool" where
  "permify_do NoReply = (Inl ''permify check transport'', False)"
| "permify_do (HttpReply status body) =
     (if status \<ge> 500 then (Inl (''permify check status '' @ show_nat status), True)
      else if status \<noteq> 200 then (Inl (''permify check status '' @ show_nat status), False)
      else (case body of
              None \<Rightarrow> (Inl ''permify check decode'', False)
            | Some (Some b, _) \<Rightarrow> (Inr b, False)
            | Some (None, can) \<Rightarrow> (Inr (can = ''RESULT_ALLOWED''), False)))"

record PermifyClient =
  pmCheck :: "nat \<Rightarrow> permifyRef \<Rightarrow> string \<Rightarrow> permifyRef \<Rightarrow> http_reply" \<comment> \<open>the answer to an attempt\<close>
  pmWrite :: "permifyRef \<Rightarrow> string \<Rightarrow> permifyRef \<Rightarrow> bool" \<comment> \<open>a 2xx answer\<close>
  pmDelete :: "permifyRef \<Rightarrow> string \<Rightarrow> permifyRef \<Rightarrow> bool"
  pmRead :: "permifyRef option \<Rightarrow> string \<Rightarrow> (permifyRef \<times> string \<times> permifyRef) list option"

fun check_attempts :: "(nat \<Rightarrow> http_reply) \<Rightarrow> nat \<Rightarrow> nat \<Rightarrow> string \<Rightarrow> string + bool" where
  "check_attempts answer 0 attempt lastErr = Inl lastErr"
| "check_attempts answer (Suc left) attempt lastErr =
     (case permify_do (answer attempt) of
        (Inr allowed, _) \<Rightarrow> Inr allowed
      | (Inl e, retryable) \<Rightarrow> if retryable then check_attempts answer left (attempt + 1) e else Inl e)"

definition PermifyCheck :: "PermifyClient \<Rightarrow> string \<Rightarrow> string \<Rightarrow> string \<Rightarrow> string + bool" where
  "PermifyCheck c entity permission subject =
     (case splitPermifyRef entity of
        Inl e \<Rightarrow> Inl e
      | Inr ent \<Rightarrow>
          (case splitPermifyRef subject of
             Inl e \<Rightarrow> Inl e
           | Inr sub \<Rightarrow> check_attempts (\<lambda>n. pmCheck c n ent permission sub) 2 0 ''''))"

definition permify_tuple :: "(permifyRef \<Rightarrow> string \<Rightarrow> permifyRef \<Rightarrow> bool) \<Rightarrow> string \<Rightarrow> string \<Rightarrow> string \<Rightarrow> bool" where
  "permify_tuple post entity relation subject =
     (case (splitPermifyRef entity, splitPermifyRef subject) of (Inr ent, Inr sub) \<Rightarrow> post ent relation sub | _ \<Rightarrow> False)"

definition WriteRelationship :: "PermifyClient \<Rightarrow> string \<Rightarrow> string \<Rightarrow> string \<Rightarrow> bool" where
  "WriteRelationship c = permify_tuple (pmWrite c)"

definition DeleteRelationship :: "PermifyClient \<Rightarrow> string \<Rightarrow> string \<Rightarrow> string \<Rightarrow> bool" where
  "DeleteRelationship c = permify_tuple (pmDelete c)"

definition ReadRelationships :: "PermifyClient \<Rightarrow> string \<Rightarrow> string \<Rightarrow> RelationTuple list option" where
  "ReadRelationships c entity relation =
     (case (if entity = '''' then Inr None else (case splitPermifyRef entity of Inl e \<Rightarrow> Inl e | Inr r \<Rightarrow> Inr (Some r))) of
        Inl e \<Rightarrow> None
      | Inr ent \<Rightarrow>
          map_option (map (\<lambda>(e, rel, sub). \<lparr>Entity = refType e @ '':'' @ refID e, Relation = rel, Subject = refType sub @ '':'' @ refID sub\<rparr>))
            (pmRead c ent relation))"

definition wirePermify :: "bool \<Rightarrow> string \<Rightarrow> string \<Rightarrow> PermifyClient \<Rightarrow> string + PermifyClient option" where
  "wirePermify urlSet profile authMode c =
     (if urlSet then Inr (Some c)
      else if profile = ''prod'' \<or> authMode = ''keycloak'' then Inl ''PERMIFY_URL is required''
      else Inr None)"

section \<open>The service\<close>

record CaseService =
  caStore :: CaseStore
  caRel :: RelationChecker
  caPerm :: "PermifyClient option"
  caSent :: "(string \<times> string \<times> string) list" \<comment> \<open>channel, recipient and subject of every notification\<close>

text \<open>Outcomes of the operations of one request.\<close>

record case_env =
  ceNow :: string
  ceYear :: nat
  ceULID :: string
  ceLog :: log_env
  ceBlob :: bool
  ceRel :: "nat \<Rightarrow> file_write"
  ceOrd :: "string list" \<comment> \<open>the order of the visit of a map\<close>

definition checkRel :: "string \<Rightarrow> string \<Rightarrow> string \<Rightarrow> CaseService \<Rightarrow> bool option" where
  "checkRel entity permission subject s =
     (case caPerm s of
        Some c \<Rightarrow> (case PermifyCheck c entity permission subject of Inl _ \<Rightarrow> Some False | Inr b \<Rightarrow> Some b)
      | None \<Rightarrow> Check entity permission subject (caStore s) (caRel s))"

text \<open>What a panic is answered with.\<close>

abbreviation panicked :: "'a response" where
  "panicked \<equiv> Problem 500 ''internal error''"

definition upd_store :: "(CaseStore \<Rightarrow> CaseStore) \<Rightarrow> CaseService \<Rightarrow> CaseService" where
  "upd_store f s = s\<lparr>caStore := f (caStore s)\<rparr>"

definition upd_rel :: "(RelationChecker \<Rightarrow> RelationChecker) \<Rightarrow> CaseService \<Rightarrow> CaseService" where
  "upd_rel f s = s\<lparr>caRel := f (caRel s)\<rparr>"

definition canReadMatter :: "principal \<Rightarrow> Matter \<Rightarrow> CaseService \<Rightarrow> bool option" where
  "canReadMatter p m s =
     (if prRole p = ''admin'' \<or> prRole p = ''auditor'' then Some True
      else checkRel (''matter:'' @ mtID m) ''read'' (prSubject p) s)"

text \<open>The guard of every operation that changes a matter.\<close>

definition mayWrite :: "principal \<Rightarrow> Matter \<Rightarrow> CaseService \<Rightarrow> bool option" where
  "mayWrite p m s =
     (if prRole p = ''admin'' then Some True else checkRel (''matter:'' @ mtID m) ''write'' (prSubject p) s)"

section \<open>Matters\<close>

fun grant_all :: "(nat \<Rightarrow> file_write) \<Rightarrow> nat \<Rightarrow> RelationTuple list \<Rightarrow> RelationChecker \<Rightarrow> RelationChecker" where
  "grant_all o1 n [] rc = rc"
| "grant_all o1 n (t # ts) rc = grant_all o1 (n + 1) ts (Grant (o1 n) t rc)"

definition counsel_tuples :: "string \<Rightarrow> string list \<Rightarrow> RelationTuple list" where
  "counsel_tuples i cs = map (\<lambda>c. \<lparr>Entity = ''matter:'' @ i, Relation = ''counsel'', Subject = ''user:'' @ c\<rparr>) cs"

definition new_matter :: "case_env \<Rightarrow> string \<Rightarrow> Matter \<Rightarrow> Matter" where
  "new_matter e ref m0 =
     m0\<lparr>mtID := ''mtr-'' @ ceULID e, mtRef := ref,
        mtStatus := (if mtStatus m0 = '''' then ''intake'' else mtStatus m0),
        mtPracticeArea := (if mtPracticeArea m0 = '''' then ''advisory'' else mtPracticeArea m0),
        mtOpenedAt := ceNow e\<rparr>"

definition seed_tuples :: "principal \<Rightarrow> Matter \<Rightarrow> RelationTuple list" where
  "seed_tuples p m =
     \<lparr>Entity = ''matter:'' @ mtID m, Relation = ''client'', Subject = ''user:'' @ mtClientID m\<rparr> #
     \<lparr>Entity = ''matter:'' @ mtID m, Relation = ''counsel'', Subject = prSubject p\<rparr> # counsel_tuples (mtID m) (mtCounsel m)"

definition handleCreateMatter :: "case_env \<Rightarrow> principal \<Rightarrow> Matter option \<Rightarrow> CaseService \<Rightarrow> CaseService \<times> Matter response" where
  "handleCreateMatter e p body s =
     (case body of
        None \<Rightarrow> (s, Problem 400 ''bad request'')
      | Some m0 \<Rightarrow>
          if mtTitle m0 = '''' \<or> mtClientID m0 = '''' then (s, Problem 422 ''validation failed'')
          else (case (if mtRef m0 = '''' then nextRef (ceYear e) (caStore s) else (caStore s, mtRef m0)) of
                  (st1, ref) \<Rightarrow>
                    (let m = new_matter e ref m0
                     in (s\<lparr>caStore := PutMatter (ceLog e) m st1, caRel := grant_all (ceRel e) 0 (seed_tuples p m) (caRel s)\<rparr>, Reply 201 m))))"

definition handleListMatters :: "case_env \<Rightarrow> principal \<Rightarrow> string \<Rightarrow> string \<Rightarrow> string \<Rightarrow> CaseService \<Rightarrow> Matter list response" where
  "handleListMatters e p tenant status clientID s = Reply 200 (ListMatters (ceOrd e) tenant status clientID (caStore s))"

definition handleGetMatter :: "principal \<Rightarrow> string \<Rightarrow> CaseService \<Rightarrow> Matter response" where
  "handleGetMatter p i s =
     (case GetMatter i (caStore s) of
        None \<Rightarrow> Problem 404 ''not found''
      | Some m \<Rightarrow>
          (case canReadMatter p m s of
             None \<Rightarrow> panicked
           | Some False \<Rightarrow> Problem 403 ''forbidden''
           | Some True \<Rightarrow> Reply 200 m))"

record matter_patch =
  ptTitle :: "string option"
  ptStatus :: "string option"
  ptNotes :: "string option"
  ptCounsel :: "string list option"

definition finish_update :: "case_env \<Rightarrow> Matter \<Rightarrow> matter_patch \<Rightarrow> CaseService \<Rightarrow> CaseService \<times> Matter response" where
  "finish_update e m pt s =
     (let m2 = (case ptCounsel pt of None \<Rightarrow> m | Some cs \<Rightarrow> m\<lparr>mtCounsel := cs\<rparr>);
          rc = (case ptCounsel pt of None \<Rightarrow> caRel s | Some cs \<Rightarrow> grant_all (ceRel e) 0 (counsel_tuples (mtID m) cs) (caRel s))
      in (s\<lparr>caStore := PutMatter (ceLog e) m2 (caStore s), caRel := rc\<rparr>, Reply 200 m2))"

text \<open>
  The record is changed through the pointer, step by step: a status that is refused leaves the
  title and the notes changed in memory.
\<close>

definition handleUpdateMatter :: "case_env \<Rightarrow> principal \<Rightarrow> string \<Rightarrow> matter_patch option \<Rightarrow> CaseService \<Rightarrow> CaseService \<times> Matter response" where
  "handleUpdateMatter e p i body s =
     (case GetMatter i (caStore s) of
        None \<Rightarrow> (s, Problem 404 ''not found'')
      | Some m \<Rightarrow>
          (case mayWrite p m s of
             None \<Rightarrow> (s, panicked)
           | Some False \<Rightarrow> (s, Problem 403 ''forbidden'')
           | Some True \<Rightarrow>
               (case body of
                  None \<Rightarrow> (s, Problem 400 ''bad request'')
                | Some pt \<Rightarrow>
                    (let m1 = m\<lparr>mtTitle := (case ptTitle pt of None \<Rightarrow> mtTitle m | Some x \<Rightarrow> x),
                                mtNotes := (case ptNotes pt of None \<Rightarrow> mtNotes m | Some x \<Rightarrow> x)\<rparr>
                     in case ptStatus pt of
                          Some x \<Rightarrow>
                            if x \<notin> {''intake'', ''active'', ''on-hold'', ''closed''}
                            then (upd_store (poke_matter m1) s, Problem 422 ''validation failed'')
                            else finish_update e (m1\<lparr>mtStatus := x, mtClosedAt := (if x = ''closed'' \<and> mtClosedAt m1 = '''' then ceNow e else mtClosedAt m1)\<rparr>) pt s
                        | None \<Rightarrow> finish_update e m1 pt s))))"

section \<open>Documents\<close>

definition new_document :: "case_env \<Rightarrow> (blob \<Rightarrow> string) \<Rightarrow> principal \<Rightarrow> Matter \<Rightarrow> string \<times> string \<times> bool \<times> blob \<Rightarrow> Document" where
  "new_document e sha p m up =
     (case up of (name, mime, privileged, content) \<Rightarrow>
        \<lparr>dcID = ''doc-'' @ ceULID e, dcMatterID = mtID m, dcName = name,
         dcMimeType = (if mime = '''' then ''application/octet-stream'' else mime),
         SizeBytes = int (length content), dcSHA256 = sha content, Privileged = privileged,
         UploadedBy = prSubject p, UploadedAt = ceNow e\<rparr>)"

definition privilege_tuple :: "principal \<Rightarrow> Document \<Rightarrow> RelationTuple" where
  "privilege_tuple p d = \<lparr>Entity = ''doc:'' @ dcID d, Relation = ''privileged'', Subject = prSubject p\<rparr>"

text \<open>An upload that cannot be read is \<open>Inl\<close> with its status; else name, media type, privilege and content.\<close>

definition handleUploadDoc :: "case_env \<Rightarrow> (blob \<Rightarrow> string) \<Rightarrow> principal \<Rightarrow> string \<Rightarrow> (nat + (string \<times> string \<times> bool \<times> blob)) \<Rightarrow>
    CaseService \<Rightarrow> CaseService \<times> Document response" where
  "handleUploadDoc e sha p i up s =
     (case GetMatter i (caStore s) of
        None \<Rightarrow> (s, Problem 404 ''not found'')
      | Some m \<Rightarrow>
          (case mayWrite p m s of
             None \<Rightarrow> (s, panicked)
           | Some False \<Rightarrow> (s, Problem 403 ''forbidden'')
           | Some True \<Rightarrow>
               (case up of
                  Inl status \<Rightarrow> (s, Problem status ''bad upload'')
                | Inr (name, mime, privileged, content) \<Rightarrow>
                    if name = '''' \<or> content = [] then (s, Problem 422 ''validation failed'')
                    else (let d = new_document e sha p m (name, mime, privileged, content)
                          in case PutDocument (ceLog e) (ceBlob e) d content (caStore s) of
                               (_, False) \<Rightarrow> (s, Problem 500 ''store failed'')
                             | (st1, True) \<Rightarrow>
                                 (s\<lparr>caStore := st1, caRel := (if privileged then Grant (ceRel e 0) (privilege_tuple p d) (caRel s) else caRel s)\<rparr>,
                                  Reply 201 d)))))"

definition handleListDocs :: "case_env \<Rightarrow> principal \<Rightarrow> string \<Rightarrow> CaseService \<Rightarrow> (Document list \<times> bool) response" where
  "handleListDocs e p i s =
     (case GetMatter i (caStore s) of
        None \<Rightarrow> Problem 404 ''not found''
      | Some m \<Rightarrow>
          (case canReadMatter p m s of
             None \<Rightarrow> panicked
           | Some False \<Rightarrow> Problem 403 ''forbidden''
           | Some True \<Rightarrow>
               (case mayWrite p m s of
                  None \<Rightarrow> panicked
                | Some isCounsel \<Rightarrow> Reply 200 (ListDocuments (ceOrd e) (mtID m) isCounsel (caStore s), isCounsel))))"

definition mayReadDoc :: "principal \<Rightarrow> Document \<Rightarrow> CaseService \<Rightarrow> bool option" where
  "mayReadDoc p d s =
     (if prRole p = ''admin'' then Some True else checkRel (''doc:'' @ dcID d) ''read'' (prSubject p) s)"

definition handleGetDoc :: "principal \<Rightarrow> string \<Rightarrow> CaseService \<Rightarrow> Document response" where
  "handleGetDoc p i s =
     (case GetDocument i (caStore s) of
        None \<Rightarrow> Problem 404 ''not found''
      | Some (d, _) \<Rightarrow>
          (case mayReadDoc p d s of
             None \<Rightarrow> panicked
           | Some False \<Rightarrow> Problem 403 ''forbidden''
           | Some True \<Rightarrow> Reply 200 d))"

definition handleGetDocContent :: "principal \<Rightarrow> string \<Rightarrow> CaseService \<Rightarrow> (string \<times> string \<times> blob) response" where
  "handleGetDocContent p i s =
     (case GetDocument i (caStore s) of
        None \<Rightarrow> Problem 404 ''not found''
      | Some (d, content) \<Rightarrow>
          (case mayReadDoc p d s of
             None \<Rightarrow> panicked
           | Some False \<Rightarrow> Problem 403 ''forbidden''
           | Some True \<Rightarrow> Reply 200 (dcMimeType d, dcSHA256 d, content)))"

section \<open>Deadlines\<close>

text \<open>\<open>parse\<close> is \<^verbatim>\<open>time.Parse(time.RFC3339, _)\<close>, as an instant.\<close>

definition handleCreateDeadline :: "case_env \<Rightarrow> (string \<Rightarrow> int option) \<Rightarrow> principal \<Rightarrow> string \<Rightarrow> Deadline option \<Rightarrow>
    CaseService \<Rightarrow> CaseService \<times> Deadline response" where
  "handleCreateDeadline e parse p i body s =
     (case GetMatter i (caStore s) of
        None \<Rightarrow> (s, Problem 404 ''not found'')
      | Some m \<Rightarrow>
          (case mayWrite p m s of
             None \<Rightarrow> (s, panicked)
           | Some False \<Rightarrow> (s, Problem 403 ''forbidden'')
           | Some True \<Rightarrow>
               (case body of
                  None \<Rightarrow> (s, Problem 400 ''bad request'')
                | Some dl0 \<Rightarrow>
                    if dlTitle dl0 = '''' \<or> DueAt dl0 = '''' then (s, Problem 422 ''validation failed'')
                    else if parse (DueAt dl0) = None then (s, Problem 422 ''validation failed'')
                    else (let dl = dl0\<lparr>dlID := ''dl-'' @ ceULID e, dlMatterID := mtID m, dlStatus := ''open'',
                                       Severity := (if Severity dl0 = '''' then ''info'' else Severity dl0), dlCreatedAt := ceNow e\<rparr>
                          in (upd_store (PutDeadline (ceLog e) dl) s, Reply 201 dl)))))"

definition handleListDeadlines :: "case_env \<Rightarrow> principal \<Rightarrow> string \<Rightarrow> string \<Rightarrow> string \<Rightarrow> CaseService \<Rightarrow> Deadline list response" where
  "handleListDeadlines e p matterID status dueBefore s = Reply 200 (ListDeadlines (ceOrd e) matterID status dueBefore (caStore s))"

record deadline_patch =
  dpStatus :: "string option"
  dpDueAt :: "string option"

definition finish_deadline :: "case_env \<Rightarrow> (string \<Rightarrow> int option) \<Rightarrow> Deadline \<Rightarrow> deadline_patch \<Rightarrow> CaseService \<Rightarrow> CaseService \<times> Deadline response" where
  "finish_deadline e parse dl pt s =
     (case dpDueAt pt of
        Some d \<Rightarrow>
          if parse d = None then (upd_store (poke_deadline dl) s, Problem 422 ''validation failed'')
          else (upd_store (PutDeadline (ceLog e) (dl\<lparr>DueAt := d\<rparr>)) s, Reply 200 (dl\<lparr>DueAt := d\<rparr>))
      | None \<Rightarrow> (upd_store (PutDeadline (ceLog e) dl) s, Reply 200 dl))"

text \<open>A deadline whose matter is unknown can be changed by everybody. The status is changed before the date is checked.\<close>

definition handleUpdateDeadline :: "case_env \<Rightarrow> (string \<Rightarrow> int option) \<Rightarrow> principal \<Rightarrow> string \<Rightarrow> deadline_patch option \<Rightarrow>
    CaseService \<Rightarrow> CaseService \<times> Deadline response" where
  "handleUpdateDeadline e parse p i body s =
     (case GetDeadline i (caStore s) of
        None \<Rightarrow> (s, Problem 404 ''not found'')
      | Some dl \<Rightarrow>
          (case (case GetMatter (dlMatterID dl) (caStore s) of None \<Rightarrow> Some True | Some m \<Rightarrow> mayWrite p m s) of
             None \<Rightarrow> (s, panicked)
           | Some False \<Rightarrow> (s, Problem 403 ''forbidden'')
           | Some True \<Rightarrow>
               (case body of
                  None \<Rightarrow> (s, Problem 400 ''bad request'')
                | Some pt \<Rightarrow>
                    (case dpStatus pt of
                       Some x \<Rightarrow>
                         if x \<notin> {''open'', ''met'', ''missed'', ''escalated''} then (s, Problem 422 ''validation failed'')
                         else finish_deadline e parse (dl\<lparr>dlStatus := x\<rparr>) pt s
                     | None \<Rightarrow> finish_deadline e parse dl pt s))))"

section \<open>The client portal\<close>

definition TrimPrefix :: "string \<Rightarrow> string \<Rightarrow> string" where
  "TrimPrefix s p = (if HasPrefix s p then drop (length p) s else s)"

fun portal_loop :: "principal \<Rightarrow> CaseService \<Rightarrow> Matter list \<Rightarrow> Matter list option" where
  "portal_loop p s [] = Some []"
| "portal_loop p s (m # ms) =
     (if mtClientID m = TrimPrefix (prSubject p) ''user:'' then map_option ((#) m) (portal_loop p s ms)
      else (case checkRel (''matter:'' @ mtID m) ''read'' (prSubject p) s of
              None \<Rightarrow> None
            | Some b \<Rightarrow> map_option (\<lambda>ms'. if b then m # ms' else ms') (portal_loop p s ms)))"

definition handlePortalMatters :: "case_env \<Rightarrow> principal \<Rightarrow> CaseService \<Rightarrow> Matter list response" where
  "handlePortalMatters e p s =
     (case portal_loop p s (ListMatters (ceOrd e) '''' '''' '''' (caStore s)) of None \<Rightarrow> panicked | Some ms \<Rightarrow> Reply 200 ms)"

definition handlePortalMatter :: "case_env \<Rightarrow> principal \<Rightarrow> string \<Rightarrow> CaseService \<Rightarrow> (Matter \<times> Document list \<times> Deadline list) response" where
  "handlePortalMatter e p i s =
     (case GetMatter i (caStore s) of
        None \<Rightarrow> Problem 404 ''not found''
      | Some m \<Rightarrow>
          (case (if mtClientID m = TrimPrefix (prSubject p) ''user:'' then Some True
                 else (case checkRel (''matter:'' @ mtID m) ''read'' (prSubject p) s of
                         None \<Rightarrow> None | Some True \<Rightarrow> Some True | Some False \<Rightarrow> Some (prRole p = ''admin''))) of
             None \<Rightarrow> panicked
           | Some False \<Rightarrow> Problem 403 ''forbidden''
           | Some True \<Rightarrow> Reply 200 (m, ListDocuments (ceOrd e) (mtID m) False (caStore s), ListDeadlines (ceOrd e) (mtID m) ''open'' '''' (caStore s))))"

section \<open>Relations\<close>

definition relCheckerMode :: "CaseService \<Rightarrow> string" where
  "relCheckerMode s = (if caPerm s \<noteq> None then ''permify-live'' else ''dev-file-backed'')"

definition handleRelCheck :: "principal \<Rightarrow> (string \<times> string \<times> string) option \<Rightarrow> CaseService \<Rightarrow> (bool \<times> string) response" where
  "handleRelCheck p req s =
     (case req of
        None \<Rightarrow> Problem 400 ''bad request''
      | Some (entity, permission, subject) \<Rightarrow>
          (case checkRel entity permission subject s of None \<Rightarrow> panicked | Some allowed \<Rightarrow> Reply 200 (allowed, relCheckerMode s)))"

definition handleRelList :: "principal \<Rightarrow> string \<Rightarrow> string \<Rightarrow> CaseService \<Rightarrow> RelationTuple list response" where
  "handleRelList p entity relation s =
     (case caPerm s of
        Some c \<Rightarrow> (case ReadRelationships c entity relation of None \<Rightarrow> Problem 502 ''bad gateway'' | Some ts \<Rightarrow> Reply 200 ts)
      | None \<Rightarrow> Reply 200 (tuples (caRel s)))"

definition grantableRelations :: "string \<Rightarrow> string list option" where
  "grantableRelations t =
     (if t = ''matter'' then Some [''counsel'', ''client'', ''supervising_partner'']
      else if t = ''doc'' then Some [''matter'', ''owner''] else None)"

definition validateRelationTuple :: "RelationTuple \<Rightarrow> bool" where
  "validateRelationTuple t =
     (case split_first (CHR '':'') (Entity t) of
        None \<Rightarrow> False
      | Some (etyp, eid) \<Rightarrow>
          if etyp = '''' \<or> eid = '''' then False
          else (case split_first (CHR '':'') (Subject t) of
                  None \<Rightarrow> False
                | Some (styp, sid) \<Rightarrow>
                    if styp = '''' \<or> sid = '''' then False
                    else (case grantableRelations etyp of None \<Rightarrow> False | Some rels \<Rightarrow> Relation t \<in> set rels)))"

definition handleRelGrant :: "case_env \<Rightarrow> principal \<Rightarrow> RelationTuple option \<Rightarrow> CaseService \<Rightarrow> CaseService \<times> RelationTuple response" where
  "handleRelGrant e p body s =
     (if prRole p \<noteq> ''admin'' then (s, Problem 403 ''forbidden'')
      else (case body of
              None \<Rightarrow> (s, Problem 400 ''bad request'')
            | Some t \<Rightarrow>
                if \<not> validateRelationTuple t then (s, Problem 400 ''bad request'')
                else (case caPerm s of
                        Some c \<Rightarrow> if WriteRelationship c (Entity t) (Relation t) (Subject t) then (s, Reply 201 t) else (s, Problem 502 ''bad gateway'')
                      | None \<Rightarrow> (upd_rel (Grant (ceRel e 0) t) s, Reply 201 t))))"

definition handleRelRevoke :: "case_env \<Rightarrow> principal \<Rightarrow> RelationTuple option \<Rightarrow> CaseService \<Rightarrow> CaseService \<times> string response" where
  "handleRelRevoke e p body s =
     (if prRole p \<noteq> ''admin'' then (s, Problem 403 ''forbidden'')
      else (case body of
              None \<Rightarrow> (s, Problem 400 ''bad request'')
            | Some t \<Rightarrow>
                if \<not> validateRelationTuple t then (s, Problem 400 ''bad request'')
                else (case caPerm s of
                        Some c \<Rightarrow> if DeleteRelationship c (Entity t) (Relation t) (Subject t) then (s, Reply 200 ''revoked'') else (s, Problem 502 ''bad gateway'')
                      | None \<Rightarrow> (upd_rel (RevokeRel (ceRel e 0) (Entity t) (Relation t) (Subject t)) s, Reply 200 ''revoked''))))"

end
