(* ===== verification/Case_Watch.thy ===== *)
theory Case_Watch
  imports Case_Handlers
begin

text \<open>
  The evidence packs of the case-management service with the local write-once store
  (\<^verbatim>\<open>handlers.go\<close>, \<^verbatim>\<open>integrations.go\<close>), the deadline watch, and the workflow runner (\<^verbatim>\<open>workflows.go\<close>).
\<close>

section \<open>Write-once evidence\<close>

record EvidenceReceipt =
  erID :: string
  erSHA256 :: string
  WORMURI :: string
  erSource :: string
  StoredAt :: string

record worm_manifest =
  wmKind :: string
  wmMeta :: "(string \<times> string) list"
  wmStoredAt :: string

record LocalWORM =
  wormFiles :: "string \<rightharpoonup> blob"
  wormManifests :: "string \<rightharpoonup> worm_manifest"

text \<open>
  The directory, the file and the manifest may fail to be written; the last failure is not reported.
  The manifest is created read-only, so that writing it again fails for an ordinary user: the
  outcome is an argument like the others.
\<close>

definition LocalStore :: "(blob \<Rightarrow> string) \<Rightarrow> string \<Rightarrow> bool \<times> bool \<times> bool \<Rightarrow> string \<Rightarrow> blob \<Rightarrow> (string \<times> string) list \<Rightarrow>
    LocalWORM \<Rightarrow> LocalWORM \<times> EvidenceReceipt option" where
  "LocalStore sha now oks kind payload meta l =
     (case oks of (dirOk, fileOk, manOk) \<Rightarrow>
        if \<not> dirOk then (l, None)
        else if wormFiles l (sha payload) = None \<and> \<not> fileOk then (l, None)
        else (let hexsum = sha payload;
                  l1 = (if wormFiles l hexsum = None then l\<lparr>wormFiles := (wormFiles l)(hexsum \<mapsto> payload)\<rparr> else l);
                  l2 = (if manOk then l1\<lparr>wormManifests := (wormManifests l1)(hexsum \<mapsto> \<lparr>wmKind = kind, wmMeta = meta, wmStoredAt = now\<rparr>)\<rparr> else l1)
              in (l2, Some \<lparr>erID = ''ev-'' @ take 16 hexsum, erSHA256 = hexsum, WORMURI = ''worm://local/'' @ hexsum, erSource = ''local'', StoredAt = now\<rparr>)))"

record evidence_pack =
  epID :: string
  epAssembledAt :: string
  epAssembledBy :: string
  epMatter :: Matter
  epDeadlines :: "Deadline list"
  epDocuments :: "Document list" \<comment> \<open>metadata and hash, never the content\<close>
  epRelations :: "RelationTuple list"

definition assemble_pack :: "case_env \<Rightarrow> principal \<Rightarrow> Matter \<Rightarrow> CaseService \<Rightarrow> evidence_pack" where
  "assemble_pack e p m s =
     \<lparr>epID = ''evp-'' @ ceULID e, epAssembledAt = ceNow e, epAssembledBy = prSubject p, epMatter = m,
      epDeadlines = ListDeadlines (ceOrd e) (mtID m) '''' '''' (caStore s),
      epDocuments = ListDocuments (ceOrd e) (mtID m) True (caStore s),
      epRelations = filter (\<lambda>t. HasSuffix (Entity t) ('':'' @ mtID m)) (tuples (caRel s))\<rparr>"

text \<open>\<open>store\<close> is the \<^verbatim>\<open>WORMClient\<close>, \<open>enc\<close> the JSON encoder.\<close>

definition handleEvidencePack :: "case_env \<Rightarrow> (evidence_pack \<Rightarrow> blob) \<Rightarrow>
    (string \<Rightarrow> blob \<Rightarrow> (string \<times> string) list \<Rightarrow> 'w \<Rightarrow> 'w \<times> EvidenceReceipt option) \<Rightarrow> principal \<Rightarrow> string \<Rightarrow> CaseService \<Rightarrow> 'w \<Rightarrow>
    'w \<times> (evidence_pack \<times> EvidenceReceipt) response" where
  "handleEvidencePack e enc store p i s w =
     (case GetMatter i (caStore s) of
        None \<Rightarrow> (w, Problem 404 ''not found'')
      | Some m \<Rightarrow>
          (case mayWrite p m s of
             None \<Rightarrow> (w, panicked)
           | Some False \<Rightarrow> (w, Problem 403 ''forbidden'')
           | Some True \<Rightarrow>
               (let pack = assemble_pack e p m s
                in case store ''case-evidence-pack'' (enc pack) [(''matter_id'', mtID m), (''ref'', mtRef m)] w of
                     (w1, None) \<Rightarrow> (w1, Problem 502 ''WORM store failed'')
                   | (w1, Some receipt) \<Rightarrow> (w1, Reply 201 (pack, receipt)))))"

section \<open>The deadline watch\<close>

definition send :: "string \<Rightarrow> string \<Rightarrow> CaseService \<Rightarrow> CaseService" where
  "send to subject s = s\<lparr>caSent := caSent s @ [(''email'', to, subject)]\<rparr>"

text \<open>\<open>warnBefore\<close> is the formatted instant 72 hours from \<open>now\<close>; the comparison with it is one of strings.\<close>

definition scan_one :: "(string \<Rightarrow> int option) \<Rightarrow> int \<Rightarrow> string \<Rightarrow> log_env \<Rightarrow> Deadline \<Rightarrow> CaseService \<Rightarrow> CaseService" where
  "scan_one parse now warnBefore e dl s =
     (case parse (DueAt dl) of
        None \<Rightarrow> s
      | Some due \<Rightarrow>
          if due < now
          then (if \<not> Escalated dl
                then upd_store (PutDeadline e (dl\<lparr>Escalated := True, dlStatus := ''escalated''\<rparr>))
                       (send (case GetMatter (dlMatterID dl) (caStore s) of None \<Rightarrow> ''registry'' | Some m \<Rightarrow> mtClientID m)
                          (''DEADLINE MISSED: '' @ dlTitle dl) s)
                else upd_store (PutDeadline e (dl\<lparr>dlStatus := ''missed''\<rparr>)) s)
          else if DueAt dl \<le> warnBefore
          then (let s1 = send (case GetMatter (dlMatterID dl) (caStore s) of
                                 None \<Rightarrow> ''counsel'' | Some m \<Rightarrow> (case mtCounsel m of [] \<Rightarrow> ''counsel'' | c # _ \<Rightarrow> c))
                           (''Deadline approaching: '' @ dlTitle dl) s
                in if Severity dl = ''info'' then upd_store (PutDeadline e (dl\<lparr>Severity := ''warning''\<rparr>)) s1 else s1)
          else s)"

fun scan_loop :: "(string \<Rightarrow> int option) \<Rightarrow> int \<Rightarrow> string \<Rightarrow> (nat \<Rightarrow> log_env) \<Rightarrow> nat \<Rightarrow> Deadline list \<Rightarrow> CaseService \<Rightarrow> CaseService" where
  "scan_loop parse now warnBefore es n [] s = s"
| "scan_loop parse now warnBefore es n (dl # dls) s =
     scan_loop parse now warnBefore es (n + 1) dls (scan_one parse now warnBefore (es n) dl s)"

definition scanDeadlines :: "(string \<Rightarrow> int option) \<Rightarrow> int \<Rightarrow> string \<Rightarrow> (nat \<Rightarrow> log_env) \<Rightarrow> string list \<Rightarrow> CaseService \<Rightarrow> CaseService" where
  "scanDeadlines parse now warnBefore es ord s = scan_loop parse now warnBefore es 0 (ListDeadlines ord '''' ''open'' '''' (caStore s)) s"

section \<open>Workflows\<close>

datatype wf_result = IntakeMatters nat | RelationsSeeded nat | StatusCounts "string \<Rightarrow> nat" | DeadlineCounts nat nat

record WorkflowStep =
  wsName :: string
  wsAttempts :: nat
  wsStatus :: string
  wsDetail :: string

record CaseRun =
  crunWorkflow :: string
  crunStatus :: string
  crunSteps :: "WorkflowStep list"
  crunResult :: "wf_result option"

type_synonym caseActivity = "CaseService \<Rightarrow> CaseService \<times> (string + wf_result)"

definition count_status :: "string \<Rightarrow> (string \<Rightarrow> nat) \<Rightarrow> string \<Rightarrow> nat" where
  "count_status x c = c(x := c x + 1)"

definition case_workflows :: "(CaseService \<Rightarrow> CaseService) \<Rightarrow> string list \<Rightarrow> string \<Rightarrow> caseActivity list option" where
  "case_workflows scan ord name =
     (if name = ''wf-case-intake''
      then Some [\<lambda>s. (s, Inr (IntakeMatters (length (ListMatters ord '''' ''intake'' '''' (caStore s))))),
                 \<lambda>s. (s, Inr (RelationsSeeded (length (tuples (caRel s)))))]
      else if name = ''wf-case-lifecycle''
      then Some [\<lambda>s. (s, Inr (StatusCounts (fold (\<lambda>m. count_status (mtStatus m)) (ListMatters ord '''' '''' '''' (caStore s)) (\<lambda>_. 0))))]
      else if name = ''wf-case-deadlines''
      then Some [\<lambda>s. (let s1 = scan s
                      in (s1, Inr (DeadlineCounts (length (ListDeadlines ord '''' ''open'' '''' (caStore s1)))
                                     (length (ListDeadlines ord '''' ''escalated'' '''' (caStore s1))))))]
      else None)"

text \<open>The attempts of a step: the number made and the last outcome.\<close>

fun case_attempts :: "caseActivity \<Rightarrow> nat \<Rightarrow> nat \<Rightarrow> CaseService \<Rightarrow> CaseService \<times> nat \<times> (string + wf_result)" where
  "case_attempts step 0 attempt s = (s, attempt - 1, Inl '''')"
| "case_attempts step (Suc left) attempt s =
     (case step s of
        (s1, Inr r) \<Rightarrow> (s1, attempt, Inr r)
      | (s1, Inl e) \<Rightarrow> if left = 0 then (s1, attempt, Inl e) else case_attempts step left (attempt + 1) s1)"

fun case_steps :: "string \<Rightarrow> caseActivity list \<Rightarrow> WorkflowStep list \<Rightarrow> wf_result option \<Rightarrow> CaseService \<Rightarrow> CaseService \<times> CaseRun" where
  "case_steps name [] done_steps prev s =
     (s, \<lparr>crunWorkflow = name, crunStatus = ''completed'', crunSteps = done_steps, crunResult = prev\<rparr>)"
| "case_steps name (step # steps) done_steps prev s =
     (case case_attempts step 3 1 s of
        (s1, n, Inr r) \<Rightarrow> case_steps name steps (done_steps @ [\<lparr>wsName = name, wsAttempts = n, wsStatus = ''ok'', wsDetail = ''''\<rparr>]) (Some r) s1
      | (s1, n, Inl e) \<Rightarrow>
          (s1, \<lparr>crunWorkflow = name, crunStatus = ''failed'',
                crunSteps = done_steps @ [\<lparr>wsName = name, wsAttempts = n, wsStatus = ''failed'', wsDetail = e\<rparr>], crunResult = prev\<rparr>))"

definition handleWorkflowRun :: "(CaseService \<Rightarrow> CaseService) \<Rightarrow> string list \<Rightarrow> string \<Rightarrow> CaseService \<Rightarrow> CaseService \<times> CaseRun response" where
  "handleWorkflowRun scan ord name s =
     (case case_workflows scan ord name of
        None \<Rightarrow> (s, Problem 404 ''unknown workflow'')
      | Some steps \<Rightarrow> (case case_steps name steps [] None s of (s1, run) \<Rightarrow> (s1, Reply 200 run)))"

end
