(* ===== verification/Case_Guarantees.thy ===== *)
theory Case_Guarantees
  imports Case_Watch
begin

text \<open>
  What the case-management service guarantees over any sequence of requests, scans and restarts:
  who can read a privileged document, that stored content has the recorded hash, and what a
  restart rebuilds.
\<close>

section \<open>Requests as steps\<close>

text \<open>The operations that change state, with everything they depend on.\<close>

datatype case_op =
  OpCreateMatter case_env principal "Matter option"
| OpUpdateMatter case_env principal string "matter_patch option"
| OpUploadDoc case_env principal string "nat + (string \<times> string \<times> bool \<times> blob)"
| OpCreateDeadline case_env principal string "Deadline option"
| OpUpdateDeadline case_env principal string "deadline_patch option"
| OpGrant case_env principal "RelationTuple option"
| OpRevoke case_env principal "RelationTuple option"
| OpScan int string "nat \<Rightarrow> log_env" "string list"
| OpRestart bool

fun status_of :: "'a response \<Rightarrow> nat" where
  "status_of (Problem n t) = n"
| "status_of (Reply n x) = n"

definition restart :: "(logRec \<Rightarrow> bool) \<Rightarrow> bool \<Rightarrow> CaseService \<Rightarrow> CaseService" where
  "restart fits opens s =
     s\<lparr>caStore := NewCaseStore fits opens (caseLog (caStore s)) (blobs (caStore s)), caRel := NewRelationChecker (relFile (caRel s)), caSent := []\<rparr>"

text \<open>The state after an operation and the status of its answer (200 where there is none).\<close>

fun exec :: "(blob \<Rightarrow> string) \<Rightarrow> (string \<Rightarrow> int option) \<Rightarrow> (logRec \<Rightarrow> bool) \<Rightarrow> case_op \<Rightarrow> CaseService \<Rightarrow> CaseService \<times> nat" where
  "exec sha parse fits (OpCreateMatter e p b) s = map_prod id status_of (handleCreateMatter e p b s)"
| "exec sha parse fits (OpUpdateMatter e p i b) s = map_prod id status_of (handleUpdateMatter e p i b s)"
| "exec sha parse fits (OpUploadDoc e p i u) s = map_prod id status_of (handleUploadDoc e sha p i u s)"
| "exec sha parse fits (OpCreateDeadline e p i b) s = map_prod id status_of (handleCreateDeadline e parse p i b s)"
| "exec sha parse fits (OpUpdateDeadline e p i b) s = map_prod id status_of (handleUpdateDeadline e parse p i b s)"
| "exec sha parse fits (OpGrant e p b) s = map_prod id status_of (handleRelGrant e p b s)"
| "exec sha parse fits (OpRevoke e p b) s = map_prod id status_of (handleRelRevoke e p b s)"
| "exec sha parse fits (OpScan now w es ord) s = (scanDeadlines parse now w es ord s, 200)"
| "exec sha parse fits (OpRestart opens) s = (restart fits opens s, 200)"

fun exec_all :: "(blob \<Rightarrow> string) \<Rightarrow> (string \<Rightarrow> int option) \<Rightarrow> (logRec \<Rightarrow> bool) \<Rightarrow> case_op list \<Rightarrow> CaseService \<Rightarrow> CaseService" where
  "exec_all sha parse fits [] s = s"
| "exec_all sha parse fits (x # xs) s = exec_all sha parse fits xs (fst (exec sha parse fits x s))"

definition fresh_service :: "PermifyClient option \<Rightarrow> CaseService" where
  "fresh_service pm = \<lparr>caStore = NewCaseStore (\<lambda>_. True) True [] Map.empty, caRel = NewRelationChecker [], caPerm = pm, caSent = []\<rparr>"

section \<open>Who reads a privileged document\<close>

text \<open>Every document that exists, in memory or in the log, and every tuple, in memory or in the file.\<close>

definition all_docs :: "CaseService \<Rightarrow> Document set" where
  "all_docs s = ran (csDocs (caStore s)) \<union> {d. DocRec d \<in> set (caseLog (caStore s))}"

definition all_tuples :: "CaseService \<Rightarrow> RelationTuple set" where
  "all_tuples s = set (tuples (caRel s)) \<union> set (relFile (caRel s))"

definition docs_ok :: "(blob \<Rightarrow> string) \<Rightarrow> CaseService \<Rightarrow> bool" where
  "docs_ok sha s \<longleftrightarrow> (\<forall>i d. csDocs (caStore s) i = Some d \<longrightarrow> dcID d = i) \<and>
     (\<forall>d\<in>all_docs s. \<forall>b. blobs (caStore s) (dcID d) = Some b \<longrightarrow> sha b = dcSHA256 d) \<and>
     (\<forall>d\<in>all_docs s. \<forall>t\<in>all_tuples s. Relation t = ''privileged'' \<longrightarrow> Entity t = ''doc:'' @ dcID d \<longrightarrow> Subject t = UploadedBy d)"

text \<open>A ULID is fresh for the upload: no document and no tuple has it.\<close>

fun fresh_op :: "case_op \<Rightarrow> CaseService \<Rightarrow> bool" where
  "fresh_op (OpUploadDoc e p i u) s =
     ((\<forall>d\<in>all_docs s. dcID d \<noteq> ''doc-'' @ ceULID e) \<and> (\<forall>t\<in>all_tuples s. Entity t \<noteq> ''doc:doc-'' @ ceULID e))"
| "fresh_op _ s = True"

fun fresh_ops :: "(blob \<Rightarrow> string) \<Rightarrow> (string \<Rightarrow> int option) \<Rightarrow> (logRec \<Rightarrow> bool) \<Rightarrow> case_op list \<Rightarrow> CaseService \<Rightarrow> bool" where
  "fresh_ops sha parse fits [] s = True"
| "fresh_ops sha parse fits (x # xs) s = (fresh_op x s \<and> fresh_ops sha parse fits xs (fst (exec sha parse fits x s)))"

text \<open>Frames of the store operations.\<close>

lemma appendLog_frame [simp]:
  "matters (appendLog e r st) = matters st" "csDocs (appendLog e r st) = csDocs st" "deadlines (appendLog e r st) = deadlines st"
  "blobs (appendLog e r st) = blobs st" "csSeq (appendLog e r st) = csSeq st" "logOpen (appendLog e r st) = logOpen st"
  by (simp_all add: appendLog_def Let_def split: option.split)

lemma appendLog_log: "set (caseLog (appendLog e r st)) \<subseteq> insert r (set (caseLog st))"
  by (auto simp: appendLog_def Let_def split: option.split)

lemma poke_frame [simp]:
  "csDocs (poke_matter m st) = csDocs st" "blobs (poke_matter m st) = blobs st" "caseLog (poke_matter m st) = caseLog st"
  "csDocs (poke_deadline dl st) = csDocs st" "blobs (poke_deadline dl st) = blobs st" "caseLog (poke_deadline dl st) = caseLog st"
  by (simp_all add: poke_matter_def poke_deadline_def)

lemma put_frame [simp]:
  "csDocs (PutMatter e m st) = csDocs st" "blobs (PutMatter e m st) = blobs st"
  "csDocs (PutDeadline e dl st) = csDocs st" "blobs (PutDeadline e dl st) = blobs st"
  by (simp_all add: PutMatter_def PutDeadline_def)

lemma put_log:
  "DocRec d \<in> set (caseLog (PutMatter e m st)) \<Longrightarrow> DocRec d \<in> set (caseLog st)"
  "DocRec d \<in> set (caseLog (PutDeadline e dl st)) \<Longrightarrow> DocRec d \<in> set (caseLog st)"
  using appendLog_log [of e "MatterRec m" "poke_matter m st"] appendLog_log [of e "DeadlineRec dl" "poke_deadline dl st"]
  by (auto simp: PutMatter_def PutDeadline_def)

lemma rel_persist_tuples [simp]: "tuples (rel_persist o1 rc) = tuples rc"
  by (simp add: rel_persist_def split: file_write.split)

lemma rel_persist_file: "set (relFile (rel_persist o1 rc)) \<subseteq> set (relFile rc) \<union> set (tuples rc)"
  by (auto simp: rel_persist_def split: file_write.split)

definition rel_within :: "RelationTuple set \<Rightarrow> RelationChecker \<Rightarrow> RelationChecker \<Rightarrow> bool" where
  "rel_within T rc rc' \<longleftrightarrow> set (tuples rc') \<union> set (relFile rc') \<subseteq> set (tuples rc) \<union> set (relFile rc) \<union> T"

lemma Grant_within: "rel_within {t} rc (Grant o1 t rc)"
  using rel_persist_file [of o1 "rc\<lparr>tuples := tuples rc @ [t]\<rparr>"] by (auto simp: rel_within_def Grant_def)

lemma grant_all_within: "rel_within (set ts) rc (grant_all o1 n ts rc)"
proof (induction ts arbitrary: n rc)
  case (Cons t ts)
  from Cons [where n = "n + 1" and rc = "Grant (o1 n) t rc"] Grant_within [of t rc "o1 n"] show ?case by (auto simp: rel_within_def)
qed (simp add: rel_within_def)

lemma RevokeRel_within: "rel_within {} rc (RevokeRel o1 a b c rc)"
  using rel_persist_file [of o1 "rc\<lparr>tuples := filter (\<lambda>e. \<not> (Entity e = a \<and> Relation e = b \<and> Subject e = c)) (tuples rc)\<rparr>"]
  by (auto simp: rel_within_def RevokeRel_def)

lemma grantable_not_privileged: "validateRelationTuple t \<Longrightarrow> Relation t \<noteq> ''privileged''"
  by (auto simp: validateRelationTuple_def grantableRelations_def split: option.splits prod.splits if_splits)

text \<open>Steps that add no document and no privilege keep the invariant.\<close>

definition quiet :: "CaseService \<Rightarrow> CaseService \<Rightarrow> bool" where
  "quiet s s' \<longleftrightarrow> all_docs s' \<subseteq> all_docs s \<and> blobs (caStore s') = blobs (caStore s) \<and>
     (\<forall>i d. csDocs (caStore s') i = Some d \<longrightarrow> csDocs (caStore s) i = Some d \<or> i = dcID d) \<and>
     {t \<in> all_tuples s'. Relation t = ''privileged''} \<subseteq> all_tuples s"

lemma docs_ok_quiet: "docs_ok sha s \<Longrightarrow> quiet s s' \<Longrightarrow> docs_ok sha s'"
  unfolding docs_ok_def quiet_def by (auto simp: subset_iff) metis

lemma quiet_refl [simp]: "quiet s s"
  by (auto simp: quiet_def)

lemma quiet_trans: "quiet a b \<Longrightarrow> quiet b c \<Longrightarrow> quiet a c"
  unfolding quiet_def by (auto simp: subset_iff) metis

lemma quiet_store:
  assumes "csDocs st = csDocs (caStore s)" "blobs st = blobs (caStore s)" "\<And>d. DocRec d \<in> set (caseLog st) \<Longrightarrow> DocRec d \<in> set (caseLog (caStore s))"
    and "rel_within T (caRel s) rc" "\<forall>t\<in>T. Relation t \<noteq> ''privileged''"
  shows "quiet s (s\<lparr>caStore := st, caRel := rc\<rparr>)"
  using assms by (auto simp: quiet_def all_docs_def all_tuples_def rel_within_def)


lemma quiet_upd_store:
  assumes "csDocs (f (caStore s)) = csDocs (caStore s)" "blobs (f (caStore s)) = blobs (caStore s)"
    "\<And>d. DocRec d \<in> set (caseLog (f (caStore s))) \<Longrightarrow> DocRec d \<in> set (caseLog (caStore s))"
  shows "quiet s (upd_store f s)"
  using assms by (auto simp: quiet_def all_docs_def all_tuples_def upd_store_def)

lemma quiet_upd_rel:
  assumes "rel_within T (caRel s) (f (caRel s))" "\<forall>t\<in>T. Relation t \<noteq> ''privileged''"
  shows "quiet s (upd_rel f s)"
  using assms by (auto simp: quiet_def all_docs_def all_tuples_def rel_within_def upd_rel_def)

lemma quiet_send [simp]: "quiet s (send a b s)"
  by (auto simp: quiet_def all_docs_def all_tuples_def send_def)

lemma quiet_pokes [simp]:
  "quiet s (upd_store (poke_matter m) s)" "quiet s (upd_store (poke_deadline dl) s)" "quiet s (upd_store (PutDeadline e dl) s)"
  by (rule quiet_upd_store, simp, simp, simp add: put_log(2))+

lemma quiet_finish_update: "quiet s (fst (finish_update e m pt s))"
proof -
  have w: "\<forall>t\<in>set (counsel_tuples (mtID m) cs). Relation t \<noteq> ''privileged''" for cs by (simp add: counsel_tuples_def)
  have n: "rel_within {} (caRel s) (caRel s)" by (simp add: rel_within_def)
  have a: "quiet s (s\<lparr>caStore := PutMatter (ceLog e) m (caStore s), caRel := caRel s\<rparr>)" for m
    by (rule quiet_store [OF _ _ _ n]) (simp_all add: put_log(1))
  have b: "quiet s (s\<lparr>caStore := PutMatter (ceLog e) m' (caStore s), caRel := grant_all (ceRel e) 0 (counsel_tuples (mtID m) cs) (caRel s)\<rparr>)" for m' cs
    by (rule quiet_store [OF _ _ _ grant_all_within w]) (simp_all add: put_log(1))
  show ?thesis using a b by (cases "ptCounsel pt") (simp_all add: finish_update_def Let_def)
qed

lemma quiet_finish_deadline: "quiet s (fst (finish_deadline e parse dl pt s))"
  by (auto simp: finish_deadline_def split: option.split)

lemma quiet_create: "quiet s (fst (handleCreateMatter e p b s))"
proof (cases "\<exists>m0. b = Some m0 \<and> \<not> (mtTitle m0 = '''' \<or> mtClientID m0 = '''')")
  case True
  then obtain m0 where b: "b = Some m0" "\<not> (mtTitle m0 = '''' \<or> mtClientID m0 = '''')" by blast
  obtain st1 ref where n: "(if mtRef m0 = '''' then nextRef (ceYear e) (caStore s) else (caStore s, mtRef m0)) = (st1, ref)" by fastforce
  have st1: "csDocs st1 = csDocs (caStore s)" "blobs st1 = blobs (caStore s)" "caseLog st1 = caseLog (caStore s)"
    using n by (auto simp: nextRef_def split: if_splits)
  have w: "\<forall>t\<in>set (seed_tuples p m). Relation t \<noteq> ''privileged''" for m by (simp add: seed_tuples_def counsel_tuples_def)
  have "quiet s (s\<lparr>caStore := PutMatter (ceLog e) m st1, caRel := grant_all (ceRel e) 0 (seed_tuples p m) (caRel s)\<rparr>)" for m
    by (rule quiet_store [OF _ _ _ grant_all_within w]) (use st1 put_log(1) [of _ "ceLog e" m st1] in simp_all)
  then show ?thesis using b n by (simp add: handleCreateMatter_def Let_def)
next
  case False
  then show ?thesis by (auto simp: handleCreateMatter_def split: option.split)
qed

lemma quiet_update: "quiet s (fst (handleUpdateMatter e p i b s))"
  by (auto simp: handleUpdateMatter_def quiet_finish_update Let_def split: option.split bool.split)

lemma quiet_create_deadline: "quiet s (fst (handleCreateDeadline e parse p i b s))"
  by (auto simp: handleCreateDeadline_def Let_def split: option.split bool.split)

lemma quiet_update_deadline: "quiet s (fst (handleUpdateDeadline e parse p i b s))"
  by (auto simp: handleUpdateDeadline_def quiet_finish_deadline Let_def split: option.split bool.split)

lemma quiet_grant: "quiet s (fst (handleRelGrant e p b s))"
proof -
  have "quiet s (upd_rel (Grant o1 t) s)" if "validateRelationTuple t" for o1 t
    by (rule quiet_upd_rel [where T = "{t}"]) (use that grantable_not_privileged Grant_within in auto)
  then show ?thesis by (auto simp: handleRelGrant_def split: option.split)
qed

lemma quiet_revoke: "quiet s (fst (handleRelRevoke e p b s))"
proof -
  have "quiet s (upd_rel (RevokeRel o1 a b c) s)" for o1 a b c
    by (rule quiet_upd_rel [where T = "{}"]) (use RevokeRel_within in auto)
  then show ?thesis by (auto simp: handleRelRevoke_def split: option.split)
qed

lemma quiet_scan_one: "quiet s (scan_one parse now w e dl s)"
proof -
  have "quiet s (upd_store (PutDeadline e d) (send a b s))" for d a b
    by (rule quiet_trans [OF quiet_send quiet_pokes(3)])
  then show ?thesis by (auto simp: scan_one_def Let_def split: option.split)
qed

lemma quiet_scan: "quiet s (scanDeadlines parse now w es ord s)"
proof -
  have "quiet s (scan_loop parse now w es n dls s)" for n dls
  proof (induction dls arbitrary: n s)
    case (Cons dl dls)
    from quiet_trans [OF quiet_scan_one Cons] show ?case by simp
  qed simp
  then show ?thesis by (simp add: scanDeadlines_def)
qed

text \<open>A restart reads documents and tuples that were there before.\<close>

lemma fold_index_docs:
  "csDocs (fold index_rec rs st) i = Some d \<Longrightarrow> csDocs st i = Some d \<or> (DocRec d \<in> set rs \<and> i = dcID d)"
proof (induction rs arbitrary: st)
  case (Cons r rs)
  from Cons.IH [of "index_rec r st"] Cons.prems show ?case by (auto simp: index_rec_def split: logRec.splits if_splits)
qed simp

lemma fold_index_frame: "caseLog (fold index_rec rs st) = caseLog st" "blobs (fold index_rec rs st) = blobs st"
  by (induction rs arbitrary: st) (simp_all add: index_rec_def split: logRec.split)

lemma New_frame [simp]: "caseLog (NewCaseStore fits opens lg bs) = lg" "blobs (NewCaseStore fits opens lg bs) = bs"
  by (simp_all add: NewCaseStore_def case_replay_def fold_index_frame)

lemma New_docs: "csDocs (NewCaseStore fits opens lg bs) i = Some d \<Longrightarrow> DocRec d \<in> set lg \<and> i = dcID d"
  by (auto simp: NewCaseStore_def case_replay_def dest!: fold_index_docs set_takeWhileD)

lemma quiet_restart: "quiet s (restart fits opens s)"
  using New_docs [of fits opens "caseLog (caStore s)" "blobs (caStore s)"]
  by (auto simp: quiet_def restart_def all_docs_def all_tuples_def NewRelationChecker_def ran_def)


lemma upload_cases:
  assumes "handleUploadDoc e sha p i u s = (s', r)"
  obtains (refused) "s' = s" "\<exists>n t. r = Problem n t"
  | (stored) m up d where "GetMatter i (caStore s) = Some m" "mayWrite p m s = Some True" "d = new_document e sha p m up" "r = Reply 201 d"
      "s' = s\<lparr>caStore := fst (PutDocument (ceLog e) True d (snd (snd (snd up))) (caStore s)),
              caRel := (if Privileged d then Grant (ceRel e 0) (privilege_tuple p d) (caRel s) else caRel s)\<rparr>"
proof (cases "\<exists>m up. GetMatter i (caStore s) = Some m \<and> mayWrite p m s = Some True \<and> u = Inr up \<and> fst up \<noteq> '''' \<and> snd (snd (snd up)) \<noteq> [] \<and> ceBlob e")
  case True
  then obtain m name mime priv content where c: "GetMatter i (caStore s) = Some m" "mayWrite p m s = Some True" "u = Inr (name, mime, priv, content)"
    "name \<noteq> ''''" "content \<noteq> []" "ceBlob e" by auto
  let ?up = "(name, mime, priv, content)"
  let ?d = "new_document e sha p m ?up"
  have "Privileged ?d = priv" by (simp add: new_document_def)
  then show ?thesis using assms c by (intro stored [of m ?d ?up]) (auto simp: handleUploadDoc_def PutDocument_def Let_def)
next
  case False
  show ?thesis
    by (rule refused) (use assms False in \<open>auto simp: handleUploadDoc_def PutDocument_def Let_def split: option.splits bool.splits sum.splits if_splits\<close>)
qed

lemma new_document_fields [simp]:
  "dcID (new_document e sha p m up) = ''doc-'' @ ceULID e" "dcMatterID (new_document e sha p m up) = mtID m"
  "UploadedBy (new_document e sha p m up) = prSubject p" "dcSHA256 (new_document e sha p m up) = sha (snd (snd (snd up)))"
  by (simp_all add: new_document_def split: prod.split)

lemma docs_ok_upload:
  assumes "docs_ok sha s" "fresh_op (OpUploadDoc e p i u) s" "handleUploadDoc e sha p i u s = (s', r)"
  shows "docs_ok sha s'"
  using assms(3)
proof (cases rule: upload_cases)
  case (stored m up d)
  let ?content = "snd (snd (snd up))"
  have fd: "\<forall>x\<in>all_docs s. dcID x \<noteq> dcID d" and ft: "\<forall>t\<in>all_tuples s. Entity t \<noteq> ''doc:'' @ dcID d"
    using assms(2) stored(3) by auto
  have st: "csDocs (caStore s') = (csDocs (caStore s))(dcID d \<mapsto> d)" "blobs (caStore s') = (blobs (caStore s))(dcID d \<mapsto> ?content)"
    unfolding stored(5) by (simp_all add: PutDocument_def)
  have lg: "set (caseLog (caStore s')) \<subseteq> insert (DocRec d) (set (caseLog (caStore s)))"
    unfolding stored(5) PutDocument_def using appendLog_log by fastforce
  have docs: "all_docs s' \<subseteq> insert d (all_docs s)"
    using lg st(1) by (auto simp: all_docs_def ran_def split: if_splits)
  have tups: "all_tuples s' \<subseteq> insert (privilege_tuple p d) (all_tuples s)"
    using Grant_within [of "privilege_tuple p d" "caRel s" "ceRel e 0"] unfolding all_tuples_def stored(5) by (auto simp: rel_within_def)
  have pt: "Entity (privilege_tuple p d) = ''doc:'' @ dcID d" "Subject (privilege_tuple p d) = UploadedBy d"
    by (simp_all add: privilege_tuple_def stored(3))
  have sh: "dcSHA256 d = sha ?content" by (simp add: stored(3))
  note ok = assms(1) [unfolded docs_ok_def]
  show ?thesis
    unfolding docs_ok_def
  proof (intro conjI allI ballI impI)
    fix j x assume "csDocs (caStore s') j = Some x"
    then show "dcID x = j" using st(1) ok by (auto split: if_splits)
  next
    fix x b assume x: "x \<in> all_docs s'" "blobs (caStore s') (dcID x) = Some b"
    show "sha b = dcSHA256 x"
    proof (cases "x = d")
      case True
      then show ?thesis using x(2) st(2) sh by simp
    next
      case False
      then have "x \<in> all_docs s" using x(1) docs by blast
      then show ?thesis using x(2) st(2) fd ok by auto
    qed
  next
    fix x t assume x: "x \<in> all_docs s'" and t: "t \<in> all_tuples s'" "Relation t = ''privileged''" "Entity t = ''doc:'' @ dcID x"
    show "Subject t = UploadedBy x"
    proof (cases "x = d")
      case True
      then show ?thesis using t tups ft pt by auto
    next
      case False
      then have "x \<in> all_docs s" using x docs by blast
      moreover from this have "t \<noteq> privilege_tuple p d" using t(3) fd pt(1) by auto
      moreover have "t \<in> all_tuples s \<or> t = privilege_tuple p d" using t(1) tups by blast
      ultimately show ?thesis using t(2,3) ok by blast
    qed
  qed
qed (simp add: assms(1))

lemma docs_ok_exec:
  assumes "docs_ok sha s" "fresh_op x s"
  shows "docs_ok sha (fst (exec sha parse fits x s))"
proof (cases x)
  case (OpUploadDoc e p i u)
  with assms docs_ok_upload [of sha s e p i u] show ?thesis by (cases "handleUploadDoc e sha p i u s") simp
qed (use docs_ok_quiet [OF assms(1)] quiet_create quiet_update quiet_create_deadline quiet_update_deadline quiet_grant quiet_revoke quiet_scan quiet_restart in auto)

lemma docs_ok_run:
  assumes "fresh_ops sha parse fits xs s" "docs_ok sha s"
  shows "docs_ok sha (exec_all sha parse fits xs s)"
  using assms by (induction xs arbitrary: s) (auto intro: docs_ok_exec)

lemma docs_ok_fresh: "docs_ok sha (fresh_service pm)"
  by (simp add: docs_ok_def fresh_service_def all_docs_def all_tuples_def NewRelationChecker_def NewCaseStore_def case_replay_def)

lemma split_first_doc [simp]: "split_first (CHR '':'') (''doc:'' @ i) = Some (''doc'', i)" "split_first (CHR '':'') (''matter:'' @ i) = Some (''matter'', i)"
  by simp_all

lemma has_tuple_mem: "has_tuple ts a b c \<Longrightarrow> \<lparr>Entity = a, Relation = b, Subject = c\<rparr> \<in> set ts"
proof -
  assume "has_tuple ts a b c"
  then obtain e where "e \<in> set ts" "Entity e = a" "Relation e = b" "Subject e = c" by (auto simp: has_tuple_def list_ex_iff)
  moreover from this have "e = \<lparr>Entity = a, Relation = b, Subject = c\<rparr>" by simp
  ultimately show ?thesis by simp
qed

text \<open>Who may read a privileged document through the file-backed checker.\<close>

lemma privileged_reader:
  assumes "docs_ok sha s" "caPerm s = None" "csDocs (caStore s) i = Some d" "Privileged d" "mayReadDoc p d s = Some True" "prRole p \<noteq> ''admin''"
  shows "prSubject p = UploadedBy d \<or> has_tuple (tuples (caRel s)) (''matter:'' @ dcMatterID d) ''counsel'' (prSubject p)"
proof -
  have i: "dcID d = i" using assms(1,3) by (simp add: docs_ok_def)
  have "has_tuple (tuples (caRel s)) (''doc:'' @ i) ''privileged'' (prSubject p) \<or> has_tuple (tuples (caRel s)) (''matter:'' @ dcMatterID d) ''counsel'' (prSubject p)"
    using assms(2-6) i by (simp add: mayReadDoc_def checkRel_def Check_def GetDocument_def)
  moreover have "prSubject p = UploadedBy d" if "has_tuple (tuples (caRel s)) (''doc:'' @ i) ''privileged'' (prSubject p)"
  proof -
    from has_tuple_mem [OF that] have "\<lparr>Entity = ''doc:'' @ i, Relation = ''privileged'', Subject = prSubject p\<rparr> \<in> all_tuples s" by (simp add: all_tuples_def)
    moreover have "d \<in> all_docs s" using assms(3) by (auto simp: all_docs_def ran_def)
    ultimately show ?thesis using assms(1) i unfolding docs_ok_def by fastforce
  qed
  ultimately show ?thesis by blast
qed

lemma content_hash:
  assumes "docs_ok sha s" "GetDocument i (caStore s) = Some (d, content)"
  shows "content = [] \<or> sha content = dcSHA256 d"
  using assms by (fastforce simp: docs_ok_def GetDocument_def all_docs_def ran_def split: option.splits)

lemma sort_desc_set [simp]: "set (sort_desc k xs) = set xs"
  by (simp add: sort_desc_def)

lemma portal_shows_no_privileged:
  assumes "handlePortalMatter e p i s = Reply n (m, ds, dls)" "d \<in> set ds"
  shows "\<not> Privileged d"
  using assms by (auto simp: handlePortalMatter_def ListDocuments_def split: option.splits bool.splits if_splits)

lemma list_shows_privileged_to_counsel:
  assumes "handleListDocs e p i s = Reply n (ds, vis)" "d \<in> set ds" "Privileged d" "caPerm s = None" "prRole p \<noteq> ''admin''"
  shows "\<exists>m. GetMatter i (caStore s) = Some m \<and> has_tuple (tuples (caRel s)) (''matter:'' @ mtID m) ''counsel'' (prSubject p)"
  using assms by (auto simp: handleListDocs_def ListDocuments_def mayWrite_def checkRel_def Check_def split: option.splits bool.splits if_splits)


section \<open>Evidence\<close>

text \<open>What a write-once store promises: evidence is never changed, and a receipt names what is held.\<close>

locale worm_client =
  fixes store :: "string \<Rightarrow> blob \<Rightarrow> (string \<times> string) list \<Rightarrow> 'w \<Rightarrow> 'w \<times> EvidenceReceipt option"
    and held :: "'w \<Rightarrow> string \<Rightarrow> blob option"
    and sha :: "blob \<Rightarrow> string"
  assumes kept: "store k b m w = (w', r) \<Longrightarrow> held w h = Some c \<Longrightarrow> held w' h = Some c"
    and held_after: "store k b m w = (w', Some rc) \<Longrightarrow> erSHA256 rc = sha b \<and> held w' (sha b) \<noteq> None"
begin

lemma pack_kept:
  assumes "handleEvidencePack e enc store p i s w = (w', r)" "held w h = Some c"
  shows "held w' h = Some c"
proof (cases "\<exists>m. GetMatter i (caStore s) = Some m \<and> mayWrite p m s = Some True")
  case True
  then obtain m where "GetMatter i (caStore s) = Some m" "mayWrite p m s = Some True" by blast
  with assms show ?thesis by (auto simp: handleEvidencePack_def Let_def split: prod.splits option.splits dest: kept)
next
  case False
  with assms show ?thesis by (auto simp: handleEvidencePack_def split: option.splits bool.splits)
qed

lemma pack_receipt:
  assumes "handleEvidencePack e enc store p i s w = (w', Reply n (pack, receipt))"
  shows "\<exists>m. GetMatter i (caStore s) = Some m \<and> mayWrite p m s = Some True \<and> pack = assemble_pack e p m s \<and>
    erSHA256 receipt = sha (enc pack) \<and> held w' (sha (enc pack)) \<noteq> None"
  using assms by (auto simp: handleEvidencePack_def Let_def split: option.splits bool.splits prod.splits dest: held_after)

end

interpretation local_worm: worm_client "LocalStore sha now oks" wormFiles sha
proof
  show "wormFiles w' h = Some c" if "LocalStore sha now oks k b m w = (w', r)" "wormFiles w h = Some c" for k b m w w' r h c
    using that by (auto simp: LocalStore_def Let_def split: prod.splits if_splits)
  show "erSHA256 r = sha b \<and> wormFiles w' (sha b) \<noteq> None" if "LocalStore sha now oks k b m w = (w', Some r)" for k b m w w' r
    using that by (auto simp: LocalStore_def Let_def split: prod.splits if_splits)
qed

section \<open>The checkers\<close>

text \<open>The live checker denies when the server does not answer 200 with a body.\<close>

lemma permify_fails_closed:
  assumes "caPerm s = Some c" "\<And>n ent sub. \<forall>body. pmCheck c n ent permission sub \<noteq> HttpReply 200 (Some body)"
  shows "checkRel entity permission subject s = Some False"
proof -
  have "\<exists>e. check_attempts answer left n er = Inl e" if "\<And>k. \<forall>body. answer k \<noteq> HttpReply 200 (Some body)" for answer left n er
  proof (induction left arbitrary: n er)
    case (Suc left)
    have "\<exists>e b. permify_do (answer n) = (Inl e, b)" using that [of n] by (cases "answer n") (auto split: option.split)
    then show ?case using Suc by auto
  qed simp
  then have "\<exists>e. PermifyCheck c entity permission subject = Inl e"
    using assms(2) by (simp add: PermifyCheck_def split: sum.split)
  then show ?thesis using assms(1) by (auto simp: checkRel_def)
qed

text \<open>With a live server access rests on its answer: one of the two attempts was answered 200 with an explicit yes for this entity, permission and subject.\<close>

definition server_allows :: "PermifyClient \<Rightarrow> string \<Rightarrow> string \<Rightarrow> string \<Rightarrow> bool" where
  "server_allows c entity permission subject \<longleftrightarrow>
     (\<exists>n<2. \<exists>ent sub can. splitPermifyRef entity = Inr ent \<and> splitPermifyRef subject = Inr sub \<and>
        pmCheck c n ent permission sub \<in> {HttpReply 200 (Some (Some True, can)), HttpReply 200 (Some (None, ''RESULT_ALLOWED''))})"

lemma permify_do_yes:
  "permify_do r = (Inr True, b) \<Longrightarrow> \<exists>can. r \<in> {HttpReply 200 (Some (Some True, can)), HttpReply 200 (Some (None, ''RESULT_ALLOWED''))}"
  by (cases r) (auto split: if_splits option.splits prod.splits)

lemma check_attempts_yes:
  "check_attempts answer left n er = Inr True \<Longrightarrow>
     \<exists>k<left. \<exists>can. answer (n + k) \<in> {HttpReply 200 (Some (Some True, can)), HttpReply 200 (Some (None, ''RESULT_ALLOWED''))}"
proof (induction left arbitrary: n er)
  case (Suc left)
  obtain x b where p: "permify_do (answer n) = (x, b)" by fastforce
  show ?case
  proof (cases x)
    case (Inl e)
    then obtain k can where "k < left" "answer (n + 1 + k) \<in> {HttpReply 200 (Some (Some True, can)), HttpReply 200 (Some (None, ''RESULT_ALLOWED''))}"
      using Suc.IH [of "n + 1" e] Suc.prems p by (auto split: if_splits)
    then show ?thesis by (intro exI [of _ "Suc k"]) auto
  next
    case (Inr y)
    then show ?thesis using Suc.prems p permify_do_yes [of "answer n" b] by auto
  qed
qed simp

lemma PermifyCheck_yes:
  assumes "PermifyCheck c entity permission subject = Inr True"
  shows "server_allows c entity permission subject"
proof -
  obtain ent sub where r: "splitPermifyRef entity = Inr ent" "splitPermifyRef subject = Inr sub"
      "check_attempts (\<lambda>n. pmCheck c n ent permission sub) 2 0 '''' = Inr True"
    using assms by (auto simp: PermifyCheck_def split: sum.splits)
  from check_attempts_yes [OF r(3)] show ?thesis using r(1,2) unfolding server_allows_def by auto
qed

lemma checkRel_live: "caPerm s = Some c \<Longrightarrow> checkRel entity permission subject s = Some True \<Longrightarrow> server_allows c entity permission subject"
  by (auto simp: checkRel_def intro: PermifyCheck_yes split: sum.splits)

text \<open>Who may read a privileged document, and who sees it in a list, with either checker.\<close>

definition reader_of :: "principal \<Rightarrow> Document \<Rightarrow> CaseService \<Rightarrow> bool" where
  "reader_of p d s \<longleftrightarrow>
     (case caPerm s of
        None \<Rightarrow> prSubject p = UploadedBy d \<or> has_tuple (tuples (caRel s)) (''matter:'' @ dcMatterID d) ''counsel'' (prSubject p)
      | Some c \<Rightarrow> server_allows c (''doc:'' @ dcID d) ''read'' (prSubject p))"

definition counsel_of :: "principal \<Rightarrow> string \<Rightarrow> CaseService \<Rightarrow> bool" where
  "counsel_of p i s \<longleftrightarrow>
     (case caPerm s of
        None \<Rightarrow> has_tuple (tuples (caRel s)) (''matter:'' @ i) ''counsel'' (prSubject p)
      | Some c \<Rightarrow> server_allows c (''matter:'' @ i) ''write'' (prSubject p))"

lemma privileged_reader_any:
  assumes "docs_ok sha s" "csDocs (caStore s) i = Some d" "Privileged d" "mayReadDoc p d s = Some True" "prRole p \<noteq> ''admin''"
  shows "reader_of p d s"
  using privileged_reader [OF assms(1) _ assms(2-5)] checkRel_live [of s _ "''doc:'' @ dcID d" "''read''" "prSubject p"] assms(4,5)
  by (auto simp: reader_of_def mayReadDoc_def split: option.split)

lemma list_reader_any:
  assumes "handleListDocs e p i s = Reply n (ds, vis)" "d \<in> set ds" "Privileged d" "prRole p \<noteq> ''admin''"
  shows "\<exists>m. GetMatter i (caStore s) = Some m \<and> counsel_of p (mtID m) s"
proof (cases "caPerm s")
  case None
  then show ?thesis using list_shows_privileged_to_counsel [OF assms(1-3) None assms(4)] by (simp add: counsel_of_def)
next
  case (Some c)
  have "\<exists>m. GetMatter i (caStore s) = Some m \<and> checkRel (''matter:'' @ mtID m) ''write'' (prSubject p) s = Some True"
    using assms by (auto simp: handleListDocs_def ListDocuments_def mayWrite_def split: option.splits bool.splits if_splits)
  then show ?thesis using checkRel_live [OF Some] Some by (auto simp: counsel_of_def)
qed

text \<open>The file-backed checker panics for the bare entity \<^verbatim>\<open>doc\<close>.\<close>

lemma check_bare_doc_panics: "Check ''doc'' ''read'' subject st rc = None"
  by (simp add: Check_def Let_def)

text \<open>Removing somebody from the counsel of a matter takes no access away.\<close>

lemma grant_all_keeps: "t \<in> set (tuples rc) \<Longrightarrow> t \<in> set (tuples (grant_all o1 n ts rc))"
  by (induction ts arbitrary: n rc) (auto simp: Grant_def)

lemma removed_counsel_keeps_access:
  assumes "has_tuple (tuples (caRel s)) ent ''counsel'' sub" "handleUpdateMatter e p i b s = (s', r)"
  shows "has_tuple (tuples (caRel s')) ent ''counsel'' sub"
proof -
  have keep: "has_tuple (tuples (caRel (fst (finish_update e m pt s)))) ent ''counsel'' sub" for m pt
    using assms(1) grant_all_keeps [of _ "caRel s" "ceRel e" 0]
    by (cases "ptCounsel pt") (auto simp: finish_update_def Let_def has_tuple_def list_ex_iff)
  have "has_tuple (tuples (caRel (fst (handleUpdateMatter e p i b s)))) ent ''counsel'' sub"
    using keep assms(1) by (simp add: handleUpdateMatter_def upd_store_def Let_def split: option.split bool.split)
  then show ?thesis using assms(2) by simp
qed

end
