(* ===== verification/Case_Durability.thy ===== *)
theory Case_Durability
  imports Case_Guarantees
begin

text \<open>
  What a restart of the case-management service rebuilds, and what a scan of the deadlines does. The
  service is durable over operations that are carried out and written; an update that is refused
  half-way is not, and neither is the counter of the references.
\<close>

section \<open>The log describes memory\<close>

definition same_data :: "CaseStore \<Rightarrow> CaseStore \<Rightarrow> bool" where
  "same_data a b \<longleftrightarrow> matters a = matters b \<and> csDocs a = csDocs b \<and> deadlines a = deadlines b"

definition blank :: CaseStore where
  "blank = \<lparr>matters = Map.empty, csDocs = Map.empty, deadlines = Map.empty, csSeq = 0, caseLog = [], logOpen = False, blobs = Map.empty, csPG = None\<rparr>"

definition log_synced :: "CaseStore \<Rightarrow> bool" where
  "log_synced st \<longleftrightarrow> logOpen st \<and> same_data (fold index_rec (caseLog st) blank) st"

definition synced :: "CaseService \<Rightarrow> bool" where
  "synced s \<longleftrightarrow> log_synced (caStore s) \<and> relFile (caRel s) = tuples (caRel s)"

lemma same_data_index: "same_data a b \<Longrightarrow> same_data (index_rec r a) (index_rec r b)"
  by (simp add: same_data_def index_rec_def split: logRec.split)

lemma same_data_fold: "same_data a b \<Longrightarrow> same_data (fold index_rec rs a) (fold index_rec rs b)"
  by (induction rs arbitrary: a b) (simp_all add: same_data_index)

lemma log_synced_append:
  assumes "log_synced st" "logWrite e" "same_data st' (index_rec r st)" "caseLog st' = caseLog st" "logOpen st'"
  shows "log_synced (appendLog e r st')"
proof -
  have "same_data (fold index_rec (caseLog st @ [r]) blank) (index_rec r st)"
    using assms(1) by (simp add: log_synced_def same_data_index)
  moreover have "caseLog (appendLog e r st') = caseLog st @ [r]" using assms(2,4,5) by (simp add: appendLog_def Let_def split: option.split)
  ultimately show ?thesis using assms(3,5) by (simp add: log_synced_def same_data_def)
qed

lemma log_synced_put:
  assumes "log_synced st" "logWrite e"
  shows "log_synced (PutMatter e m st)" "log_synced (PutDeadline e dl st)" "log_synced (fst (PutDocument e ok d c st))"
proof -
  have o: "logOpen st" using assms(1) by (simp add: log_synced_def)
  show "log_synced (PutMatter e m st)" unfolding PutMatter_def
    by (rule log_synced_append [OF assms]) (simp_all add: poke_matter_def index_rec_def same_data_def o)
  show "log_synced (PutDeadline e dl st)" unfolding PutDeadline_def
    by (rule log_synced_append [OF assms]) (simp_all add: poke_deadline_def index_rec_def same_data_def o)
  have "log_synced (appendLog e (DocRec d) (st\<lparr>blobs := (blobs st)(dcID d \<mapsto> c), csDocs := (csDocs st)(dcID d \<mapsto> d)\<rparr>))"
    by (rule log_synced_append [OF assms]) (simp_all add: index_rec_def same_data_def o)
  then show "log_synced (fst (PutDocument e ok d c st))" using assms(1) by (simp add: PutDocument_def)
qed

lemma nextRef_synced: "log_synced st \<Longrightarrow> log_synced (fst (nextRef y st))"
  by (simp add: nextRef_def log_synced_def same_data_def)

definition rel_synced :: "RelationChecker \<Rightarrow> bool" where
  "rel_synced rc \<longleftrightarrow> relFile rc = tuples rc"

lemma rel_synced_ops:
  "rel_synced rc \<Longrightarrow> rel_synced (Grant Written t rc)" "rel_synced (RevokeRel Written a b c rc)"
  "rel_synced rc \<Longrightarrow> (\<And>k. o1 k = Written) \<Longrightarrow> rel_synced (grant_all o1 n ts rc)"
proof -
  show g: "rel_synced (Grant Written t rc)" if "rel_synced rc" for t rc
    using that by (simp add: rel_synced_def Grant_def rel_persist_def)
  show "rel_synced (RevokeRel Written a b c rc)" by (simp add: rel_synced_def RevokeRel_def rel_persist_def)
  show "rel_synced (grant_all o1 n ts rc)" if "rel_synced rc" "\<And>k. o1 k = Written"
    using that(1) by (induction ts arbitrary: n rc) (simp_all add: that(2) g)
qed

lemma synced_iff: "synced s \<longleftrightarrow> log_synced (caStore s) \<and> rel_synced (caRel s)"
  by (simp add: synced_def rel_synced_def)

section \<open>Operations whose writes succeed\<close>

definition writes_ok :: "case_env \<Rightarrow> bool" where
  "writes_ok e \<longleftrightarrow> logWrite (ceLog e) \<and> (\<forall>n. ceRel e n = Written)"

fun clean_op :: "case_op \<Rightarrow> bool" where
  "clean_op (OpCreateMatter e p b) = writes_ok e"
| "clean_op (OpUpdateMatter e p i b) = writes_ok e"
| "clean_op (OpUploadDoc e p i u) = writes_ok e"
| "clean_op (OpCreateDeadline e p i b) = writes_ok e"
| "clean_op (OpUpdateDeadline e p i b) = writes_ok e"
| "clean_op (OpGrant e p b) = writes_ok e"
| "clean_op (OpRevoke e p b) = writes_ok e"
| "clean_op (OpScan now w es ord) = (\<forall>n. logWrite (es n))"
| "clean_op (OpRestart opens) = False"

lemma synced_replace:
  assumes "log_synced st" "rel_synced rc" "logWrite e"
  shows "synced (s\<lparr>caStore := PutMatter e m st, caRel := rc\<rparr>)"
  using assms by (simp add: synced_iff log_synced_put)

lemma grants_synced: "synced s \<Longrightarrow> writes_ok e \<Longrightarrow> rel_synced (grant_all (ceRel e) 0 ts (caRel s))"
  by (rule rel_synced_ops(3)) (simp_all add: synced_iff writes_ok_def)

lemma synced_create:
  assumes "synced s" "writes_ok e"
  shows "synced (fst (handleCreateMatter e p b s))"
proof (cases "\<exists>m0. b = Some m0 \<and> \<not> (mtTitle m0 = '''' \<or> mtClientID m0 = '''')")
  case True
  then obtain m0 where b: "b = Some m0" "\<not> (mtTitle m0 = '''' \<or> mtClientID m0 = '''')" by blast
  obtain st1 ref where n: "(if mtRef m0 = '''' then nextRef (ceYear e) (caStore s) else (caStore s, mtRef m0)) = (st1, ref)" by fastforce
  have "log_synced st1" using n assms(1) nextRef_synced [of "caStore s" "ceYear e"] by (auto simp: synced_iff split: if_splits)
  from synced_replace [OF this grants_synced [OF assms]] have "synced (s\<lparr>caStore := PutMatter (ceLog e) m st1, caRel := grant_all (ceRel e) 0 ts (caRel s)\<rparr>)" for m ts
    using assms(2) by (simp add: writes_ok_def)
  then show ?thesis using b n by (simp add: handleCreateMatter_def Let_def)
next
  case False
  then show ?thesis using assms(1) by (auto simp: handleCreateMatter_def split: option.split)
qed

lemma synced_finish_update:
  assumes "synced s" "writes_ok e"
  shows "synced (fst (finish_update e m pt s))"
proof -
  have s: "log_synced (caStore s)" "rel_synced (caRel s)" "logWrite (ceLog e)" using assms by (simp_all add: synced_iff writes_ok_def)
  have "synced (s\<lparr>caStore := PutMatter (ceLog e) m (caStore s)\<rparr>)" using synced_replace [OF s, where s = s and m = m] by simp
  then show ?thesis
    using synced_replace [OF s(1) grants_synced [OF assms] s(3)] by (cases "ptCounsel pt") (simp_all add: finish_update_def Let_def)
qed

lemma synced_update:
  assumes "synced s" "writes_ok e" "status_of (snd (handleUpdateMatter e p i b s)) \<noteq> 422"
  shows "synced (fst (handleUpdateMatter e p i b s))"
proof (cases "\<exists>m pt. GetMatter i (caStore s) = Some m \<and> mayWrite p m s = Some True \<and> b = Some pt")
  case True
  then obtain m pt where c: "GetMatter i (caStore s) = Some m" "mayWrite p m s = Some True" "b = Some pt" by blast
  note f = synced_finish_update [OF assms(1,2)]
  show ?thesis
  proof (cases "ptStatus pt")
    case None
    then show ?thesis using c f by (simp add: handleUpdateMatter_def Let_def)
  next
    case (Some x)
    then have "x \<in> {''intake'', ''active'', ''on-hold'', ''closed''}"
      using assms(3) c by (simp add: handleUpdateMatter_def Let_def split: if_splits)
    then show ?thesis using c f Some by (simp add: handleUpdateMatter_def Let_def)
  qed
next
  case False
  then show ?thesis using assms(1) by (auto simp: handleUpdateMatter_def split: option.split bool.split)
qed

lemma synced_upload:
  assumes "synced s" "writes_ok e"
  shows "synced (fst (handleUploadDoc e sha p i u s))"
proof -
  obtain s' r where h: "handleUploadDoc e sha p i u s = (s', r)" by fastforce
  then show ?thesis
  proof (cases rule: upload_cases)
    case (stored m up d)
    then show ?thesis using h assms rel_synced_ops(1) by (simp add: synced_iff writes_ok_def log_synced_put)
  qed (use h assms in simp)
qed

lemma synced_upd_deadline: "synced s \<Longrightarrow> logWrite e \<Longrightarrow> synced (upd_store (PutDeadline e dl) s)"
  by (simp add: synced_iff upd_store_def log_synced_put)

lemma synced_deadlines:
  assumes "synced s" "writes_ok e"
  shows "synced (fst (handleCreateDeadline e parse p i b s))"
    "status_of (snd (handleUpdateDeadline e parse p i c s)) \<noteq> 422 \<Longrightarrow> synced (fst (handleUpdateDeadline e parse p i c s))"
proof -
  have put: "synced (upd_store (PutDeadline (ceLog e) dl) s)" for dl using assms by (simp add: synced_upd_deadline writes_ok_def)
  show "synced (fst (handleCreateDeadline e parse p i b s))"
    using put assms(1) by (auto simp: handleCreateDeadline_def Let_def split: option.split bool.split)
  have "synced (fst (finish_deadline e parse dl pt s))" if "status_of (snd (finish_deadline e parse dl pt s)) \<noteq> 422" for dl pt
    using that put by (auto simp: finish_deadline_def split: option.splits if_splits)
  then show "synced (fst (handleUpdateDeadline e parse p i c s))" if "status_of (snd (handleUpdateDeadline e parse p i c s)) \<noteq> 422"
    using that assms(1) by (auto simp: handleUpdateDeadline_def split: option.splits bool.splits if_splits)
qed

lemma synced_relations:
  assumes "synced s" "writes_ok e"
  shows "synced (fst (handleRelGrant e p b s))" "synced (fst (handleRelRevoke e p b s))"
  using assms rel_synced_ops(1,2) by (auto simp: handleRelGrant_def handleRelRevoke_def upd_rel_def synced_iff writes_ok_def split: option.split)

lemma synced_scan_one:
  assumes "synced s" "logWrite e"
  shows "synced (scan_one parse now w e dl s)"
proof -
  have send: "synced (send a b s)" for a b using assms(1) by (simp add: send_def synced_def)
  show ?thesis using assms send synced_upd_deadline [OF _ assms(2)] by (auto simp: scan_one_def Let_def split: option.split)
qed

lemma synced_scan:
  assumes "synced s" "\<And>n. logWrite (es n)"
  shows "synced (scanDeadlines parse now w es ord s)"
proof -
  have "synced (scan_loop parse now w es n dls s)" for n dls
    using assms(1)
  proof (induction dls arbitrary: n s)
    case (Cons dl dls)
    from Cons.IH [OF synced_scan_one [OF Cons.prems assms(2)]] show ?case by simp
  qed simp
  then show ?thesis by (simp add: scanDeadlines_def)
qed

lemma synced_exec:
  assumes "synced s" "clean_op x" "snd (exec sha parse fits x s) \<noteq> 422"
  shows "synced (fst (exec sha parse fits x s))"
proof (cases x)
  case (OpUpdateMatter e p i b)
  then show ?thesis using assms synced_update [of s e p i b] by simp
next
  case (OpUpdateDeadline e p i b)
  then show ?thesis using assms synced_deadlines(2) [of s e parse p i b] by simp
qed (use assms synced_create synced_upload synced_deadlines(1) synced_relations synced_scan in auto)

text \<open>The answers of a run.\<close>

fun statuses :: "(blob \<Rightarrow> string) \<Rightarrow> (string \<Rightarrow> int option) \<Rightarrow> (logRec \<Rightarrow> bool) \<Rightarrow> case_op list \<Rightarrow> CaseService \<Rightarrow> nat list" where
  "statuses sha parse fits [] s = []"
| "statuses sha parse fits (x # xs) s = snd (exec sha parse fits x s) # statuses sha parse fits xs (fst (exec sha parse fits x s))"

lemma synced_run:
  assumes "synced s" "\<forall>x\<in>set xs. clean_op x" "422 \<notin> set (statuses sha parse fits xs s)"
  shows "synced (exec_all sha parse fits xs s)"
  using assms by (induction xs arbitrary: s) (auto intro: synced_exec)

lemma synced_fresh: "synced (fresh_service pm)"
  by (simp add: synced_def fresh_service_def log_synced_def same_data_def NewCaseStore_def case_replay_def NewRelationChecker_def blank_def)

lemma restart_synced:
  assumes "synced s" "\<forall>r\<in>set (caseLog (caStore s)). fits r"
  shows "same_data (caStore (restart fits opens s)) (caStore s)" "blobs (caStore (restart fits opens s)) = blobs (caStore s)"
    "tuples (caRel (restart fits opens s)) = tuples (caRel s)"
proof -
  let ?st = "caStore s"
  have tw: "takeWhile fits (caseLog ?st) = caseLog ?st" using assms(2) by (simp add: takeWhile_eq_all_conv)
  let ?b = "\<lparr>matters = Map.empty, csDocs = Map.empty, deadlines = Map.empty, csSeq = 0, caseLog = caseLog ?st, logOpen = False, blobs = blobs ?st, csPG = None\<rparr>"
  have "same_data (fold index_rec (caseLog ?st) ?b) (fold index_rec (caseLog ?st) blank)"
    by (rule same_data_fold) (simp add: same_data_def blank_def)
  then show "same_data (caStore (restart fits opens s)) ?st"
    using assms(1) by (simp add: restart_def NewCaseStore_def case_replay_def tw synced_def log_synced_def same_data_def)
  show "blobs (caStore (restart fits opens s)) = blobs ?st" "tuples (caRel (restart fits opens s)) = tuples (caRel s)"
    using assms(1) by (simp_all add: restart_def NewRelationChecker_def synced_def)
qed

section \<open>What is not durable\<close>

text \<open>A refused update has changed the title in memory, but not in the log.\<close>

lemma refused_update_changes_memory:
  assumes "GetMatter i (caStore s) = Some m" "mtID m = i" "mayWrite p m s = Some True"
    and "ptStatus pt = Some x" "x \<notin> {''intake'', ''active'', ''on-hold'', ''closed''}" "ptTitle pt = Some t" "ptNotes pt = None"
  shows "\<exists>s'. handleUpdateMatter e p i (Some pt) s = (s', Problem 422 ''validation failed'') \<and>
    GetMatter i (caStore s') = Some (m\<lparr>mtTitle := t\<rparr>) \<and> caseLog (caStore s') = caseLog (caStore s)"
  using assms by (simp add: handleUpdateMatter_def GetMatter_def upd_store_def poke_matter_def Let_def)

text \<open>The counter starts anew, so references repeat.\<close>

lemma refs_repeat_after_restart:
  "snd (nextRef year (caStore (restart fits opens s))) = snd (nextRef year (caStore (restart fits opens s')))"
proof -
  have "csSeq (fold index_rec rs st) = csSeq st" for rs st
    by (induction rs arbitrary: st) (simp_all add: index_rec_def split: logRec.split)
  then show ?thesis by (simp add: nextRef_def restart_def NewCaseStore_def case_replay_def)
qed


section \<open>The scan of the deadlines\<close>

text \<open>What the scan makes of one open deadline.\<close>

definition scanned :: "(string \<Rightarrow> int option) \<Rightarrow> int \<Rightarrow> string \<Rightarrow> Deadline \<Rightarrow> Deadline" where
  "scanned parse now w dl =
     (case parse (DueAt dl) of
        None \<Rightarrow> dl
      | Some due \<Rightarrow>
          if due < now then (if Escalated dl then dl\<lparr>dlStatus := ''missed''\<rparr> else dl\<lparr>Escalated := True, dlStatus := ''escalated''\<rparr>)
          else if DueAt dl \<le> w \<and> Severity dl = ''info'' then dl\<lparr>Severity := ''warning''\<rparr> else dl)"

text \<open>The records are stored under their ids, and \<open>ord\<close> visits every key once.\<close>

definition keyed :: "CaseStore \<Rightarrow> bool" where
  "keyed st \<longleftrightarrow> (\<forall>i dl. deadlines st i = Some dl \<longrightarrow> dlID dl = i)"

definition visits :: "string list \<Rightarrow> CaseStore \<Rightarrow> bool" where
  "visits ord st \<longleftrightarrow> distinct ord \<and> set ord = dom (deadlines st)"

lemma deadlines_frame [simp]:
  "deadlines (PutMatter e m st) = deadlines st" "deadlines (PutDeadline e dl st) = (deadlines st)(dlID dl \<mapsto> dl)"
  "deadlines (fst (PutDocument e ok d c st)) = deadlines st" "deadlines (poke_matter m st) = deadlines st"
  "deadlines (poke_deadline dl st) = (deadlines st)(dlID dl \<mapsto> dl)" "deadlines (fst (nextRef y st)) = deadlines st"
  by (simp_all add: PutMatter_def PutDeadline_def PutDocument_def poke_matter_def poke_deadline_def nextRef_def)

lemma scan_one_deadlines:
  assumes "deadlines (caStore s) (dlID dl) = Some dl"
  shows "deadlines (caStore (scan_one parse now w e dl s)) = (deadlines (caStore s))(dlID dl \<mapsto> scanned parse now w dl)"
  using assms by (auto simp: scan_one_def scanned_def upd_store_def send_def Let_def fun_upd_idem split: option.split)

lemma scanned_id [simp]: "dlID (scanned parse now w dl) = dlID dl" "DueAt (scanned parse now w dl) = DueAt dl"
  by (simp_all add: scanned_def split: option.split)

lemma scan_loop_deadlines:
  assumes "distinct (map dlID dls)" "\<forall>dl\<in>set dls. deadlines (caStore s) (dlID dl) = Some dl"
  shows "deadlines (caStore (scan_loop parse now w es n dls s)) =
    (\<lambda>j. if j \<in> dlID ` set dls then map_option (scanned parse now w) (deadlines (caStore s) j) else deadlines (caStore s) j)"
  using assms
proof (induction dls arbitrary: s n)
  case (Cons dl dls)
  let ?s = "scan_one parse now w (es n) dl s"
  have nd: "dlID dl \<notin> dlID ` set dls" using Cons.prems(1) by simp
  have hd: "deadlines (caStore s) (dlID dl) = Some dl" by (rule bspec [OF Cons.prems(2)]) simp
  have d: "deadlines (caStore ?s) = (deadlines (caStore s))(dlID dl \<mapsto> scanned parse now w dl)"
    by (rule scan_one_deadlines [OF hd])
  have "\<forall>x\<in>set dls. deadlines (caStore ?s) (dlID x) = Some x"
  proof
    fix x assume x: "x \<in> set dls"
    have "dlID x \<noteq> dlID dl" using x nd by (metis imageI)
    moreover have "deadlines (caStore s) (dlID x) = Some x" by (rule bspec [OF Cons.prems(2)]) (simp add: x)
    ultimately show "deadlines (caStore ?s) (dlID x) = Some x" unfolding d by simp
  qed
  then have IH: "deadlines (caStore (scan_loop parse now w es (n + 1) dls ?s)) =
      (\<lambda>j. if j \<in> dlID ` set dls then map_option (scanned parse now w) (deadlines (caStore ?s) j) else deadlines (caStore ?s) j)"
    using Cons.prems(1) by (intro Cons.IH) simp_all
  show ?case
  proof
    fix j
    show "deadlines (caStore (scan_loop parse now w es n (dl # dls) s)) j =
      (if j \<in> dlID ` set (dl # dls) then map_option (scanned parse now w) (deadlines (caStore s) j) else deadlines (caStore s) j)"
      unfolding scan_loop.simps IH d using nd hd by (cases "j = dlID dl") simp_all
  qed
qed simp

lemma map_filter_keyed:
  assumes "keyed st" "visits ord st"
  shows "map dlID (List.map_filter (deadlines st) ord) = ord" "set (List.map_filter (deadlines st) ord) = ran (deadlines st)"
proof -
  have "map dlID (List.map_filter (deadlines st) xs) = xs" if "set xs \<subseteq> dom (deadlines st)" for xs
    using that assms(1) by (induction xs) (auto simp: keyed_def List.map_filter_simps)
  then show "map dlID (List.map_filter (deadlines st) ord) = ord" using assms(2) by (simp add: visits_def)
  show "set (List.map_filter (deadlines st) ord) = ran (deadlines st)"
    using assms(2) by (fastforce simp: visits_def List.map_filter_def ran_def image_iff)
qed

lemma open_deadlines:
  assumes "keyed st" "visits ord st"
  shows "distinct (map dlID (ListDeadlines ord '''' ''open'' '''' st))"
    "set (ListDeadlines ord '''' ''open'' '''' st) = {dl \<in> ran (deadlines st). dlStatus dl = ''open''}"
proof -
  let ?l = "List.map_filter (deadlines st) ord"
  have "distinct (map dlID ?l)" using map_filter_keyed(1) [OF assms] assms(2) by (simp add: visits_def)
  then have "distinct (map dlID (filter (\<lambda>dl. dlStatus dl = ''open'') ?l))" by (rule distinct_map_filter)
  then show "distinct (map dlID (ListDeadlines ord '''' ''open'' '''' st))"
    by (simp add: ListDeadlines_def distinct_map)
  show "set (ListDeadlines ord '''' ''open'' '''' st) = {dl \<in> ran (deadlines st). dlStatus dl = ''open''}"
    using map_filter_keyed(2) [OF assms] by (auto simp: ListDeadlines_def)
qed

lemma scan_refines:
  assumes "keyed (caStore s)" "visits ord (caStore s)"
  shows "deadlines (caStore (scanDeadlines parse now w es ord s)) =
    (\<lambda>j. map_option (\<lambda>dl. if dlStatus dl = ''open'' then scanned parse now w dl else dl) (deadlines (caStore s) j))"
proof -
  let ?l = "ListDeadlines ord '''' ''open'' '''' (caStore s)"
  note o = open_deadlines [OF assms]
  have mem: "\<forall>dl\<in>set ?l. deadlines (caStore s) (dlID dl) = Some dl" using o(2) assms(1) by (auto simp: keyed_def ran_def)
  have "deadlines (caStore (scanDeadlines parse now w es ord s)) j =
      map_option (\<lambda>dl. if dlStatus dl = ''open'' then scanned parse now w dl else dl) (deadlines (caStore s) j)" for j
  proof (cases "deadlines (caStore s) j")
    case None
    then have "j \<notin> dlID ` set ?l" using mem by auto
    then show ?thesis using None by (simp add: scanDeadlines_def scan_loop_deadlines [OF o(1) mem])
  next
    case (Some dl)
    then have i: "dlID dl = j" using assms(1) by (simp add: keyed_def)
    have "j \<in> dlID ` set ?l \<longleftrightarrow> dlStatus dl = ''open''"
    proof
      assume "j \<in> dlID ` set ?l"
      then obtain x where "x \<in> set ?l" "dlID x = j" by blast
      moreover from this have "x = dl" using mem Some by auto
      ultimately show "dlStatus dl = ''open''" using o(2) by auto
    next
      assume "dlStatus dl = ''open''"
      then have "dl \<in> set ?l" using o(2) Some by (auto simp: ran_def)
      then show "j \<in> dlID ` set ?l" using i by blast
    qed
    then show ?thesis using Some by (simp add: scanDeadlines_def scan_loop_deadlines [OF o(1) mem])
  qed
  then show ?thesis by blast
qed

lemma scanned_not_overdue:
  "dlStatus (scanned parse now w dl) = ''open'' \<Longrightarrow> parse (DueAt dl) = Some due \<Longrightarrow> dlStatus dl = ''open'' \<Longrightarrow> \<not> due < now"
  by (auto simp: scanned_def split: if_splits)

text \<open>The notice of an approaching deadline is sent at every scan, also after the severity was raised.\<close>

lemma approaching_notice_repeats:
  assumes "parse (DueAt dl) = Some due" "\<not> due < now" "DueAt dl \<le> w" "Severity dl = ''warning''"
  shows "\<exists>to. caSent (scan_one parse now w e dl s) = caSent s @ [(''email'', to, ''Deadline approaching: '' @ dlTitle dl)]"
  using assms by (simp add: scan_one_def send_def Let_def)


text \<open>Every operation stores deadlines under their ids.\<close>

definition dl_step :: "CaseService \<Rightarrow> CaseService \<Rightarrow> bool" where
  "dl_step s s' \<longleftrightarrow> deadlines (caStore s') = deadlines (caStore s) \<or> (\<exists>dl. deadlines (caStore s') = (deadlines (caStore s))(dlID dl \<mapsto> dl))"

lemma keyed_step: "keyed (caStore s) \<Longrightarrow> dl_step s s' \<Longrightarrow> keyed (caStore s')"
  by (auto simp: keyed_def dl_step_def split: if_splits)

lemma dl_step_refl [simp]: "dl_step s s"
  by (simp add: dl_step_def)

lemma dl_step_stores [simp]:
  "dl_step s (upd_store (PutDeadline e dl) s)" "dl_step s (upd_store (poke_deadline dl) s)" "dl_step s (upd_store (poke_matter m) s)"
  "dl_step s (upd_rel f s)" "dl_step s (s\<lparr>caStore := PutMatter e m (caStore s), caRel := rc\<rparr>)"
  by (auto simp: dl_step_def upd_store_def upd_rel_def)

lemma dl_step_create: "dl_step s (fst (handleCreateMatter e p b s))"
proof -
  have "deadlines (fst (if c then nextRef y st else (st, r))) = deadlines st" for c y st r by simp
  then show ?thesis
    by (simp add: handleCreateMatter_def dl_step_def Let_def split_beta split: option.split)
qed

lemma dl_step_update: "dl_step s (fst (handleUpdateMatter e p i b s))"
  by (simp add: handleUpdateMatter_def finish_update_def Let_def split: option.split bool.split)

lemma dl_step_upload: "dl_step s (fst (handleUploadDoc e sha p i u s))"
proof -
  obtain s' r where h: "handleUploadDoc e sha p i u s = (s', r)" by fastforce
  then show ?thesis by (cases rule: upload_cases) (simp_all add: h dl_step_def)
qed

lemma dl_step_deadlines: "dl_step s (fst (handleCreateDeadline e parse p i b s))" "dl_step s (fst (handleUpdateDeadline e parse p i c s))"
  by (simp_all add: handleCreateDeadline_def handleUpdateDeadline_def finish_deadline_def Let_def split: option.split bool.split)

lemma dl_step_relations: "dl_step s (fst (handleRelGrant e p b s))" "dl_step s (fst (handleRelRevoke e p b s))"
  by (simp_all add: handleRelGrant_def handleRelRevoke_def split: option.split)

lemma dl_step_scan_one: "dl_step s (scan_one parse now w e dl s)"
proof -
  have send: "dl_step s (upd_store (PutDeadline e d) (send a b s))" "dl_step s (send a b s)" for d a b
    by (auto simp: dl_step_def upd_store_def send_def)
  then show ?thesis by (simp add: scan_one_def Let_def split: option.split)
qed

lemma keyed_scan: "keyed (caStore s) \<Longrightarrow> keyed (caStore (scanDeadlines parse now w es ord s))"
proof -
  have "keyed (caStore (scan_loop parse now w es n dls s))" if "keyed (caStore s)" for n dls s
    using that
  proof (induction dls arbitrary: n s)
    case (Cons dl dls)
    from Cons.IH [OF keyed_step [OF Cons.prems dl_step_scan_one]] show ?case by simp
  qed simp
  then show "keyed (caStore s) \<Longrightarrow> ?thesis" by (simp add: scanDeadlines_def)
qed

lemma keyed_restart: "keyed (caStore (restart fits opens s))"
proof -
  have f: "keyed (fold index_rec rs st)" if "keyed st" for rs st
    using that
  proof (induction rs arbitrary: st)
    case (Cons r rs)
    have "keyed (index_rec r st)" using Cons.prems by (cases r) (simp_all add: keyed_def index_rec_def)
    from Cons.IH [OF this] show ?case by simp
  qed simp
  have "keyed (st\<lparr>logOpen := b\<rparr>) = keyed st" for st b by (simp add: keyed_def)
  moreover have "keyed \<lparr>matters = Map.empty, csDocs = Map.empty, deadlines = Map.empty, csSeq = 0, caseLog = lg, logOpen = False, blobs = bs, csPG = None\<rparr>" for lg bs
    by (simp add: keyed_def)
  ultimately show ?thesis unfolding restart_def NewCaseStore_def case_replay_def by (simp add: f)
qed

lemma keyed_exec: "keyed (caStore s) \<Longrightarrow> keyed (caStore (fst (exec sha parse fits x s)))"
  by (cases x) (simp_all add: keyed_step [OF _ dl_step_create] keyed_step [OF _ dl_step_update] keyed_step [OF _ dl_step_upload]
      keyed_step [OF _ dl_step_deadlines(1)] keyed_step [OF _ dl_step_deadlines(2)] keyed_step [OF _ dl_step_relations(1)]
      keyed_step [OF _ dl_step_relations(2)] keyed_scan keyed_restart)

lemma keyed_run: "keyed (caStore s) \<Longrightarrow> keyed (caStore (exec_all sha parse fits xs s))"
  by (induction xs arbitrary: s) (simp_all add: keyed_exec)

lemma keyed_fresh: "keyed (caStore (fresh_service pm))"
  by (simp add: keyed_def fresh_service_def NewCaseStore_def case_replay_def)


section \<open>Matters keep their ids\<close>

definition matters_keyed :: "CaseService \<Rightarrow> bool" where
  "matters_keyed s \<longleftrightarrow> (\<forall>i m. matters (caStore s) i = Some m \<longrightarrow> mtID m = i)"

definition mt_step :: "CaseService \<Rightarrow> CaseService \<Rightarrow> bool" where
  "mt_step s s' \<longleftrightarrow> caPerm s' = caPerm s \<and>
     (matters (caStore s') = matters (caStore s) \<or> (\<exists>m. matters (caStore s') = (matters (caStore s))(mtID m \<mapsto> m)))"

lemma matters_keyed_step: "matters_keyed s \<Longrightarrow> mt_step s s' \<Longrightarrow> matters_keyed s'"
  by (auto simp: matters_keyed_def mt_step_def split: if_splits)

lemma mt_step_refl [simp]: "mt_step s s"
  by (simp add: mt_step_def)

lemma matters_frame [simp]:
  "matters (PutMatter e m st) = (matters st)(mtID m \<mapsto> m)" "matters (PutDeadline e dl st) = matters st"
  "matters (fst (PutDocument e ok d c st)) = matters st" "matters (poke_matter m st) = (matters st)(mtID m \<mapsto> m)"
  "matters (poke_deadline dl st) = matters st" "matters (fst (nextRef y st)) = matters st"
  by (simp_all add: PutMatter_def PutDeadline_def PutDocument_def poke_matter_def poke_deadline_def nextRef_def)

lemma mt_step_stores [simp]:
  "mt_step s (upd_store (PutDeadline e dl) s)" "mt_step s (upd_store (poke_deadline dl) s)" "mt_step s (upd_store (poke_matter m) s)"
  "mt_step s (upd_rel f s)" "mt_step s (s\<lparr>caStore := PutMatter e m (caStore s), caRel := rc\<rparr>)"
  by (auto simp: mt_step_def upd_store_def upd_rel_def)

lemma mt_step_create: "mt_step s (fst (handleCreateMatter e p b s))"
proof -
  have "matters (fst (if c then nextRef y st else (st, r))) = matters st" for c y st r by simp
  then show ?thesis
    by (auto simp: handleCreateMatter_def mt_step_def Let_def split_beta split: option.split)
qed

lemma mt_step_update: "mt_step s (fst (handleUpdateMatter e p i b s))"
  by (simp add: handleUpdateMatter_def finish_update_def Let_def split: option.split bool.split)

lemma mt_step_upload: "mt_step s (fst (handleUploadDoc e sha p i u s))"
proof -
  obtain s' r where h: "handleUploadDoc e sha p i u s = (s', r)" by fastforce
  then show ?thesis by (cases rule: upload_cases) (simp_all add: h mt_step_def)
qed

lemma mt_step_deadlines: "mt_step s (fst (handleCreateDeadline e parse p i b s))" "mt_step s (fst (handleUpdateDeadline e parse p i c s))"
  by (simp_all add: handleCreateDeadline_def handleUpdateDeadline_def finish_deadline_def Let_def split: option.split bool.split)

lemma mt_step_relations: "mt_step s (fst (handleRelGrant e p b s))" "mt_step s (fst (handleRelRevoke e p b s))"
  by (simp_all add: handleRelGrant_def handleRelRevoke_def split: option.split)

lemma mt_step_scan: "matters (caStore (scanDeadlines parse now w es ord s)) = matters (caStore s) \<and> caPerm (scanDeadlines parse now w es ord s) = caPerm s"
proof -
  have one: "matters (caStore (scan_one parse now w e dl s)) = matters (caStore s) \<and> caPerm (scan_one parse now w e dl s) = caPerm s" for e dl s
    by (simp add: scan_one_def upd_store_def send_def Let_def split: option.split)
  have "matters (caStore (scan_loop parse now w es n dls s)) = matters (caStore s) \<and> caPerm (scan_loop parse now w es n dls s) = caPerm s" for n dls
    by (induction dls arbitrary: n s) (simp_all add: one)
  then show ?thesis by (simp add: scanDeadlines_def)
qed

lemma fold_index_matters: "\<forall>i m. matters st i = Some m \<longrightarrow> mtID m = i \<Longrightarrow> \<forall>i m. matters (fold index_rec rs st) i = Some m \<longrightarrow> mtID m = i"
proof (induction rs arbitrary: st)
  case (Cons r rs)
  have "\<forall>i m. matters (index_rec r st) i = Some m \<longrightarrow> mtID m = i" using Cons.prems by (cases r) (simp_all add: index_rec_def)
  from Cons.IH [OF this] show ?case by simp
qed simp

lemma matters_keyed_restart: "matters_keyed (restart fits opens s)" "caPerm (restart fits opens s) = caPerm s"
proof -
  have "\<forall>i m. matters (fold index_rec (takeWhile fits lg) \<lparr>matters = Map.empty, csDocs = Map.empty, deadlines = Map.empty, csSeq = 0, caseLog = lg,
      logOpen = False, blobs = bs, csPG = None\<rparr>) i = Some m \<longrightarrow> mtID m = i" for lg bs
    by (rule fold_index_matters) simp
  then show "matters_keyed (restart fits opens s)" by (simp add: matters_keyed_def restart_def NewCaseStore_def case_replay_def)
qed (simp add: restart_def)

lemma matters_keyed_exec:
  assumes "matters_keyed s"
  shows "matters_keyed (fst (exec sha parse fits x s)) \<and> caPerm (fst (exec sha parse fits x s)) = caPerm s"
proof (cases x)
  case (OpScan now w es ord)
  then show ?thesis using assms mt_step_scan by (simp add: matters_keyed_def)
next
  case (OpRestart opens)
  then show ?thesis by (simp add: matters_keyed_restart)
qed (use matters_keyed_step [OF assms] mt_step_create mt_step_update mt_step_upload mt_step_deadlines mt_step_relations in \<open>simp_all add: mt_step_def\<close>)

lemma matters_keyed_run: "matters_keyed s \<Longrightarrow> matters_keyed (exec_all sha parse fits xs s)"
  by (induction xs arbitrary: s) (simp_all add: matters_keyed_exec)

lemma perm_run: "matters_keyed s \<Longrightarrow> caPerm (exec_all sha parse fits xs s) = caPerm s"
  by (induction xs arbitrary: s) (simp_all add: matters_keyed_exec)

lemma matters_keyed_fresh [simp]: "matters_keyed (fresh_service pm)"
  by (simp add: matters_keyed_def fresh_service_def NewCaseStore_def case_replay_def)

lemma restart_matters:
  assumes "caseLog (caStore s') = caseLog (caStore s)"
  shows "matters (caStore (restart fits opens s')) = matters (caStore (restart fits opens s))"
proof -
  let ?b = "\<lambda>bs. \<lparr>matters = Map.empty, csDocs = Map.empty, deadlines = Map.empty, csSeq = 0, caseLog = caseLog (caStore s), logOpen = False, blobs = bs, csPG = None\<rparr>"
  have "same_data (fold index_rec rs (?b x)) (fold index_rec rs (?b y))" for rs x y by (rule same_data_fold) (simp add: same_data_def)
  then show ?thesis using assms by (simp add: restart_def NewCaseStore_def case_replay_def same_data_def)
qed

end
