(* ===== verification/Case_Properties.thy ===== *)
theory Case_Properties
  imports Case_Durability
begin

text \<open>The properties of the case-management service, each with a concrete instance on a small practice.\<close>

section \<open>A small practice\<close>

definition demo_case_env :: case_env where
  "demo_case_env = \<lparr>ceNow = ''2026-01-15T10:00:00Z'', ceYear = 2026, ceULID = ''A'', ceLog = \<lparr>logWrite = True, pgWrite = True\<rparr>,
     ceBlob = True, ceRel = (\<lambda>_. Written), ceOrd = []\<rparr>"

definition demo_counsel :: principal where
  "demo_counsel = \<lparr>prSubject = ''user:ada'', prRole = ''counsel''\<rparr>"

definition demo_matter :: Matter where
  "demo_matter = \<lparr>mtID = '''', mtTenantID = ''t1'', mtRef = ''R1'', mtTitle = ''Appeal'', mtClientID = ''bob'', mtClientName = ''Bob'', mtPracticeArea = ''tax-appeal'',
     mtStatus = ''active'', mtCounsel = [], mtOpenedAt = '''', mtClosedAt = '''', mtNotes = ''''\<rparr>"

definition demo_opened :: Matter where
  "demo_opened = demo_matter\<lparr>mtID := ''mtr-A'', mtOpenedAt := ''2026-01-15T10:00:00Z''\<rparr>"

definition demo_deadline :: Deadline where
  "demo_deadline = \<lparr>dlID = '''', dlMatterID = '''', dlTitle = ''file'', DueAt = ''d1'', Severity = '''', dlStatus = '''', Escalated = False, dlCreatedAt = ''''\<rparr>"

definition demo_parse :: "string \<Rightarrow> int option" where
  "demo_parse d = (if d = ''d1'' then Some 1 else None)"

definition demo_hash :: "blob \<Rightarrow> string" where
  "demo_hash b = ''hash''"

definition demo_ops :: "case_op list" where
  "demo_ops = [OpCreateMatter demo_case_env demo_counsel (Some demo_matter),
     OpUploadDoc demo_case_env demo_counsel ''mtr-A'' (Inr (''brief'', '''', True, [5, 7])),
     OpCreateDeadline demo_case_env demo_counsel ''mtr-A'' (Some demo_deadline)]"

text \<open>The practice after these operations.\<close>

definition demo_doc :: Document where
  "demo_doc = \<lparr>dcID = ''doc-A'', dcMatterID = ''mtr-A'', dcName = ''brief'', dcMimeType = ''application/octet-stream'', SizeBytes = 2, dcSHA256 = ''hash'',
     Privileged = True, UploadedBy = ''user:ada'', UploadedAt = ''2026-01-15T10:00:00Z''\<rparr>"

definition demo_due :: Deadline where
  "demo_due = demo_deadline\<lparr>dlID := ''dl-A'', dlMatterID := ''mtr-A'', dlStatus := ''open'', Severity := ''info'', dlCreatedAt := ''2026-01-15T10:00:00Z''\<rparr>"

definition demo_tuples :: "RelationTuple list" where
  "demo_tuples = [\<lparr>Entity = ''matter:mtr-A'', Relation = ''client'', Subject = ''user:bob''\<rparr>, \<lparr>Entity = ''matter:mtr-A'', Relation = ''counsel'', Subject = ''user:ada''\<rparr>]"

definition demo_practice1 :: CaseService where
  "demo_practice1 = \<lparr>caStore = \<lparr>matters = [''mtr-A'' \<mapsto> demo_opened], csDocs = Map.empty, deadlines = Map.empty, csSeq = 0,
     caseLog = [MatterRec demo_opened], logOpen = True, blobs = Map.empty, csPG = None\<rparr>,
     caRel = \<lparr>tuples = demo_tuples, relFile = demo_tuples\<rparr>, caPerm = None, caSent = []\<rparr>"

definition demo_practice2 :: CaseService where
  "demo_practice2 = \<lparr>caStore = \<lparr>matters = [''mtr-A'' \<mapsto> demo_opened], csDocs = [''doc-A'' \<mapsto> demo_doc], deadlines = Map.empty, csSeq = 0,
     caseLog = [MatterRec demo_opened, DocRec demo_doc], logOpen = True, blobs = [''doc-A'' \<mapsto> [5, 7]], csPG = None\<rparr>,
     caRel = (let ts = demo_tuples @ [\<lparr>Entity = ''doc:doc-A'', Relation = ''privileged'', Subject = ''user:ada''\<rparr>] in \<lparr>tuples = ts, relFile = ts\<rparr>), caPerm = None, caSent = []\<rparr>"

definition demo_practice :: CaseService where
  "demo_practice = demo_practice2\<lparr>caStore := (caStore demo_practice2)\<lparr>deadlines := [''dl-A'' \<mapsto> demo_due],
     caseLog := [MatterRec demo_opened, DocRec demo_doc, DeadlineRec demo_due]\<rparr>\<rparr>"

lemma demo_create:
  "exec demo_hash demo_parse fits (OpCreateMatter demo_case_env demo_counsel (Some demo_matter)) (fresh_service None) = (demo_practice1, 201)"
  by (simp add: handleCreateMatter_def new_matter_def seed_tuples_def counsel_tuples_def demo_matter_def demo_opened_def demo_case_env_def demo_counsel_def
      fresh_service_def NewCaseStore_def case_replay_def NewRelationChecker_def Grant_def rel_persist_def PutMatter_def poke_matter_def appendLog_def
      demo_practice1_def demo_tuples_def Let_def)

lemma demo_may_write:
  "mayWrite demo_counsel demo_opened demo_practice1 = Some True" "mayWrite demo_counsel demo_opened demo_practice2 = Some True"
  "mayWrite demo_counsel demo_opened demo_practice = Some True"
  by (simp_all add: mayWrite_def checkRel_def Check_def has_tuple_def demo_counsel_def demo_opened_def demo_practice1_def demo_practice2_def demo_practice_def
      demo_tuples_def Let_def)

lemma demo_upload:
  "exec demo_hash demo_parse fits (OpUploadDoc demo_case_env demo_counsel ''mtr-A'' (Inr (''brief'', '''', True, [5, 7]))) demo_practice1 = (demo_practice2, 201)"
proof -
  have m: "GetMatter ''mtr-A'' (caStore demo_practice1) = Some demo_opened" by (simp add: GetMatter_def demo_practice1_def)
  have d: "new_document demo_case_env demo_hash demo_counsel demo_opened (''brief'', '''', True, [5, 7]) = demo_doc"
    by (simp add: new_document_def demo_case_env_def demo_counsel_def demo_opened_def demo_doc_def demo_hash_def)
  have "ceBlob demo_case_env" "ceLog demo_case_env = \<lparr>logWrite = True, pgWrite = True\<rparr>" "ceRel demo_case_env = (\<lambda>_. Written)" by (simp_all add: demo_case_env_def)
  moreover have "privilege_tuple demo_counsel demo_doc = \<lparr>Entity = ''doc:doc-A'', Relation = ''privileged'', Subject = ''user:ada''\<rparr>" "dcID demo_doc = ''doc-A''"
    by (simp_all add: privilege_tuple_def demo_doc_def demo_counsel_def)
  ultimately show ?thesis
    by (simp add: handleUploadDoc_def m demo_may_write d PutDocument_def Let_def)
      (simp add: appendLog_def Grant_def rel_persist_def demo_practice1_def demo_practice2_def demo_tuples_def Let_def)
qed

lemma demo_create_deadline:
  "exec demo_hash demo_parse fits (OpCreateDeadline demo_case_env demo_counsel ''mtr-A'' (Some demo_deadline)) demo_practice2 = (demo_practice, 201)"
proof -
  have m: "GetMatter ''mtr-A'' (caStore demo_practice2) = Some demo_opened" by (simp add: GetMatter_def demo_practice2_def)
  have "demo_deadline\<lparr>dlID := ''dl-'' @ ceULID demo_case_env, dlMatterID := mtID demo_opened, dlStatus := ''open'',
      Severity := (if Severity demo_deadline = '''' then ''info'' else Severity demo_deadline), dlCreatedAt := ceNow demo_case_env\<rparr> = demo_due"
    by (simp add: demo_due_def demo_deadline_def demo_opened_def demo_case_env_def)
  moreover have "dlTitle demo_deadline \<noteq> ''''" "DueAt demo_deadline = ''d1''" "dlID demo_due = ''dl-A''" "ceLog demo_case_env = \<lparr>logWrite = True, pgWrite = True\<rparr>"
    by (simp_all add: demo_deadline_def demo_due_def demo_case_env_def)
  ultimately show ?thesis
    by (simp add: handleCreateDeadline_def m demo_may_write demo_parse_def upd_store_def Let_def)
      (simp add: PutDeadline_def poke_deadline_def appendLog_def demo_practice2_def demo_practice_def)
qed

lemma demo_case_run: "exec_all demo_hash demo_parse fits demo_ops (fresh_service None) = demo_practice"
  "statuses demo_hash demo_parse fits demo_ops (fresh_service None) = [201, 201, 201]"
  unfolding demo_ops_def exec_all.simps statuses.simps by (simp_all only: demo_create demo_upload demo_create_deadline fst_conv snd_conv)



section \<open>Privileged documents\<close>



section \<open>Restart\<close>



text \<open>An update whose status is refused with 422 has already changed the title in memory: readers see the new title until a restart brings the
  old one back.\<close>

theorem refused_update_lives_until_restart:
  assumes "\<forall>x\<in>set xs. clean_op x" "422 \<notin> set (statuses sha parse fits xs (fresh_service pm))" "s = exec_all sha parse fits xs (fresh_service pm)"
    and "\<forall>r\<in>set (caseLog (caStore s)). fits r"
    and "GetMatter i (caStore s) = Some m" "mayWrite p m s = Some True"
    and "ptStatus pt = Some x" "x \<notin> {''intake'', ''active'', ''on-hold'', ''closed''}" "ptTitle pt = Some t" "ptNotes pt = None"
    and "handleUpdateMatter e p i (Some pt) s = (s', r)"
  shows "r = Problem 422 ''validation failed'' \<and> GetMatter i (caStore s') = Some (m\<lparr>mtTitle := t\<rparr>) \<and>
    GetMatter i (caStore (restart fits True s')) = Some m"
proof -
  have mk: "matters_keyed s" unfolding assms(3) by (rule matters_keyed_run [OF matters_keyed_fresh])
  then have "mtID m = i" using assms(5) by (simp add: matters_keyed_def GetMatter_def)
  from refused_update_changes_memory [OF assms(5) this assms(6-10), of e] assms(11)
  have u: "r = Problem 422 ''validation failed''" "GetMatter i (caStore s') = Some (m\<lparr>mtTitle := t\<rparr>)" "caseLog (caStore s') = caseLog (caStore s)" by simp_all
  have "matters (caStore (restart fits True s')) = matters (caStore (restart fits True s))"
    by (rule restart_matters [OF u(3)])
  moreover have "matters (caStore (restart fits True s)) = matters (caStore s)"
    using restart_synced(1) [OF _ assms(4), of True] synced_run [OF synced_fresh assms(1,2)] unfolding assms(3) by (simp add: same_data_def)
  ultimately show ?thesis using u assms(5) by (simp add: GetMatter_def)
qed

definition demo_bad_patch :: matter_patch where
  "demo_bad_patch = \<lparr>ptTitle = Some ''Changed'', ptStatus = Some ''archived'', ptNotes = None, ptCounsel = None\<rparr>"

theorem refused_update_lives_until_restart_witness:
  "\<exists>s'. handleUpdateMatter demo_case_env demo_counsel ''mtr-A'' (Some demo_bad_patch) demo_practice = (s', Problem 422 ''validation failed'') \<and>
     GetMatter ''mtr-A'' (caStore s') = Some (demo_opened\<lparr>mtTitle := ''Changed''\<rparr>) \<and> GetMatter ''mtr-A'' (caStore (restart (\<lambda>_. True) True s')) = Some demo_opened"
proof -
  obtain s' r where u: "handleUpdateMatter demo_case_env demo_counsel ''mtr-A'' (Some demo_bad_patch) demo_practice = (s', r)" by fastforce
  have c: "\<forall>x\<in>set demo_ops. clean_op x" by (simp add: demo_ops_def writes_ok_def demo_case_env_def)
  have n: "422 \<notin> set (statuses demo_hash demo_parse (\<lambda>_. True) demo_ops (fresh_service None))" by (simp add: demo_case_run(2))
  have g: "GetMatter ''mtr-A'' (caStore demo_practice) = Some demo_opened" by (simp add: GetMatter_def demo_practice_def demo_practice2_def)
  have p: "ptStatus demo_bad_patch = Some ''archived''" "''archived'' \<notin> {''intake'', ''active'', ''on-hold'', ''closed''}" "ptTitle demo_bad_patch = Some ''Changed''"
    "ptNotes demo_bad_patch = None" by (simp_all add: demo_bad_patch_def)
  have f: "\<forall>r\<in>set (caseLog (caStore demo_practice)). (\<lambda>_. True) r" by simp
  from refused_update_lives_until_restart [OF c n demo_case_run(1) [symmetric] f g demo_may_write(3) p u] u show ?thesis by blast
qed

section \<open>Deadlines\<close>

text \<open>C17. A scan of a service reached by any sequence of requests changes each open deadline by the reference rule and no other one: overdue
  deadlines are escalated once and missed afterwards, so that none of them stays open.\<close>

theorem overdue_deadlines_escalated:
  assumes "s = exec_all sha parse fits xs (fresh_service pm)" "visits ord (caStore s)" "t = scanDeadlines parse now w es ord s"
  shows "deadlines (caStore t) = (\<lambda>j. map_option (\<lambda>dl. if dlStatus dl = ''open'' then scanned parse now w dl else dl) (deadlines (caStore s) j)) \<and>
    (\<forall>j dl due. deadlines (caStore t) j = Some dl \<longrightarrow> dlStatus dl = ''open'' \<longrightarrow> parse (DueAt dl) = Some due \<longrightarrow> now \<le> due)"
proof -
  have "keyed (caStore s)" unfolding assms(1) by (rule keyed_run [OF keyed_fresh])
  from scan_refines [OF this assms(2)] have r: "deadlines (caStore t) =
      (\<lambda>j. map_option (\<lambda>dl. if dlStatus dl = ''open'' then scanned parse now w dl else dl) (deadlines (caStore s) j))" unfolding assms(3) .
  have "now \<le> due" if a: "deadlines (caStore t) j = Some dl" "dlStatus dl = ''open''" "parse (DueAt dl) = Some due" for j dl due
  proof -
    obtain d0 where "deadlines (caStore s) j = Some d0" "dl = (if dlStatus d0 = ''open'' then scanned parse now w d0 else d0)"
      using a(1) fun_cong [OF r, of j] by auto
    then have "dl = scanned parse now w d0" "dlStatus d0 = ''open''" using a(2) by (auto split: if_splits)
    then show ?thesis using scanned_not_overdue [of parse now w d0 due] a(2,3) by (simp add: not_less)
  qed
  with r show ?thesis by blast
qed

theorem overdue_deadlines_escalated_witness:
  "\<exists>dl. deadlines (caStore (scanDeadlines demo_parse 5 ''d9'' (\<lambda>_. \<lparr>logWrite = True, pgWrite = True\<rparr>) [''dl-A''] demo_practice)) ''dl-A'' = Some dl \<and> dlStatus dl = ''escalated''"
proof -
  have v: "visits [''dl-A''] (caStore demo_practice)" by (simp add: visits_def demo_practice_def)
  have "deadlines (caStore demo_practice) ''dl-A'' = Some demo_due" by (simp add: demo_practice_def)
  moreover have "dlStatus demo_due = ''open''" "dlStatus (scanned demo_parse 5 ''d9'' demo_due) = ''escalated''"
    by (simp_all add: scanned_def demo_due_def demo_deadline_def demo_parse_def)
  ultimately show ?thesis using overdue_deadlines_escalated [OF demo_case_run(1) [symmetric] v refl, of 5 "''d9''"] by simp
qed

end
