(* ===== verification/Vasp_Engine.thy ===== *)
theory Vasp_Engine
  imports Go_Prelude
begin

text \<open>
  The cost-basis engine of the VASP service (\<^verbatim>\<open>services/vasp-carf/engine.go\<close>): trades and transfers,
  the FIFO queue of lots and the weighted-average position of every holding, the cache of market
  values, the gain and loss ledger, the append log with its replay, and the ring fence.

  A Go map whose missing keys are read as the zero value is a total function (\<open>lots\<close>, \<open>fmv\<close>); the
  other maps are partial. A line of the log is the record it encodes; \<open>fits\<close> says which lines the
  reader accepts, since a line longer than its buffer ends the reading. Clock readings, ULIDs and
  the outcomes of the log writes are in an \<open>eng_env\<close>; the errors of the writes are dropped by the
  source, and so they are here.
\<close>

section \<open>Data\<close>

record Trade =
  tdID :: string
  tdTenantID :: string
  VASPRef :: string
  tdUserHash :: string
  tdAsset :: string
  Side :: string
  tdQtyMilli :: int64
  tdPriceKobo :: int64
  FeeKobo :: int64
  TradedAt :: string
  TxHash :: string

record VTransfer =
  xfID :: string
  xfTenantID :: string
  xfUserHash :: string
  xfAsset :: string
  Direction :: string
  xfQtyMilli :: int64
  FMVKobo :: int64
  MovedAt :: string

record Lot =
  ltQtyMilli :: int64
  CostPerUnit :: int64
  AcquiredAt :: string

record GainLossEntry =
  glID :: string
  glTenantID :: string
  glUserHash :: string
  glAsset :: string
  glKind :: string
  Proceeds :: int64
  Basis :: int64
  GainLoss :: int64
  Method :: string
  glTradeID :: string
  Memo :: string
  BookedAt :: string

record FMVSnapshot =
  snAsset :: string
  snPriceKobo :: int64
  snSource :: string
  snAt :: string

record wacState =
  wcQtyMilli :: int64
  CostTotal :: int64

datatype engineRec = TradeRec Trade | TransferRec VTransfer | FmvRec FMVSnapshot | LedgerRec GainLossEntry

record Engine =
  trades :: "string \<rightharpoonup> Trade"
  transfers :: "string \<rightharpoonup> VTransfer"
  lots :: "string \<Rightarrow> Lot list"
  wac :: "string \<rightharpoonup> wacState"
  fmv :: "string \<Rightarrow> FMVSnapshot list"
  ledger :: "GainLossEntry list"
  engLog :: "engineRec list"
  engOpen :: bool \<comment> \<open>the log file could be opened\<close>

definition key3 :: "string \<Rightarrow> string \<Rightarrow> string \<Rightarrow> string" where
  "key3 tenant user asset = tenant @ ''|'' @ user @ ''|'' @ ToUpper asset"

text \<open>The product is taken in 64 bits before the division.\<close>

definition amountKobo :: "int64 \<Rightarrow> int64 \<Rightarrow> int64" where
  "amountKobo qtyMilli pricePerUnit = quot64 (mul64 qtyMilli pricePerUnit) 1000"

section \<open>The log\<close>

record eng_env =
  egULID :: string \<comment> \<open>of a record that came without an identifier\<close>
  egULID2 :: string \<comment> \<open>of the gain and loss entry\<close>
  egNow :: string
  egBooked :: string
  egWrite1 :: bool \<comment> \<open>the first write of the call reaches the log\<close>
  egWrite2 :: bool

definition append_rec :: "bool \<Rightarrow> engineRec \<Rightarrow> Engine \<Rightarrow> Engine" where
  "append_rec ok r e = (if engOpen e \<and> ok then e\<lparr>engLog := engLog e @ [r]\<rparr> else e)"

section \<open>Lots and averages\<close>

definition acquire :: "string \<Rightarrow> string \<Rightarrow> string \<Rightarrow> int64 \<Rightarrow> string \<Rightarrow> int64 \<Rightarrow> Engine \<Rightarrow> Engine" where
  "acquire tenant user asset qtyMilli tradedAt costPerUnit e =
     (let k = key3 tenant user asset;
          w = (case wac e k of None \<Rightarrow> \<lparr>wcQtyMilli = 0, CostTotal = 0\<rparr> | Some w \<Rightarrow> w)
      in e\<lparr>lots := (lots e)(k := lots e k @ [\<lparr>ltQtyMilli = qtyMilli, CostPerUnit = costPerUnit, AcquiredAt = tradedAt\<rparr>]),
           wac := (wac e)(k \<mapsto> \<lparr>wcQtyMilli = add64 (wcQtyMilli w) qtyMilli,
                               CostTotal = add64 (CostTotal w) (amountKobo qtyMilli costPerUnit)\<rparr>)\<rparr>)"

text \<open>
  The loop of \<^verbatim>\<open>consumeBasis\<close>: \<open>lot_more\<close> is its condition and \<open>lot_step\<close> its body, on the variables
  \<open>remain\<close>, \<open>basis\<close> and \<open>lots\<close>.
\<close>

type_synonym relief = "int64 \<times> int64 \<times> Lot list"

fun lot_more :: "relief \<Rightarrow> bool" where
  "lot_more (remain, basis, ls) \<longleftrightarrow> remain > 0 \<and> ls \<noteq> []"

fun lot_step :: "relief \<Rightarrow> relief" where
  "lot_step (remain, basis, head # rest) =
     (let take = (if ltQtyMilli head > remain then remain else ltQtyMilli head);
          head' = head\<lparr>ltQtyMilli := sub64 (ltQtyMilli head) take\<rparr>
      in (sub64 remain take, add64 basis (amountKobo take (CostPerUnit head)),
          if ltQtyMilli head' = 0 then rest else head' # rest))"
| "lot_step (remain, basis, []) = (remain, basis, [])"

lemma sub64_self [simp]: "sub64 x x = 0"
  by (simp add: sub64_def wrap64_id)

function relieve :: "relief \<Rightarrow> relief" where
  "relieve s = (if lot_more s then relieve (lot_step s) else s)"
  by pat_completeness auto

termination
proof (relation "measure (\<lambda>(remain, basis, ls). if remain > 0 then length ls else 0)")
  fix s :: relief
  assume more: "lot_more s"
  obtain remain basis ls where s: "s = (remain, basis, ls)" by (cases s)
  with more obtain head rest where ls: "ls = head # rest" and "remain > 0"
    by (cases ls) auto
  then show "(lot_step s, s) \<in> measure (\<lambda>(remain, basis, ls). if remain > 0 then length ls else 0)"
    by (cases "ltQtyMilli head > remain") (auto simp: s Let_def)
qed simp

declare relieve.simps [simp del]

definition consumeBasis :: "string \<Rightarrow> string \<Rightarrow> string \<Rightarrow> int64 \<Rightarrow> Engine \<Rightarrow> Engine \<times> (string + int64)" where
  "consumeBasis tenant user asset qtyMilli e =
     (let k = key3 tenant user asset; have = sum64 ltQtyMilli (lots e k)
      in if have < qtyMilli
         then (e, Inl (''insufficient basis: have '' @ show_int have @ '' milli, need '' @ show_int qtyMilli))
         else (case relieve (qtyMilli, 0, lots e k) of
                 (_, basis, ls) \<Rightarrow> (e\<lparr>lots := (lots e)(k := ls)\<rparr>, Inr basis)))"

definition consumeWAC :: "string \<Rightarrow> string \<Rightarrow> string \<Rightarrow> int64 \<Rightarrow> Engine \<Rightarrow> Engine \<times> (string + int64)" where
  "consumeWAC tenant user asset qtyMilli e =
     (let k = key3 tenant user asset; have = (case wac e k of None \<Rightarrow> 0 | Some w \<Rightarrow> wcQtyMilli w)
      in case wac e k of
           None \<Rightarrow> (e, Inl (''insufficient wac basis: have '' @ show_int have @ '' milli, need '' @ show_int qtyMilli))
         | Some w \<Rightarrow>
             if wcQtyMilli w < qtyMilli
             then (e, Inl (''insufficient wac basis: have '' @ show_int have @ '' milli, need '' @ show_int qtyMilli))
             else let basis = quot64 (mul64 (CostTotal w) qtyMilli) (wcQtyMilli w)
                  in (e\<lparr>wac := (wac e)(k \<mapsto> \<lparr>wcQtyMilli = sub64 (wcQtyMilli w) qtyMilli,
                                             CostTotal = sub64 (CostTotal w) basis\<rparr>)\<rparr>, Inr basis))"

section \<open>Replay\<close>

definition applyTrade :: "Trade \<Rightarrow> Engine \<Rightarrow> Engine" where
  "applyTrade t e =
     (if trades e (tdID t) \<noteq> None then e
      else let e1 = e\<lparr>trades := (trades e)(tdID t \<mapsto> t)\<rparr>
           in if Side t = ''buy'' then acquire (tdTenantID t) (tdUserHash t) (tdAsset t) (tdQtyMilli t) (TradedAt t) (tdPriceKobo t) e1
              else fst (consumeWAC (tdTenantID t) (tdUserHash t) (tdAsset t) (tdQtyMilli t)
                     (fst (consumeBasis (tdTenantID t) (tdUserHash t) (tdAsset t) (tdQtyMilli t) e1))))"

definition applyTransfer :: "VTransfer \<Rightarrow> Engine \<Rightarrow> Engine" where
  "applyTransfer tr e =
     (if transfers e (xfID tr) \<noteq> None then e
      else let e1 = e\<lparr>transfers := (transfers e)(xfID tr \<mapsto> tr)\<rparr>
           in if Direction tr = ''in'' then acquire (xfTenantID tr) (xfUserHash tr) (xfAsset tr) (xfQtyMilli tr) (MovedAt tr) (FMVKobo tr) e1
              else fst (consumeWAC (xfTenantID tr) (xfUserHash tr) (xfAsset tr) (xfQtyMilli tr)
                     (fst (consumeBasis (xfTenantID tr) (xfUserHash tr) (xfAsset tr) (xfQtyMilli tr) e1))))"

definition add_snap :: "FMVSnapshot \<Rightarrow> Engine \<Rightarrow> Engine" where
  "add_snap s e = e\<lparr>fmv := (fmv e)(ToUpper (snAsset s) := fmv e (ToUpper (snAsset s)) @ [s])\<rparr>"

definition apply_rec :: "engineRec \<Rightarrow> Engine \<Rightarrow> Engine" where
  "apply_rec r e =
     (case r of
        TradeRec t \<Rightarrow> applyTrade t e
      | TransferRec tr \<Rightarrow> applyTransfer tr e
      | FmvRec s \<Rightarrow> add_snap s e
      | LedgerRec gl \<Rightarrow> e\<lparr>ledger := ledger e @ [gl]\<rparr>)"

definition engine_replay :: "(engineRec \<Rightarrow> bool) \<Rightarrow> engineRec list \<Rightarrow> Engine \<Rightarrow> Engine" where
  "engine_replay fits lg e = fold apply_rec (takeWhile fits lg) e"

definition NewEngine :: "(engineRec \<Rightarrow> bool) \<Rightarrow> bool \<Rightarrow> engineRec list \<Rightarrow> Engine" where
  "NewEngine fits opens lg =
     (engine_replay fits lg
        \<lparr>trades = Map.empty, transfers = Map.empty, lots = (\<lambda>_. []), wac = Map.empty, fmv = (\<lambda>_. []),
         ledger = [], engLog = lg, engOpen = False\<rparr>)
     \<lparr>engOpen := opens\<rparr>"

section \<open>Ingest\<close>

definition disposal_entry :: "eng_env \<Rightarrow> Trade \<Rightarrow> string \<Rightarrow> int64 \<Rightarrow> int64 \<Rightarrow> GainLossEntry" where
  "disposal_entry v t meth proceeds basis =
     \<lparr>glID = ''gl-'' @ egULID2 v, glTenantID = tdTenantID t, glUserHash = tdUserHash t, glAsset = ToUpper (tdAsset t),
      glKind = ''disposal'', Proceeds = proceeds, Basis = basis, GainLoss = sub64 proceeds basis,
      Method = meth, glTradeID = tdID t,
      Memo = ''disposal of '' @ show_int (tdQtyMilli t) @ '' milli-'' @ ToUpper (tdAsset t) @ '' @ '' @
             show_int (tdPriceKobo t) @ '' kobo/asset'',
      BookedAt = egBooked v\<rparr>"

definition bookDisposal :: "eng_env \<Rightarrow> Trade \<Rightarrow> string \<Rightarrow> Engine \<Rightarrow> Engine \<times> (string + GainLossEntry)" where
  "bookDisposal v t method0 e =
     (let meth = (if method0 = '''' then ''fifo'' else method0);
          proceeds = sub64 (amountKobo (tdQtyMilli t) (tdPriceKobo t)) (FeeKobo t)
      in if meth = ''fifo''
         then (case consumeBasis (tdTenantID t) (tdUserHash t) (tdAsset t) (tdQtyMilli t) e of
                 (e1, Inl err) \<Rightarrow> (e1, Inl err)
               | (e1, Inr b) \<Rightarrow> (e1, Inr (disposal_entry v t meth proceeds b)))
         else if meth = ''wac''
         then (case consumeWAC (tdTenantID t) (tdUserHash t) (tdAsset t) (tdQtyMilli t) e of
                 (e1, Inl err) \<Rightarrow> (e1, Inl err)
               | (e1, Inr b) \<Rightarrow> (e1, Inr (disposal_entry v t meth proceeds b)))
         else (e, Inl (''unknown method '' @ [CHR 0x22] @ meth @ [CHR 0x22] @ '' (fifo|wac)'')))"

definition named_trade :: "eng_env \<Rightarrow> Trade \<Rightarrow> Trade" where
  "named_trade v t = (if tdID t = '''' then t\<lparr>tdID := ''trd-'' @ egULID v\<rparr> else t)"

definition dated_trade :: "eng_env \<Rightarrow> Trade \<Rightarrow> Trade" where
  "dated_trade v t = (if TradedAt t = '''' then t\<lparr>TradedAt := egNow v\<rparr> else t)"

definition store_trade :: "bool \<Rightarrow> Trade \<Rightarrow> Engine \<Rightarrow> Engine" where
  "store_trade ok t e = append_rec ok (TradeRec t) (e\<lparr>trades := (trades e)(tdID t \<mapsto> t)\<rparr>)"

definition store_entry :: "bool \<Rightarrow> GainLossEntry \<Rightarrow> Engine \<Rightarrow> Engine" where
  "store_entry ok gl e = append_rec ok (LedgerRec gl) (e\<lparr>ledger := ledger e @ [gl]\<rparr>)"

text \<open>The trade is returned as well: the caller reads the identifier it was given.\<close>

definition IngestTrade :: "eng_env \<Rightarrow> Trade \<Rightarrow> string \<Rightarrow> Engine \<Rightarrow> Engine \<times> Trade \<times> (string + GainLossEntry option)" where
  "IngestTrade v t0 meth e =
     (if tdQtyMilli t0 \<le> 0 \<or> tdPriceKobo t0 < 0 then (e, t0, Inl ''qty_milli must be > 0 and price_kobo >= 0'')
      else if Side t0 \<noteq> ''buy'' \<and> Side t0 \<noteq> ''sell'' then (e, t0, Inl ''side must be buy|sell'')
      else let t1 = named_trade v t0
           in if trades e (tdID t1) \<noteq> None then (e, t1, Inr None)
              else let t = dated_trade v t1
                   in if Side t = ''sell''
                      then (case bookDisposal v t meth e of
                              (e1, Inl err) \<Rightarrow> (e1, t, Inl err)
                            | (e1, Inr gl) \<Rightarrow> (store_entry (egWrite2 v) gl (store_trade (egWrite1 v) t e1), t, Inr (Some gl)))
                      else (store_trade (egWrite1 v) t
                              (acquire (tdTenantID t) (tdUserHash t) (tdAsset t) (tdQtyMilli t) (TradedAt t) (tdPriceKobo t) e), t, Inr None))"

definition latestFMV :: "string \<Rightarrow> Engine \<Rightarrow> FMVSnapshot option" where
  "latestFMV asset e = (case fmv e (ToUpper asset) of [] \<Rightarrow> None | s # ss \<Rightarrow> Some (last (s # ss)))"

definition named_transfer :: "eng_env \<Rightarrow> VTransfer \<Rightarrow> VTransfer" where
  "named_transfer v tr = (if xfID tr = '''' then tr\<lparr>xfID := ''xfr-'' @ egULID v\<rparr> else tr)"

definition valued_transfer :: "eng_env \<Rightarrow> Engine \<Rightarrow> VTransfer \<Rightarrow> VTransfer" where
  "valued_transfer v e tr0 =
     (let tr = (if MovedAt tr0 = '''' then tr0\<lparr>MovedAt := egNow v\<rparr> else tr0)
      in if FMVKobo tr = 0
         then (case latestFMV (xfAsset tr) e of None \<Rightarrow> tr | Some snap \<Rightarrow> tr\<lparr>FMVKobo := snPriceKobo snap\<rparr>)
         else tr)"

definition withdrawal_entry :: "eng_env \<Rightarrow> VTransfer \<Rightarrow> int64 \<Rightarrow> int64 \<Rightarrow> GainLossEntry" where
  "withdrawal_entry v tr proceeds basis =
     \<lparr>glID = ''gl-'' @ egULID2 v, glTenantID = xfTenantID tr, glUserHash = xfUserHash tr, glAsset = ToUpper (xfAsset tr),
      glKind = ''transfer-out-fmv'', Proceeds = proceeds, Basis = basis, GainLoss = sub64 proceeds basis,
      Method = ''fifo'', glTradeID = '''', Memo = ''withdrawal treated as disposal at FMV (NTA digital assets)'',
      BookedAt = egBooked v\<rparr>"

definition store_transfer :: "bool \<Rightarrow> VTransfer \<Rightarrow> Engine \<Rightarrow> Engine" where
  "store_transfer ok tr e = append_rec ok (TransferRec tr) (e\<lparr>transfers := (transfers e)(xfID tr \<mapsto> tr)\<rparr>)"

text \<open>For a withdrawal the entry of the ledger is written before the transfer.\<close>

definition IngestTransfer :: "eng_env \<Rightarrow> VTransfer \<Rightarrow> Engine \<Rightarrow> Engine \<times> VTransfer \<times> (string + GainLossEntry option)" where
  "IngestTransfer v tr0 e =
     (if xfQtyMilli tr0 \<le> 0 then (e, tr0, Inl ''qty_milli must be > 0'')
      else if Direction tr0 \<noteq> ''in'' \<and> Direction tr0 \<noteq> ''out'' then (e, tr0, Inl ''direction must be in|out'')
      else let tr1 = named_transfer v tr0
           in if transfers e (xfID tr1) \<noteq> None then (e, tr1, Inr None)
              else let tr = valued_transfer v e tr1
                   in if Direction tr = ''in''
                      then (store_transfer (egWrite1 v) tr
                              (acquire (xfTenantID tr) (xfUserHash tr) (xfAsset tr) (xfQtyMilli tr) (MovedAt tr) (FMVKobo tr) e), tr, Inr None)
                      else (case consumeBasis (xfTenantID tr) (xfUserHash tr) (xfAsset tr) (xfQtyMilli tr) e of
                              (e1, Inl err) \<Rightarrow> (e1, tr, Inl err)
                            | (e1, Inr basis) \<Rightarrow>
                                let e2 = fst (consumeWAC (xfTenantID tr) (xfUserHash tr) (xfAsset tr) (xfQtyMilli tr) e1);
                                    gl = withdrawal_entry v tr (amountKobo (xfQtyMilli tr) (FMVKobo tr)) basis
                                in (store_transfer (egWrite2 v) tr (store_entry (egWrite1 v) gl e2), tr, Inr (Some gl))))"

definition AddFMV :: "eng_env \<Rightarrow> FMVSnapshot \<Rightarrow> Engine \<Rightarrow> Engine" where
  "AddFMV v s0 e =
     (let s = (if snAt s0 = '''' then s0\<lparr>snAt := egNow v\<rparr> else s0)
      in append_rec (egWrite1 v) (FmvRec s) (add_snap s e))"

section \<open>Reports\<close>

datatype basis_report =
    WacReport string int64 int64 "int64 option" \<comment> \<open>asset, quantity, basis, average cost per asset\<close>
  | FifoReport string string int64 int64 "Lot list" \<comment> \<open>asset, method, quantity, basis, lots\<close>

definition CostBasis :: "string \<Rightarrow> string \<Rightarrow> string \<Rightarrow> string \<Rightarrow> Engine \<Rightarrow> basis_report" where
  "CostBasis tenant user asset meth e =
     (let k = key3 tenant user asset
      in if meth = ''wac''
         then (case wac e k of
                 None \<Rightarrow> WacReport (ToUpper asset) 0 0 None
               | Some w \<Rightarrow> WacReport (ToUpper asset) (wcQtyMilli w) (CostTotal w)
                   (if wcQtyMilli w > 0 then Some (quot64 (mul64 (CostTotal w) 1000) (wcQtyMilli w)) else None))
         else FifoReport (ToUpper asset) meth (sum64 ltQtyMilli (lots e k))
                (sum64 (\<lambda>l. amountKobo (ltQtyMilli l) (CostPerUnit l)) (lots e k)) (lots e k))"

definition Ledger :: "string \<Rightarrow> Engine \<Rightarrow> GainLossEntry list" where
  "Ledger tenant e = filter (\<lambda>gl. tenant = '''' \<or> glTenantID gl = tenant) (ledger e)"

text \<open>
  \<open>ord\<close> is the order in which Go visits the keys of the map. \<^verbatim>\<open>sort.Slice\<close> is not stable, so the order
  among equal keys is not specified by the source either; here it is the order of the visit.
\<close>

definition Trades :: "string list \<Rightarrow> string \<Rightarrow> Engine \<Rightarrow> Trade list" where
  "Trades ord tenant e = sort_key TradedAt (filter (\<lambda>t. tenant = '''' \<or> tdTenantID t = tenant) (List.map_filter (trades e) ord))"

definition Transfers :: "string list \<Rightarrow> string \<Rightarrow> Engine \<Rightarrow> VTransfer list" where
  "Transfers ord tenant e = filter (\<lambda>tr. tenant = '''' \<or> xfTenantID tr = tenant) (List.map_filter (transfers e) ord)"

record RingFenceResult =
  rfTenantID :: string
  rfUserHash :: string
  rfPeriod :: string
  GrossGains :: int64
  GrossLosses :: int64
  NetRingFenced :: int64
  TaxableGain :: int64
  CarryForward :: int64
  PerAsset :: "string \<rightharpoonup> int64"
  RuleRef :: string

definition fenced :: "string \<Rightarrow> string \<Rightarrow> string \<Rightarrow> GainLossEntry \<Rightarrow> bool" where
  "fenced tenant user period gl \<longleftrightarrow>
     \<not> (glTenantID gl \<noteq> tenant \<or> (user \<noteq> '''' \<and> glUserHash gl \<noteq> user)) \<and>
     \<not> (period \<noteq> '''' \<and> \<not> HasPrefix (BookedAt gl) period)"

definition ring_add :: "GainLossEntry \<Rightarrow> RingFenceResult \<Rightarrow> RingFenceResult" where
  "ring_add gl res =
     (let r1 = res\<lparr>PerAsset := (PerAsset res)(glAsset gl \<mapsto>
                 add64 (case PerAsset res (glAsset gl) of None \<Rightarrow> 0 | Some x \<Rightarrow> x) (GainLoss gl))\<rparr>
      in if GainLoss gl \<ge> 0 then r1\<lparr>GrossGains := add64 (GrossGains r1) (GainLoss gl)\<rparr>
         else r1\<lparr>GrossLosses := add64 (GrossLosses r1) (neg64 (GainLoss gl))\<rparr>)"

definition RingFence :: "string \<Rightarrow> string \<Rightarrow> string \<Rightarrow> Engine \<Rightarrow> RingFenceResult" where
  "RingFence tenant user period e =
     (let res0 = \<lparr>rfTenantID = tenant, rfUserHash = user, rfPeriod = period, GrossGains = 0, GrossLosses = 0,
                  NetRingFenced = 0, TaxableGain = 0, CarryForward = 0, PerAsset = Map.empty,
                  RuleRef = ''rp-nta-digital-assets:vasp.ringfence''\<rparr>;
          res1 = fold (\<lambda>gl r. if fenced tenant user period gl then ring_add gl r else r) (ledger e) res0;
          res2 = res1\<lparr>NetRingFenced := sub64 (GrossGains res1) (GrossLosses res1)\<rparr>
      in if NetRingFenced res2 > 0 then res2\<lparr>TaxableGain := NetRingFenced res2\<rparr>
         else res2\<lparr>CarryForward := neg64 (NetRingFenced res2)\<rparr>)"

end
