(* ===== verification/Yaml_Parsers.thy ===== *)
theory Yaml_Parsers
  imports Go_Yaml
begin

text \<open>
  The two parsers: \<open>v\<dots>\<close> is \<^verbatim>\<open>services/vasp-carf/yaml.go\<close>, \<open>p\<dots>\<close> is the parser in
  \<^verbatim>\<open>services/pos-vat/packs.go\<close>. An index into the lines is the list of the lines that are left. The
  block parsers take a bound on the depth of their calls and loops; \<open>None\<close> is running out of it.
  For the first parser \<open>2 * n + 2\<close> is always enough for a document of \<open>n\<close> lines; for the second there
  are documents on which no bound is enough.
\<close>

section \<open>Scalars of the VASP parser\<close>

fun split_colon :: "string \<Rightarrow> (string \<times> string) option" where
  "split_colon (a # b # s) =
     (if a = CHR '':'' \<and> b = CHR '' '' then Some ([], s) else map_option (\<lambda>(x, y). (a # x, y)) (split_colon (b # s)))"
| "split_colon s = None"

definition vsplitKV :: "string \<Rightarrow> (string \<times> string) option" where
  "vsplitKV s =
     (case split_colon s of
        None \<Rightarrow> if HasSuffix s '':'' then Some (TrimSpace (butlast s), '''') else None
      | Some (k, v) \<Rightarrow> Some (TrimSpace k, TrimSpace v))"

text \<open>\<open>cur\<close> is the part since \<^verbatim>\<open>start\<close>, reversed.\<close>

fun flow_parts :: "int \<Rightarrow> string \<Rightarrow> string \<Rightarrow> string list" where
  "flow_parts depth cur [] = [TrimSpace (rev cur)]"
| "flow_parts depth cur (c # s) =
     (if c = CHR ''{'' \<or> c = CHR ''['' then flow_parts (depth + 1) (c # cur) s
      else if c = CHR ''}'' \<or> c = CHR '']'' then flow_parts (depth - 1) (c # cur) s
      else if c = CHR '','' \<and> depth = 0 then TrimSpace (rev cur) # flow_parts depth [] s
      else flow_parts depth (c # cur) s)"

definition vsplitFlow :: "string \<Rightarrow> string list" where
  "vsplitFlow body = flow_parts 0 [] body"

lemma split_colon_Some: "split_colon s = Some (k, v) \<Longrightarrow> s = k @ '': '' @ v"
  by (induction s arbitrary: k rule: split_colon.induct) (auto split: if_splits)

lemma vsplitKV_length: "vsplitKV s = Some (k, v) \<Longrightarrow> length v \<le> length s"
  by (auto simp: vsplitKV_def split: option.splits if_splits dest!: split_colon_Some intro: order_trans [OF TrimSpace_length])

lemma flow_parts_length: "p \<in> set (flow_parts d cur s) \<Longrightarrow> length p \<le> length cur + length s"
proof (induction d cur s rule: flow_parts.induct)
  case (1 d cur)
  then show ?case using TrimSpace_length [of "rev cur"] by simp
next
  case (2 d cur c s)
  have "length (TrimSpace (rev cur)) \<le> length cur" using TrimSpace_length [of "rev cur"] by simp
  with 2 show ?case by (simp split: if_splits) (elim disjE, simp_all)
qed

lemma vsplitFlow_length: "p \<in> set (vsplitFlow s) \<Longrightarrow> length p \<le> length s"
  using flow_parts_length [of p 0 "[]" s] by (simp add: vsplitFlow_def)

text \<open>The parts of a flow collection are shorter than the text they come from.\<close>

lemma body_length: "TrimSpace s \<noteq> [] \<Longrightarrow> length (TrimSpace (inner (TrimSpace s))) < length s"
  using TrimSpace_length [of s] TrimSpace_length [of "inner (TrimSpace s)"] inner_length [of "TrimSpace s"] by linarith

lemma HasPrefix_nonempty: "HasPrefix s (c # p) \<Longrightarrow> s \<noteq> []"
  by (auto simp: HasPrefix_iff)

function (sequential) vparseScalar :: "(string \<Rightarrow> string option) \<Rightarrow> string \<Rightarrow> yaml_err + yaml" where
  "vparseScalar flt s0 =
     (let s = TrimSpace s0
      in if s = ''null'' \<or> s = ''~'' then Inr YNull
         else if s = ''true'' then Inr (YBool True)
         else if s = ''false'' then Inr (YBool False)
         else if HasPrefix s ''{'' \<and> HasSuffix s ''}''
         then (if TrimSpace (inner s) = [] then Inr (YMap [])
               else (case traverse (\<lambda>part. case vsplitKV part of
                                      None \<Rightarrow> Inl (BadFlow part)
                                    | Some (k, v) \<Rightarrow> (case vparseScalar flt v of Inl e \<Rightarrow> Inl e | Inr y \<Rightarrow> Inr (k, y)))
                             (vsplitFlow (TrimSpace (inner s))) of
                       Inl e \<Rightarrow> Inl e
                     | Inr kvs \<Rightarrow> Inr (YMap (fold (\<lambda>(k, y) m. yput k y m) kvs []))))
         else if HasPrefix s ''['' \<and> HasSuffix s '']''
         then (if TrimSpace (inner s) = [] then Inr (YList [])
               else (case traverse (\<lambda>part. vparseScalar flt (TrimSpace part)) (vsplitFlow (TrimSpace (inner s))) of
                       Inl e \<Rightarrow> Inl e
                     | Inr ys \<Rightarrow> Inr (YList ys)))
         else if quoted (CHR 0x22) s then Inr (YStr (inner s))
         else if quoted (CHR 0x27) s then Inr (YStr (unquote2 (inner s)))
         else Inr (number_or_text flt s))"
  by pat_completeness auto

termination
proof (relation "measure (\<lambda>(flt, s). length s)")
  fix s0 s part p k v and flt :: "string \<Rightarrow> string option"
  assume "s = TrimSpace s0" "HasPrefix s ''{'' \<and> HasSuffix s ''}''"
    "part \<in> set (vsplitFlow (TrimSpace (inner s)))" "vsplitKV part = Some p" "(k, v) = p"
  then show "((flt, v), (flt, s0)) \<in> measure (\<lambda>(flt, s). length s)"
    using vsplitKV_length [of part k v] vsplitFlow_length [of part] body_length [of s0] HasPrefix_nonempty by fastforce
next
  fix s0 s part and flt :: "string \<Rightarrow> string option"
  assume "s = TrimSpace s0" "HasPrefix s ''['' \<and> HasSuffix s '']''" "part \<in> set (vsplitFlow (TrimSpace (inner s)))"
  then show "((flt, TrimSpace part), (flt, s0)) \<in> measure (\<lambda>(flt, s). length s)"
    using vsplitFlow_length [of part] body_length [of s0] HasPrefix_nonempty TrimSpace_length [of part] by fastforce
qed simp

declare vparseScalar.simps [simp del]

section \<open>Scalars of the POS parser\<close>

text \<open>A colon counts outside quotes, at the end or before a blank.\<close>

fun split_pair :: "bool \<Rightarrow> bool \<Rightarrow> string \<Rightarrow> (string \<times> string) option" where
  "split_pair inS inD [] = None"
| "split_pair inS inD (c # s) =
     (if c = CHR 0x27 then map_option (\<lambda>(x, y). (c # x, y)) (split_pair (if inD then inS else \<not> inS) inD s)
      else if c = CHR 0x22 then map_option (\<lambda>(x, y). (c # x, y)) (split_pair inS (if inS then inD else \<not> inD) s)
      else if c = CHR '':'' \<and> \<not> inS \<and> \<not> inD \<and> (s = [] \<or> hd s = CHR '' '') then Some ([], s)
      else map_option (\<lambda>(x, y). (c # x, y)) (split_pair inS inD s))"

definition psplitKV :: "string \<Rightarrow> (string \<times> string) option" where
  "psplitKV s = map_option (\<lambda>(k, v). (TrimSpace k, TrimSpace v)) (split_pair False False s)"

fun flow_parts_q :: "bool \<Rightarrow> bool \<Rightarrow> int \<Rightarrow> string \<Rightarrow> string \<Rightarrow> string list" where
  "flow_parts_q inS inD depth cur [] = [TrimSpace (rev cur)]"
| "flow_parts_q inS inD depth cur (c # s) =
     (if c = CHR 0x27 then flow_parts_q (if inD then inS else \<not> inS) inD depth (c # cur) s
      else if c = CHR 0x22 then flow_parts_q inS (if inS then inD else \<not> inD) depth (c # cur) s
      else if c = CHR ''{'' \<or> c = CHR ''['' then flow_parts_q inS inD (if \<not> inS \<and> \<not> inD then depth + 1 else depth) (c # cur) s
      else if c = CHR ''}'' \<or> c = CHR '']'' then flow_parts_q inS inD (if \<not> inS \<and> \<not> inD then depth - 1 else depth) (c # cur) s
      else if c = CHR '','' \<and> \<not> inS \<and> \<not> inD \<and> depth = 0 then TrimSpace (rev cur) # flow_parts_q inS inD depth [] s
      else flow_parts_q inS inD depth (c # cur) s)"

definition psplitFlow :: "string \<Rightarrow> string list" where
  "psplitFlow s = flow_parts_q False False 0 [] s"

lemma split_pair_Some: "split_pair a b s = Some (k, v) \<Longrightarrow> s = k @ '':'' @ v"
  by (induction a b s arbitrary: k rule: split_pair.induct) (auto split: if_splits)

lemma psplitKV_length: "psplitKV s = Some (k, v) \<Longrightarrow> length v \<le> length s"
  by (auto simp: psplitKV_def dest!: split_pair_Some intro: order_trans [OF TrimSpace_length])

lemma flow_parts_q_length: "p \<in> set (flow_parts_q a b d cur s) \<Longrightarrow> length p \<le> length cur + length s"
proof (induction a b d cur s rule: flow_parts_q.induct)
  case (1 a b d cur)
  then show ?case using TrimSpace_length [of "rev cur"] by simp
next
  case (2 a b d cur c s)
  have "length (TrimSpace (rev cur)) \<le> length cur" using TrimSpace_length [of "rev cur"] by simp
  with 2 show ?case by (simp split: if_splits) (elim disjE, simp_all)
qed

lemma psplitFlow_length: "p \<in> set (psplitFlow s) \<Longrightarrow> length p \<le> length s"
  using flow_parts_q_length [of p False False 0 "[]" s] by (simp add: psplitFlow_def)

function (sequential) pparseScalar :: "(string \<Rightarrow> string option) \<Rightarrow> string \<Rightarrow> yaml_err + yaml" where
  "pparseScalar flt s0 =
     (let s = TrimSpace s0
      in if s = '''' \<or> s = ''null'' \<or> s = ''~'' then Inr YNull
         else if HasPrefix s ''{'' \<and> HasSuffix s ''}''
         then (if TrimSpace (inner s) = [] then Inr (YMap [])
               else (case traverse (\<lambda>part. case psplitKV part of
                                      None \<Rightarrow> Inl (BadFlow part)
                                    | Some (k, v) \<Rightarrow> (case pparseScalar flt v of Inl e \<Rightarrow> Inl e | Inr y \<Rightarrow> Inr (k, y)))
                             (psplitFlow (TrimSpace (inner s))) of
                       Inl e \<Rightarrow> Inl e
                     | Inr kvs \<Rightarrow> Inr (YMap (fold (\<lambda>(k, y) m. yput k y m) kvs []))))
         else if HasPrefix s ''['' \<and> HasSuffix s '']''
         then (if TrimSpace (inner s) = [] then Inr (YList [])
               else (case traverse (pparseScalar flt) (psplitFlow (TrimSpace (inner s))) of
                       Inl e \<Rightarrow> Inl e
                     | Inr ys \<Rightarrow> Inr (YList ys)))
         else if quoted (CHR 0x22) s then Inr (YStr (inner s))
         else if quoted (CHR 0x27) s then Inr (YStr (unquote2 (inner s)))
         else if s = ''true'' then Inr (YBool True)
         else if s = ''false'' then Inr (YBool False)
         else Inr (number_or_text flt s))"
  by pat_completeness auto

termination
proof (relation "measure (\<lambda>(flt, s). length s)")
  fix s0 s part p k v and flt :: "string \<Rightarrow> string option"
  assume "s = TrimSpace s0" "HasPrefix s ''{'' \<and> HasSuffix s ''}''"
    "part \<in> set (psplitFlow (TrimSpace (inner s)))" "psplitKV part = Some p" "(k, v) = p"
  then show "((flt, v), (flt, s0)) \<in> measure (\<lambda>(flt, s). length s)"
    using psplitKV_length [of part k v] psplitFlow_length [of part] body_length [of s0] HasPrefix_nonempty by fastforce
next
  fix s0 s part and flt :: "string \<Rightarrow> string option"
  assume "s = TrimSpace s0" "HasPrefix s ''['' \<and> HasSuffix s '']''" "part \<in> set (psplitFlow (TrimSpace (inner s)))"
  then show "((flt, part), (flt, s0)) \<in> measure (\<lambda>(flt, s). length s)"
    using psplitFlow_length [of part] body_length [of s0] HasPrefix_nonempty by fastforce
qed simp

declare pparseScalar.simps [simp del]

section \<open>Blocks of the VASP parser\<close>

type_synonym parse = "(yaml_err + yaml \<times> yamlLine list) option"

text \<open>The value and the lines left of a call; an error ends the caller.\<close>

fun after :: "parse \<Rightarrow> (yaml \<Rightarrow> yamlLine list \<Rightarrow> parse) \<Rightarrow> parse" where
  "after None f = None"
| "after (Some (Inl e)) f = Some (Inl e)"
| "after (Some (Inr (v, ls))) f = f v ls"

fun scalar_then :: "yaml_err + yaml \<Rightarrow> (yaml \<Rightarrow> parse) \<Rightarrow> parse" where
  "scalar_then (Inl e) f = Some (Inl e)"
| "scalar_then (Inr v) f = f v"

text \<open>
  The mutually recursive functions are written as bodies over the parsers of the next depth. The
  bodies of \<^verbatim>\<open>parseBlock\<close> and \<^verbatim>\<open>parseMap\<close> are the same text in both sources; \<open>kv\<close> and \<open>sc\<close> are the
  respective \<^verbatim>\<open>splitKV\<close> and \<^verbatim>\<open>parseScalar\<close>. \<open>pSub\<close> is the loop of \<^verbatim>\<open>parseList\<close> that collects the deeper lines
  of an item that starts a map.
\<close>

record parsers =
  pBlock :: "nat \<Rightarrow> yamlLine list \<Rightarrow> parse"
  pMap :: "nat \<Rightarrow> ymap \<Rightarrow> yamlLine list \<Rightarrow> parse"
  pList :: "nat \<Rightarrow> yaml list \<Rightarrow> yamlLine list \<Rightarrow> parse"
  pSub :: "nat \<Rightarrow> ymap \<Rightarrow> yamlLine list \<Rightarrow> parse"

definition no_parsers :: parsers where
  "no_parsers = \<lparr>pBlock = \<lambda>_ _. None, pMap = \<lambda>_ _ _. None, pList = \<lambda>_ _ _. None, pSub = \<lambda>_ _ _. None\<rparr>"

definition parseBlock :: "parsers \<Rightarrow> nat \<Rightarrow> yamlLine list \<Rightarrow> parse" where
  "parseBlock P ind ls =
     (case ls of
        [] \<Rightarrow> Some (Inr (YNull, []))
      | ln # _ \<Rightarrow> if dash ln then pList P ind [] ls else pMap P ind [] ls)"

text \<open>The value of a key whose line ends after the colon.\<close>

definition nested_value :: "parsers \<Rightarrow> nat \<Rightarrow> yamlLine list \<Rightarrow> parse" where
  "nested_value P ind rest =
     (case rest of
        [] \<Rightarrow> Some (Inr (YNull, rest))
      | nx # _ \<Rightarrow>
          if yIndent nx > ind then pBlock P (yIndent nx) rest
          else if yIndent nx = ind \<and> dash nx then pList P ind [] rest
          else Some (Inr (YNull, rest)))"

definition parseMap :: "(string \<Rightarrow> (string \<times> string) option) \<Rightarrow> (string \<Rightarrow> yaml_err + yaml) \<Rightarrow> parsers \<Rightarrow> nat \<Rightarrow> ymap \<Rightarrow> yamlLine list \<Rightarrow> parse" where
  "parseMap kv sc P ind m ls =
     (case ls of
        [] \<Rightarrow> Some (Inr (YMap m, []))
      | ln # rest \<Rightarrow>
          if yIndent ln < ind then Some (Inr (YMap m, ls))
          else if yIndent ln > ind then Some (Inl (UnexpectedIndent (yContent ln)))
          else if HasPrefix (yContent ln) ''- '' then Some (Inr (YMap m, ls))
          else (case kv (yContent ln) of
                  None \<Rightarrow> Some (Inl (BadMapLine (yContent ln)))
                | Some (key, val) \<Rightarrow>
                    if val \<noteq> '''' then scalar_then (sc val) (\<lambda>v. pMap P ind (yput key v m) rest)
                    else after (nested_value P ind rest) (\<lambda>v rest'. pMap P ind (yput key v m) rest')))"

text \<open>The value of a deeper block, or null.\<close>

definition deeper_value :: "parsers \<Rightarrow> nat \<Rightarrow> yamlLine list \<Rightarrow> parse" where
  "deeper_value P ind rest =
     (case rest of
        [] \<Rightarrow> Some (Inr (YNull, rest))
      | nx # _ \<Rightarrow> if yIndent nx > ind then pBlock P (yIndent nx) rest else Some (Inr (YNull, rest)))"

definition vparseList :: "(string \<Rightarrow> string option) \<Rightarrow> parsers \<Rightarrow> nat \<Rightarrow> yaml list \<Rightarrow> yamlLine list \<Rightarrow> parse" where
  "vparseList flt P ind out ls =
     (case ls of
        [] \<Rightarrow> Some (Inr (YList out, []))
      | ln # rest \<Rightarrow>
          if yIndent ln < ind \<or> \<not> dash ln then Some (Inr (YList out, ls))
          else if yIndent ln > ind then Some (Inl (UnexpectedListIndent (yContent ln)))
          else let item = TrimSpace (drop 1 (yContent ln))
               in if item = '''' then after (deeper_value P ind rest) (\<lambda>v rest'. pList P ind (out @ [v]) rest')
                  else (case vsplitKV item of
                          Some (key, val) \<Rightarrow>
                            if HasPrefix item ''{'' \<or> HasPrefix item ''[''
                            then scalar_then (vparseScalar flt item) (\<lambda>v. pList P ind (out @ [v]) rest)
                            else after (if val \<noteq> '''' then scalar_then (vparseScalar flt val) (\<lambda>v. Some (Inr (v, rest)))
                                        else deeper_value P ind rest)
                                   (\<lambda>v rest'. after (pSub P ind (yput key v []) rest') (\<lambda>m rest2. pList P ind (out @ [m]) rest2))
                        | None \<Rightarrow> scalar_then (vparseScalar flt item) (\<lambda>v. pList P ind (out @ [v]) rest)))"

definition vsubLoop :: "(string \<Rightarrow> string option) \<Rightarrow> parsers \<Rightarrow> nat \<Rightarrow> ymap \<Rightarrow> yamlLine list \<Rightarrow> parse" where
  "vsubLoop flt P ind m ls =
     (case ls of
        [] \<Rightarrow> Some (Inr (YMap m, []))
      | sub # rest \<Rightarrow>
          if \<not> (yIndent sub > ind \<and> \<not> HasPrefix (yContent sub) ''- '') then Some (Inr (YMap m, ls))
          else (case vsplitKV (yContent sub) of
                  None \<Rightarrow> Some (Inl (BadMapLine (yContent sub)))
                | Some (k2, v2) \<Rightarrow>
                    if v2 \<noteq> '''' then scalar_then (vparseScalar flt v2) (\<lambda>v. pSub P ind (yput k2 v m) rest)
                    else after (deeper_value P (yIndent sub) rest) (\<lambda>v rest'. pSub P ind (yput k2 v m) rest')))"

primrec vparsers :: "(string \<Rightarrow> string option) \<Rightarrow> nat \<Rightarrow> parsers" where
  "vparsers flt 0 = no_parsers"
| "vparsers flt (Suc n) =
     (let P = vparsers flt n
      in \<lparr>pBlock = parseBlock P, pMap = parseMap vsplitKV (vparseScalar flt) P, pList = vparseList flt P, pSub = vsubLoop flt P\<rparr>)"

text \<open>A whole document, with a bound on the depth.\<close>

definition parse_document :: "parsers \<Rightarrow> string \<Rightarrow> (yaml_err + yaml) option" where
  "parse_document P doc =
     (case yaml_lines doc of
        [] \<Rightarrow> Some (Inl EmptyDocument)
      | ln # ls \<Rightarrow>
          (case pBlock P (yIndent ln) (ln # ls) of
             None \<Rightarrow> None
           | Some (Inl e) \<Rightarrow> Some (Inl e)
           | Some (Inr (v, [])) \<Rightarrow> Some (Inr v)
           | Some (Inr (v, l # left)) \<Rightarrow> Some (Inl (TrailingContent (length ls + 1 - length (l # left))))))"

definition depth_for :: "string \<Rightarrow> nat" where
  "depth_for doc = 2 * length (yaml_lines doc) + 2"

definition vParseYAML :: "(string \<Rightarrow> string option) \<Rightarrow> string \<Rightarrow> (yaml_err + yaml) option" where
  "vParseYAML flt doc = parse_document (vparsers flt (depth_for doc)) doc"

section \<open>Blocks of the POS parser\<close>

text \<open>The loop that follows an item which starts a map merges the maps of the deeper lines.\<close>

definition psubLoop :: "parsers \<Rightarrow> nat \<Rightarrow> ymap \<Rightarrow> yamlLine list \<Rightarrow> parse" where
  "psubLoop P ind m ls =
     (case ls of
        [] \<Rightarrow> Some (Inr (YMap m, []))
      | nx # _ \<Rightarrow>
          if yIndent nx > ind
          then after (pMap P (yIndent nx) [] ls) (\<lambda>sub rest. pSub P ind (fold (\<lambda>(k, v) a. yput k v a) (asMap sub) m) rest)
          else Some (Inr (YMap m, ls)))"

definition pparseList :: "(string \<Rightarrow> string option) \<Rightarrow> parsers \<Rightarrow> nat \<Rightarrow> yaml list \<Rightarrow> yamlLine list \<Rightarrow> parse" where
  "pparseList flt P ind out ls =
     (case ls of
        [] \<Rightarrow> Some (Inr (YList out, []))
      | ln # rest \<Rightarrow>
          if yIndent ln \<noteq> ind \<or> \<not> dash ln then Some (Inr (YList out, ls))
          else let item = (if HasPrefix (yContent ln) ''- '' then drop 2 (yContent ln) else '''')
               in if item = '''' then after (deeper_value P ind rest) (\<lambda>v rest'. pList P ind (out @ [v]) rest')
                  else (case psplitKV item of
                          Some (k, v) \<Rightarrow>
                            if HasPrefix v ''{''
                            then scalar_then (pparseScalar flt item) (\<lambda>y. pList P ind (out @ [y]) rest)
                            else scalar_then (pparseScalar flt v) (\<lambda>sv.
                                   after (pSub P ind (yput k sv []) rest) (\<lambda>m rest'. pList P ind (out @ [m]) rest'))
                        | None \<Rightarrow> scalar_then (pparseScalar flt item) (\<lambda>y. pList P ind (out @ [y]) rest)))"

primrec pparsers :: "(string \<Rightarrow> string option) \<Rightarrow> nat \<Rightarrow> parsers" where
  "pparsers flt 0 = no_parsers"
| "pparsers flt (Suc n) =
     (let P = pparsers flt n
      in \<lparr>pBlock = parseBlock P, pMap = parseMap psplitKV (pparseScalar flt) P, pList = pparseList flt P, pSub = psubLoop P\<rparr>)"

definition pParseYAML :: "(string \<Rightarrow> string option) \<Rightarrow> nat \<Rightarrow> string \<Rightarrow> (yaml_err + yaml) option" where
  "pParseYAML flt depth doc = parse_document (pparsers flt depth) doc"

section \<open>The VASP parser always returns\<close>

text \<open>The call returned, with at most \<open>n\<close> lines left.\<close>

fun within :: "nat \<Rightarrow> parse \<Rightarrow> bool" where
  "within n None = False"
| "within n (Some (Inl _)) = True"
| "within n (Some (Inr (_, ls))) = (length ls \<le> n)"

lemma within_mono: "within m r \<Longrightarrow> m \<le> n \<Longrightarrow> within n r"
  by (cases "(n, r)" rule: within.cases) auto

lemma within_after: "within m r \<Longrightarrow> (\<And>v l. length l \<le> m \<Longrightarrow> within n (f v l)) \<Longrightarrow> within n (after r f)"
  by (cases "(r, f)" rule: after.cases) auto

lemma within_scalar: "(\<And>v. within n (f v)) \<Longrightarrow> within n (scalar_then x f)"
  by (cases x) auto

text \<open>Parsers that return for every input of at most \<open>k\<close> lines; a block or list that starts at its own depth takes a line.\<close>

definition adequate :: "nat \<Rightarrow> parsers \<Rightarrow> bool" where
  "adequate k P \<longleftrightarrow>
     (\<forall>ls. length ls \<le> k \<longrightarrow>
        (\<forall>ind m. within (length ls) (pMap P ind m ls)) \<and> (\<forall>ind out. within (length ls) (pList P ind out ls)) \<and>
        (\<forall>ind m. within (length ls) (pSub P ind m ls)))"

definition takes_line :: "nat \<Rightarrow> parsers \<Rightarrow> bool" where
  "takes_line k P \<longleftrightarrow>
     (\<forall>ln ls. length ls < k \<longrightarrow>
        (\<forall>m. \<not> dash ln \<longrightarrow> within (length ls) (pMap P (yIndent ln) m (ln # ls))) \<and>
        (\<forall>out. dash ln \<longrightarrow> within (length ls) (pList P (yIndent ln) out (ln # ls))))"

definition blocks_take :: "nat \<Rightarrow> parsers \<Rightarrow> bool" where
  "blocks_take k P \<longleftrightarrow> (\<forall>ln ls. length ls < k \<longrightarrow> within (length ls) (pBlock P (yIndent ln) (ln # ls)))"

lemma adequateD:
  assumes "adequate k P" "length ls \<le> k" "length ls \<le> n"
  shows "within n (pMap P ind m ls)" "within n (pList P ind out ls)" "within n (pSub P ind m ls)"
  using assms within_mono unfolding adequate_def by blast+

lemma blocksD: "blocks_take k P \<Longrightarrow> length (ln # ls) \<le> k \<Longrightarrow> within (length (ln # ls)) (pBlock P (yIndent ln) (ln # ls))"
  by (rule within_mono [of "length ls"]) (simp_all add: blocks_take_def)

lemma deeper_within: "blocks_take k P \<Longrightarrow> length rest \<le> k \<Longrightarrow> within (length rest) (deeper_value P ind rest)"
  using blocksD [of k P] by (auto simp: deeper_value_def split: list.splits)

lemma nested_within:
  "blocks_take k P \<Longrightarrow> adequate k P \<Longrightarrow> length rest \<le> k \<Longrightarrow> within (length rest) (nested_value P ind rest)"
  using blocksD [of k P] by (auto simp: nested_value_def split: list.splits intro: adequateD)

lemma parseMap_within:
  assumes P: "adequate k P" "blocks_take k P" and ls: "length ls \<le> Suc k"
  shows "within (length ls) (parseMap kv sc P ind m ls)"
    and "ls = ln # rest \<Longrightarrow> \<not> dash ln \<Longrightarrow> ind = yIndent ln \<Longrightarrow> within (length rest) (parseMap kv sc P ind m ls)"
proof -
  have line: "within (length rest) (case kv c of None \<Rightarrow> Some (Inl (BadMapLine c)) | Some (key, val) \<Rightarrow>
       if val \<noteq> '''' then scalar_then (sc val) (\<lambda>v. pMap P ind (yput key v m) rest)
       else after (nested_value P ind rest) (\<lambda>v rest'. pMap P ind (yput key v m) rest'))" if "length rest \<le> k" for rest c
    using that by (auto split: option.splits intro!: within_scalar within_after [OF nested_within [OF P(2,1)]] intro: adequateD [OF P(1)])
  show "within (length ls) (parseMap kv sc P ind m ls)"
  proof (cases ls)
    case (Cons l rest)
    then show ?thesis using ls within_mono [OF line [of rest "yContent l"], of "length ls"] by (simp add: parseMap_def)
  qed (simp add: parseMap_def)
  show "within (length rest) (parseMap kv sc P ind m ls)" if "ls = ln # rest" "\<not> dash ln" "ind = yIndent ln"
    using that(2) ls line [of rest "yContent ln"] unfolding that(1) by (simp add: parseMap_def dash_def that(3) [symmetric])
qed

lemma vsub_within:
  assumes P: "adequate k P" "blocks_take k P" and ls: "length ls \<le> Suc k"
  shows "within (length ls) (vsubLoop flt P ind m ls)"
proof (cases ls)
  case (Cons l rest)
  then have r: "length rest \<le> k" using ls by simp
  have "within (length rest) (case vsplitKV (yContent l) of None \<Rightarrow> Some (Inl (BadMapLine (yContent l))) | Some (k2, v2) \<Rightarrow>
       if v2 \<noteq> '''' then scalar_then (vparseScalar flt v2) (\<lambda>v. pSub P ind (yput k2 v m) rest)
       else after (deeper_value P (yIndent l) rest) (\<lambda>v rest'. pSub P ind (yput k2 v m) rest'))"
    using r by (auto split: option.splits intro!: within_scalar within_after [OF deeper_within [OF P(2)]] intro: adequateD [OF P(1)])
  then show ?thesis using Cons within_mono [of "length rest" _ "length ls"] by (simp add: vsubLoop_def)
qed (simp add: vsubLoop_def)

lemma vlist_within:
  assumes P: "adequate k P" "blocks_take k P" and ls: "length ls \<le> Suc k"
  shows "within (length ls) (vparseList flt P ind out ls)"
    and "ls = ln # rest \<Longrightarrow> dash ln \<Longrightarrow> ind = yIndent ln \<Longrightarrow> within (length rest) (vparseList flt P ind out ls)"
proof -
  have item: "within (length rest) (case vsplitKV it of
        Some (key, val) \<Rightarrow>
          if HasPrefix it ''{'' \<or> HasPrefix it ''['' then scalar_then (vparseScalar flt it) (\<lambda>v. pList P ind (out @ [v]) rest)
          else after (if val \<noteq> '''' then scalar_then (vparseScalar flt val) (\<lambda>v. Some (Inr (v, rest))) else deeper_value P ind rest)
                 (\<lambda>v rest'. after (pSub P ind (yput key v []) rest') (\<lambda>m rest2. pList P ind (out @ [m]) rest2))
      | None \<Rightarrow> scalar_then (vparseScalar flt it) (\<lambda>v. pList P ind (out @ [v]) rest))"
    "within (length rest) (after (deeper_value P ind rest) (\<lambda>v rest'. pList P ind (out @ [v]) rest'))" if r: "length rest \<le> k" for rest it
  proof -
    have sub: "within (length rest) (after (pSub P ind m l) (\<lambda>m rest2. pList P ind (out @ [m]) rest2))" if "length l \<le> length rest" for m l
      using that r by (intro within_after [where m = "length rest"] adequateD [OF P(1)]) auto
    have starts: "within (length rest) (after (scalar_then x (\<lambda>v. Some (Inr (v, rest))))
          (\<lambda>v rest'. after (pSub P ind (yput key v []) rest') (\<lambda>m rest2. pList P ind (out @ [m]) rest2)))"
        "within (length rest) (after (deeper_value P ind rest)
          (\<lambda>v rest'. after (pSub P ind (yput key v []) rest') (\<lambda>m rest2. pList P ind (out @ [m]) rest2)))" for x key
      by (rule within_after [where m = "length rest"], rule within_scalar, simp, erule sub)
         (rule within_after [OF deeper_within [OF P(2) r]], erule sub)
    show "within (length rest) (after (deeper_value P ind rest) (\<lambda>v rest'. pList P ind (out @ [v]) rest'))"
      using r by (intro within_after [OF deeper_within [OF P(2)]] adequateD [OF P(1)]) auto
    show "within (length rest) (case vsplitKV it of
        Some (key, val) \<Rightarrow>
          if HasPrefix it ''{'' \<or> HasPrefix it ''['' then scalar_then (vparseScalar flt it) (\<lambda>v. pList P ind (out @ [v]) rest)
          else after (if val \<noteq> '''' then scalar_then (vparseScalar flt val) (\<lambda>v. Some (Inr (v, rest))) else deeper_value P ind rest)
                 (\<lambda>v rest'. after (pSub P ind (yput key v []) rest') (\<lambda>m rest2. pList P ind (out @ [m]) rest2))
      | None \<Rightarrow> scalar_then (vparseScalar flt it) (\<lambda>v. pList P ind (out @ [v]) rest))"
      using r by (auto simp: starts split: option.splits intro!: within_scalar intro: adequateD [OF P(1)])
  qed
  show "within (length ls) (vparseList flt P ind out ls)"
  proof (cases ls)
    case (Cons l rest)
    then have "length rest \<le> k" using ls by simp
    note item [OF this]
    then show ?thesis using Cons within_mono [of "length rest" _ "length ls"] by (simp add: vparseList_def Let_def)
  qed (simp add: vparseList_def)
  show "within (length rest) (vparseList flt P ind out ls)" if "ls = ln # rest" "dash ln" "ind = yIndent ln"
    using that(2) ls item [of rest] unfolding that(1) by (simp add: vparseList_def Let_def that(3) [symmetric])
qed

lemma parseBlock_takes: "takes_line k P \<Longrightarrow> blocks_take k \<lparr>pBlock = parseBlock P, pMap = a, pList = b, pSub = c\<rparr>"
  by (auto simp: blocks_take_def takes_line_def parseBlock_def)

lemma vparsers_return:
  "(2 * k + 1 \<le> d \<longrightarrow> adequate k (vparsers flt d) \<and> takes_line k (vparsers flt d)) \<and>
   (2 * k + 2 \<le> d \<longrightarrow> blocks_take k (vparsers flt d))"
proof (induction d arbitrary: k)
  case (Suc d)
  let ?P = "vparsers flt d"
  have V: "vparsers flt (Suc d) = \<lparr>pBlock = parseBlock ?P, pMap = parseMap vsplitKV (vparseScalar flt) ?P, pList = vparseList flt ?P, pSub = vsubLoop flt ?P\<rparr>"
    by (simp add: Let_def)
  have "adequate k (vparsers flt (Suc d)) \<and> takes_line k (vparsers flt (Suc d))" if d: "2 * k + 1 \<le> Suc d"
  proof (cases k)
    case 0
    then show ?thesis unfolding V by (simp add: adequate_def takes_line_def parseMap_def vparseList_def vsubLoop_def)
  next
    case (Suc j)
    then have P: "adequate j ?P" "blocks_take j ?P" using d Suc.IH [of j] by auto
    show ?thesis unfolding V adequate_def takes_line_def Suc
      using parseMap_within [OF P] vlist_within [OF P] vsub_within [OF P] by simp
  qed
  moreover have "blocks_take k (vparsers flt (Suc d))" if "2 * k + 2 \<le> Suc d"
    unfolding V using that Suc.IH [of k] by (intro parseBlock_takes) simp
  ultimately show ?case by blast
qed simp

lemma vParseYAML_returns: "vParseYAML flt doc \<noteq> None"
proof (cases "yaml_lines doc")
  case (Cons ln ls)
  have "blocks_take (length (ln # ls)) (vparsers flt (depth_for doc))"
    using vparsers_return [of "length (ln # ls)" "depth_for doc"] by (simp add: depth_for_def Cons)
  then have "within (length ls) (pBlock (vparsers flt (depth_for doc)) (yIndent ln) (ln # ls))"
    by (simp add: blocks_take_def)
  then show ?thesis
    by (cases "(length ls, pBlock (vparsers flt (depth_for doc)) (yIndent ln) (ln # ls))" rule: within.cases)
       (auto simp: vParseYAML_def parse_document_def Cons split: list.splits)
qed (simp add: vParseYAML_def parse_document_def)

section \<open>The POS parser may run forever\<close>

text \<open>
  The loop behind an item \<^verbatim>\<open>- key: value\<close> hands the deeper lines to \<^verbatim>\<open>parseMap\<close>, which returns at once,
  without taking a line, when the first of them is a list item.
\<close>

lemma psub_stuck:
  assumes "HasPrefix (yContent nx) ''- ''" "yIndent nx > ind"
  shows "pSub (pparsers flt n) ind m (nx # ls) = None"
proof (induction n arbitrary: m)
  case (Suc n)
  then show ?case
    using assms by (cases n) (simp_all add: Let_def psubLoop_def parseMap_def no_parsers_def)
qed (simp add: no_parsers_def)

lemma plist_stuck:
  assumes "yContent ln = ''- '' @ item" "item \<noteq> []" "psplitKV item = Some (k, v)" "\<not> HasPrefix v ''{''" "pparseScalar flt v = Inr y"
    and "HasPrefix (yContent nx) ''- ''" "yIndent nx > yIndent ln"
  shows "pList (pparsers flt n) (yIndent ln) out (ln # nx # ls) = None"
proof (cases n)
  case (Suc m)
  then show ?thesis
    using assms psub_stuck [OF assms(6,7)] by (simp add: Let_def pparseList_def dash_def HasPrefix_iff)
qed (simp add: no_parsers_def)

lemma pParseYAML_stuck:
  assumes "yaml_lines doc = ln # nx # ls" "yContent ln = ''- '' @ item" "item \<noteq> []" "psplitKV item = Some (k, v)"
    and "\<not> HasPrefix v ''{''" "pparseScalar flt v = Inr y" "HasPrefix (yContent nx) ''- ''" "yIndent nx > yIndent ln"
  shows "pParseYAML flt n doc = None"
proof (cases n)
  case (Suc m)
  then show ?thesis
    using assms plist_stuck [OF assms(2-8)] by (simp add: pParseYAML_def parse_document_def parseBlock_def Let_def dash_def HasPrefix_iff)
qed (simp add: pParseYAML_def parse_document_def no_parsers_def assms(1))

section \<open>The bound on the depth does not change a result\<close>

definition agrees :: "parse \<Rightarrow> parse \<Rightarrow> bool" where
  "agrees r q \<longleftrightarrow> r = None \<or> q = r"

lemma agrees_simps [simp]: "agrees r r" "agrees None q"
  by (simp_all add: agrees_def)

lemma agrees_after: "agrees r q \<Longrightarrow> (\<And>v l. agrees (f v l) (g v l)) \<Longrightarrow> agrees (after r f) (after q g)"
  by (cases "(r, f)" rule: after.cases) (auto simp: agrees_def)

lemma agrees_scalar: "(\<And>v. agrees (f v) (g v)) \<Longrightarrow> agrees (scalar_then x f) (scalar_then x g)"
  by (cases x) (auto simp: agrees_def)

definition extended_by :: "parsers \<Rightarrow> parsers \<Rightarrow> bool" where
  "extended_by P Q \<longleftrightarrow>
     (\<forall>ind ls. agrees (pBlock P ind ls) (pBlock Q ind ls)) \<and> (\<forall>ind m ls. agrees (pMap P ind m ls) (pMap Q ind m ls)) \<and>
     (\<forall>ind out ls. agrees (pList P ind out ls) (pList Q ind out ls)) \<and> (\<forall>ind m ls. agrees (pSub P ind m ls) (pSub Q ind m ls))"

lemma extended_calls:
  assumes "extended_by P Q"
  shows "agrees (pBlock P ind ls) (pBlock Q ind ls)" "agrees (pMap P ind m ls) (pMap Q ind m ls)"
    "agrees (pList P ind out ls) (pList Q ind out ls)" "agrees (pSub P ind m ls) (pSub Q ind m ls)"
    "agrees (deeper_value P ind ls) (deeper_value Q ind ls)" "agrees (nested_value P ind ls) (nested_value Q ind ls)"
  using assms by (auto simp: extended_by_def deeper_value_def nested_value_def split: list.splits)

lemma extended_bodies:
  assumes "extended_by P Q"
  shows "agrees (parseBlock P ind ls) (parseBlock Q ind ls)" "agrees (parseMap kv sc P ind m ls) (parseMap kv sc Q ind m ls)"
    "agrees (vparseList flt P ind out ls) (vparseList flt Q ind out ls)" "agrees (vsubLoop flt P ind m ls) (vsubLoop flt Q ind m ls)"
  unfolding parseBlock_def parseMap_def vparseList_def vsubLoop_def Let_def
  by (auto split: list.splits option.splits intro!: agrees_after agrees_scalar extended_calls [OF assms])

lemma vparsers_extend: "extended_by (vparsers flt d) (vparsers flt (d + k))"
proof (induction d)
  case 0
  then show ?case by (simp add: extended_by_def no_parsers_def)
next
  case (Suc d)
  from extended_bodies [OF this] show ?case by (simp add: extended_by_def Let_def)
qed

lemma vdepth_irrelevant: "depth_for doc \<le> d \<Longrightarrow> parse_document (vparsers flt d) doc = vParseYAML flt doc"
proof (cases "yaml_lines doc")
  case (Cons ln ls)
  assume "depth_for doc \<le> d"
  then have "extended_by (vparsers flt (depth_for doc)) (vparsers flt d)"
    using vparsers_extend [of flt "depth_for doc" "d - depth_for doc"] by simp
  then have "agrees (pBlock (vparsers flt (depth_for doc)) (yIndent ln) (ln # ls)) (pBlock (vparsers flt d) (yIndent ln) (ln # ls))"
    by (rule extended_calls)
  then show ?thesis
    using vParseYAML_returns [of flt doc] by (auto simp: agrees_def vParseYAML_def parse_document_def Cons)
qed (simp add: vParseYAML_def parse_document_def)

end
