(* ===== verification/Vasp_Carf.thy ===== *)
theory Vasp_Carf
  imports Vasp_Engine Yaml_Parsers "HOL-Library.AList"
begin

text \<open>
  The rest of the VASP service (\<^verbatim>\<open>services/vasp-carf\<close>): rule packs (\<^verbatim>\<open>packs.go\<close>), gates (\<^verbatim>\<open>gates.go\<close>),
  the CARF message builder with its store (\<^verbatim>\<open>carf.go\<close>), authentication (\<^verbatim>\<open>shared.go\<close>, \<^verbatim>\<open>main.go\<close>) and
  the handlers (\<^verbatim>\<open>main.go\<close>).

  Requests arrive decoded: \<open>None\<close> is a body that does not decode. The HMAC, the base64 and JSON decoders,
  clock readings, ULIDs, the order in which Go visits a map and the outcomes of file and network
  operations are arguments. The store of messages holds pointers which the handlers change in place
  before they store them: \<open>poke_record\<close> is such a change.
\<close>

section \<open>Rule packs\<close>

record VRule =
  vrID :: string
  vrWhen :: ymap
  vrThen :: ymap

record VPack =
  vpID :: string
  vpVersion :: string
  vpEffectiveFrom :: string
  vpStatus :: string
  vpRegazette :: bool
  vpProvenance :: ymap
  vpRules :: "VRule list"
  vpSource :: string

fun vstrOf :: "yaml \<Rightarrow> string" where
  "vstrOf (YStr s) = s"
| "vstrOf (YInt i) = show_int i"
| "vstrOf (YFloat f) = f"
| "vstrOf (YBool b) = (if b then ''true'' else ''false'')"
| "vstrOf _ = ''''"

fun vruleOf :: "yaml \<Rightarrow> VRule option" where
  "vruleOf (YMap rm) = Some \<lparr>vrID = vstrOf (yget rm ''id''), vrWhen = asMap (yget rm ''when''), vrThen = asMap (yget rm ''then'')\<rparr>"
| "vruleOf _ = None"

datatype vpack_error = NotYaml yaml_err | RootNotMap string

text \<open>The parser always returns (\<open>vParseYAML_returns\<close>), so the branch \<open>None\<close> is never taken.\<close>

definition vpackFromYAML :: "(string \<Rightarrow> string option) \<Rightarrow> string \<Rightarrow> string \<Rightarrow> string \<Rightarrow> vpack_error + VPack" where
  "vpackFromYAML flt pid doc source =
     (case vParseYAML flt doc of
        None \<Rightarrow> Inl (NotYaml EmptyDocument)
      | Some (Inl err) \<Rightarrow> Inl (NotYaml err)
      | Some (Inr (YMap m)) \<Rightarrow>
          Inr \<lparr>vpID = vstrOf (yget m ''id''), vpVersion = vstrOf (yget m ''version''),
               vpEffectiveFrom = vstrOf (yget m ''effective_from''), vpStatus = vstrOf (yget m ''status''),
               vpRegazette = asBool (yget m ''subject_to_regazette''), vpProvenance = asMap (yget m ''provenance''),
               vpRules = List.map_filter vruleOf (asList (yget m ''rules'')), vpSource = source\<rparr>
      | Some (Inr _) \<Rightarrow> Inl (RootNotMap pid))"

type_synonym vpacks = "string \<rightharpoonup> VPack"

definition vaspPackIDs :: "string list" where
  "vaspPackIDs = [''rp-carf-schema'', ''rp-nta-vasp-duties'', ''rp-nta-digital-assets'', ''rp-asset-taxonomy'']"

text \<open>
  The answer of the registry: none, or a status with a body. \<open>wrapper\<close> decodes a JSON body with the
  fields \<^verbatim>\<open>YAML\<close>, \<^verbatim>\<open>Raw\<close> and \<^verbatim>\<open>Content\<close>.
\<close>

definition fetch :: "(string \<Rightarrow> string option) \<Rightarrow> (string \<Rightarrow> (string \<times> string \<times> string) option) \<Rightarrow> (nat \<times> string) option \<Rightarrow> string \<Rightarrow> VPack option" where
  "fetch flt wrapper answer pid =
     (case answer of
        None \<Rightarrow> None
      | Some (status, body) \<Rightarrow>
          if status \<noteq> 200 then None
          else let wrapped = (case wrapper body of
                      None \<Rightarrow> None
                    | Some (y, r, c) \<Rightarrow>
                        let d1 = y; d2 = (if d1 = '''' then r else d1); doc = (if d2 = '''' then c else d2)
                        in if doc \<noteq> '''' then (case vpackFromYAML flt pid doc ''registry'' of Inl _ \<Rightarrow> None | Inr p \<Rightarrow> Some p) else None)
               in case vpackFromYAML flt pid body ''registry'' of
                    Inr p \<Rightarrow> if vpID p \<noteq> '''' then Some p else wrapped
                  | Inl _ \<Rightarrow> wrapped)"

definition load_one :: "(string \<Rightarrow> string option) \<Rightarrow> (string \<Rightarrow> VPack option) \<Rightarrow> (string \<Rightarrow> string) \<Rightarrow> string \<Rightarrow> vpacks \<Rightarrow> vpacks" where
  "load_one flt registry embedded i ps =
     (case registry i of
        Some p \<Rightarrow> ps(i \<mapsto> p)
      | None \<Rightarrow> (case vpackFromYAML flt i (embedded i) ''embedded'' of Inl _ \<Rightarrow> ps | Inr p \<Rightarrow> ps(i \<mapsto> p)))"

definition LoadAll :: "(string \<Rightarrow> string option) \<Rightarrow> (string \<Rightarrow> VPack option) \<Rightarrow> (string \<Rightarrow> string) \<Rightarrow> vpacks \<Rightarrow> vpacks" where
  "LoadAll flt registry embedded ps = fold (load_one flt registry embedded) vaspPackIDs ps"

definition VersionTag :: "vpacks \<Rightarrow> string" where
  "VersionTag ps = join '','' (List.map_filter (\<lambda>i. map_option (\<lambda>p. vpID p @ ''@'' @ vpVersion p) (ps i)) vaspPackIDs)"

definition whenMatches :: "ymap \<Rightarrow> ymap \<Rightarrow> bool" where
  "whenMatches whn ctx =
     list_all (\<lambda>(k, v). case map_of ctx k of None \<Rightarrow> False | Some cv \<Rightarrow> ToLower (vstrOf cv) = ToLower (vstrOf v)) whn"

record duty =
  dtRule :: string
  dtPack :: string
  dtDuty :: ymap
  dtNarrate :: string

definition DutiesFor :: "vpacks \<Rightarrow> ymap \<Rightarrow> duty list" where
  "DutiesFor ps ctx =
     (case ps ''rp-nta-vasp-duties'' of
        None \<Rightarrow> []
      | Some p \<Rightarrow>
          map (\<lambda>r. \<lparr>dtRule = vrID r, dtPack = vpID p @ ''@'' @ vpVersion p, dtDuty = vrThen r, dtNarrate = vstrOf (yget (vrThen r) ''narrate'')\<rparr>)
            (filter (\<lambda>r. whenMatches (vrWhen r) ctx) (vpRules p)))"

definition default_fields :: "string list" where
  "default_fields = [''message_ref_id'', ''timestamp'', ''reporting_vasp'', ''reportable_user'', ''transactions'']"

fun required_in :: "VRule list \<Rightarrow> string list" where
  "required_in [] = default_fields"
| "required_in (r # rs) =
     (if vrID r = ''carf.message.required''
      then (case yget (vrThen r) ''fields'' of YList fs \<Rightarrow> map vstrOf fs | _ \<Rightarrow> required_in rs)
      else required_in rs)"

definition CARFRequiredFields :: "vpacks \<Rightarrow> string list" where
  "CARFRequiredFields ps = (case ps ''rp-carf-schema'' of None \<Rightarrow> default_fields | Some p \<Rightarrow> required_in (vpRules p))"

section \<open>Gates\<close>

record GateState =
  gtID :: string
  gtOpen :: bool
  gtSource :: string
  gtNote :: string
  gtUpdated :: string

text \<open>The gate file is \<open>None\<close> when it is missing or does not parse. \<open>cachedAt\<close> is \<open>None\<close> for the zero time.\<close>

record GateChecker =
  gateFile :: "(string \<times> bool) list option"
  cached :: "string \<rightharpoonup> GateState"
  cachedAt :: "int option" \<comment> \<open>milliseconds\<close>

definition NewGateChecker :: "(string \<times> bool) list option \<Rightarrow> GateChecker" where
  "NewGateChecker f = \<lparr>gateFile = f, cached = Map.empty, cachedAt = None\<rparr>"

text \<open>One look at the gates: the time, and the gates listed by reg-watch (\<open>None\<close>: not configured, no usable answer).\<close>

record gate_env =
  gnMillis :: int
  gnNow :: string
  gnReg :: "(string \<times> bool \<times> string) list option"

definition default_gates :: "string list" where
  "default_gates = [''carf.transmit_enabled'', ''carf.gate.changed'']"

definition refresh :: "gate_env \<Rightarrow> (string \<times> bool) list option \<Rightarrow> string \<rightharpoonup> GateState" where
  "refresh v file =
     (let regs = (case gnReg v of None \<Rightarrow> [] | Some gs \<Rightarrow> gs);
          out1 = fold (\<lambda>(i, op, note) m. m(i \<mapsto> \<lparr>gtID = i, gtOpen = op, gtSource = ''reg-watch'', gtNote = note, gtUpdated = gnNow v\<rparr>)) regs Map.empty;
          local = (case file of None \<Rightarrow> [] | Some l \<Rightarrow> l);
          out2 = fold (\<lambda>(i, op) m. if m i = None then m(i \<mapsto> \<lparr>gtID = i, gtOpen = op, gtSource = ''local-file'', gtNote = '''', gtUpdated = gnNow v\<rparr>) else m) local out1
      in fold (\<lambda>i m. if m i = None
                      then m(i \<mapsto> \<lparr>gtID = i, gtOpen = False, gtSource = ''default'', gtNote = ''fail-safe closed'', gtUpdated = gnNow v\<rparr>) else m)
           default_gates out2)"

definition Gates :: "gate_env \<Rightarrow> GateChecker \<Rightarrow> GateChecker \<times> (string \<rightharpoonup> GateState)" where
  "Gates v g =
     (let stale = (case cachedAt g of None \<Rightarrow> True | Some t \<Rightarrow> gnMillis v - t > 10000);
          g1 = (if stale then g\<lparr>cached := refresh v (gateFile g), cachedAt := Some (gnMillis v)\<rparr> else g)
      in (g1, cached g1))"

definition GateOpen :: "gate_env \<Rightarrow> string \<Rightarrow> GateChecker \<Rightarrow> GateChecker \<times> bool" where
  "GateOpen v i g =
     (case Gates v g of (g1, gs) \<Rightarrow> (g1, case gs i of None \<Rightarrow> False | Some st \<Rightarrow> gtOpen st))"

text \<open>\<^verbatim>\<open>os.WriteFile\<close> truncates before it writes.\<close>

datatype gate_write = GateWritten | GateNotOpened | GateCutShort

definition SetLocal :: "gate_write \<Rightarrow> string \<Rightarrow> bool \<Rightarrow> GateChecker \<Rightarrow> GateChecker \<times> bool" where
  "SetLocal o1 i op g =
     (let local = AList.update i op (case gateFile g of None \<Rightarrow> [] | Some l \<Rightarrow> l)
      in case o1 of
           GateWritten \<Rightarrow> (g\<lparr>gateFile := Some local, cachedAt := None\<rparr>, True)
         | GateNotOpened \<Rightarrow> (g, False)
         | GateCutShort \<Rightarrow> (g\<lparr>gateFile := None\<rparr>, False))"

section \<open>XML\<close>

text \<open>
  What \<^verbatim>\<open>encoding/xml\<close> does with the message structs: an element holds text or elements, and
  \<^verbatim>\<open>MarshalIndent(msg, "", "  ")\<close> puts every element on a line of its own. The strings come from JSON,
  so they are valid UTF-8; bytes of multi-byte runes are passed on.
\<close>

datatype xml = XLeaf string string | XNode string "(string \<times> string) list" "xml list"

definition xml_escape_char :: "char \<Rightarrow> string" where
  "xml_escape_char c =
     (if c = CHR 0x22 then ''&#34;'' else if c = CHR 0x27 then ''&#39;'' else if c = CHR ''&'' then ''&amp;''
      else if c = CHR ''<'' then ''&lt;'' else if c = CHR ''>'' then ''&gt;''
      else if c = CHR 0x09 then ''&#x9;'' else if c = CHR 0x0A then ''&#xA;'' else if c = CHR 0x0D then ''&#xD;''
      else if (of_char c :: nat) < 32 then [CHR 0xEF, CHR 0xBF, CHR 0xBD] else [c])"

definition xml_escape :: "string \<Rightarrow> string" where
  "xml_escape s = concat (map xml_escape_char s)"

definition xml_attrs :: "(string \<times> string) list \<Rightarrow> string" where
  "xml_attrs as = concat (map (\<lambda>(n, v). '' '' @ n @ ''='' @ [CHR 0x22] @ xml_escape v @ [CHR 0x22]) as)"

definition xml_indent :: "nat \<Rightarrow> string" where
  "xml_indent d = concat (replicate d ''  '')"

fun xml_text :: "nat \<Rightarrow> xml \<Rightarrow> string" where
  "xml_text d (XLeaf n t) = xml_indent d @ ''<'' @ n @ ''>'' @ xml_escape t @ ''</'' @ n @ ''>''"
| "xml_text d (XNode n as cs) =
     xml_indent d @ ''<'' @ n @ xml_attrs as @ ''>'' @ concat (map (\<lambda>c. CHR 0x0A # xml_text (d + 1) c) cs) @
     [CHR 0x0A] @ xml_indent d @ ''</'' @ n @ ''>''"

definition xml_header :: string where
  "xml_header = ''<?xml version='' @ [CHR 0x22] @ ''1.0'' @ [CHR 0x22] @ '' encoding='' @ [CHR 0x22] @ ''UTF-8'' @ [CHR 0x22] @ ''?>'' @ [CHR 0x0A]"

section \<open>CARF messages\<close>

record CryptoAssetTransaction =
  txType :: string
  txAsset :: string
  txQtyMilli :: int64
  FairMarketValue :: int64
  txCurrency :: string
  GainLossKobo :: int64

record UserReport =
  urUserHash :: string
  urTINHash :: string
  urCountry :: string
  urTransactions :: "CryptoAssetTransaction list"

record CARFDocSpec =
  DocTypeIndic :: string
  CorrMessageRefId :: string

record CARFVASP =
  vaName :: string
  vaTINHash :: string
  vaCountry :: string
  vaReports :: "UserReport list"

record CARFMessageSpec =
  SendingCompanyIN :: string
  TransmittingCountry :: string
  ReceivingCountry :: string
  MessageType :: string
  MessageRefId :: string
  ReportingPeriod :: string
  msTimestamp :: string

record CARFMessage =
  msXmlns :: string
  msVersion :: string
  msSpec :: CARFMessageSpec
  msDocSpec :: "CARFDocSpec option"
  msVASP :: CARFVASP

definition xml_transaction :: "CryptoAssetTransaction \<Rightarrow> xml" where
  "xml_transaction t =
     XNode ''CryptoAssetTransaction'' [(''Currency'', txCurrency t)]
       ([XLeaf ''Type'' (txType t), XLeaf ''CryptoAsset'' (txAsset t), XLeaf ''QtyMilli'' (show_int (txQtyMilli t)),
         XLeaf ''FairMarketValue'' (show_int (FairMarketValue t))] @
        (if GainLossKobo t = 0 then [] else [XLeaf ''GainLossKobo'' (show_int (GainLossKobo t))]))"

definition xml_report :: "UserReport \<Rightarrow> xml" where
  "xml_report u =
     XNode ''UserReport'' []
       (XNode ''ReportableUser'' [] [XLeaf ''UserHash'' (urUserHash u), XLeaf ''TINHash'' (urTINHash u), XLeaf ''Country'' (urCountry u)]
        # map xml_transaction (urTransactions u))"

definition xml_spec :: "CARFMessageSpec \<Rightarrow> xml" where
  "xml_spec s =
     XNode ''MessageSpec'' []
       [XLeaf ''SendingCompanyIN'' (SendingCompanyIN s), XLeaf ''TransmittingCountry'' (TransmittingCountry s),
        XLeaf ''ReceivingCountry'' (ReceivingCountry s), XLeaf ''MessageType'' (MessageType s),
        XLeaf ''MessageRefId'' (MessageRefId s), XLeaf ''ReportingPeriod'' (ReportingPeriod s), XLeaf ''Timestamp'' (msTimestamp s)]"

definition xml_docspec :: "CARFDocSpec \<Rightarrow> xml" where
  "xml_docspec d =
     XNode ''DocSpec'' []
       (XLeaf ''DocTypeIndic'' (DocTypeIndic d) # (if CorrMessageRefId d = '''' then [] else [XLeaf ''CorrMessageRefId'' (CorrMessageRefId d)]))"

definition xml_vasp :: "CARFVASP \<Rightarrow> xml" where
  "xml_vasp v =
     XNode ''ReportingVASP'' []
       (XNode ''VASPDetails'' [] [XLeaf ''Name'' (vaName v), XLeaf ''TINHash'' (vaTINHash v), XLeaf ''Country'' (vaCountry v)]
        # map xml_report (vaReports v))"

definition xml_message :: "CARFMessage \<Rightarrow> xml" where
  "xml_message m =
     XNode ''CARF_OECD'' [(''xmlns'', msXmlns m), (''version'', msVersion m)]
       [xml_spec (msSpec m), XNode ''CARFBody'' [] ((case msDocSpec m of None \<Rightarrow> [] | Some d \<Rightarrow> [xml_docspec d]) @ [xml_vasp (msVASP m)])]"

definition carf_xml :: "CARFMessage \<Rightarrow> string" where
  "carf_xml m = xml_header @ xml_text 0 (xml_message m)"

section \<open>The registry of messages\<close>

record CARFRecord =
  cfID :: string
  cfMessageRefId :: string
  cfPeriod :: string
  cfTenantID :: string
  cfDocTypeIndic :: string
  CorrOf :: string
  CorrectionReason :: string
  cfUsers :: nat
  cfTransactions :: nat
  BuiltAt :: string
  cfStatus :: string
  cfXML :: string
  Validation :: "string list"

record CARFStore =
  cfRecords :: "string \<rightharpoonup> CARFRecord"
  cfLog :: "CARFRecord list"
  cfOpen :: bool \<comment> \<open>the log file could be opened\<close>

text \<open>The reader stops at the first line that does not fit its buffer of four megabytes.\<close>

definition carf_replay :: "(CARFRecord \<Rightarrow> bool) \<Rightarrow> CARFRecord list \<Rightarrow> string \<rightharpoonup> CARFRecord" where
  "carf_replay fits lg = fold (\<lambda>r m. if cfID r \<noteq> '''' then m(cfID r \<mapsto> r) else m) (takeWhile fits lg) Map.empty"

definition NewCARFStore :: "(CARFRecord \<Rightarrow> bool) \<Rightarrow> bool \<Rightarrow> CARFRecord list \<Rightarrow> CARFStore" where
  "NewCARFStore fits opens lg = \<lparr>cfRecords = carf_replay fits lg, cfLog = lg, cfOpen = opens\<rparr>"

definition AddRecord :: "bool \<Rightarrow> CARFRecord \<Rightarrow> CARFStore \<Rightarrow> CARFStore \<times> bool" where
  "AddRecord ok r st =
     (if cfOpen st \<and> \<not> ok then (st, False)
      else (let st1 = (if cfOpen st then st\<lparr>cfLog := cfLog st @ [r]\<rparr> else st)
            in (st1\<lparr>cfRecords := (cfRecords st1)(cfID r \<mapsto> r)\<rparr>, True)))"

definition poke_record :: "CARFRecord \<Rightarrow> CARFStore \<Rightarrow> CARFStore" where
  "poke_record r st = st\<lparr>cfRecords := (cfRecords st)(cfID r \<mapsto> r)\<rparr>"

definition GetRecord :: "string \<Rightarrow> CARFStore \<Rightarrow> CARFRecord option" where
  "GetRecord i st = cfRecords st i"

definition ListRecords :: "string list \<Rightarrow> CARFStore \<Rightarrow> CARFRecord list" where
  "ListRecords ord st = sort_key BuiltAt (List.map_filter (cfRecords st) ord)"

section \<open>Building a message\<close>

text \<open>What the builder asks of its surroundings; \<open>beHash\<close> is \<^verbatim>\<open>TINHash\<close>, HMAC-SHA-256 in base64.\<close>

record build_env =
  beHash :: "string \<Rightarrow> string \<Rightarrow> string"
  beTradeOrd :: "string list"
  beTransferOrd :: "string list"
  beULID :: string
  beRef :: string
  beNow :: string

type_synonym users = "(string \<times> UserReport) list"

definition new_report :: "build_env \<Rightarrow> string \<Rightarrow> UserReport" where
  "new_report v u = \<lparr>urUserHash = u, urTINHash = beHash v u ''carf-user'', urCountry = ''NG'', urTransactions = []\<rparr>"

definition add_tx :: "CryptoAssetTransaction \<Rightarrow> UserReport \<Rightarrow> UserReport" where
  "add_tx t u = u\<lparr>urTransactions := urTransactions u @ [t]\<rparr>"

definition report_tx :: "build_env \<Rightarrow> string \<Rightarrow> CryptoAssetTransaction \<Rightarrow> users \<Rightarrow> users" where
  "report_tx v u t us =
     AList.update u (add_tx t (case map_of us u of None \<Rightarrow> new_report v u | Some r \<Rightarrow> r)) us"

definition trade_tx :: "Trade \<Rightarrow> CryptoAssetTransaction" where
  "trade_tx t = \<lparr>txType = ''RC701'', txAsset = ToUpper (tdAsset t), txQtyMilli = tdQtyMilli t,
                 FairMarketValue = amountKobo (tdQtyMilli t) (tdPriceKobo t), txCurrency = ''NGN'', GainLossKobo = 0\<rparr>"

definition transfer_tx :: "VTransfer \<Rightarrow> CryptoAssetTransaction" where
  "transfer_tx tr = \<lparr>txType = ''RC703'', txAsset = ToUpper (xfAsset tr), txQtyMilli = xfQtyMilli tr,
                     FairMarketValue = amountKobo (xfQtyMilli tr) (FMVKobo tr), txCurrency = ''NGN'', GainLossKobo = 0\<rparr>"

definition gain_tx :: "GainLossEntry \<Rightarrow> CryptoAssetTransaction" where
  "gain_tx gl = \<lparr>txType = ''RC704'', txAsset = glAsset gl, txQtyMilli = 0, FairMarketValue = Proceeds gl,
                 txCurrency = ''NGN'', GainLossKobo = GainLoss gl\<rparr>"

definition carf_period :: "string \<Rightarrow> string \<Rightarrow> bool" where
  "carf_period period at = (\<not> (period \<noteq> '''' \<and> \<not> HasPrefix at period))"

definition build_trades :: "build_env \<Rightarrow> string \<Rightarrow> Trade list \<Rightarrow> users \<times> nat \<Rightarrow> users \<times> nat" where
  "build_trades v period ts acc =
     fold (\<lambda>t (us, n). if carf_period period (TradedAt t) then (report_tx v (tdUserHash t) (trade_tx t) us, n + 1) else (us, n)) ts acc"

definition build_transfers :: "build_env \<Rightarrow> string \<Rightarrow> VTransfer list \<Rightarrow> users \<times> nat \<Rightarrow> users \<times> nat" where
  "build_transfers v period ts acc =
     fold (\<lambda>t (us, n). if carf_period period (MovedAt t) then (report_tx v (xfUserHash t) (transfer_tx t) us, n + 1) else (us, n)) ts acc"

text \<open>A gain is attached only to a user who already has a report.\<close>

definition build_gains :: "string \<Rightarrow> GainLossEntry list \<Rightarrow> users \<times> nat \<Rightarrow> users \<times> nat" where
  "build_gains period gls acc =
     fold (\<lambda>gl (us, n). if carf_period period (BookedAt gl)
             then (case map_of us (glUserHash gl) of
                     None \<Rightarrow> (us, n)
                   | Some r \<Rightarrow> (AList.update (glUserHash gl) (add_tx (gain_tx gl) r) us, n + 1))
             else (us, n)) gls acc"

definition ValidateCARF :: "CARFRecord \<Rightarrow> vpacks \<Rightarrow> string list" where
  "ValidateCARF r packs =
     (let present = (\<lambda>f. if f = ''message_ref_id'' then cfMessageRefId r \<noteq> '''' else if f = ''timestamp'' then BuiltAt r \<noteq> ''''
            else if f = ''reporting_vasp'' then cfTenantID r \<noteq> '''' else if f = ''reportable_user'' then cfUsers r > 0
            else if f = ''transactions'' then cfTransactions r > 0 else False)
      in map (\<lambda>f. ''missing required field: '' @ f) (filter (\<lambda>f. \<not> present f) (CARFRequiredFields packs)) @
         (if sublist ''<MessageType>CARF</MessageType>'' (cfXML r) then [] else [''MessageType must be CARF'']) @
         (if cfDocTypeIndic r \<noteq> ''OECD1'' \<and> CorrOf r = '''' then [''correction message missing CorrMessageRefId''] else []))"

definition user_reports :: "users \<Rightarrow> UserReport list" where
  "user_reports us = List.map_filter (map_of us) (sort (map fst us))"

definition carf_message :: "build_env \<Rightarrow> string \<Rightarrow> string \<Rightarrow> string \<Rightarrow> string \<Rightarrow> UserReport list \<Rightarrow> CARFMessage" where
  "carf_message v tenant period docType corrOf reports =
     \<lparr>msXmlns = ''urn:oecd:ties:carf:v1'', msVersion = ''1.1'',
      msSpec = \<lparr>SendingCompanyIN = beHash v tenant ''carf-vasp-in'', TransmittingCountry = ''NG'', ReceivingCountry = ''NG'',
        MessageType = ''CARF'', MessageRefId = ''NG-'' @ beRef v, ReportingPeriod = period @ ''-12-31'', msTimestamp = beNow v\<rparr>,
      msDocSpec = (if docType \<noteq> ''OECD1'' then Some \<lparr>DocTypeIndic = docType, CorrMessageRefId = corrOf\<rparr> else None),
      msVASP = \<lparr>vaName = tenant, vaTINHash = beHash v tenant ''carf-vasp'', vaCountry = ''NG'', vaReports = reports\<rparr>\<rparr>"

definition collect_users :: "build_env \<Rightarrow> string \<Rightarrow> string \<Rightarrow> Engine \<Rightarrow> users \<times> nat" where
  "collect_users v tenant period e =
     build_gains period (Ledger tenant e)
       (build_transfers v period (Transfers (beTransferOrd v) tenant e)
         (build_trades v period (Trades (beTradeOrd v) tenant e) ([], 0)))"

definition draft_record :: "build_env \<Rightarrow> string \<Rightarrow> string \<Rightarrow> string \<Rightarrow> string \<Rightarrow> string \<Rightarrow> users \<times> nat \<Rightarrow> CARFRecord" where
  "draft_record v tenant period docType corrOf reason acc =
     (let reports = user_reports (fst acc)
      in \<lparr>cfID = ''carf-'' @ beULID v, cfMessageRefId = ''NG-'' @ beRef v, cfPeriod = period, cfTenantID = tenant,
          cfDocTypeIndic = docType, CorrOf = corrOf, CorrectionReason = reason, cfUsers = length reports,
          cfTransactions = snd acc, BuiltAt = beNow v, cfStatus = ''built'',
          cfXML = carf_xml (carf_message v tenant period docType corrOf reports), Validation = []\<rparr>)"

definition BuildCARFMessage :: "build_env \<Rightarrow> Engine \<Rightarrow> vpacks \<Rightarrow> string \<Rightarrow> string \<Rightarrow> string \<Rightarrow> string \<Rightarrow> string \<Rightarrow> CARFRecord" where
  "BuildCARFMessage v e packs tenant period docType corrOf reason =
     (let r = draft_record v tenant period docType corrOf reason (collect_users v tenant period e)
      in r\<lparr>Validation := ValidateCARF r packs\<rparr>)"

section \<open>Authentication\<close>

record VClaims =
  clSub :: string
  clRoles :: "string list"
  clTenantID :: string
  clExp :: int

text \<open>\<open>mac\<close> is HMAC-SHA-256 under the secret, \<open>b64\<close> the base64 decoder, \<open>claims\<close> the JSON decoder.\<close>

definition vverifyHS256 :: "(string \<Rightarrow> string) \<Rightarrow> (string \<Rightarrow> string option) \<Rightarrow> (string \<Rightarrow> VClaims option) \<Rightarrow> int \<Rightarrow> string \<Rightarrow> string + VClaims" where
  "vverifyHS256 mac b64 claims now token =
     (case split_on (CHR ''.'') token of
        [h, p, s] \<Rightarrow>
          (case b64 s of
             None \<Rightarrow> Inl ''bad signature''
           | Some sig \<Rightarrow>
               if mac (h @ ''.'' @ p) \<noteq> sig then Inl ''bad signature''
               else (case b64 p of
                       None \<Rightarrow> Inl ''bad payload''
                     | Some payload \<Rightarrow>
                         (case claims payload of
                            None \<Rightarrow> Inl ''bad claims''
                          | Some c \<Rightarrow> if clExp c \<noteq> 0 \<and> now > clExp c then Inl ''token expired'' else Inr c)))
      | _ \<Rightarrow> Inl ''malformed token'')"

record vheaders =
  vhAuthorization :: string
  vhDevRole :: string
  vhTenantID :: string

text \<open>\<open>kc\<close> is the Keycloak verifier when one is configured; \<open>hs256\<close> is \<open>vverifyHS256\<close>.\<close>

definition vauth :: "(string \<Rightarrow> string + VClaims) option \<Rightarrow> (string \<Rightarrow> string + VClaims) \<Rightarrow> string \<Rightarrow> vheaders \<Rightarrow> string + VClaims" where
  "vauth kc hs256 authMode h =
     (if HasPrefix (vhAuthorization h) ''Bearer ''
      then (let tok = drop 7 (vhAuthorization h) in case kc of Some verify \<Rightarrow> verify tok | None \<Rightarrow> hs256 tok)
      else if kc = None \<and> authMode = ''dev'' \<and> vhDevRole h \<in> {''admin'', ''operator'', ''auditor''}
      then Inr \<lparr>clSub = ''dev-'' @ vhDevRole h, clRoles = [vhDevRole h], clTenantID = vhTenantID h, clExp = 0\<rparr>
      else Inl ''Bearer JWT or X-Dev-Role (dev mode) required'')"

definition hasRole :: "VClaims \<Rightarrow> string \<Rightarrow> bool" where
  "hasRole c role = list_ex (\<lambda>r. r = role) (clRoles c)"

section \<open>Handlers\<close>

record VService =
  vsEngine :: Engine
  vsPacks :: vpacks
  vsGates :: GateChecker
  vsCarf :: CARFStore

definition upd_carf :: "CARFStore \<Rightarrow> VService \<Rightarrow> VService" where
  "upd_carf c s = s\<lparr>vsCarf := c\<rparr>"

definition handleIngestTrade :: "eng_env \<Rightarrow> Trade option \<Rightarrow> string \<Rightarrow> VService \<Rightarrow> VService \<times> (string \<times> GainLossEntry option) response" where
  "handleIngestTrade v body meth s =
     (case body of
        None \<Rightarrow> (s, Problem 400 ''bad request'')
      | Some t \<Rightarrow>
          if tdUserHash t = '''' then (s, Problem 422 ''validation failed'')
          else (case IngestTrade v t meth (vsEngine s) of
                  (e, t1, Inl err) \<Rightarrow> (s\<lparr>vsEngine := e\<rparr>, Problem 422 ''trade rejected'')
                | (e, t1, Inr gl) \<Rightarrow> (s\<lparr>vsEngine := e\<rparr>, Reply 201 (tdID t1, gl))))"

definition handleListTrades :: "string list \<Rightarrow> string \<Rightarrow> VService \<Rightarrow> Trade list response" where
  "handleListTrades ord tenant s = Reply 200 (Trades ord tenant (vsEngine s))"

definition handleIngestTransfer :: "eng_env \<Rightarrow> VTransfer option \<Rightarrow> VService \<Rightarrow> VService \<times> (string \<times> int64 \<times> GainLossEntry option) response" where
  "handleIngestTransfer v body s =
     (case body of
        None \<Rightarrow> (s, Problem 400 ''bad request'')
      | Some tr \<Rightarrow>
          (case IngestTransfer v tr (vsEngine s) of
             (e, tr1, Inl err) \<Rightarrow> (s\<lparr>vsEngine := e\<rparr>, Problem 422 ''transfer rejected'')
           | (e, tr1, Inr gl) \<Rightarrow> (s\<lparr>vsEngine := e\<rparr>, Reply 201 (xfID tr1, FMVKobo tr1, gl))))"

definition handleListTransfers :: "string list \<Rightarrow> string \<Rightarrow> VService \<Rightarrow> VTransfer list response" where
  "handleListTransfers ord tenant s = Reply 200 (Transfers ord tenant (vsEngine s))"

definition handleCostBasis :: "string \<Rightarrow> string \<Rightarrow> string \<Rightarrow> string \<Rightarrow> VService \<Rightarrow> basis_report response" where
  "handleCostBasis tenant user asset meth s =
     Reply 200 (CostBasis tenant user asset (if meth = '''' then ''fifo'' else meth) (vsEngine s))"

definition handleAddFMV :: "eng_env \<Rightarrow> FMVSnapshot option \<Rightarrow> VService \<Rightarrow> VService \<times> string response" where
  "handleAddFMV v body s =
     (case body of
        None \<Rightarrow> (s, Problem 400 ''bad request'')
      | Some snap \<Rightarrow>
          if snAsset snap = '''' \<or> snPriceKobo snap \<le> 0 then (s, Problem 422 ''validation failed'')
          else (s\<lparr>vsEngine := AddFMV v snap (vsEngine s)\<rparr>, Reply 201 (snAsset snap)))"

definition handleGetFMV :: "string \<Rightarrow> VService \<Rightarrow> FMVSnapshot response" where
  "handleGetFMV asset s = (case latestFMV asset (vsEngine s) of Some snap \<Rightarrow> Reply 200 snap | None \<Rightarrow> Problem 404 ''no snapshot'')"

definition handleRingFence :: "(string \<times> string \<times> string) option \<Rightarrow> VService \<Rightarrow> RingFenceResult response" where
  "handleRingFence body s =
     (case body of None \<Rightarrow> Problem 400 ''bad request'' | Some (tenant, user, period) \<Rightarrow> Reply 200 (RingFence tenant user period (vsEngine s)))"

definition handleGains :: "string \<Rightarrow> VService \<Rightarrow> GainLossEntry list response" where
  "handleGains tenant s = Reply 200 (Ledger tenant (vsEngine s))"

definition handleCARFBuild :: "build_env \<Rightarrow> bool \<Rightarrow> (string \<times> string) option \<Rightarrow> VService \<Rightarrow> VService \<times> CARFRecord response" where
  "handleCARFBuild v ok body s =
     (case body of
        None \<Rightarrow> (s, Problem 400 ''bad request'')
      | Some (tenant, period) \<Rightarrow>
          (let r = BuildCARFMessage v (vsEngine s) (vsPacks s) tenant period ''OECD1'' '''' ''''
           in case AddRecord ok r (vsCarf s) of
                (c, False) \<Rightarrow> (upd_carf c s, Problem 500 ''persist failed'')
              | (c, True) \<Rightarrow> (upd_carf c s, Reply 201 r)))"

definition handleCARFList :: "string list \<Rightarrow> VService \<Rightarrow> CARFRecord list response" where
  "handleCARFList ord s = Reply 200 (ListRecords ord (vsCarf s))"

definition handleCARFGet :: "string \<Rightarrow> VService \<Rightarrow> CARFRecord response" where
  "handleCARFGet i s = (case GetRecord i (vsCarf s) of None \<Rightarrow> Problem 404 ''not found'' | Some r \<Rightarrow> Reply 200 r)"

definition handleCARFXML :: "string \<Rightarrow> VService \<Rightarrow> string response" where
  "handleCARFXML i s = (case GetRecord i (vsCarf s) of None \<Rightarrow> Problem 404 ''not found'' | Some r \<Rightarrow> Reply 200 (cfXML r))"

text \<open>The reason is empty when the body does not decode. \<open>ok1\<close>, \<open>ok2\<close>: the two writes.\<close>

definition handleCARFCorrect :: "build_env \<Rightarrow> bool \<Rightarrow> bool \<Rightarrow> string \<Rightarrow> string \<Rightarrow> VService \<Rightarrow> VService \<times> CARFRecord response" where
  "handleCARFCorrect v ok1 ok2 i reason s =
     (case GetRecord i (vsCarf s) of
        None \<Rightarrow> (s, Problem 404 ''not found'')
      | Some orig \<Rightarrow>
          if reason = '''' then (s, Problem 422 ''validation failed'')
          else let r = BuildCARFMessage v (vsEngine s) (vsPacks s) (cfTenantID orig) (cfPeriod orig) ''OECD2'' (cfMessageRefId orig) reason;
                   orig' = orig\<lparr>cfStatus := ''superseded''\<rparr>
               in case AddRecord ok1 orig' (poke_record orig' (vsCarf s)) of
                    (c, False) \<Rightarrow> (upd_carf c s, Problem 500 ''persist failed'')
                  | (c, True) \<Rightarrow>
                      (case AddRecord ok2 r c of
                         (c', False) \<Rightarrow> (upd_carf c' s, Problem 500 ''persist failed'')
                       | (c', True) \<Rightarrow> (upd_carf c' s, Reply 201 r)))"

definition gate_open_in :: "(string \<rightharpoonup> GateState) \<Rightarrow> string \<Rightarrow> bool" where
  "gate_open_in gs i = (case gs i of None \<Rightarrow> False | Some st \<Rightarrow> gtOpen st)"

text \<open>
  The gates are read three times: once for the answer, then the first gate, and the second one only
  when the first is open.
\<close>

definition handleCARFTransmit :: "gate_env \<Rightarrow> gate_env \<Rightarrow> gate_env \<Rightarrow> bool \<Rightarrow> string option \<Rightarrow> VService \<Rightarrow> VService \<times> (string \<times> (string \<rightharpoonup> GateState)) response" where
  "handleCARFTransmit v1 v2 v3 ok body s =
     (case body of
        None \<Rightarrow> (s, Problem 400 ''bad request'')
      | Some i \<Rightarrow>
          (case GetRecord i (vsCarf s) of
             None \<Rightarrow> (s, Problem 404 ''not found'')
           | Some r \<Rightarrow>
               (let (g1, gs) = Gates v1 (vsGates s);
                    (g2, open1) = GateOpen v2 ''carf.transmit_enabled'' g1;
                    (g3, both) = (if open1 then GateOpen v3 ''carf.gate.changed'' g2 else (g2, False));
                    s1 = s\<lparr>vsGates := g3\<rparr>
                in if \<not> both
                   then let r' = r\<lparr>cfStatus := ''refused''\<rparr>
                        in (upd_carf (fst (AddRecord ok r' (poke_record r' (vsCarf s1)))) s1, Problem 423 ''transmission refused: gate closed'')
                   else if Validation r \<noteq> [] then (s1, Problem 422 ''message invalid'')
                   else let r' = r\<lparr>cfStatus := ''transmitted''\<rparr>
                        in case AddRecord ok r' (poke_record r' (vsCarf s1)) of
                             (c, False) \<Rightarrow> (upd_carf c s1, Problem 500 ''persist failed'')
                           | (c, True) \<Rightarrow> (upd_carf c s1, Reply 200 (cfMessageRefId r, gs)))))"

definition handleGates :: "gate_env \<Rightarrow> VService \<Rightarrow> VService \<times> (string \<rightharpoonup> GateState) response" where
  "handleGates v s = (case Gates v (vsGates s) of (g, gs) \<Rightarrow> (s\<lparr>vsGates := g\<rparr>, Reply 200 gs))"

definition handleGateFlip :: "gate_write \<Rightarrow> VClaims \<Rightarrow> string \<Rightarrow> bool option \<Rightarrow> VService \<Rightarrow> VService \<times> (string \<times> bool) response" where
  "handleGateFlip o1 c i body s =
     (if \<not> hasRole c ''admin'' then (s, Problem 403 ''forbidden'')
      else (case body of
              None \<Rightarrow> (s, Problem 400 ''bad request'')
            | Some op \<Rightarrow>
                (case SetLocal o1 i op (vsGates s) of
                   (g, False) \<Rightarrow> (s\<lparr>vsGates := g\<rparr>, Problem 500 ''flip failed'')
                 | (g, True) \<Rightarrow> (s\<lparr>vsGates := g\<rparr>, Reply 200 (i, op)))))"

definition handleDuties :: "ymap option \<Rightarrow> VService \<Rightarrow> duty list response" where
  "handleDuties body s = (case body of None \<Rightarrow> Problem 400 ''bad request'' | Some ctx \<Rightarrow> Reply 200 (DutiesFor (vsPacks s) ctx))"

text \<open>A start of the service.\<close>

definition boot :: "(engineRec \<Rightarrow> bool) \<Rightarrow> (CARFRecord \<Rightarrow> bool) \<Rightarrow> bool \<Rightarrow> bool \<Rightarrow> engineRec list \<Rightarrow> CARFRecord list \<Rightarrow> (string \<times> bool) list option \<Rightarrow> vpacks \<Rightarrow> VService" where
  "boot fits cfits o1 o2 elog clog gfile packs =
     \<lparr>vsEngine = NewEngine fits o1 elog, vsPacks = packs, vsGates = NewGateChecker gfile, vsCarf = NewCARFStore cfits o2 clog\<rparr>"

text \<open>The choice of the verifier at the start; \<open>issuer\<close> is the verifier when \<^verbatim>\<open>KEYCLOAK_ISSUER\<close> is set.\<close>

definition wireAuth :: "string \<Rightarrow> (string \<Rightarrow> string + VClaims) option \<Rightarrow> string + (string \<Rightarrow> string + VClaims) option" where
  "wireAuth authMode issuer =
     (if authMode = ''keycloak''
      then (case issuer of None \<Rightarrow> Inl ''AUTH_MODE=keycloak but KEYCLOAK_ISSUER is unset'' | Some k \<Rightarrow> Inr (Some k))
      else Inr None)"

end
