(* ===== verification/Vasp_Basis.thy ===== *)
theory Vasp_Basis
  imports Vasp_Engine
begin

text \<open>
  Correctness of the cost-basis engine (\<^verbatim>\<open>services/vasp-carf/engine.go\<close>). The queue of lots is
  read as the list of its milli-units, each with its cost (\<open>units\<close>): relief by FIFO drops units from
  the front of that list, and the basis is their cost up to the rounding of every touched lot.
\<close>

section \<open>The relief loop\<close>

definition units :: "Lot list \<Rightarrow> int64 list" where
  "units ls = concat (map (\<lambda>l. replicate (nat (ltQtyMilli l)) (CostPerUnit l)) ls)"

definition lots_ok :: "Lot list \<Rightarrow> bool" where
  "lots_ok ls \<longleftrightarrow> (\<forall>l\<in>set ls. 0 < ltQtyMilli l \<and> in64 (ltQtyMilli l))"

definition total_qty :: "Lot list \<Rightarrow> int" where
  "total_qty ls = (\<Sum>l\<leftarrow>ls. ltQtyMilli l)"

definition total_cost :: "Lot list \<Rightarrow> int" where
  "total_cost ls = (\<Sum>l\<leftarrow>ls. ltQtyMilli l * CostPerUnit l)"

text \<open>The values of a queue fit the machine: prices are not negative, the whole cost is in range.\<close>

definition lots_fit :: "Lot list \<Rightarrow> bool" where
  "lots_fit ls \<longleftrightarrow> lots_ok ls \<and> (\<forall>l\<in>set ls. 0 \<le> CostPerUnit l) \<and> in64 (total_qty ls) \<and> in64 (total_cost ls)"

lemma units_simps [simp]:
  "units [] = []" "units (l # ls) = replicate (nat (ltQtyMilli l)) (CostPerUnit l) @ units ls"
  by (simp_all add: units_def)

lemma totals_simps [simp]:
  "total_qty [] = 0" "total_qty (l # ls) = ltQtyMilli l + total_qty ls"
  "total_cost [] = 0" "total_cost (l # ls) = ltQtyMilli l * CostPerUnit l + total_cost ls"
  by (simp_all add: total_qty_def total_cost_def)

lemma lots_ok_simps [simp]:
  "lots_ok []" "lots_ok (l # ls) \<longleftrightarrow> 0 < ltQtyMilli l \<and> in64 (ltQtyMilli l) \<and> lots_ok ls"
  "lots_ok (ls @ ms) \<longleftrightarrow> lots_ok ls \<and> lots_ok ms"
  by (auto simp: lots_ok_def)

lemma total_qty_nonneg: "lots_ok ls \<Longrightarrow> 0 \<le> total_qty ls"
  by (induction ls) auto

lemma total_cost_nonneg: "lots_ok ls \<Longrightarrow> \<forall>l\<in>set ls. 0 \<le> CostPerUnit l \<Longrightarrow> 0 \<le> total_cost ls"
  by (induction ls) auto

lemma length_units: "lots_ok ls \<Longrightarrow> int (length (units ls)) = total_qty ls"
  by (induction ls) auto

lemma sum_units: "lots_ok ls \<Longrightarrow> sum_list (units ls) = total_cost ls"
  by (induction ls) (auto simp: sum_list_replicate)

lemma lots_fit_Cons:
  assumes "lots_fit (l # ls)"
  shows "lots_fit ls" "0 \<le> ltQtyMilli l * CostPerUnit l" "in64 (ltQtyMilli l * CostPerUnit l)"
proof -
  define p where "p = ltQtyMilli l * CostPerUnit l"
  have "0 \<le> total_qty ls" "0 \<le> total_cost ls" "0 \<le> p"
    using assms total_qty_nonneg total_cost_nonneg by (auto simp: lots_fit_def p_def)
  with assms show "lots_fit ls" "0 \<le> ltQtyMilli l * CostPerUnit l" "in64 (ltQtyMilli l * CostPerUnit l)"
    by (auto simp: lots_fit_def in64_def simp flip: p_def)
qed

lemma amountKobo_exact:
  "0 \<le> q \<Longrightarrow> 0 \<le> c \<Longrightarrow> in64 (q * c) \<Longrightarrow> amountKobo q c = q * c div 1000"
  by (simp add: amountKobo_def mul64_exact quot64_nonneg)

text \<open>One turn of the loop, by the two cases of its body.\<close>

lemma relieve_done: "r \<le> 0 \<or> ls = [] \<Longrightarrow> relieve (r, b, ls) = (r, b, ls)"
  by (subst relieve.simps) auto

lemma relieve_whole:
  "0 < r \<Longrightarrow> ltQtyMilli l \<le> r \<Longrightarrow> 0 < ltQtyMilli l \<Longrightarrow> in64 r \<Longrightarrow>
   relieve (r, b, l # ls) = relieve (r - ltQtyMilli l, add64 b (amountKobo (ltQtyMilli l) (CostPerUnit l)), ls)"
  by (subst relieve.simps) (simp add: Let_def sub64_exact in64_def)

lemma relieve_part:
  "0 < r \<Longrightarrow> r < ltQtyMilli l \<Longrightarrow> in64 (ltQtyMilli l) \<Longrightarrow>
   relieve (r, b, l # ls) = (0, add64 b (amountKobo r (CostPerUnit l)), l\<lparr>ltQtyMilli := ltQtyMilli l - r\<rparr> # ls)"
  by (subst relieve.simps) (simp add: Let_def sub64_exact in64_def relieve_done)

text \<open>The loop drops the requested number of units from the front of the queue.\<close>

lemma relieve_drops:
  assumes "lots_ok ls" "0 \<le> r" "r \<le> total_qty ls" "in64 r"
  shows "\<exists>b' ls'. relieve (r, b, ls) = (0, b', ls') \<and> units ls' = drop (nat r) (units ls) \<and> lots_ok ls'"
  using assms
proof (induction ls arbitrary: r b)
  case Nil
  then show ?case by (simp add: relieve_done)
next
  case (Cons l ls)
  consider "r = 0" | "0 < r" "r < ltQtyMilli l" | "0 < r" "ltQtyMilli l \<le> r"
    using Cons.prems by fastforce
  then show ?case
  proof cases
    case 1
    then show ?thesis using Cons.prems by (simp add: relieve_done)
  next
    case 2
    then show ?thesis
      using Cons.prems by (auto simp: relieve_part in64_def nat_diff_distrib)
  next
    case 3
    have "in64 (r - ltQtyMilli l)" using 3 Cons.prems by (auto simp: in64_def)
    with 3 Cons.prems show ?thesis
      using Cons.IH [of "r - ltQtyMilli l" "add64 b (amountKobo (ltQtyMilli l) (CostPerUnit l))"]
      by (simp add: relieve_whole nat_diff_distrib)
  qed
qed

text \<open>
  The basis against the exact cost of the dropped units: every touched lot rounds down once. The
  accumulator stays in range because the whole cost of the queue does.
\<close>

fun touched :: "int64 \<Rightarrow> Lot list \<Rightarrow> nat" where
  "touched r [] = 0"
| "touched r (l # ls) = (if r \<le> 0 then 0 else Suc (touched (r - ltQtyMilli l) ls))"

lemma touched_le: "touched r ls \<le> length ls"
  by (induction r ls rule: touched.induct) auto

lemma part_cost_le: "lots_ok ls \<Longrightarrow> \<forall>l\<in>set ls. 0 \<le> CostPerUnit l \<Longrightarrow> sum_list (take n (units ls)) \<le> total_cost ls"
proof -
  assume a: "lots_ok ls" "\<forall>l\<in>set ls. 0 \<le> CostPerUnit l"
  have "\<forall>c\<in>set (drop n (units ls)). 0 \<le> c"
    using a(2) by (auto simp: units_def dest!: in_set_dropD)
  then have "0 \<le> sum_list (drop n (units ls))" by (induction "drop n (units ls)") (auto intro: sum_list_nonneg)
  moreover have "sum_list (take n (units ls)) + sum_list (drop n (units ls)) = total_cost ls"
    by (metis append_take_drop_id sum_list_append sum_units a(1))
  ultimately show ?thesis by linarith
qed

lemma take_replicate_app: "m \<le> n \<Longrightarrow> take m (replicate n x @ ys) = replicate m x"
  by (simp add: min_def)

lemma relieve_basis:
  assumes "lots_fit ls" "0 \<le> r" "r \<le> total_qty ls" "in64 r" "0 \<le> b" "1000 * b + total_cost ls < 2 ^ 63"
  shows "\<exists>d ls'. relieve (r, b, ls) = (0, b + d, ls') \<and> 0 \<le> d \<and>
     1000 * d \<le> sum_list (take (nat r) (units ls)) \<and>
     sum_list (take (nat r) (units ls)) \<le> 1000 * d + 999 * int (touched r ls)"
  using assms
proof (induction ls arbitrary: r b)
  case Nil
  then show ?case by (simp add: relieve_done)
next
  case (Cons l ls)
  let ?c = "CostPerUnit l" and ?q = "ltQtyMilli l"
  have c0: "0 \<le> ?c" and q0: "0 < ?q" and ok: "lots_ok ls" "in64 ?q" and tc: "0 \<le> total_cost ls"
    using Cons.prems total_cost_nonneg by (auto simp: lots_fit_def)
  note fit = lots_fit_Cons [OF Cons.prems(1)]
  have amount: "amountKobo x ?c = x * ?c div 1000 \<and> 0 \<le> x * ?c div 1000 \<and>
      1000 * (x * ?c div 1000) \<le> x * ?c \<and> x * ?c \<le> 1000 * (x * ?c div 1000) + 999 \<and> x * ?c \<le> ?q * ?c"
    if "0 \<le> x" "x \<le> ?q" for x
  proof -
    have le: "x * ?c \<le> ?q * ?c" using that c0 by (simp add: mult_right_mono)
    have "0 \<le> x * ?c" using that c0 by simp
    with le fit(3) have "in64 (x * ?c)" by (auto simp: in64_def)
    moreover have "1000 * (y div 1000) \<le> y \<and> y \<le> 1000 * (y div 1000) + 999" for y :: int
      by presburger
    ultimately show ?thesis
      using that c0 le \<open>0 \<le> x * ?c\<close> by (simp add: amountKobo_exact pos_imp_zdiv_nonneg_iff)
  qed
  consider "r = 0" | "0 < r" "r < ?q" | "0 < r" "?q \<le> r"
    using Cons.prems by fastforce
  then show ?case
  proof cases
    case 1
    then show ?thesis using Cons.prems by (simp add: relieve_done)
  next
    case 2
    note a = amount [of r]
    have "add64 b (amountKobo r ?c) = b + r * ?c div 1000"
      using a 2 Cons.prems(5,6) tc by (intro trans [OF add64_exact]) (auto simp: in64_def)
    then show ?thesis
      using a 2 ok by (simp add: relieve_part take_replicate_app sum_list_replicate touched.simps(2) nat_le_eq_zle)
  next
    case 3
    note a = amount [of ?q]
    let ?d = "?q * ?c div 1000"
    have b': "add64 b (amountKobo ?q ?c) = b + ?d"
      using a 3 Cons.prems(5,6) tc q0 by (intro trans [OF add64_exact]) (auto simp: in64_def)
    have "in64 (r - ?q)" using 3 Cons.prems q0 by (auto simp: in64_def)
    moreover have "1000 * (b + ?d) + total_cost ls < 2 ^ 63"
      using a q0 Cons.prems(6) by (simp add: distrib_left)
    ultimately obtain d ls' where ih: "relieve (r - ?q, b + ?d, ls) = (0, b + ?d + d, ls')" "0 \<le> d"
      "1000 * d \<le> sum_list (take (nat (r - ?q)) (units ls))"
      "sum_list (take (nat (r - ?q)) (units ls)) \<le> 1000 * d + 999 * int (touched (r - ?q) ls)"
      using Cons.IH [of "r - ?q" "b + ?d"] fit(1) 3 Cons.prems a q0 by auto
    have tk: "take (nat r) (units (l # ls)) = replicate (nat ?q) ?c @ take (nat (r - ?q)) (units ls)"
      using 3 q0 by (simp add: nat_diff_distrib min_absorb2 nat_mono)
    have "relieve (r, b, l # ls) = (0, b + (?d + d), ls')"
      using 3 q0 Cons.prems(4) ih(1) b' by (simp add: relieve_whole add.assoc)
    moreover have "0 \<le> ?d + d" using a q0 ih(2) by simp
    moreover have "1000 * (?d + d) \<le> sum_list (take (nat r) (units (l # ls)))"
      using a q0 ih(3) unfolding tk by (simp add: sum_list_replicate distrib_left)
    moreover have "sum_list (take (nat r) (units (l # ls))) \<le> 1000 * (?d + d) + 999 * int (touched r (l # ls))"
      using a q0 3 ih(4) unfolding tk by (simp add: sum_list_replicate distrib_left)
    ultimately show ?thesis by blast
  qed
qed

text \<open>The loop as an iteration of its body: it ends after at most one turn for every lot.\<close>

lemma relieve_turns:
  "\<exists>n \<le> length (snd (snd s)). relieve s = (lot_step ^^ n) s \<and> (\<forall>m<n. lot_more ((lot_step ^^ m) s)) \<and> \<not> lot_more (relieve s)"
proof (induction s rule: relieve.induct)
  case (1 s)
  obtain r b ls where s: "s = (r, b, ls)" by (cases s)
  show ?case
  proof (cases "lot_more s")
    case False
    then show ?thesis by (subst (1 2) relieve.simps) (auto intro!: exI [of _ 0])
  next
    case True
    then obtain l rest where ls: "ls = l # rest" and r: "0 < r" by (cases ls) (auto simp: s)
    from "1.IH" [OF True] obtain n where
      n: "n \<le> length (snd (snd (lot_step s)))" "relieve (lot_step s) = (lot_step ^^ n) (lot_step s)"
        "\<forall>m<n. lot_more ((lot_step ^^ m) (lot_step s))" "\<not> lot_more (relieve (lot_step s))"
      by blast
    have step: "relieve s = relieve (lot_step s)" using True by (subst relieve.simps) simp
    have le: "Suc n \<le> length (snd (snd s))"
    proof (cases "ltQtyMilli l > r")
      case True
      then have "\<not> lot_more (lot_step s)" by (simp add: s ls Let_def)
      then have "n = 0" using n(3) by (metis funpow_0 gr0I)
      then show ?thesis by (simp add: s ls)
    next
      case False
      then show ?thesis using n(1) by (simp add: s ls Let_def)
    qed
    have "\<forall>m<Suc n. lot_more ((lot_step ^^ m) s)"
    proof (intro allI impI)
      fix m assume "m < Suc n"
      with True n(3) show "lot_more ((lot_step ^^ m) s)"
        by (cases m) (simp_all add: funpow_Suc_right del: funpow.simps(2))
    qed
    moreover have "relieve s = (lot_step ^^ Suc n) s" using step n(2) by (simp add: funpow_Suc_right del: funpow.simps(2))
    ultimately show ?thesis using le n(4) step by (metis (no_types, lifting))
  qed
qed

section \<open>The two reliefs of a holding\<close>

lemma sum64_qty: "in64 (total_qty ls) \<Longrightarrow> sum64 ltQtyMilli ls = total_qty ls"
  by (simp add: total_qty_def sum64_exact)

text \<open>The contract of \<open>consumeBasis\<close>: it refuses a quantity the queue does not hold, else it takes the oldest units.\<close>

lemma consumeBasis_short:
  assumes "in64 (total_qty (lots e (key3 t u a)))" "total_qty (lots e (key3 t u a)) < q"
  shows "\<exists>err. consumeBasis t u a q e = (e, Inl err)"
  using assms by (simp add: consumeBasis_def sum64_qty)

lemma consumeBasis_takes:
  assumes fit: "lots_fit (lots e (key3 t u a))" and q: "0 < q" "q \<le> total_qty (lots e (key3 t u a))"
  shows "\<exists>b ls'. consumeBasis t u a q e = (e\<lparr>lots := (lots e)(key3 t u a := ls')\<rparr>, Inr b) \<and>
     units ls' = drop (nat q) (units (lots e (key3 t u a))) \<and> lots_ok ls' \<and> 0 \<le> b \<and>
     1000 * b \<le> sum_list (take (nat q) (units (lots e (key3 t u a)))) \<and>
     sum_list (take (nat q) (units (lots e (key3 t u a)))) \<le> 1000 * b + 999 * int (touched q (lots e (key3 t u a)))"
proof -
  let ?ls = "lots e (key3 t u a)"
  have ok: "lots_ok ?ls" "in64 (total_qty ?ls)" "in64 q" "total_cost ?ls < 2 ^ 63"
    using fit q by (auto simp: lots_fit_def in64_def)
  obtain b' ls' where d: "relieve (q, 0, ?ls) = (0, b', ls')" "units ls' = drop (nat q) (units ?ls)" "lots_ok ls'"
    using relieve_drops [OF ok(1) _ q(2) ok(3), of 0] q by auto
  obtain d2 ls2 where "relieve (q, 0, ?ls) = (0, 0 + d2, ls2)" "0 \<le> d2" "1000 * d2 \<le> sum_list (take (nat q) (units ?ls))"
     "sum_list (take (nat q) (units ?ls)) \<le> 1000 * d2 + 999 * int (touched q ?ls)"
    using relieve_basis [OF fit _ q(2) ok(3), of 0] q ok(4) by auto
  with d q ok(2) show ?thesis by (intro exI [of _ b'] exI [of _ ls']) (simp add: consumeBasis_def sum64_qty)
qed

text \<open>The weighted average: the relieved basis is a share of the total cost, and the whole position takes the whole cost.\<close>

lemma consumeWAC_takes:
  assumes "wac e (key3 t u a) = Some w" "0 < q" "q \<le> wcQtyMilli w" "0 \<le> CostTotal w"
    and "in64 (CostTotal w * q)" "in64 (CostTotal w)" "in64 (wcQtyMilli w)"
  shows "consumeWAC t u a q e =
      (e\<lparr>wac := (wac e)(key3 t u a \<mapsto> \<lparr>wcQtyMilli = wcQtyMilli w - q, CostTotal = CostTotal w - CostTotal w * q div wcQtyMilli w\<rparr>)\<rparr>,
       Inr (CostTotal w * q div wcQtyMilli w)) \<and>
     0 \<le> CostTotal w * q div wcQtyMilli w \<and> CostTotal w * q div wcQtyMilli w \<le> CostTotal w \<and>
     (q = wcQtyMilli w \<longrightarrow> CostTotal w * q div wcQtyMilli w = CostTotal w)"
proof -
  define p where "p = CostTotal w * q"
  have p: "0 \<le> p" "p \<le> CostTotal w * wcQtyMilli w" "in64 p"
    using assms by (auto simp: p_def intro: mult_left_mono)
  have "0 \<le> p div wcQtyMilli w" using p assms(2,3) by (simp add: pos_imp_zdiv_nonneg_iff)
  moreover have "p div wcQtyMilli w \<le> CostTotal w"
    using p(2) assms(2,3) zdiv_mono1 [of p "CostTotal w * wcQtyMilli w" "wcQtyMilli w"] by simp
  moreover have "quot64 (mul64 (CostTotal w) q) (wcQtyMilli w) = p div wcQtyMilli w"
    using p assms(2,3,5) by (simp add: mul64_exact quot64_nonneg p_def)
  moreover have "sub64 (wcQtyMilli w) q = wcQtyMilli w - q"
    using assms by (intro sub64_exact) (auto simp: in64_def)
  moreover have "sub64 (CostTotal w) (p div wcQtyMilli w) = CostTotal w - p div wcQtyMilli w"
    using assms(6) \<open>0 \<le> p div wcQtyMilli w\<close> \<open>p div wcQtyMilli w \<le> CostTotal w\<close> by (intro sub64_exact) (auto simp: in64_def)
  ultimately show ?thesis using assms(1-3) by (auto simp: consumeWAC_def p_def Let_def)
qed

section \<open>Frames\<close>

lemma consumeBasis_frame [simp]:
  "trades (fst (consumeBasis t u a q e)) = trades e" "transfers (fst (consumeBasis t u a q e)) = transfers e"
  "wac (fst (consumeBasis t u a q e)) = wac e" "fmv (fst (consumeBasis t u a q e)) = fmv e"
  "ledger (fst (consumeBasis t u a q e)) = ledger e" "engLog (fst (consumeBasis t u a q e)) = engLog e"
  "engOpen (fst (consumeBasis t u a q e)) = engOpen e"
  by (simp_all add: consumeBasis_def Let_def split: prod.splits)

lemma consumeWAC_frame [simp]:
  "trades (fst (consumeWAC t u a q e)) = trades e" "transfers (fst (consumeWAC t u a q e)) = transfers e"
  "lots (fst (consumeWAC t u a q e)) = lots e" "fmv (fst (consumeWAC t u a q e)) = fmv e"
  "ledger (fst (consumeWAC t u a q e)) = ledger e" "engLog (fst (consumeWAC t u a q e)) = engLog e"
  "engOpen (fst (consumeWAC t u a q e)) = engOpen e"
  by (simp_all add: consumeWAC_def Let_def split: option.splits)

lemma acquire_frame [simp]:
  "trades (acquire t u a q d c e) = trades e" "transfers (acquire t u a q d c e) = transfers e"
  "fmv (acquire t u a q d c e) = fmv e" "ledger (acquire t u a q d c e) = ledger e"
  "engLog (acquire t u a q d c e) = engLog e" "engOpen (acquire t u a q d c e) = engOpen e"
  by (simp_all add: acquire_def Let_def)

lemma append_rec_frame [simp]:
  "trades (append_rec ok r e) = trades e" "transfers (append_rec ok r e) = transfers e"
  "lots (append_rec ok r e) = lots e" "wac (append_rec ok r e) = wac e" "fmv (append_rec ok r e) = fmv e"
  "ledger (append_rec ok r e) = ledger e" "engOpen (append_rec ok r e) = engOpen e"
  by (simp_all add: append_rec_def)

text \<open>What the lots become depends on the lots alone, and relief keeps every queue well formed.\<close>

lemma consumeBasis_lots:
  "lots e = lots e' \<Longrightarrow> lots (fst (consumeBasis t u a q e)) = lots (fst (consumeBasis t u a q e')) \<and>
     snd (consumeBasis t u a q e) = snd (consumeBasis t u a q e')"
  by (simp add: consumeBasis_def Let_def split: prod.splits)

lemma acquire_lots: "lots e = lots e' \<Longrightarrow> lots (acquire t u a q d c e) = lots (acquire t u a q d c e')"
  by (simp add: acquire_def Let_def)

lemma relieve_ok:
  "lots_ok ls \<Longrightarrow> in64 r \<Longrightarrow> relieve (r, b, ls) = (r', b', ls') \<Longrightarrow> lots_ok ls'"
proof (induction ls arbitrary: r b)
  case Nil
  then show ?case by (simp add: relieve_done)
next
  case (Cons l ls)
  consider "r \<le> 0" | "0 < r" "r < ltQtyMilli l" | "0 < r" "ltQtyMilli l \<le> r" by linarith
  then show ?case
  proof cases
    case 3
    then have "in64 (r - ltQtyMilli l)" using Cons.prems by (auto simp: in64_def)
    with 3 Cons show ?thesis by (simp add: relieve_whole)
  qed (use Cons.prems in \<open>auto simp: relieve_done relieve_part in64_def\<close>)
qed

definition queues_ok :: "Engine \<Rightarrow> bool" where
  "queues_ok e \<longleftrightarrow> (\<forall>k. lots_ok (lots e k))"

lemma queues_consume: "queues_ok e \<Longrightarrow> in64 q \<Longrightarrow> queues_ok (fst (consumeBasis t u a q e))"
  by (auto simp: queues_ok_def consumeBasis_def Let_def split: prod.splits dest: relieve_ok [rotated 2])

lemma queues_acquire: "queues_ok e \<Longrightarrow> in64 q \<Longrightarrow> 0 < q \<Longrightarrow> queues_ok (acquire t u a q d c e)"
  by (simp add: queues_ok_def acquire_def Let_def)

end
