(* ===== verification/Vasp_Ledger.thy ===== *)
theory Vasp_Ledger
  imports Vasp_Basis
begin

text \<open>
  Guarantees of the VASP engine over sequences of requests: well-formedness of every reachable
  engine, reconstruction of the books from the log, and the ring fence.
\<close>

section \<open>Sequences of requests\<close>

datatype eng_op = OpTrade eng_env Trade string | OpTransfer eng_env VTransfer | OpFMV eng_env FMVSnapshot

fun eng_exec :: "eng_op \<Rightarrow> Engine \<Rightarrow> Engine" where
  "eng_exec (OpTrade v t meth) e = fst (IngestTrade v t meth e)"
| "eng_exec (OpTransfer v tr) e = fst (IngestTransfer v tr e)"
| "eng_exec (OpFMV v s) e = AddFMV v s e"

definition eng_run :: "eng_op list \<Rightarrow> Engine \<Rightarrow> Engine" where
  "eng_run xs e = fold eng_exec xs e"

lemma eng_run_simps [simp]: "eng_run [] e = e" "eng_run (x # xs) e = eng_run xs (eng_exec x e)"
  by (simp_all add: eng_run_def)

definition fresh_engine :: Engine where
  "fresh_engine = NewEngine (\<lambda>_. True) True []"

lemma fresh_engine_simps [simp]:
  "trades fresh_engine = Map.empty" "transfers fresh_engine = Map.empty" "lots fresh_engine k = []"
  "wac fresh_engine = Map.empty" "fmv fresh_engine a = []" "ledger fresh_engine = []" "engLog fresh_engine = []" "engOpen fresh_engine"
  by (simp_all add: fresh_engine_def NewEngine_def engine_replay_def)

definition restart_engine :: "(engineRec \<Rightarrow> bool) \<Rightarrow> bool \<Rightarrow> Engine \<Rightarrow> Engine" where
  "restart_engine fits opens e = NewEngine fits opens (engLog e)"

lemma store_frame [simp]:
  "lots (store_trade ok t e) = lots e" "lots (store_entry ok gl e) = lots e" "lots (store_transfer ok tr e) = lots e"
  "wac (store_trade ok t e) = wac e" "wac (store_entry ok gl e) = wac e" "wac (store_transfer ok tr e) = wac e"
  "fmv (store_trade ok t e) = fmv e" "fmv (store_entry ok gl e) = fmv e" "fmv (store_transfer ok tr e) = fmv e"
  "ledger (store_trade ok t e) = ledger e" "ledger (store_entry ok gl e) = ledger e @ [gl]" "ledger (store_transfer ok tr e) = ledger e"
  "trades (store_trade ok t e) = (trades e)(tdID t \<mapsto> t)" "trades (store_entry ok gl e) = trades e" "trades (store_transfer ok tr e) = trades e"
  "transfers (store_trade ok t e) = transfers e" "transfers (store_entry ok gl e) = transfers e"
  "transfers (store_transfer ok tr e) = (transfers e)(xfID tr \<mapsto> tr)"
  "engOpen (store_trade ok t e) = engOpen e" "engOpen (store_entry ok gl e) = engOpen e" "engOpen (store_transfer ok tr e) = engOpen e"
  by (simp_all add: store_trade_def store_entry_def store_transfer_def)

lemma store_log:
  "engLog (store_trade ok t e) = engLog e @ (if engOpen e \<and> ok then [TradeRec t] else [])"
  "engLog (store_entry ok gl e) = engLog e @ (if engOpen e \<and> ok then [LedgerRec gl] else [])"
  "engLog (store_transfer ok tr e) = engLog e @ (if engOpen e \<and> ok then [TransferRec tr] else [])"
  by (simp_all add: store_trade_def store_entry_def store_transfer_def append_rec_def)

lemma normal_trade_fields [simp]:
  "Side (named_trade v t) = Side t" "tdQtyMilli (named_trade v t) = tdQtyMilli t" "tdPriceKobo (named_trade v t) = tdPriceKobo t"
  "Side (dated_trade v t) = Side t" "tdQtyMilli (dated_trade v t) = tdQtyMilli t" "tdPriceKobo (dated_trade v t) = tdPriceKobo t"
  "tdID (dated_trade v t) = tdID t" "tdTenantID (named_trade v t) = tdTenantID t" "tdUserHash (named_trade v t) = tdUserHash t"
  "tdTenantID (dated_trade v t) = tdTenantID t" "tdUserHash (dated_trade v t) = tdUserHash t"
  "tdAsset (named_trade v t) = tdAsset t" "tdAsset (dated_trade v t) = tdAsset t"
  by (simp_all add: named_trade_def dated_trade_def)

lemma normal_transfer_fields [simp]:
  "Direction (named_transfer v t) = Direction t" "xfQtyMilli (named_transfer v t) = xfQtyMilli t"
  "Direction (valued_transfer v e t) = Direction t" "xfQtyMilli (valued_transfer v e t) = xfQtyMilli t"
  "xfID (valued_transfer v e t) = xfID t" "xfTenantID (valued_transfer v e t) = xfTenantID t"
  "xfUserHash (valued_transfer v e t) = xfUserHash t" "xfAsset (valued_transfer v e t) = xfAsset t"
  by (simp_all add: named_transfer_def valued_transfer_def Let_def split: option.splits)

text \<open>The outcomes of the two ingest operations.\<close>

lemma IngestTrade_cases:
  obtains (refused) "fst (IngestTrade v t0 meth e) = e"
  | (bought) t where "t = dated_trade v (named_trade v t0)" "Side t = ''buy''" "0 < tdQtyMilli t" "0 \<le> tdPriceKobo t" "trades e (tdID t) = None"
      "IngestTrade v t0 meth e = (store_trade (egWrite1 v) t
          (acquire (tdTenantID t) (tdUserHash t) (tdAsset t) (tdQtyMilli t) (TradedAt t) (tdPriceKobo t) e), t, Inr None)"
  | (sold) t e1 b m where "t = dated_trade v (named_trade v t0)" "Side t = ''sell''" "0 < tdQtyMilli t" "trades e (tdID t) = None"
      "m = (if meth = '''' then ''fifo'' else meth)"
      "m = ''fifo'' \<and> consumeBasis (tdTenantID t) (tdUserHash t) (tdAsset t) (tdQtyMilli t) e = (e1, Inr b) \<or>
       m = ''wac'' \<and> consumeWAC (tdTenantID t) (tdUserHash t) (tdAsset t) (tdQtyMilli t) e = (e1, Inr b)"
      "IngestTrade v t0 meth e =
         (store_entry (egWrite2 v) (disposal_entry v t m (sub64 (amountKobo (tdQtyMilli t) (tdPriceKobo t)) (FeeKobo t)) b)
            (store_trade (egWrite1 v) t e1), t,
          Inr (Some (disposal_entry v t m (sub64 (amountKobo (tdQtyMilli t) (tdPriceKobo t)) (FeeKobo t)) b)))"
proof -
  let ?t = "dated_trade v (named_trade v t0)"
  have unch: "fst (consumeBasis a b c q e) = e" if "snd (consumeBasis a b c q e) = Inl err" for a b c q err
    using that by (auto simp: consumeBasis_def Let_def split: if_splits prod.splits)
  have unchW: "fst (consumeWAC a b c q e) = e" if "snd (consumeWAC a b c q e) = Inl err" for a b c q err
    using that by (auto simp: consumeWAC_def Let_def split: if_splits option.splits)
  show ?thesis
  proof (cases "fst (IngestTrade v t0 meth e) = e")
    case False
    then have ok: "0 < tdQtyMilli t0" "Side t0 = ''buy'' \<or> Side t0 = ''sell''" "trades e (tdID ?t) = None" "0 \<le> tdPriceKobo t0"
      by (auto simp: IngestTrade_def Let_def split: if_splits)
    show ?thesis
    proof (cases "Side t0 = ''buy''")
      case True
      then show ?thesis using ok False by (intro bought [of ?t]) (auto simp: IngestTrade_def Let_def)
    next
      case sell: False
      obtain e1 r where bd: "bookDisposal v ?t meth e = (e1, r)" by force
      show ?thesis
      proof (cases r)
        case (Inl err)
        then have "e1 = e"
          using bd unch unchW by (auto simp: bookDisposal_def Let_def split: if_splits prod.splits sum.splits) (metis fst_conv snd_conv)+
        with False ok sell bd Inl show ?thesis by (auto simp: IngestTrade_def Let_def)
      next
        case (Inr gl)
        with bd obtain b where b: "gl = disposal_entry v ?t (if meth = '''' then ''fifo'' else meth) (sub64 (amountKobo (tdQtyMilli ?t) (tdPriceKobo ?t)) (FeeKobo ?t)) b"
          "(if meth = '''' then ''fifo'' else meth) = ''fifo'' \<and> consumeBasis (tdTenantID ?t) (tdUserHash ?t) (tdAsset ?t) (tdQtyMilli ?t) e = (e1, Inr b) \<or>
           (if meth = '''' then ''fifo'' else meth) = ''wac'' \<and> consumeWAC (tdTenantID ?t) (tdUserHash ?t) (tdAsset ?t) (tdQtyMilli ?t) e = (e1, Inr b)"
          by (auto simp: bookDisposal_def Let_def split: if_splits prod.splits sum.splits)
        show ?thesis
          by (rule sold [OF refl _ _ ok(3) refl b(2)]) (use ok sell bd Inr b(1) in \<open>auto simp: IngestTrade_def Let_def\<close>)
      qed
    qed
  qed (rule refused)
qed

lemma IngestTransfer_cases:
  obtains (refused) "fst (IngestTransfer v t0 e) = e"
  | (moved_in) t where "t = valued_transfer v e (named_transfer v t0)" "Direction t = ''in''" "0 < xfQtyMilli t" "transfers e (xfID t) = None"
      "fst (IngestTransfer v t0 e) = store_transfer (egWrite1 v) t
          (acquire (xfTenantID t) (xfUserHash t) (xfAsset t) (xfQtyMilli t) (MovedAt t) (FMVKobo t) e)"
  | (moved_out) t e1 b gl where "t = valued_transfer v e (named_transfer v t0)" "Direction t = ''out''" "0 < xfQtyMilli t" "transfers e (xfID t) = None"
      "consumeBasis (xfTenantID t) (xfUserHash t) (xfAsset t) (xfQtyMilli t) e = (e1, Inr b)"
      "gl = withdrawal_entry v t (amountKobo (xfQtyMilli t) (FMVKobo t)) b"
      "fst (IngestTransfer v t0 e) = store_transfer (egWrite2 v) t
          (store_entry (egWrite1 v) gl (fst (consumeWAC (xfTenantID t) (xfUserHash t) (xfAsset t) (xfQtyMilli t) e1)))"
proof -
  let ?t = "valued_transfer v e (named_transfer v t0)"
  have unch: "e1 = e" if "consumeBasis a b c q e = (e1, Inl err)" for a b c q err e1
    using that by (auto simp: consumeBasis_def Let_def split: if_splits prod.splits)
  show ?thesis
  proof (cases "fst (IngestTransfer v t0 e) = e")
    case False
    then have ok: "0 < xfQtyMilli t0" "Direction t0 = ''in'' \<or> Direction t0 = ''out''" "transfers e (xfID ?t) = None"
      by (auto simp: IngestTransfer_def Let_def split: if_splits)
    show ?thesis
    proof (cases "Direction t0 = ''in''")
      case True
      then show ?thesis using ok by (intro moved_in [of ?t]) (auto simp: IngestTransfer_def Let_def)
    next
      case out: False
      obtain e1 r where cb: "consumeBasis (xfTenantID ?t) (xfUserHash ?t) (xfAsset ?t) (xfQtyMilli ?t) e = (e1, r)" by force
      show ?thesis
      proof (cases r)
        case (Inl err)
        then show ?thesis using False ok out cb unch [of _ _ _ _ e1 err] by (auto simp: IngestTransfer_def Let_def)
      next
        case (Inr b)
        show ?thesis
          by (rule moved_out [OF refl _ _ ok(3) _ refl, of e1 b]) (use ok out cb Inr in \<open>auto simp: IngestTransfer_def Let_def\<close>)
      qed
    qed
  qed (rule refused)
qed

section \<open>Well-formedness\<close>

text \<open>Requests arrive decoded into 64-bit fields.\<close>

fun op_in64 :: "eng_op \<Rightarrow> bool" where
  "op_in64 (OpTrade v t meth) \<longleftrightarrow> in64 (tdQtyMilli t) \<and> in64 (tdPriceKobo t) \<and> in64 (FeeKobo t)"
| "op_in64 (OpTransfer v tr) \<longleftrightarrow> in64 (xfQtyMilli tr) \<and> in64 (FMVKobo tr)"
| "op_in64 (OpFMV v s) \<longleftrightarrow> in64 (snPriceKobo s)"

definition rec_ok :: "engineRec \<Rightarrow> bool" where
  "rec_ok r \<longleftrightarrow>
     (case r of
        TradeRec t \<Rightarrow> 0 < tdQtyMilli t \<and> in64 (tdQtyMilli t)
      | TransferRec tr \<Rightarrow> 0 < xfQtyMilli tr \<and> in64 (xfQtyMilli tr)
      | FmvRec s \<Rightarrow> True
      | LedgerRec gl \<Rightarrow> GainLoss gl = sub64 (Proceeds gl) (Basis gl))"

definition stored_ok :: "('a \<Rightarrow> string) \<Rightarrow> ('a \<Rightarrow> engineRec) \<Rightarrow> (string \<rightharpoonup> 'a) \<Rightarrow> bool" where
  "stored_ok name mk m \<longleftrightarrow> (\<forall>i x. m i = Some x \<longrightarrow> name x = i \<and> rec_ok (mk x))"

lemma stored_ok_upd: "stored_ok name mk m \<Longrightarrow> rec_ok (mk x) \<Longrightarrow> name x = i \<Longrightarrow> stored_ok name mk (m(i \<mapsto> x))"
  unfolding stored_ok_def by (metis fun_upd_apply option.inject)

lemma stored_ok_empty [simp]: "stored_ok name mk Map.empty"
  by (simp add: stored_ok_def)

definition engine_ok :: "Engine \<Rightarrow> bool" where
  "engine_ok e \<longleftrightarrow> queues_ok e \<and>
     stored_ok tdID TradeRec (trades e) \<and> stored_ok xfID TransferRec (transfers e) \<and>
     (\<forall>gl\<in>set (ledger e). rec_ok (LedgerRec gl)) \<and>
     (\<forall>r\<in>set (engLog e). rec_ok r)"

lemma queues_frame: "lots e' = lots e \<Longrightarrow> queues_ok e' = queues_ok e"
  by (simp add: queues_ok_def)

lemma queues_upd [simp]:
  "queues_ok (e\<lparr>trades := x\<rparr>) = queues_ok e" "queues_ok (e\<lparr>transfers := y\<rparr>) = queues_ok e"
  "queues_ok (store_trade ok t e) = queues_ok e" "queues_ok (store_entry ok gl e) = queues_ok e" "queues_ok (store_transfer ok tr e) = queues_ok e"
  by (simp_all add: queues_ok_def)

lemma consumed: "consumeBasis t u a q e = (e1, Inr b) \<Longrightarrow> e1 = fst (consumeBasis t u a q e)"
  "consumeWAC t u a q e = (e1, Inr b) \<Longrightarrow> e1 = fst (consumeWAC t u a q e)"
  by simp_all

lemma queues_wac: "queues_ok (fst (consumeWAC t u a q e)) = queues_ok e"
  by (rule queues_frame) simp

lemma entry_ok [simp]: "rec_ok (LedgerRec (disposal_entry v t m p b))" "rec_ok (LedgerRec (withdrawal_entry v tr p b))"
  by (simp_all add: rec_ok_def disposal_entry_def withdrawal_entry_def)

lemma engine_ok_trade: "engine_ok e \<Longrightarrow> in64 (tdQtyMilli t) \<Longrightarrow> engine_ok (fst (IngestTrade v t meth e))"
proof (cases rule: IngestTrade_cases [of v t meth e])
  case (bought t1)
  assume "engine_ok e" "in64 (tdQtyMilli t)"
  moreover from bought(1) have "tdQtyMilli t1 = tdQtyMilli t" by simp
  ultimately show ?thesis using bought
    by (auto simp: engine_ok_def rec_ok_def queues_acquire store_log intro!: stored_ok_upd)
next
  case (sold t1 e1 b m)
  assume ok: "engine_ok e" and q: "in64 (tdQtyMilli t)"
  have "queues_ok e1" using sold(6) ok q sold(1) queues_consume consumed queues_wac
    by (metis engine_ok_def normal_trade_fields(2,5))
  moreover have "trades e1 = trades e" "transfers e1 = transfers e" "ledger e1 = ledger e" "engLog e1 = engLog e"
    using sold(6) consumed by (metis consumeBasis_frame consumeWAC_frame)+
  moreover from sold(1) have "tdQtyMilli t1 = tdQtyMilli t" by simp
  ultimately show ?thesis using ok q sold(3) unfolding sold(7)
    by (auto simp: engine_ok_def rec_ok_def [of "TradeRec _"] store_log intro!: stored_ok_upd)
qed simp

lemma engine_ok_transfer: "engine_ok e \<Longrightarrow> in64 (xfQtyMilli t) \<Longrightarrow> engine_ok (fst (IngestTransfer v t e))"
proof (cases rule: IngestTransfer_cases [of v t e])
  case (moved_in t1)
  assume "engine_ok e" "in64 (xfQtyMilli t)"
  moreover from moved_in(1) have "xfQtyMilli t1 = xfQtyMilli t" by simp
  ultimately show ?thesis using moved_in
    by (auto simp: engine_ok_def rec_ok_def queues_acquire store_log intro!: stored_ok_upd)
next
  case (moved_out t1 e1 b gl)
  assume ok: "engine_ok e" and q: "in64 (xfQtyMilli t)"
  have "queues_ok e1" using moved_out(5) ok q moved_out(1) queues_consume consumed
    by (metis engine_ok_def normal_transfer_fields(2,4))
  moreover have "trades e1 = trades e" "transfers e1 = transfers e" "ledger e1 = ledger e" "engLog e1 = engLog e"
    using moved_out(5) consumed by (metis consumeBasis_frame)+
  moreover from moved_out(1) have "xfQtyMilli t1 = xfQtyMilli t" by simp
  ultimately show ?thesis using ok q moved_out(3) unfolding moved_out(7) moved_out(6)
    by (auto simp: engine_ok_def rec_ok_def [of "TransferRec _"] store_log queues_wac intro!: stored_ok_upd)
qed simp

lemma engine_ok_fmv: "engine_ok e \<Longrightarrow> engine_ok (AddFMV v s e)"
  by (auto simp: engine_ok_def AddFMV_def Let_def append_rec_def add_snap_def queues_ok_def rec_ok_def)

lemma engine_ok_exec: "engine_ok e \<Longrightarrow> op_in64 x \<Longrightarrow> engine_ok (eng_exec x e)"
  by (cases x) (simp_all add: engine_ok_trade engine_ok_transfer engine_ok_fmv)

lemma engine_ok_run: "engine_ok e \<Longrightarrow> \<forall>x\<in>set xs. op_in64 x \<Longrightarrow> engine_ok (eng_run xs e)"
  by (induction xs arbitrary: e) (simp_all add: engine_ok_exec)

lemma engine_ok_books:
  "engine_ok e \<Longrightarrow> queues_ok e' \<Longrightarrow> trades e' = trades e \<Longrightarrow> transfers e' = transfers e \<Longrightarrow> ledger e' = ledger e \<Longrightarrow> engLog e' = engLog e \<Longrightarrow> engine_ok e'"
  by (simp add: engine_ok_def)

lemma engine_ok_add:
  "engine_ok e \<Longrightarrow> rec_ok (TradeRec t) \<Longrightarrow> engine_ok (e\<lparr>trades := (trades e)(tdID t \<mapsto> t)\<rparr>)"
  "engine_ok e \<Longrightarrow> rec_ok (TransferRec tr) \<Longrightarrow> engine_ok (e\<lparr>transfers := (transfers e)(xfID tr \<mapsto> tr)\<rparr>)"
  by (simp_all add: engine_ok_def stored_ok_upd)

lemma engine_ok_acquire: "engine_ok e \<Longrightarrow> in64 q \<Longrightarrow> 0 < q \<Longrightarrow> engine_ok (acquire t u a q d c e)"
  by (rule engine_ok_books) (simp_all add: queues_acquire engine_ok_def)

lemma engine_ok_dispose: "engine_ok e \<Longrightarrow> in64 q \<Longrightarrow> engine_ok (fst (consumeWAC t u a q (fst (consumeBasis t u a q e))))"
  by (rule engine_ok_books) (simp_all add: queues_wac queues_consume engine_ok_def)

lemma engine_ok_apply: "engine_ok e \<Longrightarrow> rec_ok r \<Longrightarrow> engine_ok (apply_rec r e)"
proof (cases r)
  case (TradeRec t)
  assume "engine_ok e" "rec_ok r"
  moreover from this TradeRec have "in64 (tdQtyMilli t)" "0 < tdQtyMilli t" by (simp_all add: rec_ok_def)
  ultimately show ?thesis using TradeRec
    by (simp add: apply_rec_def applyTrade_def Let_def engine_ok_add engine_ok_acquire engine_ok_dispose)
next
  case (TransferRec tr)
  assume "engine_ok e" "rec_ok r"
  moreover from this TransferRec have "in64 (xfQtyMilli tr)" "0 < xfQtyMilli tr" by (simp_all add: rec_ok_def)
  ultimately show ?thesis using TransferRec
    by (simp add: apply_rec_def applyTransfer_def Let_def engine_ok_add engine_ok_acquire engine_ok_dispose)
next
  case (FmvRec s)
  assume "engine_ok e"
  with FmvRec show ?thesis by (simp add: apply_rec_def add_snap_def engine_ok_def queues_ok_def)
next
  case (LedgerRec gl)
  assume "engine_ok e" "rec_ok r"
  with LedgerRec show ?thesis by (simp add: apply_rec_def engine_ok_def queues_ok_def)
qed

lemma apply_rec_log [simp]: "engLog (apply_rec r e) = engLog e"
  by (simp add: apply_rec_def applyTrade_def applyTransfer_def add_snap_def Let_def split: engineRec.splits)

lemma engine_ok_fold:
  "engine_ok e \<Longrightarrow> set rs \<subseteq> set (engLog e) \<Longrightarrow> engine_ok (fold apply_rec rs e)"
proof (induction rs arbitrary: e)
  case (Cons r rs)
  from Cons.prems have "rec_ok r" by (auto simp: engine_ok_def)
  then show ?case using Cons.IH [OF engine_ok_apply] Cons.prems by simp
qed simp

lemma engine_ok_restart:
  assumes "engine_ok e"
  shows "engine_ok (restart_engine fits opens e)"
proof -
  have "\<forall>r\<in>set (engLog e). rec_ok r" using assms by (simp add: engine_ok_def)
  then have "engine_ok (engine_replay fits (engLog e)
     \<lparr>trades = Map.empty, transfers = Map.empty, lots = \<lambda>_. [], wac = Map.empty, fmv = \<lambda>_. [], ledger = [], engLog = engLog e, engOpen = False\<rparr>)"
    unfolding engine_replay_def by (intro engine_ok_fold) (auto simp: engine_ok_def queues_ok_def dest: set_takeWhileD)
  then show ?thesis by (simp add: restart_engine_def NewEngine_def engine_ok_def queues_ok_def)
qed

lemma engine_ok_fresh: "engine_ok fresh_engine"
  by (simp add: engine_ok_def queues_ok_def)

section \<open>Reconstruction from the log\<close>

definition same_books :: "Engine \<Rightarrow> Engine \<Rightarrow> bool" where
  "same_books e e' \<longleftrightarrow> trades e = trades e' \<and> transfers e = transfers e' \<and> lots e = lots e' \<and> fmv e = fmv e' \<and> ledger e = ledger e'"

lemma same_books_dispose:
  assumes "same_books e e'"
  shows "same_books (fst (consumeWAC t u a q (fst (consumeBasis t u a q e)))) (fst (consumeBasis t u a q e'))"
  using assms consumeBasis_lots [of e e' t u a q] by (simp add: same_books_def)

lemma same_books_acquire: "same_books e e' \<Longrightarrow> same_books (acquire t u a q d c e) (acquire t u a q d c e')"
  using acquire_lots [of e e' t u a q d c] by (simp add: same_books_def)

lemma same_books_upd:
  "same_books e e' \<Longrightarrow> same_books (e\<lparr>trades := x\<rparr>) (e'\<lparr>trades := x\<rparr>)"
  "same_books e e' \<Longrightarrow> same_books (e\<lparr>transfers := y\<rparr>) (e'\<lparr>transfers := y\<rparr>)"
  by (simp_all add: same_books_def)

text \<open>The log of a running engine rebuilds its books.\<close>

definition blank :: Engine where
  "blank = \<lparr>trades = Map.empty, transfers = Map.empty, lots = \<lambda>_. [], wac = Map.empty, fmv = \<lambda>_. [], ledger = [], engLog = [], engOpen = False\<rparr>"

definition logged :: "Engine \<Rightarrow> bool" where
  "logged e \<longleftrightarrow> engOpen e \<and> same_books (fold apply_rec (engLog e) blank) e"

lemma loggedI:
  "engOpen e' \<Longrightarrow> engLog e' = lg @ rs \<Longrightarrow> same_books (fold apply_rec rs (fold apply_rec lg blank)) e' \<Longrightarrow> logged e'"
  by (simp add: logged_def)

text \<open>A clean request: its writes reach the log, and a sale is relieved by FIFO.\<close>

fun clean_eng_op :: "eng_op \<Rightarrow> bool" where
  "clean_eng_op (OpTrade v t meth) \<longleftrightarrow> egWrite1 v \<and> egWrite2 v \<and> (Side t = ''sell'' \<longrightarrow> meth \<noteq> ''wac'')"
| "clean_eng_op (OpTransfer v tr) \<longleftrightarrow> egWrite1 v \<and> egWrite2 v"
| "clean_eng_op (OpFMV v s) \<longleftrightarrow> egWrite1 v"

lemma logged_trade:
  assumes "logged e" "clean_eng_op (OpTrade v t meth)"
  shows "logged (fst (IngestTrade v t meth e))"
proof (cases rule: IngestTrade_cases [of v t meth e])
  case (bought t1)
  have "same_books (fold apply_rec [TradeRec t1] (fold apply_rec (engLog e) blank)) (fst (IngestTrade v t meth e))"
    using assms(1) bought(2,5) same_books_acquire unfolding bought(6)
    by (auto simp: logged_def apply_rec_def applyTrade_def Let_def same_books_def acquire_def store_trade_def append_rec_def)
  then show ?thesis
    using assms by (intro loggedI [where rs = "[TradeRec t1]"]) (simp_all add: bought(6) store_log logged_def)
next
  case (sold t1 e1 b m)
  from sold(1,2,5,6) assms(2) have cb: "consumeBasis (tdTenantID t1) (tdUserHash t1) (tdAsset t1) (tdQtyMilli t1) e = (e1, Inr b)"
    by (auto split: if_splits)
  let ?R = "fold apply_rec (engLog e) blank" and ?gl = "disposal_entry v t1 m (sub64 (amountKobo (tdQtyMilli t1) (tdPriceKobo t1)) (FeeKobo t1)) b"
  have R: "same_books ?R e" using assms(1) by (simp add: logged_def)
  then have "same_books (fst (consumeWAC (tdTenantID t1) (tdUserHash t1) (tdAsset t1) (tdQtyMilli t1)
      (fst (consumeBasis (tdTenantID t1) (tdUserHash t1) (tdAsset t1) (tdQtyMilli t1) (?R\<lparr>trades := (trades e)(tdID t1 \<mapsto> t1)\<rparr>)))))
      (fst (consumeBasis (tdTenantID t1) (tdUserHash t1) (tdAsset t1) (tdQtyMilli t1) (e\<lparr>trades := (trades e)(tdID t1 \<mapsto> t1)\<rparr>)))"
    by (intro same_books_dispose same_books_upd)
  moreover have "lots (fst (consumeBasis (tdTenantID t1) (tdUserHash t1) (tdAsset t1) (tdQtyMilli t1) (e\<lparr>trades := (trades e)(tdID t1 \<mapsto> t1)\<rparr>))) = lots e1"
    using consumeBasis_lots [of "e\<lparr>trades := (trades e)(tdID t1 \<mapsto> t1)\<rparr>" e] cb by (metis Engine.select_convs(3) Engine.surjective Engine.update_convs(1) fst_conv)
  ultimately have "same_books (fold apply_rec [TradeRec t1, LedgerRec ?gl] ?R) (fst (IngestTrade v t meth e))"
    using R sold(2,4) consumed(1) [OF cb] unfolding sold(7)
    by (auto simp: apply_rec_def applyTrade_def same_books_def Let_def)
  moreover have "engLog e1 = engLog e" "engOpen e1 = engOpen e" using consumed(1) [OF cb] by simp_all
  ultimately show ?thesis
    using assms by (intro loggedI [where rs = "[TradeRec t1, LedgerRec ?gl]"]) (simp_all add: sold(7) store_log logged_def)
qed (use assms in simp)

lemma logged_transfer:
  assumes "logged e" "clean_eng_op (OpTransfer v t)"
  shows "logged (fst (IngestTransfer v t e))"
proof (cases rule: IngestTransfer_cases [of v t e])
  case (moved_in t1)
  have "same_books (fold apply_rec [TransferRec t1] (fold apply_rec (engLog e) blank)) (fst (IngestTransfer v t e))"
    using assms(1) moved_in(2,4) unfolding moved_in(5)
    by (auto simp: logged_def apply_rec_def applyTransfer_def Let_def same_books_def acquire_def store_transfer_def append_rec_def)
  then show ?thesis
    using assms by (intro loggedI [where rs = "[TransferRec t1]"]) (simp_all add: moved_in(5) store_log logged_def)
next
  case (moved_out t1 e1 b gl)
  let ?R = "(fold apply_rec (engLog e) blank)\<lparr>ledger := ledger e @ [gl]\<rparr>" and ?E = "e\<lparr>ledger := ledger e @ [gl]\<rparr>"
  let ?cb = "consumeBasis (xfTenantID t1) (xfUserHash t1) (xfAsset t1) (xfQtyMilli t1)"
  have R: "same_books ?R ?E" and R0: "same_books (fold apply_rec (engLog e) blank) e" using assms(1) by (simp_all add: logged_def same_books_def)
  from R have "same_books (fst (consumeWAC (xfTenantID t1) (xfUserHash t1) (xfAsset t1) (xfQtyMilli t1)
      (fst (?cb (?R\<lparr>transfers := (transfers e)(xfID t1 \<mapsto> t1)\<rparr>))))) (fst (?cb (?E\<lparr>transfers := (transfers e)(xfID t1 \<mapsto> t1)\<rparr>)))"
    by (intro same_books_dispose same_books_upd)
  moreover have "lots (fst (?cb (?E\<lparr>transfers := (transfers e)(xfID t1 \<mapsto> t1)\<rparr>))) = lots e1"
    using consumeBasis_lots [of "?E\<lparr>transfers := (transfers e)(xfID t1 \<mapsto> t1)\<rparr>" e] moved_out(5) by simp
  ultimately have "same_books (fold apply_rec [LedgerRec gl, TransferRec t1] (fold apply_rec (engLog e) blank)) (fst (IngestTransfer v t e))"
    using R0 moved_out(2,4) consumed(1) [OF moved_out(5)] unfolding moved_out(7)
    by (auto simp: apply_rec_def applyTransfer_def same_books_def Let_def)
  moreover have "engLog e1 = engLog e" "engOpen e1 = engOpen e" using consumed(1) [OF moved_out(5)] by simp_all
  ultimately show ?thesis
    using assms by (intro loggedI [where rs = "[LedgerRec gl, TransferRec t1]"]) (simp_all add: moved_out(7) store_log logged_def)
qed (use assms in simp)

lemma logged_fmv: "logged e \<Longrightarrow> egWrite1 v \<Longrightarrow> logged (AddFMV v s e)"
  by (simp add: logged_def AddFMV_def Let_def append_rec_def add_snap_def apply_rec_def same_books_def)

lemma logged_exec: "logged e \<Longrightarrow> clean_eng_op x \<Longrightarrow> logged (eng_exec x e)"
  by (cases x) (auto intro: logged_trade logged_transfer logged_fmv)

lemma logged_run: "logged e \<Longrightarrow> \<forall>x\<in>set xs. clean_eng_op x \<Longrightarrow> logged (eng_run xs e)"
  by (induction xs arbitrary: e) (simp_all add: logged_exec)

lemma logged_fresh: "logged fresh_engine"
  by (simp add: logged_def same_books_def blank_def fun_eq_iff)

lemma apply_rec_same: "same_books e e' \<Longrightarrow> same_books (apply_rec r e) (apply_rec r e')"
  using consumeBasis_lots [of e e']
  by (cases r) (auto simp: apply_rec_def applyTrade_def applyTransfer_def add_snap_def same_books_def Let_def acquire_def consumeBasis_def split: prod.splits)

lemma fold_apply_same: "same_books e e' \<Longrightarrow> same_books (fold apply_rec rs e) (fold apply_rec rs e')"
  by (induction rs arbitrary: e e') (simp_all add: apply_rec_same)

lemma restart_logged:
  assumes "logged e" "\<forall>r\<in>set (engLog e). fits r"
  shows "same_books (restart_engine fits opens e) e"
proof -
  let ?b = "\<lparr>trades = Map.empty, transfers = Map.empty, lots = \<lambda>_. [], wac = Map.empty, fmv = \<lambda>_. [], ledger = [], engLog = engLog e, engOpen = False\<rparr>"
  have "same_books (fold apply_rec (engLog e) ?b) (fold apply_rec (engLog e) blank)"
    by (rule fold_apply_same) (simp add: same_books_def blank_def)
  moreover have "takeWhile fits (engLog e) = engLog e" using assms(2) by (simp add: takeWhile_eq_all_conv)
  ultimately show ?thesis
    using assms(1) by (simp add: restart_engine_def NewEngine_def engine_replay_def logged_def same_books_def del: takeWhile_eq_all_conv)
qed

section \<open>The ring fence\<close>

definition asset_total :: "string \<Rightarrow> GainLossEntry list \<Rightarrow> int" where
  "asset_total a gls = (\<Sum>gl\<leftarrow>filter (\<lambda>gl. glAsset gl = a) gls. GainLoss gl)"

definition gains :: "GainLossEntry list \<Rightarrow> int" where
  "gains gls = (\<Sum>gl\<leftarrow>gls. max 0 (GainLoss gl))"

definition losses :: "GainLossEntry list \<Rightarrow> int" where
  "losses gls = (\<Sum>gl\<leftarrow>gls. max 0 (- GainLoss gl))"

lemma gains_losses: "gains gls - losses gls = (\<Sum>gl\<leftarrow>gls. GainLoss gl)"
  by (induction gls) (auto simp: gains_def losses_def)

lemma gains_nonneg: "0 \<le> gains gls" "0 \<le> losses gls"
  by (auto simp: gains_def losses_def intro!: sum_list_nonneg)

lemma ring_add_totals:
  "in64 (GrossGains r) \<Longrightarrow> GrossGains (fold ring_add gls r) = wrap64 (GrossGains r + gains gls)"
  "in64 (GrossLosses r) \<Longrightarrow> GrossLosses (fold ring_add gls r) = wrap64 (GrossLosses r + losses gls)"
proof (induction gls arbitrary: r)
  case (Cons gl gls)
  {
    case 1
    have "GrossGains (ring_add gl r) = wrap64 (GrossGains r + max 0 (GainLoss gl))"
      using 1 by (auto simp: ring_add_def Let_def add64_def wrap64_id)
    then show ?case using Cons(1) [of "ring_add gl r"] by (simp add: gains_def add.assoc)
  next
    case 2
    have "GrossLosses (ring_add gl r) = wrap64 (GrossLosses r + max 0 (- GainLoss gl))"
      using 2 by (auto simp: ring_add_def Let_def add64_def neg64_def wrap64_id)
    then show ?case using Cons(2) [of "ring_add gl r"] by (simp add: losses_def add.assoc)
  }
qed (simp_all add: gains_def losses_def wrap64_id)

lemma asset_total_Cons: "asset_total a (gl # gls) = (if glAsset gl = a then GainLoss gl else 0) + asset_total a gls"
  by (simp add: asset_total_def)

lemma asset_total_absent: "a \<notin> glAsset ` set gls \<Longrightarrow> asset_total a gls = 0"
  by (induction gls) (auto simp: asset_total_Cons, simp add: asset_total_def)

lemma asset_total_bounds: "- losses gls \<le> asset_total a gls" "asset_total a gls \<le> gains gls"
  by (induction gls) (auto simp: asset_total_def gains_def losses_def)

lemma asset_total_fits: "in64 (gains gls) \<Longrightarrow> in64 (losses gls) \<Longrightarrow> in64 (asset_total a gls)"
  using asset_total_bounds [where gls = gls and a = a] by (auto simp: in64_def)

lemma ring_add_asset:
  "(\<And>x. PerAsset r a = Some x \<Longrightarrow> in64 x) \<Longrightarrow> PerAsset (fold ring_add gls r) a =
     (if a \<in> glAsset ` set gls then Some (wrap64 ((case PerAsset r a of None \<Rightarrow> 0 | Some x \<Rightarrow> x) + asset_total a gls)) else PerAsset r a)"
proof (induction gls arbitrary: r)
  case (Cons gl gls)
  have step: "PerAsset (ring_add gl r) a =
      (if glAsset gl = a then Some (wrap64 ((case PerAsset r a of None \<Rightarrow> 0 | Some x \<Rightarrow> x) + GainLoss gl)) else PerAsset r a)"
    by (simp add: ring_add_def Let_def add64_def)
  have "in64 x" if "PerAsset (ring_add gl r) a = Some x" for x
    using that Cons.prems by (auto simp: step split: if_splits)
  from Cons.IH [of "ring_add gl r", OF this] show ?case
    using asset_total_absent [of a gls] by (auto simp: step asset_total_Cons add.assoc split: option.splits)
qed simp

lemma fold_if_filter: "fold (\<lambda>x r. if P x then f x r else r) xs r = fold f (filter P xs) r"
  by (induction xs arbitrary: r) auto

lemma RingFence_totals:
  assumes "G = filter (fenced tenant user period) (ledger e)" "in64 (gains G)" "in64 (losses G)"
    and "res = RingFence tenant user period e"
  shows "GrossGains res = gains G \<and> GrossLosses res = losses G \<and>
     NetRingFenced res = (\<Sum>gl\<leftarrow>G. GainLoss gl) \<and>
     TaxableGain res = max 0 (\<Sum>gl\<leftarrow>G. GainLoss gl) \<and> CarryForward res = max 0 (- (\<Sum>gl\<leftarrow>G. GainLoss gl)) \<and>
     (\<forall>a. PerAsset res a = (if a \<in> glAsset ` set G then Some (wrap64 (asset_total a G)) else None))"
proof -
  define res0 where "res0 = \<lparr>rfTenantID = tenant, rfUserHash = user, rfPeriod = period, GrossGains = 0, GrossLosses = 0,
     NetRingFenced = 0, TaxableGain = 0, CarryForward = 0, PerAsset = Map.empty, RuleRef = ''rp-nta-digital-assets:vasp.ringfence''\<rparr>"
  define res1 where "res1 = fold ring_add G res0"
  have g: "GrossGains res1 = gains G" "GrossLosses res1 = losses G"
    using ring_add_totals [of res0 G] assms(2,3) by (simp_all add: res1_def res0_def wrap64_id)
  have a: "PerAsset res1 a = (if a \<in> glAsset ` set G then Some (wrap64 (asset_total a G)) else None)" for a
    using ring_add_asset [of res0 a G] by (simp add: res1_def res0_def)
  have keep: "TaxableGain (fold ring_add gls r) = TaxableGain r" "CarryForward (fold ring_add gls r) = CarryForward r" for gls r
    by (induction gls arbitrary: r) (simp_all add: ring_add_def Let_def)
  have z: "TaxableGain res1 = 0" "CarryForward res1 = 0" by (simp_all add: res1_def keep) (simp_all add: res0_def)
  have net: "in64 (gains G - losses G)" "in64 (losses G - gains G)" using assms(2,3) gains_nonneg [of G] by (auto simp: in64_def)
  then have "sub64 (gains G) (losses G) = gains G - losses G" "neg64 (gains G - losses G) = losses G - gains G"
    by (simp_all add: sub64_exact neg64_def wrap64_id)
  then have "res = (let res2 = res1\<lparr>NetRingFenced := gains G - losses G\<rparr>
      in if gains G - losses G > 0 then res2\<lparr>TaxableGain := gains G - losses G\<rparr> else res2\<lparr>CarryForward := losses G - gains G\<rparr>)"
    unfolding assms(4) RingFence_def fold_if_filter Let_def assms(1) [symmetric] res0_def [symmetric] res1_def [symmetric] g by simp
  then show ?thesis using g a z unfolding gains_losses [symmetric] by (auto simp: Let_def)
qed

section \<open>Relief by two methods\<close>

text \<open>
  A sale relieves either the lots or the average, never both, while the replay relieves both. One
  purchase can therefore be sold twice, and the average position differs after a restart.
\<close>

lemma one_lot:
  assumes "lots e (key3 t u a) = [\<lparr>ltQtyMilli = q, CostPerUnit = c, AcquiredAt = d\<rparr>]" "0 < q" "in64 q"
  shows "consumeBasis t u a q e = (e\<lparr>lots := (lots e)(key3 t u a := [])\<rparr>, Inr (add64 0 (amountKobo q c)))"
  using assms by (simp add: consumeBasis_def Let_def sum64_def relieve_whole relieve_done)

lemma whole_average:
  assumes "wac e (key3 t u a) = Some \<lparr>wcQtyMilli = q, CostTotal = c\<rparr>" "0 < q" "in64 q" "0 \<le> c" "in64 c" "in64 (c * q)"
  shows "consumeWAC t u a q e = (e\<lparr>wac := (wac e)(key3 t u a \<mapsto> \<lparr>wcQtyMilli = 0, CostTotal = 0\<rparr>)\<rparr>, Inr c)"
  using consumeWAC_takes [of e t u a, OF assms(1)] assms by simp

lemma sell_fifo:
  assumes "Side s = ''sell''" "0 < tdQtyMilli s" "0 \<le> tdPriceKobo s" "tdID s \<noteq> ''''" "trades e (tdID s) = None"
    and "consumeBasis (tdTenantID s) (tdUserHash s) (tdAsset s) (tdQtyMilli s) e = (e1, Inr b)"
  shows "\<exists>gl t. IngestTrade v s ''fifo'' e = (store_entry (egWrite2 v) gl (store_trade (egWrite1 v) t e1), t, Inr (Some gl)) \<and> Basis gl = b \<and> t = dated_trade v s"
  using assms by (simp add: IngestTrade_def named_trade_def Let_def bookDisposal_def disposal_entry_def)

lemma sell_wac:
  assumes "Side s = ''sell''" "0 < tdQtyMilli s" "0 \<le> tdPriceKobo s" "tdID s \<noteq> ''''" "trades e (tdID s) = None"
  shows "consumeWAC (tdTenantID s) (tdUserHash s) (tdAsset s) (tdQtyMilli s) e = (e1, Inr b) \<Longrightarrow>
      \<exists>gl. snd (snd (IngestTrade v s ''wac'' e)) = Inr (Some gl) \<and> Basis gl = b"
    and "consumeWAC (tdTenantID s) (tdUserHash s) (tdAsset s) (tdQtyMilli s) e = (e1, Inl err) \<Longrightarrow>
      snd (snd (IngestTrade v s ''wac'' e)) = Inl err"
  using assms by (simp_all add: IngestTrade_def named_trade_def Let_def bookDisposal_def disposal_entry_def)

lemma replayed_sale:
  assumes "Side t = ''sell''" "trades e (tdID t) = None" "k = key3 (tdTenantID t) (tdUserHash t) (tdAsset t)"
    and "lots e k = [\<lparr>ltQtyMilli = tdQtyMilli t, CostPerUnit = p, AcquiredAt = d\<rparr>]" "wac e k = Some \<lparr>wcQtyMilli = tdQtyMilli t, CostTotal = c\<rparr>"
    and "0 < tdQtyMilli t" "in64 (tdQtyMilli t)" "0 \<le> c" "in64 c" "in64 (c * tdQtyMilli t)"
  shows "trades (applyTrade t e) = (trades e)(tdID t \<mapsto> t)" "wac (applyTrade t e) k = Some \<lparr>wcQtyMilli = 0, CostTotal = 0\<rparr>"
  using assms by (simp_all add: applyTrade_def Let_def one_lot whole_average)

lemma first_purchase:
  assumes "lots e (key3 t u a) = []" "wac e (key3 t u a) = None" "in64 q" "amountKobo q p = c" "in64 c"
  shows "lots (acquire t u a q d p e) (key3 t u a) = [\<lparr>ltQtyMilli = q, CostPerUnit = p, AcquiredAt = d\<rparr>]"
    "wac (acquire t u a q d p e) (key3 t u a) = Some \<lparr>wcQtyMilli = q, CostTotal = c\<rparr>"
  using assms by (simp_all add: acquire_def Let_def)

lemma price_total:
  assumes "0 \<le> q" "0 \<le> p" "in64 (q * p)"
  shows "amountKobo q p = q * p div 1000" "0 \<le> q * p div 1000" "in64 (q * p div 1000)"
proof -
  have "0 \<le> q * p" using assms by simp
  then show "0 \<le> q * p div 1000" "in64 (q * p div 1000)"
    using assms(3) int_div_le_self [of "q * p" 1000] by (auto simp: in64_def pos_imp_zdiv_nonneg_iff)
  show "amountKobo q p = q * p div 1000" using assms by (simp add: amountKobo_exact)
qed

lemma sold_twice:
  assumes b: "Side b = ''buy''" "tdID b \<noteq> ''''" "0 < tdQtyMilli b" "0 \<le> tdPriceKobo b" "in64 (tdQtyMilli b)" "in64 (tdQtyMilli b * tdPriceKobo b)"
    and c: "c = tdQtyMilli b * tdPriceKobo b div 1000" "in64 (c * tdQtyMilli b)"
    and s: "\<forall>s\<in>{s1, s2}. Side s = ''sell'' \<and> tdID s \<notin> {'''', tdID b} \<and> tdQtyMilli s = tdQtyMilli b \<and> 0 \<le> tdPriceKobo s \<and>
        tdTenantID s = tdTenantID b \<and> tdUserHash s = tdUserHash b \<and> tdAsset s = tdAsset b"
    and d: "tdID s1 \<noteq> tdID s2" and w: "egWrite1 v" "egWrite2 v"
    and e: "e = eng_run [OpTrade v b m, OpTrade v s1 ''fifo''] fresh_engine"
  shows "(\<exists>gl. ledger e = [gl] \<and> Basis gl = c) \<and> lots e (key3 (tdTenantID b) (tdUserHash b) (tdAsset b)) = [] \<and>
     (\<exists>gl. snd (snd (IngestTrade v s2 ''wac'' e)) = Inr (Some gl) \<and> Basis gl = c) \<and>
     (\<exists>err. snd (snd (IngestTrade v s2 ''wac'' (restart_engine (\<lambda>_. True) True e))) = Inl err)"
proof -
  let ?k = "key3 (tdTenantID b) (tdUserHash b) (tdAsset b)" and ?q = "tdQtyMilli b" and ?t = "dated_trade v b"
  have f1: "Side s1 = ''sell''" "tdID s1 \<noteq> ''''" "tdID s1 \<noteq> tdID b" "tdQtyMilli s1 = ?q" "0 \<le> tdPriceKobo s1"
    "tdTenantID s1 = tdTenantID b" "tdUserHash s1 = tdUserHash b" "tdAsset s1 = tdAsset b"
   and f2: "Side s2 = ''sell''" "tdID s2 \<noteq> ''''" "tdID s2 \<noteq> tdID b" "tdQtyMilli s2 = ?q" "0 \<le> tdPriceKobo s2"
    "tdTenantID s2 = tdTenantID b" "tdUserHash s2 = tdUserHash b" "tdAsset s2 = tdAsset b"
    using s by simp_all
  have c0: "amountKobo ?q (tdPriceKobo b) = c" "0 \<le> c" "in64 c"
    using price_total [OF _ b(4,6)] b(3) c(1) by simp_all
  define e1 where "e1 = eng_exec (OpTrade v b m) fresh_engine"
  have e1: "e1 = store_trade True ?t (acquire (tdTenantID b) (tdUserHash b) (tdAsset b) ?q (TradedAt ?t) (tdPriceKobo b) fresh_engine)"
    using b w by (simp add: e1_def IngestTrade_def named_trade_def Let_def)
  have e1s: "trades e1 = [tdID b \<mapsto> ?t]" "ledger e1 = []" "engLog e1 = [TradeRec ?t]" "engOpen e1"
    "lots e1 ?k = [\<lparr>ltQtyMilli = ?q, CostPerUnit = tdPriceKobo b, AcquiredAt = TradedAt ?t\<rparr>]"
    "wac e1 ?k = Some \<lparr>wcQtyMilli = ?q, CostTotal = c\<rparr>"
    using b c0 first_purchase by (simp_all add: e1 store_log)
  from one_lot [OF e1s(5)] b c0 have cb: "consumeBasis (tdTenantID s1) (tdUserHash s1) (tdAsset s1) (tdQtyMilli s1) e1 = (e1\<lparr>lots := (lots e1)(?k := [])\<rparr>, Inr c)"
    using f1 by simp
  obtain gl where gl: "eng_exec (OpTrade v s1 ''fifo'') e1 =
      store_entry True gl (store_trade True (dated_trade v s1) (e1\<lparr>lots := (lots e1)(?k := [])\<rparr>))" "Basis gl = c"
    using sell_fifo [OF f1(1) _ f1(5,2) _ cb, of v] e1s f1 b w by auto
  have e2: "e = store_entry True gl (store_trade True (dated_trade v s1) (e1\<lparr>lots := (lots e1)(?k := [])\<rparr>))"
    using gl(1) by (simp add: e e1_def)
  have e2s: "trades e = [tdID b \<mapsto> ?t, tdID s1 \<mapsto> dated_trade v s1]" "ledger e = [gl]" "lots e ?k = []" "wac e ?k = Some \<lparr>wcQtyMilli = ?q, CostTotal = c\<rparr>"
    "engLog e = [TradeRec ?t, TradeRec (dated_trade v s1), LedgerRec gl]"
    using e1s by (simp_all add: e2 store_log)
  have sell2: "\<exists>gl. snd (snd (IngestTrade v s2 ''wac'' e)) = Inr (Some gl) \<and> Basis gl = c"
    using sell_wac(1) [OF f2(1) _ f2(5,2)] whole_average [OF e2s(4)] b c c0 f2 e2s(1) d by auto
  define r where "r = restart_engine (\<lambda>_. True) True e"
  define r1 where "r1 = applyTrade ?t (blank\<lparr>engLog := engLog e\<rparr>)"
  have r1s: "trades r1 = [tdID b \<mapsto> ?t]" "lots r1 ?k = [\<lparr>ltQtyMilli = ?q, CostPerUnit = tdPriceKobo b, AcquiredAt = TradedAt ?t\<rparr>]"
    "wac r1 ?k = Some \<lparr>wcQtyMilli = ?q, CostTotal = c\<rparr>"
    using b c0 first_purchase by (simp_all add: r1_def applyTrade_def blank_def Let_def)
  have "r = apply_rec (LedgerRec gl) (applyTrade (dated_trade v s1) r1)\<lparr>engOpen := True\<rparr>"
    by (simp add: r_def restart_engine_def NewEngine_def engine_replay_def e2s(5) apply_rec_def r1_def blank_def)
  then have rs: "trades r = [tdID b \<mapsto> ?t, tdID s1 \<mapsto> dated_trade v s1]" "wac r ?k = Some \<lparr>wcQtyMilli = 0, CostTotal = 0\<rparr>"
    using replayed_sale [of "dated_trade v s1" r1 ?k] r1s f1 b c c0 by (simp_all add: apply_rec_def)
  then have "\<exists>err. snd (snd (IngestTrade v s2 ''wac'' r)) = Inl err"
    using sell_wac(2) [OF f2(1) _ f2(5,2)] f2 b d by (auto simp: consumeWAC_def)
  with sell2 e2s gl(2) show ?thesis by (simp add: r_def)
qed

section \<open>Reachable engines\<close>

inductive eng_reach :: "Engine \<Rightarrow> bool" where
  start: "eng_reach fresh_engine"
| request: "eng_reach e \<Longrightarrow> op_in64 x \<Longrightarrow> eng_reach (eng_exec x e)"
| restarted: "eng_reach e \<Longrightarrow> eng_reach (restart_engine fits opens e)"

lemma reach_ok: "eng_reach e \<Longrightarrow> engine_ok e"
  by (induction rule: eng_reach.induct) (simp_all add: engine_ok_fresh engine_ok_exec engine_ok_restart)

lemma reach_run: "eng_reach e \<Longrightarrow> \<forall>x\<in>set xs. op_in64 x \<Longrightarrow> eng_reach (eng_run xs e)"
  by (induction xs arbitrary: e) (simp_all add: eng_reach.request)

end
