(* ===== verification/Vasp_Guarantees.thy ===== *)
theory Vasp_Guarantees
  imports Vasp_Carf Vasp_Ledger
begin

text \<open>
  Guarantees of the VASP service over sequences of requests and restarts: what can be transmitted
  (\<open>carf_ok\<close>, \<open>shut\<close>), what a message reports, and what a restart rebuilds.
\<close>

section \<open>Requests\<close>

datatype vasp_op =
    VTrade eng_env "Trade option" string
  | VXfer eng_env "VTransfer option"
  | VFmv eng_env "FMVSnapshot option"
  | VBuild build_env bool "(string \<times> string) option"
  | VCorrect build_env bool bool string string
  | VTransmit gate_env gate_env gate_env bool "string option"
  | VGates gate_env
  | VFlip gate_write VClaims string "bool option"
  | VRestart "engineRec \<Rightarrow> bool" "CARFRecord \<Rightarrow> bool" bool bool

fun status_of :: "'a response \<Rightarrow> nat" where
  "status_of (Problem n _) = n"
| "status_of (Reply n _) = n"

definition restart_vasp :: "(engineRec \<Rightarrow> bool) \<Rightarrow> (CARFRecord \<Rightarrow> bool) \<Rightarrow> bool \<Rightarrow> bool \<Rightarrow> VService \<Rightarrow> VService" where
  "restart_vasp fits cfits o1 o2 s = boot fits cfits o1 o2 (engLog (vsEngine s)) (cfLog (vsCarf s)) (gateFile (vsGates s)) (vsPacks s)"

fun vasp_exec :: "vasp_op \<Rightarrow> VService \<Rightarrow> VService \<times> nat" where
  "vasp_exec (VTrade v b meth) s = map_prod id status_of (handleIngestTrade v b meth s)"
| "vasp_exec (VXfer v b) s = map_prod id status_of (handleIngestTransfer v b s)"
| "vasp_exec (VFmv v b) s = map_prod id status_of (handleAddFMV v b s)"
| "vasp_exec (VBuild v ok b) s = map_prod id status_of (handleCARFBuild v ok b s)"
| "vasp_exec (VCorrect v ok1 ok2 i reason) s = map_prod id status_of (handleCARFCorrect v ok1 ok2 i reason s)"
| "vasp_exec (VTransmit v1 v2 v3 ok b) s = map_prod id status_of (handleCARFTransmit v1 v2 v3 ok b s)"
| "vasp_exec (VGates v) s = map_prod id status_of (handleGates v s)"
| "vasp_exec (VFlip o1 c i b) s = map_prod id status_of (handleGateFlip o1 c i b s)"
| "vasp_exec (VRestart fits cfits o1 o2) s = (restart_vasp fits cfits o1 o2 s, 200)"

definition vasp_run :: "vasp_op list \<Rightarrow> VService \<Rightarrow> VService" where
  "vasp_run xs s = fold (\<lambda>x s. fst (vasp_exec x s)) xs s"

lemma vasp_run_simps [simp]: "vasp_run [] s = s" "vasp_run (x # xs) s = vasp_run xs (fst (vasp_exec x s))"
  by (simp_all add: vasp_run_def)

definition fresh_vasp :: "vpacks \<Rightarrow> VService" where
  "fresh_vasp packs = boot (\<lambda>_. True) (\<lambda>_. True) True True [] [] None packs"

text \<open>What the requests leave alone.\<close>

lemma upd_carf_simps [simp]:
  "vsEngine (upd_carf c s) = vsEngine s" "vsPacks (upd_carf c s) = vsPacks s" "vsGates (upd_carf c s) = vsGates s" "vsCarf (upd_carf c s) = c"
  by (simp_all add: upd_carf_def)

lemma ingest_frame [simp]:
  "vsCarf (fst (handleIngestTrade v b meth s)) = vsCarf s" "vsGates (fst (handleIngestTrade v b meth s)) = vsGates s"
  "vsPacks (fst (handleIngestTrade v b meth s)) = vsPacks s"
  "vsCarf (fst (handleIngestTransfer v b2 s)) = vsCarf s" "vsGates (fst (handleIngestTransfer v b2 s)) = vsGates s"
  "vsPacks (fst (handleIngestTransfer v b2 s)) = vsPacks s"
  "vsCarf (fst (handleAddFMV v b3 s)) = vsCarf s" "vsGates (fst (handleAddFMV v b3 s)) = vsGates s"
  "vsPacks (fst (handleAddFMV v b3 s)) = vsPacks s"
  by (auto simp: handleIngestTrade_def handleIngestTransfer_def handleAddFMV_def split: option.splits prod.splits sum.splits)

lemma gate_frame [simp]:
  "vsCarf (fst (handleGates v s)) = vsCarf s" "vsEngine (fst (handleGates v s)) = vsEngine s" "vsPacks (fst (handleGates v s)) = vsPacks s"
  "vsCarf (fst (handleGateFlip o1 c i b s)) = vsCarf s" "vsEngine (fst (handleGateFlip o1 c i b s)) = vsEngine s"
  "vsPacks (fst (handleGateFlip o1 c i b s)) = vsPacks s"
  by (auto simp: handleGates_def handleGateFlip_def split: option.splits prod.splits bool.splits)

lemma gate_effects:
  "vsGates (fst (handleGates v s)) = fst (Gates v (vsGates s))"
  "vsGates (fst (handleGateFlip o1 c i b s)) =
     (case b of Some op \<Rightarrow> if hasRole c ''admin'' then fst (SetLocal o1 i op (vsGates s)) else vsGates s | None \<Rightarrow> vsGates s)"
  by (auto simp: handleGates_def handleGateFlip_def split: option.splits prod.splits bool.splits)

lemma build_frame [simp]:
  "vsEngine (fst (handleCARFBuild v ok b s)) = vsEngine s" "vsGates (fst (handleCARFBuild v ok b s)) = vsGates s" "vsPacks (fst (handleCARFBuild v ok b s)) = vsPacks s"
  "vsEngine (fst (handleCARFCorrect v ok1 ok2 i x s)) = vsEngine s" "vsGates (fst (handleCARFCorrect v ok1 ok2 i x s)) = vsGates s"
  "vsPacks (fst (handleCARFCorrect v ok1 ok2 i x s)) = vsPacks s"
  by (auto simp: handleCARFBuild_def handleCARFCorrect_def Let_def split: option.splits prod.splits bool.splits)

lemma transmit_frame [simp]:
  "vsEngine (fst (handleCARFTransmit v1 v2 v3 ok b s)) = vsEngine s" "vsPacks (fst (handleCARFTransmit v1 v2 v3 ok b s)) = vsPacks s"
  by (auto simp: handleCARFTransmit_def Let_def split: option.splits prod.splits bool.splits)

section \<open>Gates\<close>

text \<open>When a freshly read gate is open: reg-watch lists it as open, or it does not list it and the file says so.\<close>

lemma fold_reg:
  "fold (\<lambda>(i, op, note) m. m(i \<mapsto> f i op note)) gs m0 j = Some st \<Longrightarrow> m0 j = Some st \<or> (\<exists>op note. (j, op, note) \<in> set gs \<and> st = f j op note)"
  by (induction gs arbitrary: m0) (auto split: if_splits, (metis (mono_tags, lifting) fun_upd_apply option.inject)+)

lemma fold_local:
  "fold (\<lambda>(i, op) m. if m i = None then m(i \<mapsto> f i op) else m) l m0 j = Some st \<Longrightarrow> m0 j = Some st \<or> (m0 j = None \<and> (\<exists>op. (j, op) \<in> set l \<and> st = f j op))"
proof (induction l arbitrary: m0)
  case (Cons x l)
  obtain i op where x: "x = (i, op)" by force
  show ?case using Cons.IH [of "if m0 i = None then m0(i \<mapsto> f i op) else m0"] Cons.prems
    by (auto simp: x split: if_splits)
qed simp

lemma fold_default:
  "fold (\<lambda>i m. if m i = None then m(i \<mapsto> f i) else m) l m0 j = Some st \<Longrightarrow> m0 j = Some st \<or> st = f j"
proof (induction l arbitrary: m0)
  case (Cons i l)
  show ?case using Cons.IH [of "if m0 i = None then m0(i \<mapsto> f i) else m0"] Cons.prems by (auto split: if_splits)
qed simp

lemma refresh_open:
  assumes "refresh v file i = Some st" "gtOpen st"
  shows "(\<exists>gs note. gnReg v = Some gs \<and> (i, True, note) \<in> set gs) \<or> (\<exists>l. file = Some l \<and> (i, True) \<in> set l)"
proof -
  let ?r = "\<lambda>i op note. \<lparr>gtID = i, gtOpen = op, gtSource = ''reg-watch'', gtNote = note, gtUpdated = gnNow v\<rparr>"
  let ?l = "\<lambda>i op. \<lparr>gtID = i, gtOpen = op, gtSource = ''local-file'', gtNote = '''', gtUpdated = gnNow v\<rparr>"
  let ?d = "\<lambda>i. \<lparr>gtID = i, gtOpen = False, gtSource = ''default'', gtNote = ''fail-safe closed'', gtUpdated = gnNow v\<rparr>"
  let ?o1 = "fold (\<lambda>(i, op, note) m. m(i \<mapsto> ?r i op note)) (case gnReg v of None \<Rightarrow> [] | Some gs \<Rightarrow> gs) Map.empty"
  let ?o2 = "fold (\<lambda>(i, op) m. if m i = None then m(i \<mapsto> ?l i op) else m) (case file of None \<Rightarrow> [] | Some l \<Rightarrow> l) ?o1"
  have "fold (\<lambda>i m. if m i = None then m(i \<mapsto> ?d i) else m) default_gates ?o2 i = Some st"
    using assms(1) by (simp add: refresh_def Let_def)
  from fold_default [OF this] assms(2) have "?o2 i = Some st" by auto
  from fold_local [OF this] show ?thesis
  proof (elim disjE)
    assume "?o1 i = Some st"
    from fold_reg [OF this] assms(2) show ?thesis by (auto split: option.splits)
  qed (use assms(2) in \<open>auto split: option.splits\<close>)
qed

text \<open>A gate that is closed in the cache and not opened by the file.\<close>

definition shut :: "string \<Rightarrow> GateChecker \<Rightarrow> bool" where
  "shut i g \<longleftrightarrow> \<not> gate_open_in (cached g) i \<and> (\<forall>l. gateFile g = Some l \<longrightarrow> (i, True) \<notin> set l)"

definition env_shut :: "string \<Rightarrow> gate_env \<Rightarrow> bool" where
  "env_shut i v \<longleftrightarrow> (\<forall>gs note. gnReg v = Some gs \<longrightarrow> (i, True, note) \<notin> set gs)"

lemma shut_Gates: "shut i g \<Longrightarrow> env_shut i v \<Longrightarrow> shut i (fst (Gates v g)) \<and> \<not> gate_open_in (snd (Gates v g)) i"
  using refresh_open [of v "gateFile g" i]
  by (auto simp: shut_def env_shut_def Gates_def Let_def gate_open_in_def split: option.splits)

lemma GateOpen_eq: "GateOpen v i g = (fst (Gates v g), gate_open_in (snd (Gates v g)) i)"
  by (simp add: GateOpen_def gate_open_in_def split: prod.splits)

lemma shut_Open: "shut i g \<Longrightarrow> env_shut i v \<Longrightarrow> shut i (fst (GateOpen v j g)) \<and> \<not> snd (GateOpen v i g)"
  using shut_Gates by (simp add: GateOpen_eq)

lemma update_mem: "(i, True) \<in> set (AList.update j op l) \<Longrightarrow> (i, True) \<in> set l \<or> (j = i \<and> op)"
  by (induction l) (auto split: if_splits)

lemma shut_SetLocal: "shut i g \<Longrightarrow> \<not> (j = i \<and> op) \<Longrightarrow> shut i (fst (SetLocal o1 j op g))"
  by (cases o1) (auto simp: shut_def SetLocal_def Let_def dest!: update_mem split: option.splits)

section \<open>Messages\<close>

definition msgs_all :: "(CARFRecord \<Rightarrow> bool) \<Rightarrow> CARFStore \<Rightarrow> bool" where
  "msgs_all P st \<longleftrightarrow> (\<forall>i r. cfRecords st i = Some r \<longrightarrow> cfID r = i \<and> P r) \<and> (\<forall>r\<in>set (cfLog st). P r)"

lemma msgs_all_poke: "msgs_all P st \<Longrightarrow> P r \<Longrightarrow> msgs_all P (poke_record r st)"
  unfolding msgs_all_def poke_record_def by (auto split: if_splits)

lemma msgs_all_add: "msgs_all P st \<Longrightarrow> P r \<Longrightarrow> msgs_all P (fst (AddRecord ok r st))"
  unfolding msgs_all_def AddRecord_def by (auto simp: Let_def split: if_splits)

lemma msgs_all_get: "msgs_all P st \<Longrightarrow> GetRecord i st = Some r \<Longrightarrow> cfID r = i \<and> P r"
  by (simp add: msgs_all_def GetRecord_def)

lemma replay_mem: "fold (\<lambda>r m. if cfID r \<noteq> '''' then m(cfID r \<mapsto> r) else m) rs m0 i = Some x \<Longrightarrow> m0 i = Some x \<or> (x \<in> set rs \<and> cfID x = i)"
proof (induction rs arbitrary: m0)
  case (Cons r rs)
  show ?case using Cons.IH [of "if cfID r \<noteq> '''' then m0(cfID r \<mapsto> r) else m0"] Cons.prems by (auto split: if_splits)
qed simp

lemma msgs_all_replay: "msgs_all P st \<Longrightarrow> msgs_all P (NewCARFStore fits opens (cfLog st))"
proof -
  assume a: "msgs_all P st"
  have "cfID r = i \<and> P r" if "carf_replay fits (cfLog st) i = Some r" for i r
    using replay_mem [of "takeWhile fits (cfLog st)" Map.empty i r] that a set_takeWhileD [of r fits "cfLog st"]
    by (auto simp: carf_replay_def msgs_all_def)
  with a show ?thesis by (simp add: msgs_all_def NewCARFStore_def)
qed

text \<open>The outcomes of a request to transmit.\<close>

definition gates_seen :: "gate_env \<Rightarrow> gate_env \<Rightarrow> gate_env \<Rightarrow> GateChecker \<Rightarrow> bool" where
  "gates_seen v1 v2 v3 g =
     (let g1 = fst (Gates v1 g); g2 = fst (GateOpen v2 ''carf.transmit_enabled'' g1)
      in snd (GateOpen v2 ''carf.transmit_enabled'' g1) \<and> snd (GateOpen v3 ''carf.gate.changed'' g2))"

lemma transmit_cases:
  assumes "handleCARFTransmit v1 v2 v3 ok b s = (s', resp)"
  obtains (rejected) "vsCarf s' = vsCarf s" "status_of resp \<in> {400, 404, 422}" "status_of resp = 422 \<longrightarrow> gates_seen v1 v2 v3 (vsGates s)"
  | (refused) i r where "b = Some i" "GetRecord i (vsCarf s) = Some r" "\<not> gates_seen v1 v2 v3 (vsGates s)" "status_of resp = 423"
      "vsCarf s' = fst (AddRecord ok (r\<lparr>cfStatus := ''refused''\<rparr>) (poke_record (r\<lparr>cfStatus := ''refused''\<rparr>) (vsCarf s)))"
  | (sent) i r where "b = Some i" "GetRecord i (vsCarf s) = Some r" "gates_seen v1 v2 v3 (vsGates s)" "Validation r = []"
      "vsCarf s' = fst (AddRecord ok (r\<lparr>cfStatus := ''transmitted''\<rparr>) (poke_record (r\<lparr>cfStatus := ''transmitted''\<rparr>) (vsCarf s)))"
      "status_of resp = (if snd (AddRecord ok (r\<lparr>cfStatus := ''transmitted''\<rparr>) (poke_record (r\<lparr>cfStatus := ''transmitted''\<rparr>) (vsCarf s))) then 200 else 500)"
proof -
  consider "b = None" | i where "b = Some i" "GetRecord i (vsCarf s) = None" | i r where "b = Some i" "GetRecord i (vsCarf s) = Some r"
    by (metis option.exhaust)
  then show ?thesis
  proof cases
    case 1
    then show ?thesis using assms by (intro rejected) (auto simp: handleCARFTransmit_def)
  next
    case 2
    then show ?thesis using assms by (intro rejected) (auto simp: handleCARFTransmit_def)
  next
    case (3 i r)
    obtain g1 gs where g1: "Gates v1 (vsGates s) = (g1, gs)" by force
    obtain g2 o1 where g2: "GateOpen v2 ''carf.transmit_enabled'' g1 = (g2, o1)" by force
    obtain g3 o2 where g3: "GateOpen v3 ''carf.gate.changed'' g2 = (g3, o2)" by force
    have seen: "gates_seen v1 v2 v3 (vsGates s) = (o1 \<and> o2)" by (simp add: gates_seen_def Let_def g1 g2 g3)
    show ?thesis
    proof (cases "o1 \<and> o2")
      case False
      then show ?thesis using assms 3 seen by (intro refused [of i r]) (auto simp: handleCARFTransmit_def Let_def g1 g2 g3 split: if_splits)
    next
      case True
      show ?thesis
      proof (cases "Validation r = []")
        case False
        then show ?thesis using assms 3 seen True by (intro rejected) (auto simp: handleCARFTransmit_def Let_def g1 g2 g3)
      next
        case valid: True
        then show ?thesis using assms 3 seen True
          by (intro sent [of i r]) (auto simp: handleCARFTransmit_def Let_def g1 g2 g3 split: prod.splits bool.splits)
      qed
    qed
  qed
qed

lemma transmit_gates:
  "vsGates (fst (handleCARFTransmit v1 v2 v3 ok b s)) \<in>
     {vsGates s, fst (Gates v2 (fst (Gates v1 (vsGates s)))), fst (Gates v3 (fst (Gates v2 (fst (Gates v1 (vsGates s))))))}"
  by (auto simp: handleCARFTransmit_def Let_def GateOpen_eq split: option.splits prod.splits bool.splits)

text \<open>
  A property of messages that every request keeps: it holds of a built message, survives the status
  changes of a correction and a refusal, and survives the status \<^verbatim>\<open>transmitted\<close> when both gates were
  seen open. \<open>G\<close> is what is known of the gates, \<open>E\<close> of the answers of reg-watch, \<open>F\<close> of the flips.
\<close>

locale message_property =
  fixes packs :: vpacks
    and P :: "CARFRecord \<Rightarrow> bool"
    and G :: "GateChecker \<Rightarrow> bool"
    and E :: "gate_env \<Rightarrow> bool"
    and F :: "string \<Rightarrow> bool \<Rightarrow> bool"
  assumes built: "P (BuildCARFMessage bv e packs tenant period docType corrOf reason)"
    and superseded: "P r \<Longrightarrow> P (r\<lparr>cfStatus := ''superseded''\<rparr>)"
    and refused: "P r \<Longrightarrow> P (r\<lparr>cfStatus := ''refused''\<rparr>)"
    and sent: "G g \<Longrightarrow> E v1 \<Longrightarrow> E v2 \<Longrightarrow> E v3 \<Longrightarrow> gates_seen v1 v2 v3 g \<Longrightarrow> Validation r = [] \<Longrightarrow> P r \<Longrightarrow> P (r\<lparr>cfStatus := ''transmitted''\<rparr>)"
    and gates_kept: "G g \<Longrightarrow> E v \<Longrightarrow> G (fst (Gates v g))"
    and flip_kept: "G g \<Longrightarrow> F i op \<Longrightarrow> G (fst (SetLocal o1 i op g))"
    and reboot_kept: "G g \<Longrightarrow> G (NewGateChecker (gateFile g))"
begin

definition holds :: "VService \<Rightarrow> bool" where
  "holds s \<longleftrightarrow> vsPacks s = packs \<and> msgs_all P (vsCarf s) \<and> G (vsGates s)"

fun allowed :: "vasp_op \<Rightarrow> bool" where
  "allowed (VTransmit v1 v2 v3 ok b) \<longleftrightarrow> E v1 \<and> E v2 \<and> E v3"
| "allowed (VGates v) \<longleftrightarrow> E v"
| "allowed (VFlip o1 c i (Some op)) \<longleftrightarrow> (hasRole c ''admin'' \<longrightarrow> F i op)"
| "allowed _ \<longleftrightarrow> True"

lemma holds_build: "holds s \<Longrightarrow> holds (fst (handleCARFBuild v ok b s))"
proof -
  assume h: "holds s"
  have "msgs_all P (vsCarf (fst (handleCARFBuild v ok b s)))"
  proof (cases b)
    case (Some p)
    have "vsCarf (fst (handleCARFBuild v ok b s)) =
        fst (AddRecord ok (BuildCARFMessage v (vsEngine s) (vsPacks s) (fst p) (snd p) ''OECD1'' '''' '''') (vsCarf s))"
      by (simp add: handleCARFBuild_def Some Let_def split: prod.splits bool.splits)
    then show ?thesis using h built by (simp add: holds_def msgs_all_add)
  qed (use h in \<open>simp add: handleCARFBuild_def holds_def\<close>)
  with h show ?thesis by (simp add: holds_def)
qed

lemma holds_correct: "holds s \<Longrightarrow> holds (fst (handleCARFCorrect v ok1 ok2 i reason s))"
proof -
  assume h: "holds s"
  have "msgs_all P (vsCarf (fst (handleCARFCorrect v ok1 ok2 i reason s)))"
  proof (cases "GetRecord i (vsCarf s)")
    case (Some orig)
    let ?o = "orig\<lparr>cfStatus := ''superseded''\<rparr>"
      and ?r = "BuildCARFMessage v (vsEngine s) (vsPacks s) (cfTenantID orig) (cfPeriod orig) ''OECD2'' (cfMessageRefId orig) reason"
    let ?c = "fst (AddRecord ok1 ?o (poke_record ?o (vsCarf s)))"
    have c: "msgs_all P ?c"
      using h msgs_all_get [of P "vsCarf s" i orig] Some superseded by (simp add: holds_def msgs_all_add msgs_all_poke)
    have "vsCarf (fst (handleCARFCorrect v ok1 ok2 i reason s)) \<in> {vsCarf s, ?c, fst (AddRecord ok2 ?r ?c)}"
      by (auto simp: handleCARFCorrect_def Some Let_def split: prod.splits bool.splits)
    moreover have "msgs_all P (fst (AddRecord ok2 ?r ?c))" using c h built by (simp add: holds_def msgs_all_add)
    ultimately show ?thesis using c h by (auto simp: holds_def)
  qed (use h in \<open>simp add: handleCARFCorrect_def holds_def\<close>)
  with h show ?thesis by (simp add: holds_def)
qed

lemma holds_transmit:
  assumes h: "holds s" and e: "E v1" "E v2" "E v3"
  shows "holds (fst (handleCARFTransmit v1 v2 v3 ok b s))"
proof -
  obtain s' resp where t: "handleCARFTransmit v1 v2 v3 ok b s = (s', resp)" by force
  have "G (vsGates s')"
    using transmit_gates [of v1 v2 v3 ok b s] h gates_kept e t by (auto simp: holds_def)
  moreover have "msgs_all P (vsCarf s')"
    using t
  proof (cases rule: transmit_cases)
    case rejected
    then show ?thesis using h by (simp add: holds_def)
  next
    case (refused i r)
    then show ?thesis using h msgs_all_get [of P "vsCarf s" i r] refused message_property.refused [OF message_property_axioms]
      by (simp add: holds_def msgs_all_add msgs_all_poke)
  next
    case (sent i r)
    have "P r" using h msgs_all_get [of P "vsCarf s" i r] sent(2) by (simp add: holds_def)
    then have "P (r\<lparr>cfStatus := ''transmitted''\<rparr>)"
      using message_property.sent [OF message_property_axioms _ e sent(3,4)] h by (simp add: holds_def)
    then show ?thesis using h sent(5) by (simp add: holds_def msgs_all_add msgs_all_poke)
  qed
  moreover have "vsPacks s' = packs" using transmit_frame(2) [of v1 v2 v3 ok b s] t h by (simp add: holds_def)
  ultimately show ?thesis using t by (simp add: holds_def)
qed

lemma holds_exec: "holds s \<Longrightarrow> allowed x \<Longrightarrow> holds (fst (vasp_exec x s))"
proof (cases x)
  case (VGates v)
  assume "holds s" "allowed x"
  with VGates gates_kept show ?thesis
    by (auto simp: holds_def gate_effects)
next
  case (VFlip o1 c i b)
  assume "holds s" "allowed x"
  with VFlip flip_kept [of "vsGates s" i _ o1] show ?thesis
    by (cases b) (auto simp: holds_def gate_effects)
next
  case (VRestart fits cfits o1 o2)
  assume "holds s"
  with VRestart reboot_kept show ?thesis by (simp add: holds_def restart_vasp_def boot_def msgs_all_replay)
qed (auto simp: holds_build holds_correct holds_transmit, auto simp: holds_def)

lemma holds_run: "holds s \<Longrightarrow> \<forall>x\<in>set xs. allowed x \<Longrightarrow> holds (vasp_run xs s)"
  by (induction xs arbitrary: s) (simp_all add: holds_exec)

lemma holds_fresh: "G (NewGateChecker None) \<Longrightarrow> holds (fresh_vasp packs)"
  by (simp add: holds_def fresh_vasp_def boot_def msgs_all_def NewCARFStore_def carf_replay_def)

end

text \<open>First reading: the recorded validation is the one of the pack, and a transmitted message is valid.\<close>

definition validated :: "vpacks \<Rightarrow> CARFRecord \<Rightarrow> bool" where
  "validated packs r \<longleftrightarrow> Validation r = ValidateCARF r packs \<and> (cfStatus r = ''transmitted'' \<longrightarrow> Validation r = [])"

lemma ValidateCARF_marks [simp]:
  "ValidateCARF (r\<lparr>cfStatus := x\<rparr>) packs = ValidateCARF r packs" "ValidateCARF (r\<lparr>Validation := y\<rparr>) packs = ValidateCARF r packs"
  by (simp_all add: ValidateCARF_def Let_def)

lemma built_validated: "validated packs (BuildCARFMessage v e packs tenant period docType corrOf reason)"
  by (simp add: validated_def BuildCARFMessage_def Let_def) (simp add: draft_record_def Let_def)

interpretation valid: message_property packs "validated packs" "\<lambda>_. True" "\<lambda>_. True" "\<lambda>_ _. True"
  by unfold_locales (simp_all add: built_validated, simp_all add: validated_def)

text \<open>Second reading, for either gate: while nobody opens it, nothing is transmitted.\<close>

definition unsent :: "CARFRecord \<Rightarrow> bool" where
  "unsent r \<longleftrightarrow> cfStatus r \<noteq> ''transmitted''"

lemma shut_reboot: "shut i g \<Longrightarrow> shut i (NewGateChecker (gateFile g))"
  by (simp add: shut_def NewGateChecker_def gate_open_in_def)

lemma shut_not_seen:
  assumes "shut i g" "i \<in> set default_gates" "env_shut i v1" "env_shut i v2" "env_shut i v3"
  shows "\<not> gates_seen v1 v2 v3 g"
proof -
  have g1: "shut i (fst (Gates v1 g))" using assms shut_Gates by blast
  have g2: "shut i (fst (GateOpen v2 j (fst (Gates v1 g))))" for j using g1 assms shut_Open by blast
  show ?thesis using g1 g2 assms shut_Open by (auto simp: gates_seen_def default_gates_def Let_def)
qed

lemma built_unsent: "unsent (BuildCARFMessage v e packs tenant period docType corrOf reason)"
  by (simp add: unsent_def BuildCARFMessage_def Let_def draft_record_def)

interpretation closed_tx: message_property packs unsent "shut ''carf.transmit_enabled''" "env_shut ''carf.transmit_enabled''"
    "\<lambda>j op. j = ''carf.transmit_enabled'' \<longrightarrow> \<not> op"
  using built_unsent shut_not_seen [of "''carf.transmit_enabled''"] shut_Gates shut_SetLocal shut_reboot
  by unfold_locales (auto simp: unsent_def default_gates_def)

interpretation closed_changed: message_property packs unsent "shut ''carf.gate.changed''" "env_shut ''carf.gate.changed''"
    "\<lambda>j op. j = ''carf.gate.changed'' \<longrightarrow> \<not> op"
  using built_unsent shut_not_seen [of "''carf.gate.changed''"] shut_Gates shut_SetLocal shut_reboot
  by unfold_locales (auto simp: unsent_def default_gates_def)

section \<open>What a message reports\<close>

definition txs_of :: "users \<Rightarrow> string \<Rightarrow> CryptoAssetTransaction list" where
  "txs_of us u = (case map_of us u of None \<Rightarrow> [] | Some r \<Rightarrow> urTransactions r)"

definition users_ok :: "users \<Rightarrow> bool" where
  "users_ok us \<longleftrightarrow> distinct (map fst us) \<and> (\<forall>u r. map_of us u = Some r \<longrightarrow> urUserHash r = u)"

lemma map_of_update [simp]: "map_of (AList.update k v al) j = (if j = k then Some v else map_of al j)"
  by (simp add: update_conv')

lemma keys_update [simp]: "fst ` set (AList.update k v al) = insert k (fst ` set al)"
  by (simp add: dom_update [unfolded] flip: dom_map_of_conv_image_fst) (auto simp: dom_def)

lemma report_tx_effect:
  "users_ok us \<Longrightarrow> users_ok (report_tx v u t us)"
  "fst ` set (report_tx v u t us) = insert u (fst ` set us)"
  "txs_of (report_tx v u t us) w = txs_of us w @ (if w = u then [t] else [])"
  by (auto simp: users_ok_def report_tx_def add_tx_def new_report_def txs_of_def distinct_update split: option.splits)

lemma fold_report:
  fixes f :: "'a \<Rightarrow> string" and g :: "'a \<Rightarrow> CryptoAssetTransaction"
  shows "users_ok us \<Longrightarrow> users_ok (fold (\<lambda>t. report_tx v (f t) (g t)) ts us)"
    and "fst ` set (fold (\<lambda>t. report_tx v (f t) (g t)) ts us) = fst ` set us \<union> f ` set ts"
    and "txs_of (fold (\<lambda>t. report_tx v (f t) (g t)) ts us) w = txs_of us w @ map g (filter (\<lambda>t. f t = w) ts)"
  by (induction ts arbitrary: us) (auto simp: report_tx_effect)

lemma fold_counted:
  "fold (\<lambda>t (us, n). if P t then (f t us, n + 1) else (us, n)) ts (us, n) = (fold f (filter P ts) us, n + length (filter P ts))"
  by (induction ts arbitrary: us n) auto

lemma build_trades_eq:
  "build_trades v period ts (us, n) =
     (fold (\<lambda>t. report_tx v (tdUserHash t) (trade_tx t)) (filter (\<lambda>t. carf_period period (TradedAt t)) ts) us,
      n + length (filter (\<lambda>t. carf_period period (TradedAt t)) ts))"
  by (simp add: build_trades_def fold_counted)

lemma build_transfers_eq:
  "build_transfers v period ts (us, n) =
     (fold (\<lambda>t. report_tx v (xfUserHash t) (transfer_tx t)) (filter (\<lambda>t. carf_period period (MovedAt t)) ts) us,
      n + length (filter (\<lambda>t. carf_period period (MovedAt t)) ts))"
  by (simp add: build_transfers_def fold_counted)

lemma build_gains_effect:
  assumes "users_ok us" "build_gains period gls (us, n) = (us', n')"
  shows "users_ok us' \<and> fst ` set us' = fst ` set us \<and>
     (\<forall>w. txs_of us' w = txs_of us w @ (if w \<in> fst ` set us then map gain_tx (filter (\<lambda>gl. carf_period period (BookedAt gl) \<and> glUserHash gl = w) gls) else [])) \<and>
     n' = n + length (filter (\<lambda>gl. carf_period period (BookedAt gl) \<and> glUserHash gl \<in> fst ` set us) gls)"
  using assms
proof (induction gls arbitrary: us n)
  case Nil
  then show ?case by (simp add: build_gains_def)
next
  case (Cons gl gls)
  let ?u = "glUserHash gl"
  show ?case
  proof (cases "carf_period period (BookedAt gl) \<and> ?u \<in> fst ` set us")
    case True
    then obtain r where r: "map_of us ?u = Some r" by (metis map_of_eq_None_iff option.exhaust)
    let ?us = "AList.update ?u (add_tx (gain_tx gl) r) us"
    have ok: "users_ok ?us" "fst ` set ?us = fst ` set us"
      "txs_of ?us w = txs_of us w @ (if w = ?u then [gain_tx gl] else [])" for w
      using Cons.prems(1) r True by (auto simp: users_ok_def distinct_update txs_of_def add_tx_def)
    have "build_gains period gls (?us, n + 1) = (us', n')"
      using Cons.prems(2) True r by (simp add: build_gains_def)
    from Cons.IH [OF ok(1) this, unfolded ok(2)] ok(3) True show ?thesis by auto
  next
    case False
    then have "build_gains period gls (us, n) = (us', n')"
      using Cons.prems(2) by (auto simp: build_gains_def map_of_eq_None_iff split: option.splits dest: map_of_SomeD) (metis fst_conv image_eqI map_of_SomeD)+
    from Cons.IH [OF Cons.prems(1) this] False show ?thesis by auto
  qed
qed

text \<open>The collected reports, by user.\<close>

lemma collect_users_spec:
  assumes "T = filter (\<lambda>t. carf_period period (TradedAt t)) (Trades (beTradeOrd v) tenant e)"
    and "X = filter (\<lambda>t. carf_period period (MovedAt t)) (Transfers (beTransferOrd v) tenant e)"
    and "L = filter (\<lambda>gl. carf_period period (BookedAt gl)) (Ledger tenant e)"
    and "collect_users v tenant period e = (us, n)"
  shows "users_ok us \<and> fst ` set us = tdUserHash ` set T \<union> xfUserHash ` set X \<and>
     (\<forall>w\<in>fst ` set us. txs_of us w = map trade_tx (filter (\<lambda>t. tdUserHash t = w) T) @ map transfer_tx (filter (\<lambda>t. xfUserHash t = w) X) @
        map gain_tx (filter (\<lambda>gl. glUserHash gl = w) L)) \<and>
     n = length T + length X + length (filter (\<lambda>gl. glUserHash gl \<in> fst ` set us) L)"
proof -
  let ?u1 = "fold (\<lambda>t. report_tx v (tdUserHash t) (trade_tx t)) T []"
  let ?u2 = "fold (\<lambda>t. report_tx v (xfUserHash t) (transfer_tx t)) X ?u1"
  have empty: "users_ok []" "txs_of [] w = []" for w by (simp_all add: users_ok_def txs_of_def)
  have ok2: "users_ok ?u2" "fst ` set ?u2 = tdUserHash ` set T \<union> xfUserHash ` set X"
    "txs_of ?u2 w = map trade_tx (filter (\<lambda>t. tdUserHash t = w) T) @ map transfer_tx (filter (\<lambda>t. xfUserHash t = w) X)" for w
    using empty by (simp_all add: fold_report)
  have "build_gains period (Ledger tenant e) (?u2, length T + length X) = (us, n)"
    using assms by (simp add: collect_users_def build_trades_eq build_transfers_eq)
  from build_gains_effect [OF ok2(1) this] ok2 show ?thesis
    unfolding assms(3) by (auto simp: filter_filter conj_commute)
qed

lemma user_reports_spec:
  assumes "users_ok us"
  shows "map urUserHash (user_reports us) = sort (map fst us)"
    and "r \<in> set (user_reports us) \<Longrightarrow> urUserHash r \<in> fst ` set us \<and> urTransactions r = txs_of us (urUserHash r)"
proof -
  have hash: "map_of us u = Some x \<Longrightarrow> urUserHash x = u" for u x using assms by (simp add: users_ok_def)
  have "set ks \<subseteq> fst ` set us \<Longrightarrow> map urUserHash (List.map_filter (map_of us) ks) = ks" for ks
  proof (induction ks)
    case (Cons k ks)
    then obtain x where "map_of us k = Some x" by (metis list.set_intros(1) map_of_eq_None_iff option.exhaust subset_iff)
    with Cons hash show ?case by (simp add: List.map_filter_simps)
  qed (simp add: List.map_filter_simps)
  from this [of "sort (map fst us)"] show "map urUserHash (user_reports us) = sort (map fst us)"
    by (simp add: user_reports_def)
  show "urUserHash r \<in> fst ` set us \<and> urTransactions r = txs_of us (urUserHash r)" if "r \<in> set (user_reports us)"
  proof -
    from that obtain u where u: "u \<in> fst ` set us" "map_of us u = Some r"
      by (force simp: user_reports_def List.map_filter_def)
    with hash show ?thesis by (auto simp: txs_of_def)
  qed
qed

text \<open>The lists the builder reads hold every trade and transfer of the tenant once.\<close>

lemma map_filter_stored:
  assumes "distinct ord" "set ord = dom m" "\<And>i x. m i = Some x \<Longrightarrow> name x = i"
  shows "distinct (List.map_filter m ord)" "set (List.map_filter m ord) = ran m"
proof -
  have "distinct ks \<Longrightarrow> set ks \<subseteq> dom m \<Longrightarrow> distinct (List.map_filter m ks) \<and> name ` set (List.map_filter m ks) = set ks" for ks
  proof (induction ks)
    case (Cons k ks)
    then obtain x where x: "m k = Some x" by auto
    with Cons assms(3) [OF x] show ?case by (auto simp: List.map_filter_simps)
  qed (simp add: List.map_filter_simps)
  from this [of ord] assms(1,2) show "distinct (List.map_filter m ord)" by simp
  show "set (List.map_filter m ord) = ran m"
    using assms(2) by (force simp: List.map_filter_def ran_def dom_def)
qed

lemma Trades_once:
  assumes "engine_ok e" "distinct ord" "set ord = dom (trades e)" "tenant \<noteq> ''''"
  shows "distinct (Trades ord tenant e) \<and> set (Trades ord tenant e) = {t \<in> ran (trades e). tdTenantID t = tenant}"
  using map_filter_stored [OF assms(2,3), of tdID] assms(1,4)
  by (auto simp: Trades_def engine_ok_def stored_ok_def)

lemma Transfers_once:
  assumes "engine_ok e" "distinct ord" "set ord = dom (transfers e)" "tenant \<noteq> ''''"
  shows "distinct (Transfers ord tenant e) \<and> set (Transfers ord tenant e) = {t \<in> ran (transfers e). xfTenantID t = tenant}"
  using map_filter_stored [OF assms(2,3), of xfID] assms(1,4)
  by (auto simp: Transfers_def engine_ok_def stored_ok_def)

lemma carf_period_iff: "carf_period period at \<longleftrightarrow> prefix period at"
  by (auto simp: carf_period_def HasPrefix_iff)

text \<open>The text of a message names its type, so the validation never complains about it.\<close>

lemma leaf_in_node: "c \<in> set cs \<Longrightarrow> sublist (xml_text (d + 1) c) (xml_text d (XNode n as cs))"
proof -
  assume "c \<in> set cs"
  then obtain xs ys where cs: "cs = xs @ c # ys" by (meson split_list)
  let ?f = "\<lambda>c. CHR 0x0A # xml_text (d + 1) c"
  have "xml_text d (XNode n as cs) =
      (xml_indent d @ ''<'' @ n @ xml_attrs as @ ''>'' @ concat (map ?f xs) @ [CHR 0x0A]) @ xml_text (d + 1) c @
      (concat (map ?f ys) @ [CHR 0x0A] @ xml_indent d @ ''</'' @ n @ ''>'')"
    by (simp add: cs)
  then show ?thesis by (metis sublist_appendI)
qed

lemma leaf_tags: "sublist (''<'' @ n @ ''>'' @ xml_escape t @ ''</'' @ n @ ''>'') (xml_text d (XLeaf n t))"
  by (simp add: sublist_appendI)

lemma message_type_present: "sublist ''<MessageType>CARF</MessageType>'' (carf_xml (carf_message v tenant period docType corrOf reports))"
proof -
  let ?m = "carf_message v tenant period docType corrOf reports"
  let ?leaf = "XLeaf ''MessageType'' ''CARF''"
  obtain cs where cs: "xml_spec (msSpec ?m) = XNode ''MessageSpec'' [] cs" "?leaf \<in> set cs"
    by (simp add: xml_spec_def carf_message_def)
  obtain ds as where ds: "xml_message ?m = XNode ''CARF_OECD'' as ds" "xml_spec (msSpec ?m) \<in> set ds"
    by (simp add: xml_message_def)
  have "sublist (xml_text 2 ?leaf) (xml_text 1 (xml_spec (msSpec ?m)))"
    using leaf_in_node [OF cs(2), of 1 "''MessageSpec''" "[]"] by (simp only: cs(1) one_add_one)
  moreover have "sublist (xml_text 1 (xml_spec (msSpec ?m))) (xml_text 0 (xml_message ?m))"
    using leaf_in_node [OF ds(2), of 0 "''CARF_OECD''" as] by (simp only: ds(1) add_0)
  moreover have "sublist ''<MessageType>CARF</MessageType>'' (xml_text 2 ?leaf)"
    using leaf_tags [of "''MessageType''" "''CARF''" 2] by (simp add: xml_escape_def xml_escape_char_def)
  ultimately have "sublist ''<MessageType>CARF</MessageType>'' (xml_text 0 (xml_message ?m))"
    by (meson sublist_order.order.trans)
  then show ?thesis by (simp add: carf_xml_def sublist_append)
qed

section \<open>Who may open a gate\<close>

text \<open>Requests that do not open the gate: reg-watch does not list it as open, and no admin flips it open.\<close>

fun keeps_shut :: "string \<Rightarrow> vasp_op \<Rightarrow> bool" where
  "keeps_shut g (VTransmit v1 v2 v3 ok b) \<longleftrightarrow> env_shut g v1 \<and> env_shut g v2 \<and> env_shut g v3"
| "keeps_shut g (VGates v) \<longleftrightarrow> env_shut g v"
| "keeps_shut g (VFlip o1 c i b) \<longleftrightarrow> \<not> (hasRole c ''admin'' \<and> i = g \<and> b = Some True)"
| "keeps_shut g _ \<longleftrightarrow> True"

lemma keeps_shut_allowed:
  "keeps_shut ''carf.transmit_enabled'' x \<Longrightarrow> closed_tx.allowed x"
  "keeps_shut ''carf.gate.changed'' x \<Longrightarrow> closed_changed.allowed x"
  by (cases x rule: closed_tx.allowed.cases, simp_all) (cases x rule: closed_changed.allowed.cases, simp_all)

lemma fresh_shut: "shut g (NewGateChecker None)"
  by (simp add: shut_def NewGateChecker_def gate_open_in_def)

lemma shut_run:
  assumes "g \<in> set default_gates" "\<forall>x\<in>set xs. keeps_shut g x" "s = vasp_run xs (fresh_vasp packs)"
  shows "shut g (vsGates s) \<and> (\<forall>i r. cfRecords (vsCarf s) i = Some r \<longrightarrow> cfStatus r \<noteq> ''transmitted'')"
proof -
  consider "g = ''carf.transmit_enabled''" | "g = ''carf.gate.changed''" using assms(1) by (auto simp: default_gates_def)
  then show ?thesis
  proof cases
    case 1
    then have "closed_tx.holds packs s"
      using assms(2) closed_tx.holds_run [OF closed_tx.holds_fresh [OF fresh_shut]] keeps_shut_allowed(1) unfolding assms(3) by blast
    then show ?thesis using 1 by (auto simp: closed_tx.holds_def msgs_all_def unsent_def)
  next
    case 2
    then have "closed_changed.holds packs s"
      using assms(2) closed_changed.holds_run [OF closed_changed.holds_fresh [OF fresh_shut]] keeps_shut_allowed(2) unfolding assms(3) by blast
    then show ?thesis using 2 by (auto simp: closed_changed.holds_def msgs_all_def unsent_def)
  qed
qed

lemma valid_run:
  assumes "s = vasp_run xs (fresh_vasp packs)" "cfRecords (vsCarf s) i = Some r"
  shows "cfID r = i \<and> validated packs r"
proof -
  have "valid.allowed x" for x by (cases x rule: valid.allowed.cases) simp_all
  then have "valid.holds packs s" unfolding assms(1) by (intro valid.holds_run valid.holds_fresh) auto
  then show ?thesis using assms(2) by (simp add: valid.holds_def msgs_all_def)
qed

lemma built_fields:
  "cfID (BuildCARFMessage v e packs tenant period docType corrOf reason) = ''carf-'' @ beULID v"
  "cfStatus (BuildCARFMessage v e packs tenant period docType corrOf reason) = ''built''"
  "cfTenantID (BuildCARFMessage v e packs tenant period docType corrOf reason) = tenant"
  "cfMessageRefId (BuildCARFMessage v e packs tenant period docType corrOf reason) = ''NG-'' @ beRef v"
  by (simp_all add: BuildCARFMessage_def draft_record_def Let_def)

text \<open>A first message is valid exactly when the required fields are there.\<close>

lemma built_validation:
  assumes "CARFRequiredFields packs = default_fields" "collect_users v tenant period e = (us, n)" "tenant \<noteq> ''''" "beNow v \<noteq> ''''" "us \<noteq> []" "n > 0" "users_ok us"
  shows "Validation (BuildCARFMessage v e packs tenant period ''OECD1'' '''' '''') = []"
proof -
  have "length (map urUserHash (user_reports us)) = length us" using user_reports_spec(1) [OF assms(7)] by simp
  then have "0 < length (user_reports us)" using assms(5) by simp
  then show ?thesis using assms message_type_present
    by (simp add: BuildCARFMessage_def ValidateCARF_def draft_record_def Let_def default_fields_def)
qed

end
