(* ===== verification/Vasp_Durability.thy ===== *)
theory Vasp_Durability
  imports Vasp_Guarantees
begin

text \<open>
  What a restart of the VASP service rebuilds: the books of the engine (\<open>logged\<close>), the messages and
  the gate file. The average positions are not among it (\<open>sold_twice\<close>).
\<close>

interpretation named: message_property packs "\<lambda>r. cfID r \<noteq> ''''" "\<lambda>_. True" "\<lambda>_. True" "\<lambda>_ _. True"
  by unfold_locales (simp_all add: BuildCARFMessage_def draft_record_def Let_def)

definition carf_synced :: "CARFStore \<Rightarrow> bool" where
  "carf_synced st \<longleftrightarrow> cfOpen st \<and> msgs_all (\<lambda>r. cfID r \<noteq> '''') st \<and> carf_replay (\<lambda>_. True) (cfLog st) = cfRecords st"

lemma carf_replay_snoc: "cfID r \<noteq> '''' \<Longrightarrow> carf_replay (\<lambda>_. True) (lg @ [r]) = (carf_replay (\<lambda>_. True) lg)(cfID r \<mapsto> r)"
  by (simp add: carf_replay_def takeWhile_eq_all_conv [THEN iffD2])

lemma synced_add: "carf_synced st \<Longrightarrow> cfID r \<noteq> '''' \<Longrightarrow> carf_synced (fst (AddRecord True r st)) \<and> snd (AddRecord True r st)"
  using msgs_all_add [of "\<lambda>r. cfID r \<noteq> ''''" st r True]
  by (auto simp: carf_synced_def AddRecord_def Let_def carf_replay_snoc)

lemma add_poke: "fst (AddRecord True r (poke_record r st)) = fst (AddRecord True r st)" "snd (AddRecord True r (poke_record r st)) = snd (AddRecord True r st)"
  by (simp_all add: AddRecord_def poke_record_def Let_def)

lemma synced_get: "carf_synced st \<Longrightarrow> GetRecord i st = Some r \<Longrightarrow> cfID r \<noteq> ''''"
  using msgs_all_get [of "\<lambda>r. cfID r \<noteq> ''''" st i r] by (auto simp: carf_synced_def)

lemma built_named: "cfID (BuildCARFMessage v e packs tenant period docType corrOf reason) \<noteq> ''''"
  by (rule named.built)

lemma synced_build: "carf_synced (vsCarf s) \<Longrightarrow> carf_synced (vsCarf (fst (handleCARFBuild v True b s)))"
  using synced_add [OF _ built_named, of "vsCarf s"]
  by (auto simp: handleCARFBuild_def Let_def split: option.splits prod.splits bool.splits) (metis fst_conv)+

lemma synced_correct:
  assumes "carf_synced (vsCarf s)"
  shows "carf_synced (vsCarf (fst (handleCARFCorrect v True True i reason s)))"
proof (cases "GetRecord i (vsCarf s)")
  case (Some orig)
  let ?o = "orig\<lparr>cfStatus := ''superseded''\<rparr>" and ?r = "BuildCARFMessage v (vsEngine s) (vsPacks s) (cfTenantID orig) (cfPeriod orig) ''OECD2'' (cfMessageRefId orig) reason"
  let ?c = "fst (AddRecord True ?o (poke_record ?o (vsCarf s)))"
  have c: "carf_synced ?c" using synced_add [OF assms, of ?o] synced_get [OF assms Some] by (simp add: add_poke)
  have "vsCarf (fst (handleCARFCorrect v True True i reason s)) \<in> {vsCarf s, ?c, fst (AddRecord True ?r ?c)}"
    by (auto simp: handleCARFCorrect_def Some Let_def split: prod.splits bool.splits)
  moreover have "carf_synced (fst (AddRecord True ?r ?c))" using synced_add [OF c built_named] by blast
  ultimately show ?thesis using c assms by auto
qed (simp add: handleCARFCorrect_def assms)

lemma synced_transmit:
  assumes "carf_synced (vsCarf s)"
  shows "carf_synced (vsCarf (fst (handleCARFTransmit v1 v2 v3 True b s)))"
proof -
  obtain s' resp where t: "handleCARFTransmit v1 v2 v3 True b s = (s', resp)" by force
  then have "carf_synced (vsCarf s')"
  proof (cases rule: transmit_cases)
    case rejected
    then show ?thesis using assms by simp
  next
    case (refused i r)
    then show ?thesis using synced_add [OF assms, of "r\<lparr>cfStatus := ''refused''\<rparr>"] synced_get [OF assms refused(2)] by (simp add: add_poke)
  next
    case (sent i r)
    then show ?thesis using synced_add [OF assms, of "r\<lparr>cfStatus := ''transmitted''\<rparr>"] synced_get [OF assms sent(2)] by (simp add: add_poke)
  qed
  with t show ?thesis by simp
qed

text \<open>A clean request: all its writes succeed, and a sale is relieved by FIFO.\<close>

fun clean_vasp_op :: "vasp_op \<Rightarrow> bool" where
  "clean_vasp_op (VTrade v b meth) \<longleftrightarrow> (case b of None \<Rightarrow> True | Some t \<Rightarrow> clean_eng_op (OpTrade v t meth))"
| "clean_vasp_op (VXfer v b) \<longleftrightarrow> (case b of None \<Rightarrow> True | Some t \<Rightarrow> clean_eng_op (OpTransfer v t))"
| "clean_vasp_op (VFmv v b) \<longleftrightarrow> egWrite1 v"
| "clean_vasp_op (VBuild v ok b) \<longleftrightarrow> ok"
| "clean_vasp_op (VCorrect v ok1 ok2 i x) \<longleftrightarrow> ok1 \<and> ok2"
| "clean_vasp_op (VTransmit v1 v2 v3 ok b) \<longleftrightarrow> ok"
| "clean_vasp_op (VGates v) \<longleftrightarrow> True"
| "clean_vasp_op (VFlip o1 c i b) \<longleftrightarrow> True"
| "clean_vasp_op (VRestart fits cfits o1 o2) \<longleftrightarrow> False"

lemma engine_effects:
  "vsEngine (fst (handleIngestTrade v b meth s)) \<in> insert (vsEngine s) {fst (IngestTrade v t meth (vsEngine s)) | t. b = Some t}"
  "vsEngine (fst (handleIngestTransfer v b2 s)) \<in> insert (vsEngine s) {fst (IngestTransfer v t (vsEngine s)) | t. b2 = Some t}"
  "vsEngine (fst (handleAddFMV v b3 s)) \<in> insert (vsEngine s) {AddFMV v t (vsEngine s) | t. b3 = Some t}"
  by (auto simp: handleIngestTrade_def handleIngestTransfer_def handleAddFMV_def split: option.splits prod.splits sum.splits)

lemma logged_ingest:
  assumes "logged (vsEngine s)"
  shows "clean_vasp_op (VTrade v b meth) \<Longrightarrow> logged (vsEngine (fst (handleIngestTrade v b meth s)))"
    and "clean_vasp_op (VXfer v b2) \<Longrightarrow> logged (vsEngine (fst (handleIngestTransfer v b2 s)))"
    and "clean_vasp_op (VFmv v b3) \<Longrightarrow> logged (vsEngine (fst (handleAddFMV v b3 s)))"
  using engine_effects(1) [of v b meth s] engine_effects(2) [of v b2 s] engine_effects(3) [of v b3 s]
    assms logged_trade logged_transfer logged_fmv by auto

definition vasp_synced :: "VService \<Rightarrow> bool" where
  "vasp_synced s \<longleftrightarrow> logged (vsEngine s) \<and> carf_synced (vsCarf s)"

lemma vasp_synced_exec: "vasp_synced s \<Longrightarrow> clean_vasp_op x \<Longrightarrow> vasp_synced (fst (vasp_exec x s))"
  by (cases x) (auto simp: vasp_synced_def logged_ingest synced_build synced_correct synced_transmit simp del: clean_vasp_op.simps(1,2,3))

lemma vasp_synced_run: "vasp_synced s \<Longrightarrow> \<forall>x\<in>set xs. clean_vasp_op x \<Longrightarrow> vasp_synced (vasp_run xs s)"
  by (induction xs arbitrary: s) (simp_all add: vasp_synced_exec)

lemma vasp_synced_fresh: "vasp_synced (fresh_vasp packs)"
  using logged_fresh
  by (simp add: vasp_synced_def fresh_vasp_def boot_def carf_synced_def NewCARFStore_def msgs_all_def carf_replay_def fresh_engine_def)

lemma vasp_restart:
  assumes "vasp_synced s" "\<forall>r\<in>set (engLog (vsEngine s)). fits r" "\<forall>r\<in>set (cfLog (vsCarf s)). cfits r" "t = restart_vasp fits cfits o1 o2 s"
  shows "same_books (vsEngine t) (vsEngine s) \<and> cfRecords (vsCarf t) = cfRecords (vsCarf s) \<and> gateFile (vsGates t) = gateFile (vsGates s) \<and>
    cached (vsGates t) = Map.empty"
proof -
  have "takeWhile cfits (cfLog (vsCarf s)) = cfLog (vsCarf s)" "takeWhile (\<lambda>_. True) lg = lg" for lg :: "CARFRecord list"
    using assms(3) by (simp_all add: takeWhile_eq_all_conv [THEN iffD2])
  then have "carf_replay cfits (cfLog (vsCarf s)) = carf_replay (\<lambda>_. True) (cfLog (vsCarf s))" unfolding carf_replay_def by metis
  moreover have "same_books (vsEngine t) (vsEngine s)"
    using restart_logged [of "vsEngine s" fits o1] assms by (simp add: vasp_synced_def restart_vasp_def boot_def restart_engine_def)
  ultimately show ?thesis
    using assms(1) by (simp add: assms(4) restart_vasp_def boot_def NewCARFStore_def NewGateChecker_def vasp_synced_def carf_synced_def)
qed

section \<open>Where the guarantees end\<close>

text \<open>A message whose log line does not fit the reader hides itself and every later message after a restart.\<close>

lemma oversized_hides_later:
  assumes "cfLog st = before @ r # later" "\<forall>x\<in>set before. cfits x" "\<not> cfits r"
  shows "cfRecords (NewCARFStore cfits opens (cfLog st)) = carf_replay (\<lambda>_. True) before"
proof -
  have "takeWhile cfits (cfLog st) = before" unfolding assms(1) using assms(2,3) by (simp add: takeWhile_append2)
  then show ?thesis by (simp add: NewCARFStore_def carf_replay_def takeWhile_eq_all_conv [THEN iffD2])
qed

text \<open>A superseded or already transmitted message is transmitted again.\<close>

lemma superseded_sent_again:
  assumes "GetRecord i (vsCarf s) = Some r" "Validation r = []" "gates_seen v1 v2 v3 (vsGates s)"
    and "handleCARFTransmit v1 v2 v3 True (Some i) s = (s', resp)"
  shows "status_of resp = 200"
  using assms(4)
proof (cases rule: transmit_cases)
  case rejected
  then show ?thesis using assms by (auto simp: handleCARFTransmit_def gates_seen_def Let_def split: prod.splits bool.splits)
next
  case (sent j q)
  then show ?thesis by (simp add: AddRecord_def poke_record_def)
qed (use assms in auto)

end
