(* ===== verification/Vasp_Properties.thy ===== *)
theory Vasp_Properties
  imports Vasp_Durability
begin

text \<open>
  The properties of the VASP service (\<^verbatim>\<open>services/vasp-carf\<close>): cost basis, ring fence, books across a
  restart, CARF messages and the gates that guard their transmission.
\<close>

section \<open>Cost basis\<close>




text \<open>C36. In every state the engine can reach, by requests and restarts with any outcome of the log writes, all lots hold a positive quantity, every
  trade and transfer is stored under its own identifier with a positive quantity, and every entry of the ledger is proceeds less basis.\<close>

theorem engine_well_formed:
  assumes "eng_reach e"
  shows "(\<forall>k. \<forall>l\<in>set (lots e k). 0 < ltQtyMilli l \<and> in64 (ltQtyMilli l)) \<and>
    (\<forall>i t. trades e i = Some t \<longrightarrow> tdID t = i \<and> 0 < tdQtyMilli t) \<and> (\<forall>i tr. transfers e i = Some tr \<longrightarrow> xfID tr = i \<and> 0 < xfQtyMilli tr) \<and>
    (\<forall>gl\<in>set (ledger e). GainLoss gl = sub64 (Proceeds gl) (Basis gl))"
  using reach_ok [OF assms] by (simp add: engine_ok_def queues_ok_def lots_ok_def stored_ok_def rec_ok_def)

definition demo_eng_env :: eng_env where
  "demo_eng_env = \<lparr>egULID = ''1'', egULID2 = ''2'', egNow = ''2026-03-01T09:00:00Z'', egBooked = ''2026-03-01T09:00:00Z'', egWrite1 = True, egWrite2 = True\<rparr>"

definition demo_buy :: Trade where
  "demo_buy = \<lparr>tdID = ''b1'', tdTenantID = ''t1'', VASPRef = ''v'', tdUserHash = ''u1'', tdAsset = ''btc'', Side = ''buy'', tdQtyMilli = 2000,
     tdPriceKobo = 500, FeeKobo = 0, TradedAt = ''2026-01-05'', TxHash = ''''\<rparr>"

theorem engine_well_formed_witness:
  "eng_reach (restart_engine (\<lambda>_. True) True (eng_run [OpTrade demo_eng_env demo_buy ''''] fresh_engine)) \<and>
   list_all (\<lambda>l. 0 < ltQtyMilli l) (lots (restart_engine (\<lambda>_. True) True (eng_run [OpTrade demo_eng_env demo_buy ''''] fresh_engine)) (key3 ''t1'' ''u1'' ''btc''))"
proof -
  have reach: "eng_reach (restart_engine (\<lambda>_. True) True (eng_run [OpTrade demo_eng_env demo_buy ''''] fresh_engine))"
    by (intro eng_reach.restarted reach_run eng_reach.start) (simp add: demo_buy_def in64_def)
  show ?thesis using engine_well_formed [OF reach] reach by (simp add: list_all_iff)
qed

text \<open>One purchase can be sold twice. After a purchase and a FIFO sale of the whole of it no lot is left, yet a second sale of the same quantity by weighted
  average is accepted, with the full cost as its basis; after a restart the same second sale is refused.\<close>

theorem holding_sold_twice:
  assumes "Side b = ''buy''" "tdID b \<noteq> ''''" "0 < tdQtyMilli b" "0 \<le> tdPriceKobo b" "in64 (tdQtyMilli b)" "in64 (tdQtyMilli b * tdPriceKobo b)"
    and "c = tdQtyMilli b * tdPriceKobo b div 1000" "in64 (c * tdQtyMilli b)"
    and "\<forall>s\<in>{s1, s2}. Side s = ''sell'' \<and> tdID s \<notin> {'''', tdID b} \<and> tdQtyMilli s = tdQtyMilli b \<and> 0 \<le> tdPriceKobo s \<and>
        tdTenantID s = tdTenantID b \<and> tdUserHash s = tdUserHash b \<and> tdAsset s = tdAsset b"
    and "tdID s1 \<noteq> tdID s2" "egWrite1 v" "egWrite2 v" "e = eng_run [OpTrade v b m, OpTrade v s1 ''fifo''] fresh_engine"
  shows "(\<exists>gl. ledger e = [gl] \<and> Basis gl = c) \<and> lots e (key3 (tdTenantID b) (tdUserHash b) (tdAsset b)) = [] \<and>
     (\<exists>gl. snd (snd (IngestTrade v s2 ''wac'' e)) = Inr (Some gl) \<and> Basis gl = c) \<and>
     (\<exists>err. snd (snd (IngestTrade v s2 ''wac'' (restart_engine (\<lambda>_. True) True e))) = Inl err)"
  using assms by (rule sold_twice)

theorem holding_sold_twice_witness:
  "\<exists>gl. snd (snd (IngestTrade demo_eng_env (demo_buy\<lparr>tdID := ''s2'', Side := ''sell''\<rparr>) ''wac''
      (eng_run [OpTrade demo_eng_env demo_buy '''', OpTrade demo_eng_env (demo_buy\<lparr>tdID := ''s1'', Side := ''sell''\<rparr>) ''fifo''] fresh_engine))) = Inr (Some gl) \<and> Basis gl = 1000"
  using holding_sold_twice [of demo_buy 1000 "demo_buy\<lparr>tdID := ''s1'', Side := ''sell''\<rparr>" "demo_buy\<lparr>tdID := ''s2'', Side := ''sell''\<rparr>" demo_eng_env _ "''''", OF _ _ _ _ _ _ _ _ _ _ _ _ refl]
  by (simp add: demo_buy_def demo_eng_env_def in64_def)

section \<open>Ring fence\<close>




section \<open>Messages and gates\<close>

text \<open>C7. Transmission is guarded. In every state the service reaches from its first start, a transmitted message has passed the validation of the schema pack. As long as
  one of the two gates is opened by nobody (reg-watch never lists it as open and no admin flips it open), no message is ever transmitted, and a request to
  transmit is not answered 200.\<close>

theorem transmission_guarded:
  assumes "s = vasp_run xs (fresh_vasp packs)"
  shows "(\<forall>i r. cfRecords (vsCarf s) i = Some r \<longrightarrow> cfStatus r = ''transmitted'' \<longrightarrow> ValidateCARF r packs = []) \<and>
    (\<forall>g\<in>{''carf.transmit_enabled'', ''carf.gate.changed''}. (\<forall>x\<in>set xs. keeps_shut g x) \<longrightarrow>
       (\<forall>i r. cfRecords (vsCarf s) i = Some r \<longrightarrow> cfStatus r \<noteq> ''transmitted'') \<and>
       (\<forall>v1 v2 v3 ok b. env_shut g v1 \<and> env_shut g v2 \<and> env_shut g v3 \<longrightarrow> status_of (snd (handleCARFTransmit v1 v2 v3 ok b s)) \<noteq> 200))"
proof (intro conjI ballI allI impI)
  fix i r assume "cfRecords (vsCarf s) i = Some r" "cfStatus r = ''transmitted''"
  then show "ValidateCARF r packs = []" using valid_run [OF assms, of i r] by (auto simp: validated_def)
next
  fix g i r assume g: "g \<in> {''carf.transmit_enabled'', ''carf.gate.changed''}" "\<forall>x\<in>set xs. keeps_shut g x" "cfRecords (vsCarf s) i = Some r"
  then show "cfStatus r \<noteq> ''transmitted''" using shut_run [OF _ g(2) assms] by (auto simp: default_gates_def)
next
  fix g v1 v2 v3 ok b assume g: "g \<in> {''carf.transmit_enabled'', ''carf.gate.changed''}" "\<forall>x\<in>set xs. keeps_shut g x" "env_shut g v1 \<and> env_shut g v2 \<and> env_shut g v3"
  then have "g \<in> set default_gates" by (auto simp: default_gates_def)
  then have seen: "\<not> gates_seen v1 v2 v3 (vsGates s)" using shut_not_seen [of g] shut_run [OF _ g(2) assms] g(3) by blast
  obtain s' resp where t: "handleCARFTransmit v1 v2 v3 ok b s = (s', resp)" by force
  then show "status_of (snd (handleCARFTransmit v1 v2 v3 ok b s)) \<noteq> 200"
    by (cases rule: transmit_cases) (use t seen in auto)
qed

definition demo_build_env :: build_env where
  "demo_build_env = \<lparr>beHash = (\<lambda>a b. a @ b), beTradeOrd = [''b1''], beTransferOrd = [], beULID = ''1'', beRef = ''7'', beNow = ''2027-01-10T00:00:00Z''\<rparr>"

definition demo_gate_env :: "(string \<times> bool \<times> string) list option \<Rightarrow> gate_env" where
  "demo_gate_env regs = \<lparr>gnMillis = 0, gnNow = ''2027-01-10T00:00:00Z'', gnReg = regs\<rparr>"

definition demo_vasp_ops :: "vasp_op list" where
  "demo_vasp_ops = [VTrade demo_eng_env (Some demo_buy) '''', VBuild demo_build_env True (Some (''t1'', ''2026''))]"

definition demo_message :: CARFRecord where
  "demo_message = BuildCARFMessage demo_build_env (vsEngine (vasp_run demo_vasp_ops (fresh_vasp Map.empty))) Map.empty ''t1'' ''2026'' ''OECD1'' '''' ''''"

lemma demo_vasp_state:
  "trades (vsEngine (vasp_run demo_vasp_ops (fresh_vasp Map.empty))) = [''b1'' \<mapsto> demo_buy]"
  "transfers (vsEngine (vasp_run demo_vasp_ops (fresh_vasp Map.empty))) = Map.empty"
  "cfRecords (vsCarf (vasp_run demo_vasp_ops (fresh_vasp Map.empty))) = [''carf-1'' \<mapsto> demo_message]"
  "vsGates (vasp_run demo_vasp_ops (fresh_vasp Map.empty)) = NewGateChecker None"
  "cfOpen (vsCarf (vasp_run demo_vasp_ops (fresh_vasp Map.empty)))"
  by (simp_all add: demo_vasp_ops_def demo_message_def fresh_vasp_def boot_def handleIngestTrade_def IngestTrade_def named_trade_def dated_trade_def demo_buy_def
      handleCARFBuild_def AddRecord_def NewCARFStore_def carf_replay_def NewEngine_def engine_replay_def Let_def built_fields demo_build_env_def)

lemma demo_message_valid: "Validation demo_message = []"
proof -
  let ?e = "vsEngine (vasp_run demo_vasp_ops (fresh_vasp Map.empty))"
  obtain us n where c: "collect_users demo_build_env ''t1'' ''2026'' ?e = (us, n)" by force
  have T: "filter (\<lambda>t. carf_period ''2026'' (TradedAt t)) (Trades (beTradeOrd demo_build_env) ''t1'' ?e) = [demo_buy]"
    by (simp add: Trades_def demo_vasp_state demo_build_env_def List.map_filter_simps demo_buy_def carf_period_iff)
  from collect_users_spec [OF T [symmetric] refl refl c] have "users_ok us" "us \<noteq> []" "n > 0" by auto
  then show ?thesis unfolding demo_message_def
    by (intro built_validation [OF _ c]) (simp_all add: CARFRequiredFields_def demo_build_env_def)
qed

theorem transmission_guarded_witness:
  "status_of (snd (handleCARFTransmit (demo_gate_env None) (demo_gate_env None) (demo_gate_env None) True (Some ''carf-1'')
       (vasp_run demo_vasp_ops (fresh_vasp Map.empty)))) \<noteq> 200 \<and>
   (let reg = demo_gate_env (Some [(''carf.transmit_enabled'', True, ''''), (''carf.gate.changed'', True, '''')]);
        s = vasp_run (demo_vasp_ops @ [VTransmit reg reg reg True (Some ''carf-1'')]) (fresh_vasp Map.empty)
    in cfRecords (vsCarf s) = [''carf-1'' \<mapsto> demo_message\<lparr>cfStatus := ''transmitted''\<rparr>] \<and> ValidateCARF (demo_message\<lparr>cfStatus := ''transmitted''\<rparr>) Map.empty = [])"
proof -
  let ?s = "vasp_run demo_vasp_ops (fresh_vasp Map.empty)"
  let ?reg = "demo_gate_env (Some [(''carf.transmit_enabled'', True, ''''), (''carf.gate.changed'', True, '''')])"
  let ?t = "vasp_run (demo_vasp_ops @ [VTransmit ?reg ?reg ?reg True (Some ''carf-1'')]) (fresh_vasp Map.empty)"
  have shut: "\<forall>x\<in>set demo_vasp_ops. keeps_shut ''carf.transmit_enabled'' x" by (simp add: demo_vasp_ops_def)
  have none: "env_shut ''carf.transmit_enabled'' (demo_gate_env None)" by (simp add: env_shut_def demo_gate_env_def)
  have "status_of (snd (handleCARFTransmit (demo_gate_env None) (demo_gate_env None) (demo_gate_env None) True (Some ''carf-1'') ?s)) \<noteq> 200"
    using transmission_guarded [OF refl, of demo_vasp_ops Map.empty] shut none by blast
  moreover have "gates_seen ?reg ?reg ?reg (vsGates ?s)"
    by (simp add: gates_seen_def demo_vasp_state GateOpen_eq Gates_def NewGateChecker_def refresh_def demo_gate_env_def gate_open_in_def default_gates_def Let_def)
  then have t: "cfRecords (vsCarf ?t) = [''carf-1'' \<mapsto> demo_message\<lparr>cfStatus := ''transmitted''\<rparr>]"
  proof -
    obtain s' resp where h: "handleCARFTransmit ?reg ?reg ?reg True (Some ''carf-1'') ?s = (s', resp)" by force
    then have "cfRecords (vsCarf s') = [''carf-1'' \<mapsto> demo_message\<lparr>cfStatus := ''transmitted''\<rparr>]"
    proof (cases rule: transmit_cases)
      case rejected
      then show ?thesis using h demo_message_valid \<open>gates_seen ?reg ?reg ?reg (vsGates ?s)\<close>
        by (auto simp: handleCARFTransmit_def GetRecord_def demo_vasp_state gates_seen_def Let_def split: prod.splits bool.splits)
    next
      case (sent i r)
      then have "i = ''carf-1''" "r = demo_message" by (auto simp: GetRecord_def demo_vasp_state)
      with sent(5) show ?thesis
        by (simp add: AddRecord_def poke_record_def demo_vasp_state Let_def demo_message_def built_fields demo_build_env_def)
    qed (use \<open>gates_seen ?reg ?reg ?reg (vsGates ?s)\<close> in blast)
    with h show ?thesis by (simp add: vasp_run_def)
  qed
  moreover have "ValidateCARF (demo_message\<lparr>cfStatus := ''transmitted''\<rparr>) Map.empty = []"
    by (rule transmission_guarded [OF refl, THEN conjunct1, rule_format, OF fun_cong [OF t, THEN trans]]) simp_all
  ultimately show ?thesis by (simp add: Let_def)
qed

lemma built_report:
  "cfUsers (BuildCARFMessage v e packs tenant period docType corrOf reason) = length (user_reports (fst (collect_users v tenant period e)))"
  "cfTransactions (BuildCARFMessage v e packs tenant period docType corrOf reason) = snd (collect_users v tenant period e)"
  "cfXML (BuildCARFMessage v e packs tenant period docType corrOf reason) =
     carf_xml (carf_message v tenant period docType corrOf (user_reports (fst (collect_users v tenant period e))))"
  by (simp_all add: BuildCARFMessage_def draft_record_def Let_def)

text \<open>C19. A message reports everything once. For a reachable engine and a tenant, the user reports are in the order of the user hashes, one for every user with a trade or
  a transfer of the tenant in the period; each lists that user's trades, transfers and booked gains, and nothing else; the recorded counts are those of the reports.\<close>

theorem message_reports_once:
  assumes "eng_reach e" "tenant \<noteq> ''''" "distinct (beTradeOrd v)" "set (beTradeOrd v) = dom (trades e)" "distinct (beTransferOrd v)" "set (beTransferOrd v) = dom (transfers e)"
    and "T = filter (\<lambda>t. carf_period period (TradedAt t)) (Trades (beTradeOrd v) tenant e)"
    and "X = filter (\<lambda>t. carf_period period (MovedAt t)) (Transfers (beTransferOrd v) tenant e)"
    and "L = filter (\<lambda>gl. carf_period period (BookedAt gl)) (Ledger tenant e)"
    and "R = user_reports (fst (collect_users v tenant period e))" "m = BuildCARFMessage v e packs tenant period docType corrOf reason"
  shows "distinct T \<and> set T = {t \<in> ran (trades e). tdTenantID t = tenant \<and> prefix period (TradedAt t)} \<and>
    distinct X \<and> set X = {t \<in> ran (transfers e). xfTenantID t = tenant \<and> prefix period (MovedAt t)} \<and>
    map urUserHash R = sorted_list_of_set (tdUserHash ` set T \<union> xfUserHash ` set X) \<and>
    (\<forall>r\<in>set R. urTransactions r = map trade_tx (filter (\<lambda>t. tdUserHash t = urUserHash r) T) @ map transfer_tx (filter (\<lambda>t. xfUserHash t = urUserHash r) X) @
        map gain_tx (filter (\<lambda>gl. glUserHash gl = urUserHash r) L)) \<and>
    cfUsers m = length R \<and> cfXML m = carf_xml (carf_message v tenant period docType corrOf R) \<and>
    cfTransactions m = length T + length X + length (filter (\<lambda>gl. glUserHash gl \<in> urUserHash ` set R) L)"
proof -
  obtain us n where c: "collect_users v tenant period e = (us, n)" by force
  have R: "R = user_reports us" using assms(10) c by simp
  note spec = collect_users_spec [OF assms(7-9) c]
  note rep = user_reports_spec [OF spec [THEN conjunct1]]
  have users: "urUserHash ` set R = fst ` set us" using arg_cong [OF rep(1), of set] by (simp add: R)
  have ks: "map urUserHash R = sorted_list_of_set (fst ` set us)"
    using rep(1) spec by (metis R distinct_sort list.set_map set_sort sorted_sort sorted_list_of_set.idem_if_sorted_distinct users_ok_def)
  have "map urUserHash R = sorted_list_of_set (tdUserHash ` set T \<union> xfUserHash ` set X)"
    using spec ks by argo
  moreover have "n = length T + length X + length (filter (\<lambda>gl. glUserHash gl \<in> urUserHash ` set R) L)"
    using spec unfolding users by argo
  moreover have "cfUsers m = length R" "cfXML m = carf_xml (carf_message v tenant period docType corrOf R)" "cfTransactions m = n"
    unfolding assms(11) R by (simp_all add: built_report c)
  moreover have "distinct T \<and> set T = {t \<in> ran (trades e). tdTenantID t = tenant \<and> prefix period (TradedAt t)}"
    using Trades_once [OF reach_ok [OF assms(1)] assms(3,4,2)] unfolding assms(7) by (auto simp: carf_period_iff)
  moreover have "distinct X \<and> set X = {t \<in> ran (transfers e). xfTenantID t = tenant \<and> prefix period (MovedAt t)}"
    using Transfers_once [OF reach_ok [OF assms(1)] assms(5,6,2)] unfolding assms(8) by (auto simp: carf_period_iff)
  moreover have "\<forall>r\<in>set R. urTransactions r = map trade_tx (filter (\<lambda>t. tdUserHash t = urUserHash r) T) @ map transfer_tx (filter (\<lambda>t. xfUserHash t = urUserHash r) X) @
        map gain_tx (filter (\<lambda>gl. glUserHash gl = urUserHash r) L)"
    using spec rep(2) unfolding R by metis
  ultimately show ?thesis by (intro conjI) simp_all
qed

theorem message_reports_once_witness:
  "cfUsers demo_message = 1 \<and> cfTransactions demo_message = 1"
proof -
  let ?e = "vsEngine (vasp_run demo_vasp_ops (fresh_vasp Map.empty))"
  have e: "?e = eng_run [OpTrade demo_eng_env demo_buy ''''] fresh_engine"
    by (simp add: demo_vasp_ops_def fresh_vasp_def boot_def fresh_engine_def handleIngestTrade_def demo_buy_def split: prod.splits sum.splits)
  have reach: "eng_reach ?e" unfolding e by (intro reach_run eng_reach.start) (simp add: demo_buy_def in64_def)
  have led: "ledger ?e = []" unfolding e by (simp add: IngestTrade_def named_trade_def dated_trade_def demo_buy_def Let_def)
  have T: "filter (\<lambda>t. carf_period ''2026'' (TradedAt t)) (Trades (beTradeOrd demo_build_env) ''t1'' ?e) = [demo_buy]"
    by (simp add: Trades_def demo_vasp_state demo_build_env_def List.map_filter_simps demo_buy_def carf_period_iff)
  have X: "filter (\<lambda>t. carf_period ''2026'' (MovedAt t)) (Transfers (beTransferOrd demo_build_env) ''t1'' ?e) = []"
    by (simp add: Transfers_def demo_vasp_state demo_build_env_def List.map_filter_simps)
  have L: "filter (\<lambda>gl. carf_period ''2026'' (BookedAt gl)) (Ledger ''t1'' ?e) = []"
    by (simp add: Ledger_def led)
  let ?R = "user_reports (fst (collect_users demo_build_env ''t1'' ''2026'' ?e))"
  note m = message_reports_once [where e = ?e and tenant = "''t1''" and v = demo_build_env and period = "''2026''" and m = demo_message and packs = Map.empty
      and docType = "''OECD1''" and corrOf = "''''" and reason = "''''", OF reach _ _ _ _ _ T [symmetric] X [symmetric] L [symmetric] refl demo_message_def]
  have "length (map urUserHash ?R) = 1" using m by (simp add: demo_build_env_def demo_vasp_state)
  then show ?thesis using m by (simp add: demo_build_env_def demo_vasp_state demo_message_def)
qed

section \<open>Restart\<close>



section \<open>Reading rule packs\<close>

text \<open>C21. The YAML parser of the VASP service returns for every document: a bound of twice the number of lines plus two on the depth of its calls and loops is enough,
  and a larger bound gives the same result.\<close>

theorem vasp_parser_returns: "\<exists>r. \<forall>d. depth_for doc \<le> d \<longrightarrow> parse_document (vparsers flt d) doc = Some r"
  using vParseYAML_returns [of flt doc] vdepth_irrelevant by auto

theorem vasp_parser_returns_witness: "\<exists>r. parse_document (vparsers (\<lambda>_. None) (depth_for ''a: 1'')) ''a: 1'' = Some r"
  using vasp_parser_returns [of "''a: 1''" "\<lambda>_. None"] by blast

text \<open>The YAML parser of the POS VAT service runs forever on a list item \<^verbatim>\<open>- key: value\<close> that is followed by a deeper list item: no bound on the depth of its calls
  and loops is enough.\<close>

theorem pos_parser_hangs:
  assumes "yaml_lines doc = ln # nx # ls" "yContent ln = ''- '' @ item" "item \<noteq> []" "psplitKV item = Some (k, v)"
    and "\<not> HasPrefix v ''{''" "pparseScalar flt v = Inr y" "HasPrefix (yContent nx) ''- ''" "yIndent nx > yIndent ln"
  shows "pParseYAML flt depth doc = None"
  using assms by (rule pParseYAML_stuck)

theorem pos_parser_hangs_witness: "pParseYAML (\<lambda>_. None) 1000 (''- id: x'' @ [CHR 0x0A] @ ''  - y'') = None"
proof -
  have split: "split_on (CHR 0x0A) (''- id: x'' @ [CHR 0x0A] @ ''  - y'') = [''- id: x'', ''  - y'']" by simp
  have trim: "TrimSpace ''- id: x'' = ''- id: x''" "TrimSpace ''  - y'' = ''- y''" "TrimSpace ''id'' = ''id''" "TrimSpace '' x'' = ''x''" "TrimSpace ''x'' = ''x''"
    by (simp_all add: TrimSpace_ends TrimSpace_blank printable_def)
  have lines: "yaml_lines (''- id: x'' @ [CHR 0x0A] @ ''  - y'') = [\<lparr>yIndent = 0, yContent = ''- id: x''\<rparr>, \<lparr>yIndent = 2, yContent = ''- y''\<rparr>]"
    unfolding yaml_lines_def split
    by (simp add: List.map_filter_simps yaml_line_def trim stripComment_def HasPrefix_def Let_def)
  have kv: "psplitKV ''id: x'' = Some (''id'', ''x'')" by (simp add: psplitKV_def trim)
  have sc: "pparseScalar (\<lambda>_. None) ''x'' = Inr (YStr ''x'')"
    by (subst pparseScalar.simps) (simp add: trim HasPrefix_def quoted_def number_or_text_def ParseInt_def isDigit_def)
  show ?thesis by (rule pos_parser_hangs [OF lines _ _ kv _ sc]) (simp_all add: HasPrefix_def)
qed

end
