(* ===== verification/Authx.thy ===== *)
theory Authx
  imports Go_Prelude
begin

text \<open>
  The shared authentication packages: \<^verbatim>\<open>packages/authx/authx.go\<close> (development tokens, the Keycloak
  verifier with its cache of public keys, the choice of the mode at start and the middleware) and
  \<^verbatim>\<open>packages/shared/devjwt\<close> (\<^verbatim>\<open>devjwt.go\<close>, \<^verbatim>\<open>keycloak.go\<close>), through which the e-invoicing service uses it.

  Base64 is written out. The cryptography and the JSON codecs are fields of \<open>crypto\<close>: HMAC-SHA-256
  under a secret, the check of an RSA signature over the text of header and payload (PKCS 1 v1.5 over
  its SHA-256 digest), the decoders of header, claims and Keycloak claims and the encoder of claims.
  Clock readings are in nanoseconds; an answer of the key endpoint is \<open>None\<close> when the request fails,
  the status is not 200 or the body does not decode. Error texts are the constructors of \<open>auth_error\<close>.
\<close>

section \<open>Base64\<close>

text \<open>\<^verbatim>\<open>base64.RawURLEncoding\<close>: groups of three bytes as four digits of six bits, no padding. The decoder skips line ends and ignores the unused low bits of the last digit.\<close>

definition b64_char :: "nat \<Rightarrow> char" where
  "b64_char n =
     char_of (if n < 26 then n + 65 else if n < 52 then n + 71 else if n < 62 then n - 4 else if n = 62 then 45 else 95)"

definition b64_val :: "char \<Rightarrow> nat option" where
  "b64_val c =
     (let n = of_char c :: nat
      in if 65 \<le> n \<and> n \<le> 90 then Some (n - 65) else if 97 \<le> n \<and> n \<le> 122 then Some (n - 71)
         else if 48 \<le> n \<and> n \<le> 57 then Some (n + 4) else if n = 45 then Some 62 else if n = 95 then Some 63 else None)"

fun sextets :: "nat list \<Rightarrow> nat list" where
  "sextets (a # b # c # r) = a div 4 # (a mod 4 * 16 + b div 16) # (b mod 16 * 4 + c div 64) # c mod 64 # sextets r"
| "sextets [a, b] = [a div 4, a mod 4 * 16 + b div 16, b mod 16 * 4]"
| "sextets [a] = [a div 4, a mod 4 * 16]"
| "sextets [] = []"

fun octets :: "nat list \<Rightarrow> nat list option" where
  "octets (w # x # y # z # r) = map_option (\<lambda>t. (w * 4 + x div 16) # (x mod 16 * 16 + y div 4) # (y mod 4 * 64 + z) # t) (octets r)"
| "octets [w, x, y] = Some [w * 4 + x div 16, x mod 16 * 16 + y div 4]"
| "octets [w, x] = Some [w * 4 + x div 16]"
| "octets [w] = None"
| "octets [] = Some []"

fun b64_vals :: "string \<Rightarrow> nat list option" where
  "b64_vals [] = Some []"
| "b64_vals (c # s) =
     (if c = CHR 0x0A \<or> c = CHR 0x0D then b64_vals s
      else (case b64_val c of None \<Rightarrow> None | Some n \<Rightarrow> map_option ((#) n) (b64_vals s)))"

definition b64 :: "string \<Rightarrow> string" where
  "b64 bs = map b64_char (sextets (map of_char bs))"

definition unb64 :: "string \<Rightarrow> string option" where
  "unb64 s = map_option (map char_of) (Option.bind (b64_vals s) octets)"

section \<open>Data\<close>

datatype auth_error =
    MalformedToken | BadSignature | BadEncoding | BadJSON | TokenExpired | UnexpectedAlg string
  | JWKSFetch | UnknownKid string | BadIssuer string | AudienceRefused "string list"
  | NoCredentials

datatype boot_error = NeedsIssuer | NeedsAudience | RefusesDev string | NeedsSecret string

record AuthClaims =
  acSub :: string
  acRoles :: "string list"
  acTenantID :: string
  acExp :: int64
  acIat :: int64

record jwksKey =
  jkKty :: string
  jkKid :: string
  jkAlg :: string
  jkUse :: string
  jkN :: string
  jkE :: string

record rsaKey =
  rsaN :: nat
  rsaE :: int64

record KeycloakVerifier =
  kvIssuer :: string
  kvAudience :: string
  kvJWKSURL :: string
  kvKeys :: "string \<rightharpoonup> rsaKey"
  kvFetchedAt :: "int option" \<comment> \<open>\<open>None\<close>: never\<close>

text \<open>\<open>aud\<close> as decoded into \<^verbatim>\<open>any\<close>; \<open>None\<close> is an element of the array that is not a string.\<close>

datatype aud = AudString string | AudList "string option list"  | AudOther

record kcClaims =
  kcSub :: string
  kcIss :: string
  kcAud :: aud
  kcExp :: int64
  kcIat :: int64
  kcTenantID :: string
  kcRealmRoles :: "string list"
  kcResource :: "string \<rightharpoonup> string list"

record crypto =
  crMac :: "string \<Rightarrow> string \<Rightarrow> string" \<comment> \<open>secret, text\<close>
  crRsa :: "rsaKey \<Rightarrow> string \<Rightarrow> string \<Rightarrow> bool" \<comment> \<open>key, text, signature\<close>
  crHeader :: "string \<Rightarrow> (string \<times> string) option" \<comment> \<open>algorithm and key id\<close>
  crClaims :: "string \<Rightarrow> AuthClaims option"
  crKcClaims :: "string \<Rightarrow> kcClaims option"
  crPrint :: "AuthClaims \<Rightarrow> string"

definition unix :: "int \<Rightarrow> int" where
  "unix t = t div 1000000000"

definition TrimSlash :: "string \<Rightarrow> string" where
  "TrimSlash s = (if HasSuffix s ''/'' then butlast s else s)"

section \<open>Development tokens\<close>

definition VerifyDev :: "crypto \<Rightarrow> int \<Rightarrow> string \<Rightarrow> string \<Rightarrow> auth_error + AuthClaims" where
  "VerifyDev cr now secret token =
     (case split_on (CHR ''.'') token of
        [h, p, s] \<Rightarrow>
          (case unb64 s of
             None \<Rightarrow> Inl BadSignature
           | Some sig \<Rightarrow>
               if sig \<noteq> crMac cr secret (h @ ''.'' @ p) then Inl BadSignature
               else (case unb64 p of
                       None \<Rightarrow> Inl BadEncoding
                     | Some pl \<Rightarrow>
                         (case crClaims cr pl of
                            None \<Rightarrow> Inl BadJSON
                          | Some c \<Rightarrow> if acExp c \<noteq> 0 \<and> unix now > acExp c then Inl TokenExpired else Inr c)))
      | _ \<Rightarrow> Inl MalformedToken)"

definition stamped :: "int \<Rightarrow> AuthClaims \<Rightarrow> AuthClaims" where
  "stamped now c =
     (let c1 = (if acIat c = 0 then c\<lparr>acIat := unix now\<rparr> else c)
      in if acExp c1 = 0 then c1\<lparr>acExp := unix (now + 8 * 3600 * 1000000000)\<rparr> else c1)"

definition jwt_header :: string where
  "jwt_header = [CHR ''{'', CHR 0x22] @ ''alg'' @ [CHR 0x22, CHR '':'', CHR 0x22] @ ''HS256'' @ [CHR 0x22, CHR '','', CHR 0x22] @
     ''typ'' @ [CHR 0x22, CHR '':'', CHR 0x22] @ ''JWT'' @ [CHR 0x22, CHR ''}'']"

definition IssueDev :: "crypto \<Rightarrow> int \<Rightarrow> string \<Rightarrow> AuthClaims \<Rightarrow> string" where
  "IssueDev cr now secret c =
     (let msg = b64 jwt_header @ ''.'' @ b64 (crPrint cr (stamped now c))
      in msg @ ''.'' @ b64 (crMac cr secret msg))"

section \<open>Keycloak\<close>

definition NewKeycloakVerifier :: "string \<Rightarrow> string \<Rightarrow> string \<Rightarrow> KeycloakVerifier" where
  "NewKeycloakVerifier issuer audience jwksURL =
     \<lparr>kvIssuer = issuer, kvAudience = audience,
      kvJWKSURL = (if jwksURL = '''' then TrimSlash issuer @ ''/protocol/openid-connect/certs'' else jwksURL),
      kvKeys = Map.empty, kvFetchedAt = None\<rparr>"

definition jwksCacheTTL :: int where
  "jwksCacheTTL = 5 * 60 * 1000000000"

text \<open>\<^verbatim>\<open>e = e<<8 | int(b)\<close> over the bytes of the exponent.\<close>

definition exponent :: "string \<Rightarrow> int64" where
  "exponent bs = foldl (\<lambda>e b. wrap64 (e * 256) + int (of_char b)) 0 bs"

definition modulus :: "string \<Rightarrow> nat" where
  "modulus bs = foldl (\<lambda>n b. n * 256 + of_char b) 0 bs"

definition jwks_key :: "crypto \<Rightarrow> jwksKey \<Rightarrow> (string \<times> rsaKey) option" where
  "jwks_key cr k =
     (if jkKty k \<noteq> ''RSA'' then None
      else (case (unb64 (jkN k), unb64 (jkE k)) of
              (Some nb, Some eb) \<Rightarrow> Some (jkKid k, \<lparr>rsaN = modulus nb, rsaE = exponent eb\<rparr>)
            | _ \<Rightarrow> None))"

definition fetchJWKS :: "crypto \<Rightarrow> int \<Rightarrow> jwksKey list option \<Rightarrow> KeycloakVerifier \<Rightarrow> KeycloakVerifier \<times> bool" where
  "fetchJWKS cr now answer v =
     (case answer of
        None \<Rightarrow> (v, False)
      | Some doc \<Rightarrow>
          (v\<lparr>kvKeys := fold (\<lambda>(kid, key) m. m(kid \<mapsto> key)) (List.map_filter (jwks_key cr) doc) Map.empty, kvFetchedAt := Some now\<rparr>, True))"

definition keyFor :: "crypto \<Rightarrow> int \<Rightarrow> jwksKey list option \<Rightarrow> string \<Rightarrow> KeycloakVerifier \<Rightarrow> KeycloakVerifier \<times> (auth_error + rsaKey)" where
  "keyFor cr now answer kid v =
     (let fresh = (case kvFetchedAt v of None \<Rightarrow> False | Some t \<Rightarrow> now - t < jwksCacheTTL)
      in case (kvKeys v kid, fresh) of
           (Some k, True) \<Rightarrow> (v, Inr k)
         | _ \<Rightarrow>
             (case fetchJWKS cr now answer v of
                (v1, False) \<Rightarrow> (v1, case kvKeys v1 kid of Some k \<Rightarrow> Inr k | None \<Rightarrow> Inl JWKSFetch)
              | (v1, True) \<Rightarrow> (v1, case kvKeys v1 kid of Some k \<Rightarrow> Inr k | None \<Rightarrow> Inl (UnknownKid kid))))"

fun audStrings :: "aud \<Rightarrow> string list" where
  "audStrings (AudString s) = [s]"
| "audStrings (AudList l) = List.map_filter id l"
| "audStrings AudOther = []"

text \<open>The checks of the claims after the signature.\<close>

definition accept_claims :: "int \<Rightarrow> KeycloakVerifier \<Rightarrow> kcClaims \<Rightarrow> auth_error + AuthClaims" where
  "accept_claims now v kc =
     (if kvIssuer v \<noteq> '''' \<and> kcIss kc \<noteq> TrimSlash (kvIssuer v) \<and> kcIss kc \<noteq> kvIssuer v
      then Inl (BadIssuer (kcIss kc))
      else if kcExp kc = 0 \<or> unix now > kcExp kc then Inl TokenExpired
      else if kvAudience v \<noteq> '''' \<and> kvAudience v \<notin> set (audStrings (kcAud kc)) then Inl (AudienceRefused (audStrings (kcAud kc)))
      else Inr \<lparr>acSub = kcSub kc,
                acRoles = kcRealmRoles kc @ (if kvAudience v \<noteq> '''' then (case kcResource kc (kvAudience v) of Some rs \<Rightarrow> rs | None \<Rightarrow> []) else []),
                acTenantID = kcTenantID kc, acExp = kcExp kc, acIat = kcIat kc\<rparr>)"

definition KcVerify :: "crypto \<Rightarrow> int \<Rightarrow> jwksKey list option \<Rightarrow> string \<Rightarrow> KeycloakVerifier \<Rightarrow> KeycloakVerifier \<times> (auth_error + AuthClaims)" where
  "KcVerify cr now answer token v =
     (case split_on (CHR ''.'') token of
        [h, p, s] \<Rightarrow>
          (case Option.bind (unb64 h) (crHeader cr) of
             None \<Rightarrow> (v, Inl (if unb64 h = None then BadEncoding else BadJSON))
           | Some (alg, kid) \<Rightarrow>
               if alg \<noteq> ''RS256'' then (v, Inl (UnexpectedAlg alg))
               else (case keyFor cr now answer kid v of
                       (v1, Inl e) \<Rightarrow> (v1, Inl e)
                     | (v1, Inr key) \<Rightarrow>
                         (case unb64 s of
                            None \<Rightarrow> (v1, Inl BadEncoding)
                          | Some sig \<Rightarrow>
                              if \<not> crRsa cr key (h @ ''.'' @ p) sig then (v1, Inl BadSignature)
                              else (case Option.bind (unb64 p) (crKcClaims cr) of
                                      None \<Rightarrow> (v1, Inl (if unb64 p = None then BadEncoding else BadJSON))
                                    | Some kc \<Rightarrow> (v1, accept_claims now v1 kc)))))
      | _ \<Rightarrow> (v, Inl MalformedToken))"

section \<open>Mode and middleware\<close>

record auth_vars =
  avMode :: string \<comment> \<open>\<^verbatim>\<open>AUTH_MODE\<close>\<close>
  avProfile :: string
  avDevSecret :: string
  avIssuer :: string
  avAudience :: string
  avJwksURL :: string

definition KeycloakVerifierFromEnv :: "auth_vars \<Rightarrow> KeycloakVerifier option" where
  "KeycloakVerifierFromEnv a = (if avIssuer a = '''' then None else Some (NewKeycloakVerifier (avIssuer a) (avAudience a) (avJwksURL a)))"

definition middlewareConfigFromEnv :: "auth_vars \<Rightarrow> boot_error + string \<times> KeycloakVerifier option" where
  "middlewareConfigFromEnv a =
     (let mode = (if avMode a = '''' then ''dev'' else avMode a)
      in if mode = ''keycloak''
         then (case KeycloakVerifierFromEnv a of
                 None \<Rightarrow> Inl NeedsIssuer
               | Some kc \<Rightarrow>
                   if avProfile a = ''prod'' \<and> kvAudience kc = '''' then Inl NeedsAudience
                   else Inr (mode, Some kc))
         else if avProfile a = ''prod'' then Inl (RefusesDev mode)
         else if avDevSecret a = '''' then Inl (NeedsSecret mode)
         else Inr (mode, None))"

record auth_request =
  arPath :: string
  arAuthorization :: string
  arDevRole :: string
  arTenant :: string

text \<open>\<open>Principal c\<close> is the next handler called with \<open>c\<close> in the context of the request.\<close>

datatype verdict = Public | Refused auth_error | Principal AuthClaims

definition dev_roles :: "string list" where
  "dev_roles = [''admin'', ''operator'', ''auditor'']"

definition dev_principal :: "auth_request \<Rightarrow> AuthClaims" where
  "dev_principal r = \<lparr>acSub = ''dev-'' @ arDevRole r, acRoles = [arDevRole r], acTenantID = arTenant r, acExp = 0, acIat = 0\<rparr>"

definition verdict_of :: "auth_error + AuthClaims \<Rightarrow> verdict" where
  "verdict_of x = (case x of Inl e \<Rightarrow> Refused e | Inr c \<Rightarrow> Principal c)"

text \<open>One request of a started service: its mode and, in Keycloak mode, its verifier.\<close>

definition Middleware :: "crypto \<Rightarrow> int \<Rightarrow> jwksKey list option \<Rightarrow> string \<Rightarrow> auth_request \<Rightarrow> string \<times> KeycloakVerifier option \<Rightarrow>
    (string \<times> KeycloakVerifier option) \<times> verdict" where
  "Middleware cr now answer secret r conf =
     (if arPath r = ''/healthz'' \<or> arPath r = ''/readyz'' then (conf, Public)
      else if HasPrefix (arAuthorization r) ''Bearer ''
      then (let tok = drop 7 (arAuthorization r)
            in case (fst conf = ''keycloak'', snd conf) of
                 (True, Some kc) \<Rightarrow> (case KcVerify cr now answer tok kc of (kc1, x) \<Rightarrow> ((fst conf, Some kc1), verdict_of x))
               | _ \<Rightarrow> (conf, verdict_of (VerifyDev cr now secret tok)))
      else if fst conf = ''dev'' \<and> arDevRole r \<in> set dev_roles then (conf, Principal (dev_principal r))
      else (conf, Refused NoCredentials))"

section \<open>The middleware of the e-invoicing service\<close>

text \<open>\<^verbatim>\<open>devjwt.Secret\<close>; \<open>None\<close> is the end of the process.\<close>

definition Secret :: "auth_vars \<Rightarrow> string option" where
  "Secret a =
     (if avDevSecret a \<noteq> '''' then Some (avDevSecret a)
      else if avMode a \<noteq> '''' \<and> avMode a \<noteq> ''dev'' then None
      else Some ''meridian-dev-secret-change-me-32!'')"

definition keycloakMiddleware :: "crypto \<Rightarrow> int \<Rightarrow> jwksKey list option \<Rightarrow> auth_request \<Rightarrow> KeycloakVerifier \<Rightarrow> KeycloakVerifier \<times> verdict" where
  "keycloakMiddleware cr now answer r v =
     (if arPath r = ''/healthz'' \<or> arPath r = ''/readyz'' then (v, Public)
      else if HasPrefix (arAuthorization r) ''Bearer ''
      then (case KcVerify cr now answer (drop 7 (arAuthorization r)) v of (v1, x) \<Rightarrow> (v1, verdict_of x))
      else (v, Refused NoCredentials))"

definition devMiddleware :: "crypto \<Rightarrow> int \<Rightarrow> auth_vars \<Rightarrow> auth_request \<Rightarrow> verdict option" where
  "devMiddleware cr now a r =
     (if arPath r = ''/healthz'' \<or> arPath r = ''/readyz'' then Some Public
      else if HasPrefix (arAuthorization r) ''Bearer ''
      then map_option (\<lambda>secret. verdict_of (VerifyDev cr now secret (drop 7 (arAuthorization r)))) (Secret a)
      else if arDevRole r \<in> set dev_roles then Some (Principal (dev_principal r))
      else Some (Refused NoCredentials))"

text \<open>\<^verbatim>\<open>MiddlewareEnv\<close> at start: \<open>None\<close> is the refusal to start, \<open>Some None\<close> the development middleware.\<close>

definition MiddlewareEnv :: "auth_vars \<Rightarrow> KeycloakVerifier option option" where
  "MiddlewareEnv a =
     (if avMode a = ''keycloak'' then (case KeycloakVerifierFromEnv a of None \<Rightarrow> None | Some v \<Rightarrow> Some (Some v)) else Some None)"

section \<open>The middleware of the POS-VAT service\<close>

text \<open>The claims of that service have no \<^verbatim>\<open>iat\<close>.\<close>

definition pos_verifyHS256 :: "crypto \<Rightarrow> int \<Rightarrow> string \<Rightarrow> string \<Rightarrow> auth_error + AuthClaims" where
  "pos_verifyHS256 cr now token secret =
     (case split_on (CHR ''.'') token of
        [h, p, s] \<Rightarrow>
          (case unb64 s of
             None \<Rightarrow> Inl BadSignature
           | Some sig \<Rightarrow>
               if crMac cr secret (h @ ''.'' @ p) \<noteq> sig then Inl BadSignature
               else (case unb64 p of
                       None \<Rightarrow> Inl BadEncoding
                     | Some payload \<Rightarrow>
                         (case crClaims cr payload of
                            None \<Rightarrow> Inl BadJSON
                          | Some c \<Rightarrow> if acExp c \<noteq> 0 \<and> unix now > acExp c then Inl TokenExpired else Inr (c\<lparr>acIat := 0\<rparr>))))
      | _ \<Rightarrow> Inl MalformedToken)"

text \<open>\<open>conf\<close> is the configured mode with the verifier made at route registration.\<close>

definition pos_auth :: "crypto \<Rightarrow> int \<Rightarrow> jwksKey list option \<Rightarrow> string \<Rightarrow> auth_request \<Rightarrow> string \<times> KeycloakVerifier option \<Rightarrow>
    (string \<times> KeycloakVerifier option) \<times> verdict" where
  "pos_auth cr now answer secret r conf =
     (if HasPrefix (arAuthorization r) ''Bearer ''
      then (let tok = drop 7 (arAuthorization r)
            in case (fst conf = ''keycloak'', snd conf) of
                 (True, Some kc) \<Rightarrow>
                   (case KcVerify cr now answer tok kc of
                      (kc1, x) \<Rightarrow> ((fst conf, Some kc1), verdict_of (map_sum id (\<lambda>c. c\<lparr>acIat := 0\<rparr>) x)))
               | _ \<Rightarrow> (conf, verdict_of (pos_verifyHS256 cr now tok secret)))
      else if fst conf = ''dev'' \<and> arDevRole r \<in> set dev_roles then (conf, Principal (dev_principal r))
      else (conf, Refused NoCredentials))"

text \<open>The verifier at route registration: \<open>None\<close> is the refusal to start.\<close>

definition pos_auth_start :: "auth_vars \<Rightarrow> (string \<times> KeycloakVerifier option) option" where
  "pos_auth_start a =
     (let mode = (if avMode a = '''' then ''dev'' else avMode a)
      in if mode = ''keycloak'' then map_option (\<lambda>v. (mode, Some v)) (KeycloakVerifierFromEnv a) else Some (mode, None))"

definition resolveTINKey :: "string \<Rightarrow> string \<Rightarrow> string \<Rightarrow> string option" where
  "resolveTINKey key profile authMode =
     (let prod = (profile = ''prod'' \<or> authMode = ''keycloak'')
      in if key = '''' \<or> key = ''meridian-dev-tin-key''
         then (if prod then None else Some ''meridian-dev-tin-key'')
         else Some key)"

section \<open>Base64: the round trip\<close>

lemma of_char_b64:
  "n < 64 \<Longrightarrow> of_char (b64_char n) = (if n < 26 then n + 65 else if n < 52 then n + 71 else if n < 62 then n - 4 else if n = 62 then 45 else 95 :: nat)"
  by (simp add: b64_char_def)

lemma b64_char_simps [simp]:
  assumes "n < 64"
  shows "b64_val (b64_char n) = Some n" "b64_char n \<noteq> CHR 0x0A" "b64_char n \<noteq> CHR 0x0D" "b64_char n \<noteq> CHR ''.''"
proof -
  show "b64_val (b64_char n) = Some n" using assms by (auto simp: b64_val_def of_char_b64 Let_def)
  have "of_char (b64_char n) \<notin> {10, 13, 46 :: nat}" using assms by (auto simp: of_char_b64)
  then show "b64_char n \<noteq> CHR 0x0A" "b64_char n \<noteq> CHR 0x0D" "b64_char n \<noteq> CHR ''.''" by auto
qed

lemma sextets_bound: "\<forall>b\<in>set bs. b < 256 \<Longrightarrow> n \<in> set (sextets bs) \<Longrightarrow> n < 64"
  by (induction bs rule: sextets.induct) auto

lemma octets_sextets: "\<forall>b\<in>set bs. b < 256 \<Longrightarrow> octets (sextets bs) = Some bs"
  by (induction bs rule: sextets.induct) (auto simp: div_mult2_eq; presburger)+

lemma b64_vals_map: "\<forall>n\<in>set ns. n < 64 \<Longrightarrow> b64_vals (map b64_char ns) = Some ns"
  by (induction ns) auto

lemma of_char_bound: "\<forall>b\<in>set (map of_char bs). b < (256 :: nat)"
  by (simp add: of_char_def) 

lemma unb64_b64 [simp]: "unb64 (b64 bs) = Some bs"
  using sextets_bound [OF of_char_bound] octets_sextets [OF of_char_bound]
  by (simp add: unb64_def b64_def b64_vals_map comp_def)

lemma b64_no_dot: "CHR ''.'' \<notin> set (b64 bs)"
  using sextets_bound [OF of_char_bound] by (auto simp: b64_def dest!: sym [of "CHR ''.''"])

lemma token_parts:
  "CHR ''.'' \<notin> set h \<Longrightarrow> CHR ''.'' \<notin> set p \<Longrightarrow> CHR ''.'' \<notin> set s \<Longrightarrow> split_on (CHR ''.'') (h @ ''.'' @ p @ ''.'' @ s) = [h, p, s]"
  by (simp add: split_on_app split_on_absent)

lemma parts_token: "split_on (CHR ''.'') t = [h, p, s] \<Longrightarrow> t = h @ ''.'' @ p @ ''.'' @ s"
  using join_split_on [of "CHR ''.''" t] by simp

section \<open>Development tokens: the round trip\<close>

lemma IssueDev_parts:
  "split_on (CHR ''.'') (IssueDev cr now secret c) =
     [b64 jwt_header, b64 (crPrint cr (stamped now c)), b64 (crMac cr secret (b64 jwt_header @ ''.'' @ b64 (crPrint cr (stamped now c))))]"
  unfolding IssueDev_def Let_def by (subst append_assoc, subst append_assoc) (simp only: token_parts b64_no_dot not_False_eq_True)

lemma VerifyDev_issued:
  assumes "crClaims cr (crPrint cr (stamped now c)) = Some (stamped now c)"
  shows "VerifyDev cr now' secret (IssueDev cr now secret c) =
     (if acExp (stamped now c) \<noteq> 0 \<and> unix now' > acExp (stamped now c) then Inl TokenExpired else Inr (stamped now c))"
  using assms by (simp add: VerifyDev_def IssueDev_parts)

lemma VerifyDev_okD:
  assumes "VerifyDev cr now secret tok = Inr c"
  obtains h p s where "tok = h @ ''.'' @ p @ ''.'' @ s" "unb64 s = Some (crMac cr secret (h @ ''.'' @ p))"
    "Option.bind (unb64 p) (crClaims cr) = Some c" "acExp c = 0 \<or> unix now \<le> acExp c"
  using assms by (auto simp: VerifyDev_def dest!: parts_token split: list.splits option.splits if_splits)

section \<open>Keycloak\<close>

definition jwks_map :: "crypto \<Rightarrow> jwksKey list \<Rightarrow> string \<rightharpoonup> rsaKey" where
  "jwks_map cr doc = fold (\<lambda>(kid, key) m. m(kid \<mapsto> key)) (List.map_filter (jwks_key cr) doc) Map.empty"

lemma fold_upd_mem: "fold (\<lambda>(k, v) m. m(k \<mapsto> v)) kvs m k = Some v \<Longrightarrow> (k, v) \<in> set kvs \<or> m k = Some v"
proof (induction kvs arbitrary: m)
  case (Cons p kvs)
  then show ?case using Cons.IH [of "m(fst p \<mapsto> snd p)"] by (cases p) (auto split: if_splits)
qed simp

lemma jwks_map_published: "jwks_map cr doc kid = Some key \<Longrightarrow> \<exists>k\<in>set doc. jwks_key cr k = Some (kid, key)"
  using fold_upd_mem [of "List.map_filter (jwks_key cr) doc" Map.empty kid key] by (force simp: jwks_map_def List.map_filter_def)

text \<open>What the endpoint answered at each moment so far, and a cache that is the content of one of these answers.\<close>

definition cached :: "crypto \<Rightarrow> (int \<times> jwksKey list option) set \<Rightarrow> KeycloakVerifier \<Rightarrow> bool" where
  "cached cr h v \<longleftrightarrow> kvKeys v = Map.empty \<or> (\<exists>t doc. (t, Some doc) \<in> h \<and> kvFetchedAt v = Some t \<and> kvKeys v = jwks_map cr doc)"

text \<open>The key under \<open>kid\<close> may be used at \<open>now\<close>: it was published less than the lifetime of the cache ago, or the endpoint does not answer.\<close>

definition usable :: "crypto \<Rightarrow> (int \<times> jwksKey list option) set \<Rightarrow> int \<Rightarrow> jwksKey list option \<Rightarrow> string \<Rightarrow> rsaKey \<Rightarrow> bool" where
  "usable cr h now ans kid key \<longleftrightarrow>
     (\<exists>t doc. (t, Some doc) \<in> h \<and> (\<exists>k\<in>set doc. jwks_key cr k = Some (kid, key)) \<and> (now - t < jwksCacheTTL \<or> ans = None))"

lemma fetchJWKS_eq:
  "fetchJWKS cr now ans v = (case ans of None \<Rightarrow> (v, False) | Some doc \<Rightarrow> (v\<lparr>kvKeys := jwks_map cr doc, kvFetchedAt := Some now\<rparr>, True))"
  by (simp add: fetchJWKS_def jwks_map_def split: option.splits)

lemma keyFor_sound:
  assumes "cached cr h v" "keyFor cr now ans kid v = (v1, x)"
  shows "cached cr (insert (now, ans) h) v1 \<and> kvIssuer v1 = kvIssuer v \<and> kvAudience v1 = kvAudience v \<and>
    (\<forall>key. x = Inr key \<longrightarrow> usable cr (insert (now, ans) h) now ans kid key)"
proof -
  have use: "usable cr (insert (now, ans) h) now ans kid key"
    if "kvKeys v kid = Some key" "ans = None \<or> (\<exists>t. kvFetchedAt v = Some t \<and> now - t < jwksCacheTTL)" for key
    using assms(1) that jwks_map_published unfolding cached_def usable_def by fastforce
  have new: "usable cr (insert (now, Some doc) h) now (Some doc) kid key" if "jwks_map cr doc kid = Some key" for doc key
    using jwks_map_published [OF that] by (auto simp: usable_def jwksCacheTTL_def intro!: exI [of _ now] exI [of _ doc])
  have old: "cached cr (insert (now, ans) h) v" using assms(1) by (auto simp: cached_def)
  show ?thesis
    using assms(2) use new old
    by (auto simp: keyFor_def fetchJWKS_eq cached_def Let_def split: option.splits if_splits prod.splits bool.splits)
qed

text \<open>A token that is accepted, in the words of the code's own checks.\<close>

definition genuine :: "crypto \<Rightarrow> (int \<times> jwksKey list option) set \<Rightarrow> int \<Rightarrow> jwksKey list option \<Rightarrow> string \<Rightarrow> string \<Rightarrow> string \<Rightarrow> AuthClaims \<Rightarrow> bool" where
  "genuine cr h now ans issuer audience token c \<longleftrightarrow>
     (\<exists>hd pl s kid key sig kc.
        token = hd @ ''.'' @ pl @ ''.'' @ s \<and>
        Option.bind (unb64 hd) (crHeader cr) = Some (''RS256'', kid) \<and>
        usable cr h now ans kid key \<and> unb64 s = Some sig \<and> crRsa cr key (hd @ ''.'' @ pl) sig \<and>
        Option.bind (unb64 pl) (crKcClaims cr) = Some kc \<and>
        (issuer = '''' \<or> kcIss kc \<in> {issuer, TrimSlash issuer}) \<and> unix now \<le> kcExp kc \<and>
        (audience = '''' \<or> audience \<in> set (audStrings (kcAud kc))) \<and>
        acSub c = kcSub kc \<and> acTenantID c = kcTenantID kc \<and>
        acRoles c = kcRealmRoles kc @ (if audience = '''' then [] else (case kcResource kc audience of Some rs \<Rightarrow> rs | None \<Rightarrow> [])))"

lemma accept_claims_okD:
  assumes "accept_claims now v kc = Inr c"
  shows "(kvIssuer v = '''' \<or> kcIss kc \<in> {kvIssuer v, TrimSlash (kvIssuer v)}) \<and> unix now \<le> kcExp kc \<and>
    (kvAudience v = '''' \<or> kvAudience v \<in> set (audStrings (kcAud kc))) \<and> acSub c = kcSub kc \<and> acTenantID c = kcTenantID kc \<and>
    acRoles c = kcRealmRoles kc @ (if kvAudience v = '''' then [] else (case kcResource kc (kvAudience v) of Some rs \<Rightarrow> rs | None \<Rightarrow> []))"
  using assms by (auto simp: accept_claims_def split: if_splits)

lemma KcVerify_sound:
  assumes "cached cr h v" "KcVerify cr now ans tok v = (v1, x)"
  shows "cached cr (insert (now, ans) h) v1 \<and> kvIssuer v1 = kvIssuer v \<and> kvAudience v1 = kvAudience v \<and>
    (\<forall>c. x = Inr c \<longrightarrow> genuine cr (insert (now, ans) h) now ans (kvIssuer v) (kvAudience v) tok c)"
proof (cases "\<exists>hd pl s kid. split_on (CHR ''.'') tok = [hd, pl, s] \<and> Option.bind (unb64 hd) (crHeader cr) = Some (''RS256'', kid)")
  case False
  then have "v1 = v" "\<forall>c. x \<noteq> Inr c"
    using assms(2) by (auto simp: KcVerify_def split: list.splits option.splits if_splits prod.splits)
  then show ?thesis using assms(1) by (auto simp: cached_def)
next
  case True
  then obtain hd pl s kid where tok: "split_on (CHR ''.'') tok = [hd, pl, s]" and hdr: "Option.bind (unb64 hd) (crHeader cr) = Some (''RS256'', kid)"
    by blast
  obtain w y where kf: "keyFor cr now ans kid v = (w, y)" by fastforce
  note key = keyFor_sound [OF assms(1) kf]
  have ok: "\<exists>key sig kc. y = Inr key \<and> unb64 s = Some sig \<and> crRsa cr key (hd @ ''.'' @ pl) sig \<and>
      Option.bind (unb64 pl) (crKcClaims cr) = Some kc \<and> accept_claims now w kc = Inr c" if "x = Inr c" for c
    using assms(2) tok hdr kf that by (auto simp: KcVerify_def split: sum.splits option.splits if_splits)
  have "v1 = w" using assms(2) tok hdr kf by (auto simp: KcVerify_def split: sum.splits option.splits if_splits)
  moreover have "genuine cr (insert (now, ans) h) now ans (kvIssuer v) (kvAudience v) tok c" if xc: "x = Inr c" for c
  proof -
    obtain key sig kc where "y = Inr key" and rest: "unb64 s = Some sig" "crRsa cr key (hd @ ''.'' @ pl) sig"
      "Option.bind (unb64 pl) (crKcClaims cr) = Some kc" "accept_claims now w kc = Inr c" using ok [OF xc] by blast
    then have "usable cr (insert (now, ans) h) now ans kid key" using key by blast
    moreover note accept_claims_okD [OF rest(4)]
    moreover have "kvIssuer w = kvIssuer v" "kvAudience w = kvAudience v" using key by blast+
    ultimately show ?thesis unfolding genuine_def using parts_token [OF tok] hdr rest by (intro exI conjI) (simp_all, blast+)
  qed
  ultimately show ?thesis using key by blast
qed

section \<open>Any gate in front of a service\<close>

text \<open>A request arrives at a moment, at which the key endpoint would give a certain answer.\<close>

type_synonym moment = "int \<times> jwksKey list option \<times> auth_request"

definition seen :: "moment list \<Rightarrow> (int \<times> jwksKey list option) set" where
  "seen es = (\<lambda>(now, ans, r). (now, ans)) ` set es"

definition serve :: "(int \<Rightarrow> jwksKey list option \<Rightarrow> auth_request \<Rightarrow> 's \<Rightarrow> 's \<times> verdict) \<Rightarrow> moment list \<Rightarrow> 's \<Rightarrow> 's" where
  "serve gate es st = foldl (\<lambda>st (now, ans, r). fst (gate now ans r st)) st es"

lemma genuine_cong:
  "acSub c = acSub c' \<Longrightarrow> acTenantID c = acTenantID c' \<Longrightarrow> acRoles c = acRoles c' \<Longrightarrow> genuine cr h now ans i a tok c = genuine cr h now ans i a tok c'"
  by (simp add: genuine_def)

text \<open>The contract of a middleware in Keycloak mode: it admits a request only with what the verifier says of its bearer token.\<close>

locale keycloak_gate =
  fixes gate :: "int \<Rightarrow> jwksKey list option \<Rightarrow> auth_request \<Rightarrow> 's \<Rightarrow> 's \<times> verdict"
    and cr :: crypto
    and verifier :: "'s \<Rightarrow> KeycloakVerifier option"
  assumes admits: "verifier st = Some v \<Longrightarrow> gate now ans r st = (st1, d) \<Longrightarrow>
    (verifier st1 = Some v \<and> (\<forall>c. d \<noteq> Principal c)) \<or>
    (\<exists>tok v1 x. arAuthorization r = ''Bearer '' @ tok \<and> KcVerify cr now ans tok v = (v1, x) \<and> verifier st1 = Some v1 \<and>
       (\<forall>c. d = Principal c \<longrightarrow> (\<exists>c'. x = Inr c' \<and> acSub c = acSub c' \<and> acTenantID c = acTenantID c' \<and> acRoles c = acRoles c')))"
begin

lemma gate_step:
  assumes "verifier st = Some v" "cached cr h v" "gate now ans r st = (st1, d)"
  shows "\<exists>w. verifier st1 = Some w \<and> cached cr (insert (now, ans) h) w \<and> kvIssuer w = kvIssuer v \<and> kvAudience w = kvAudience v"
    and "d = Principal c \<Longrightarrow> \<exists>tok. arAuthorization r = ''Bearer '' @ tok \<and>
      genuine cr (insert (now, ans) h) now ans (kvIssuer v) (kvAudience v) tok c"
proof -
  have keep: "cached cr (insert (now, ans) h) v" using assms(2) by (auto simp: cached_def)
  from admits [OF assms(1,3)] show "\<exists>w. verifier st1 = Some w \<and> cached cr (insert (now, ans) h) w \<and> kvIssuer w = kvIssuer v \<and> kvAudience w = kvAudience v"
    using keep KcVerify_sound [OF assms(2)] by metis
  show "\<exists>tok. arAuthorization r = ''Bearer '' @ tok \<and> genuine cr (insert (now, ans) h) now ans (kvIssuer v) (kvAudience v) tok c" if "d = Principal c"
    using admits [OF assms(1,3)] KcVerify_sound [OF assms(2)] that by (metis genuine_cong)
qed

lemma served:
  assumes "verifier st = Some v" "kvKeys v = Map.empty"
  shows "\<exists>w. verifier (serve gate es st) = Some w \<and> cached cr (seen es) w \<and> kvIssuer w = kvIssuer v \<and> kvAudience w = kvAudience v"
proof (induction es rule: rev_induct)
  case Nil
  then show ?case using assms by (simp add: serve_def cached_def)
next
  case (snoc e es)
  obtain now ans r where e: "e = (now, ans, r)" by (cases e)
  from snoc obtain w where w: "verifier (serve gate es st) = Some w" "cached cr (seen es) w" "kvIssuer w = kvIssuer v" "kvAudience w = kvAudience v"
    by blast
  obtain st1 d where g: "gate now ans r (serve gate es st) = (st1, d)" by fastforce
  then have "serve gate (es @ [e]) st = st1" "seen (es @ [e]) = insert (now, ans) (seen es)"
    by (simp_all add: e serve_def seen_def)
  then show ?case using gate_step(1) [OF w(1,2) g] w(3,4) by simp
qed

lemma principal_genuine:
  assumes "verifier st = Some v" "kvKeys v = Map.empty" "snd (gate now ans r (serve gate es st)) = Principal c"
  shows "\<exists>tok. arAuthorization r = ''Bearer '' @ tok \<and>
    genuine cr (insert (now, ans) (seen es)) now ans (kvIssuer v) (kvAudience v) tok c"
proof -
  obtain w where w: "verifier (serve gate es st) = Some w" "cached cr (seen es) w" "kvIssuer w = kvIssuer v" "kvAudience w = kvAudience v"
    using served [OF assms(1,2)] by blast
  obtain st1 d where g: "gate now ans r (serve gate es st) = (st1, d)" by fastforce
  show ?thesis using gate_step(2) [OF w(1,2) g] assms(3) g w(3,4) by simp
qed

end

definition conf_verifier :: "string \<times> KeycloakVerifier option \<Rightarrow> KeycloakVerifier option" where
  "conf_verifier conf = (if fst conf = ''keycloak'' then snd conf else None)"

lemma bearer_token: "HasPrefix s ''Bearer '' \<Longrightarrow> s = ''Bearer '' @ drop 7 s"
  by (auto simp: HasPrefix_iff prefix_def)

lemma verdict_of_Principal [simp]: "verdict_of x = Principal c \<longleftrightarrow> x = Inr c"
  by (simp add: verdict_of_def split: sum.splits)

interpretation authx_gate: keycloak_gate "\<lambda>now ans. Middleware cr now ans secret" cr conf_verifier for cr secret
  by unfold_locales
    (fastforce simp: conf_verifier_def Middleware_def split: if_splits prod.splits dest: bearer_token)

interpretation devjwt_gate: keycloak_gate "keycloakMiddleware cr" cr Some for cr
  by unfold_locales
    (fastforce simp: keycloakMiddleware_def split: if_splits prod.splits dest: bearer_token)

interpretation pos_gate: keycloak_gate "\<lambda>now ans. pos_auth cr now ans secret" cr conf_verifier for cr secret
  by unfold_locales
    (fastforce simp: conf_verifier_def pos_auth_def map_sum_def split: if_splits prod.splits sum.splits dest: bearer_token)

end
