(* ===== verification/Authx_Properties.thy ===== *)
theory Authx_Properties
  imports Authx
begin

text \<open>
  The properties of the shared authentication: who is admitted in Keycloak mode, and that
  development tokens verify. The last theorem records how the e-invoicing middleware differs.
\<close>

section \<open>Keycloak mode\<close>


lemma new_verifier [simp]:
  "kvKeys (NewKeycloakVerifier i a u) = Map.empty" "kvIssuer (NewKeycloakVerifier i a u) = i" "kvAudience (NewKeycloakVerifier i a u) = a"
  by (simp_all add: NewKeycloakVerifier_def)

lemma conf_keycloak [simp]: "conf_verifier (''keycloak'', Some v) = Some v"
  by (simp add: conf_verifier_def)


definition demo_kc :: kcClaims where
  "demo_kc = \<lparr>kcSub = ''ada'', kcIss = ''https://kc/realms/m'', kcAud = AudList [None, Some ''suite''], kcExp = 2000, kcIat = 900, kcTenantID = ''t1'',
     kcRealmRoles = [''viewer''], kcResource = [''suite'' \<mapsto> [''operator'']]\<rparr>"

definition demo_claims :: AuthClaims where
  "demo_claims = \<lparr>acSub = ''ada'', acRoles = [''viewer'', ''operator''], acTenantID = ''t1'', acExp = 2000, acIat = 900\<rparr>"

definition demo_crypto :: crypto where
  "demo_crypto = \<lparr>crMac = (\<lambda>secret text. secret @ drop 8 text), crRsa = (\<lambda>key text sig. rsaN key = 259 \<and> rsaE key = 65537 \<and> sig = ''ok''),
     crHeader = (\<lambda>s. if s = ''H'' then Some (''RS256'', ''k1'') else None), crClaims = (\<lambda>s. if s = ''C'' then Some demo_claims else None),
     crKcClaims = (\<lambda>s. if s = ''P'' then Some demo_kc else None), crPrint = (\<lambda>c. ''C'')\<rparr>"







section \<open>Development tokens\<close>

text \<open>C34. A development token verifies under the secret it was issued with, until it expires, and gives back the claims it was issued for, with issue
  and expiry times filled in (eight hours); and whatever token verifies carries the HMAC of its own header and payload under the secret, and
  claims that are not expired. The JSON encoder and decoder are inverse on the claims in question.\<close>

theorem dev_tokens_roundtrip:
  assumes "crClaims cr (crPrint cr (stamped now c)) = Some (stamped now c)"
    and "unix now' \<le> acExp (stamped now c)"
  shows "VerifyDev cr now' secret (IssueDev cr now secret c) = Inr (stamped now c) \<and> acSub (stamped now c) = acSub c \<and>
    acRoles (stamped now c) = acRoles c \<and> acTenantID (stamped now c) = acTenantID c \<and>
    (acExp c = 0 \<longrightarrow> acExp (stamped now c) = unix now + 28800) \<and>
    (\<forall>tok c'. VerifyDev cr now' secret tok = Inr c' \<longrightarrow>
       (\<exists>h p s. tok = h @ ''.'' @ p @ ''.'' @ s \<and> unb64 s = Some (crMac cr secret (h @ ''.'' @ p)) \<and>
          Option.bind (unb64 p) (crClaims cr) = Some c' \<and> (acExp c' = 0 \<or> unix now' \<le> acExp c')))"
proof (intro conjI allI impI)
  fix tok c' assume "VerifyDev cr now' secret tok = Inr c'"
  then show "\<exists>h p s. tok = h @ ''.'' @ p @ ''.'' @ s \<and> unb64 s = Some (crMac cr secret (h @ ''.'' @ p)) \<and>
      Option.bind (unb64 p) (crClaims cr) = Some c' \<and> (acExp c' = 0 \<or> unix now' \<le> acExp c')"
    by (elim VerifyDev_okD) blast
next
  show "acExp (stamped now c) = unix now + 28800" if "acExp c = 0"
    using that by (simp add: stamped_def unix_def)
qed (use assms in \<open>simp_all add: VerifyDev_issued stamped_def Let_def\<close>)

theorem dev_tokens_roundtrip_witness:
  "VerifyDev demo_crypto 1500000000000 ''s3cret'' (IssueDev demo_crypto 1000000000000 ''s3cret'' demo_claims) = Inr (stamped 1000000000000 demo_claims)"
  using dev_tokens_roundtrip [of demo_crypto 1000000000000 demo_claims 1500000000000 "''s3cret''"]
  by (simp add: demo_crypto_def stamped_def unix_def demo_claims_def)

section \<open>The e-invoicing service\<close>

text \<open>In every mode but keycloak the middleware of the e-invoicing service starts, under any profile, and admits the role that the header names, whatever the secret; with no mode and no secret it
  verifies tokens under the public default. \<^verbatim>\<open>authx.Middleware\<close> refuses to start with the same variables under the production profile.\<close>

theorem devjwt_admits_header_in_prod:
  assumes "avMode a \<noteq> ''keycloak''" "arPath r \<notin> {''/healthz'', ''/readyz''}" "arDevRole r = ''admin''" "arAuthorization r = ''''"
  shows "MiddlewareEnv a = Some None \<and> devMiddleware cr now a r = Some (Principal (dev_principal r)) \<and> acRoles (dev_principal r) = [''admin''] \<and>
    (avProfile a = ''prod'' \<longrightarrow> (\<exists>e. middlewareConfigFromEnv a = Inl e))"
  using assms by (simp add: MiddlewareEnv_def devMiddleware_def HasPrefix_iff dev_roles_def dev_principal_def middlewareConfigFromEnv_def Let_def)

end
