(* ===== verification/Go_Float.thy ===== *)
theory Go_Float
  imports Go_Prelude
begin

text \<open>
  Binary64 numbers as far as the suite uses them: conversion from an integer, comparison, truncation,
  product and quotient with rounding to nearest (ties to even), \<^verbatim>\<open>math.Round\<close> and the text with six
  decimals that \<^verbatim>\<open>strconv.FormatFloat(v, 'f', 6, 64)\<close> gives. Infinities and NaN are values; a zero keeps
  its sign.
\<close>

section \<open>Numbers\<close>

text \<open>\<open>F64 s m e\<close> is \<open>m * 2^e\<close> with sign \<open>s\<close> (\<open>True\<close>: negative).\<close>

datatype f64 = F64 bool nat int | F64Inf bool | F64NaN

definition signed :: "bool \<Rightarrow> nat \<Rightarrow> int" where
  "signed s m = (if s then - int m else int m)"

fun f64_lt :: "f64 \<Rightarrow> f64 \<Rightarrow> bool" where
  "f64_lt (F64 s m e) (F64 t n g) \<longleftrightarrow> signed s m * 2 ^ nat (e - min e g) < signed t n * 2 ^ nat (g - min e g)"
| "f64_lt (F64Inf s) (F64Inf t) \<longleftrightarrow> s \<and> \<not> t"
| "f64_lt (F64Inf s) (F64 t n g) \<longleftrightarrow> s"
| "f64_lt (F64 s m e) (F64Inf t) \<longleftrightarrow> \<not> t"
| "f64_lt _ _ \<longleftrightarrow> False"

fun f64_eq :: "f64 \<Rightarrow> f64 \<Rightarrow> bool" where
  "f64_eq (F64 s m e) (F64 t n g) \<longleftrightarrow> signed s m * 2 ^ nat (e - min e g) = signed t n * 2 ^ nat (g - min e g)"
| "f64_eq (F64Inf s) (F64Inf t) \<longleftrightarrow> s = t"
| "f64_eq _ _ \<longleftrightarrow> False"

definition f64_le :: "f64 \<Rightarrow> f64 \<Rightarrow> bool" where
  "f64_le a b \<longleftrightarrow> f64_lt a b \<or> f64_eq a b"

fun bit_length :: "nat \<Rightarrow> nat" where
  "bit_length n = (if n = 0 then 0 else Suc (bit_length (n div 2)))"

declare bit_length.simps [simp del]

text \<open>\<^verbatim>\<open>float64(i)\<close>: to nearest, ties to even.\<close>

definition f64_of_int :: "int64 \<Rightarrow> f64" where
  "f64_of_int i =
     (let n = nat \<bar>i\<bar>; s = bit_length n - 53; q = n div 2 ^ s; r = n mod 2 ^ s
      in if s = 0 then F64 (i < 0) n 0
         else F64 (i < 0) (if 2 * r > 2 ^ s \<or> 2 * r = 2 ^ s \<and> odd q then q + 1 else q) (int s))"

text \<open>\<^verbatim>\<open>int(f)\<close>; a value out of range gives the least integer, as the amd64 instruction does.\<close>

fun f64_int :: "f64 \<Rightarrow> int64" where
  "f64_int (F64 s m e) =
     (let v = signed s (if e \<ge> 0 then m * 2 ^ nat e else m div 2 ^ nat (- e)) in if in64 v then v else - (2 ^ 63))"
| "f64_int _ = - (2 ^ 63)"

section \<open>Arithmetic\<close>

text \<open>The exponent of the number nearest to \<open>n / d\<close>: 53 bits, but not below the smallest exponent.\<close>

definition ratio_exp :: "nat \<Rightarrow> nat \<Rightarrow> int" where
  "ratio_exp n d =
     (let k = int (bit_length n) - int (bit_length d);
          fl = (if n * 2 ^ nat (- k) \<ge> d * 2 ^ nat k then k else k - 1)
      in max (- 1074) (fl - 52))"

definition half_even :: "nat \<Rightarrow> nat \<Rightarrow> nat" where
  "half_even n d = (let q = n div d; r = n mod d in if 2 * r > d \<or> 2 * r = d \<and> odd q then q + 1 else q)"

definition f64_ratio :: "bool \<Rightarrow> nat \<Rightarrow> nat \<Rightarrow> f64" where
  "f64_ratio s n d =
     (let e = ratio_exp n d; m = half_even (n * 2 ^ nat (- e)) (d * 2 ^ nat e)
      in if m = 0 then F64 s 0 0 else if int (bit_length m) + e > 1024 then F64Inf s else F64 s m e)"

fun f64_mul :: "f64 \<Rightarrow> f64 \<Rightarrow> f64" where
  "f64_mul (F64 s m e) (F64 t n g) = f64_ratio (s \<noteq> t) (m * n * 2 ^ nat (e + g)) (2 ^ nat (- (e + g)))"
| "f64_mul (F64 s m e) (F64Inf t) = (if m = 0 then F64NaN else F64Inf (s \<noteq> t))"
| "f64_mul (F64Inf s) (F64 t n g) = (if n = 0 then F64NaN else F64Inf (s \<noteq> t))"
| "f64_mul (F64Inf s) (F64Inf t) = F64Inf (s \<noteq> t)"
| "f64_mul _ _ = F64NaN"

fun f64_div :: "f64 \<Rightarrow> f64 \<Rightarrow> f64" where
  "f64_div (F64 s m e) (F64 t n g) =
     (if n = 0 then (if m = 0 then F64NaN else F64Inf (s \<noteq> t))
      else f64_ratio (s \<noteq> t) (m * 2 ^ nat (e - g)) (n * 2 ^ nat (g - e)))"
| "f64_div (F64 s m e) (F64Inf t) = F64 (s \<noteq> t) 0 0"
| "f64_div (F64Inf s) (F64 t n g) = F64Inf (s \<noteq> t)"
| "f64_div _ _ = F64NaN"

text \<open>\<^verbatim>\<open>math.Round\<close>: half away from zero.\<close>

fun f64_round :: "f64 \<Rightarrow> f64" where
  "f64_round (F64 s m e) = (if e \<ge> 0 then F64 s m e else F64 s ((2 * m + 2 ^ nat (- e)) div (2 * 2 ^ nat (- e))) 0)"
| "f64_round x = x"

section \<open>Six decimals\<close>

text \<open>The absolute value in millionths, rounded half to even.\<close>

definition millionths :: "nat \<Rightarrow> int \<Rightarrow> nat" where
  "millionths m e = half_even (m * 10 ^ 6 * 2 ^ nat e) (2 ^ nat (- e))"

definition pad6 :: "nat \<Rightarrow> string" where
  "pad6 n = (let t = show_nat n in replicate (6 - length t) (CHR ''0'') @ t)"

fun FormatFloat6 :: "f64 \<Rightarrow> string" where
  "FormatFloat6 (F64 s m e) =
     (let u = millionths m e in (if s then ''-'' else '''') @ show_nat (u div 10 ^ 6) @ ''.'' @ pad6 (u mod 10 ^ 6))"
| "FormatFloat6 (F64Inf s) = (if s then ''-Inf'' else ''+Inf'')"
| "FormatFloat6 F64NaN = ''NaN''"

section \<open>Comparison with small integers\<close>

lemma bit_length_bounds: "n > 0 \<Longrightarrow> 2 ^ (bit_length n - 1) \<le> n \<and> n < 2 ^ bit_length n"
proof (induction n rule: bit_length.induct)
  case (1 n)
  show ?case
  proof (cases "n div 2 = 0")
    case True
    then have "n = 1" using "1.prems" by auto
    then show ?thesis by (simp add: bit_length.simps)
  next
    case False
    then have ih: "2 ^ (bit_length (n div 2) - 1) \<le> n div 2" "n div 2 < 2 ^ bit_length (n div 2)" using "1.IH" "1.prems" by auto
    obtain k where k: "bit_length (n div 2) = Suc k" using False by (metis bit_length.elims)
    have "bit_length n = Suc (Suc k)" using "1.prems" k by (simp add: bit_length.simps [of n])
    then show ?thesis using ih k by auto
  qed
qed

text \<open>The value of a number with an exponent that is not negative.\<close>

fun f64_val :: "f64 \<Rightarrow> int" where
  "f64_val (F64 s m e) = signed s m * 2 ^ nat e"
| "f64_val _ = 0"

fun integral :: "f64 \<Rightarrow> bool" where
  "integral (F64 s m e) \<longleftrightarrow> e \<ge> 0"
| "integral _ \<longleftrightarrow> False"

lemma scaled:
  assumes "(e :: int) \<ge> 0" "g \<ge> 0"
  shows "x * 2 ^ nat e = x * 2 ^ nat (e - min e g) * (2 :: int) ^ nat (min e g)"
proof -
  have "nat e = nat (e - min e g) + nat (min e g)" using assms by linarith
  then show ?thesis by (simp only: mult.assoc flip: power_add)
qed

lemma f64_cmp_integral:
  assumes "integral a" "integral b"
  shows "f64_lt a b \<longleftrightarrow> f64_val a < f64_val b" "f64_eq a b \<longleftrightarrow> f64_val a = f64_val b" "f64_le a b \<longleftrightarrow> f64_val a \<le> f64_val b"
proof -
  obtain s m e where a: "a = F64 s m e" "e \<ge> 0" using assms(1) by (cases a) auto
  obtain t n g where b: "b = F64 t n g" "g \<ge> 0" using assms(2) by (cases b) auto
  note sc = scaled [OF a(2) b(2), of "signed s m"] scaled [OF b(2) a(2), of "signed t n", unfolded min.commute [of g e]]
  show lt: "f64_lt a b \<longleftrightarrow> f64_val a < f64_val b" unfolding a(1) b(1) f64_lt.simps f64_val.simps sc by simp
  show eq: "f64_eq a b \<longleftrightarrow> f64_val a = f64_val b" unfolding a(1) b(1) f64_eq.simps f64_val.simps sc by simp
  show "f64_le a b \<longleftrightarrow> f64_val a \<le> f64_val b" using lt eq by (auto simp: f64_le_def)
qed

lemma integral_of_int [simp]: "integral (f64_of_int i)"
  by (simp add: f64_of_int_def Let_def)

text \<open>An integer of at most 53 bits is represented exactly, a larger one stays large.\<close>

lemma f64_of_int_val:
  "f64_val (f64_of_int i) = i \<or> 2 ^ 53 \<le> i \<and> 2 ^ 53 \<le> f64_val (f64_of_int i) \<or> i \<le> - (2 ^ 53) \<and> f64_val (f64_of_int i) \<le> - (2 ^ 53)"
proof (cases "bit_length (nat \<bar>i\<bar>) \<le> 53")
  case True
  then show ?thesis by (auto simp: f64_of_int_def Let_def signed_def)
next
  case False
  define n where "n = nat \<bar>i\<bar>"
  define s where "s = bit_length n - 53"
  have s: "s > 0" "bit_length n = s + 53" using False by (auto simp: s_def n_def)
  have "n > 0" using False by (auto simp: n_def bit_length.simps)
  then have n: "2 ^ (s + 52) \<le> n" using bit_length_bounds [of n] s(2) by (simp add: add.commute [of s])
  obtain q where q: "f64_of_int i = F64 (i < 0) q (int s)" "n div 2 ^ s \<le> q"
    using s by (auto simp: f64_of_int_def Let_def n_def s_def)
  have "2 ^ 52 \<le> n div 2 ^ s" using n by (simp add: less_eq_div_iff_mult_less_eq power_add mult.commute)
  then have "2 ^ 52 \<le> q" using q(2) by linarith
  moreover have "(2 :: nat) ^ 1 \<le> 2 ^ s" using s(1) by (intro power_increasing) auto
  ultimately have "2 ^ 52 * 2 ^ 1 \<le> q * 2 ^ s" by (rule mult_le_mono)
  then have "int (2 ^ 52 * 2 ^ 1) \<le> int (q * 2 ^ s)" by (simp only: of_nat_le_iff)
  then have big: "2 ^ 53 \<le> int q * 2 ^ s" by simp
  have "(2 :: nat) ^ 53 \<le> 2 ^ (s + 52)" using s(1) by (intro power_increasing) auto
  then have "int (2 ^ 53) \<le> int n" using n by (simp only: of_nat_le_iff)
  then have "2 ^ 53 \<le> \<bar>i\<bar>" by (simp add: n_def)
  then show ?thesis using big q(1) by (auto simp: signed_def)
qed

lemma f64_small_cmp:
  assumes "\<bar>a\<bar> < 2 ^ 53"
  shows "f64_lt (f64_of_int a) (f64_of_int b) \<longleftrightarrow> a < b" "f64_lt (f64_of_int b) (f64_of_int a) \<longleftrightarrow> b < a"
    "f64_le (f64_of_int a) (f64_of_int b) \<longleftrightarrow> a \<le> b" "f64_le (f64_of_int b) (f64_of_int a) \<longleftrightarrow> b \<le> a"
    "f64_eq (f64_of_int b) (f64_of_int a) \<longleftrightarrow> b = a"
proof -
  have a: "f64_val (f64_of_int a) = a" using f64_of_int_val [of a] assms by linarith
  note val = f64_cmp_integral [OF integral_of_int integral_of_int] a
  show "f64_lt (f64_of_int a) (f64_of_int b) \<longleftrightarrow> a < b" "f64_lt (f64_of_int b) (f64_of_int a) \<longleftrightarrow> b < a"
    "f64_le (f64_of_int a) (f64_of_int b) \<longleftrightarrow> a \<le> b" "f64_le (f64_of_int b) (f64_of_int a) \<longleftrightarrow> b \<le> a"
    "f64_eq (f64_of_int b) (f64_of_int a) \<longleftrightarrow> b = a"
    unfolding val using f64_of_int_val [of b] assms by linarith+
qed

end
