(* ===== verification/Rulepack.thy ===== *)
theory Rulepack
  imports Go_Float "HOL-Library.List_Lexorder" "HOL-Library.Char_ord"
begin

text \<open>
  The rule-pack evaluator (\<^verbatim>\<open>packages/shared/rulepack/rulepack.go\<close>): values, conditions, rules, the merge
  of the effects of the matching rules, loading of packs and the fallback from the rules engine to
  local packs.

  A Go map is an association list with distinct keys; the list order is the order in which Go visits
  it, so a statement for every order is a statement for every permutation. \<open>fl\<close> is the text that \<^verbatim>\<open>fmt.Sprint\<close> gives for such a number, \<open>yaml\<close> the decoder of the YAML library.
\<close>

section \<open>Values\<close>

text \<open>A value of type \<^verbatim>\<open>any\<close> as decoded or put into a context; \<open>ROther\<close> is a value of any other type, with its printed form.\<close>

datatype rvalue =
    RNil
  | RBool bool
  | RInt int64
  | RFloat f64
  | RStr string
  | RList "rvalue list"
  | RMap "(string \<times> rvalue) list"
  | ROther string

type_synonym rctx = "(string \<times> rvalue) list"

definition show_bool :: "bool \<Rightarrow> string" where
  "show_bool b = (if b then ''true'' else ''false'')"

text \<open>\<^verbatim>\<open>fmt.Sprint\<close>; a map is printed in the order of its keys.\<close>

fun sprint :: "(f64 \<Rightarrow> string) \<Rightarrow> rvalue \<Rightarrow> string" where
  "sprint fl RNil = ''<nil>''"
| "sprint fl (RBool b) = show_bool b"
| "sprint fl (RInt i) = show_int i"
| "sprint fl (RFloat f) = fl f"
| "sprint fl (RStr s) = s"
| "sprint fl (RList l) = ''['' @ join '' '' (map (sprint fl) l) @ '']''"
| "sprint fl (RMap m) = ''map['' @ join '' '' (map (\<lambda>(k, s). k @ '':'' @ s) (sort_key fst (map (\<lambda>(k, v). (k, sprint fl v)) m))) @ '']''"
| "sprint fl (ROther s) = s"

fun toFloat :: "rvalue \<Rightarrow> f64 option" where
  "toFloat (RInt i) = Some (f64_of_int i)"
| "toFloat (RFloat f) = Some f"
| "toFloat _ = None"

fun rbool :: "rvalue \<Rightarrow> bool" where
  "rbool (RBool b) = b"
| "rbool _ = False"

fun rlist :: "rvalue \<Rightarrow> rvalue list" where
  "rlist (RList l) = l"
| "rlist _ = []"

fun rstr :: "rvalue \<Rightarrow> string option" where
  "rstr (RStr s) = Some s"
| "rstr _ = None"

definition rget :: "rctx \<Rightarrow> string \<Rightarrow> rvalue" where
  "rget ctx k = (case map_of ctx k of None \<Rightarrow> RNil | Some v \<Rightarrow> v)"

section \<open>Conditions\<close>

definition op_suffixes :: "string list" where
  "op_suffixes = [''__in'', ''__ne'', ''__lte'', ''__lt'', ''__gte'', ''__gt'', ''__exists'']"

definition split_op :: "string \<Rightarrow> string \<times> string" where
  "split_op key =
     (case find (\<lambda>s. HasSuffix key s) op_suffixes of
        None \<Rightarrow> (key, ''eq'')
      | Some s \<Rightarrow> (take (length key - length s) key, drop 2 s))"

definition num_holds :: "string \<Rightarrow> f64 \<Rightarrow> f64 \<Rightarrow> bool" where
  "num_holds op g w =
     (if op = ''lt'' then f64_lt g w else if op = ''lte'' then f64_le g w
      else if op = ''gt'' then f64_lt w g else if op = ''gte'' then f64_le w g else False)"

text \<open>\<open>None\<close>: an error.\<close>

definition cmpOrdered :: "(f64 \<Rightarrow> string) \<Rightarrow> rvalue \<Rightarrow> rvalue \<Rightarrow> string \<Rightarrow> bool option" where
  "cmpOrdered fl got want op =
     (if got = RNil then None
      else (case (toFloat got, toFloat want, op \<in> {''lt'', ''lte'', ''gt'', ''gte''}) of
              (Some g, Some w, True) \<Rightarrow> Some (num_holds op g w)
            | _ \<Rightarrow>
                (let g = sprint fl got; w = sprint fl want
                 in if op = ''lt'' then Some (g < w) else if op = ''lte'' then Some (g \<le> w)
                    else if op = ''gt'' then Some (g > w) else if op = ''gte'' then Some (g \<ge> w) else None)))"

definition member :: "(f64 \<Rightarrow> string) \<Rightarrow> rvalue \<Rightarrow> rvalue list \<Rightarrow> bool" where
  "member fl got l = list_ex (\<lambda>item. sprint fl item = sprint fl got) l"

text \<open>One operator of a canonical operator map: whether it holds, and the reason if not.\<close>

definition map_op :: "(f64 \<Rightarrow> string) \<Rightarrow> string \<Rightarrow> rvalue \<Rightarrow> bool \<Rightarrow> string \<Rightarrow> rvalue \<Rightarrow> bool \<times> string" where
  "map_op fl base got ex op w =
     (let eqs = base @ ''='' @ sprint fl got
      in if op = ''in'' then (member fl got (rlist w), eqs @ '' not in '' @ sprint fl w)
         else if op = ''not_in'' then (\<not> member fl got (rlist w), eqs @ '' in '' @ sprint fl w @ '' (excluded)'')
         else if op = ''present'' then ((ex \<and> got \<noteq> RNil) = rbool w, base @ '' present='' @ show_bool (ex \<and> got \<noteq> RNil))
         else if op = ''ne'' then (sprint fl got \<noteq> sprint fl w, eqs @ '' == '' @ sprint fl w)
         else if op \<in> {''lt'', ''lte'', ''gt'', ''gte''}
         then (cmpOrdered fl got w op = Some True, eqs @ '' fails '' @ op @ '' '' @ sprint fl w)
         else (sprint fl got = sprint fl w, eqs @ '' != '' @ sprint fl w))"

fun matchMap :: "(f64 \<Rightarrow> string) \<Rightarrow> string \<Rightarrow> (string \<times> rvalue) list \<Rightarrow> rvalue \<Rightarrow> bool \<Rightarrow> bool \<times> string" where
  "matchMap fl base [] got ex = (True, '''')"
| "matchMap fl base ((op, w) # conds) got ex =
     (case map_op fl base got ex op w of (True, _) \<Rightarrow> matchMap fl base conds got ex | (False, why) \<Rightarrow> (False, why))"

definition match_eq :: "(f64 \<Rightarrow> string) \<Rightarrow> string \<Rightarrow> rvalue \<Rightarrow> rvalue \<Rightarrow> bool \<Rightarrow> bool \<times> string" where
  "match_eq fl base want got ok =
     (case want of
        RNil \<Rightarrow> if \<not> ok \<or> got = RNil then (True, '''') else (False, base @ '' present (='' @ sprint fl got @ ''), want null'')
      | RList w \<Rightarrow> if member fl got w then (True, '''') else (False, base @ ''='' @ sprint fl got @ '' not in '' @ sprint fl want)
      | RMap w \<Rightarrow> matchMap fl base w got ok
      | _ \<Rightarrow>
          if sprint fl got = sprint fl want then (True, '''')
          else if (case (toFloat got, toFloat want) of (Some g, Some w) \<Rightarrow> f64_eq g w | _ \<Rightarrow> False) then (True, '''')
          else (False, base @ ''='' @ sprint fl got @ '' != '' @ sprint fl want))"

lemma split_op_shorter: "snd (split_op key) \<noteq> ''eq'' \<Longrightarrow> length (fst (split_op key)) < length key"
  by (auto simp: split_op_def op_suffixes_def HasSuffix_iff suffix_def split: if_splits option.splits)

function matchCond :: "(f64 \<Rightarrow> string) \<Rightarrow> string \<Rightarrow> rvalue \<Rightarrow> rctx \<Rightarrow> bool \<times> string" where
  "matchCond fl key want ctx =
     (let base = fst (split_op key); op = snd (split_op key); got = rget ctx base; ok = (map_of ctx base \<noteq> None)
      in if op = ''eq'' then match_eq fl base want got ok
         else if op = ''exists'' then (ok = rbool want \<or> want = RNil, base @ '' exists='' @ show_bool ok)
         else if op = ''in''
         then (if member fl got (rlist want) then (True, '''') else (False, base @ ''='' @ sprint fl got @ '' not in '' @ sprint fl want))
         else if op = ''ne'' then (\<not> fst (matchCond fl base want ctx), base @ '' ne '' @ sprint fl want)
         else (case (toFloat got, toFloat want) of
                 (Some g, Some w) \<Rightarrow>
                   if num_holds op g w then (True, '''') else (False, base @ ''='' @ fl g @ '' fails '' @ op @ '' '' @ fl w)
               | _ \<Rightarrow> (False, base @ '' not numeric'')))"
  by auto
termination
  by (relation "measure (\<lambda>(fl, key, want, ctx). length key)") (auto intro: split_op_shorter)

declare matchCond.simps [simp del]

section \<open>Rules and packs\<close>

record RPRule =
  ruID :: string
  ruPrecedence :: "int64 option"
  ruWhen :: "(string \<times> rvalue) list"
  ruThen :: "(string \<times> rvalue) list"

record RPPack =
  rkID :: string
  rkVersion :: string
  rkEffectiveFrom :: string
  rkEffectiveTo :: "string option"
  rkStatus :: string
  rkSubjectToRegazette :: bool
  rkProvenance :: "(string \<times> rvalue) list"
  rkSigned :: "(string \<times> rvalue) list"
  rkRules :: "RPRule list"

definition rule_precedence :: "RPRule \<Rightarrow> int64" where
  "rule_precedence r =
     (case ruPrecedence r of
        Some p \<Rightarrow> p
      | None \<Rightarrow> (case Option.bind (map_of (ruThen r) ''precedence'') toFloat of Some f \<Rightarrow> f64_int f | None \<Rightarrow> 0))"

definition Ref :: "RPPack \<Rightarrow> string" where
  "Ref p = rkID p @ ''@'' @ rkVersion p"

fun match_all :: "(f64 \<Rightarrow> string) \<Rightarrow> (string \<times> rvalue) list \<Rightarrow> rctx \<Rightarrow> bool \<times> string" where
  "match_all fl [] ctx = (True, '''')"
| "match_all fl ((k, want) # ws) ctx =
     (case matchCond fl k want ctx of (True, _) \<Rightarrow> match_all fl ws ctx | (False, why) \<Rightarrow> (False, why))"

definition Match :: "(f64 \<Rightarrow> string) \<Rightarrow> RPRule \<Rightarrow> rctx \<Rightarrow> bool \<times> string" where
  "Match fl r ctx = match_all fl (ruWhen r) ctx"

section \<open>Evaluation\<close>

record TraceEntry =
  teRuleID :: string
  teMatched :: bool
  teReason :: string

record Decision =
  dcPack :: string
  dcAttrs :: "string \<rightharpoonup> rvalue"
  dcTrace :: "TraceEntry list"

record scoredRule =
  scPrec :: int64
  scIdx :: nat
  scRule :: RPRule

text \<open>The loop over the rules: the trace, and the matching rules with their scores.\<close>

fun scan_rules :: "(f64 \<Rightarrow> string) \<Rightarrow> rctx \<Rightarrow> nat \<Rightarrow> RPRule list \<Rightarrow> TraceEntry list \<times> scoredRule list" where
  "scan_rules fl ctx i [] = ([], [])"
| "scan_rules fl ctx i (r # rs) =
     (let (ok, why) = Match fl r ctx; (tr, sc) = scan_rules fl ctx (Suc i) rs
      in (\<lparr>teRuleID = ruID r, teMatched = ok, teReason = why\<rparr> # tr,
          if ok then \<lparr>scPrec = rule_precedence r, scIdx = i, scRule = r\<rparr> # sc else sc))"

definition scored_less :: "scoredRule \<Rightarrow> scoredRule \<Rightarrow> bool" where
  "scored_less a b \<longleftrightarrow> (if scPrec a \<noteq> scPrec b then scPrec a < scPrec b else scIdx a < scIdx b)"

text \<open>\<^verbatim>\<open>sort.SliceStable\<close> by insertion.\<close>

fun sorted_insert :: "('a \<Rightarrow> 'a \<Rightarrow> bool) \<Rightarrow> 'a \<Rightarrow> 'a list \<Rightarrow> 'a list" where
  "sorted_insert lt x [] = [x]"
| "sorted_insert lt x (y # ys) = (if lt y x then y # sorted_insert lt x ys else x # y # ys)"

definition SliceStable :: "('a \<Rightarrow> 'a \<Rightarrow> bool) \<Rightarrow> 'a list \<Rightarrow> 'a list" where
  "SliceStable lt xs = foldr (sorted_insert lt) xs []"

definition merge_then :: "(string \<times> rvalue) list \<Rightarrow> (string \<rightharpoonup> rvalue) \<Rightarrow> (string \<rightharpoonup> rvalue)" where
  "merge_then th attrs = fold (\<lambda>(k, v) m. if k = ''precedence'' then m else m(k \<mapsto> v)) th attrs"

definition Evaluate :: "(f64 \<Rightarrow> string) \<Rightarrow> RPPack \<Rightarrow> rctx \<Rightarrow> Decision" where
  "Evaluate fl p ctx =
     (let (tr, sc) = scan_rules fl ctx 0 (rkRules p)
      in \<lparr>dcPack = Ref p, dcAttrs = fold (\<lambda>s. merge_then (ruThen (scRule s))) (SliceStable scored_less sc) Map.empty, dcTrace = tr\<rparr>)"

section \<open>Loading\<close>

datatype rp_error = NoVersions string | NoFile | ParseFailed | MissingIdVersion

definition Parse :: "(string \<Rightarrow> RPPack option) \<Rightarrow> string \<Rightarrow> rp_error + RPPack" where
  "Parse yaml text =
     (case yaml text of
        None \<Rightarrow> Inl ParseFailed
      | Some p \<Rightarrow> if rkID p = '''' \<or> rkVersion p = '''' then Inl MissingIdVersion else Inr p)"

text \<open>The files of each directory \<^verbatim>\<open>packs/<id>\<close>, by name.\<close>

type_synonym pack_files = "string \<Rightarrow> (string \<times> string) list"

definition trim_yaml :: "string \<Rightarrow> string" where
  "trim_yaml s = (if HasSuffix s ''.yaml'' then take (length s - 5) s else s)"

definition read_pack :: "(string \<Rightarrow> RPPack option) \<Rightarrow> pack_files \<Rightarrow> string \<Rightarrow> string \<Rightarrow> rp_error + RPPack" where
  "read_pack yaml files pid version =
     (case map_of (files pid) (version @ ''.yaml'') of None \<Rightarrow> Inl NoFile | Some text \<Rightarrow> Parse yaml text)"

definition Load :: "(string \<Rightarrow> RPPack option) \<Rightarrow> pack_files \<Rightarrow> string \<Rightarrow> string \<Rightarrow> rp_error + RPPack" where
  "Load yaml dir pid version =
     (if version = ''''
      then (let found = sort (filter (\<lambda>n. HasSuffix n ''.yaml'') (map fst (dir pid)))
            in if found = [] then Inl (NoVersions pid) else read_pack yaml dir pid (trim_yaml (last found)))
      else read_pack yaml dir pid version)"

definition LoadEmbedded :: "(string \<Rightarrow> RPPack option) \<Rightarrow> pack_files \<Rightarrow> string \<Rightarrow> string \<Rightarrow> rp_error + RPPack" where
  "LoadEmbedded yaml embedded pid version =
     (if version = ''''
      then (let entries = sort (map fst (embedded pid))
            in if entries = [] then Inl (NoVersions pid) else read_pack yaml embedded pid (trim_yaml (last entries)))
      else read_pack yaml embedded pid version)"

text \<open>The surroundings of an evaluator: the rules engine when one is configured (its answer \<open>None\<close> when the call fails), the override directory when one is set, the embedded files.\<close>

record Evaluator =
  evEngine :: "(string \<Rightarrow> string \<Rightarrow> rctx \<Rightarrow> ((string \<rightharpoonup> rvalue) \<times> TraceEntry list) option) option"
  evDir :: "pack_files option"
  evEmbedded :: pack_files
  evYaml :: "string \<Rightarrow> RPPack option"
  evFloat :: "f64 \<Rightarrow> string"

definition engine_evaluate :: "Evaluator \<Rightarrow> string \<Rightarrow> string \<Rightarrow> rctx \<Rightarrow> Decision option" where
  "engine_evaluate e pk version ctx =
     (case evEngine e of
        None \<Rightarrow> None
      | Some call \<Rightarrow> map_option (\<lambda>(attrs, tr). \<lparr>dcPack = pk @ ''@'' @ version, dcAttrs = attrs, dcTrace = tr\<rparr>) (call pk version ctx))"

definition loadLocal :: "Evaluator \<Rightarrow> string \<Rightarrow> string \<Rightarrow> rp_error + RPPack" where
  "loadLocal e pk version =
     (case evDir e of
        None \<Rightarrow> LoadEmbedded (evYaml e) (evEmbedded e) pk version
      | Some dir \<Rightarrow>
          (case Load (evYaml e) dir pk version of
             Inr p \<Rightarrow> Inr p
           | Inl _ \<Rightarrow> LoadEmbedded (evYaml e) (evEmbedded e) pk version))"

definition ev_evaluate :: "Evaluator \<Rightarrow> string \<Rightarrow> string \<Rightarrow> rctx \<Rightarrow> rp_error + Decision" where
  "ev_evaluate e pk version ctx =
     (case engine_evaluate e pk version ctx of
        Some d \<Rightarrow> Inr d
      | None \<Rightarrow> (case loadLocal e pk version of Inl err \<Rightarrow> Inl err | Inr p \<Rightarrow> Inr (Evaluate (evFloat e) p ctx)))"

section \<open>The merge of the effects\<close>

definition rule_matches :: "(f64 \<Rightarrow> string) \<Rightarrow> RPRule \<Rightarrow> rctx \<Rightarrow> bool" where
  "rule_matches fl r ctx \<longleftrightarrow> fst (Match fl r ctx)"

lemma scan_trace: "fst (scan_rules fl ctx i rs) = map (\<lambda>r. \<lparr>teRuleID = ruID r, teMatched = rule_matches fl r ctx, teReason = snd (Match fl r ctx)\<rparr>) rs"
  by (induction rs arbitrary: i) (simp_all add: rule_matches_def case_prod_beta Let_def)

lemma scan_scored: "snd (scan_rules fl ctx i rs) =
    map (\<lambda>(j, r). \<lparr>scPrec = rule_precedence r, scIdx = j, scRule = r\<rparr>) (filter (\<lambda>(j, r). rule_matches fl r ctx) (enumerate i rs))"
  by (induction rs arbitrary: i) (simp_all add: rule_matches_def case_prod_beta Let_def)

lemma set_sorted_insert [simp]: "set (sorted_insert lt x ys) = insert x (set ys)"
  by (induction ys) auto

lemma set_SliceStable [simp]: "set (SliceStable lt xs) = set xs"
  by (induction xs) (simp_all add: SliceStable_def)

lemma sorted_insert_wrt:
  assumes "transp lt" "\<forall>y\<in>set ys. lt x y \<or> lt y x"
  shows "sorted_wrt lt ys \<Longrightarrow> sorted_wrt lt (sorted_insert lt x ys)"
  using assms by (induction ys) (auto dest: transpD)

lemma SliceStable_sorted:
  assumes "transp lt" "sorted_wrt (\<lambda>x y. lt x y \<or> lt y x) xs"
  shows "sorted_wrt lt (SliceStable lt xs)"
  using assms(2)
proof (induction xs)
  case (Cons x xs)
  have "SliceStable lt (x # xs) = sorted_insert lt x (SliceStable lt xs)" by (simp add: SliceStable_def)
  then show ?case using Cons sorted_insert_wrt [OF assms(1), of "SliceStable lt xs" x] by simp
qed (simp add: SliceStable_def)

lemma transp_scored: "transp scored_less"
  by (auto simp: transp_def scored_less_def split: if_splits)

lemma scored_total: "sorted_wrt (\<lambda>x y. scored_less x y \<or> scored_less y x) (snd (scan_rules fl ctx i rs))"
proof -
  have "sorted_wrt (\<lambda>p q. fst p < fst q) (enumerate i rs)"
    by (induction rs arbitrary: i) (auto simp: in_set_enumerate_eq)
  then have "sorted_wrt (\<lambda>p q. fst p < fst q) (filter (\<lambda>(j, r). rule_matches fl r ctx) (enumerate i rs))"
    by (rule sorted_wrt_filter)
  then show ?thesis
    unfolding scan_scored sorted_wrt_map by (rule sorted_wrt_mono_rel [rotated]) (auto simp: scored_less_def split: prod.splits)
qed

lemma merge_then_key:
  assumes "distinct (map fst th)"
  shows "merge_then th m k = (if k = ''precedence'' then m k else case map_of th k of Some v \<Rightarrow> Some v | None \<Rightarrow> m k)"
  using assms
proof (induction th arbitrary: m)
  case (Cons p th)
  obtain a b where p: "p = (a, b)" by (cases p)
  have "map_of th a = None" using Cons.prems p by (simp add: map_of_eq_None_iff)
  then show ?case using Cons p by (auto simp: merge_then_def split: option.splits)
qed (simp add: merge_then_def)

text \<open>The last rule in the order of merging that sets the field wins.\<close>

lemma merge_last:
  assumes "\<forall>s\<in>set ss. distinct (map fst (ruThen (scRule s)))" "k \<noteq> ''precedence''" "sorted_wrt lt ss"
    "asymp lt"
  shows "fold (\<lambda>s. merge_then (ruThen (scRule s))) ss m k = Some v \<longleftrightarrow>
    (\<exists>s\<in>set ss. map_of (ruThen (scRule s)) k = Some v \<and> (\<forall>t\<in>set ss. k \<in> fst ` set (ruThen (scRule t)) \<longrightarrow> \<not> lt s t)) \<or>
    (\<forall>t\<in>set ss. k \<notin> fst ` set (ruThen (scRule t))) \<and> m k = Some v"
  using assms(1,3)
proof (induction ss arbitrary: m rule: rev_induct)
  case (snoc s ss)
  have lt: "\<forall>t\<in>set ss. lt t s \<and> \<not> lt s t" using snoc.prems(2) assms(4) by (auto simp: sorted_wrt_append asymp_on_def)
  have irr: "\<not> lt s s" using assms(4) by (auto simp: asymp_on_def)
  show ?case
  proof (cases "map_of (ruThen (scRule s)) k")
    case None
    then have "k \<notin> fst ` set (ruThen (scRule s))" by (simp add: map_of_eq_None_iff)
    then show ?thesis using snoc None assms(2) by (auto simp: merge_then_key sorted_wrt_append)
  next
    case (Some w)
    then have "k \<in> fst ` set (ruThen (scRule s))" by (metis domI dom_map_of_conv_image_fst)
    then show ?thesis using snoc.prems(1) Some assms(2) lt irr by (auto simp: merge_then_key)
  qed
qed simp

lemma merge_precedence:
  "fold (\<lambda>s. merge_then (ruThen (scRule s))) ss m ''precedence'' = m ''precedence''"
proof (induction ss arbitrary: m)
  case (Cons s ss)
  have "merge_then th m ''precedence'' = m ''precedence''" for th m
    by (induction th arbitrary: m) (auto simp: merge_then_def)
  then show ?case using Cons by simp
qed simp

lemma asymp_scored: "asymp scored_less"
  by (auto simp: asymp_on_def scored_less_def split: if_splits)

definition maps_ok :: "RPPack \<Rightarrow> bool" where
  "maps_ok p \<longleftrightarrow> list_all (\<lambda>r. distinct (map fst (ruThen r))) (rkRules p)"

lemma Evaluate_field:
  assumes "maps_ok p" "k \<noteq> ''precedence''"
  shows "dcAttrs (Evaluate fl p ctx) k = Some v \<longleftrightarrow>
    (\<exists>j<length (rkRules p). rule_matches fl (rkRules p ! j) ctx \<and> map_of (ruThen (rkRules p ! j)) k = Some v \<and>
      (\<forall>i<length (rkRules p). rule_matches fl (rkRules p ! i) ctx \<and> k \<in> fst ` set (ruThen (rkRules p ! i)) \<longrightarrow>
        rule_precedence (rkRules p ! i) < rule_precedence (rkRules p ! j) \<or>
        rule_precedence (rkRules p ! i) = rule_precedence (rkRules p ! j) \<and> i \<le> j))"
proof -
  define rs where "rs = rkRules p"
  define sc where "sc = snd (scan_rules fl ctx 0 rs)"
  define score where "score j = \<lparr>scPrec = rule_precedence (rs ! j), scIdx = j, scRule = rs ! j\<rparr>" for j
  have set_sc: "set sc = score ` {j. j < length rs \<and> rule_matches fl (rs ! j) ctx}"
    unfolding sc_def scan_scored score_def by (force simp: in_set_enumerate_eq)
  have attrs: "dcAttrs (Evaluate fl p ctx) = fold (\<lambda>s. merge_then (ruThen (scRule s))) (SliceStable scored_less sc) Map.empty"
    by (simp add: Evaluate_def sc_def rs_def split: prod.splits)
  have dist: "\<forall>s\<in>set (SliceStable scored_less sc). distinct (map fst (ruThen (scRule s)))"
    using assms(1) by (auto simp: set_sc score_def maps_ok_def rs_def list_all_iff)
  have sorted: "sorted_wrt scored_less (SliceStable scored_less sc)"
    unfolding sc_def by (intro SliceStable_sorted transp_scored scored_total)
  have less: "(\<not> scored_less (score j) (score i)) \<longleftrightarrow>
      (rule_precedence (rs ! i) < rule_precedence (rs ! j) \<or> rule_precedence (rs ! i) = rule_precedence (rs ! j) \<and> i \<le> j)" for i j
    by (auto simp: scored_less_def score_def)
  have rule: "scRule (score j) = rs ! j" for j by (simp add: score_def)
  show ?thesis
    unfolding attrs merge_last [OF dist assms(2) sorted asymp_scored] set_SliceStable set_sc
    by (auto simp: rule less rs_def [symmetric])
qed

lemma Evaluate_precedence: "dcAttrs (Evaluate fl p ctx) ''precedence'' = None"
  by (simp add: Evaluate_def merge_precedence split: prod.splits)

lemma Evaluate_trace:
  "dcTrace (Evaluate fl p ctx) = map (\<lambda>r. \<lparr>teRuleID = ruID r, teMatched = rule_matches fl r ctx, teReason = snd (Match fl r ctx)\<rparr>) (rkRules p)"
  unfolding scan_trace [of fl ctx 0, symmetric] by (simp add: Evaluate_def split: prod.splits)

section \<open>The order in which maps are visited\<close>

lemma matchMap_all: "fst (matchMap fl base conds got ex) \<longleftrightarrow> list_all (\<lambda>(op, w). fst (map_op fl base got ex op w)) conds"
  by (induction conds) (auto simp: case_prod_beta split: bool.splits)

lemma match_all_iff: "fst (match_all fl ws ctx) \<longleftrightarrow> list_all (\<lambda>(k, w). fst (matchCond fl k w ctx)) ws"
  by (induction ws) (auto simp: case_prod_beta split: bool.splits)

lemma rule_matches_iff: "rule_matches fl r ctx \<longleftrightarrow> list_all (\<lambda>(k, w). fst (matchCond fl k w ctx)) (ruWhen r)"
  by (simp add: rule_matches_def Match_def match_all_iff)

text \<open>The same value, visited in another order when it is an operator map.\<close>

definition reordered :: "rvalue \<Rightarrow> rvalue \<Rightarrow> bool" where
  "reordered v w \<longleftrightarrow> v = w \<or> (\<exists>m m'. v = RMap m \<and> w = RMap m' \<and> mset m = mset m')"

lemma list_all_mset: "mset xs = mset ys \<Longrightarrow> list_all P xs = list_all P ys"
  by (metis list_all_iff set_mset_mset)

lemma matchCond_reordered: "reordered v w \<Longrightarrow> fst (matchCond fl k v ctx) = fst (matchCond fl k w ctx)"
proof (induction "length k" arbitrary: k rule: less_induct)
  case less
  show ?case
  proof (cases "v = w")
    case False
    then obtain m m' where m: "v = RMap m" "w = RMap m'" "mset m = mset m'" using less.prems by (auto simp: reordered_def)
    show ?thesis
    proof (cases "snd (split_op k) = ''ne''")
      case True
      then show ?thesis
        using less.hyps [of "fst (split_op k)"] split_op_shorter [of k] less.prems by (subst (1 2) matchCond.simps) (simp add: Let_def)
    next
      case False
      then show ?thesis
        using list_all_mset [OF m(3)] by (subst (1 2) matchCond.simps) (simp add: Let_def m(1,2) match_eq_def matchMap_all)
    qed
  qed simp
qed

text \<open>The same rule, visited in another order.\<close>

definition same_rule :: "RPRule \<Rightarrow> RPRule \<Rightarrow> bool" where
  "same_rule r r' \<longleftrightarrow> ruID r = ruID r' \<and> ruPrecedence r = ruPrecedence r' \<and> mset (ruThen r) = mset (ruThen r') \<and>
     (\<exists>ws. mset ws = mset (ruWhen r') \<and> list_all2 (\<lambda>(k, v) (j, w). k = j \<and> reordered v w) (ruWhen r) ws)"

lemma same_rule_matches: "same_rule r r' \<Longrightarrow> rule_matches fl r ctx = rule_matches fl r' ctx"
proof -
  assume "same_rule r r'"
  then obtain ws where ws: "mset ws = mset (ruWhen r')" "list_all2 (\<lambda>(k, v) (j, w). k = j \<and> reordered v w) (ruWhen r) ws"
    by (auto simp: same_rule_def)
  have "list_all (\<lambda>(k, w). fst (matchCond fl k w ctx)) (ruWhen r) = list_all (\<lambda>(k, w). fst (matchCond fl k w ctx)) ws"
    using ws(2) by (induction rule: list_all2_induct) (auto simp: matchCond_reordered)
  then show ?thesis using list_all_mset [OF ws(1)] by (simp add: rule_matches_iff)
qed

lemma map_of_mset: "distinct (map fst xs) \<Longrightarrow> mset xs = mset ys \<Longrightarrow> map_of xs = map_of ys"
  by (metis map_of_inject_set mset_eq_imp_distinct_iff mset_map set_mset_mset)

lemma same_rule_then:
  assumes "same_rule r r'" "distinct (map fst (ruThen r))"
  shows "map_of (ruThen r) = map_of (ruThen r')" "set (ruThen r) = set (ruThen r')" "rule_precedence r = rule_precedence r'"
    "distinct (map fst (ruThen r'))"
proof -
  have m: "mset (ruThen r) = mset (ruThen r')" "ruPrecedence r = ruPrecedence r'" using assms(1) by (auto simp: same_rule_def)
  show "map_of (ruThen r) = map_of (ruThen r')" using assms(2) m(1) by (rule map_of_mset)
  then show "rule_precedence r = rule_precedence r'" by (simp add: rule_precedence_def m(2) split: option.splits)
  show "set (ruThen r) = set (ruThen r')" using m(1) by (metis set_mset_mset)
  show "distinct (map fst (ruThen r'))" using assms(2) m(1) by (metis mset_eq_imp_distinct_iff mset_map)
qed

lemma Evaluate_reordered:
  assumes "maps_ok p" "list_all2 same_rule (rkRules p) (rkRules p')"
  shows "dcAttrs (Evaluate fl p ctx) = dcAttrs (Evaluate fl p' ctx)"
    and "map teMatched (dcTrace (Evaluate fl p ctx)) = map teMatched (dcTrace (Evaluate fl p' ctx))"
proof -
  have len: "length (rkRules p) = length (rkRules p')" using assms(2) by (rule list_all2_lengthD)
  have at: "same_rule (rkRules p ! i) (rkRules p' ! i)" if "i < length (rkRules p)" for i using assms(2) that by (rule list_all2_nthD)
  have dist: "distinct (map fst (ruThen (rkRules p ! i)))" if "i < length (rkRules p)" for i
    using assms(1) that by (auto simp: maps_ok_def list_all_length)
  have ok': "maps_ok p'"
    unfolding maps_ok_def list_all_length using same_rule_then(4) [OF at dist] len by auto
  show "dcAttrs (Evaluate fl p ctx) = dcAttrs (Evaluate fl p' ctx)"
  proof
    fix k
    show "dcAttrs (Evaluate fl p ctx) k = dcAttrs (Evaluate fl p' ctx) k"
    proof (cases "k = ''precedence''")
      case False
      have "dcAttrs (Evaluate fl p ctx) k = Some v \<longleftrightarrow> dcAttrs (Evaluate fl p' ctx) k = Some v" for v
        unfolding Evaluate_field [OF assms(1) False] Evaluate_field [OF ok' False] len [symmetric]
        using same_rule_then [OF at dist] same_rule_matches [OF at] by (simp cong: conj_cong imp_cong)
      then show ?thesis by (metis option.exhaust)
    qed (simp add: Evaluate_precedence)
  qed
  show "map teMatched (dcTrace (Evaluate fl p ctx)) = map teMatched (dcTrace (Evaluate fl p' ctx))"
    unfolding Evaluate_trace using same_rule_matches [OF at] len by (intro nth_equalityI) simp_all
qed

end
