(* ===== verification/Einv_Validate.thy ===== *)
theory Einv_Validate
  imports Rulepack Einv_Model
begin

text \<open>
  The validation of e-invoices (\<^verbatim>\<open>services/einvoicing/validate.go\<close>): the two rule packs are evaluated over
  the context of the invoice, violations are collected, and two rules of the pack are enforced in
  code (backdating and the status of the supplier's TIN). The packs are those embedded in the suite
  (\<^verbatim>\<open>packages/shared/rulepack/packs/rp-ubl-bis/1.0.0.yaml\<close> and \<^verbatim>\<open>rp-mbs-business-rules/1.0.0.yaml\<close>).

  \<open>vdDay\<close> gives the number of the day of a date text that \<^verbatim>\<open>time.Parse\<close> accepts, \<open>vdToday\<close> is that of the
  clock, \<open>vdTin\<close> the TIN registry when one is configured: what a request for a TIN gives, namely nothing
  or a status code with the decoded status. \<open>vdQuote\<close> is the quoting of \<^verbatim>\<open>%q\<close>.
\<close>

section \<open>Violations of a pack\<close>

fun ctx_value :: "ctx_val \<Rightarrow> rvalue" where
  "ctx_value (CStr s) = RStr s"
| "ctx_value (CInt i) = RInt i"
| "ctx_value (CBool b) = RBool b"

definition then_text :: "rvalue option \<Rightarrow> string" where
  "then_text v = (case Option.bind v rstr of Some s \<Rightarrow> s | None \<Rightarrow> '''')"

definition or_fatal :: "string \<Rightarrow> string" where
  "or_fatal s = (if s = '''' then ''fatal'' else s)"

definition add_violation :: "Violation \<Rightarrow> Violation list \<times> bool \<Rightarrow> Violation list \<times> bool" where
  "add_violation x = (\<lambda>(vs, fatal). (vs @ [x], fatal \<or> vSeverity x = ''fatal''))"

text \<open>The merged violation of a decision.\<close>

definition merged_violation :: "Decision \<Rightarrow> Violation list \<times> bool \<Rightarrow> Violation list \<times> bool" where
  "merged_violation d acc =
     (let msg = then_text (dcAttrs d ''violation'')
      in if msg = '''' then acc
         else add_violation \<lparr>vPack = dcPack d, vMessage = msg, vSeverity = or_fatal (then_text (dcAttrs d ''severity''))\<rparr> acc)"

text \<open>One rule of the pack whose id is that of a matched entry of the trace.\<close>

definition rule_violation :: "string \<Rightarrow> RPPack \<Rightarrow> RPRule \<Rightarrow> Violation list \<times> bool \<Rightarrow> Violation list \<times> bool" where
  "rule_violation pk p r acc =
     (let msg = then_text (map_of (ruThen r) ''violation'')
      in if msg = '''' \<or> list_ex (\<lambda>x. vMessage x = msg \<and> HasPrefix (vPack x) pk) (fst acc) then acc
         else add_violation \<lparr>vPack = Ref p, vMessage = msg, vSeverity = or_fatal (then_text (map_of (ruThen r) ''severity''))\<rparr> acc)"

definition trace_violations :: "Evaluator \<Rightarrow> string \<Rightarrow> TraceEntry list \<Rightarrow> Violation list \<times> bool \<Rightarrow> Violation list \<times> bool" where
  "trace_violations e pk trace acc =
     fold (\<lambda>tr acc. if \<not> teMatched tr then acc
                     else (case loadLocal e pk '''' of
                             Inl _ \<Rightarrow> acc
                           | Inr p \<Rightarrow> fold (rule_violation pk p) (filter (\<lambda>r. ruID r = teRuleID tr) (rkRules p)) acc))
       trace acc"

fun validate_packs :: "Evaluator \<Rightarrow> rctx \<Rightarrow> string list \<Rightarrow> Violation list \<times> bool \<Rightarrow> (string \<times> rp_error) + Violation list \<times> bool" where
  "validate_packs e ctx [] acc = Inr acc"
| "validate_packs e ctx (pk # ids) acc =
     (case ev_evaluate e pk '''' ctx of
        Inl err \<Rightarrow> Inl (pk, err)
      | Inr d \<Rightarrow> validate_packs e ctx ids (trace_violations e pk (dcTrace d) (merged_violation d acc)))"

section \<open>Rules enforced in code\<close>

definition packRule :: "RPPack \<Rightarrow> string \<Rightarrow> RPRule option" where
  "packRule p rid = find (\<lambda>r. ruID r = rid) (rkRules p)"

definition thenInt :: "RPRule \<Rightarrow> string \<Rightarrow> int64 option" where
  "thenInt r key =
     (case map_of (ruThen r) key of Some (RInt i) \<Rightarrow> Some i | Some (RFloat f) \<Rightarrow> Some (f64_int f) | _ \<Rightarrow> None)"

record Validator =
  vdEval :: Evaluator
  vdToday :: int
  vdDay :: "string \<Rightarrow> int option"
  vdTin :: "(string \<Rightarrow> (nat \<times> string option) option) option"
  vdQuote :: "string \<Rightarrow> string"

datatype validate_error = EvaluateFailed string rp_error | LoadFailed rp_error | TinLookup

definition httpTINStatus :: "(string \<Rightarrow> (nat \<times> string option) option) \<Rightarrow> string \<Rightarrow> validate_error + string" where
  "httpTINStatus get tin =
     (case get tin of
        None \<Rightarrow> Inl TinLookup
      | Some (code, body) \<Rightarrow>
          if code = 404 then Inr ''unknown''
          else if code \<noteq> 200 then Inl TinLookup
          else (case body of None \<Rightarrow> Inl TinLookup | Some s \<Rightarrow> Inr s))"

text \<open>The days between two dates as the code computes them: the duration saturates, half a day is added and the result truncated.\<close>

definition age_days :: "int \<Rightarrow> int \<Rightarrow> int" where
  "age_days today issue = (let d = max (- 106752) (min 106752 (today - issue)) in if d \<ge> 0 then d else d + 1)"

definition date_window :: "Validator \<Rightarrow> RPPack \<Rightarrow> CanonicalInvoice \<Rightarrow> Violation list \<times> bool \<Rightarrow> Violation list \<times> bool" where
  "date_window v p iv acc =
     (case packRule p ''mbs.date.window'' of
        None \<Rightarrow> acc
      | Some r \<Rightarrow>
          (case (thenInt r ''max_backdate_days'', IssueDate iv = '''', vdDay v (IssueDate iv)) of
             (Some days, False, Some issue) \<Rightarrow>
               (let age = age_days (vdToday v) issue
                in if age > days
                   then add_violation \<lparr>vPack = Ref p, vMessage = ''MBS-BR-05: invoice issue_date '' @ IssueDate iv @ '' is backdated '' @ show_int age @
                          '' days (max '' @ show_int days @ '' per mbs.date.window)'', vSeverity = ''fatal''\<rparr> acc
                   else acc)
           | _ \<Rightarrow> acc))"

definition tin_live :: "Validator \<Rightarrow> RPPack \<Rightarrow> CanonicalInvoice \<Rightarrow> Violation list \<times> bool \<Rightarrow> (Violation list \<times> bool) \<times> validate_error option" where
  "tin_live v p iv acc =
     (case (packRule p ''mbs.tin.live'', vdTin v) of
        (Some r, Some get) \<Rightarrow>
          (let tin = TrimSpace (ptTIN (Supplier iv))
           in if tin = '''' then (acc, None)
              else (case httpTINStatus get tin of
                      Inl e \<Rightarrow> (acc, Some e)
                    | Inr status \<Rightarrow>
                        if status \<noteq> ''active''
                        then (add_violation \<lparr>vPack = Ref p, vMessage = ''MBS-BR-06: supplier TIN '' @ tin @ '' is not live (registry status '' @
                                vdQuote v status @ '') per mbs.tin.live'', vSeverity = ''fatal''\<rparr> acc, None)
                        else (acc, None)))
      | _ \<Rightarrow> (acc, None))"

text \<open>The violations found so far, whether one is fatal, and the error.\<close>

definition enforceMBSRules :: "Validator \<Rightarrow> CanonicalInvoice \<Rightarrow> (Violation list \<times> bool) \<times> validate_error option" where
  "enforceMBSRules v iv =
     (case loadLocal (vdEval v) ''rp-mbs-business-rules'' '''' of
        Inl e \<Rightarrow> (([], False), Some (LoadFailed e))
      | Inr p \<Rightarrow> tin_live v p iv (date_window v p iv ([], False)))"

text \<open>\<open>None\<close> is the panic of \<open>RuleContext\<close>.\<close>

definition Validate :: "Validator \<Rightarrow> CanonicalInvoice \<Rightarrow> bool \<Rightarrow> ((Violation list \<times> bool) \<times> validate_error option) option" where
  "Validate v iv duplicate =
     (case RuleContext duplicate iv of
        None \<Rightarrow> None
      | Some ctx0 \<Rightarrow>
          (case validate_packs (vdEval v) (map (apsnd ctx_value) ctx0) [''rp-ubl-bis'', ''rp-mbs-business-rules''] ([], False) of
             Inl (pk, e) \<Rightarrow> Some (([], False), Some (EvaluateFailed pk e))
           | Inr (vs, fatal) \<Rightarrow>
               (case enforceMBSRules v iv of
                  (_, Some e) \<Rightarrow> Some ((vs, fatal), Some e)
                | ((ev, efatal), None) \<Rightarrow> Some ((vs @ ev, fatal \<or> efatal), None))))"

definition PackVersions :: "Validator \<Rightarrow> (string \<times> string) list" where
  "PackVersions v =
     List.map_filter (\<lambda>i. case loadLocal (vdEval v) i '''' of Inr p \<Rightarrow> Some (i, Ref p) | Inl _ \<Rightarrow> None) [''rp-ubl-bis'', ''rp-mbs-business-rules'']"

section \<open>The embedded packs\<close>

definition rp_ubl_bis_rules :: "RPRule list" where
  "rp_ubl_bis_rules =
    [\<lparr>ruID = ''ubl.inv.number.present'', ruPrecedence = None,
       ruWhen = [(''invoice_number__exists'', RBool True)],
       ruThen = [(''check_invoice_number'', RStr ''pass''), (''narrate'', RStr ''IBT-001 Invoice number present'')]\<rparr>,
     \<lparr>ruID = ''ubl.inv.number.missing'', ruPrecedence = None,
       ruWhen = [(''invoice_number__exists'', RBool False)],
       ruThen = [(''check_invoice_number'', RStr ''fail''), (''violation'', RStr ''BR-01: An Invoice shall have an Invoice number (IBT-001)''), (''severity'', RStr ''fatal'')]\<rparr>,
     \<lparr>ruID = ''ubl.inv.issue_date.present'', ruPrecedence = None,
       ruWhen = [(''issue_date__exists'', RBool True)],
       ruThen = [(''check_issue_date'', RStr ''pass''), (''narrate'', RStr ''IBT-002 Issue date present'')]\<rparr>,
     \<lparr>ruID = ''ubl.inv.issue_date.missing'', ruPrecedence = None,
       ruWhen = [(''issue_date__exists'', RBool False)],
       ruThen = [(''check_issue_date'', RStr ''fail''), (''violation'', RStr ''BR-02: An Invoice shall have an Issue date (IBT-002)''), (''severity'', RStr ''fatal'')]\<rparr>,
     \<lparr>ruID = ''ubl.inv.currency.ngn'', ruPrecedence = None,
       ruWhen = [(''currency'', RStr ''NGN'')],
       ruThen = [(''check_currency'', RStr ''pass''), (''narrate'', RStr ''IBT-005 Document currency NGN'')]\<rparr>,
     \<lparr>ruID = ''ubl.inv.currency.other'', ruPrecedence = None,
       ruWhen = [(''currency__ne'', RStr ''NGN'')],
       ruThen = [(''check_currency'', RStr ''warn''), (''violation'', RStr ''NRS profile prefers NGN document currency; FX must be stated''), (''severity'', RStr ''warning'')]\<rparr>,
     \<lparr>ruID = ''ubl.supplier.tin.present'', ruPrecedence = None,
       ruWhen = [(''supplier_tin__exists'', RBool True)],
       ruThen = [(''check_supplier_tin'', RStr ''pass''), (''narrate'', RStr ''Supplier TIN present (NRS profile mandatory)'')]\<rparr>,
     \<lparr>ruID = ''ubl.supplier.tin.missing'', ruPrecedence = None,
       ruWhen = [(''supplier_tin__exists'', RBool False)],
       ruThen = [(''check_supplier_tin'', RStr ''fail''), (''violation'', RStr ''BR-NRS-01: Supplier PartyTaxScheme shall carry TIN''), (''severity'', RStr ''fatal'')]\<rparr>,
     \<lparr>ruID = ''ubl.supplier.name.present'', ruPrecedence = None,
       ruWhen = [(''supplier_name__exists'', RBool True)],
       ruThen = [(''check_supplier_name'', RStr ''pass'')]\<rparr>,
     \<lparr>ruID = ''ubl.supplier.name.missing'', ruPrecedence = None,
       ruWhen = [(''supplier_name__exists'', RBool False)],
       ruThen = [(''check_supplier_name'', RStr ''fail''), (''violation'', RStr ''BR-06: An Invoice shall contain the Seller name (IBT-027)''), (''severity'', RStr ''fatal'')]\<rparr>,
     \<lparr>ruID = ''ubl.customer.name.present'', ruPrecedence = None,
       ruWhen = [(''customer_name__exists'', RBool True)],
       ruThen = [(''check_customer_name'', RStr ''pass'')]\<rparr>,
     \<lparr>ruID = ''ubl.customer.name.missing'', ruPrecedence = None,
       ruWhen = [(''customer_name__exists'', RBool False)],
       ruThen = [(''check_customer_name'', RStr ''fail''), (''violation'', RStr ''BR-07: An Invoice shall contain the Buyer name (IBT-044)''), (''severity'', RStr ''fatal'')]\<rparr>,
     \<lparr>ruID = ''ubl.totals.positive'', ruPrecedence = None,
       ruWhen = [(''payable_amount_kobo__gt'', RInt 0)],
       ruThen = [(''check_totals'', RStr ''pass''), (''narrate'', RStr ''IBT-115 payable amount positive'')]\<rparr>,
     \<lparr>ruID = ''ubl.totals.nonpositive'', ruPrecedence = None,
       ruWhen = [(''payable_amount_kobo__lte'', RInt 0)],
       ruThen = [(''check_totals'', RStr ''fail''), (''violation'', RStr ''BR-NRS-02: Payable amount shall be > 0''), (''severity'', RStr ''fatal'')]\<rparr>,
     \<lparr>ruID = ''ubl.lines.present'', ruPrecedence = None,
       ruWhen = [(''line_count__gte'', RInt 1)],
       ruThen = [(''check_lines'', RStr ''pass''), (''narrate'', RStr ''IBT-126 at least one invoice line'')]\<rparr>,
     \<lparr>ruID = ''ubl.lines.missing'', ruPrecedence = None,
       ruWhen = [(''line_count__lt'', RInt 1)],
       ruThen = [(''check_lines'', RStr ''fail''), (''violation'', RStr ''BR-16: An Invoice shall have at least one Invoice line''), (''severity'', RStr ''fatal'')]\<rparr>,
     \<lparr>ruID = ''ubl.vat.category.valid'', ruPrecedence = None,
       ruWhen = [(''vat_category__in'', RList [RStr ''S'', RStr ''Z'', RStr ''E'', RStr ''AE'', RStr ''O''])],
       ruThen = [(''check_vat_category'', RStr ''pass''), (''narrate'', RStr ''VAT category code recognised'')]\<rparr>]"

definition rp_ubl_bis :: RPPack where
  "rp_ubl_bis =
    \<lparr>rkID = ''rp-ubl-bis'', rkVersion = ''1.0.0'', rkEffectiveFrom = ''2025-01-01'', rkEffectiveTo = None, rkStatus = ''published'', rkSubjectToRegazette = True,
     rkProvenance = [(''as_passed'', RStr ''NRS e-invoicing mandate: invoices exchanged as UBL 2.1 / Peppol BIS Billing 3.0''),
       (''as_gazetted'', RNil),
       (''source_citation'', RStr ''Peppol BIS Billing 3.0; UBL 2.1 Invoice (OASIS); NRS e-invoice profile'')],
     rkSigned = [(''algorithm'', RStr ''ed25519''), (''key_id'', RStr ''governance-board-2026''), (''signature'', RStr ''DEV-UNSIGNED'')],
     rkRules = rp_ubl_bis_rules\<rparr>"

definition rp_mbs_business_rules_rules :: "RPRule list" where
  "rp_mbs_business_rules_rules =
    [\<lparr>ruID = ''mbs.tin.format'', ruPrecedence = None,
       ruWhen = [(''supplier_tin_len'', RInt 13)],
       ruThen = [(''check_tin_format'', RStr ''pass''), (''narrate'', RStr ''TIN is 13 digits'')]\<rparr>,
     \<lparr>ruID = ''mbs.tin.format.bad'', ruPrecedence = None,
       ruWhen = [(''supplier_tin_len__ne'', RInt 13)],
       ruThen = [(''check_tin_format'', RStr ''fail''), (''violation'', RStr ''MBS-BR-01: Supplier TIN must be 13 digits''), (''severity'', RStr ''fatal'')]\<rparr>,
     \<lparr>ruID = ''mbs.amount.b2b.threshold'', ruPrecedence = None,
       ruWhen = [(''invoice_type'', RStr ''B2B''), (''payable_amount_kobo__gte'', RInt 1)],
       ruThen = [(''preclearance_required'', RBool True), (''narrate'', RStr ''B2B invoices require MBS pre-clearance before issuance'')]\<rparr>,
     \<lparr>ruID = ''mbs.b2c.realtime'', ruPrecedence = None,
       ruWhen = [(''invoice_type'', RStr ''B2C'')],
       ruThen = [(''preclearance_required'', RBool False), (''realtime_report_required'', RBool True), (''narrate'', RStr ''B2C: real-time report within 24h, no pre-clearance'')]\<rparr>,
     \<lparr>ruID = ''mbs.vat.rate.standard'', ruPrecedence = None,
       ruWhen = [(''vat_rate_bps'', RInt 750)],
       ruThen = [(''check_vat_rate'', RStr ''pass''), (''narrate'', RStr ''VAT 7.5% standard rate'')]\<rparr>,
     \<lparr>ruID = ''mbs.vat.rate.nonstandard'', ruPrecedence = None,
       ruWhen = [(''vat_rate_bps__gt'', RInt 0), (''vat_rate_bps__ne'', RInt 750)],
       ruThen = [(''check_vat_rate'', RStr ''warn''), (''violation'', RStr ''MBS-BR-02: VAT rate differs from standard 7.5%''), (''severity'', RStr ''warning'')]\<rparr>,
     \<lparr>ruID = ''mbs.duplicate.guard'', ruPrecedence = None,
       ruWhen = [(''duplicate'', RBool True)],
       ruThen = [(''check_duplicate'', RStr ''fail''), (''violation'', RStr ''MBS-BR-03: duplicate invoice number for supplier''), (''severity'', RStr ''fatal'')]\<rparr>,
     \<lparr>ruID = ''mbs.lines.consistent'', ruPrecedence = None,
       ruWhen = [(''totals_consistent'', RBool True)],
       ruThen = [(''check_line_totals'', RStr ''pass''), (''narrate'', RStr ''line extensions sum to tax-exclusive amount'')]\<rparr>,
     \<lparr>ruID = ''mbs.lines.inconsistent'', ruPrecedence = None,
       ruWhen = [(''totals_consistent'', RBool False)],
       ruThen = [(''check_line_totals'', RStr ''fail''), (''violation'', RStr ''MBS-BR-04: line totals do not reconcile with document totals''), (''severity'', RStr ''fatal'')]\<rparr>,
     \<lparr>ruID = ''mbs.large.invoice.flag'', ruPrecedence = None,
       ruWhen = [(''payable_amount_kobo__gte'', RInt 10000000000)],
       ruThen = [(''large_invoice_review'', RBool True), (''narrate'', RStr ''>= N100m flagged for enhanced review'')]\<rparr>,
     \<lparr>ruID = ''mbs.date.window'', ruPrecedence = None,
       ruWhen = [(''supplier_tin_len__gte'', RInt 1)],
       ruThen = [(''check_backdate_window'', RStr ''enforce''), (''max_backdate_days'', RInt 7), (''narrate'', RStr ''issue_date must not be backdated more than max_backdate_days before submission'')]\<rparr>,
     \<lparr>ruID = ''mbs.tin.live'', ruPrecedence = None,
       ruWhen = [(''supplier_tin_len__gte'', RInt 1)],
       ruThen = [(''check_tin_liveness'', RStr ''enforce''), (''narrate'', RStr ''supplier TIN must be live in the registry (active); deregistered/suspended/unknown TINs are rejected'')]\<rparr>]"

definition rp_mbs_business_rules :: RPPack where
  "rp_mbs_business_rules =
    \<lparr>rkID = ''rp-mbs-business-rules'', rkVersion = ''1.0.0'', rkEffectiveFrom = ''2025-01-01'', rkEffectiveTo = None, rkStatus = ''published'', rkSubjectToRegazette = True,
     rkProvenance = [(''as_passed'', RStr ''MBS pre-clearance business rules for B2B e-invoices and B2C real-time reporting''),
       (''as_gazetted'', RNil),
       (''source_citation'', RStr ''NRS Merchant-Buyer-Supplier (MBS) e-invoicing pre-clearance specification'')],
     rkSigned = [(''algorithm'', RStr ''ed25519''), (''key_id'', RStr ''governance-board-2026''), (''signature'', RStr ''DEV-UNSIGNED'')],
     rkRules = rp_mbs_business_rules_rules\<rparr>"

section \<open>What is reported of a pack\<close>

definition rule_msg :: "RPRule \<Rightarrow> string" where
  "rule_msg r = then_text (map_of (ruThen r) ''violation'')"

definition rule_sev :: "RPRule \<Rightarrow> string" where
  "rule_sev r = or_fatal (then_text (map_of (ruThen r) ''severity''))"

text \<open>Rules have ids of their own, a severity accompanies every violation and nothing else, and equal texts have equal severities.\<close>

definition well_graded :: "RPPack \<Rightarrow> bool" where
  "well_graded p \<longleftrightarrow> maps_ok p \<and> distinct (map ruID (rkRules p)) \<and>
     (\<forall>r\<in>set (rkRules p). ''violation'' \<in> fst ` set (ruThen r) \<longleftrightarrow> ''severity'' \<in> fst ` set (ruThen r)) \<and>
     (\<forall>r\<in>set (rkRules p). \<forall>r'\<in>set (rkRules p). rule_msg r = rule_msg r' \<and> rule_msg r \<noteq> '''' \<longrightarrow> rule_sev r = rule_sev r')"

definition fired :: "(f64 \<Rightarrow> string) \<Rightarrow> RPPack \<Rightarrow> rctx \<Rightarrow> RPRule list" where
  "fired fl p ctx = filter (\<lambda>r. rule_matches fl r ctx \<and> rule_msg r \<noteq> '''') (rkRules p)"

lemma distinct_ids_filter:
  "distinct (map ruID rs) \<Longrightarrow> r \<in> set rs \<Longrightarrow> filter (\<lambda>q. ruID q = ruID r) rs = [r]"
proof (induction rs)
  case (Cons q rs)
  have "ruID q \<notin> ruID ` set rs" using Cons.prems(1) by simp
  then have "filter (\<lambda>x. ruID x = ruID q) rs = []" by (metis (mono_tags, lifting) filter_False image_eqI)
  then show ?case using Cons by auto
qed simp

lemma rule_violation_silent: "rule_msg r = '''' \<Longrightarrow> rule_violation pk p r acc = acc"
  by (simp add: rule_violation_def rule_msg_def)

lemma trace_violations_eq:
  assumes "loadLocal e pk '''' = Inr p" "distinct (map ruID (rkRules p))"
  shows "trace_violations e pk (dcTrace (Evaluate fl p ctx)) acc = fold (rule_violation pk p) (fired fl p ctx) acc"
proof -
  have "fold (\<lambda>tr acc. if \<not> teMatched tr then acc else fold (rule_violation pk p) (filter (\<lambda>r. ruID r = teRuleID tr) (rkRules p)) acc)
      (map (\<lambda>r. \<lparr>teRuleID = ruID r, teMatched = rule_matches fl r ctx, teReason = snd (Match fl r ctx)\<rparr>) rs) acc =
    fold (rule_violation pk p) (filter (\<lambda>r. rule_matches fl r ctx \<and> rule_msg r \<noteq> '''') rs) acc"
    if "set rs \<subseteq> set (rkRules p)" for rs
    using that by (induction rs arbitrary: acc) (auto simp: distinct_ids_filter [OF assms(2)] rule_violation_silent)
  then show ?thesis unfolding trace_violations_def assms(1) Evaluate_trace fired_def sum.case by simp
qed

text \<open>What collecting one pack adds to the violations found before.\<close>

definition reports :: "RPPack \<Rightarrow> RPRule set \<Rightarrow> Violation list \<times> bool \<Rightarrow> Violation list \<times> bool \<Rightarrow> bool" where
  "reports p R acc0 acc \<longleftrightarrow>
     (\<exists>new. fst acc = fst acc0 @ new \<and> distinct (map vMessage new) \<and>
        (\<forall>x\<in>set new. vPack x = Ref p) \<and> (\<lambda>x. (vMessage x, vSeverity x)) ` set new = (\<lambda>r. (rule_msg r, rule_sev r)) ` R) \<and>
     (snd acc \<longleftrightarrow> snd acc0 \<or> (\<exists>r\<in>R. rule_sev r = ''fatal''))"

definition foreign :: "string \<Rightarrow> Violation list \<times> bool \<Rightarrow> bool" where
  "foreign pk acc \<longleftrightarrow> (\<forall>x\<in>set (fst acc). \<not> HasPrefix (vPack x) pk)"

lemma Ref_prefix: "HasPrefix (Ref p) (rkID p)"
  by (simp add: HasPrefix_iff Ref_def)

lemma reports_step:
  assumes "reports p R acc0 acc" "foreign (rkID p) acc0" "rule_msg r \<noteq> ''''" "\<forall>q\<in>R. rule_msg q = rule_msg r \<longrightarrow> rule_sev q = rule_sev r"
  shows "reports p (insert r R) acc0 (rule_violation (rkID p) p r acc)"
proof -
  obtain new where new: "fst acc = fst acc0 @ new" "distinct (map vMessage new)" "\<forall>x\<in>set new. vPack x = Ref p"
      "(\<lambda>x. (vMessage x, vSeverity x)) ` set new = (\<lambda>r. (rule_msg r, rule_sev r)) ` R"
      "snd acc \<longleftrightarrow> snd acc0 \<or> (\<exists>r\<in>R. rule_sev r = ''fatal'')"
    using assms(1) by (auto simp: reports_def)
  have seen: "list_ex (\<lambda>x. vMessage x = rule_msg r \<and> HasPrefix (vPack x) (rkID p)) (fst acc) \<longleftrightarrow> rule_msg r \<in> rule_msg ` R"
  proof -
    have "list_ex (\<lambda>x. vMessage x = rule_msg r \<and> HasPrefix (vPack x) (rkID p)) (fst acc) \<longleftrightarrow> rule_msg r \<in> vMessage ` set new"
      using assms(2) new(1,3) Ref_prefix [of p] by (auto simp: list_ex_iff foreign_def) (metis imageI)
    moreover have "vMessage ` set new = rule_msg ` R" using arg_cong [OF new(4), of "(`) fst"] by (simp add: image_image)
    ultimately show ?thesis by simp
  qed
  show ?thesis
  proof (cases "rule_msg r \<in> rule_msg ` R")
    case True
    then obtain q where "q \<in> R" "rule_msg q = rule_msg r" "rule_sev q = rule_sev r" using assms(4) by force
    then have "(rule_msg r, rule_sev r) \<in> (\<lambda>r. (rule_msg r, rule_sev r)) ` R" "rule_sev r = ''fatal'' \<Longrightarrow> \<exists>r\<in>R. rule_sev r = ''fatal''"
      by (metis (mono_tags, lifting) image_eqI, metis)
    then have "(\<lambda>r. (rule_msg r, rule_sev r)) ` insert r R = (\<lambda>r. (rule_msg r, rule_sev r)) ` R" "(\<exists>r\<in>insert r R. rule_sev r = ''fatal'') \<longleftrightarrow> (\<exists>r\<in>R. rule_sev r = ''fatal'')"
      by (simp_all add: insert_absorb, blast)
    moreover have "rule_violation (rkID p) p r acc = acc" using True seen by (simp add: rule_violation_def rule_msg_def)
    ultimately show ?thesis using new by (auto simp: reports_def)
  next
    case False
    let ?x = "\<lparr>vPack = Ref p, vMessage = rule_msg r, vSeverity = rule_sev r\<rparr>"
    have add: "rule_violation (rkID p) p r acc = add_violation ?x acc"
      using False seen assms(3) by (simp add: rule_violation_def rule_msg_def rule_sev_def)
    have "vMessage ` set new = rule_msg ` R" using arg_cong [OF new(4), of "(`) fst"] by (simp add: image_image)
    then have "distinct (map vMessage (new @ [?x]))" using new(2) False by simp
    moreover have "(\<lambda>x. (vMessage x, vSeverity x)) ` set (new @ [?x]) = (\<lambda>r. (rule_msg r, rule_sev r)) ` insert r R" using new(4) by simp
    moreover have "fst (add_violation ?x acc) = fst acc0 @ (new @ [?x])" "snd (add_violation ?x acc) \<longleftrightarrow> snd acc \<or> rule_sev r = ''fatal''"
      using new(1) by (simp_all add: add_violation_def case_prod_beta)
    ultimately show ?thesis unfolding reports_def add using new(3,5) by (intro conjI exI [of _ "new @ [?x]"]) auto
  qed
qed

lemma reports_fold:
  assumes "reports p R acc0 acc" "foreign (rkID p) acc0" "\<forall>r\<in>set rs. rule_msg r \<noteq> ''''"
    "\<forall>q\<in>R \<union> set rs. \<forall>r\<in>R \<union> set rs. rule_msg q = rule_msg r \<longrightarrow> rule_sev q = rule_sev r"
  shows "reports p (R \<union> set rs) acc0 (fold (rule_violation (rkID p) p) rs acc)"
  using assms(1,3,4)
proof (induction rs arbitrary: R acc)
  case (Cons r rs)
  have "reports p (insert r R) acc0 (rule_violation (rkID p) p r acc)"
    by (rule reports_step [OF Cons.prems(1) assms(2)]) (use Cons.prems in auto)
  moreover have "insert r R \<union> set rs = R \<union> set (r # rs)" by simp
  ultimately show ?case using Cons.IH [of "insert r R"] Cons.prems(2,3) by (metis fold_simps(2) list.set_intros(2))
qed simp

lemma reports_refl: "reports p {} acc acc"
  by (simp add: reports_def)

lemma fired_mem: "r \<in> set (fired fl p ctx) \<longleftrightarrow> r \<in> set (rkRules p) \<and> rule_matches fl r ctx \<and> rule_msg r \<noteq> ''''"
  by (auto simp: fired_def)

text \<open>The merged violation is that of a rule that fired, with its own severity.\<close>

lemma merged_violation_rule:
  assumes "well_graded p" "d = Evaluate fl p ctx"
  shows "merged_violation d acc = acc \<or> (\<exists>r\<in>set (fired fl p ctx).
    merged_violation d acc = add_violation \<lparr>vPack = Ref p, vMessage = rule_msg r, vSeverity = rule_sev r\<rparr> acc)"
proof (cases "then_text (dcAttrs d ''violation'') = ''''")
  case False
  then obtain v where v: "dcAttrs d ''violation'' = Some v" by (cases "dcAttrs d ''violation''") (auto simp: then_text_def)
  have ok: "maps_ok p" using assms(1) by (simp add: well_graded_def)
  let ?wins = "\<lambda>k j. \<forall>i<length (rkRules p). rule_matches fl (rkRules p ! i) ctx \<and> k \<in> fst ` set (ruThen (rkRules p ! i)) \<longrightarrow>
        rule_precedence (rkRules p ! i) < rule_precedence (rkRules p ! j) \<or> rule_precedence (rkRules p ! i) = rule_precedence (rkRules p ! j) \<and> i \<le> j"
  from Evaluate_field [OF ok, of "''violation''" fl ctx v] v obtain j where j: "j < length (rkRules p)" "rule_matches fl (rkRules p ! j) ctx"
      "map_of (ruThen (rkRules p ! j)) ''violation'' = Some v" "?wins ''violation'' j"
    unfolding assms(2) by auto
  let ?r = "rkRules p ! j"
  have both: "''violation'' \<in> fst ` set (ruThen r) \<longleftrightarrow> ''severity'' \<in> fst ` set (ruThen r)" if "r \<in> set (rkRules p)" for r
    using assms(1) that by (simp add: well_graded_def)
  have "''violation'' \<in> fst ` set (ruThen ?r)" using j(3) by (metis domI dom_map_of_conv_image_fst)
  then obtain w where w: "map_of (ruThen ?r) ''severity'' = Some w" using both [OF nth_mem [OF j(1)]] by (metis domD dom_map_of_conv_image_fst)
  have "?wins ''severity'' j" using j(4) both nth_mem by blast
  then have "dcAttrs d ''severity'' = Some w"
    unfolding assms(2) by (subst Evaluate_field [OF ok]) (use j(1,2) w in auto)
  moreover have "then_text (dcAttrs d ''violation'') = rule_msg ?r" using v j(3) by (simp add: rule_msg_def)
  ultimately have "merged_violation d acc = add_violation \<lparr>vPack = Ref p, vMessage = rule_msg ?r, vSeverity = rule_sev ?r\<rparr> acc"
    using False w by (simp add: merged_violation_def rule_sev_def assms(2) Evaluate_def case_prod_beta)
  moreover have "?r \<in> set (fired fl p ctx)" using j(1,2) False \<open>then_text (dcAttrs d ''violation'') = rule_msg ?r\<close> by (simp add: fired_mem)
  ultimately show ?thesis by blast
qed (simp add: merged_violation_def)

lemma pack_reports:
  assumes "well_graded p" "foreign (rkID p) acc" "loadLocal e (rkID p) '''' = Inr p" "d = Evaluate fl p ctx"
  shows "reports p (set (fired fl p ctx)) acc (trace_violations e (rkID p) (dcTrace d) (merged_violation d acc))"
proof -
  have same: "rule_sev q = rule_sev r" if "q \<in> set (fired fl p ctx)" "r \<in> set (fired fl p ctx)" "rule_msg q = rule_msg r" for q r
    using assms(1) that by (auto simp: well_graded_def fired_mem)
  have "\<exists>R\<subseteq>set (fired fl p ctx). reports p R acc (merged_violation d acc)"
    using merged_violation_rule [OF assms(1,4), of acc]
  proof
    assume "\<exists>r\<in>set (fired fl p ctx). merged_violation d acc = add_violation \<lparr>vPack = Ref p, vMessage = rule_msg r, vSeverity = rule_sev r\<rparr> acc"
    then obtain r where r: "r \<in> set (fired fl p ctx)" "merged_violation d acc = add_violation \<lparr>vPack = Ref p, vMessage = rule_msg r, vSeverity = rule_sev r\<rparr> acc"
      by blast
    then have "reports p {r} acc (merged_violation d acc)" by (simp add: reports_def add_violation_def case_prod_beta)
    then show ?thesis using r(1) by blast
  qed (use reports_refl [of p acc] in force)
  then obtain R where R: "R \<subseteq> set (fired fl p ctx)" "reports p R acc (merged_violation d acc)" by blast
  have "reports p (R \<union> set (fired fl p ctx)) acc (fold (rule_violation (rkID p) p) (fired fl p ctx) (merged_violation d acc))"
  proof (rule reports_fold [OF R(2) assms(2)])
    show "\<forall>r\<in>set (fired fl p ctx). rule_msg r \<noteq> ''''" by (simp add: fired_mem)
    show "\<forall>q\<in>R \<union> set (fired fl p ctx). \<forall>r\<in>R \<union> set (fired fl p ctx). rule_msg q = rule_msg r \<longrightarrow> rule_sev q = rule_sev r"
      using same R(1) by blast
  qed
  moreover have "distinct (map ruID (rkRules p))" using assms(1) by (simp add: well_graded_def)
  ultimately show ?thesis using R(1) trace_violations_eq [OF assms(3)] by (simp add: assms(4) Un_absorb1)
qed

section \<open>The embedded packs on an invoice\<close>

lemma split_keys:
  "split_op ''currency'' = (''currency'', ''eq'')"
  "split_op ''currency__ne'' = (''currency'', ''ne'')"
  "split_op ''customer_name__exists'' = (''customer_name'', ''exists'')"
  "split_op ''duplicate'' = (''duplicate'', ''eq'')"
  "split_op ''invoice_number__exists'' = (''invoice_number'', ''exists'')"
  "split_op ''invoice_type'' = (''invoice_type'', ''eq'')"
  "split_op ''payable_amount_kobo__gte'' = (''payable_amount_kobo'', ''gte'')"
  "split_op ''issue_date__exists'' = (''issue_date'', ''exists'')"
  "split_op ''line_count__gte'' = (''line_count'', ''gte'')"
  "split_op ''line_count__lt'' = (''line_count'', ''lt'')"
  "split_op ''payable_amount_kobo__gt'' = (''payable_amount_kobo'', ''gt'')"
  "split_op ''payable_amount_kobo__lte'' = (''payable_amount_kobo'', ''lte'')"
  "split_op ''supplier_name__exists'' = (''supplier_name'', ''exists'')"
  "split_op ''supplier_tin__exists'' = (''supplier_tin'', ''exists'')"
  "split_op ''supplier_tin_len'' = (''supplier_tin_len'', ''eq'')"
  "split_op ''supplier_tin_len__gte'' = (''supplier_tin_len'', ''gte'')"
  "split_op ''supplier_tin_len__ne'' = (''supplier_tin_len'', ''ne'')"
  "split_op ''totals_consistent'' = (''totals_consistent'', ''eq'')"
  "split_op ''vat_category__in'' = (''vat_category'', ''in'')"
  "split_op ''vat_rate_bps'' = (''vat_rate_bps'', ''eq'')"
  "split_op ''vat_rate_bps__gt'' = (''vat_rate_bps'', ''gt'')"
  "split_op ''vat_rate_bps__ne'' = (''vat_rate_bps'', ''ne'')"
  by code_simp+

lemma packs_well_graded: "well_graded rp_ubl_bis" "well_graded rp_mbs_business_rules"
  by code_simp+

lemma map_of_ctx: "map_of (map (apsnd ctx_value) c) k = map_option ctx_value (map_of c k)"
  by (induction c) auto

definition max_rate :: "CanonicalInvoice \<Rightarrow> int64" where
  "max_rate iv = foldl (\<lambda>m l. if ilVatRateBps l > m then ilVatRateBps l else m) 0 (ciLines iv)"

definition tin_len :: "CanonicalInvoice \<Rightarrow> nat option" where
  "tin_len iv = (if ptTIN (Supplier iv) = '''' then None else Some (length (TrimSpace (ptTIN (Supplier iv)))))"

lemma context_values:
  assumes "RuleContext dup iv = Some c"
  shows "map_of c ''invoice_number'' = Some (CStr (InvoiceNumber iv))" "map_of c ''issue_date'' = Some (CStr (IssueDate iv))"
    "map_of c ''currency'' = Some (CStr (ciCurrency iv))" "map_of c ''invoice_type'' = Some (CStr (InvoiceType iv))"
    "map_of c ''supplier_tin'' = Some (CStr (ptTIN (Supplier iv)))" "map_of c ''supplier_name'' = Some (CStr (ptName (Supplier iv)))"
    "map_of c ''customer_name'' = Some (CStr (ptName (Customer iv)))" "map_of c ''payable_amount_kobo'' = Some (CInt (PayableKobo iv))"
    "map_of c ''line_count'' = Some (CInt (int (length (ciLines iv))))" "map_of c ''totals_consistent'' = Some (CBool (TotalsConsistent iv))"
    "map_of c ''duplicate'' = Some (CBool dup)" "map_of c ''vat_rate_bps'' = Some (CInt (max_rate iv))"
    "map_of c ''supplier_tin_len'' = map_option (\<lambda>n. CInt (int n)) (tin_len iv)"
    "ciLines iv \<noteq> []"
  using assms by (auto simp: RuleContext_def Let_def max_rate_def tin_len_def split: list.splits if_splits)

lemma show_int_digits: "show_int i = show_nat n \<Longrightarrow> i = int n"
proof -
  assume h: "show_int i = show_nat n"
  have "i \<ge> 0"
  proof (rule ccontr)
    assume "\<not> i \<ge> 0"
    then have "CHR ''-'' \<in> set (show_nat n)" using h by (auto simp: show_int_def split: if_splits) (metis list.set_intros(1))
    then have "isDigit (CHR ''-'')" using show_nat_digits [of n] by (auto simp: list_all_iff)
    then show False by (simp add: isDigit_def)
  qed
  then show ?thesis using h show_nat_inject [of "nat i" n] by (simp add: show_int_def split: if_splits)
qed

lemma show_nat_not_nil: "show_nat n \<noteq> ''<nil>''"
  using show_nat_digits [of n] by (auto simp: isDigit_def)

lemma match_eq_values:
  "fst (match_eq fl base (RStr w) (RStr g) ok) \<longleftrightarrow> g = w"
  "fst (match_eq fl base (RBool b) (RBool a) ok) \<longleftrightarrow> a = b"
  "n < 2 ^ 53 \<Longrightarrow> fst (match_eq fl base (RInt (int n)) (RInt i) ok) \<longleftrightarrow> i = int n"
  "fst (match_eq fl base (RInt (int n)) RNil ok) \<longleftrightarrow> False"
proof -
  show "fst (match_eq fl base (RStr w) (RStr g) ok) \<longleftrightarrow> g = w" "fst (match_eq fl base (RBool b) (RBool a) ok) \<longleftrightarrow> a = b"
    by (auto simp: match_eq_def show_bool_def)
  show "fst (match_eq fl base (RInt (int n)) RNil ok) \<longleftrightarrow> False"
    using show_nat_not_nil [of n] by (auto simp: match_eq_def show_int_def)
  assume n: "n < 2 ^ 53"
  have "show_int i = show_int (int n) \<longleftrightarrow> i = int n" using show_int_digits [of i n] by (auto simp: show_int_def)
  moreover have "f64_eq (f64_of_int i) (f64_of_int (int n)) \<longleftrightarrow> i = int n" using n by (intro f64_small_cmp) simp
  ultimately show "fst (match_eq fl base (RInt (int n)) (RInt i) ok) \<longleftrightarrow> i = int n" by (simp add: match_eq_def)
qed

text \<open>The conditions that occur in the packs.\<close>

lemma cond_eq: "split_op k = (b, ''eq'') \<Longrightarrow> fst (matchCond fl k w ctx) = fst (match_eq fl b w (rget ctx b) (map_of ctx b \<noteq> None))"
  by (subst matchCond.simps) (simp add: Let_def)

lemma cond_ne: "split_op k = (b, ''ne'') \<Longrightarrow> fst (matchCond fl k w ctx) = (\<not> fst (matchCond fl b w ctx))"
  by (subst matchCond.simps) (simp add: Let_def)

lemma cond_exists: "split_op k = (b, ''exists'') \<Longrightarrow> fst (matchCond fl k (RBool w) ctx) = ((map_of ctx b \<noteq> None) = w)"
  by (subst matchCond.simps) (simp add: Let_def)

lemma cond_num:
  assumes "split_op k = (b, op)" "op \<in> {''lt'', ''lte'', ''gt'', ''gte''}" "rget ctx b = RInt i"
  shows "fst (matchCond fl k (RInt j) ctx) = num_holds op (f64_of_int i) (f64_of_int j)"
  using assms by (subst matchCond.simps) (auto simp: Let_def)

lemma num_holds_small:
  assumes "\<bar>j\<bar> < 2 ^ 53"
  shows "num_holds ''lt'' (f64_of_int i) (f64_of_int j) \<longleftrightarrow> i < j" "num_holds ''lte'' (f64_of_int i) (f64_of_int j) \<longleftrightarrow> i \<le> j"
    "num_holds ''gt'' (f64_of_int i) (f64_of_int j) \<longleftrightarrow> i > j" "num_holds ''gte'' (f64_of_int i) (f64_of_int j) \<longleftrightarrow> i \<ge> j"
  using assms by (simp_all add: num_holds_def f64_small_cmp)

text \<open>The violations of each pack that apply to an invoice.\<close>

definition ubl_expected :: "CanonicalInvoice \<Rightarrow> (string \<times> string) list" where
  "ubl_expected iv =
     (if ciCurrency iv \<noteq> ''NGN'' then [(''NRS profile prefers NGN document currency; FX must be stated'', ''warning'')] else []) @
     (if PayableKobo iv \<le> 0 then [(''BR-NRS-02: Payable amount shall be > 0'', ''fatal'')] else [])"

definition mbs_expected :: "bool \<Rightarrow> CanonicalInvoice \<Rightarrow> (string \<times> string) list" where
  "mbs_expected dup iv =
     (if tin_len iv \<noteq> Some 13 then [(''MBS-BR-01: Supplier TIN must be 13 digits'', ''fatal'')] else []) @
     (if max_rate iv > 0 \<and> max_rate iv \<noteq> 750 then [(''MBS-BR-02: VAT rate differs from standard 7.5%'', ''warning'')] else []) @
     (if dup then [(''MBS-BR-03: duplicate invoice number for supplier'', ''fatal'')] else []) @
     (if \<not> TotalsConsistent iv then [(''MBS-BR-04: line totals do not reconcile with document totals'', ''fatal'')] else [])"

definition fired_pairs :: "(f64 \<Rightarrow> string) \<Rightarrow> RPPack \<Rightarrow> rctx \<Rightarrow> (string \<times> string) list" where
  "fired_pairs fl p ctx = map (\<lambda>r. (rule_msg r, rule_sev r)) (fired fl p ctx)"

text \<open>Only rules with a violation text matter.\<close>

definition violating :: "RPPack \<Rightarrow> ((string \<times> rvalue) list \<times> string \<times> string) list" where
  "violating p = map (\<lambda>r. (ruWhen r, rule_msg r, rule_sev r)) (filter (\<lambda>r. rule_msg r \<noteq> '''') (rkRules p))"

lemma fired_pairs_violating:
  "fired_pairs fl p ctx = map snd (filter (\<lambda>(w, _). list_all (\<lambda>(k, x). fst (matchCond fl k x ctx)) w) (violating p))"
  by (simp add: fired_pairs_def fired_def violating_def rule_matches_iff filter_map comp_def conj_commute)

lemma if_append: "(if b then [x] else []) @ r = (if b then x # r else r)"
  by simp

lemma ubl_violating:
  "violating rp_ubl_bis =
    [([(''invoice_number__exists'', RBool False)], ''BR-01: An Invoice shall have an Invoice number (IBT-001)'', ''fatal''),
     ([(''issue_date__exists'', RBool False)], ''BR-02: An Invoice shall have an Issue date (IBT-002)'', ''fatal''),
     ([(''currency__ne'', RStr ''NGN'')], ''NRS profile prefers NGN document currency; FX must be stated'', ''warning''),
     ([(''supplier_tin__exists'', RBool False)], ''BR-NRS-01: Supplier PartyTaxScheme shall carry TIN'', ''fatal''),
     ([(''supplier_name__exists'', RBool False)], ''BR-06: An Invoice shall contain the Seller name (IBT-027)'', ''fatal''),
     ([(''customer_name__exists'', RBool False)], ''BR-07: An Invoice shall contain the Buyer name (IBT-044)'', ''fatal''),
     ([(''payable_amount_kobo__lte'', RInt 0)], ''BR-NRS-02: Payable amount shall be > 0'', ''fatal''),
     ([(''line_count__lt'', RInt 1)], ''BR-16: An Invoice shall have at least one Invoice line'', ''fatal'')]"
  by code_simp

lemma mbs_violating:
  "violating rp_mbs_business_rules =
    [([(''supplier_tin_len__ne'', RInt 13)], ''MBS-BR-01: Supplier TIN must be 13 digits'', ''fatal''),
     ([(''vat_rate_bps__gt'', RInt 0), (''vat_rate_bps__ne'', RInt 750)], ''MBS-BR-02: VAT rate differs from standard 7.5%'', ''warning''),
     ([(''duplicate'', RBool True)], ''MBS-BR-03: duplicate invoice number for supplier'', ''fatal''),
     ([(''totals_consistent'', RBool False)], ''MBS-BR-04: line totals do not reconcile with document totals'', ''fatal'')]"
  by code_simp

lemma rget_ctx: "map_of c k = Some x \<Longrightarrow> rget (map (apsnd ctx_value) c) k = ctx_value x"
  by (simp add: rget_def map_of_ctx)

lemma ubl_fired:
  assumes "RuleContext dup iv = Some c"
  shows "fired_pairs fl rp_ubl_bis (map (apsnd ctx_value) c) = ubl_expected iv"
proof -
  note cv = context_values [OF assms]
  have "int (length (ciLines iv)) \<ge> 1" using cv(14) by (cases "ciLines iv") auto
  then show ?thesis
    unfolding fired_pairs_violating ubl_violating
    by (simp add: cond_exists split_keys map_of_ctx cv cond_ne cond_eq rget_ctx match_eq_values cond_num num_holds_small ubl_expected_def if_append)
qed

lemma mbs_fired:
  assumes "RuleContext dup iv = Some c"
  shows "fired_pairs fl rp_mbs_business_rules (map (apsnd ctx_value) c) = mbs_expected dup iv"
proof -
  note cv = context_values [OF assms]
  let ?ctx = "map (apsnd ctx_value) c"
  have tin: "fst (matchCond fl ''supplier_tin_len'' (RInt 13) ?ctx) \<longleftrightarrow> tin_len iv = Some 13"
    using match_eq_values(3) [of 13] match_eq_values(4) [of _ _ 13]
    by (cases "tin_len iv") (auto simp: cond_eq split_keys map_of_ctx cv rget_def)
  have rate: "fst (matchCond fl ''vat_rate_bps'' (RInt 750) ?ctx) \<longleftrightarrow> max_rate iv = 750"
    using match_eq_values(3) [of 750] by (simp add: cond_eq split_keys map_of_ctx cv rget_def)
  show ?thesis
    unfolding fired_pairs_violating mbs_violating
    by (simp add: cond_ne split_keys tin rate cond_eq [OF split_keys(4)] cond_eq [OF split_keys(18)] match_eq_values(2) map_of_ctx cv rget_ctx cond_num num_holds_small mbs_expected_def if_append)
qed

lemma fired_pairs_set: "(\<lambda>r. (rule_msg r, rule_sev r)) ` set (fired fl p ctx) = set (fired_pairs fl p ctx)"
  by (simp add: fired_pairs_def)

lemma fired_fatal: "(\<exists>r\<in>set (fired fl p ctx). rule_sev r = ''fatal'') \<longleftrightarrow> ''fatal'' \<in> snd ` set (fired_pairs fl p ctx)"
  by (force simp: fired_pairs_def)

section \<open>The whole validation\<close>

definition backdated :: "Validator \<Rightarrow> CanonicalInvoice \<Rightarrow> bool" where
  "backdated v iv \<longleftrightarrow> IssueDate iv \<noteq> '''' \<and> (\<exists>d. vdDay v (IssueDate iv) = Some d \<and> age_days (vdToday v) d > 7)"

definition dead_tin :: "Validator \<Rightarrow> CanonicalInvoice \<Rightarrow> bool" where
  "dead_tin v iv \<longleftrightarrow> (\<exists>get. vdTin v = Some get \<and> TrimSpace (ptTIN (Supplier iv)) \<noteq> '''' \<and> httpTINStatus get (TrimSpace (ptTIN (Supplier iv))) \<noteq> Inr ''active'')"

text \<open>The registry, when configured, answers for the supplier.\<close>

definition registry_answers :: "Validator \<Rightarrow> CanonicalInvoice \<Rightarrow> bool" where
  "registry_answers v iv \<longleftrightarrow> (\<forall>get. vdTin v = Some get \<longrightarrow> TrimSpace (ptTIN (Supplier iv)) \<noteq> '''' \<longrightarrow> (\<exists>s. httpTINStatus get (TrimSpace (ptTIN (Supplier iv))) = Inr s))"

text \<open>The violations enforced in code: the issue date more than seven days back, a supplier that the registry does not list as active.\<close>

definition enforced_expected :: "Validator \<Rightarrow> CanonicalInvoice \<Rightarrow> (string \<times> string) list" where
  "enforced_expected v iv =
     (if backdated v iv
      then [(''MBS-BR-05: invoice issue_date '' @ IssueDate iv @ '' is backdated '' @ show_int (age_days (vdToday v) (the (vdDay v (IssueDate iv)))) @
             '' days (max 7 per mbs.date.window)'', ''fatal'')] else []) @
     (if dead_tin v iv
      then [(''MBS-BR-06: supplier TIN '' @ TrimSpace (ptTIN (Supplier iv)) @ '' is not live (registry status '' @
             vdQuote v (projr (httpTINStatus (the (vdTin v)) (TrimSpace (ptTIN (Supplier iv))))) @ '') per mbs.tin.live'', ''fatal'')] else [])"

lemma mbs_parameters:
  "map_option (\<lambda>r. thenInt r ''max_backdate_days'') (packRule rp_mbs_business_rules ''mbs.date.window'') = Some (Some 7)"
  "map_option ruID (packRule rp_mbs_business_rules ''mbs.tin.live'') = Some ''mbs.tin.live''"
  "show_int 7 = ''7''"
  by code_simp+

lemma enforce_effect:
  assumes "loadLocal (vdEval v) ''rp-mbs-business-rules'' '''' = Inr rp_mbs_business_rules" "registry_answers v iv"
  shows "\<exists>ev. enforceMBSRules v iv = ((ev, backdated v iv \<or> dead_tin v iv), None) \<and> map (\<lambda>x. (vMessage x, vSeverity x)) ev = enforced_expected v iv"
proof -
  obtain rd where rd: "packRule rp_mbs_business_rules ''mbs.date.window'' = Some rd" "thenInt rd ''max_backdate_days'' = Some 7"
    using mbs_parameters(1) by auto
  obtain rt where rt: "packRule rp_mbs_business_rules ''mbs.tin.live'' = Some rt" using mbs_parameters(2) by auto
  let ?old = "if backdated v iv
      then [(''MBS-BR-05: invoice issue_date '' @ IssueDate iv @ '' is backdated '' @ show_int (age_days (vdToday v) (the (vdDay v (IssueDate iv)))) @
             '' days (max 7 per mbs.date.window)'', ''fatal'')] else []"
  have "\<exists>dw. date_window v rp_mbs_business_rules iv ([], False) = (dw, backdated v iv) \<and> map (\<lambda>x. (vMessage x, vSeverity x)) dw = ?old"
    by (cases "IssueDate iv = ''''"; cases "vdDay v (IssueDate iv)") (simp_all add: date_window_def rd add_violation_def backdated_def mbs_parameters(3) Let_def)
  then obtain dw where dw: "date_window v rp_mbs_business_rules iv ([], False) = (dw, backdated v iv)" "map (\<lambda>x. (vMessage x, vSeverity x)) dw = ?old"
    by blast
  have "\<exists>ev. tin_live v rp_mbs_business_rules iv (dw, backdated v iv) = ((ev, backdated v iv \<or> dead_tin v iv), None) \<and>
      map (\<lambda>x. (vMessage x, vSeverity x)) ev = enforced_expected v iv"
    using assms(2) dw(2)
    by (auto simp: tin_live_def rt dead_tin_def registry_answers_def add_violation_def enforced_expected_def Let_def split: option.splits sum.splits)
  then show ?thesis using dw(1) by (simp add: enforceMBSRules_def assms(1))
qed

lemma reports_new:
  assumes "reports p (set (fired fl p ctx)) acc0 acc"
  obtains new where "fst acc = fst acc0 @ new" "\<forall>x\<in>set new. vPack x = Ref p" "distinct (map vMessage new)"
    "set (map (\<lambda>x. (vMessage x, vSeverity x)) new) = set (fired_pairs fl p ctx)"
    "snd acc \<longleftrightarrow> snd acc0 \<or> ''fatal'' \<in> snd ` set (fired_pairs fl p ctx)"
  using assms by (auto simp: reports_def fired_pairs_set fired_fatal)

lemma context_exists: "ciLines iv \<noteq> [] \<Longrightarrow> \<exists>c. RuleContext dup iv = Some c"
proof -
  assume "ciLines iv \<noteq> []"
  then have "set (sort (remdups (map VatCategory (ciLines iv)))) \<noteq> {}" by simp
  then have "sort (remdups (map VatCategory (ciLines iv))) \<noteq> []" by (metis list.set(1))
  then show ?thesis by (auto simp: RuleContext_def Let_def split: list.splits)
qed

lemma packs_reports:
  assumes "evEngine e = None" "loadLocal e ''rp-ubl-bis'' '''' = Inr rp_ubl_bis"
    "loadLocal e ''rp-mbs-business-rules'' '''' = Inr rp_mbs_business_rules" "RuleContext dup iv = Some c"
  obtains vs where "validate_packs e (map (apsnd ctx_value) c) [''rp-ubl-bis'', ''rp-mbs-business-rules''] ([], False) =
      Inr (vs, ''fatal'' \<in> snd ` set (ubl_expected iv @ mbs_expected dup iv))"
    "set (map (\<lambda>x. (vMessage x, vSeverity x)) vs) = set (ubl_expected iv @ mbs_expected dup iv)"
proof -
  let ?ctx = "map (apsnd ctx_value) c"
  have ids: "rkID rp_ubl_bis = ''rp-ubl-bis''" "rkID rp_mbs_business_rules = ''rp-mbs-business-rules''"
    by (simp_all add: rp_ubl_bis_def rp_mbs_business_rules_def)
  have ev: "ev_evaluate e ''rp-ubl-bis'' '''' ?ctx = Inr (Evaluate (evFloat e) rp_ubl_bis ?ctx)"
      "ev_evaluate e ''rp-mbs-business-rules'' '''' ?ctx = Inr (Evaluate (evFloat e) rp_mbs_business_rules ?ctx)"
    by (simp_all add: ev_evaluate_def engine_evaluate_def assms(1-3))
  define d1 where "d1 = Evaluate (evFloat e) rp_ubl_bis ?ctx"
  define d2 where "d2 = Evaluate (evFloat e) rp_mbs_business_rules ?ctx"
  define acc1 where "acc1 = trace_violations e ''rp-ubl-bis'' (dcTrace d1) (merged_violation d1 ([], False))"
  define acc2 where "acc2 = trace_violations e ''rp-mbs-business-rules'' (dcTrace d2) (merged_violation d2 acc1)"
  have "reports rp_ubl_bis (set (fired (evFloat e) rp_ubl_bis ?ctx)) ([], False) acc1"
    unfolding acc1_def ids(1) [symmetric]
    by (rule pack_reports [OF packs_well_graded(1) _ _ d1_def]) (simp_all add: foreign_def ids assms(2))
  then obtain n1 where n1: "fst acc1 = n1" "\<forall>x\<in>set n1. vPack x = Ref rp_ubl_bis"
      "set (map (\<lambda>x. (vMessage x, vSeverity x)) n1) = set (ubl_expected iv)" "snd acc1 \<longleftrightarrow> ''fatal'' \<in> snd ` set (ubl_expected iv)"
    by (rule reports_new) (simp add: ubl_fired [OF assms(4)])
  have "\<not> HasPrefix (Ref rp_ubl_bis) ''rp-mbs-business-rules''"
    by (simp add: Ref_def ids HasPrefix_iff)
  then have "foreign (rkID rp_mbs_business_rules) acc1" using n1(1,2) by (auto simp: foreign_def ids)
  then have "reports rp_mbs_business_rules (set (fired (evFloat e) rp_mbs_business_rules ?ctx)) acc1 acc2"
    unfolding acc2_def ids(2) [symmetric]
    by (rule pack_reports [OF packs_well_graded(2) _ _ d2_def]) (simp add: ids assms(3))
  then obtain n2 where n2: "fst acc2 = n1 @ n2"
      "set (map (\<lambda>x. (vMessage x, vSeverity x)) n2) = set (mbs_expected dup iv)" "snd acc2 \<longleftrightarrow> snd acc1 \<or> ''fatal'' \<in> snd ` set (mbs_expected dup iv)"
    by (rule reports_new) (simp add: mbs_fired [OF assms(4)] n1(1))
  have "validate_packs e ?ctx [''rp-ubl-bis'', ''rp-mbs-business-rules''] ([], False) = Inr acc2"
    by (simp add: ev acc1_def acc2_def d1_def d2_def)
  also have "acc2 = (n1 @ n2, ''fatal'' \<in> snd ` set (ubl_expected iv @ mbs_expected dup iv))"
    using n1(4) n2(1,3) by (intro prod_eqI) (auto simp: image_Un)
  finally show ?thesis using that [of "n1 @ n2"] n1(3) n2(2) by (simp add: image_Un)
qed

lemma expected_fatal:
  "''fatal'' \<in> snd ` set (ubl_expected iv @ mbs_expected dup iv) \<longleftrightarrow>
     PayableKobo iv \<le> 0 \<or> tin_len iv \<noteq> Some 13 \<or> dup \<or> \<not> TotalsConsistent iv"
  by (cases "ciCurrency iv = ''NGN''"; cases "PayableKobo iv \<le> 0"; cases "tin_len iv = Some 13"; cases dup; cases "TotalsConsistent iv"; cases "max_rate iv > 0 \<and> max_rate iv \<noteq> 750")
    (auto simp: ubl_expected_def mbs_expected_def)

lemma Validate_result:
  assumes "evEngine (vdEval v) = None" "loadLocal (vdEval v) ''rp-ubl-bis'' '''' = Inr rp_ubl_bis"
    "loadLocal (vdEval v) ''rp-mbs-business-rules'' '''' = Inr rp_mbs_business_rules" "ciLines iv \<noteq> []" "registry_answers v iv"
  shows "\<exists>vs ev fatal. Validate v iv dup = Some ((vs @ ev, fatal), None) \<and>
    set (map (\<lambda>x. (vMessage x, vSeverity x)) vs) = set (ubl_expected iv @ mbs_expected dup iv) \<and>
    map (\<lambda>x. (vMessage x, vSeverity x)) ev = enforced_expected v iv \<and>
    (fatal \<longleftrightarrow> PayableKobo iv \<le> 0 \<or> tin_len iv \<noteq> Some 13 \<or> dup \<or> \<not> TotalsConsistent iv \<or> backdated v iv \<or> dead_tin v iv)"
proof -
  obtain c where c: "RuleContext dup iv = Some c" using context_exists [OF assms(4)] by blast
  obtain vs where vs: "validate_packs (vdEval v) (map (apsnd ctx_value) c) [''rp-ubl-bis'', ''rp-mbs-business-rules''] ([], False) =
      Inr (vs, ''fatal'' \<in> snd ` set (ubl_expected iv @ mbs_expected dup iv))"
    "set (map (\<lambda>x. (vMessage x, vSeverity x)) vs) = set (ubl_expected iv @ mbs_expected dup iv)"
    using packs_reports [OF assms(1-3) c] .
  obtain ev where ev: "enforceMBSRules v iv = ((ev, backdated v iv \<or> dead_tin v iv), None)" "map (\<lambda>x. (vMessage x, vSeverity x)) ev = enforced_expected v iv"
    using enforce_effect [OF assms(3,5)] by blast
  have "Validate v iv dup = Some ((vs @ ev, ''fatal'' \<in> snd ` set (ubl_expected iv @ mbs_expected dup iv) \<or> backdated v iv \<or> dead_tin v iv), None)"
    unfolding Validate_def c option.case vs(1) sum.case prod.case ev(1) by simp
  then show ?thesis using vs(2) ev(2) unfolding expected_fatal by blast
qed

end
