(* ===== verification/Einv_Validate_Properties.thy ===== *)
theory Einv_Validate_Properties
  imports Einv_Validate
begin

text \<open>
  The properties of rule evaluation and of the validation of invoices, each with a witness, and three
  theorems about behaviour that the rule packs or the comments do not intend.
\<close>

section \<open>Evaluation\<close>

text \<open>C18. A decision takes each field from the matching rule of highest precedence, the later one in the file among equals, and from no other rule; the field
  that carries a precedence is never merged; the trace lists every rule in order with whether it matched.\<close>

theorem decision_highest_precedence:
  assumes "maps_ok p"
  shows "(\<forall>k v. k \<noteq> ''precedence'' \<longrightarrow>
      (dcAttrs (Evaluate fl p ctx) k = Some v \<longleftrightarrow>
       (\<exists>j<length (rkRules p). fst (Match fl (rkRules p ! j) ctx) \<and> map_of (ruThen (rkRules p ! j)) k = Some v \<and>
         (\<forall>i<length (rkRules p). fst (Match fl (rkRules p ! i) ctx) \<and> k \<in> fst ` set (ruThen (rkRules p ! i)) \<longrightarrow>
            rule_precedence (rkRules p ! i) < rule_precedence (rkRules p ! j) \<or>
            rule_precedence (rkRules p ! i) = rule_precedence (rkRules p ! j) \<and> i \<le> j)))) \<and>
    dcAttrs (Evaluate fl p ctx) ''precedence'' = None \<and>
    map (\<lambda>t. (teRuleID t, teMatched t)) (dcTrace (Evaluate fl p ctx)) = map (\<lambda>r. (ruID r, fst (Match fl r ctx))) (rkRules p)"
  using Evaluate_field [OF assms] by (simp add: rule_matches_def Evaluate_precedence Evaluate_trace)

definition demo_pack :: RPPack where
  "demo_pack = \<lparr>rkID = ''rp-demo'', rkVersion = ''1.0.0'', rkEffectiveFrom = ''2026-01-01'', rkEffectiveTo = None, rkStatus = ''published'',
     rkSubjectToRegazette = False, rkProvenance = [], rkSigned = [],
     rkRules = [\<lparr>ruID = ''high'', ruPrecedence = Some 5, ruWhen = [(''amount'', RMap [(''gte'', RInt 100), (''lt'', RInt 500)])], ruThen = [(''rate'', RInt 10), (''note'', RStr ''x'')]\<rparr>,
                \<lparr>ruID = ''low'', ruPrecedence = None, ruWhen = [(''amount__gt'', RInt 0)], ruThen = [(''rate'', RInt 5), (''precedence'', RInt 1)]\<rparr>]\<rparr>"

theorem decision_highest_precedence_witness:
  "dcAttrs (Evaluate (\<lambda>_. '''') demo_pack [(''amount'', RInt 200)]) ''rate'' = Some (RInt 10) \<and>
   dcAttrs (Evaluate (\<lambda>_. '''') demo_pack [(''amount'', RInt 200)]) ''precedence'' = None"
proof -
  have ok: "maps_ok demo_pack" by code_simp
  have len: "length (rkRules demo_pack) = 2" by code_simp
  have m: "fst (Match (\<lambda>_. '''') (rkRules demo_pack ! 0) [(''amount'', RInt 200)])" "map_of (ruThen (rkRules demo_pack ! 0)) ''rate'' = Some (RInt 10)"
    "rule_precedence (rkRules demo_pack ! 0) = 5" "rule_precedence (rkRules demo_pack ! 1) = 1"
    by code_simp+
  have "rule_precedence (rkRules demo_pack ! i) < rule_precedence (rkRules demo_pack ! 0) \<or>
      rule_precedence (rkRules demo_pack ! i) = rule_precedence (rkRules demo_pack ! 0) \<and> i \<le> 0" if "i < 2" for i
    using that m(3,4) by (cases i) (auto simp: less_Suc_eq numeral_2_eq_2)
  note best = this
  note d = decision_highest_precedence [OF ok, of "\<lambda>_. ''''" "[(''amount'', RInt 200)]"]
  have "dcAttrs (Evaluate (\<lambda>_. '''') demo_pack [(''amount'', RInt 200)]) ''rate'' = Some (RInt 10)"
  proof (rule iffD2 [OF d [THEN conjunct1, THEN spec, THEN spec, THEN mp]], simp, intro exI [of _ 0] conjI allI impI)
    show "rule_precedence (rkRules demo_pack ! i) < rule_precedence (rkRules demo_pack ! 0) \<or>
        rule_precedence (rkRules demo_pack ! i) = rule_precedence (rkRules demo_pack ! 0) \<and> i \<le> 0" if "i < length (rkRules demo_pack)" for i
      using best that by (simp only: len)
  qed (use m len in simp_all)
  then show ?thesis using d by blast
qed

text \<open>C29. The order in which Go visits a map does not matter: a pack whose condition maps, operator maps and effect maps are visited in another order gives the
  same decision and the same outcome of every rule.\<close>

theorem evaluation_order_irrelevant:
  assumes "maps_ok p" "list_all2 same_rule (rkRules p) (rkRules p')"
  shows "dcAttrs (Evaluate fl p ctx) = dcAttrs (Evaluate fl p' ctx) \<and>
    map teMatched (dcTrace (Evaluate fl p ctx)) = map teMatched (dcTrace (Evaluate fl p' ctx))"
  using Evaluate_reordered [OF assms] by simp

theorem evaluation_order_irrelevant_witness:
  "dcAttrs (Evaluate (\<lambda>_. '''') demo_pack [(''amount'', RInt 200)]) =
   dcAttrs (Evaluate (\<lambda>_. '''') (demo_pack\<lparr>rkRules :=
     [\<lparr>ruID = ''high'', ruPrecedence = Some 5, ruWhen = [(''amount'', RMap [(''lt'', RInt 500), (''gte'', RInt 100)])], ruThen = [(''note'', RStr ''x''), (''rate'', RInt 10)]\<rparr>,
      \<lparr>ruID = ''low'', ruPrecedence = None, ruWhen = [(''amount__gt'', RInt 0)], ruThen = [(''precedence'', RInt 1), (''rate'', RInt 5)]\<rparr>]\<rparr>) [(''amount'', RInt 200)])"
  (is "_ = dcAttrs (Evaluate _ ?q _)")
proof -
  have "maps_ok demo_pack" by code_simp
  moreover have "list_all2 same_rule (rkRules demo_pack) (rkRules ?q)"
    by (auto simp: demo_pack_def same_rule_def reordered_def intro!: exI)
  ultimately show ?thesis using evaluation_order_irrelevant [of demo_pack ?q] by simp
qed

section \<open>Validation\<close>

text \<open>Of a pack in which a severity accompanies every violation, evaluated locally, the validator reports exactly the violations of the rules that match, each
  text once, with the severity of its own rule, after what was found before; and it turns fatal exactly when one of them is.\<close>

theorem pack_violations_exact:
  assumes "well_graded p" "loadLocal e (rkID p) '''' = Inr p" "\<forall>x\<in>set (fst acc). \<not> HasPrefix (vPack x) (rkID p)" "d = Evaluate fl p ctx"
    and "R = {r \<in> set (rkRules p). fst (Match fl r ctx) \<and> rule_msg r \<noteq> ''''}"
    and "acc' = trace_violations e (rkID p) (dcTrace d) (merged_violation d acc)"
  shows "\<exists>new. fst acc' = fst acc @ new \<and> distinct (map vMessage new) \<and>
      (\<lambda>x. (vPack x, vMessage x, vSeverity x)) ` set new = (\<lambda>r. (Ref p, rule_msg r, rule_sev r)) ` R \<and>
      (snd acc' \<longleftrightarrow> snd acc \<or> (\<exists>r\<in>R. rule_sev r = ''fatal''))"
proof -
  have R: "R = set (fired fl p ctx)" by (auto simp: assms(5) fired_mem rule_matches_def)
  have "reports p R acc acc'"
    unfolding R assms(6) by (rule pack_reports [OF assms(1) _ assms(2,4)]) (use assms(3) in \<open>simp add: foreign_def\<close>)
  then obtain new where new: "fst acc' = fst acc @ new" "distinct (map vMessage new)" "\<forall>x\<in>set new. vPack x = Ref p"
      "(\<lambda>x. (vMessage x, vSeverity x)) ` set new = (\<lambda>r. (rule_msg r, rule_sev r)) ` R" "snd acc' \<longleftrightarrow> snd acc \<or> (\<exists>r\<in>R. rule_sev r = ''fatal'')"
    by (auto simp: reports_def)
  have "(\<lambda>x. (vPack x, vMessage x, vSeverity x)) ` set new = Pair (Ref p) ` (\<lambda>x. (vMessage x, vSeverity x)) ` set new"
    using new(3) by (auto simp: image_image)
  then show ?thesis using new by (auto simp: image_image)
qed

definition demo_evaluator :: Evaluator where
  "demo_evaluator = \<lparr>evEngine = None, evDir = None,
     evEmbedded = (\<lambda>i. if i = ''rp-ubl-bis'' then [(''1.0.0.yaml'', ''U'')] else if i = ''rp-mbs-business-rules'' then [(''1.0.0.yaml'', ''M'')] else []),
     evYaml = (\<lambda>t. if t = ''U'' then Some rp_ubl_bis else if t = ''M'' then Some rp_mbs_business_rules else None), evFloat = (\<lambda>_. '''')\<rparr>"

lemma demo_embedded:
  "loadLocal demo_evaluator ''rp-ubl-bis'' '''' = Inr rp_ubl_bis" "loadLocal demo_evaluator ''rp-mbs-business-rules'' '''' = Inr rp_mbs_business_rules"
  "evEngine demo_evaluator = None" "evFloat demo_evaluator = (\<lambda>_. '''')"
  by (simp_all add: demo_evaluator_def loadLocal_def LoadEmbedded_def read_pack_def Parse_def trim_yaml_def HasSuffix_iff suffix_def rp_ubl_bis_def rp_mbs_business_rules_def)

theorem pack_violations_exact_witness:
  "\<exists>new. fst (trace_violations demo_evaluator ''rp-ubl-bis'' (dcTrace (Evaluate (\<lambda>_. '''') rp_ubl_bis [])) (merged_violation (Evaluate (\<lambda>_. '''') rp_ubl_bis []) ([], False))) = new \<and>
     distinct (map vMessage new)"
proof -
  have i: "rkID rp_ubl_bis = ''rp-ubl-bis''" by (simp add: rp_ubl_bis_def)
  have l: "loadLocal demo_evaluator (rkID rp_ubl_bis) '''' = Inr rp_ubl_bis" unfolding i by (rule demo_embedded(1))
  have "\<forall>x\<in>set (fst ([] :: Violation list, False)). \<not> HasPrefix (vPack x) (rkID rp_ubl_bis)" by simp
  from pack_violations_exact [OF packs_well_graded(1) l this refl refl refl, of "\<lambda>_. ''''" "[]"] show ?thesis
    unfolding i fst_conv append_Nil by blast
qed



definition demo_validator :: Validator where
  "demo_validator = \<lparr>vdEval = demo_evaluator, vdToday = 20500, vdDay = (\<lambda>d. if d = ''2026-02-10'' then Some 20494 else None),
     vdTin = Some (\<lambda>_. Some (200, Some ''active'')), vdQuote = (\<lambda>s. s)\<rparr>"

definition demo_line :: InvoiceLine where
  "demo_line = \<lparr>ilID = ''1'', ilDescription = ''rice'', QuantityMilli = 1000, UnitPriceKobo = 10000, LineTotalKobo = 10000, VatCategory = ''S'',
     ilVatRateBps = 750, VatAmountKobo = 750, ilCitations = []\<rparr>"

text \<open>An invoice without number, buyer name and supplier name.\<close>

definition demo_bare :: CanonicalInvoice where
  "demo_bare = \<lparr>ciID = ''a'', ciTenantID = ''t1'', InvoiceNumber = '''', InvoiceType = ''B2B'', IssueDate = ''2026-02-10'', DueDate = '''',
     ciCurrency = ''NGN'', Supplier = \<lparr>ptTIN = ''1234567890123'', ptName = '''', ptAddress = '''', ptCity = '''', ptState = '''', ptCountry = ''NG'', ptEmail = ''''\<rparr>,
     Customer = \<lparr>ptTIN = '''', ptName = '''', ptAddress = '''', ptCity = '''', ptState = '''', ptCountry = ''NG'', ptEmail = ''''\<rparr>,
     ciLines = [demo_line], TaxExclusiveKobo = 10000, TaxKobo = 750, PayableKobo = 10750, ciStatus = '''', IRN = '''', ciStamp = None,
     CSIDSignature = '''', CSIDKeyID = '''', ciIdempotencyKey = '''', SourceAdapter = '''', BusinessID = '''', ServiceID = '''', InvoiceTypeCode = '''',
     PaymentStatus = '''', PaymentReference = '''', SignedCoreHash = '''', NRSPayload = '''', Audit = [], UBLXML = '''', Validation = [],
     CreatedAt = None, UpdatedAt = None\<rparr>"

lemma demo_bare_facts:
  "registry_answers demo_validator demo_bare" "\<not> backdated demo_validator demo_bare" "\<not> dead_tin demo_validator demo_bare"
  "ciLines demo_bare \<noteq> []" "TotalsConsistent demo_bare" "tin_len demo_bare = Some 13"
  "ubl_expected demo_bare = []" "mbs_expected False demo_bare = []"
proof -
  show "registry_answers demo_validator demo_bare" "\<not> backdated demo_validator demo_bare" "\<not> dead_tin demo_validator demo_bare" "ciLines demo_bare \<noteq> []"
    by (simp_all add: registry_answers_def backdated_def dead_tin_def demo_validator_def demo_bare_def httpTINStatus_def age_days_def)
  show tot: "TotalsConsistent demo_bare" by (simp add: TotalsConsistent_def demo_bare_def demo_line_def sum64_eq add64_def wrap64_def)
  show tin: "tin_len demo_bare = Some 13" by (simp add: tin_len_def demo_bare_def TrimSpace_printable printable_def)
  show "ubl_expected demo_bare = []" by (simp add: ubl_expected_def demo_bare_def)
  show "mbs_expected False demo_bare = []" unfolding mbs_expected_def tin using tot by (simp add: max_rate_def demo_bare_def demo_line_def)
qed




section \<open>Unintended behaviour\<close>

text \<open>The rules of the packs for a missing number, date or name never fire, since the context has an entry for each of them even when it is empty: an invoice
  without number and names passes.\<close>

theorem missing_fields_pass:
  "InvoiceNumber demo_bare = '''' \<and> ptName (Supplier demo_bare) = '''' \<and> ptName (Customer demo_bare) = '''' \<and>
   Validate demo_validator demo_bare False = Some (([], False), None)"
proof -
  have ev: "vdEval demo_validator = demo_evaluator" by (simp add: demo_validator_def)
  have pay: "\<not> PayableKobo demo_bare \<le> 0" by (simp add: demo_bare_def)
  obtain vs w fatal where "Validate demo_validator demo_bare False = Some ((vs @ w, fatal), None)"
      "set (map (\<lambda>x. (vMessage x, vSeverity x)) vs) = set (ubl_expected demo_bare @ mbs_expected False demo_bare)"
      "map (\<lambda>x. (vMessage x, vSeverity x)) w = enforced_expected demo_validator demo_bare" "\<not> fatal"
    using Validate_result [of demo_validator demo_bare False, unfolded ev, OF demo_embedded(3,1,2) demo_bare_facts(4,1)] demo_bare_facts pay by blast
  then show ?thesis using demo_bare_facts by (simp add: enforced_expected_def) (simp add: demo_bare_def)
qed

text \<open>A violation without severity counts as fatal, but when another matching rule sets a severity the merged violation takes that one, and the pass over the
  trace drops the rule as already seen: the fatal violation becomes a warning.\<close>

definition graded_badly :: RPPack where
  "graded_badly = \<lparr>rkID = ''rp-x'', rkVersion = ''1'', rkEffectiveFrom = '''', rkEffectiveTo = None, rkStatus = '''', rkSubjectToRegazette = False,
     rkProvenance = [], rkSigned = [],
     rkRules = [\<lparr>ruID = ''a'', ruPrecedence = None, ruWhen = [], ruThen = [(''violation'', RStr ''no TIN'')]\<rparr>,
                \<lparr>ruID = ''b'', ruPrecedence = None, ruWhen = [], ruThen = [(''severity'', RStr ''warning'')]\<rparr>]\<rparr>"

theorem severity_of_another_rule:
  "rule_sev (rkRules graded_badly ! 0) = ''fatal'' \<and>
   validate_packs \<lparr>evEngine = None, evDir = None, evEmbedded = (\<lambda>_. [(''1.yaml'', '''')]), evYaml = (\<lambda>_. Some graded_badly), evFloat = (\<lambda>_. '''')\<rparr> []
     [''rp-x''] ([], False) = Inr ([\<lparr>vPack = ''rp-x@1'', vMessage = ''no TIN'', vSeverity = ''warning''\<rparr>], False)"
  by code_simp

text \<open>The latest version of a pack is the last one in the order of texts: 1.9.0 comes after 1.10.0.\<close>

theorem latest_version_textual:
  "Load (\<lambda>t. Some (graded_badly\<lparr>rkVersion := t\<rparr>)) (\<lambda>_. [(''1.9.0.yaml'', ''1.9.0''), (''1.10.0.yaml'', ''1.10.0'')]) ''rp-x'' '''' =
     Inr (graded_badly\<lparr>rkVersion := ''1.9.0''\<rparr>)"
  by code_simp

end
