(* ===== verification/Envelope.thy ===== *)
theory Envelope
  imports Go_Prelude
begin

text \<open>
  The event envelope (\<^verbatim>\<open>packages/shared/envelope/envelope.go\<close>): identifiers, the in-process bus, the durable
  outbox over a file of JSON lines, and the relay that forwards it to a bus.

  The file is its text; \<open>enc\<close> and \<open>dec\<close> are the JSON codec of a row (\<open>dec\<close> gives \<open>None\<close> on an error). What a
  write to the file does is a value of \<open>disk\<close>: it may fail before anything is written, after a part of
  the line, or in the final sync. The answer of the bus to each row is an argument too, for any bus
  that satisfies the locale \<open>event_bus\<close>. Entropy and clock readings are arguments.
\<close>

section \<open>Identifiers\<close>

record EventEnvelope =
  enID :: string
  enType :: string
  enSource :: string
  enTime :: string
  enTenantID :: string
  enTraceID :: string
  enRulePackVersion :: string
  enData :: string

definition crockford :: string where
  "crockford = ''0123456789ABCDEFGHJKMNPQRSTVWXYZ''"

text \<open>The last \<open>n\<close> digits of five bits of \<open>x\<close>, most significant first.\<close>

fun base32 :: "nat \<Rightarrow> nat \<Rightarrow> string" where
  "base32 0 x = []"
| "base32 (Suc n) x = base32 n (x div 32) @ [crockford ! (x mod 32)]"

definition big_endian :: "nat list \<Rightarrow> nat" where
  "big_endian bs = foldl (\<lambda>x c. x * 256 + c) 0 bs"

text \<open>\<open>prev\<close> is the latest time given out; \<open>rnd\<close> the ten bytes of entropy.\<close>

definition ULID :: "nat \<Rightarrow> nat list \<Rightarrow> nat \<Rightarrow> nat \<times> string" where
  "ULID now0 rnd prev =
     (let now = (if now0 < prev then prev else now0);
          rv = big_endian (take 2 rnd)
      in (now,
          base32 10 now @
          [crockford ! (rv div 2048 mod 32), crockford ! (rv div 64 mod 32), crockford ! (rv div 2 mod 32),
           crockford ! (rv mod 2 * 16 + rnd ! 2 div 16)] @
          base32 12 (big_endian (take 8 (drop 2 rnd)))))"

definition hex_digit :: "nat \<Rightarrow> char" where
  "hex_digit n = ''0123456789abcdef'' ! n"

definition newTraceID :: "nat list \<Rightarrow> string" where
  "newTraceID bs = concat (map (\<lambda>b. [hex_digit (b div 16), hex_digit (b mod 16)]) bs)"

text \<open>\<open>raw\<close>: the encoded data, \<open>None\<close> when it does not encode.\<close>

definition NewEnvelope :: "string option \<Rightarrow> nat \<times> nat list \<times> nat list \<times> string \<Rightarrow> string \<Rightarrow> string \<Rightarrow> string \<Rightarrow> string \<Rightarrow> nat \<Rightarrow> nat \<times> EventEnvelope option" where
  "NewEnvelope raw env typ source tenant version prev =
     (case raw of
        None \<Rightarrow> (prev, None)
      | Some d \<Rightarrow>
          (case env of
             (now, rnd, trace, time) \<Rightarrow>
               (case ULID now rnd prev of
                  (prev', i) \<Rightarrow>
                    (prev', Some \<lparr>enID = i, enType = typ, enSource = source, enTime = time, enTenantID = tenant, enTraceID = newTraceID trace,
                                   enRulePackVersion = version, enData = d\<rparr>))))"

section \<open>Buses\<close>

type_synonym InprocEventBus = "string \<Rightarrow> EventEnvelope list"

definition NewInprocEventBus :: InprocEventBus where
  "NewInprocEventBus = (\<lambda>_. [])"

definition bus_publish :: "string \<Rightarrow> EventEnvelope \<Rightarrow> InprocEventBus \<Rightarrow> InprocEventBus \<times> bool" where
  "bus_publish topic env b = (b(topic := b topic @ [env]), True)"

definition bus_messages :: "InprocEventBus \<Rightarrow> string \<Rightarrow> EventEnvelope list" where
  "bus_messages b topic = b topic"

section \<open>The outbox\<close>

record OutboxRow =
  obSeq :: int64
  obTopic :: string
  obEnvelope :: EventEnvelope
  obStatus :: string
  obAttempts :: int64
  obCreatedAt :: int

record row_codec =
  enc :: "OutboxRow \<Rightarrow> string"
  dec :: "string \<Rightarrow> OutboxRow option"

record EventOutbox =
  oxFile :: "string option" \<comment> \<open>\<open>None\<close>: no file\<close>
  oxSeq :: int64

datatype disk = DOk | DOpen | DPartial nat | DSync

definition file_text :: "EventOutbox \<Rightarrow> string" where
  "file_text o1 = (case oxFile o1 of None \<Rightarrow> '''' | Some t \<Rightarrow> t)"

fun appendLocked :: "row_codec \<Rightarrow> disk \<Rightarrow> OutboxRow \<Rightarrow> EventOutbox \<Rightarrow> EventOutbox \<times> bool" where
  "appendLocked cd DOk row o1 = (o1\<lparr>oxFile := Some (file_text o1 @ enc cd row @ [CHR 0x0A])\<rparr>, True)"
| "appendLocked cd DSync row o1 = (o1\<lparr>oxFile := Some (file_text o1 @ enc cd row @ [CHR 0x0A])\<rparr>, False)"
| "appendLocked cd DOpen row o1 = (o1, False)"
| "appendLocked cd (DPartial n) row o1 = (o1\<lparr>oxFile := Some (file_text o1 @ take n (enc cd row @ [CHR 0x0A]))\<rparr>, False)"

text \<open>Rows by sequence number, the last one written wins, in the order of first appearance.\<close>

fun fold_row :: "OutboxRow \<Rightarrow> OutboxRow list \<Rightarrow> OutboxRow list" where
  "fold_row r [] = [r]"
| "fold_row r (q # qs) = (if obSeq q = obSeq r then r # qs else q # fold_row r qs)"

fun read_lines :: "row_codec \<Rightarrow> string list \<Rightarrow> OutboxRow list \<Rightarrow> OutboxRow list option" where
  "read_lines cd [] acc = Some acc"
| "read_lines cd (line # ls) acc =
     (if line = [] then read_lines cd ls acc
      else (case dec cd line of None \<Rightarrow> None | Some r \<Rightarrow> read_lines cd ls (fold_row r acc)))"

text \<open>Only lines that end are read: what follows the last line end is left out.\<close>

definition Rows :: "row_codec \<Rightarrow> EventOutbox \<Rightarrow> OutboxRow list option" where
  "Rows cd o1 = read_lines cd (butlast (split_on (CHR 0x0A) (file_text o1))) []"

definition NewOutbox :: "row_codec \<Rightarrow> string option \<Rightarrow> EventOutbox" where
  "NewOutbox cd file =
     (let o1 = \<lparr>oxFile = file, oxSeq = 0\<rparr>
      in case Rows cd o1 of
           None \<Rightarrow> o1
         | Some rows \<Rightarrow> o1\<lparr>oxSeq := fold (\<lambda>r m. if obSeq r > m then obSeq r else m) rows 0\<rparr>)"

definition outbox_publish :: "row_codec \<Rightarrow> disk \<Rightarrow> int \<Rightarrow> string \<Rightarrow> EventEnvelope \<Rightarrow> EventOutbox \<Rightarrow> EventOutbox \<times> bool" where
  "outbox_publish cd dk now topic env o0 =
     (let o1 = o0\<lparr>oxSeq := add64 (oxSeq o0) 1\<rparr>
      in appendLocked cd dk \<lparr>obSeq = oxSeq o1, obTopic = topic, obEnvelope = env, obStatus = ''pending'', obAttempts = 0, obCreatedAt = now\<rparr> o1)"

definition Mark :: "row_codec \<Rightarrow> disk \<Rightarrow> int64 \<Rightarrow> string \<Rightarrow> int64 \<Rightarrow> EventOutbox \<Rightarrow> EventOutbox \<times> bool" where
  "Mark cd dk seq status attempts o1 =
     (case Rows cd o1 of
        None \<Rightarrow> (o1, False)
      | Some rows \<Rightarrow>
          (case find (\<lambda>r. obSeq r = seq) rows of
             None \<Rightarrow> (o1, False)
           | Some r \<Rightarrow> appendLocked cd dk (r\<lparr>obStatus := status, obAttempts := attempts\<rparr>) o1))"

text \<open>The loop of \<^verbatim>\<open>Drain\<close>; \<open>dk\<close> is the disk at the mark of the \<open>i\<close>-th row.\<close>

fun drain_rows :: "row_codec \<Rightarrow> (string \<Rightarrow> EventEnvelope \<Rightarrow> 'b \<Rightarrow> 'b \<times> bool) \<Rightarrow> (nat \<Rightarrow> disk) \<Rightarrow> nat \<Rightarrow> OutboxRow list \<Rightarrow> EventOutbox \<times> 'b \<times> nat \<Rightarrow> EventOutbox \<times> 'b \<times> nat" where
  "drain_rows cd pub dk i [] st = st"
| "drain_rows cd pub dk i (r # rs) (o1, b, n) =
     (if obStatus r \<noteq> ''pending'' \<and> obStatus r \<noteq> ''failed'' then drain_rows cd pub dk (Suc i) rs (o1, b, n)
      else (case pub (obTopic r) (obEnvelope r) b of
              (b1, False) \<Rightarrow> drain_rows cd pub dk (Suc i) rs (fst (Mark cd (dk i) (obSeq r) ''failed'' (add64 (obAttempts r) 1) o1), b1, n)
            | (b1, True) \<Rightarrow> drain_rows cd pub dk (Suc i) rs (fst (Mark cd (dk i) (obSeq r) ''published'' (add64 (obAttempts r) 1) o1), b1, Suc n)))"

definition Drain :: "row_codec \<Rightarrow> (string \<Rightarrow> EventEnvelope \<Rightarrow> 'b \<Rightarrow> 'b \<times> bool) \<Rightarrow> (nat \<Rightarrow> disk) \<Rightarrow> EventOutbox \<Rightarrow> 'b \<Rightarrow> (EventOutbox \<times> 'b) \<times> nat option" where
  "Drain cd pub dk o1 b =
     (case Rows cd o1 of
        None \<Rightarrow> ((o1, b), None)
      | Some rows \<Rightarrow> (case drain_rows cd pub dk 0 rows (o1, b, 0) of (o2, b2, n) \<Rightarrow> ((o2, b2), Some n)))"

section \<open>The log of rows\<close>

text \<open>What is relied on of the JSON codec: a row is read back as it was written, on one line. Texts stand for valid UTF-8 and the data for compact JSON, which is
  what \<^verbatim>\<open>New\<close> puts there.\<close>

definition codec_ok :: "row_codec \<Rightarrow> bool" where
  "codec_ok cd \<longleftrightarrow> (\<forall>r. dec cd (enc cd r) = Some r \<and> CHR 0x0A \<notin> set (enc cd r) \<and> enc cd r \<noteq> [])"

definition log_text :: "row_codec \<Rightarrow> OutboxRow list \<Rightarrow> string" where
  "log_text cd rs = concat (map (\<lambda>r. enc cd r @ [CHR 0x0A]) rs)"

definition view :: "OutboxRow list \<Rightarrow> OutboxRow list" where
  "view rs = fold fold_row rs []"

lemma view_snoc [simp]: "view (rs @ [r]) = fold_row r (view rs)"
  by (simp add: view_def)

lemma log_lines: "codec_ok cd \<Longrightarrow> split_on (CHR 0x0A) (log_text cd rs) = map (enc cd) rs @ [[]]"
  by (induction rs) (simp_all add: log_text_def codec_ok_def split_on_app)

lemma read_lines_log: "codec_ok cd \<Longrightarrow> read_lines cd (map (enc cd) rs) acc = Some (fold fold_row rs acc)"
  by (induction rs arbitrary: acc) (simp_all add: codec_ok_def)

definition logs :: "row_codec \<Rightarrow> OutboxRow list \<Rightarrow> EventOutbox \<Rightarrow> bool" where
  "logs cd rs o1 \<longleftrightarrow> file_text o1 = log_text cd rs"

lemma Rows_log: "codec_ok cd \<Longrightarrow> logs cd rs o1 \<Longrightarrow> Rows cd o1 = Some (view rs)"
  by (simp add: Rows_def logs_def log_lines butlast_append read_lines_log view_def)

definition whole :: "disk \<Rightarrow> bool" where
  "whole dk = (case dk of DPartial _ \<Rightarrow> False | _ \<Rightarrow> True)"

text \<open>A write that is not torn adds the row to the log or leaves the log as it is; a successful one adds it.\<close>

lemma append_log:
  assumes "whole dk" "logs cd rs o1" "appendLocked cd dk row o1 = (o2, ok)"
  shows "oxSeq o2 = oxSeq o1 \<and> (logs cd (rs @ [row]) o2 \<or> \<not> ok \<and> logs cd rs o2)" "dk = DOk \<Longrightarrow> ok" "ok \<Longrightarrow> logs cd (rs @ [row]) o2"
  using assms by (cases dk; force simp: whole_def logs_def log_text_def file_text_def)+

lemma fold_row_set: "distinct (map obSeq qs) \<Longrightarrow> set (fold_row r qs) = insert r {q \<in> set qs. obSeq q \<noteq> obSeq r}"
  by (induction qs) (auto, metis imageI)

lemma fold_row_seqs: "set (map obSeq (fold_row r qs)) = insert (obSeq r) (set (map obSeq qs))"
  by (induction qs) auto

lemma distinct_fold_row: "distinct (map obSeq qs) \<Longrightarrow> distinct (map obSeq (fold_row r qs))"
proof (induction qs)
  case (Cons q qs)
  then show ?case using fold_row_seqs [of r qs] by auto
qed simp

lemma distinct_view: "distinct (map obSeq (view rs))"
  by (induction rs rule: rev_induct) (simp_all add: distinct_fold_row, simp add: view_def)

lemma view_seqs: "set (map obSeq (view rs)) = obSeq ` set rs"
proof (induction rs rule: rev_induct)
  case (snoc r rs)
  then show ?case using fold_row_seqs [of r "view rs"] by simp
qed (simp add: view_def)

lemma find_seq: "distinct (map obSeq qs) \<Longrightarrow> q \<in> set qs \<Longrightarrow> find (\<lambda>r. obSeq r = obSeq q) qs = Some q"
proof (induction qs)
  case (Cons r qs)
  then show ?case by (cases "obSeq r = obSeq q") (auto simp: image_iff)
qed simp

text \<open>Marking a row replaces it in the view by one with another status.\<close>

lemma Mark_log:
  assumes "codec_ok cd" "whole dk" "logs cd rs o1" "q \<in> set (view rs)" "Mark cd dk (obSeq q) status att o1 = (o2, ok)"
  shows "oxSeq o2 = oxSeq o1 \<and> (logs cd (rs @ [q\<lparr>obStatus := status, obAttempts := att\<rparr>]) o2 \<or> \<not> ok \<and> logs cd rs o2)" "dk = DOk \<Longrightarrow> ok"
  using append_log [OF assms(2,3), of "q\<lparr>obStatus := status, obAttempts := att\<rparr>"] assms(5)
  by (simp_all add: Mark_def Rows_log [OF assms(1,3)] find_seq [OF distinct_view assms(4)])

section \<open>Delivery\<close>

text \<open>What the relay asks of a bus: an event that is accepted is the next one of its topic, one that is refused is not there.\<close>

locale event_bus =
  fixes publish :: "string \<Rightarrow> EventEnvelope \<Rightarrow> 'b \<Rightarrow> 'b \<times> bool"
    and delivered :: "'b \<Rightarrow> string \<Rightarrow> EventEnvelope list"
  assumes accepted: "publish t e b = (b1, True) \<Longrightarrow> delivered b1 = (delivered b)(t := delivered b t @ [e])"
    and refused: "publish t e b = (b1, False) \<Longrightarrow> delivered b1 = delivered b"
begin

lemma delivered_mono: "publish t e b = (b1, ok) \<Longrightarrow> set (delivered b u) \<subseteq> set (delivered b1 u)"
  using accepted refused by (cases ok) auto

text \<open>Every row that is not waiting has been delivered.\<close>

definition settled :: "OutboxRow list \<Rightarrow> 'b \<Rightarrow> bool" where
  "settled rows b \<longleftrightarrow> (\<forall>r\<in>set rows. obStatus r \<in> {''pending'', ''failed''} \<or> obEnvelope r \<in> set (delivered b (obTopic r)))"

text \<open>The rows \<open>rs'\<close> of a log extend \<open>rs\<close> by marks only.\<close>

definition marked :: "OutboxRow list \<Rightarrow> OutboxRow list \<Rightarrow> bool" where
  "marked rs rs' \<longleftrightarrow> obSeq ` set rs' = obSeq ` set rs \<and>
     (\<forall>q\<in>set (view rs). \<exists>q'\<in>set (view rs'). obSeq q' = obSeq q \<and> obTopic q' = obTopic q \<and> obEnvelope q' = obEnvelope q)"

lemma marked_trans: "marked rs rs' \<Longrightarrow> marked rs' rs'' \<Longrightarrow> marked rs rs''"
  unfolding marked_def by metis

lemma marked_refl: "marked rs rs"
  by (auto simp: marked_def)

lemma marked_snoc:
  assumes "q \<in> set (view rs)"
  shows "marked rs (rs @ [q\<lparr>obStatus := st, obAttempts := a\<rparr>])"
proof -
  let ?r = "q\<lparr>obStatus := st, obAttempts := a\<rparr>"
  have set: "set (view (rs @ [?r])) = insert ?r {p \<in> set (view rs). obSeq p \<noteq> obSeq q}"
    using fold_row_set [OF distinct_view, of ?r rs] by simp
  have "p = q" if "p \<in> set (view rs)" "obSeq p = obSeq q" for p
    using distinct_view [of rs] that assms by (simp add: distinct_map inj_on_def)
  then have "\<exists>q'\<in>set (view (rs @ [?r])). obSeq q' = obSeq p \<and> obTopic q' = obTopic p \<and> obEnvelope q' = obEnvelope p" if "p \<in> set (view rs)" for p
    unfolding set using that by (cases "obSeq p = obSeq q") auto
  moreover have "obSeq q \<in> obSeq ` set rs" using view_seqs [of rs] assms by auto
  ultimately show ?thesis unfolding marked_def by (auto simp: insert_absorb)
qed

lemma settled_snoc:
  assumes "settled (view rs) b" "st \<in> {''pending'', ''failed''} \<or> obEnvelope q \<in> set (delivered b (obTopic q))"
  shows "settled (view (rs @ [q\<lparr>obStatus := st, obAttempts := a\<rparr>])) b"
  using assms fold_row_set [OF distinct_view, of "q\<lparr>obStatus := st, obAttempts := a\<rparr>" rs] by (auto simp: settled_def)

lemma settled_mono: "settled rows b \<Longrightarrow> (\<And>t. set (delivered b t) \<subseteq> set (delivered b1 t)) \<Longrightarrow> settled rows b1"
  unfolding settled_def by blast

text \<open>One round of the relay.\<close>

lemma relay_round:
  assumes "codec_ok cd" "whole dk" "logs cd rs o1" "settled (view rs) b" "q \<in> set (view rs)" "publish (obTopic q) (obEnvelope q) b = (b1, ok)"
    and "Mark cd dk (obSeq q) (if ok then ''published'' else ''failed'') att o1 = (o2, mok)"
  shows "\<exists>rs2. logs cd rs2 o2 \<and> oxSeq o2 = oxSeq o1 \<and> marked rs rs2 \<and> settled (view rs2) b1 \<and>
    (dk = DOk \<longrightarrow> rs2 = rs @ [q\<lparr>obStatus := if ok then ''published'' else ''failed'', obAttempts := att\<rparr>])"
proof -
  have s1: "settled (view rs) b1" using settled_mono [OF assms(4)] delivered_mono [OF assms(6)] by blast
  have "ok \<Longrightarrow> obEnvelope q \<in> set (delivered b1 (obTopic q))" using accepted [of "obTopic q" "obEnvelope q" b b1] assms(6) by simp
  then have s2: "settled (view (rs @ [q\<lparr>obStatus := if ok then ''published'' else ''failed'', obAttempts := att\<rparr>])) b1"
    by (intro settled_snoc s1) simp
  from Mark_log [OF assms(1-3,5,7)] show ?thesis using s1 s2 marked_snoc [OF assms(5)] marked_refl by blast
qed

lemma drain_rows_sound:
  assumes "codec_ok cd" "\<forall>i. whole (dk i)"
    and "logs cd rs o1" "settled (view rs) b" "\<forall>r\<in>set todo. \<exists>q\<in>set (view rs). obSeq q = obSeq r \<and> obTopic q = obTopic r \<and> obEnvelope q = obEnvelope r"
    and "drain_rows cd publish dk i todo (o1, b, n) = (o2, b2, n2)"
  shows "\<exists>rs2. logs cd rs2 o2 \<and> oxSeq o2 = oxSeq o1 \<and> marked rs rs2 \<and> settled (view rs2) b2 \<and> (\<forall>t. set (delivered b t) \<subseteq> set (delivered b2 t)) \<and>
    ((\<forall>t e b. snd (publish t e b)) \<longrightarrow> (\<forall>r\<in>set todo. obStatus r \<in> {''pending'', ''failed''} \<longrightarrow> obEnvelope r \<in> set (delivered b2 (obTopic r))))"
  using assms(3-6)
proof (induction todo arbitrary: i rs o1 b n)
  case Nil
  then show ?case using marked_refl by auto
next
  case (Cons r todo)
  show ?case
  proof (cases "obStatus r \<in> {''pending'', ''failed''}")
    case False
    then have "drain_rows cd publish dk (Suc i) todo (o1, b, n) = (o2, b2, n2)" using Cons.prems(4) by simp
    from Cons.IH [OF Cons.prems(1,2) _ this] Cons.prems(3) False show ?thesis by auto
  next
    case True
    obtain q where q: "q \<in> set (view rs)" "obSeq q = obSeq r" "obTopic q = obTopic r" "obEnvelope q = obEnvelope r" using Cons.prems(3) by auto
    obtain b1 ok where pub: "publish (obTopic q) (obEnvelope q) b = (b1, ok)" by fastforce
    obtain o3 mok where mk: "Mark cd (dk i) (obSeq q) (if ok then ''published'' else ''failed'') (add64 (obAttempts r) 1) o1 = (o3, mok)" by fastforce
    have rest: "drain_rows cd publish dk (Suc i) todo (o3, b1, if ok then Suc n else n) = (o2, b2, n2)"
      using Cons.prems(4) True pub mk q by (cases ok) auto
    obtain rs3 where rs3: "logs cd rs3 o3" "oxSeq o3 = oxSeq o1" "marked rs rs3" "settled (view rs3) b1"
      using relay_round [OF assms(1) _ Cons.prems(1,2) q(1) pub mk] assms(2) by blast
    have todo: "\<forall>r\<in>set todo. \<exists>q\<in>set (view rs3). obSeq q = obSeq r \<and> obTopic q = obTopic r \<and> obEnvelope q = obEnvelope r"
      using Cons.prems(3) rs3(3) unfolding marked_def by (metis list.set_intros(2))
    from Cons.IH [OF rs3(1,4) todo rest] obtain rs2 where rs2: "logs cd rs2 o2" "oxSeq o2 = oxSeq o3" "marked rs3 rs2" "settled (view rs2) b2"
        "\<forall>t. set (delivered b1 t) \<subseteq> set (delivered b2 t)"
        "(\<forall>t e b. snd (publish t e b)) \<longrightarrow> (\<forall>r\<in>set todo. obStatus r \<in> {''pending'', ''failed''} \<longrightarrow> obEnvelope r \<in> set (delivered b2 (obTopic r)))"
      by blast
    have "obEnvelope r \<in> set (delivered b2 (obTopic r))" if "\<forall>t e b. snd (publish t e b)"
    proof -
      have "ok" using that pub by (metis snd_conv)
      then have "obEnvelope r \<in> set (delivered b1 (obTopic r))" using accepted [of "obTopic q" "obEnvelope q" b b1] pub q(3,4) by simp
      then show ?thesis using rs2(5) by blast
    qed
    moreover have "set (delivered b t) \<subseteq> set (delivered b2 t)" for t using delivered_mono [OF pub] rs2(5) by blast
    ultimately show ?thesis using rs2 rs3(2) marked_trans [OF rs3(3) rs2(3)] by auto
  qed
qed

end

interpretation inproc_bus: event_bus bus_publish bus_messages
  by unfold_locales (auto simp: bus_publish_def bus_messages_def)

section \<open>Histories\<close>

text \<open>Publications, runs of the relay over its bus, and restarts; the run keeps the events whose publication was accepted.\<close>

datatype obox_op = OPublish disk int string EventEnvelope | ODrain "nat \<Rightarrow> disk" | ORestart

fun obox_exec :: "row_codec \<Rightarrow> (string \<Rightarrow> EventEnvelope \<Rightarrow> 'b \<Rightarrow> 'b \<times> bool) \<Rightarrow> obox_op \<Rightarrow> EventOutbox \<times> 'b \<times> (string \<times> EventEnvelope) list \<Rightarrow>
    EventOutbox \<times> 'b \<times> (string \<times> EventEnvelope) list" where
  "obox_exec cd pub (OPublish dk now t e) (o1, b, acc) =
     (case outbox_publish cd dk now t e o1 of (o2, ok) \<Rightarrow> (o2, b, if ok then acc @ [(t, e)] else acc))"
| "obox_exec cd pub (ODrain dk) (o1, b, acc) = (case Drain cd pub dk o1 b of ((o2, b2), _) \<Rightarrow> (o2, b2, acc))"
| "obox_exec cd pub ORestart (o1, b, acc) = (NewOutbox cd (oxFile o1), b, acc)"

definition obox_run where
  "obox_run cd pub ops st = fold (obox_exec cd pub) ops st"

fun untorn :: "obox_op \<Rightarrow> bool" where
  "untorn (OPublish dk _ _ _) = whole dk"
| "untorn (ODrain dk) \<longleftrightarrow> (\<forall>i. whole (dk i))"
| "untorn ORestart = True"

text \<open>The invariant: \<open>n\<close> bounds the sequence numbers given out.\<close>

definition obox_inv :: "row_codec \<Rightarrow> ('b \<Rightarrow> string \<Rightarrow> EventEnvelope list) \<Rightarrow> int \<Rightarrow> EventOutbox \<times> 'b \<times> (string \<times> EventEnvelope) list \<Rightarrow> bool" where
  "obox_inv cd dlv n st \<longleftrightarrow>
     (case st of (o1, b, acc) \<Rightarrow>
        \<exists>rs. logs cd rs o1 \<and> 0 \<le> oxSeq o1 \<and> oxSeq o1 \<le> n \<and> (\<forall>r\<in>set rs. obSeq r \<le> oxSeq o1 \<and> 0 < obSeq r) \<and>
          (\<forall>(t, e)\<in>set acc. \<exists>r\<in>set (view rs). obTopic r = t \<and> obEnvelope r = e) \<and>
          (\<forall>r\<in>set (view rs). obStatus r \<in> {''pending'', ''failed''} \<or> obEnvelope r \<in> set (dlv b (obTopic r))))"

lemma logs_seq [simp]: "logs cd rs (o1\<lparr>oxSeq := k\<rparr>) = logs cd rs o1"
  by (simp add: logs_def file_text_def)

lemma max_seq:
  assumes "m = fold (\<lambda>r m. if obSeq r > m then obSeq r else m) rows k"
  shows "k \<le> m \<and> (\<forall>r\<in>set rows. obSeq r \<le> m) \<and> (m = k \<or> m \<in> obSeq ` set rows)"
  using assms
proof (induction rows arbitrary: k)
  case (Cons r rows)
  from Cons.IH [of "if obSeq r > k then obSeq r else k"] Cons.prems show ?case by (auto split: if_splits)
qed simp

lemma restart_inv: "codec_ok cd \<Longrightarrow> obox_inv cd dlv n (o1, b, acc) \<Longrightarrow> obox_inv cd dlv n (NewOutbox cd (oxFile o1), b, acc)"
proof -
  assume cd: "codec_ok cd" and inv: "obox_inv cd dlv n (o1, b, acc)"
  then obtain rs where rs: "logs cd rs o1" "0 \<le> oxSeq o1" "oxSeq o1 \<le> n" "\<forall>r\<in>set rs. obSeq r \<le> oxSeq o1 \<and> 0 < obSeq r"
      "\<forall>(t, e)\<in>set acc. \<exists>r\<in>set (view rs). obTopic r = t \<and> obEnvelope r = e"
      "\<forall>r\<in>set (view rs). obStatus r \<in> {''pending'', ''failed''} \<or> obEnvelope r \<in> set (dlv b (obTopic r))"
    by (auto simp: obox_inv_def)
  have l: "logs cd rs \<lparr>oxFile = oxFile o1, oxSeq = 0\<rparr>" using rs(1) by (simp add: logs_def file_text_def)
  define m where "m = fold (\<lambda>r m. if obSeq r > m then obSeq r else m) (view rs) 0"
  have new: "NewOutbox cd (oxFile o1) = \<lparr>oxFile = oxFile o1, oxSeq = m\<rparr>" by (simp add: NewOutbox_def Rows_log [OF cd l] m_def)
  note mx = max_seq [OF m_def]
  have seqs: "obSeq ` set (view rs) = obSeq ` set rs" using view_seqs [of rs] by simp
  have "\<forall>r\<in>set rs. obSeq r \<le> m" using mx seqs by (metis imageE imageI)
  moreover have "m \<le> n"
  proof -
    have "m = 0 \<or> m \<in> obSeq ` set rs" using mx seqs by simp
    then show ?thesis using rs(2-4) by (metis dual_order.trans imageE)
  qed
  moreover have "logs cd rs (NewOutbox cd (oxFile o1))" using rs(1) by (simp add: new logs_def file_text_def)
  ultimately show ?thesis using rs(4-6) mx new by (simp add: obox_inv_def) blast
qed

lemma publish_inv:
  assumes "codec_ok cd" "whole dk" "n + 1 < 2 ^ 63" "obox_inv cd dlv n (o1, b, acc)" "outbox_publish cd dk now t e o1 = (o2, ok)"
  shows "obox_inv cd dlv (n + 1) (o2, b, if ok then acc @ [(t, e)] else acc)"
proof -
  obtain rs where rs: "logs cd rs o1" "0 \<le> oxSeq o1" "oxSeq o1 \<le> n" "\<forall>r\<in>set rs. obSeq r \<le> oxSeq o1 \<and> 0 < obSeq r"
      "\<forall>(t, e)\<in>set acc. \<exists>r\<in>set (view rs). obTopic r = t \<and> obEnvelope r = e"
      "\<forall>r\<in>set (view rs). obStatus r \<in> {''pending'', ''failed''} \<or> obEnvelope r \<in> set (dlv b (obTopic r))"
    using assms(4) by (auto simp: obox_inv_def)
  define k where "k = oxSeq o1 + 1"
  have k: "add64 (oxSeq o1) 1 = k" using rs(2,3) assms(3) by (simp add: add64_exact in64_def k_def)
  define row where "row = \<lparr>obSeq = k, obTopic = t, obEnvelope = e, obStatus = ''pending'', obAttempts = 0, obCreatedAt = now\<rparr>"
  have app: "appendLocked cd dk row (o1\<lparr>oxSeq := k\<rparr>) = (o2, ok)" using assms(5) by (simp add: outbox_publish_def k row_def)
  have l: "logs cd rs (o1\<lparr>oxSeq := k\<rparr>)" using rs(1) by simp
  note out = append_log [OF assms(2) l app]
  have "obSeq q \<noteq> k" if "q \<in> set (view rs)" for q
  proof -
    have "obSeq q \<in> obSeq ` set rs" using that view_seqs [of rs] by auto
    then show ?thesis using rs(4) by (auto simp: k_def)
  qed
  then have sv: "set (view (rs @ [row])) = insert row (set (view rs))"
    using fold_row_set [OF distinct_view, of row rs] by (auto simp: row_def)
  have seq: "oxSeq o2 = k" using out(1) by simp
  consider "logs cd (rs @ [row]) o2" | "\<not> ok" "logs cd rs o2" using out(1) by blast
  then show ?thesis
  proof cases
    case 1
    have "\<forall>(t', e')\<in>set (if ok then acc @ [(t, e)] else acc). \<exists>r\<in>set (view (rs @ [row])). obTopic r = t' \<and> obEnvelope r = e'"
      unfolding sv using rs(5) by (auto simp: row_def)
    moreover have "\<forall>r\<in>set (rs @ [row]). obSeq r \<le> k \<and> 0 < obSeq r" using rs(2,4) by (fastforce simp: row_def k_def)
    moreover have "\<forall>r\<in>set (view (rs @ [row])). obStatus r \<in> {''pending'', ''failed''} \<or> obEnvelope r \<in> set (dlv b (obTopic r))"
      unfolding sv using rs(6) by (simp add: row_def)
    ultimately show ?thesis unfolding obox_inv_def prod.case seq using 1 rs(2,3) by (intro exI [of _ "rs @ [row]"] conjI) (simp_all add: k_def)
  next
    case 2
    have "\<forall>r\<in>set rs. obSeq r \<le> k \<and> 0 < obSeq r" using rs(4) by (fastforce simp: k_def)
    then show ?thesis unfolding obox_inv_def prod.case seq using 2 rs by (intro exI [of _ rs] conjI) (simp_all add: k_def)
  qed
qed

definition waiting :: "OutboxRow \<Rightarrow> bool" where
  "waiting r \<longleftrightarrow> obStatus r = ''pending'' \<or> obStatus r = ''failed''"

context event_bus
begin

lemma drain_inv:
  assumes "codec_ok cd" "\<forall>i. whole (dk i)" "obox_inv cd delivered n (o1, b, acc)" "Drain cd publish dk o1 b = ((o2, b2), k)"
  shows "obox_inv cd delivered n (o2, b2, acc) \<and> k \<noteq> None \<and>
    ((\<forall>t e b. snd (publish t e b)) \<longrightarrow> (\<forall>(t, e)\<in>set acc. e \<in> set (delivered b2 t)))"
proof -
  obtain rs where rs: "logs cd rs o1" "0 \<le> oxSeq o1" "oxSeq o1 \<le> n" "\<forall>r\<in>set rs. obSeq r \<le> oxSeq o1 \<and> 0 < obSeq r"
      "\<forall>(t, e)\<in>set acc. \<exists>r\<in>set (view rs). obTopic r = t \<and> obEnvelope r = e" "settled (view rs) b"
    using assms(3) by (auto simp: obox_inv_def settled_def)
  obtain m where d: "drain_rows cd publish dk 0 (view rs) (o1, b, 0) = (o2, b2, m)" "k = Some m"
    using assms(4) by (auto simp: Drain_def Rows_log [OF assms(1) rs(1)] split: prod.splits)
  obtain rs2 where rs2: "logs cd rs2 o2" "oxSeq o2 = oxSeq o1" "marked rs rs2" "settled (view rs2) b2" "\<forall>t. set (delivered b t) \<subseteq> set (delivered b2 t)"
      "(\<forall>t e b. snd (publish t e b)) \<longrightarrow> (\<forall>r\<in>set (view rs). obStatus r \<in> {''pending'', ''failed''} \<longrightarrow> obEnvelope r \<in> set (delivered b2 (obTopic r)))"
    using drain_rows_sound [OF assms(1,2) rs(1,6) _ d(1)] by blast
  have acc: "\<forall>(t, e)\<in>set acc. \<exists>r\<in>set (view rs2). obTopic r = t \<and> obEnvelope r = e"
    using rs(5) rs2(3) unfolding marked_def by fastforce
  have "obSeq ` set rs2 = obSeq ` set rs" using rs2(3) by (simp add: marked_def)
  then have seqs: "\<forall>r\<in>set rs2. obSeq r \<le> oxSeq o1 \<and> 0 < obSeq r" using rs(4) by (metis imageE imageI)
  have "e \<in> set (delivered b2 t)" if always: "\<forall>t e b. snd (publish t e b)" and te: "(t, e) \<in> set acc" for t e
  proof -
    obtain r where r: "r \<in> set (view rs)" "obTopic r = t" "obEnvelope r = e" using bspec [OF rs(5) te] by auto
    have "obStatus r \<in> {''pending'', ''failed''} \<or> obEnvelope r \<in> set (delivered b (obTopic r))" using rs(6) r(1) by (simp add: settled_def)
    then have "obEnvelope r \<in> set (delivered b2 (obTopic r))" using rs2(5) rs2(6) [rule_format, OF always [rule_format] r(1)] by (elim disjE) (simp, blast)
    then show ?thesis by (simp add: r)
  qed
  moreover have "obox_inv cd delivered n (o2, b2, acc)"
    unfolding obox_inv_def prod.case rs2(2) using rs2(1,4) rs(2,3) seqs acc by (intro exI [of _ rs2] conjI) (simp_all add: settled_def)
  ultimately show ?thesis using d(2) by blast
qed

lemma run_inv:
  assumes "codec_ok cd" "list_all untorn ops" "int (length ops) < 2 ^ 63 - 1"
  shows "obox_inv cd delivered (int (length ops)) (obox_run cd publish ops (NewOutbox cd None, b0, []))"
  using assms(2,3)
proof (induction ops rule: rev_induct)
  case Nil
  have "logs cd [] (NewOutbox cd None)" by (simp add: NewOutbox_def Rows_def file_text_def logs_def log_text_def)
  moreover have "oxSeq (NewOutbox cd None) = 0" by (simp add: NewOutbox_def Rows_def file_text_def)
  ultimately show ?case by (auto simp: obox_run_def obox_inv_def view_def intro!: exI [of _ "[]"])
next
  case (snoc op ops)
  obtain o1 b acc where st: "obox_run cd publish ops (NewOutbox cd None, b0, []) = (o1, b, acc)" by (metis prod_cases3)
  have inv: "obox_inv cd delivered (int (length ops)) (o1, b, acc)" using snoc st by simp
  have up: "obox_inv cd delivered (int (length ops)) s \<Longrightarrow> obox_inv cd delivered (int (length ops) + 1) s" for s
    by (fastforce simp: obox_inv_def)
  have "obox_inv cd delivered (int (length ops) + 1) (obox_exec cd publish op (o1, b, acc))"
  proof (cases op)
    case (OPublish dk now t e)
    obtain o2 ok where p: "outbox_publish cd dk now t e o1 = (o2, ok)" by fastforce
    have "obox_inv cd delivered (int (length ops) + 1) (o2, b, if ok then acc @ [(t, e)] else acc)"
      by (rule publish_inv [OF assms(1) _ _ inv p]) (use snoc.prems OPublish in simp_all)
    then show ?thesis by (simp add: OPublish p)
  next
    case (ODrain dk)
    obtain o2 b2 k where "Drain cd publish dk o1 b = ((o2, b2), k)" by (metis prod.collapse)
    then show ?thesis using drain_inv [OF assms(1) _ inv, of dk o2 b2 k] snoc.prems(1) ODrain up by auto
  next
    case ORestart
    then show ?thesis using restart_inv [OF assms(1) inv] up by simp
  qed
  then show ?case using st by (simp add: obox_run_def add.commute)
qed

lemma drain_rows_all:
  assumes "codec_ok cd" "\<forall>i. dk i = DOk" "\<forall>t e b. snd (publish t e b)"
    and "logs cd rs o1" "\<forall>r\<in>set todo. \<exists>q\<in>set (view rs). obSeq q = obSeq r" "\<forall>q\<in>set (view rs). waiting q \<longrightarrow> obSeq q \<in> obSeq ` {r \<in> set todo. waiting r}"
    and "drain_rows cd publish dk i todo (o1, b, n) = (o2, b2, n2)"
  shows "\<exists>rs2. logs cd rs2 o2 \<and> (\<forall>q\<in>set (view rs2). \<not> waiting q)"
  using assms(4-7)
proof (induction todo arbitrary: i rs o1 b n)
  case (Cons r todo)
  show ?case
  proof (cases "waiting r")
    case False
    then have "drain_rows cd publish dk (Suc i) todo (o1, b, n) = (o2, b2, n2)" using Cons.prems(4) by (simp add: waiting_def)
    from Cons.IH [OF Cons.prems(1) _ _ this] Cons.prems(2,3) False show ?thesis by fastforce
  next
    case True
    obtain q where q: "q \<in> set (view rs)" "obSeq q = obSeq r" using Cons.prems(2) by auto
    obtain b1 where pub: "publish (obTopic r) (obEnvelope r) b = (b1, True)" using assms(3) by (metis prod.collapse)
    let ?q = "q\<lparr>obStatus := ''published'', obAttempts := add64 (obAttempts r) 1\<rparr>"
    obtain o3 mok where mk: "Mark cd (dk i) (obSeq q) ''published'' (add64 (obAttempts r) 1) o1 = (o3, mok)" by fastforce
    have w: "whole (dk i)" using assms(2) by (simp add: whole_def)
    have l: "logs cd (rs @ [?q]) o3" using Mark_log [OF assms(1) w Cons.prems(1) q(1) mk] assms(2) by blast
    have rest: "drain_rows cd publish dk (Suc i) todo (o3, b1, Suc n) = (o2, b2, n2)"
      using Cons.prems(4) True pub mk q by (auto simp: waiting_def)
    have sv: "set (view (rs @ [?q])) = insert ?q {p \<in> set (view rs). obSeq p \<noteq> obSeq q}"
      using fold_row_set [OF distinct_view, of ?q rs] by simp
    have "obSeq ` set (view (rs @ [?q])) = obSeq ` set (view rs)" using marked_snoc [OF q(1), of "add64 (obAttempts r) 1" "''published''"] view_seqs [of rs] view_seqs [of "rs @ [?q]"] by (simp only: marked_def set_map)
    note seqs = this
    have "\<exists>p\<in>set (view (rs @ [?q])). obSeq p = obSeq x" if "x \<in> set todo" for x
    proof -
      have "obSeq x \<in> obSeq ` set (view rs)" using bspec [OF Cons.prems(2), of x] that by (metis imageI list.set_intros(2))
      then have "obSeq x \<in> obSeq ` set (view (rs @ [?q]))" by (simp only: seqs)
      then show ?thesis by force
    qed
    then have "\<forall>r\<in>set todo. \<exists>p\<in>set (view (rs @ [?q])). obSeq p = obSeq r" by blast
    moreover have "\<forall>p\<in>set (view (rs @ [?q])). waiting p \<longrightarrow> obSeq p \<in> obSeq ` {r \<in> set todo. waiting r}"
      unfolding sv using Cons.prems(3) q(2) by (auto simp: waiting_def)
    ultimately show ?thesis using Cons.IH [OF l _ _ rest] by blast
  qed
qed auto

lemma drain_idle:
  assumes "\<forall>q\<in>set rows. \<not> waiting q"
  shows "drain_rows cd publish dk i rows (o1, b, n) = (o1, b, n)"
  using assms by (induction rows arbitrary: i) (auto simp: waiting_def)

lemma drain_again:
  assumes "codec_ok cd" "\<forall>i. dk i = DOk" "\<forall>t e b. snd (publish t e b)" "obox_inv cd delivered m (o1, b, acc)"
    and "Drain cd publish dk o1 b = ((o2, b2), k)"
  shows "Drain cd publish dk' o2 b2 = ((o2, b2), Some 0)"
proof -
  obtain rs where rs: "logs cd rs o1" using assms(4) by (auto simp: obox_inv_def)
  obtain n where d: "drain_rows cd publish dk 0 (view rs) (o1, b, 0) = (o2, b2, n)"
    using assms(5) by (auto simp: Drain_def Rows_log [OF assms(1) rs] split: prod.splits)
  obtain rs2 where rs2: "logs cd rs2 o2" "\<forall>q\<in>set (view rs2). \<not> waiting q"
    using drain_rows_all [OF assms(1-3) rs _ _ d] by blast
  show ?thesis by (simp add: Drain_def Rows_log [OF assms(1) rs2(1)] drain_idle [OF rs2(2)])
qed

end

section \<open>Identifiers sort by time and do not repeat\<close>

lemma crockford_less: "i < j \<Longrightarrow> j < 32 \<Longrightarrow> (of_char (crockford ! i) :: nat) < of_char (crockford ! j)"
proof -
  have "sorted_wrt (<) (map of_char crockford :: nat list)" by code_simp
  moreover have "length crockford = 32" by code_simp
  ultimately show "i < j \<Longrightarrow> j < 32 \<Longrightarrow> (of_char (crockford ! i) :: nat) < of_char (crockford ! j)"
    using sorted_wrt_nth_less [of "(<)" "map of_char crockford :: nat list" i j] by simp
qed

lemma two_digits: "b < k \<Longrightarrow> d < k \<Longrightarrow> k * a + b = k * c + d \<longleftrightarrow> a = c \<and> b = d" for a b c d k :: nat
proof -
  assume "b < k" "d < k"
  then have "(k * a + b) div k = a" "(k * a + b) mod k = b" "(k * c + d) div k = c" "(k * c + d) mod k = d" by simp_all
  then show ?thesis by metis
qed

lemma crockford_inject: "i < 32 \<Longrightarrow> j < 32 \<Longrightarrow> crockford ! i = crockford ! j \<longleftrightarrow> i = j"
  using crockford_less [of i j] crockford_less [of j i] by (metis less_irrefl linorder_neqE_nat)

lemma length_base32 [simp]: "length (base32 n x) = n"
  by (induction n arbitrary: x) auto

lemma base32_inject: "base32 n x = base32 n y \<longleftrightarrow> x mod 32 ^ n = y mod 32 ^ n"
proof (induction n arbitrary: x y)
  case (Suc n)
  have "x mod 32 ^ Suc n = 32 * (x div 32 mod 32 ^ n) + x mod 32" for x :: nat
    by (simp add: mod_mult2_eq)
  then show ?case using Suc two_digits [of "x mod 32" 32 "y mod 32"] by (simp add: crockford_inject)
qed simp

text \<open>The texts compare like the numbers, byte by byte.\<close>

definition bytes_less :: "string \<Rightarrow> string \<Rightarrow> bool" where
  "bytes_less s t \<longleftrightarrow> (s, t) \<in> lexord {(a, b). (of_char a :: nat) < of_char b}"

lemma bytes_less_front: "bytes_less s t \<Longrightarrow> length s = length t \<Longrightarrow> bytes_less (s @ u) (t @ v)"
  unfolding bytes_less_def by (rule lexord_sufI) simp_all

lemma bytes_less_back: "bytes_less u v \<Longrightarrow> bytes_less (s @ u) (s @ v)"
  unfolding bytes_less_def by (rule lexord_append_leftI)

lemma base32_less: "x mod 32 ^ n < y mod 32 ^ n \<Longrightarrow> bytes_less (base32 n x) (base32 n y)"
proof (induction n arbitrary: x y)
  case (Suc n)
  have "x mod 32 ^ Suc n = 32 * (x div 32 mod 32 ^ n) + x mod 32" for x :: nat
    by (simp add: mod_mult2_eq)
  then have "32 * (x div 32 mod 32 ^ n) + x mod 32 < 32 * (y div 32 mod 32 ^ n) + y mod 32" using Suc.prems by simp
  moreover have "x mod 32 < 32" "y mod 32 < 32" by simp_all
  ultimately have "x div 32 mod 32 ^ n < y div 32 mod 32 ^ n \<or> x div 32 mod 32 ^ n = y div 32 mod 32 ^ n \<and> x mod 32 < y mod 32" by linarith
  then show ?case
  proof
    assume "x div 32 mod 32 ^ n < y div 32 mod 32 ^ n"
    then show ?thesis using Suc.IH bytes_less_front by simp
  next
    assume "x div 32 mod 32 ^ n = y div 32 mod 32 ^ n \<and> x mod 32 < y mod 32"
    then have "base32 n (x div 32) = base32 n (y div 32)" "bytes_less [crockford ! (x mod 32)] [crockford ! (y mod 32)]"
      using base32_inject [of n "x div 32" "y div 32"] crockford_less [of "x mod 32" "y mod 32"] by (simp_all add: bytes_less_def)
    then show ?thesis by (simp add: bytes_less_back)
  qed
qed simp

lemma big_endian_snoc: "big_endian (bs @ [b]) = big_endian bs * 256 + b"
  by (simp add: big_endian_def)

lemma big_endian_inject:
  "length bs = length cs \<Longrightarrow> \<forall>b\<in>set bs \<union> set cs. b < 256 \<Longrightarrow> big_endian bs = big_endian cs \<Longrightarrow> bs = cs"
proof (induction bs arbitrary: cs rule: rev_induct)
  case (snoc b bs)
  obtain c cs' where cs: "cs = cs' @ [c]" using snoc.prems(1) by (metis length_0_conv rev_exhaust snoc_eq_iff_butlast)
  have "big_endian bs * 256 + b = big_endian cs' * 256 + c" "b < 256" "c < 256" using snoc.prems(2,3) by (simp_all add: cs big_endian_snoc)
  then have "big_endian bs = big_endian cs'" "b = c" using two_digits [of b 256 c "big_endian bs" "big_endian cs'"] by (simp_all add: mult.commute)
  then show ?case using snoc.IH [of cs'] snoc.prems(1,2) by (simp add: cs)
qed simp

lemma big_endian_bound: "\<forall>b\<in>set bs. b < 256 \<Longrightarrow> big_endian bs < 256 ^ length bs"
proof (induction bs rule: rev_induct)
  case (snoc b bs)
  then have "big_endian bs < 256 ^ length bs" "b < 256" by simp_all
  then show ?case by (simp add: big_endian_snoc)
qed (simp add: big_endian_def)

lemma big_endian_Cons: "big_endian (b # bs) = b * 256 ^ length bs + big_endian bs"
  by (induction bs rule: rev_induct) (simp_all add: big_endian_snoc [of "b # _", simplified] big_endian_snoc, simp add: big_endian_def)

lemma top_nibble:
  assumes "length r = 10" "\<forall>b\<in>set r. b < 256"
  shows "big_endian (take 8 (drop 2 r)) div 2 ^ 60 = r ! 2 div 16"
proof -
  have d: "take 8 (drop 2 r) = r ! 2 # take 7 (drop 3 r)"
    using assms(1) Cons_nth_drop_Suc [of 2 r] take_Suc_Cons [of 7 "r ! 2" "drop 3 r"] by simp
  have "big_endian (take 7 (drop 3 r)) < 256 ^ 7"
    using big_endian_bound [of "take 7 (drop 3 r)"] assms by (auto dest!: in_set_takeD in_set_dropD)
  then have "big_endian (take 8 (drop 2 r)) div 256 ^ 7 = r ! 2" using assms(1) unfolding d big_endian_Cons by simp
  then show ?thesis using div_mult2_eq [of "big_endian (take 8 (drop 2 r))" "256 ^ 7" 16] by simp
qed

lemma ULID_length: "length (snd (ULID now rnd prev)) = 26"
  by (simp add: ULID_def Let_def)

lemma ULID_time:
  assumes "fst (ULID n1 r1 p1) < fst (ULID n2 r2 p2)" "fst (ULID n2 r2 p2) < 2 ^ 50"
  shows "bytes_less (snd (ULID n1 r1 p1)) (snd (ULID n2 r2 p2))"
proof -
  have "bytes_less (base32 10 (fst (ULID n1 r1 p1))) (base32 10 (fst (ULID n2 r2 p2)))"
    by (rule base32_less) (use assms in simp)
  then show ?thesis unfolding ULID_def Let_def snd_conv fst_conv by (rule bytes_less_front) simp_all
qed

lemma ULID_inject:
  assumes "snd (ULID n1 r1 p1) = snd (ULID n2 r2 p2)" "length r1 = 10" "length r2 = 10" "\<forall>b\<in>set r1 \<union> set r2. b < 256"
    "fst (ULID n1 r1 p1) < 2 ^ 50" "fst (ULID n2 r2 p2) < 2 ^ 50"
  shows "fst (ULID n1 r1 p1) = fst (ULID n2 r2 p2) \<and> r1 = r2"
proof -
  define t1 where "t1 = fst (ULID n1 r1 p1)"
  define t2 where "t2 = fst (ULID n2 r2 p2)"
  define v1 where "v1 = big_endian (take 2 r1)"
  define v2 where "v2 = big_endian (take 2 r2)"
  define x1 where "x1 = big_endian (take 8 (drop 2 r1))"
  define x2 where "x2 = big_endian (take 8 (drop 2 r2))"
  have u: "snd (ULID n r p) = base32 10 (fst (ULID n r p)) @ [crockford ! (big_endian (take 2 r) div 2048 mod 32), crockford ! (big_endian (take 2 r) div 64 mod 32),
      crockford ! (big_endian (take 2 r) div 2 mod 32), crockford ! (big_endian (take 2 r) mod 2 * 16 + r ! 2 div 16)] @ base32 12 (big_endian (take 8 (drop 2 r)))" for n r p
    by (simp add: ULID_def Let_def)
  have b2: "r1 ! 2 < 256" "r2 ! 2 < 256" using assms(2-4) nth_mem [of 2 r1] nth_mem [of 2 r2] by simp_all
  have parts: "base32 10 t1 = base32 10 t2" "v1 div 2048 mod 32 = v2 div 2048 mod 32" "v1 div 64 mod 32 = v2 div 64 mod 32" "v1 div 2 mod 32 = v2 div 2 mod 32"
      "v1 mod 2 * 16 + r1 ! 2 div 16 = v2 mod 2 * 16 + r2 ! 2 div 16" "base32 12 x1 = base32 12 x2"
    using assms(1) b2 unfolding u by (auto simp: crockford_inject t1_def t2_def v1_def v2_def x1_def x2_def)
  have t: "t1 = t2" using parts(1) assms(5,6) unfolding base32_inject by (simp add: t1_def t2_def)
  have bv: "v1 < 65536" "v2 < 65536" using big_endian_bound [of "take 2 r1"] big_endian_bound [of "take 2 r2"] assms(2-4)
    by (auto simp: v1_def v2_def dest: in_set_takeD)
  have bits: "v = 2 * (32 * (32 * (v div 2048) + v div 64 mod 32) + v div 2 mod 32) + v mod 2" for v :: nat
  proof -
    have "v div 64 = 32 * (v div 2048) + v div 64 mod 32" using mult_div_mod_eq [of 32 "v div 64"] by (simp add: div_mult2_eq [symmetric])
    moreover have "v div 2 = 32 * (v div 64) + v div 2 mod 32" using mult_div_mod_eq [of 32 "v div 2"] by (simp add: div_mult2_eq [symmetric])
    ultimately show ?thesis using mult_div_mod_eq [of 2 v] by metis
  qed
  have low: "v1 mod 2 = v2 mod 2" "r1 ! 2 div 16 = r2 ! 2 div 16"
    using parts(5) b2 two_digits [of "r1 ! 2 div 16" 16 "r2 ! 2 div 16" "v1 mod 2" "v2 mod 2"] by (auto simp: mult.commute)
  have "v1 div 2048 = v2 div 2048" using parts(2) bv by simp
  then have v: "v1 = v2" using bits [of v1] bits [of v2] parts(3,4) low(1) by simp
  have "x1 mod 2 ^ 60 = x2 mod 2 ^ 60" using parts(6) unfolding base32_inject by simp
  moreover have "x1 div 2 ^ 60 = x2 div 2 ^ 60"
    using low(2) top_nibble [OF assms(2)] top_nibble [OF assms(3)] assms(4) by (simp add: x1_def x2_def)
  ultimately have x: "x1 = x2" by (metis mult_div_mod_eq)
  have "take 2 r1 = take 2 r2"
    by (rule big_endian_inject) (use v assms(2-4) in \<open>auto simp: v1_def v2_def dest: in_set_takeD\<close>)
  moreover have "drop 2 r1 = drop 2 r2"
    by (rule big_endian_inject) (use x assms(2-4) in \<open>auto simp: x1_def x2_def dest: in_set_dropD\<close>)
  ultimately have "r1 = r2" by (metis append_take_drop_id)
  then show ?thesis using t by (simp add: t1_def t2_def)
qed

end
