(* ===== verification/Envelope_Properties.thy ===== *)
theory Envelope_Properties
  imports Envelope Authx
begin

text \<open>
  The properties of the event outbox and of event identifiers, and what a torn write does.
\<close>

section \<open>Delivery\<close>

text \<open>C10. Every event whose publication was accepted is delivered at least once: after any sequence of publications, runs of the relay (with a bus that may
  refuse) and restarts, with writes that may fail but are not torn, a run of the relay over a bus that accepts leaves every accepted event in its topic;
  and when its own marks are written, running the relay once more delivers nothing again.\<close>

theorem outbox_at_least_once:
  assumes "event_bus pub dlv" "event_bus pub' dlv" "\<forall>t e b. snd (pub' t e b)" "codec_ok cd" "list_all untorn ops" "int (length ops) < 2 ^ 63 - 1"
    and "obox_run cd pub ops (NewOutbox cd None, b0, []) = (o1, b, acc)" "\<forall>i. whole (dk i)" "Drain cd pub' dk o1 b = ((o2, b2), k)"
  shows "k \<noteq> None \<and> (\<forall>(t, e)\<in>set acc. e \<in> set (dlv b2 t)) \<and>
    ((\<forall>i. dk i = DOk) \<longrightarrow> Drain cd pub' dk' o2 b2 = ((o2, b2), Some 0))"
proof -
  have inv: "obox_inv cd dlv (int (length ops)) (o1, b, acc)" using event_bus.run_inv [OF assms(1,4-6), of b0] assms(7) by simp
  show ?thesis using event_bus.drain_inv [OF assms(2,4,8) inv assms(9)] event_bus.drain_again [OF assms(2,4) _ assms(3) inv assms(9)] assms(3) by blast
qed

text \<open>A codec for the witnesses: the fields in base64, separated by dots.\<close>

definition read_int :: "string \<Rightarrow> int" where
  "read_int s = (if s \<noteq> [] \<and> hd s = CHR ''-'' then - int (read_nat (tl s)) else int (read_nat s))"

definition row_fields :: "OutboxRow \<Rightarrow> string list" where
  "row_fields r = (let e = obEnvelope r in
     [show_int (obSeq r), obTopic r, enID e, enType e, enSource e, enTime e, enTenantID e, enTraceID e, enRulePackVersion e, enData e,
      obStatus r, show_int (obAttempts r), show_int (obCreatedAt r)])"

definition demo_enc :: "OutboxRow \<Rightarrow> string" where
  "demo_enc r = join ''.'' (map b64 (row_fields r))"

definition demo_dec :: "string \<Rightarrow> OutboxRow option" where
  "demo_dec s =
     (case map unb64 (split_on (CHR ''.'') s) of
        [Some a, Some b, Some i, Some t, Some src, Some tm, Some tn, Some tr, Some v, Some d, Some st, Some n, Some c] \<Rightarrow>
          Some \<lparr>obSeq = read_int a, obTopic = b, obEnvelope = \<lparr>enID = i, enType = t, enSource = src, enTime = tm, enTenantID = tn, enTraceID = tr,
                 enRulePackVersion = v, enData = d\<rparr>, obStatus = st, obAttempts = read_int n, obCreatedAt = read_int c\<rparr>
      | _ \<Rightarrow> None)"

definition demo_codec :: row_codec where
  "demo_codec = \<lparr>enc = demo_enc, dec = demo_dec\<rparr>"

lemma read_show_int: "read_int (show_int i) = i"
proof -
  have "hd (show_nat n) \<noteq> CHR ''-''" for n
    using show_nat_digits [of n] show_nat_nonempty [of n] by (cases "show_nat n") (auto simp: isDigit_def)
  then show ?thesis by (auto simp: read_int_def show_int_def read_show_nat)
qed

lemma split_join: "xs \<noteq> [] \<Longrightarrow> \<forall>x\<in>set xs. c \<notin> set x \<Longrightarrow> split_on c (join [c] xs) = xs"
  by (induction "[c]" xs rule: join.induct) (auto simp: split_on_absent split_on_app)

lemma set_join: "set (join sep xs) \<subseteq> set sep \<union> (\<Union>x\<in>set xs. set x)"
  by (induction sep xs rule: join.induct) auto

lemma b64_no_newline: "CHR 0x0A \<notin> set (b64 bs)"
  using sextets_bound [OF of_char_bound] by (auto simp: b64_def dest!: sym [of "CHR 0x0A"])

lemma demo_codec_ok: "codec_ok demo_codec"
  unfolding codec_ok_def
proof (intro allI conjI)
  fix r
  have sp: "split_on (CHR ''.'') (demo_enc r) = map b64 (row_fields r)"
    unfolding demo_enc_def by (rule split_join) (simp add: row_fields_def Let_def, use b64_no_dot in auto)
  show "dec demo_codec (enc demo_codec r) = Some r"
    by (simp add: demo_codec_def demo_dec_def sp row_fields_def Let_def read_show_int)
  show "CHR 0x0A \<notin> set (enc demo_codec r)"
    using set_join [of "''.''" "map b64 (row_fields r)"] b64_no_newline by (auto simp: demo_codec_def demo_enc_def)
  show "enc demo_codec r \<noteq> []"
    by (simp add: demo_codec_def demo_enc_def row_fields_def Let_def)
qed

definition demo_event :: EventEnvelope where
  "demo_event = \<lparr>enID = ''1'', enType = ''t'', enSource = ''s'', enTime = '''', enTenantID = '''', enTraceID = '''', enRulePackVersion = '''', enData = ''{}''\<rparr>"

definition demo_ops :: "obox_op list" where
  "demo_ops = [OPublish DOk 0 ''nrs.a'' demo_event, ORestart, OPublish DOpen 1 ''nrs.b'' demo_event]"

lemma demo_acc: "snd (snd (obox_run demo_codec bus_publish demo_ops (NewOutbox demo_codec None, NewInprocEventBus, []))) = [(''nrs.a'', demo_event)]"
  by (simp add: obox_run_def demo_ops_def outbox_publish_def case_prod_beta Let_def)

theorem outbox_at_least_once_witness:
  "demo_event \<in> set (bus_messages (snd (fst (Drain demo_codec bus_publish (\<lambda>_. DOk)
      (fst (obox_run demo_codec bus_publish demo_ops (NewOutbox demo_codec None, NewInprocEventBus, [])))
      (fst (snd (obox_run demo_codec bus_publish demo_ops (NewOutbox demo_codec None, NewInprocEventBus, []))))))) ''nrs.a'')"
proof -
  let ?st = "obox_run demo_codec bus_publish demo_ops (NewOutbox demo_codec None, NewInprocEventBus, [])"
  have bus: "event_bus bus_publish bus_messages" by (rule inproc_bus.event_bus_axioms)
  have st: "?st = (fst ?st, fst (snd ?st), [(''nrs.a'', demo_event)])" using demo_acc by (metis prod.collapse)
  let ?d = "Drain demo_codec bus_publish (\<lambda>_. DOk) (fst ?st) (fst (snd ?st))"
  have d: "?d = ((fst (fst ?d), snd (fst ?d)), snd ?d)" by simp
  have "list_all untorn demo_ops" "int (length demo_ops) < 2 ^ 63 - 1" "\<forall>i. whole (DOk)" "\<forall>t e b. snd (bus_publish t e b)"
    by (simp_all add: demo_ops_def whole_def bus_publish_def)
  from outbox_at_least_once [OF bus bus this(4) demo_codec_ok this(1,2) st this(3) d] show ?thesis by simp
qed

section \<open>Identifiers\<close>

text \<open>C30. An event identifier has 26 characters; identifiers of a later time compare greater as texts, also when the clock went back in between (the time used
  never does); and two identifiers are equal only for the same time and the same ten bytes of entropy. Times are below \<open>2 ^ 50\<close> milliseconds.\<close>

theorem ulid_sorts_and_identifies:
  assumes "length r1 = 10" "length r2 = 10" "\<forall>b\<in>set r1 \<union> set r2. b < 256" "ULID n1 r1 p = (t1, i1)" "ULID n2 r2 t1 = (t2, i2)" "t2 < 2 ^ 50"
  shows "length i1 = 26 \<and> p \<le> t1 \<and> t1 \<le> t2 \<and> (t1 < t2 \<longrightarrow> bytes_less i1 i2) \<and> (i1 = i2 \<longrightarrow> t1 = t2 \<and> r1 = r2)"
proof -
  have t: "p \<le> t1" "t1 \<le> t2" using assms(4,5) by (auto simp: ULID_def Let_def)
  have "bytes_less i1 i2" if "t1 < t2" using ULID_time [of n1 r1 p n2 r2 t1] that assms(4-6) by simp
  moreover have "t1 = t2 \<and> r1 = r2" if "i1 = i2" using ULID_inject [of n1 r1 p n2 r2 t1] that assms t by simp
  ultimately show ?thesis using t ULID_length [of n1 r1 p] assms(4) by simp
qed

theorem ulid_sorts_and_identifies_witness:
  "bytes_less (snd (ULID 1770000000000 [1, 2, 3, 4, 5, 6, 7, 8, 9, 10] 0)) (snd (ULID 1770000000001 [0, 0, 0, 0, 0, 0, 0, 0, 0, 0] 1770000000000))"
proof -
  let ?r1 = "[1, 2, 3, 4, 5, 6, 7, 8, 9, 10] :: nat list"
  let ?r2 = "[0, 0, 0, 0, 0, 0, 0, 0, 0, 0] :: nat list"
  have i1: "ULID 1770000000000 ?r1 0 = (1770000000000, snd (ULID 1770000000000 ?r1 0))"
    by (rule prod_eqI) (simp_all only: fst_conv snd_conv, simp add: ULID_def Let_def)
  have i2: "ULID 1770000000001 ?r2 1770000000000 = (1770000000001, snd (ULID 1770000000001 ?r2 1770000000000))"
    by (rule prod_eqI) (simp_all only: fst_conv snd_conv, simp add: ULID_def Let_def)
  have "length ?r1 = 10" "length ?r2 = 10" "\<forall>b\<in>set ?r1 \<union> set ?r2. b < 256" "(1770000000001 :: nat) < 2 ^ 50" by simp_all
  from ulid_sorts_and_identifies [OF this(1-3) i1 i2 this(4)] have "(1770000000000 :: nat) < 1770000000001 \<longrightarrow> ?thesis" by blast
  then show ?thesis by (rule mp) simp
qed

section \<open>Torn writes\<close>

text \<open>A write that fails after a part of the line leaves a text to which the next row is appended. The line made of both does not decode, and from then on the
  outbox cannot be read: no event is relayed any more, accepted ones included, and after a restart the numbers start again at 0.\<close>

theorem torn_write_blocks_outbox:
  assumes "codec_ok cd" "logs cd rs o1" "n < length (enc cd row)" "0 < n" "dec cd (take n (enc cd row) @ enc cd row2) = None"
    and "o2 = fst (appendLocked cd DOk row2 (fst (appendLocked cd (DPartial n) row o1)))"
  shows "Drain cd pub dk o2 b = ((o2, b), None) \<and> oxSeq (NewOutbox cd (oxFile o2)) = 0"
proof -
  define junk where "junk = take n (enc cd row) @ enc cd row2"
  have nl: "CHR 0x0A \<notin> set junk" "junk \<noteq> []" using assms(1) by (auto simp: junk_def codec_ok_def dest: in_set_takeD)
  have ft: "file_text o2 = log_text cd rs @ junk @ [CHR 0x0A]"
    using assms(2,3) by (simp add: assms(6) logs_def file_text_def junk_def)
  have "split_on (CHR 0x0A) (log_text cd rs @ junk @ [CHR 0x0A]) = map (enc cd) rs @ [junk, []]"
    using assms(1) nl by (induction rs) (simp_all add: log_text_def codec_ok_def split_on_app)
  then have lines: "butlast (split_on (CHR 0x0A) (file_text o2)) = map (enc cd) rs @ [junk]" by (simp add: ft butlast_append)
  have "read_lines cd (map (enc cd) rs @ [junk]) acc = None" for acc
    using assms(1,5) nl(2) by (induction rs arbitrary: acc) (simp_all add: codec_ok_def junk_def)
  then have "Rows cd o2 = None" by (simp add: Rows_def lines)
  moreover have "Rows cd \<lparr>oxFile = oxFile o2, oxSeq = 0\<rparr> = Rows cd o2" by (simp add: Rows_def file_text_def)
  ultimately show ?thesis by (simp add: Drain_def NewOutbox_def)
qed

end
