(* ===== verification/Gf256.thy ===== *)
theory Gf256
  imports Go_Prelude
begin

text \<open>
  The field of 256 elements of \<^verbatim>\<open>services/einvoicing/qr.go\<close>: the tables of powers and logarithms and the
  multiplication. The field laws are derived from one fact: multiplication by a power of the generator
  is a number of steps of \<open>gf_next\<close>, and \<open>gf_next\<close> is linear.
\<close>

unbundle bit_operations_syntax

section \<open>The tables\<close>

definition gf_next :: "nat \<Rightarrow> nat" where
  "gf_next x = (let y = push_bit 1 x in if y AND 256 \<noteq> 0 then y XOR 285 else y)"

text \<open>The first loop of \<^verbatim>\<open>init\<close>, after \<open>i\<close> rounds: the current power and both tables.\<close>

fun gf_fill :: "nat \<Rightarrow> nat \<times> nat list \<times> nat list" where
  "gf_fill 0 = (1, replicate 512 0, replicate 256 0)"
| "gf_fill (Suc i) = (case gf_fill i of (x, E, L) \<Rightarrow> (gf_next x, E[i := x], L[x := i]))"

definition gf_tables :: "nat list \<times> nat list" where
  "gf_tables = (case gf_fill 255 of (x, E, L) \<Rightarrow> (fold (\<lambda>i E. E[i := E ! (i - 255)]) [255..<512] E, L))"

definition gfExp :: "nat list" where
  "gfExp = fst gf_tables"

definition gfLog :: "nat list" where
  "gfLog = snd gf_tables"

definition gfMul :: "nat \<Rightarrow> nat \<Rightarrow> nat" where
  "gfMul a b = (if a = 0 \<or> b = 0 then 0 else gfExp ! (gfLog ! a + gfLog ! b))"

section \<open>Powers of the generator\<close>

definition apow :: "nat \<Rightarrow> nat" where
  "apow i = (gf_next ^^ i) 1"

lemma xor_byte [simp]: "a < 256 \<Longrightarrow> b < 256 \<Longrightarrow> a XOR b < (256 :: nat)"
  using take_bit_nat_eq_self_iff [of 8 a] take_bit_nat_eq_self_iff [of 8 b] take_bit_nat_eq_self_iff [of 8 "a XOR b"] take_bit_xor [of 8 a b] by simp

lemma xor_zero_iff: "a XOR b = 0 \<longleftrightarrow> a = b" for a b :: nat
  by (auto simp: bit_eq_iff bit_xor_iff)

lemma gf_next_bit: "gf_next x = (if bit x 7 then push_bit 1 x XOR 285 else push_bit 1 x)"
proof -
  have "push_bit 1 x AND 256 = 0 \<longleftrightarrow> \<not> bit x 7"
    using and_exp_eq_0_iff_not_bit [of "push_bit 1 x" 8] bit_push_bit_iff [of 1 x 8] by simp
  then show ?thesis by (cases "bit x 7") (simp_all only: gf_next_def Let_def if_True if_False not_True_eq_False not_False_eq_True simp_thms)
qed

lemma gf_next_xor: "gf_next (a XOR b) = gf_next a XOR gf_next b"
  by (auto simp: gf_next_bit push_bit_xor bit_xor_iff ac_simps simp del: push_bit_Suc)

lemma gf_next_0 [simp]: "gf_next 0 = 0"
  by (simp add: gf_next_def)

lemma gf_next_byte [simp]: "x < 256 \<Longrightarrow> gf_next x < 256"
proof -
  assume x: "x < 256"
  show ?thesis
  proof (cases "bit x 7")
    case True
    then have "odd (x div 128)" by (simp add: bit_iff_odd)
    then have "128 \<le> x" by (metis div_less even_zero not_less)
    then have "2 * x div 256 = 1" using x by simp
    then have "drop_bit 8 (2 * x) = 1" "drop_bit 8 (285 :: nat) = 1" by (simp_all add: drop_bit_eq_div)
    then have "drop_bit 8 (2 * x XOR 285) = 0" by (simp only: drop_bit_xor xor_self_eq)
    then show ?thesis using True by (simp add: gf_next_bit drop_bit_eq_div div_eq_0_iff mult.commute)
  next
    case False
    then have "even (x div 128)" "x div 128 < 2" using x by (simp_all add: bit_iff_odd div_less_iff_less_mult)
    then have "x div 128 = 0" by (metis One_nat_def less_2_cases odd_one)
    then have "x < 128" by (simp add: div_eq_0_iff)
    then show ?thesis using False by (simp add: gf_next_bit)
  qed
qed

lemma steps_0 [simp]: "(gf_next ^^ k) 0 = 0"
  by (induction k) auto

lemma steps_xor: "(gf_next ^^ k) (a XOR b) = (gf_next ^^ k) a XOR (gf_next ^^ k) b"
  by (induction k) (simp_all add: gf_next_xor)

lemma steps_byte [simp]: "a < 256 \<Longrightarrow> (gf_next ^^ k) a < 256"
  by (induction k) auto

lemma apow_add: "(gf_next ^^ k) (apow i) = apow (k + i)"
  by (simp add: apow_def funpow_add)

lemma apow_0 [simp]: "apow 0 = 1"
  by (simp add: apow_def)

lemma apow_Suc: "apow (Suc i) = gf_next (apow i)"
  by (simp add: apow_def)

lemma apow_byte [simp]: "apow i < 256"
  by (induction i) (simp_all add: apow_Suc)

text \<open>The powers up to the order, computed over \<open>int\<close>.\<close>

definition int_next :: "int \<Rightarrow> int" where
  "int_next x = (let y = push_bit 1 x in if y AND 256 \<noteq> 0 then y XOR 285 else y)"

fun int_powers :: "nat \<Rightarrow> int \<Rightarrow> int list" where
  "int_powers 0 x = []"
| "int_powers (Suc k) x = x # int_powers k (int_next x)"

lemma int_next: "int_next (int x) = int (gf_next x)"
proof -
  have "push_bit 1 (int x) AND 256 = int (push_bit 1 x AND 256)" "push_bit 1 (int x) XOR 285 = int (push_bit 1 x XOR 285)"
    by (simp_all only: of_nat_and_eq of_nat_xor_eq push_bit_of_nat of_nat_numeral)
  moreover have "push_bit 1 (int x) = int (push_bit 1 x)" by (simp only: push_bit_of_nat)
  ultimately show ?thesis by (simp only: int_next_def gf_next_def Let_def if_distrib [of int] of_nat_eq_0_iff)
qed

lemma int_powers: "int_powers k (int (apow i)) = map (\<lambda>j. int (apow j)) [i..<i + k]"
proof (induction k arbitrary: i)
  case (Suc k)
  then show ?case using Suc [of "Suc i"] by (simp add: int_next apow_Suc upt_conv_Cons del: upt_Suc)
qed simp

lemma powers_not_1: "list_all (\<lambda>x. x \<noteq> 1) (int_powers 254 2)"
  by code_simp

lemma powers_period: "last (int_powers (Suc 255) 1) = 1"
  by code_simp

lemma int_powers_1: "int_powers k 1 = map (\<lambda>j. int (apow j)) [0..<k]"
  using int_powers [of k 0] by simp

lemma apow_255: "apow 255 = 1"
  using powers_period unfolding int_powers_1 by (simp only: upt_Suc_append map_append list.map last_snoc of_nat_eq_1_iff zero_le)

lemma apow_wrap: "apow (i + 255) = apow i"
  using apow_add [of i 255] apow_add [of i 0] by (simp add: apow_255)

lemma apow_not_1: "0 < k \<Longrightarrow> k < 255 \<Longrightarrow> apow k \<noteq> 1"
proof -
  have "int_powers n 2 = map (\<lambda>j. int (apow j)) [1..<1 + n]" for n
    using int_powers [of n 1] by (simp add: apow_Suc gf_next_def)
  then have "\<forall>j\<in>{1..<1 + 254}. apow j \<noteq> 1" using powers_not_1 by (simp only: list_all_iff list.set_map set_upt) force
  then show "0 < k \<Longrightarrow> k < 255 \<Longrightarrow> apow k \<noteq> 1" by simp
qed

lemma apow_less: "i < j \<Longrightarrow> j < 255 \<Longrightarrow> apow i \<noteq> apow j"
proof
  assume a: "i < j" "j < 255" "apow i = apow j"
  obtain k where k: "k + j = 255" using a(2) by (metis less_imp_add_positive add.commute)
  have "apow (k + i) = apow (k + j)" by (simp only: apow_add [symmetric] a(3))
  then have one: "apow (k + i) = 1" by (simp only: k apow_255)
  have p: "0 < k + i" "k + i < 255" using a(1,2) k by linarith+
  show False by (rule notE [OF apow_not_1 [OF p] one])
qed

lemma apow_inj: "i < 255 \<Longrightarrow> j < 255 \<Longrightarrow> apow i = apow j \<longleftrightarrow> i = j"
  by (cases i j rule: linorder_cases) (use apow_less [of i j] apow_less [of j i] in simp_all)

lemma apow_period: "apow (i + 255 * m) = apow i"
  by (induction m) (simp, metis apow_wrap add.assoc mult_Suc_right add.commute)

lemma apow_mod: "apow (i mod 255) = apow i"
  using apow_period [of "i mod 255" "i div 255"] by simp

lemma apow_nonzero [simp]: "apow i \<noteq> 0"
proof
  assume z: "apow i = 0"
  have "apow (255 * i) = (gf_next ^^ (254 * i)) (apow i)" using apow_add [of "254 * i" i] by simp
  moreover have "apow (255 * i) = 1" using apow_period [of 0 i] by simp
  ultimately show False by (simp add: z)
qed

text \<open>Every element but 0 is a power: there are 255 of them.\<close>

lemma apow_image: "apow ` {0..<255} = {1..<256}"
proof (rule card_subset_eq)
  show "apow ` {0..<255} \<subseteq> {1..<256}" using apow_nonzero by (auto simp: Suc_le_eq neq0_conv [symmetric] simp del: neq0_conv)
  have "inj_on apow {0..<255}" by (rule inj_onI) (use apow_inj in auto)
  then show "card (apow ` {0..<255}) = card {1..<256 :: nat}" by (simp add: card_image)
qed simp

lemma apow_cover: "0 < x \<Longrightarrow> x < 256 \<Longrightarrow> \<exists>i<255. x = apow i"
proof -
  assume "0 < x" "x < 256"
  then have "x \<in> apow ` {0..<255}" unfolding apow_image by simp
  then obtain i where "x = apow i" "i \<in> {0..<255}" by (rule imageE)
  then show ?thesis by (intro exI [of _ i]) simp
qed

section \<open>The tables hold the powers\<close>

lemma gf_fill_power: "fst (gf_fill i) = apow i"
  by (induction i) (auto simp: apow_Suc split: prod.splits)

lemma gf_fill_sizes: "length (fst (snd (gf_fill i))) = 512 \<and> length (snd (snd (gf_fill i))) = 256"
  by (induction i) (auto split: prod.splits)

lemma gf_fill_exp: "i \<le> 255 \<Longrightarrow> j < i \<Longrightarrow> fst (snd (gf_fill i)) ! j = apow j"
proof (induction i)
  case (Suc i)
  obtain x E L where f: "gf_fill i = (x, E, L)" by (metis prod_cases3)
  then have "x = apow i" "length E = 512" using gf_fill_power [of i] gf_fill_sizes [of i] by simp_all
  then show ?case using Suc f by (auto simp: nth_list_update)
qed simp

lemma gf_fill_log: "i \<le> 255 \<Longrightarrow> j < i \<Longrightarrow> snd (snd (gf_fill i)) ! apow j = j"
proof (induction i)
  case (Suc i)
  obtain x E L where f: "gf_fill i = (x, E, L)" by (metis prod_cases3)
  then have "x = apow i" "length L = 256" using gf_fill_power [of i] gf_fill_sizes [of i] by simp_all
  then show ?case using Suc f apow_inj [of i j] by (auto simp: nth_list_update)
qed simp

lemma exp_copy:
  assumes "length E = m" "\<forall>j<n. E ! j = apow j" "\<forall>j. apow (j + n) = apow j" "0 < n" "n \<le> k" "k \<le> m"
  shows "length (fold (\<lambda>i E. E[i := E ! (i - n)]) [n..<k] E) = m \<and> (\<forall>j<k. fold (\<lambda>i E. E[i := E ! (i - n)]) [n..<k] E ! j = apow j)"
  using assms(5,6)
proof (induction k rule: dec_induct)
  case (step k)
  have "apow (k - n) = apow k" using assms(3) [rule_format, of "k - n"] step(1) by simp
  then show ?case using step assms(4) by (auto simp: nth_list_update less_Suc_eq)
qed (use assms in simp)

lemma gfExp_nth: "j < 512 \<Longrightarrow> gfExp ! j = apow j"
proof -
  assume j: "j < 512"
  obtain x E L where f: "gf_fill 255 = (x, E, L)" by (rule prod_cases3)
  have e: "length E = 512" "\<forall>j<255. E ! j = apow j"
    using conjunct1 [OF gf_fill_sizes [of 255]] gf_fill_exp [of 255] by (simp_all only: f fst_conv snd_conv order_refl simp_thms) simp_all
  have "\<forall>j<512. fold (\<lambda>i E. E[i := E ! (i - 255)]) [255..<512] E ! j = apow j"
    by (rule conjunct2 [OF exp_copy [OF e]]) (use apow_wrap in simp_all)
  from this [rule_format, OF j] show ?thesis by (simp only: gfExp_def gf_tables_def f prod.case fst_conv)
qed

lemma gfLog_apow: "j < 255 \<Longrightarrow> gfLog ! apow j = j"
proof -
  assume j: "j < 255"
  obtain x E L where f: "gf_fill 255 = (x, E, L)" by (rule prod_cases3)
  show ?thesis using gf_fill_log [of 255, OF order_refl j] by (simp only: gfLog_def gf_tables_def f prod.case snd_conv)
qed

section \<open>Field laws\<close>

lemma gfMul_0 [simp]: "gfMul 0 b = 0" "gfMul a 0 = 0"
  by (simp_all add: gfMul_def)

lemma gfMul_powers: "i < 255 \<Longrightarrow> j < 255 \<Longrightarrow> gfMul (apow i) (apow j) = apow (i + j)"
  by (simp add: gfMul_def gfLog_apow gfExp_nth)

text \<open>Multiplication by a power is that many steps.\<close>

lemma gfMul_steps: "a < 256 \<Longrightarrow> k < 255 \<Longrightarrow> gfMul a (apow k) = (gf_next ^^ k) a"
proof (cases "a = 0")
  case False
  assume "a < 256" "k < 255"
  then show ?thesis using apow_cover [of a] False by (auto simp: gfMul_powers apow_add add.commute)
qed simp

lemma gfMul_comm: "a < 256 \<Longrightarrow> b < 256 \<Longrightarrow> gfMul a b = gfMul b a"
  by (simp add: gfMul_def add.commute)

lemma gfMul_byte [simp]: "a < 256 \<Longrightarrow> b < 256 \<Longrightarrow> gfMul a b < 256"
proof (cases "a = 0 \<or> b = 0")
  case False
  assume "a < 256" "b < 256"
  then obtain i j where "a = apow i" "b = apow j" "i < 255" "j < 255" using apow_cover False by (metis gr0I)
  then show ?thesis by (simp add: gfMul_powers)
qed auto

lemma gfMul_xor: "a < 256 \<Longrightarrow> b < 256 \<Longrightarrow> c < 256 \<Longrightarrow> gfMul (a XOR b) c = gfMul a c XOR gfMul b c"
proof (cases "c = 0")
  case False
  assume "a < 256" "b < 256" "c < 256"
  moreover then obtain k where "k < 255" "c = apow k" using apow_cover False by (metis gr0I)
  ultimately show ?thesis by (simp add: gfMul_steps steps_xor)
qed simp

lemma gfMul_xor2: "a < 256 \<Longrightarrow> b < 256 \<Longrightarrow> c < 256 \<Longrightarrow> gfMul c (a XOR b) = gfMul c a XOR gfMul c b"
  using gfMul_xor [of a b c] by (simp add: gfMul_comm)

lemma gfMul_assoc: "a < 256 \<Longrightarrow> b < 256 \<Longrightarrow> c < 256 \<Longrightarrow> gfMul (gfMul a b) c = gfMul a (gfMul b c)"
proof (cases "b = 0 \<or> c = 0")
  case False
  assume bytes: "a < 256" "b < 256" "c < 256"
  then obtain j k where jk: "b = apow j" "c = apow k" "j < 255" "k < 255" using apow_cover False by (metis gr0I)
  have "gfMul b c = apow ((j + k) mod 255)"
    using jk by (simp add: gfMul_powers apow_mod)
  moreover have "(gf_next ^^ ((j + k) mod 255)) a = (gf_next ^^ (k + j)) a"
  proof (cases "a = 0")
    case False
    then obtain i where "a = apow i" using apow_cover [of a] bytes by auto
    moreover have "apow ((j + k) mod 255 + i) = apow (k + j + i)" using apow_period [of "(j + k) mod 255 + i" "(j + k) div 255"] by (simp add: ac_simps)
    ultimately show ?thesis by (simp add: apow_add)
  qed simp
  ultimately show ?thesis using jk bytes by (simp add: gfMul_steps funpow_add)
qed auto

lemma gfMul_1 [simp]: "a < 256 \<Longrightarrow> gfMul a (Suc 0) = a"
  using gfMul_steps [of a 0] by (simp add: apow_def)

lemma gfMul_eq_0: "a < 256 \<Longrightarrow> b < 256 \<Longrightarrow> gfMul a b = 0 \<longleftrightarrow> a = 0 \<or> b = 0"
proof (cases "a = 0 \<or> b = 0")
  case False
  assume "a < 256" "b < 256"
  then obtain i j where "a = apow i" "b = apow j" "i < 255" "j < 255" using apow_cover False by (metis gr0I)
  then show ?thesis by (simp add: gfMul_powers)
qed auto

end
