(* ===== verification/Reed_Solomon.thy ===== *)
theory Reed_Solomon
  imports Gf256
begin

text \<open>
  The Reed-Solomon encoder of \<^verbatim>\<open>services/einvoicing/qr.go\<close>: the generator polynomial and the shift register
  that computes the check bytes. Message and check bytes vanish at the roots of the generator, so two
  code words differ in more places than there are check bytes.
\<close>

unbundle bit_operations_syntax

section \<open>The encoder\<close>

text \<open>Coefficients in ascending order: each round multiplies by \<open>X + gfExp i\<close>.\<close>

fun rsGenPoly :: "nat \<Rightarrow> nat list" where
  "rsGenPoly 0 = [1]"
| "rsGenPoly (Suc i) = map2 (XOR) (map (\<lambda>c. gfMul c (gfExp ! i)) (rsGenPoly i) @ [0]) (0 # rsGenPoly i)"

text \<open>One byte of the message; \<open>gd\<close> is the generator in descending order.\<close>

definition rs_step :: "nat list \<Rightarrow> nat \<Rightarrow> nat list \<Rightarrow> nat list" where
  "rs_step gd d res =
     (let factor = d XOR res ! 0; res1 = tl res @ [0]
      in if factor \<noteq> 0 then map2 (\<lambda>r g. r XOR gfMul g factor) res1 (tl gd) else res1)"

definition rsEncode :: "nat list \<Rightarrow> nat \<Rightarrow> nat list" where
  "rsEncode data n = fold (rs_step (rev (rsGenPoly n))) data (replicate n 0)"

section \<open>Polynomials\<close>

abbreviation bytes256 :: "nat list \<Rightarrow> bool" where
  "bytes256 \<equiv> list_all (\<lambda>b. b < 256)"

text \<open>Coefficients in descending order (\<open>horner\<close>) and in ascending order (\<open>aeval\<close>).\<close>

definition horner :: "nat list \<Rightarrow> nat \<Rightarrow> nat" where
  "horner ds x = fold (\<lambda>d a. gfMul a x XOR d) ds 0"

fun aeval :: "nat list \<Rightarrow> nat \<Rightarrow> nat" where
  "aeval [] x = 0"
| "aeval (c # cs) x = c XOR gfMul (aeval cs x) x"

fun gpow :: "nat \<Rightarrow> nat \<Rightarrow> nat" where
  "gpow x 0 = 1"
| "gpow x (Suc n) = gfMul (gpow x n) x"

lemma horner_Nil [simp]: "horner [] x = 0"
  by (simp add: horner_def)

lemma horner_snoc [simp]: "horner (ds @ [d]) x = gfMul (horner ds x) x XOR d"
  by (simp add: horner_def)

lemma horner_rev: "horner (rev cs) x = aeval cs x"
  by (induction cs) (simp_all add: ac_simps)

lemma gpow_byte [simp]: "x < 256 \<Longrightarrow> gpow x n < 256"
  by (induction n) auto

lemma horner_byte [simp]: "x < 256 \<Longrightarrow> bytes256 ds \<Longrightarrow> horner ds x < 256"
  by (induction ds rule: rev_induct) auto

lemma aeval_byte [simp]: "x < 256 \<Longrightarrow> bytes256 cs \<Longrightarrow> aeval cs x < 256"
  by (induction cs) auto

lemma horner_append:
  "x < 256 \<Longrightarrow> bytes256 ds \<Longrightarrow> bytes256 es \<Longrightarrow> horner (ds @ es) x = gfMul (horner ds x) (gpow x (length es)) XOR horner es x"
proof (induction es rule: rev_induct)
  case (snoc e es)
  then show ?case using horner_snoc [of "ds @ es" e x] by (simp add: gfMul_xor gfMul_assoc ac_simps del: horner_snoc append_assoc) (simp add: gfMul_xor gfMul_assoc ac_simps)
qed simp

lemma horner_Cons: "x < 256 \<Longrightarrow> d < 256 \<Longrightarrow> bytes256 ds \<Longrightarrow> horner (d # ds) x = gfMul d (gpow x (length ds)) XOR horner ds x"
  using horner_append [of x "[d]" ds] horner_snoc [of "[]" d x] by simp

lemma aeval_xor: "length cs = length ds \<Longrightarrow> x < 256 \<Longrightarrow> bytes256 cs \<Longrightarrow> bytes256 ds \<Longrightarrow> aeval (map2 (XOR) cs ds) x = aeval cs x XOR aeval ds x"
  by (induction cs ds rule: list_induct2) (simp_all add: gfMul_xor ac_simps)

lemma aeval_scale: "x < 256 \<Longrightarrow> k < 256 \<Longrightarrow> bytes256 cs \<Longrightarrow> aeval (map (\<lambda>c. gfMul c k) cs) x = gfMul (aeval cs x) k"
proof (induction cs)
  case (Cons c cs)
  have "gfMul (gfMul (aeval cs x) k) x = gfMul (gfMul (aeval cs x) x) k" using Cons.prems by (simp add: gfMul_assoc gfMul_comm [of k x])
  then show ?case using Cons by (simp add: gfMul_xor)
qed simp

lemma aeval_zero [simp]: "aeval (cs @ [0]) x = aeval cs x"
  by (induction cs) auto

section \<open>The generator polynomial\<close>

lemma gen_length [simp]: "length (rsGenPoly n) = Suc n"
  by (induction n) auto

lemma bytes_map2_xor: "bytes256 cs \<Longrightarrow> bytes256 ds \<Longrightarrow> bytes256 (map2 (XOR) cs ds)"
proof (induction cs arbitrary: ds)
  case (Cons c cs)
  then show ?case by (cases ds) simp_all
qed simp

lemma gen_bytes [simp]: "n \<le> 255 \<Longrightarrow> bytes256 (rsGenPoly n)"
proof (induction n)
  case (Suc n)
  then have "bytes256 (map (\<lambda>c. gfMul c (gfExp ! n)) (rsGenPoly n) @ [0])" by (simp add: list_all_iff gfExp_nth)
  then show ?case using Suc bytes_map2_xor [of _ "0 # rsGenPoly n"] by (simp del: map_append zip_append)
qed simp

lemma gen_monic: "last (rsGenPoly n) = 1"
proof (induction n)
  case (Suc n)
  have "last (map2 (XOR) (cs @ [0]) (c # ds)) = last (c # ds)" if "length cs = length ds" for cs ds :: "nat list" and c
    using that by (induction cs ds arbitrary: c rule: list_induct2) auto
  from this [of "map (\<lambda>c. gfMul c (gfExp ! n)) (rsGenPoly n)" "rsGenPoly n" 0] show ?case using Suc gen_length [of n] by (auto simp del: zip_append gen_length)
qed simp

lemma gen_step: "n < 255 \<Longrightarrow> x < 256 \<Longrightarrow> aeval (rsGenPoly (Suc n)) x = gfMul (aeval (rsGenPoly n) x) (apow n XOR x)"
proof -
  assume a: "n < 255" "x < 256"
  let ?s = "map (\<lambda>c. gfMul c (gfExp ! n)) (rsGenPoly n)"
  have "bytes256 (?s @ [0])" using a gen_bytes [of n] by (simp add: list_all_iff gfExp_nth)
  then have "aeval (rsGenPoly (Suc n)) x = aeval ?s x XOR gfMul (aeval (rsGenPoly n) x) x"
    using a aeval_xor [of "?s @ [0]" "0 # rsGenPoly n" x] by (simp del: zip_append)
  then show ?thesis using a by (simp add: aeval_scale gfMul_xor2 gfExp_nth)
qed

lemma gen_roots: "n \<le> 255 \<Longrightarrow> i < n \<Longrightarrow> aeval (rsGenPoly n) (apow i) = 0"
proof (induction n)
  case (Suc n)
  then show ?case by (cases "i = n") (simp_all add: gen_step del: rsGenPoly.simps)
qed simp

section \<open>Check bytes\<close>

lemma horner_xor: "length cs = length ds \<Longrightarrow> x < 256 \<Longrightarrow> bytes256 cs \<Longrightarrow> bytes256 ds \<Longrightarrow> horner (map2 (XOR) cs ds) x = horner cs x XOR horner ds x"
proof (induction cs ds rule: rev_induct2)
  case (4 c cs d ds)
  then show ?case by (simp add: gfMul_xor ac_simps)
qed simp_all

lemma horner_scale: "x < 256 \<Longrightarrow> k < 256 \<Longrightarrow> bytes256 ds \<Longrightarrow> horner (map (\<lambda>c. gfMul c k) ds) x = gfMul (horner ds x) k"
  using aeval_scale [of x k "rev ds"] horner_rev [of "rev ds" x] horner_rev [of "map (\<lambda>c. gfMul c k) (rev ds)" x] by (simp add: rev_map)

text \<open>At a root of the generator, the part below its leading coefficient is the leading power.\<close>

lemma gen_tail:
  assumes "n \<le> 255" "i < n"
  shows "horner (tl (rev (rsGenPoly n))) (apow i) = gpow (apow i) n"
proof -
  let ?g = "rev (rsGenPoly n)"
  have "?g \<noteq> []" using gen_length [of n] by fastforce
  then have g: "?g = 1 # tl ?g" using gen_monic [of n] by (metis hd_rev list.collapse rev_is_Nil_conv)
  have b: "bytes256 (tl ?g)" using gen_bytes [OF assms(1)] by (metis list_all_rev list.pred_inject(2) g)
  have "horner ?g (apow i) = 0" using gen_roots [OF assms] by (simp add: horner_rev)
  then have "gfMul 1 (gpow (apow i) n) XOR horner (tl ?g) (apow i) = 0"
    using horner_Cons [of "apow i" 1 "tl ?g"] b g by (metis apow_byte gen_length length_rev length_tl diff_Suc_1 one_less_numeral_iff semiring_norm(76))
  then show ?thesis by (simp add: gfMul_comm [of "Suc 0"] xor_zero_iff)
qed

lemma rs_step_props:
  assumes "length res = n" "0 < n" "length gd = Suc n" "bytes256 res" "bytes256 gd" "d < 256"
  shows "length (rs_step gd d res) = n" "bytes256 (rs_step gd d res)"
    "rs_step gd d res = map2 (XOR) (tl res @ [0]) (map (\<lambda>g. gfMul g (d XOR res ! 0)) (tl gd))"
proof -
  have r: "res ! 0 < 256" using assms(1,2,4) by (cases res) simp_all
  have t: "bytes256 (tl res)" "bytes256 (tl gd)" using assms(4,5) by (cases res; cases gd; simp)+
  show e: "rs_step gd d res = map2 (XOR) (tl res @ [0]) (map (\<lambda>g. gfMul g (d XOR res ! 0)) (tl gd))"
  proof (cases "d XOR res ! 0 = 0")
    case True
    have "map2 (XOR) xs (map (\<lambda>g. 0) ys) = xs" if "length xs = length ys" for xs ys :: "nat list"
      using that by (induction xs ys rule: list_induct2) auto
    then show ?thesis using True assms(1-3) by (simp add: rs_step_def Let_def)
  qed (simp add: rs_step_def Let_def zip_map2 comp_def case_prod_beta)
  have "bytes256 (map (\<lambda>g. gfMul g (d XOR res ! 0)) (tl gd))" using t(2) r assms(6) by (simp add: list_all_iff)
  then show "bytes256 (rs_step gd d res)" unfolding e using t(1) by (intro bytes_map2_xor) simp_all
  show "length (rs_step gd d res) = n" unfolding e using assms(1-3) by simp
qed

text \<open>The register holds the remainder: at a root its value is that of the message so far, shifted by \<open>n\<close>.\<close>

lemma rs_register:
  assumes "n \<le> 255" "0 < n" "bytes256 ds"
  defines "res \<equiv> fold (rs_step (rev (rsGenPoly n))) ds (replicate n 0)"
  shows "length res = n \<and> bytes256 res \<and> (\<forall>i<n. gfMul (horner ds (apow i)) (gpow (apow i) n) = horner res (apow i))"
  using assms(3) unfolding res_def
proof (induction ds rule: rev_induct)
  case Nil
  have "horner (replicate k 0) x = 0" for k x by (induction k) (simp_all add: replicate_append_same [symmetric])
  then show ?case by (simp add: list_all_iff)
next
  case (snoc d ds)
  let ?g = "rev (rsGenPoly n)"
  define r where "r = fold (rs_step ?g) ds (replicate n 0)"
  have IH: "length r = n" "bytes256 r" "\<forall>i<n. gfMul (horner ds (apow i)) (gpow (apow i) n) = horner r (apow i)"
    using snoc by (simp_all add: r_def)
  have d: "d < 256" "bytes256 ds" using snoc.prems by simp_all
  have g: "length ?g = Suc n" "bytes256 ?g" using assms(1) by simp_all
  obtain r0 rs where r: "r = r0 # rs" using IH(1) assms(2) by (cases r) auto
  have rb: "r0 < 256" "bytes256 rs" "length rs = n - 1" using IH(1,2) r by simp_all
  note st = rs_step_props [OF IH(1) assms(2) g(1) IH(2) g(2) d(1)]
  have tg: "bytes256 (tl ?g)" "length (tl ?g) = n" using g by (cases ?g; simp)+
  have "gfMul (horner (ds @ [d]) (apow i)) (gpow (apow i) n) = horner (rs_step ?g d r) (apow i)" if i: "i < n" for i
  proof -
    let ?x = "apow i" let ?p = "gpow (apow i) n" let ?f = "d XOR r0"
    have "gfMul (horner (ds @ [d]) ?x) ?p = gfMul (gfMul (horner ds ?x) ?p) ?x XOR gfMul d ?p"
      using d by (simp add: gfMul_xor gfMul_assoc gfMul_comm [of ?x ?p])
    also have "\<dots> = horner (r @ [0]) ?x XOR gfMul d ?p" using IH(3) i by simp
    also have "horner (r @ [0]) ?x = gfMul r0 ?p XOR horner (rs @ [0]) ?x"
      using horner_Cons [of ?x r0 "rs @ [0]"] rb assms(2) by (simp add: r)
    also have "(gfMul r0 ?p XOR horner (rs @ [0]) ?x) XOR gfMul d ?p = horner (rs @ [0]) ?x XOR gfMul ?p ?f"
      using rb d by (simp add: gfMul_comm [of ?p] gfMul_xor ac_simps)
    also have "gfMul ?p ?f = horner (map (\<lambda>g. gfMul g ?f) (tl ?g)) ?x"
      using horner_scale [of ?x ?f "tl ?g"] gen_tail [OF assms(1) i] tg rb d by simp
    also have "horner (rs @ [0]) ?x XOR horner (map (\<lambda>g. gfMul g ?f) (tl ?g)) ?x = horner (rs_step ?g d r) ?x"
      unfolding st(3) using tg rb d assms(2) by (subst horner_xor [symmetric]) (auto simp: r list_all_iff)
    finally show ?thesis .
  qed
  then show ?case using st(1,2) by (simp add: r_def)
qed

lemma rs_length [simp]: "n \<le> 255 \<Longrightarrow> 0 < n \<Longrightarrow> bytes256 ds \<Longrightarrow> length (rsEncode ds n) = n"
  and rs_bytes [simp]: "n \<le> 255 \<Longrightarrow> 0 < n \<Longrightarrow> bytes256 ds \<Longrightarrow> bytes256 (rsEncode ds n)"
  using rs_register [of n ds] by (simp_all add: rsEncode_def)

text \<open>Message and check bytes together vanish at the first \<open>n\<close> powers.\<close>

lemma rs_syndromes:
  assumes "n \<le> 255" "i < n" "bytes256 ds"
  shows "horner (ds @ rsEncode ds n) (apow i) = 0"
proof -
  have "horner (ds @ rsEncode ds n) (apow i) = gfMul (horner ds (apow i)) (gpow (apow i) n) XOR horner (rsEncode ds n) (apow i)"
    using assms horner_append [of "apow i" ds "rsEncode ds n"] by simp
  then show ?thesis using rs_register [of n ds] assms by (simp add: rsEncode_def)
qed

section \<open>Distance\<close>

definition xsum :: "nat list \<Rightarrow> nat" where
  "xsum xs = foldr (XOR) xs 0"

lemma xsum_simps [simp]: "xsum [] = 0" "xsum (x # xs) = x XOR xsum xs"
  by (simp_all add: xsum_def)

lemma xsum_byte: "list_all (\<lambda>x. x < 256) xs \<Longrightarrow> xsum xs < 256"
  by (induction xs) auto

lemma xsum_map_xor: "xsum (map (\<lambda>p. f p XOR g p) ps) = xsum (map f ps) XOR xsum (map g ps)"
  by (induction ps) (simp_all add: ac_simps)

lemma xsum_map_scale: "\<forall>p\<in>set ps. f p < 256 \<Longrightarrow> k < 256 \<Longrightarrow> xsum (map (\<lambda>p. gfMul (f p) k) ps) = gfMul (xsum (map f ps)) k"
  by (induction ps) (simp_all add: gfMul_xor xsum_byte list_all_iff)

text \<open>A sum of powers of distinct elements that vanishes for as many exponents as it has terms has only zero coefficients.\<close>

lemma vandermonde:
  assumes "distinct (map snd ps)" "\<forall>(c, X)\<in>set ps. c < 256 \<and> X < 256" "\<forall>i<length ps. xsum (map (\<lambda>(c, X). gfMul c (gpow X i)) ps) = 0"
  shows "\<forall>(c, X)\<in>set ps. c = 0"
  using assms
proof (induction "length ps" arbitrary: ps)
  case (Suc k)
  obtain c X ps' where ps: "ps = (c, X) # ps'" using Suc.hyps(2) by (cases ps) auto
  let ?S = "\<lambda>i. map (\<lambda>(c, X). gfMul c (gpow X i)) ps'"
  let ?qs = "map (\<lambda>(c, Y). (gfMul c (Y XOR X), Y)) ps'"
  have b: "c < 256" "X < 256" "\<forall>(c, Y)\<in>set ps'. c < 256 \<and> Y < 256" using Suc.prems(2) by (auto simp: ps)
  have s: "xsum (?S i) = gfMul c (gpow X i)" if "i \<le> k" for i
    using Suc.prems(3) [rule_format, of i] Suc.hyps(2) that by (simp add: ps xor_zero_iff)
  have "xsum (map (\<lambda>(c, X). gfMul c (gpow X i)) ?qs) = 0" if i: "i < k" for i
  proof -
    have "map (\<lambda>(c, X). gfMul c (gpow X i)) ?qs = map (\<lambda>p. (case p of (c, Y) \<Rightarrow> gfMul c (gpow Y (Suc i))) XOR gfMul (case p of (c, Y) \<Rightarrow> gfMul c (gpow Y i)) X) ps'"
    proof (rule trans [OF map_map], rule map_cong [OF refl])
      fix q assume "q \<in> set ps'"
      moreover obtain d Y where q: "q = (d, Y)" by fastforce
      ultimately have "d < 256" "Y < 256" using b(3) by auto
      then show "((\<lambda>(c, X). gfMul c (gpow X i)) \<circ> (\<lambda>(c, Y). (gfMul c (Y XOR X), Y))) q =
          (case q of (c, Y) \<Rightarrow> gfMul c (gpow Y (Suc i))) XOR gfMul (case q of (c, Y) \<Rightarrow> gfMul c (gpow Y i)) X"
        using b(2) by (simp add: q gfMul_xor2 gfMul_xor gfMul_assoc gfMul_comm [of Y "gpow Y i"] gfMul_comm [of X "gpow Y i"])
    qed
    then have "xsum (map (\<lambda>(c, X). gfMul c (gpow X i)) ?qs) = xsum (?S (Suc i)) XOR gfMul (xsum (?S i)) X"
      using b by (simp only: xsum_map_xor) (subst xsum_map_scale, auto)
    then show ?thesis using b i s [of i] s [of "Suc i"] by (simp add: gfMul_assoc)
  qed
  moreover have "distinct (map snd ?qs)" using Suc.prems(1) by (simp add: ps comp_def case_prod_beta)
  moreover have "\<forall>(c, Y)\<in>set ?qs. c < 256 \<and> Y < 256" using b by auto
  ultimately have z: "\<forall>(c, Y)\<in>set ?qs. c = 0" using Suc.hyps(1) [of ?qs] Suc.hyps(2) by (simp add: ps del: map_map)
  have rest: "d = 0" if "(d, Y) \<in> set ps'" for d Y
  proof -
    have "Y \<noteq> X" using Suc.prems(1) that by (force simp: ps)
    then have "Y XOR X \<noteq> 0" by (simp add: xor_zero_iff)
    moreover have "gfMul d (Y XOR X) = 0" using z that by force
    moreover have "d < 256" "Y XOR X < 256" using b that by auto
    ultimately show ?thesis using gfMul_eq_0 [of d "Y XOR X"] by simp
  qed
  have "xsum (map (\<lambda>(c, X). gfMul c (gpow X 0)) qs) = 0" if "\<forall>(d, Y)\<in>set qs. d = 0" for qs
    using that by (induction qs) auto
  then have "xsum (?S 0) = 0" using rest by blast
  then have "c = 0" using s [of 0] b by simp
  then show ?case using rest by (auto simp: ps)
qed simp

text \<open>The value of a word at a power, as a sum over its positions.\<close>

lemma gpow_apow: "gpow (apow k) i = apow (k * i)"
proof (induction i)
  case (Suc i)
  have "gfMul (apow (k * i)) (apow k) = gfMul (apow (k * i mod 255)) (apow (k mod 255))" by (simp add: apow_mod)
  also have "\<dots> = apow (k * i mod 255 + k mod 255)" by (rule gfMul_powers) simp_all
  also have "\<dots> = apow (k * i + k)" by (metis apow_mod mod_add_eq)
  finally show ?case using Suc by (simp add: add.commute)
qed simp

definition locators :: "nat \<Rightarrow> nat list" where
  "locators n = map apow (rev [0..<n])"

lemma horner_sum: "bytes256 es \<Longrightarrow> horner es (apow i) = xsum (map (\<lambda>(c, X). gfMul c (gpow X i)) (zip es (locators (length es))))"
proof (induction es)
  case (Cons e es)
  then show ?case by (simp add: horner_Cons locators_def gpow_apow mult.commute)
qed simp

lemma zero_word:
  assumes "bytes256 es" "length es \<le> 255" "\<forall>i<n. horner es (apow i) = 0" "length (filter (\<lambda>e. e \<noteq> 0) es) \<le> n"
  shows "\<forall>e\<in>set es. e = 0"
proof -
  let ?ps = "filter (\<lambda>(c, X). c \<noteq> 0) (zip es (locators (length es)))"
  have skip: "xsum (map (\<lambda>(c, X). gfMul c (gpow X i)) (filter (\<lambda>(c, X). c \<noteq> 0) ps)) = xsum (map (\<lambda>(c, X). gfMul c (gpow X i)) ps)" for i ps
    by (induction ps) auto
  have len: "length ls = length es \<Longrightarrow> map fst (filter (\<lambda>(c, X). c \<noteq> 0) (zip es ls)) = filter (\<lambda>e. e \<noteq> 0) es" for ls :: "nat list"
    by (induction ls es rule: list_induct2) auto
  have "length ?ps \<le> n" using len [of "locators (length es)"] assms(4) by (metis length_map length_rev length_upt locators_def minus_nat.diff_0)
  then have "\<forall>i<length ?ps. xsum (map (\<lambda>(c, X). gfMul c (gpow X i)) ?ps) = 0"
    using assms(3) unfolding skip horner_sum [OF assms(1)] by simp
  moreover have "distinct (map snd ?ps)"
  proof -
    have "distinct (locators (length es))" using assms(2) apow_inj by (auto simp: locators_def distinct_map inj_on_def)
    then have "distinct (map snd (zip es (locators (length es))))" by (simp add: locators_def)
    then show ?thesis by (simp add: distinct_map_filter)
  qed
  moreover have "\<forall>(c, X)\<in>set ?ps. c < 256 \<and> X < 256"
  proof
    fix q assume q: "q \<in> set ?ps"
    obtain c X where e: "q = (c, X)" by fastforce
    then have "(c, X) \<in> set (zip es (locators (length es)))" using q by simp
    then have "c \<in> set es" "X \<in> set (locators (length es))" using set_zip_leftD set_zip_rightD by fast+
    then show "case q of (c, X) \<Rightarrow> c < 256 \<and> X < 256" using assms(1) e by (auto simp: list_all_iff locators_def)
  qed
  ultimately have "\<forall>(c, X)\<in>set ?ps. c = 0" by (intro vandermonde)
  then have "?ps = []" by (auto simp: filter_empty_conv)
  then have "filter (\<lambda>e. e \<noteq> 0) es = []" using len [of "locators (length es)"] by (simp add: locators_def)
  then show ?thesis by (auto simp: filter_empty_conv)
qed

text \<open>The number of places at which two words differ.\<close>

definition hamming :: "nat list \<Rightarrow> nat list \<Rightarrow> nat" where
  "hamming xs ys = length (filter (\<lambda>(x, y). x \<noteq> y) (zip xs ys))"

lemma hamming_Cons [simp]: "hamming (x # xs) (y # ys) = (if x = y then 0 else 1) + hamming xs ys"
  by (simp add: hamming_def)

lemma hamming_triangle: "length xs = length ys \<Longrightarrow> length ys = length zs \<Longrightarrow> hamming xs zs \<le> hamming xs ys + hamming ys zs"
  by (induction xs ys zs rule: list_induct3) (auto simp: hamming_def)

lemma hamming_sym: "length xs = length ys \<Longrightarrow> hamming xs ys = hamming ys xs"
  by (induction xs ys rule: list_induct2) (auto simp: hamming_def)

lemma hamming_xor: "length xs = length ys \<Longrightarrow> hamming xs ys = length (filter (\<lambda>e. e \<noteq> 0) (map2 (XOR) xs ys))"
  by (induction xs ys rule: list_induct2) (auto simp: hamming_def xor_zero_iff)

lemma xor_all_zero: "length xs = length ys \<Longrightarrow> \<forall>e\<in>set (map2 (XOR) xs ys). e = 0 \<Longrightarrow> xs = ys" for xs ys :: "nat list"
  proof (induction xs ys rule: list_induct2)
  case (Cons x xs y ys)
  then show ?case using xor_zero_iff [of x y] by simp
qed simp

lemma rs_distance:
  assumes "bytes256 ds" "bytes256 es" "length ds = length es" "0 < n" "length ds + n \<le> 255" "hamming (ds @ rsEncode ds n) (es @ rsEncode es n) \<le> n"
  shows "ds = es"
proof -
  let ?c = "ds @ rsEncode ds n" let ?d = "es @ rsEncode es n"
  have b: "bytes256 ?c" "bytes256 ?d" "length ?c = length ?d" "length ?c \<le> 255" using assms by simp_all
  have "\<forall>i<n. horner (map2 (XOR) ?c ?d) (apow i) = 0"
    using b assms rs_syndromes horner_xor [OF b(3) _ b(1,2)] by simp
  moreover have "bytes256 (map2 (XOR) ?c ?d)" "length (map2 (XOR) ?c ?d) \<le> 255" using bytes_map2_xor [OF b(1,2)] b(3,4) by simp_all
  moreover have "length (filter (\<lambda>e. e \<noteq> 0) (map2 (XOR) ?c ?d)) \<le> n" using assms(6) by (simp only: hamming_xor [OF b(3)])
  ultimately have "\<forall>e\<in>set (map2 (XOR) ?c ?d). e = 0" by (intro zero_word)
  then have "?c = ?d" using xor_all_zero [OF b(3)] by blast
  then show ?thesis using assms(3) by simp
qed

text \<open>A received word has at most one message whose code word is within half of the check bytes.\<close>

lemma rs_correctable:
  assumes "bytes256 ds" "bytes256 es" "length ds = length es" "0 < n" "length ds + n \<le> 255" "length w = length ds + n"
    and "2 * hamming (ds @ rsEncode ds n) w \<le> n" "2 * hamming (es @ rsEncode es n) w \<le> n"
  shows "ds = es"
proof (rule rs_distance [OF assms(1-5)])
  have "length (ds @ rsEncode ds n) = length w" "length (es @ rsEncode es n) = length w" using assms by simp_all
  then show "hamming (ds @ rsEncode ds n) (es @ rsEncode es n) \<le> n"
    using hamming_triangle [of "ds @ rsEncode ds n" w "es @ rsEncode es n"] hamming_sym [of "es @ rsEncode es n" w] assms(7,8) by linarith
qed

end
