(* ===== verification/Qr_Code.thy ===== *)
theory Qr_Code
  imports Reed_Solomon
begin

text \<open>
  The QR encoder of \<^verbatim>\<open>services/einvoicing/qr.go\<close>: bytes, level M, versions 1 to 6, mask 0. A payload becomes
  bits, bytes, blocks with check bytes, interleaved code words and a matrix of modules. A matrix under
  construction is a pair of functions on (row, column): its modules and the places reserved for the
  patterns of the symbol. \<open>qr_decode\<close> and \<open>qr_scan\<close> are a reference reader; it shares the tables of the versions and the
  path through the symbol with the encoder, and states the reserved places in closed form.
\<close>

unbundle bit_operations_syntax

section \<open>Data\<close>

definition qrRSGroups :: "nat \<Rightarrow> (nat \<times> nat \<times> nat) list" where
  "qrRSGroups v =
     (if v = 1 then [(1, 26, 16)] else if v = 2 then [(1, 44, 28)] else if v = 3 then [(1, 70, 44)]
      else if v = 4 then [(2, 50, 32)] else if v = 5 then [(2, 67, 43)] else if v = 6 then [(4, 43, 27)] else [])"

definition qrAlign :: "nat \<Rightarrow> nat list" where
  "qrAlign v =
     (if v = 2 then [6, 18] else if v = 3 then [6, 22] else if v = 4 then [6, 26]
      else if v = 5 then [6, 30] else if v = 6 then [6, 34] else [])"

definition qrDataCodewords :: "nat \<Rightarrow> nat" where
  "qrDataCodewords v = sum_list (map (\<lambda>(cnt, tot, dlen). cnt * dlen) (qrRSGroups v))"

text \<open>The \<open>n\<close> lowest bits of \<open>x\<close>, highest first.\<close>

definition put :: "nat \<Rightarrow> nat \<Rightarrow> nat list" where
  "put x n = map (\<lambda>i. drop_bit i x AND 1) (rev [0..<n])"

definition qr_pads :: "nat list" where
  "qr_pads = [236, 17]"

text \<open>\<open>missing\<close> bits are still to be filled.\<close>

fun qr_fill :: "nat \<Rightarrow> nat \<Rightarrow> nat list" where
  "qr_fill i missing = (if missing = 0 then [] else put (qr_pads ! (i mod 2)) 8 @ qr_fill (Suc i) (missing - 8))"

declare qr_fill.simps [simp del]

definition qr_bits :: "nat \<Rightarrow> nat list \<Rightarrow> nat list" where
  "qr_bits dcw payload =
     (let b0 = put 4 4 @ put (length payload) 8 @ concat (map (\<lambda>b. put b 8) payload);
          rem = dcw * 8 - length b0;
          b1 = b0 @ (if rem > 4 then put 0 4 else put 0 rem);
          b2 = b1 @ replicate ((8 - length b1 mod 8) mod 8) 0
      in b2 @ qr_fill 0 (dcw * 8 - length b2))"

definition pack_byte :: "nat list \<Rightarrow> nat \<Rightarrow> nat" where
  "pack_byte bits j = fold (\<lambda>k d. d OR push_bit (7 - k) (bits ! (j * 8 + k))) [0..<8] 0"

fun qr_blocks :: "(nat \<times> nat \<times> nat) list \<Rightarrow> nat list \<Rightarrow> (nat list \<times> nat) list" where
  "qr_blocks [] data = []"
| "qr_blocks ((cnt, tot, dlen) # gs) data =
     map (\<lambda>i. (take dlen (drop (i * dlen) data), tot - dlen)) [0..<cnt] @ qr_blocks gs (drop (cnt * dlen) data)"

definition interleave_data :: "(nat list \<times> nat) list \<Rightarrow> nat list" where
  "interleave_data blocks =
     (let maxD = fold (\<lambda>b m. if length (fst b) > m then length (fst b) else m) blocks 0
      in concat (map (\<lambda>j. concat (map (\<lambda>b. if j < length (fst b) then [fst b ! j] else []) blocks)) [0..<maxD]))"

definition interleave_checks :: "(nat list \<times> nat) list \<Rightarrow> nat list" where
  "interleave_checks blocks =
     (let ecs = map (\<lambda>b. rsEncode (fst b) (snd b)) blocks;
          maxE = fold (\<lambda>b m. if snd b > m then snd b else m) blocks 0
      in concat (map (\<lambda>j. map (\<lambda>e. e ! j) ecs) [0..<maxE]))"

definition qr_version :: "nat \<Rightarrow> nat option" where
  "qr_version len = find (\<lambda>v. 2 + len \<le> qrDataCodewords v) [1..<7]"

definition qr_codewords :: "nat \<Rightarrow> nat list \<Rightarrow> nat list" where
  "qr_codewords v payload =
     (let dcw = qrDataCodewords v;
          bits = qr_bits dcw payload;
          blocks = qr_blocks (qrRSGroups v) (map (pack_byte bits) [0..<dcw])
      in interleave_data blocks @ interleave_checks blocks)"

definition qrEncodeData :: "nat list \<Rightarrow> string + nat \<times> nat list" where
  "qrEncodeData payload =
     (case qr_version (length payload) of
        None \<Rightarrow> Inl (''payload too long ('' @ show_nat (length payload) @ '' bytes > 106)'')
      | Some v \<Rightarrow> Inr (v, qr_codewords v payload))"

section \<open>The matrix\<close>

type_synonym place = "nat \<times> nat"

type_synonym grid = "(place \<Rightarrow> bool) \<times> (place \<Rightarrow> bool)" \<comment> \<open>modules, reserved\<close>

definition setF :: "place \<times> bool \<Rightarrow> grid \<Rightarrow> grid" where
  "setF pv g = (case pv of (p, v) \<Rightarrow> ((fst g)(p := v), (snd g)(p := True)))"

definition finder_on :: "int \<Rightarrow> int \<Rightarrow> bool" where
  "finder_on dr dc \<longleftrightarrow> 0 \<le> dr \<and> dr \<le> 6 \<and> 0 \<le> dc \<and> dc \<le> 6 \<and>
     (dr = 0 \<or> dr = 6 \<or> dc = 0 \<or> dc = 6 \<or> 2 \<le> dr \<and> dr \<le> 4 \<and> 2 \<le> dc \<and> dc \<le> 4)"

definition finder_cells :: "nat \<Rightarrow> nat \<Rightarrow> nat \<Rightarrow> (place \<times> bool) list" where
  "finder_cells n r c =
     [((nat (int r + dr), nat (int c + dc)), finder_on dr dc). dr \<leftarrow> [-1..7], dc \<leftarrow> [-1..7],
       0 \<le> int r + dr \<and> int r + dr < int n \<and> 0 \<le> int c + dc \<and> int c + dc < int n]"

definition timing_cells :: "nat \<Rightarrow> (place \<times> bool) list" where
  "timing_cells n = concat (map (\<lambda>i. [((6, i), even i), ((i, 6), even i)]) [8..<n - 8])"

definition align_cells :: "nat \<Rightarrow> nat \<Rightarrow> (place \<times> bool) list" where
  "align_cells r c =
     [((nat (int r + dr), nat (int c + dc)), max \<bar>dr\<bar> \<bar>dc\<bar> \<noteq> 1). dr \<leftarrow> [-2..2], dc \<leftarrow> [-2..2]]"

definition align_one :: "place \<Rightarrow> grid \<Rightarrow> grid" where
  "align_one rc g = (if snd g rc then g else fold setF (align_cells (fst rc) (snd rc)) g)"

definition reserved_cells :: "nat \<Rightarrow> place list" where
  "reserved_cells n =
     concat (map (\<lambda>i. [(8, i), (i, 8)]) [0..<9]) @ concat (map (\<lambda>i. [(8, n - 1 - i), (n - 1 - i, 8)]) [0..<8])"

definition reserve :: "place \<Rightarrow> grid \<Rightarrow> grid" where
  "reserve p g = (fst g, (snd g)(p := True))"

text \<open>Everything that is drawn before the data.\<close>

definition qr_patterns :: "nat \<Rightarrow> nat \<Rightarrow> grid" where
  "qr_patterns v n =
     (let g1 = fold setF (finder_cells n 0 0 @ finder_cells n 0 (n - 7) @ finder_cells n (n - 7) 0) ((\<lambda>_. False), (\<lambda>_. False));
          g2 = fold setF (timing_cells n) g1;
          g3 = fold align_one (List.product (qrAlign v) (qrAlign v)) g2;
          g4 = setF ((n - 8, 8), True) g3
      in fold reserve (reserved_cells n) g4)"

text \<open>The right columns of the pairs that are filled, from right to left.\<close>

fun qr_cols :: "nat \<Rightarrow> nat list" where
  "qr_cols col = (if col = 0 then [] else (let c = (if col = 6 then 5 else col) in c # (if c < 2 then [] else qr_cols (c - 2))))"

declare qr_cols.simps [simp del]

fun zigzag :: "nat \<Rightarrow> bool \<Rightarrow> nat list \<Rightarrow> place list" where
  "zigzag n upward [] = []"
| "zigzag n upward (col # cols) =
     concat (map (\<lambda>k. let r = (if upward then n - 1 - k else k) in [(r, col), (r, col - 1)]) [0..<n]) @ zigzag n (\<not> upward) cols"

text \<open>Bits that are left are taken as 0.\<close>

fun place_bits :: "(place \<Rightarrow> bool) \<Rightarrow> place list \<Rightarrow> nat list \<Rightarrow> (place \<Rightarrow> bool) \<Rightarrow> place \<Rightarrow> bool" where
  "place_bits fn [] bits m = m"
| "place_bits fn (p # ps) bits m =
     (if fn p then place_bits fn ps bits m
      else (let bit = (case bits of [] \<Rightarrow> 0 | b # _ \<Rightarrow> b);
                bit1 = (if even (fst p + snd p) then bit XOR 1 else bit)
            in place_bits fn ps (tl bits) (m(p := (bit1 = 1)))))"

definition format_places :: "nat \<Rightarrow> place list \<times> place list" where
  "format_places n =
     ([(8, 0), (8, 1), (8, 2), (8, 3), (8, 4), (8, 5), (8, 7), (8, 8), (7, 8), (5, 8), (4, 8), (3, 8), (2, 8), (1, 8), (0, 8)],
      [(n - 1, 8), (n - 2, 8), (n - 3, 8), (n - 4, 8), (n - 5, 8), (n - 6, 8), (n - 7, 8),
       (8, n - 8), (8, n - 7), (8, n - 6), (8, n - 5), (8, n - 4), (8, n - 3), (8, n - 2), (8, n - 1)])"

definition format_bits :: "nat list" where
  "format_bits = put 21522 15"

definition draw_format :: "place list \<Rightarrow> (place \<Rightarrow> bool) \<Rightarrow> place \<Rightarrow> bool" where
  "draw_format ps m = fold (\<lambda>(p, b) m. m(p := (b = 1))) (zip ps format_bits) m"

definition qr_modules :: "nat \<Rightarrow> nat list \<Rightarrow> place \<Rightarrow> bool" where
  "qr_modules v codewords =
     (let n = 17 + 4 * v;
          g = qr_patterns v n;
          m = place_bits (snd g) (zigzag n True (qr_cols (n - 1))) (concat (map (\<lambda>b. put b 8) codewords)) (fst g)
      in draw_format (snd (format_places n)) (draw_format (fst (format_places n)) m))"

definition QRMatrix :: "nat list \<Rightarrow> string + bool list list" where
  "QRMatrix payload =
     (case qrEncodeData payload of
        Inl e \<Rightarrow> Inl e
      | Inr (v, codewords) \<Rightarrow>
          (let n = 17 + 4 * v; m = qr_modules v codewords
           in Inr (map (\<lambda>r. map (\<lambda>c. m (r, c)) [0..<n]) [0..<n])))"

definition svg_rect :: "nat \<Rightarrow> nat \<Rightarrow> nat \<Rightarrow> string" where
  "svg_rect scale r c =
     ''<rect x=\"'' @ show_nat ((c + 2) * scale) @ ''\" y=\"'' @ show_nat ((r + 2) * scale) @
     ''\" width=\"'' @ show_nat scale @ ''\" height=\"'' @ show_nat scale @ ''\"/>''"

definition QRSVG :: "bool list list \<Rightarrow> nat \<Rightarrow> string" where
  "QRSVG m scale =
     (let n = length m; size = show_nat ((n + 4) * scale)
      in ''<svg xmlns=\"http://www.w3.org/2000/svg\" viewBox=\"0 0 '' @ size @ '' '' @ size @ ''\" width=\"'' @ size @ ''\" height=\"'' @ size @
         ''\"><rect width=\"'' @ size @ ''\" height=\"'' @ size @ ''\" fill=\"#fff\"/><g fill=\"#000\">'' @
         concat (map (\<lambda>r. concat (map (\<lambda>c. if m ! r ! c then svg_rect scale r c else []) [0..<n])) [0..<n]) @ ''</g></svg>'')"

section \<open>A reference reader\<close>

definition bits_val :: "nat list \<Rightarrow> nat" where
  "bits_val bs = foldl (\<lambda>a b. 2 * a + b) 0 bs"

text \<open>Blocks, code words and data code words per block of a version of level M.\<close>

definition qr_layout :: "nat \<Rightarrow> nat \<times> nat \<times> nat" where
  "qr_layout v = hd (qrRSGroups v)"

definition read_block :: "nat \<Rightarrow> nat list \<Rightarrow> nat \<Rightarrow> nat list" where
  "read_block v cws i = (case qr_layout v of (cnt, tot, dlen) \<Rightarrow> map (\<lambda>j. cws ! (j * cnt + i)) [0..<tot])"

definition read_data :: "nat \<Rightarrow> nat list \<Rightarrow> nat list" where
  "read_data v cws = (case qr_layout v of (cnt, tot, dlen) \<Rightarrow> concat (map (\<lambda>i. take dlen (read_block v cws i)) [0..<cnt]))"

definition read_payload :: "nat list \<Rightarrow> nat list option" where
  "read_payload data =
     (let bits = concat (map (\<lambda>b. put b 8) data); len = bits_val (take 8 (drop 4 bits))
      in if take 4 bits = [0, 1, 0, 0] \<and> 12 + 8 * len \<le> length bits
         then Some (map (\<lambda>i. bits_val (take 8 (drop (12 + 8 * i) bits))) [0..<len]) else None)"

definition qr_decode :: "nat \<Rightarrow> nat list \<Rightarrow> nat list option" where
  "qr_decode v cws = read_payload (read_data v cws)"

text \<open>The places of a symbol that do not carry data: finders with separators and format areas in three corners, both timing lines, and the alignment pattern.\<close>

definition function_module :: "nat \<Rightarrow> place \<Rightarrow> bool" where
  "function_module v p =
     (case p of (r, c) \<Rightarrow>
        (let n = 17 + 4 * v
         in r < 9 \<and> c < 9 \<or> r < 9 \<and> n \<le> c + 8 \<or> n \<le> r + 8 \<and> c < 9 \<or> r = 6 \<or> c = 6 \<or>
            2 \<le> v \<and> n \<le> r + 9 \<and> r + 5 \<le> n \<and> n \<le> c + 9 \<and> c + 5 \<le> n))"

fun chunks8 :: "nat list \<Rightarrow> nat list" where
  "chunks8 bs = (if length bs < 8 then [] else bits_val (take 8 bs) # chunks8 (drop 8 bs))"

declare chunks8.simps [simp del]

definition qr_scan :: "bool list list \<Rightarrow> nat list option" where
  "qr_scan m =
     (let n = length m; v = (n - 17) div 4;
          free = filter (\<lambda>p. \<not> function_module v p) (zigzag n True (qr_cols (n - 1)));
          bits = map (\<lambda>(r, c). of_bool (m ! r ! c \<noteq> even (r + c))) free
      in qr_decode v (chunks8 bits))"

end
