(* ===== verification/Einv_Qr.thy ===== *)
theory Einv_Qr
  imports Einv_Handlers Qr_Code
begin

text \<open>
  The signed QR payload of an invoice (\<^verbatim>\<open>services/einvoicing/qr.go\<close>) and the handler that serves it
  (\<^verbatim>\<open>handleGetQR\<close> of \<^verbatim>\<open>main.go\<close>). HMAC-SHA256 is the parameter \<open>hmac\<close> (key and text to bytes), a key provider
  a record of its mode and its signing operation, and \<open>utc\<close> prints a time as \<^verbatim>\<open>2006-01-02T15:04:05Z\<close>.
\<close>

section \<open>Signing\<close>

definition qrDevKey :: string where
  "qrDevKey = ''meridian-dev-qr-key''"

definition qrKey :: "string \<Rightarrow> string" where
  "qrKey QR_HMAC_KEY = (if QR_HMAC_KEY \<noteq> '''' then QR_HMAC_KEY else qrDevKey)"

definition validateQRKey :: "string \<Rightarrow> string \<Rightarrow> string option" where
  "validateQRKey AUTH_MODE QR_HMAC_KEY =
     (if AUTH_MODE \<noteq> '''' \<and> AUTH_MODE \<noteq> ''dev'' \<and> QR_HMAC_KEY = ''''
      then Some (''QR_HMAC_KEY is required when AUTH_MODE='' @ AUTH_MODE @ '' (no silent dev-key default)'') else None)"

record SignerProvider =
  pvMode :: string
  pvSign :: "string \<Rightarrow> string \<Rightarrow> nat list option"

type_synonym qr_env = "(string \<Rightarrow> string \<Rightarrow> nat list) \<times> string" \<comment> \<open>HMAC, \<^verbatim>\<open>QR_HMAC_KEY\<close>\<close>

definition qrMACCtx :: "qr_env \<Rightarrow> SignerProvider option \<Rightarrow> string \<Rightarrow> nat list option" where
  "qrMACCtx env prov payload =
     (case prov of
        Some p \<Rightarrow> if pvMode p \<noteq> ''software'' then pvSign p ''qr-hmac'' payload else Some (fst env (qrKey (snd env)) payload)
      | None \<Rightarrow> Some (fst env (qrKey (snd env)) payload))"

definition qr_stamp :: "(int option \<Rightarrow> string) \<Rightarrow> CanonicalInvoice \<Rightarrow> string" where
  "qr_stamp utc v = filter (\<lambda>c. c \<notin> set ''-:TZ'') (utc (UpdatedAt v))"

definition qr_text :: "(int option \<Rightarrow> string) \<Rightarrow> CanonicalInvoice \<Rightarrow> string" where
  "qr_text utc v = ''NRS1|'' @ IRN v @ ''|'' @ ptTIN (Supplier v) @ ''|'' @ show_int (PayableKobo v) @ ''|'' @ qr_stamp utc v"

text \<open>The first twelve digits; slicing a shorter text panics.\<close>

datatype qr_error = SignError | SlicePanic

definition short_mac :: "nat list \<Rightarrow> qr_error + string" where
  "short_mac mac = (let h = hex_encode mac in if length h < 12 then Inl SlicePanic else Inr (take 12 h))"

definition QRPayloadECtx :: "qr_env \<Rightarrow> SignerProvider option \<Rightarrow> (int option \<Rightarrow> string) \<Rightarrow> CanonicalInvoice \<Rightarrow> qr_error + string \<times> string" where
  "QRPayloadECtx env prov utc v =
     (let payload = qr_text utc v
      in case qrMACCtx env prov payload of
           None \<Rightarrow> Inl SignError
         | Some mac \<Rightarrow> (case short_mac mac of Inl e \<Rightarrow> Inl e | Inr sig \<Rightarrow> Inr (payload, sig)))"

definition VerifyQRPayloadE :: "qr_env \<Rightarrow> SignerProvider option \<Rightarrow> string \<Rightarrow> string \<Rightarrow> qr_error + bool" where
  "VerifyQRPayloadE env prov payload signature =
     (case qrMACCtx env prov payload of
        None \<Rightarrow> Inl SignError
      | Some mac \<Rightarrow> (case short_mac mac of Inl e \<Rightarrow> Inl e | Inr sig \<Rightarrow> Inr (sig = signature)))"

definition QRPayload :: "qr_env \<Rightarrow> (int option \<Rightarrow> string) \<Rightarrow> CanonicalInvoice \<Rightarrow> qr_error + string \<times> string" where
  "QRPayload env utc v =
     (case QRPayloadECtx env None utc v of Inl SignError \<Rightarrow> Inr ('''', '''') | r \<Rightarrow> r)"

section \<open>Serving\<close>

record qr_reply =
  qrInvoiceID :: string
  qrIRN :: string
  qrPayload :: string
  qrSignature :: string
  qrSvg :: string

definition bytes_of :: "string \<Rightarrow> nat list" where
  "bytes_of s = map of_char s"

text \<open>The last status stands for a panic, which the server answers by closing the connection.\<close>

definition handleGetQR :: "qr_env \<Rightarrow> SignerProvider option \<Rightarrow> (int option \<Rightarrow> string) \<Rightarrow> Claims option \<Rightarrow> string \<Rightarrow> server \<Rightarrow> qr_reply response" where
  "handleGetQR env prov utc ctx i rs =
     (case GetInvoice i (wsStore (snd rs)) of
        None \<Rightarrow> Problem 404 ''not found''
      | Some v \<Rightarrow>
          (case tenantGuard ctx v of
             Some p \<Rightarrow> p
           | None \<Rightarrow>
               if IRN v = '''' then Problem 409 ''not cleared''
               else (case QRPayloadECtx env prov utc v of
                       Inl SignError \<Rightarrow> Problem 500 ''qr signing error''
                     | Inl SlicePanic \<Rightarrow> Problem 0 ''panic''
                     | Inr (payload, sig) \<Rightarrow>
                         (case QRMatrix (bytes_of (payload @ ''|'' @ sig)) of
                            Inl _ \<Rightarrow> Problem 500 ''qr error''
                          | Inr m \<Rightarrow>
                              Reply 200 \<lparr>qrInvoiceID = ciID v, qrIRN = IRN v, qrPayload = payload @ ''|'' @ sig, qrSignature = sig, qrSvg = QRSVG m 4\<rparr>))))"

text \<open>The part \<^verbatim>\<open>qr\<close> of \<^verbatim>\<open>nrsResponse\<close>: signed without the key provider, left out when the text is too long.\<close>

definition nrs_qr :: "qr_env \<Rightarrow> (int option \<Rightarrow> string) \<Rightarrow> CanonicalInvoice \<Rightarrow> qr_error + (string \<times> string \<times> string) option" where
  "nrs_qr env utc v =
     (if IRN v = '''' then Inr None
      else (case QRPayload env utc v of
              Inl e \<Rightarrow> Inl e
            | Inr (payload, sig) \<Rightarrow>
                (case QRMatrix (bytes_of (payload @ ''|'' @ sig)) of
                   Inl _ \<Rightarrow> Inr None
                 | Inr m \<Rightarrow> Inr (Some (payload @ ''|'' @ sig, sig, QRSVG m 4)))))"

end
