(* ===== verification/Qr_Data.thy ===== *)
theory Qr_Data
  imports Qr_Code
begin

text \<open>
  What the encoder does with the data of a symbol: bits and bytes are inverse, the payload is a part of
  the bits, and each block of the interleaved code words is a Reed-Solomon code word.
\<close>

unbundle bit_operations_syntax

section \<open>Bits\<close>

definition are_bits :: "nat list \<Rightarrow> bool" where
  "are_bits bs \<longleftrightarrow> list_all (\<lambda>b. b < 2) bs"

lemma are_bits_simps [simp]: "are_bits []" "are_bits (b # bs) \<longleftrightarrow> b < 2 \<and> are_bits bs" "are_bits (bs @ cs) \<longleftrightarrow> are_bits bs \<and> are_bits cs"
  by (simp_all add: are_bits_def)

lemma and_1_mod: "x AND 1 = x mod 2" for x :: nat
  by (simp add: and_one_eq)

lemma put_0 [simp]: "put x 0 = []"
  by (simp add: put_def)

lemma put_Suc: "put x (Suc n) = put (x div 2) n @ [x mod 2]"
proof -
  have "rev [0..<Suc n] = map Suc (rev [0..<n]) @ [0]" by (simp only: rev_map [symmetric] map_Suc_upt upt_conv_Cons [of 0 "Suc n"] zero_less_Suc rev.simps One_nat_def simp_thms)
  then show ?thesis by (simp add: put_def drop_bit_Suc and_1_mod comp_def del: upt_Suc)
qed

lemma length_put [simp]: "length (put x n) = n"
  by (simp add: put_def)

lemma put_are_bits [simp]: "are_bits (put x n)"
  by (induction n arbitrary: x) (simp_all add: put_Suc)

lemma bits_val_Nil [simp]: "bits_val [] = 0"
  by (simp add: bits_val_def)

lemma bits_val_snoc [simp]: "bits_val (bs @ [b]) = 2 * bits_val bs + b"
  by (simp add: bits_val_def)

lemma bits_val_put: "bits_val (put x n) = x mod 2 ^ n"
proof (induction n arbitrary: x)
  case (Suc n)
  have "x mod 2 ^ Suc n = 2 * (x div 2 mod 2 ^ n) + x mod 2" by (simp add: mod_mult2_eq)
  then show ?case using Suc by (simp add: put_Suc)
qed simp

lemma put_bits_val: "are_bits bs \<Longrightarrow> put (bits_val bs) (length bs) = bs"
proof (induction bs rule: rev_induct)
  case (snoc b bs)
  then show ?case by (simp add: put_Suc)
qed simp

lemma bits_val_bound: "are_bits bs \<Longrightarrow> bits_val bs < 2 ^ length bs"
  by (induction bs rule: rev_induct) auto

text \<open>The loop that collects a byte computes the value of its eight bits.\<close>

lemma or_low: "b < 2 \<Longrightarrow> (2 * a) OR b = 2 * a + b" for a b :: nat
proof -
  assume "b < 2"
  then consider "b = 0" | "b = 1" by linarith
  then show ?thesis using or_one_eq [of "2 * a"] by cases simp_all
qed

lemma pack_bits: "are_bits bs \<Longrightarrow> n = length bs \<Longrightarrow> fold (\<lambda>k d. d OR push_bit (n - 1 - k) (bs ! k)) [0..<n] 0 = bits_val bs"
proof (induction bs arbitrary: n rule: rev_induct)
  case (snoc b bs)
  have "fold (\<lambda>k d. d OR push_bit (Suc m - 1 - k) ((bs @ [b]) ! k)) [0..<i] 0 =
        push_bit 1 (fold (\<lambda>k d. d OR push_bit (m - 1 - k) (bs ! k)) [0..<i] 0)" if "i \<le> m" "m = length bs" for i m
    using that
  proof (induction i)
    case (Suc i)
    have "push_bit (m - i) x = push_bit 1 (push_bit (m - Suc i) x)" for x :: nat using Suc.prems(1) by (simp add: push_bit_push_bit Suc_diff_Suc del: push_bit_Suc)
    then show ?case using Suc by (simp add: push_bit_or nth_append)
  qed simp
  from this [of "length bs" "length bs"] show ?case using snoc or_low [of b "bits_val bs"] by (simp add: nth_append mult.commute)
qed simp

lemma pack_byte_val: "are_bits bits \<Longrightarrow> j * 8 + 8 \<le> length bits \<Longrightarrow> pack_byte bits j = bits_val (take 8 (drop (j * 8) bits))"
proof -
  assume a: "are_bits bits" "j * 8 + 8 \<le> length bits"
  let ?bs = "take 8 (drop (j * 8) bits)"
  have "are_bits ?bs" using a(1) by (auto simp: are_bits_def list_all_iff dest!: in_set_takeD in_set_dropD)
  moreover have "?bs ! k = bits ! (j * 8 + k)" if "k < 8" for k using a(2) that by simp
  then have "pack_byte bits j = fold (\<lambda>k d. d OR push_bit (8 - 1 - k) (?bs ! k)) [0..<8] 0"
    unfolding pack_byte_def by (intro fold_cong) simp_all
  ultimately show ?thesis using pack_bits [of ?bs 8] a(2) by simp
qed

lemma bytes_of_bits:
  assumes "are_bits bits" "length bits = d * 8"
  shows "concat (map (\<lambda>b. put b 8) (map (pack_byte bits) [0..<d])) = bits" "bytes256 (map (pack_byte bits) [0..<d])"
proof -
  have chunk: "are_bits (take 8 (drop (j * 8) bits)) \<and> length (take 8 (drop (j * 8) bits)) = 8" if "j < d" for j
    using assms that by (auto simp: are_bits_def list_all_iff dest!: in_set_takeD in_set_dropD)
  have e: "pack_byte bits j = bits_val (take 8 (drop (j * 8) bits))" if "j < d" for j using pack_byte_val [of bits j] assms that by simp
  have "put (pack_byte bits j) 8 = take 8 (drop (j * 8) bits)" if "j < d" for j
    using put_bits_val [of "take 8 (drop (j * 8) bits)"] chunk [OF that] e [OF that] by simp
  then have m: "map (\<lambda>j. put (pack_byte bits j) 8) [0..<d] = map (\<lambda>j. take 8 (drop (j * 8) bits)) [0..<d]" by simp
  have "concat (map (\<lambda>j. take 8 (drop (j * 8) bits)) [0..<k]) = take (k * 8) bits" for k
  proof (induction k)
    case (Suc k)
    then show ?case using take_add [of "k * 8" 8 bits] by (simp add: add.commute)
  qed simp
  from this [of d] show "concat (map (\<lambda>b. put b 8) (map (pack_byte bits) [0..<d])) = bits" unfolding map_map comp_def m using assms(2) by simp
  show "bytes256 (map (pack_byte bits) [0..<d])"
    using bits_val_bound [of "take 8 (drop (_ * 8) bits)"] chunk e by (force simp: list_all_iff)
qed

section \<open>The bits of a payload\<close>

lemma qr_fill_props: "8 dvd m \<Longrightarrow> length (qr_fill i m) = m \<and> are_bits (qr_fill i m)"
proof (induction i m rule: qr_fill.induct)
  case (1 i m)
  show ?case
  proof (cases "m = 0")
    case False
    then have "8 \<le> m" using 1(2) by (auto dest: dvd_imp_le)
    moreover then have "8 dvd m - 8" using 1(2) by simp
    ultimately show ?thesis using 1(1) [OF False] False by (simp add: qr_fill.simps [of i m])
  qed (simp add: qr_fill.simps)
qed

definition qr_head :: "nat list \<Rightarrow> nat list" where
  "qr_head payload = put 4 4 @ put (length payload) 8 @ concat (map (\<lambda>b. put b 8) payload)"

lemma qr_head_props: "length (qr_head payload) = 12 + 8 * length payload" "are_bits (qr_head payload)"
proof -
  have "length (concat (map (\<lambda>b. put b 8) bs)) = 8 * length bs \<and> are_bits (concat (map (\<lambda>b. put b 8) bs))" for bs by (induction bs) auto
  then show "length (qr_head payload) = 12 + 8 * length payload" "are_bits (qr_head payload)" by (simp_all add: qr_head_def)
qed

lemma qr_bits_props:
  assumes "2 + length payload \<le> dcw"
  obtains rest where "qr_bits dcw payload = qr_head payload @ rest" "length (qr_bits dcw payload) = dcw * 8" "are_bits (qr_bits dcw payload)"
proof -
  let ?m = "dcw * 8 - (16 + 8 * length payload)"
  have rem: "4 \<le> dcw * 8 - length (qr_head payload)" using assms by (simp add: qr_head_props)
  have "qr_bits dcw payload = qr_head payload @ put 0 4 @ qr_fill 0 ?m"
    unfolding qr_bits_def qr_head_def [symmetric] Let_def using rem by (simp add: qr_head_props)
  moreover have "8 dvd ?m" using assms by (auto simp: dvd_def intro!: exI [of _ "dcw - (2 + length payload)"])
  moreover have "length (qr_head payload) + 4 + ?m = dcw * 8" using assms by (simp add: qr_head_props)
  ultimately show ?thesis using that [of "put 0 4 @ qr_fill 0 ?m"] qr_fill_props [of ?m 0] by (simp add: qr_head_props)
qed

lemma read_payload_bits:
  assumes "concat (map (\<lambda>b. put b 8) data) = qr_head payload @ rest" "bytes256 payload" "length payload < 256"
  shows "read_payload data = Some payload"
proof -
  let ?body = "concat (map (\<lambda>b. put b 8) payload)"
  have h: "qr_head payload @ rest = put 4 4 @ put (length payload) 8 @ ?body @ rest" by (simp add: qr_head_def)
  have four: "put 4 4 = [0, 1, 0, 0]" by code_simp
  have len: "bits_val (take 8 (drop 4 (qr_head payload @ rest))) = length payload" using assms(3) by (simp add: h bits_val_put)
  have "take 8 (drop (8 * i) (concat (map (\<lambda>b. put b 8) bs) @ rest)) = put (bs ! i) 8" if "i < length bs" for i bs
    using that
  proof (induction bs arbitrary: i)
    case (Cons b bs)
    then show ?case by (cases i) auto
  qed simp
  moreover have "drop (12 + 8 * i) (qr_head payload @ rest) = drop (8 * i) (?body @ rest)" for i
    unfolding h using drop_append [of "12 + 8 * i" "put 4 4 @ put (length payload) 8" "?body @ rest"] by simp
  ultimately have "bits_val (take 8 (drop (12 + 8 * i) (qr_head payload @ rest))) = payload ! i" if "i < length payload" for i
    using that assms(2) by (simp add: bits_val_put list_all_length)
  then have "map (\<lambda>i. bits_val (take 8 (drop (12 + 8 * i) (qr_head payload @ rest)))) [0..<length payload] = payload"
    by (intro nth_equalityI) simp_all
  moreover have "take 4 (qr_head payload @ rest) = [0, 1, 0, 0]" by (simp add: h four)
  moreover have "12 + 8 * length payload \<le> length (qr_head payload @ rest)" by (simp add: qr_head_props)
  ultimately show ?thesis unfolding read_payload_def assms(1) Let_def len by simp
qed

section \<open>Blocks\<close>

text \<open>The layouts of the six versions.\<close>

definition qr_ok :: "nat \<Rightarrow> bool" where
  "qr_ok v \<longleftrightarrow> 1 \<le> v \<and> v \<le> 6"

lemma qr_ok_cases: "qr_ok v \<Longrightarrow> v = 1 \<or> v = 2 \<or> v = 3 \<or> v = 4 \<or> v = 5 \<or> v = 6"
  by (auto simp: qr_ok_def)

lemma qr_layout_ok:
  assumes "qr_ok v" "qr_layout v = (cnt, tot, dlen)"
  shows "qrRSGroups v = [(cnt, tot, dlen)]" "qrDataCodewords v = cnt * dlen" "0 < cnt" "dlen < tot" "tot \<le> 255"
  using qr_ok_cases [OF assms(1)] assms(2) by (auto simp: qr_layout_def qrDataCodewords_def qrRSGroups_def)

lemma max_const: "bs \<noteq> [] \<Longrightarrow> \<forall>b\<in>set bs. f b = (c :: nat) \<Longrightarrow> fold (\<lambda>b m. if f b > m then f b else m) bs 0 = c"
proof -
  have idle: "\<forall>b\<in>set bs. f b = c \<Longrightarrow> fold (\<lambda>b m. if f b > m then f b else m) bs c = c" for bs by (induction bs) auto
  show "bs \<noteq> [] \<Longrightarrow> \<forall>b\<in>set bs. f b = c \<Longrightarrow> ?thesis" 
    using idle [of "tl bs"] by (cases bs) (auto simp: Let_def)
qed

text \<open>Columns of equal height, read row by row.\<close>

definition by_rows :: "nat \<Rightarrow> nat list list \<Rightarrow> nat list" where
  "by_rows h ws = concat (map (\<lambda>j. map (\<lambda>w. w ! j) ws) [0..<h])"

lemma length_by_rows [simp]: "length (by_rows h ws) = h * length ws"
  by (induction h) (simp_all add: by_rows_def)

lemma by_rows_nth: "j < h \<Longrightarrow> i < length ws \<Longrightarrow> by_rows h ws ! (j * length ws + i) = ws ! i ! j"
proof (induction h)
  case (Suc h)
  have e: "by_rows (Suc h) ws = by_rows h ws @ map (\<lambda>w. w ! h) ws" by (simp add: by_rows_def)
  show ?case
  proof (cases "j < h")
    case True
    then have "j * length ws + i < h * length ws" using Suc.prems(2) by (metis Suc_leI add.commute less_le_trans mult_Suc mult_le_mono1 nat_add_left_cancel_less)
    then show ?thesis using Suc True by (simp add: e nth_append)
  next
    case False
    then show ?thesis using Suc.prems by (simp add: e nth_append less_Suc_eq)
  qed
qed simp

lemma by_rows_append:
  assumes "\<forall>b\<in>set bs. length (f b) = d"
  shows "by_rows d (map f bs) @ by_rows e (map g bs) = by_rows (d + e) (map (\<lambda>b. f b @ g b) bs)"
proof -
  have "map (\<lambda>j. map (\<lambda>w. w ! j) (map (\<lambda>b. f b @ g b) bs)) [0..<d] = map (\<lambda>j. map (\<lambda>w. w ! j) (map f bs)) [0..<d]"
    using assms by (simp add: nth_append)
  moreover have "map (\<lambda>j. map (\<lambda>w. w ! j) (map (\<lambda>b. f b @ g b) bs)) [d..<d + e] = map (\<lambda>j. map (\<lambda>w. w ! j) (map g bs)) [0..<e]"
  proof (rule nth_equalityI)
    fix k assume "k < length (map (\<lambda>j. map (\<lambda>w. w ! j) (map (\<lambda>b. f b @ g b) bs)) [d..<d + e])"
    then show "map (\<lambda>j. map (\<lambda>w. w ! j) (map (\<lambda>b. f b @ g b) bs)) [d..<d + e] ! k = map (\<lambda>j. map (\<lambda>w. w ! j) (map g bs)) [0..<e] ! k"
      using assms by (simp add: nth_append)
  qed simp
  ultimately show ?thesis unfolding by_rows_def upt_add_eq_append [OF le0 [of d], of e] map_append concat_append by (simp only:)
qed

text \<open>Data bytes, data of a block and code word of a block.\<close>

definition qr_data :: "nat \<Rightarrow> nat list \<Rightarrow> nat list" where
  "qr_data v payload = map (pack_byte (qr_bits (qrDataCodewords v) payload)) [0..<qrDataCodewords v]"

definition block_data :: "nat \<Rightarrow> nat list \<Rightarrow> nat \<Rightarrow> nat list" where
  "block_data v payload i = (case qr_layout v of (cnt, tot, dlen) \<Rightarrow> take dlen (drop (i * dlen) (qr_data v payload)))"

definition block_word :: "nat \<Rightarrow> nat list \<Rightarrow> nat \<Rightarrow> nat list" where
  "block_word v payload i =
     (case qr_layout v of (cnt, tot, dlen) \<Rightarrow> block_data v payload i @ rsEncode (block_data v payload i) (tot - dlen))"

lemma qr_data_props:
  assumes "qr_ok v" "2 + length payload \<le> qrDataCodewords v"
  shows "length (qr_data v payload) = qrDataCodewords v" "bytes256 (qr_data v payload)"
    "\<exists>rest. concat (map (\<lambda>b. put b 8) (qr_data v payload)) = qr_head payload @ rest"
proof -
  obtain rest where b: "qr_bits (qrDataCodewords v) payload = qr_head payload @ rest" "length (qr_bits (qrDataCodewords v) payload) = qrDataCodewords v * 8"
    "are_bits (qr_bits (qrDataCodewords v) payload)" by (rule qr_bits_props [OF assms(2)])
  show "length (qr_data v payload) = qrDataCodewords v" by (simp add: qr_data_def)
  show "bytes256 (qr_data v payload)" unfolding qr_data_def by (rule bytes_of_bits(2) [OF b(3,2)])
  show "\<exists>rest. concat (map (\<lambda>b. put b 8) (qr_data v payload)) = qr_head payload @ rest"
    unfolding qr_data_def bytes_of_bits(1) [OF b(3,2)] using b(1) by blast
qed

lemma block_props:
  assumes "qr_ok v" "2 + length payload \<le> qrDataCodewords v" "qr_layout v = (cnt, tot, dlen)" "i < cnt"
  shows "length (block_data v payload i) = dlen" "bytes256 (block_data v payload i)" "length (block_word v payload i) = tot"
proof -
  have "(i + 1) * dlen \<le> cnt * dlen" using assms(4) by (intro mult_le_mono1) simp
  then show l: "length (block_data v payload i) = dlen"
    using qr_data_props(1) [OF assms(1,2)] qr_layout_ok(2) [OF assms(1,3)] by (simp add: block_data_def assms(3))
  show b: "bytes256 (block_data v payload i)"
    using qr_data_props(2) [OF assms(1,2)] by (auto simp: block_data_def assms(3) list_all_iff dest!: in_set_takeD in_set_dropD)
  show "length (block_word v payload i) = tot" using l b qr_layout_ok [OF assms(1,3)] by (simp add: block_word_def assms(3))
qed

text \<open>The code words are those of the blocks, one row after the other.\<close>

lemma codewords_rows:
  assumes "qr_ok v" "2 + length payload \<le> qrDataCodewords v" "qr_layout v = (cnt, tot, dlen)"
  shows "qr_codewords v payload = by_rows tot (map (block_word v payload) [0..<cnt])"
proof -
  note lay = qr_layout_ok [OF assms(1,3)] and bp = block_props [OF assms]
  define bs where "bs = map (\<lambda>i. (block_data v payload i, tot - dlen)) [0..<cnt]"
  have ne: "bs \<noteq> []" using lay(3) by (simp add: bs_def)
  have props: "length (fst b) = dlen \<and> bytes256 (fst b) \<and> snd b = tot - dlen" if "b \<in> set bs" for b using that bp by (auto simp: bs_def)
  have blocks: "qr_blocks (qrRSGroups v) (qr_data v payload) = bs" by (simp add: lay(1) bs_def block_data_def assms(3))
  have "concat (map (\<lambda>b. if j < length (fst b) then [fst b ! j] else []) bs) = map (\<lambda>w. w ! j) (map fst bs)" if "j < dlen" for j
    using props that by (induction bs) auto
  then have "interleave_data bs = by_rows dlen (map fst bs)"
    unfolding interleave_data_def by_rows_def using max_const [OF ne, of "\<lambda>b. length (fst b)" dlen] props
    by (simp only: Let_def) (intro arg_cong [of _ _ concat] map_cong, simp_all)
  moreover have "interleave_checks bs = by_rows (tot - dlen) (map (\<lambda>b. rsEncode (fst b) (snd b)) bs)"
    using max_const [OF ne, of snd "tot - dlen"] props by (simp add: interleave_checks_def by_rows_def)
  ultimately have "qr_codewords v payload = by_rows (dlen + (tot - dlen)) (map (\<lambda>b. fst b @ rsEncode (fst b) (snd b)) bs)"
    using by_rows_append [of bs fst dlen] props blocks by (simp add: qr_codewords_def Let_def qr_data_def)
  then show ?thesis using lay(4) by (simp add: bs_def block_word_def [abs_def] assms(3) comp_def)
qed

lemma read_codewords:
  assumes "qr_ok v" "2 + length payload \<le> qrDataCodewords v" "qr_layout v = (cnt, tot, dlen)"
  shows "length (qr_codewords v payload) = tot * cnt" "bytes256 (qr_codewords v payload)"
    "i < cnt \<Longrightarrow> read_block v (qr_codewords v payload @ more) i = block_word v payload i"
    "read_data v (qr_codewords v payload @ more) = qr_data v payload"
proof -
  note lay = qr_layout_ok [OF assms(1,3)] and bp = block_props [OF assms] and cr = codewords_rows [OF assms]
  let ?ws = "map (block_word v payload) [0..<cnt]"
  show "length (qr_codewords v payload) = tot * cnt" by (simp add: cr)
  have "b < 256" if "w \<in> set ?ws" "j < tot" "b = w ! j" for w j b
  proof -
    obtain i where i: "i < cnt" "w = block_word v payload i" using \<open>w \<in> set ?ws\<close> by auto
    have "bytes256 w" using bp(1,2) [OF i(1)] lay(4,5) by (simp add: i(2) block_word_def assms(3))
    then show ?thesis using bp(3) [OF i(1)] that(2,3) by (simp add: i(2) list_all_length)
  qed
  then show "bytes256 (qr_codewords v payload)" by (auto simp: cr by_rows_def list_all_iff)
  have rb: "read_block v (qr_codewords v payload @ more) i = block_word v payload i" if i: "i < cnt" for i
  proof (rule nth_equalityI)
    fix j assume "j < length (read_block v (qr_codewords v payload @ more) i)"
    then have j: "j < tot" by (simp add: read_block_def assms(3))
    have "j * cnt + i < tot * cnt" using j i by (metis Suc_leI add.commute less_le_trans mult_Suc mult_le_mono1 nat_add_left_cancel_less)
    then have "(qr_codewords v payload @ more) ! (j * cnt + i) = by_rows tot ?ws ! (j * length ?ws + i)" by (simp add: cr nth_append)
    also have "\<dots> = ?ws ! i ! j" by (rule by_rows_nth) (use i j in simp_all)
    finally show "read_block v (qr_codewords v payload @ more) i ! j = block_word v payload i ! j" using i j by (simp add: read_block_def assms(3))
  qed (use bp(3) [OF i] in \<open>simp add: read_block_def assms(3)\<close>)
  then show "i < cnt \<Longrightarrow> read_block v (qr_codewords v payload @ more) i = block_word v payload i" .
  have "take dlen (block_word v payload i) = take dlen (drop (i * dlen) (qr_data v payload))" if "i < cnt" for i
    using bp(1) [OF that] by (simp add: block_word_def block_data_def assms(3))
  then have "read_data v (qr_codewords v payload @ more) = concat (map (\<lambda>i. take dlen (drop (i * dlen) (qr_data v payload))) [0..<cnt])"
    unfolding read_data_def assms(3) prod.case using rb by (intro arg_cong [of _ _ concat] map_cong) simp_all
  moreover have "concat (map (\<lambda>i. take dlen (drop (i * dlen) xs)) [0..<k]) = take (k * dlen) xs" for k and xs :: "nat list"
  proof (induction k)
    case (Suc k)
    then show ?case using take_add [of "k * dlen" dlen xs] by (simp add: add.commute)
  qed simp
  ultimately show "read_data v (qr_codewords v payload @ more) = qr_data v payload"
    using qr_data_props(1) [OF assms(1,2)] lay(2) by simp
qed

text \<open>Reading the code words back gives the payload, whatever follows them.\<close>

lemma decode_codewords:
  assumes "qr_ok v" "2 + length payload \<le> qrDataCodewords v" "bytes256 payload"
  shows "qr_decode v (qr_codewords v payload @ more) = Some payload"
proof -
  obtain cnt tot dlen where lay: "qr_layout v = (cnt, tot, dlen)" by (metis prod_cases3)
  have "qrDataCodewords v \<le> 108" using qr_ok_cases [OF assms(1)] by (auto simp: qrDataCodewords_def qrRSGroups_def)
  then have "length payload < 256" using assms(2) by simp
  then show ?thesis
    using read_payload_bits [of "qr_data v payload" payload] qr_data_props(3) [OF assms(1,2)] assms(3) read_codewords(4) [OF assms(1,2) lay] by (auto simp: qr_decode_def)
qed

end
