(* ===== verification/Qr_Symbol.thy ===== *)
theory Qr_Symbol
  imports Qr_Data
begin

text \<open>
  The matrix of a symbol: which places the patterns reserve, that the zigzag visits every other place
  once, that there is room for all bits, and that what is placed is read back.
\<close>

unbundle bit_operations_syntax

section \<open>Patterns\<close>

lemma setF_simps: "fst (setF (p, b) g) = (fst g)(p := b)" "snd (setF (p, b) g) = (snd g)(p := True)"
  by (simp_all add: setF_def)

lemma fold_setF_reserved: "snd (fold setF cs g) p \<longleftrightarrow> snd g p \<or> p \<in> fst ` set cs"
  by (induction cs arbitrary: g) (auto simp: setF_simps)

lemma fold_setF_other: "p \<notin> fst ` set cs \<Longrightarrow> fst (fold setF cs g) p = fst g p"
  by (induction cs arbitrary: g) (auto simp: setF_simps)

lemma fold_setF_value: "\<forall>(q, b)\<in>set cs. b = f q \<Longrightarrow> p \<in> fst ` set cs \<Longrightarrow> fst (fold setF cs g) p = f p"
proof (induction cs arbitrary: g rule: rev_induct)
  case (snoc c cs)
  obtain q b where c: "c = (q, b)" by fastforce
  then show ?case using snoc by (cases "p = q") (auto simp: setF_simps)
qed simp

lemma fold_reserve: "fst (fold reserve ps g) = fst g" "snd (fold reserve ps g) p \<longleftrightarrow> snd g p \<or> p \<in> set ps"
  by (induction ps arbitrary: g) (auto simp: reserve_def)

lemma cells_mem:
  "x \<in> set [f dr dc. dr \<leftarrow> xs, dc \<leftarrow> ys, P dr dc] \<longleftrightarrow> (\<exists>dr\<in>set xs. \<exists>dc\<in>set ys. P dr dc \<and> x = f dr dc)"
  "x \<in> set [f dr dc. dr \<leftarrow> xs, dc \<leftarrow> ys] \<longleftrightarrow> (\<exists>dr\<in>set xs. \<exists>dc\<in>set ys. x = f dr dc)"
  by auto

lemma finder_mem: "x \<in> set (finder_cells n r c) \<longleftrightarrow> (\<exists>dr\<in>{-1..7}. \<exists>dc\<in>{-1..7}. (0 \<le> int r + dr \<and> int r + dr < int n \<and>
    0 \<le> int c + dc \<and> int c + dc < int n) \<and> x = ((nat (int r + dr), nat (int c + dc)), finder_on dr dc))"
  unfolding finder_cells_def cells_mem set_upto ..

lemma align_mem: "x \<in> set (align_cells r c) \<longleftrightarrow> (\<exists>dr\<in>{-2..2}. \<exists>dc\<in>{-2..2}. x = ((nat (int r + dr), nat (int c + dc)), max \<bar>dr\<bar> \<bar>dc\<bar> \<noteq> 1))"
  unfolding align_cells_def cells_mem set_upto ..

lemma finder_places: "fst ` set (finder_cells n r c) = {(a, b). a < n \<and> b < n \<and> r \<le> a + 1 \<and> a \<le> r + 7 \<and> c \<le> b + 1 \<and> b \<le> c + 7}" (is "?L = ?R")
proof
  have "k \<le> Suc (nat (int k + d)) \<and> nat (int k + d) \<le> k + 7" if "0 \<le> int k + d" "-1 \<le> d" "d \<le> 7" for k d using that by linarith
  then show "?L \<subseteq> ?R" by (auto simp: finder_mem)
  show "?R \<subseteq> ?L"
  proof clarify
    fix a b assume "a < n" "b < n" "r \<le> a + 1" "a \<le> r + 7" "c \<le> b + 1" "b \<le> c + 7"
    then have "((a, b), finder_on (int a - int r) (int b - int c)) \<in> set (finder_cells n r c)"
      unfolding finder_mem by (intro bexI [of _ "int a - int r"] bexI [of _ "int b - int c"]) simp_all
    then show "(a, b) \<in> ?L" by force
  qed
qed

lemma finder_values: "\<forall>(p, x)\<in>set (finder_cells n r c). x = finder_on (int (fst p) - int r) (int (snd p) - int c)"
  by (auto simp: finder_mem)

lemma align_places:
  assumes "2 \<le> r" "2 \<le> c"
  shows "fst ` set (align_cells r c) = {(a, b). r \<le> a + 2 \<and> a \<le> r + 2 \<and> c \<le> b + 2 \<and> b \<le> c + 2}" (is "?L = ?R")
proof
  have "nat (int k + d) \<le> k + 2 \<and> k \<le> nat (int k + d) + 2" if "2 \<le> k" "-2 \<le> d" "d \<le> 2" for k d using that by linarith
  then show "?L \<subseteq> ?R" using assms by (auto simp: align_mem)
  show "?R \<subseteq> ?L"
  proof clarify
    fix a b assume "r \<le> a + 2" "a \<le> r + 2" "c \<le> b + 2" "b \<le> c + 2"
    then have "((a, b), max \<bar>int a - int r\<bar> \<bar>int b - int c\<bar> \<noteq> 1) \<in> set (align_cells r c)"
      unfolding align_mem by (intro bexI [of _ "int a - int r"] bexI [of _ "int b - int c"]) simp_all
    then show "(a, b) \<in> ?L" by force
  qed
qed

lemma timing_places: "fst ` set (timing_cells n) = {(a, b). a = 6 \<and> 8 \<le> b \<and> b + 8 < n \<or> b = 6 \<and> 8 \<le> a \<and> a + 8 < n}"
  by (force simp: timing_cells_def)

lemma reserved_places:
  "17 \<le> n \<Longrightarrow> set (reserved_cells n) = {(a, b). a = 8 \<and> (b < 9 \<or> n \<le> b + 8 \<and> b < n) \<or> b = 8 \<and> (a < 9 \<or> n \<le> a + 8 \<and> a < n)}" (is "_ \<Longrightarrow> ?L = ?R")
proof
  assume n: "17 \<le> n"
  show "?L \<subseteq> ?R" using n by (auto simp: reserved_cells_def)
  have k: "x \<in> (\<lambda>i. n - Suc i) ` {0..<8}" if "n \<le> x + 8" "x < n" for x
    by (rule image_eqI [of _ _ "n - Suc x"]) (use that in auto)
  show "?R \<subseteq> ?L" using k by (auto simp: reserved_cells_def)
qed

text \<open>Of the four centres of alignment patterns the last one only is free.\<close>

lemma align_fold:
  assumes "qr_ok v" "n = 17 + 4 * v" "\<And>p. snd g p \<longleftrightarrow> p \<in> fst ` set (finder_cells n 0 0 @ finder_cells n 0 (n - 7) @ finder_cells n (n - 7) 0) \<or> p \<in> fst ` set (timing_cells n)"
  shows "fold align_one (List.product (qrAlign v) (qrAlign v)) g = (if v = 1 then g else fold setF (align_cells (n - 7) (n - 7)) g)"
proof (cases "v = 1")
  case True
  then show ?thesis by (simp add: qrAlign_def)
next
  case False
  then have "qrAlign v = [6, n - 7]" "18 \<le> n - 7" using qr_ok_cases [OF assms(1)] assms(2) by (auto simp: qrAlign_def)
  moreover have "snd g (6, 6)" "snd g (6, n - 7)" "snd g (n - 7, 6)" "\<not> snd g (n - 7, n - 7)"
    using \<open>18 \<le> n - 7\<close> by (auto simp: assms(3) image_Un finder_places timing_places)
  ultimately show ?thesis using False by (simp add: align_one_def)
qed

lemma pattern_places:
  assumes "r < 17 + 4 * v" "c < 17 + 4 * v" "1 \<le> v" "n = 17 + 4 * v"
  shows "(r, c) = (n - 8, 8) \<or> ((r, c) \<in> fst ` set (finder_cells n 0 0 @ finder_cells n 0 (n - 7) @ finder_cells n (n - 7) 0) \<or> (r, c) \<in> fst ` set (timing_cells n)) \<or>
      v \<noteq> 1 \<and> (r, c) \<in> fst ` set (align_cells (n - 7) (n - 7)) \<or> (r, c) \<in> set (reserved_cells n) \<longleftrightarrow> function_module v (r, c)"
  using assms unfolding image_Un set_append finder_places timing_places Un_iff
  by (simp add: align_places reserved_places function_module_def) (cases "r < 8"; cases "c < 8"; cases "r = 8"; cases "c = 8"; simp; linarith?)

lemma patterns_reserved:
  assumes "qr_ok v" "n = 17 + 4 * v" "r < n" "c < n"
  shows "snd (qr_patterns v n) (r, c) = function_module v (r, c)"
proof -
  define g2 where "g2 = fold setF (timing_cells n) (fold setF (finder_cells n 0 0 @ finder_cells n 0 (n - 7) @ finder_cells n (n - 7) 0) ((\<lambda>_. False), (\<lambda>_. False)))"
  have g2: "snd g2 p \<longleftrightarrow> p \<in> fst ` set (finder_cells n 0 0 @ finder_cells n 0 (n - 7) @ finder_cells n (n - 7) 0) \<or> p \<in> fst ` set (timing_cells n)" for p
    by (simp only: g2_def fold_setF_reserved snd_conv simp_thms)
  have v: "1 \<le> v" using assms(1) by (simp add: qr_ok_def)
  have "snd (qr_patterns v n) (r, c) \<longleftrightarrow> (r, c) = (n - 8, 8) \<or> snd g2 (r, c) \<or> v \<noteq> 1 \<and> (r, c) \<in> fst ` set (align_cells (n - 7) (n - 7)) \<or> (r, c) \<in> set (reserved_cells n)"
    unfolding qr_patterns_def Let_def fold_reserve g2_def [symmetric] align_fold [OF assms(1,2) g2] by (auto simp: setF_simps fold_setF_reserved)
  also have "\<dots> \<longleftrightarrow> function_module v (r, c)"
    using pattern_places [of r v c n] assms(2-4) v unfolding g2 by simp
  finally show ?thesis .
qed

section \<open>The path\<close>

lemma down_rev: "map (\<lambda>k. n - Suc k) [0..<n] = rev [0..<n]"
  by (rule nth_equalityI) (simp_all add: rev_nth)

lemma column_pair: "concat (map (\<lambda>k. let r = (if up then n - 1 - k else k) in [(r, a), (r, b)]) [0..<n]) =
    concat (map (\<lambda>r. [(r, a), (r, b)]) (if up then rev [0..<n] else [0..<n]))"
proof (cases up)
  case True
  have "map (\<lambda>k. let r = (if up then n - 1 - k else k) in [(r, a), (r, b)]) [0..<n] = map (\<lambda>r. [(r, a), (r, b)]) (map (\<lambda>k. n - Suc k) [0..<n])"
    using True by (simp add: Let_def)
  then show ?thesis using True by (simp only: down_rev if_True)
qed (simp add: Let_def)

lemma pair_distinct: "distinct rs \<Longrightarrow> a \<noteq> b \<Longrightarrow> distinct (concat (map (\<lambda>r. [(r, a), (r, b)]) rs))"
  by (induction rs) auto

lemma pair_set: "set (concat (map (\<lambda>r. [(r, a), (r, b)]) rs)) = set rs \<times> {a, b}"
  by (induction rs) auto

lemma zigzag_props:
  "distinct (concat (map (\<lambda>c. [c, c - 1]) cols)) \<Longrightarrow>
   distinct (zigzag n up cols) \<and> set (zigzag n up cols) = {0..<n} \<times> set (concat (map (\<lambda>c. [c, c - 1]) cols))"
proof (induction cols arbitrary: up)
  case (Cons c cols)
  let ?B = "concat (map (\<lambda>r. [(r, c), (r, c - 1)]) (if up then rev [0..<n] else [0..<n]))"
  have z: "zigzag n up (c # cols) = ?B @ zigzag n (\<not> up) cols" by (simp only: zigzag.simps column_pair)
  have d: "c \<noteq> c - 1" "distinct (concat (map (\<lambda>c. [c, c - 1]) cols))" "{c, c - 1} \<inter> set (concat (map (\<lambda>c. [c, c - 1]) cols)) = {}"
    using Cons.prems by auto
  have B: "distinct ?B" "set ?B = {0..<n} \<times> {c, c - 1}" by (rule pair_distinct [OF _ d(1)], simp) (simp only: pair_set, simp)
  have IH: "distinct (zigzag n (\<not> up) cols)" "set (zigzag n (\<not> up) cols) = {0..<n} \<times> set (concat (map (\<lambda>c. [c, c - 1]) cols))" using Cons.IH [OF d(2)] by simp_all
  have "set ?B \<inter> set (zigzag n (\<not> up) cols) = {}" unfolding B(2) IH(2) using d(3) by blast
  then have "distinct (zigzag n up (c # cols))" unfolding z using B(1) IH(1) by simp
  moreover have "set (zigzag n up (c # cols)) = {0..<n} \<times> set (concat (map (\<lambda>c. [c, c - 1]) (c # cols)))" unfolding z set_append B(2) IH(2) by auto
  ultimately show ?case by blast
qed simp

lemma cols_each:
  "concat (map (\<lambda>c. [c, c - 1]) (qr_cols (21 - 1))) = filter (\<lambda>c. c \<noteq> 6) (rev [0..<21])"
  "concat (map (\<lambda>c. [c, c - 1]) (qr_cols (25 - 1))) = filter (\<lambda>c. c \<noteq> 6) (rev [0..<25])"
  "concat (map (\<lambda>c. [c, c - 1]) (qr_cols (29 - 1))) = filter (\<lambda>c. c \<noteq> 6) (rev [0..<29])"
  "concat (map (\<lambda>c. [c, c - 1]) (qr_cols (33 - 1))) = filter (\<lambda>c. c \<noteq> 6) (rev [0..<33])"
  "concat (map (\<lambda>c. [c, c - 1]) (qr_cols (37 - 1))) = filter (\<lambda>c. c \<noteq> 6) (rev [0..<37])"
  "concat (map (\<lambda>c. [c, c - 1]) (qr_cols (41 - 1))) = filter (\<lambda>c. c \<noteq> 6) (rev [0..<41])"
  by code_simp+

lemma cols_all: "qr_ok v \<Longrightarrow> n = 17 + 4 * v \<Longrightarrow> concat (map (\<lambda>c. [c, c - 1]) (qr_cols (n - 1))) = filter (\<lambda>c. c \<noteq> 6) (rev [0..<n])"
proof -
  assume "qr_ok v" "n = 17 + 4 * v"
  then consider "n = 21" | "n = 25" | "n = 29" | "n = 33" | "n = 37" | "n = 41" by (auto dest!: qr_ok_cases)
  then show ?thesis by cases (hypsubst, rule cols_each)+
qed

lemma path_props:
  assumes "qr_ok v" "n = 17 + 4 * v"
  shows "distinct (zigzag n True (qr_cols (n - 1)))" "set (zigzag n True (qr_cols (n - 1))) = {0..<n} \<times> ({0..<n} - {6})"
proof -
  note c = cols_all [OF assms]
  have d: "distinct (concat (map (\<lambda>c. [c, c - 1]) (qr_cols (n - 1))))" unfolding c by simp
  show "distinct (zigzag n True (qr_cols (n - 1)))" using zigzag_props [OF d] by blast
  have "set (filter (\<lambda>c. c \<noteq> 6) (rev [0..<n])) = {0..<n} - {6}" by auto
  then show "set (zigzag n True (qr_cols (n - 1))) = {0..<n} \<times> ({0..<n} - {6})"
    using conjunct2 [OF zigzag_props [OF d, of n True]] by (simp only: c)
qed

definition qr_free :: "nat \<Rightarrow> place list" where
  "qr_free v = filter (\<lambda>p. \<not> function_module v p) (zigzag (17 + 4 * v) True (qr_cols (16 + 4 * v)))"

text \<open>There is room for all code words: three rectangles less the alignment pattern.\<close>

lemma qr_capacity:
  assumes "qr_ok v" "qr_layout v = (cnt, tot, dlen)"
  shows "8 * (tot * cnt) \<le> length (qr_free v)"
proof -
  define n where "n = 17 + 4 * v"
  have path: "distinct (zigzag n True (qr_cols (16 + 4 * v)))" "set (zigzag n True (qr_cols (16 + 4 * v))) = {0..<n} \<times> ({0..<n} - {6})"
    using path_props [OF assms(1) n_def] by (simp_all add: n_def)
  define A where "A = {9..<n - 8} \<times> ({0..<9} - {6 :: nat})"
  define B where "B = ({0..<n} - {6}) \<times> {9..<n - 8}"
  define C where "C = {9..<n} \<times> {n - 8..<n}"
  define S where "S = (if v = 1 then {} else {n - 9..<n - 4} \<times> {n - 9..<n - 4})"
  have fin: "finite A" "finite B" "finite C" "finite S" by (simp_all add: A_def B_def C_def S_def)
  have "A \<inter> B = {}" "(A \<union> B) \<inter> C = {}" by (auto simp: A_def B_def C_def n_def)
  then have "card (A \<union> B \<union> C) = card A + card B + card C" using fin by (simp add: card_Un_disjoint)
  also have "\<dots> = 32 * v + (16 + 4 * v) * (4 * v) + (8 + 4 * v) * 8" by (simp add: A_def B_def C_def n_def card_cartesian_product)
  finally have area: "card (A \<union> B \<union> C) = 32 * v + (16 + 4 * v) * (4 * v) + (8 + 4 * v) * 8" .
  have "card S \<le> (if v = 1 then 0 else 25)" by (simp add: S_def card_cartesian_product n_def)
  moreover have "card (A \<union> B \<union> C) - card S \<le> card (A \<union> B \<union> C - S)" using fin by (intro diff_card_le_card_Diff) simp
  moreover have "A \<union> B \<union> C - S \<subseteq> set (qr_free v)"
    unfolding qr_free_def n_def [symmetric] set_filter path(2) using assms(1)
    by (auto simp: A_def B_def C_def S_def function_module_def n_def qr_ok_def split: if_splits)
  then have "card (A \<union> B \<union> C - S) \<le> length (qr_free v)" using path(1) by (metis List.finite_set card_length card_mono le_trans)
  ultimately have "32 * v + (16 + 4 * v) * (4 * v) + (8 + 4 * v) * 8 - (if v = 1 then 0 else 25) \<le> length (qr_free v)" unfolding area by linarith
  moreover have "8 * (tot * cnt) \<le> 32 * v + (16 + 4 * v) * (4 * v) + (8 + 4 * v) * 8 - (if v = 1 then 0 else 25)"
    using qr_ok_cases [OF assms(1)] assms(2) by (auto simp: qr_layout_def qrRSGroups_def)
  ultimately show ?thesis by linarith
qed

section \<open>Placing and reading\<close>

lemma place_bits_other: "p \<notin> set ps \<or> fn p \<Longrightarrow> place_bits fn ps bits m p = m p"
proof (induction ps arbitrary: bits m)
  case (Cons q ps)
  then show ?case by (cases "fn q"; cases "p = q") (simp_all add: Let_def)
qed simp

lemma unmask: "b < 2 \<Longrightarrow> of_bool (((if e then b XOR 1 else b) = 1) \<noteq> e) = b" for b :: nat
proof -
  assume "b < 2"
  then consider "b = 0" | "b = 1" by linarith
  then show ?thesis by cases simp_all
qed

lemma place_read:
  assumes "distinct ps" "are_bits bits"
  shows "map (\<lambda>p. of_bool (place_bits fn ps bits m p \<noteq> even (fst p + snd p))) (filter (\<lambda>p. \<not> fn p) ps) =
    take (length (filter (\<lambda>p. \<not> fn p) ps)) (bits @ replicate (length ps) 0)"
  using assms
proof (induction ps arbitrary: bits m)
  case (Cons p ps)
  show ?case
  proof (cases "fn p")
    case True
    have "length (filter (\<lambda>p. \<not> fn p) ps) \<le> length bits + length ps" using length_filter_le [of _ ps] trans_le_add2 by blast
    then show ?thesis using Cons True by (simp add: replicate_append_same [symmetric])
  next
    case False
    let ?b = "case bits of [] \<Rightarrow> 0 | b # _ \<Rightarrow> b"
    define m' where "m' = m(p := ((if even (fst p + snd p) then ?b XOR 1 else ?b) = 1))"
    define F where "F = filter (\<lambda>p. \<not> fn p) ps"
    have b: "?b < 2" "are_bits (tl bits)" using Cons.prems(2) by (cases bits; simp)+
    have pl: "place_bits fn (p # ps) bits m = place_bits fn ps (tl bits) m'" using False by (simp add: Let_def m'_def)
    have hd: "of_bool (place_bits fn ps (tl bits) m' p \<noteq> even (fst p + snd p)) = ?b"
      using Cons.prems(1) unmask [OF b(1), of "even (fst p + snd p)"] by (simp add: place_bits_other m'_def)
    have tk: "take (Suc k) (bits @ replicate (length (p # ps)) 0) = ?b # take k (tl bits @ replicate (length ps) 0)" if "k \<le> length ps" for k
      using that by (cases bits) (simp, simp add: min_def del: replicate_Suc)
    have IH: "map (\<lambda>q. of_bool (place_bits fn ps (tl bits) m' q \<noteq> even (fst q + snd q))) F = take (length F) (tl bits @ replicate (length ps) 0)"
      unfolding F_def by (rule Cons.IH [OF _ b(2)]) (use Cons.prems(1) in simp)
    have F: "filter (\<lambda>p. \<not> fn p) (p # ps) = p # F" "length F \<le> length ps" using False by (simp_all add: F_def)
    show ?thesis unfolding pl F(1) list.map list.size(4) add_Suc_right add_0_right hd IH
      by (rule tk [OF F(2), unfolded list.size add_Suc_right add_0_right, symmetric])
  qed
qed simp

lemma draw_format_other: "p \<notin> set ps \<Longrightarrow> draw_format ps m p = m p"
proof -
  have "p \<notin> fst ` set xs \<Longrightarrow> fold (\<lambda>(p, b) m. m(p := (b = 1))) xs m p = m p" for xs :: "(place \<times> nat) list" and m
    by (induction xs arbitrary: m) auto
  then show "p \<notin> set ps \<Longrightarrow> draw_format ps m p = m p" unfolding draw_format_def by (metis (no_types, lifting) imageE prod.collapse set_zip_leftD)
qed

lemma draw_format_read:
  assumes "distinct ps" "length ps = 15"
  shows "map (draw_format ps m) ps = map (\<lambda>b. b = 1) format_bits"
proof -
  have other: "p \<notin> fst ` set xs \<Longrightarrow> fold (\<lambda>(p, b) m. m(p := (b = 1))) xs m p = m p" for xs :: "(place \<times> nat) list" and m p
    by (induction xs arbitrary: m) auto
  have "length ps = length bs \<Longrightarrow> distinct ps \<Longrightarrow> map (fold (\<lambda>(p, b) m. m(p := (b = 1))) (zip ps bs) m) ps = map (\<lambda>b. b = 1) bs" for ps :: "place list" and bs :: "nat list"
  proof (induction ps bs arbitrary: m rule: list_induct2)
    case (Cons p ps b bs)
    have "p \<notin> fst ` set (zip ps bs)" using Cons.prems by (auto dest: set_zip_leftD)
    then show ?case using Cons other [of p "zip ps bs" "m(p := (b = 1))"] by (simp del: fun_upd_apply) simp
  qed simp
  then show ?thesis using assms by (simp add: draw_format_def format_bits_def)
qed

lemma chunks8_bytes: "bytes256 cws \<Longrightarrow> chunks8 (concat (map (\<lambda>b. put b 8) cws) @ rest) = cws @ chunks8 rest"
proof (induction cws)
  case (Cons b cws)
  have "chunks8 (put b 8 @ r) = bits_val (put b 8) # chunks8 r" for r by (subst chunks8.simps) simp
  then show ?case using Cons by (simp add: bits_val_put)
qed simp

lemma format_distinct: "distinct (fst (format_places (17 + k)))" "distinct (snd (format_places (17 + k)))"
  by (simp_all add: format_places_def)

lemma format_reserved: "list_all (function_module v) (fst (format_places (17 + 4 * v)))" "list_all (function_module v) (snd (format_places (17 + 4 * v)))"
  by (simp_all add: format_places_def function_module_def)

text \<open>The places that carry data hold the bits of the code words, then zeros.\<close>

lemma modules_read:
  assumes "qr_ok v" "bytes256 cws" "8 * length cws \<le> length (qr_free v)"
  shows "\<exists>k. map (\<lambda>(r, c). of_bool (qr_modules v cws (r, c) \<noteq> even (r + c))) (qr_free v) = concat (map (\<lambda>b. put b 8) cws) @ replicate k 0"
proof -
  define n where "n = 17 + 4 * v"
  let ?path = "zigzag n True (qr_cols (n - 1))" and ?bits = "concat (map (\<lambda>b. put b 8) cws)" and ?g = "qr_patterns v n"
  let ?m = "place_bits (snd ?g) ?path ?bits (fst ?g)"
  have path: "distinct ?path" "set ?path = {0..<n} \<times> ({0..<n} - {6})" using path_props [OF assms(1) n_def] by simp_all
  have res: "snd ?g p = function_module v p" if "p \<in> set ?path" for p
    using that patterns_reserved [OF assms(1) n_def] unfolding path(2) by (cases p) auto
  then have free: "filter (\<lambda>p. \<not> snd ?g p) ?path = qr_free v"
    unfolding qr_free_def n_def [symmetric] by (simp add: n_def cong: filter_cong)
  have bits: "are_bits ?bits" "length ?bits = 8 * length cws" by (induction cws) auto
  have same: "qr_modules v cws p = ?m p" if "p \<in> set (qr_free v)" for p
  proof -
    have "\<not> function_module v p" using that by (simp add: qr_free_def)
    then have "p \<notin> set (fst (format_places n))" "p \<notin> set (snd (format_places n))" using format_reserved [of v] unfolding n_def list_all_iff by blast+
    then show ?thesis unfolding qr_modules_def Let_def n_def [symmetric] by (simp add: draw_format_other)
  qed
  have "map (\<lambda>(r, c). of_bool (qr_modules v cws (r, c) \<noteq> even (r + c))) (qr_free v) = map (\<lambda>p. of_bool (?m p \<noteq> even (fst p + snd p))) (qr_free v)"
    using same by (auto simp: case_prod_beta)
  also have "\<dots> = take (length (qr_free v)) (?bits @ replicate (length ?path) 0)"
    using place_read [OF path(1) bits(1), of "snd ?g" "fst ?g"] unfolding free .
  also have "\<dots> = ?bits @ replicate (min (length (qr_free v) - length ?bits) (length ?path)) 0" using assms(3) bits(2) by simp
  finally show ?thesis by blast
qed

text \<open>A symbol read back.\<close>

lemma scan_matrix:
  assumes "qr_ok v" "2 + length payload \<le> qrDataCodewords v" "bytes256 payload"
  defines "m \<equiv> map (\<lambda>r. map (\<lambda>c. qr_modules v (qr_codewords v payload) (r, c)) [0..<17 + 4 * v]) [0..<17 + 4 * v]"
  shows "qr_scan m = Some payload"
proof -
  obtain cnt tot dlen where lay: "qr_layout v = (cnt, tot, dlen)" by (metis prod_cases3)
  note cw = read_codewords(1,2) [OF assms(1,2) lay]
  obtain k where k: "map (\<lambda>(r, c). of_bool (qr_modules v (qr_codewords v payload) (r, c) \<noteq> even (r + c))) (qr_free v) =
      concat (map (\<lambda>b. put b 8) (qr_codewords v payload)) @ replicate k 0"
    using modules_read [OF assms(1) cw(2)] qr_capacity [OF assms(1) lay] cw(1) by (auto simp: mult.commute)
  have len: "length m = 17 + 4 * v" "(length m - 17) div 4 = v" by (simp_all add: m_def)
  have free: "filter (\<lambda>p. \<not> function_module v p) (zigzag (length m) True (qr_cols (length m - 1))) = qr_free v" by (simp add: len qr_free_def)
  have "m ! fst p ! snd p = qr_modules v (qr_codewords v payload) p" if "p \<in> set (qr_free v)" for p
  proof -
    have "p \<in> {0..<17 + 4 * v} \<times> ({0..<17 + 4 * v} - {6})"
      using that path_props(2) [OF assms(1) refl] unfolding qr_free_def by simp
    then show ?thesis by (cases p) (simp add: m_def)
  qed
  then have "map (\<lambda>(r, c). of_bool (m ! r ! c \<noteq> even (r + c)) :: nat) (qr_free v) = map (\<lambda>(r, c). of_bool (qr_modules v (qr_codewords v payload) (r, c) \<noteq> even (r + c))) (qr_free v)"
    by (auto simp: case_prod_beta)
  then have "qr_scan m = qr_decode v (chunks8 (concat (map (\<lambda>b. put b 8) (qr_codewords v payload)) @ replicate k 0))"
    unfolding qr_scan_def Let_def len(2) free by (simp only: k)
  then show ?thesis using chunks8_bytes [OF cw(2)] decode_codewords [OF assms(1-3)] by simp
qed

section \<open>Patterns in the finished symbol\<close>

lemma reserved_untouched:
  assumes "qr_ok v" "n = 17 + 4 * v" "r < n" "c < n" "function_module v (r, c)" "(r, c) \<notin> set (fst (format_places n))" "(r, c) \<notin> set (snd (format_places n))"
  shows "qr_modules v cws (r, c) = fst (qr_patterns v n) (r, c)"
  using patterns_reserved [OF assms(1-4)] assms(5-7) unfolding qr_modules_def Let_def assms(2) [symmetric]
  by (simp add: draw_format_other place_bits_other)

lemma finder_drawn:
  assumes "qr_ok v" "n = 17 + 4 * v" "(r0, c0) \<in> {(0, 0), (0, n - 7), (n - 7, 0)}" "i < 7" "j < 7"
  shows "fst (qr_patterns v n) (r0 + i, c0 + j) = finder_on (int i) (int j)"
proof -
  define F where "F = (\<lambda>r c. fold setF (finder_cells n r c))"
  define h1 where "h1 = F 0 0 ((\<lambda>_. False), (\<lambda>_. False))"
  define h2 where "h2 = F 0 (n - 7) h1"
  define g1 where "g1 = F (n - 7) 0 h2"
  define g2 where "g2 = fold setF (timing_cells n) g1"
  let ?p = "(r0 + i, c0 + j)"
  have v: "1 \<le> v" using assms(1) by (simp add: qr_ok_def)
  have g2: "snd g2 p \<longleftrightarrow> p \<in> fst ` set (finder_cells n 0 0 @ finder_cells n 0 (n - 7) @ finder_cells n (n - 7) 0) \<or> p \<in> fst ` set (timing_cells n)" for p
    unfolding g2_def g1_def h2_def h1_def F_def fold_setF_reserved by auto
  have own: "fst (F r0 c0 g) ?p = finder_on (int i) (int j)" for g
    using fold_setF_value [OF finder_values, of ?p n r0 c0 g] assms(2-5) by (auto simp: F_def finder_places)
  have others: "fst (F r c g) ?p = fst g ?p" if "(r, c) \<in> {(0, 0), (0, n - 7), (n - 7, 0)}" "(r, c) \<noteq> (r0, c0)" for r c g
    unfolding F_def by (rule fold_setF_other) (use that assms(2-5) v in \<open>auto simp: finder_places\<close>)
  have "fst g1 ?p = finder_on (int i) (int j)"
  proof (cases "(r0, c0) = (n - 7, 0)")
    case True
    then show ?thesis using own [of h2] by (simp add: g1_def)
  next
    case False
    then have 1: "fst g1 ?p = fst h2 ?p" unfolding g1_def by (intro others) auto
    show ?thesis
    proof (cases "(r0, c0) = (0, n - 7)")
      case True
      then show ?thesis using own [of h1] 1 by (simp add: h2_def)
    next
      case no: False
      then have "fst h2 ?p = fst h1 ?p" unfolding h2_def by (intro others) auto
      moreover have "r0 = 0" "c0 = 0" using no False assms(3) by auto
      ultimately show ?thesis using 1 own by (simp add: h1_def)
    qed
  qed
  moreover have "?p \<notin> fst ` set (timing_cells n)" using assms(2-5) by (auto simp: timing_places)
  ultimately have 2: "fst g2 ?p = finder_on (int i) (int j)" by (simp add: g2_def fold_setF_other)
  have "?p \<notin> fst ` set (align_cells (n - 7) (n - 7))" if "v \<noteq> 1" using assms(2-5) v that by (auto simp: align_places)
  moreover have "?p \<noteq> (n - 8, 8)" using assms(2-5) by auto
  moreover have "qr_patterns v n = fold reserve (reserved_cells n) (setF ((n - 8, 8), True) (fold align_one (List.product (qrAlign v) (qrAlign v)) g2))"
    unfolding qr_patterns_def Let_def g2_def g1_def h2_def h1_def F_def by simp
  ultimately show ?thesis using 2 unfolding align_fold [OF assms(1,2) g2] by (auto simp: fold_reserve setF_simps fold_setF_other)
qed

text \<open>A symbol that a reader can find: a square of a version's size with three finders and the format information twice.\<close>

definition has_finder :: "bool list list \<Rightarrow> nat \<Rightarrow> nat \<Rightarrow> bool" where
  "has_finder m r c \<longleftrightarrow> list_all (\<lambda>i. list_all (\<lambda>j. m ! (r + i) ! (c + j) = finder_on (int i) (int j)) [0..<7]) [0..<7]"

definition has_format :: "bool list list \<Rightarrow> place list \<Rightarrow> bool" where
  "has_format m ps \<longleftrightarrow> map (\<lambda>(r, c). m ! r ! c) ps = map (\<lambda>b. b = 1) format_bits"

definition well_drawn :: "bool list list \<Rightarrow> bool" where
  "well_drawn m \<longleftrightarrow>
     (let n = length m
      in n \<in> {21, 25, 29, 33, 37, 41} \<and> list_all (\<lambda>row. length row = n) m \<and> has_finder m 0 0 \<and> has_finder m 0 (n - 7) \<and> has_finder m (n - 7) 0 \<and>
         has_format m (fst (format_places n)) \<and> has_format m (snd (format_places n)))"

lemma finder_clear:
  assumes "qr_ok v" "n = 17 + 4 * v" "(r0, c0) \<in> {(0, 0), (0, n - 7), (n - 7, 0)}" "i < 7" "j < 7"
  shows "qr_modules v cws (r0 + i, c0 + j) = finder_on (int i) (int j)" "r0 + i < n" "c0 + j < n"
proof -
  show b: "r0 + i < n" "c0 + j < n" using assms(2-5) by auto
  have f: "function_module v (r0 + i, c0 + j)" using assms(2-5) by (auto simp: function_module_def)
  have "\<forall>p\<in>set (fst (format_places n)) \<union> set (snd (format_places n)). fst p = 8 \<or> snd p = 8" by (auto simp: format_places_def)
  moreover have "r0 + i \<noteq> 8" "c0 + j \<noteq> 8" using assms(1-5) by (auto simp: qr_ok_def)
  ultimately have nf: "(r0 + i, c0 + j) \<notin> set (fst (format_places n))" "(r0 + i, c0 + j) \<notin> set (snd (format_places n))" by (metis Un_iff fst_conv snd_conv)+
  show "qr_modules v cws (r0 + i, c0 + j) = finder_on (int i) (int j)"
    using reserved_untouched [OF assms(1,2) b f nf] finder_drawn [OF assms] by simp
qed

lemma format_drawn:
  assumes "n = 17 + 4 * v"
  shows "map (qr_modules v cws) (fst (format_places n)) = map (\<lambda>b. b = 1) format_bits" "map (qr_modules v cws) (snd (format_places n)) = map (\<lambda>b. b = 1) format_bits"
    "list_all (\<lambda>p. fst p < n \<and> snd p < n) (fst (format_places n))" "list_all (\<lambda>p. fst p < n \<and> snd p < n) (snd (format_places n))"
proof -
  obtain m where m: "qr_modules v cws = draw_format (snd (format_places n)) (draw_format (fst (format_places n)) m)"
    unfolding qr_modules_def Let_def assms by blast
  have d: "distinct (fst (format_places n))" "distinct (snd (format_places n))" "length (fst (format_places n)) = 15" "length (snd (format_places n)) = 15"
    unfolding assms using format_distinct [of "4 * v"] by (simp_all add: format_places_def)
  have disj: "list_all (\<lambda>p. p \<notin> set (snd (format_places n))) (fst (format_places n))" by (simp add: format_places_def assms)
  show "map (qr_modules v cws) (snd (format_places n)) = map (\<lambda>b. b = 1) format_bits" unfolding m by (rule draw_format_read [OF d(2,4)])
  have "map (qr_modules v cws) (fst (format_places n)) = map (draw_format (fst (format_places n)) m) (fst (format_places n))"
    unfolding m using disj by (simp add: draw_format_other list_all_iff)
  then show "map (qr_modules v cws) (fst (format_places n)) = map (\<lambda>b. b = 1) format_bits" using draw_format_read [OF d(1,3)] by simp
  show "list_all (\<lambda>p. fst p < n \<and> snd p < n) (fst (format_places n))" "list_all (\<lambda>p. fst p < n \<and> snd p < n) (snd (format_places n))"
    by (simp_all add: format_places_def assms)
qed

lemma matrix_drawn:
  fixes cws :: "nat list"
  assumes "qr_ok v"
  defines "m \<equiv> map (\<lambda>r. map (\<lambda>c. qr_modules v cws (r, c)) [0..<17 + 4 * v]) [0..<17 + 4 * v]"
  shows "well_drawn m"
proof -
  define n where "n = 17 + 4 * v"
  have len: "length m = n" "list_all (\<lambda>row. length row = n) m" by (simp_all add: m_def n_def list_all_iff)
  have nth: "m ! r ! c = qr_modules v cws (r, c)" if "r < n" "c < n" for r c using that by (simp add: m_def n_def)
  have find: "has_finder m r0 c0" if "(r0, c0) \<in> {(0, 0), (0, n - 7), (n - 7, 0)}" for r0 c0
    using finder_clear [OF assms(1) n_def that] nth by (simp add: has_finder_def list_all_iff)
  have form: "has_format m ps" if "map (qr_modules v cws) ps = map (\<lambda>b. b = 1) format_bits" "list_all (\<lambda>p. fst p < n \<and> snd p < n) ps" for ps
  proof -
    have "map (\<lambda>(r, c). m ! r ! c) ps = map (qr_modules v cws) ps" using that(2) nth by (auto simp: list_all_iff)
    then show ?thesis using that(1) by (simp only: has_format_def)
  qed
  have "n \<in> {21, 25, 29, 33, 37, 41}" using qr_ok_cases [OF assms(1)] by (auto simp: n_def)
  then show ?thesis unfolding well_drawn_def Let_def len(1) using len(2) find form format_drawn(1,2) [OF n_def, of cws] format_drawn(3,4) [OF n_def] by simp
qed

section \<open>Versions\<close>

lemma qr_version_Some: "qr_version len = Some v \<Longrightarrow> qr_ok v \<and> 2 + len \<le> qrDataCodewords v"
  unfolding qr_version_def by (auto simp: find_Some_iff qr_ok_def)

lemma qr_version_None: "qr_version len = None \<longleftrightarrow> 106 < len"
proof -
  have "qr_version len = None \<longleftrightarrow> (\<forall>v\<in>set [1..<7]. qrDataCodewords v < 2 + len)" 
    unfolding qr_version_def find_None_iff by (auto simp: not_le)
  also have "set [1..<7] = {1, 2, 3, 4, 5, 6 :: nat}" by auto
  finally show ?thesis by (auto simp: qrDataCodewords_def qrRSGroups_def)
qed

end
