(* ===== verification/Qr_Properties.thy ===== *)
theory Qr_Properties
  imports Einv_Qr Qr_Symbol Einv_Demo
begin

text \<open>
  The properties of QR symbols and of the signed payloads they carry, each with a witness, and what
  happens to a payload that is too long or signed with another key.
\<close>

section \<open>Symbols\<close>

lemma qr_symbol: "bytes256 payload \<Longrightarrow> QRMatrix payload = Inr m \<Longrightarrow> well_drawn m \<and> qr_scan m = Some payload"
  using scan_matrix matrix_drawn qr_version_Some by (fastforce simp: QRMatrix_def qrEncodeData_def Let_def split: option.splits)

lemma qr_too_long: "106 < length payload \<Longrightarrow> \<exists>e. QRMatrix payload = Inl e"
  using qr_version_None [of "length payload"] by (simp add: QRMatrix_def qrEncodeData_def)

lemma qr_symbol_exists: "length payload \<le> 106 \<Longrightarrow> \<exists>m. QRMatrix payload = Inr m"
  using qr_version_None [of "length payload"] by (cases "qr_version (length payload)") (simp_all add: QRMatrix_def qrEncodeData_def Let_def)

lemma hamming_same [simp]: "hamming xs xs = 0"
  by (induction xs) (simp_all add: hamming_def)

text \<open>C11. Every payload of at most 106 bytes becomes a symbol that is well drawn (a square of the size of its version, with the three finder patterns and the format
  information twice) and from which a reader that follows the layout reads exactly the payload; a longer payload is refused.\<close>

theorem qr_scans_back:
  assumes "bytes256 payload"
  shows "case QRMatrix payload of Inl e \<Rightarrow> 106 < length payload | Inr m \<Rightarrow> length payload \<le> 106 \<and> well_drawn m \<and> qr_scan m = Some payload"
proof (cases "106 < length payload")
  case True
  then show ?thesis using qr_too_long [of payload] by auto
next
  case False
  then show ?thesis using qr_symbol_exists [of payload] qr_symbol [OF assms] by auto
qed

theorem qr_scans_back_witness: "\<exists>m. QRMatrix [78, 82, 83, 49] = Inr m \<and> well_drawn m \<and> qr_scan m = Some [78, 82, 83, 49]"
  using qr_scans_back [of "[78, 82, 83, 49]"] by (cases "QRMatrix [78, 82, 83, 49]") simp_all

text \<open>C22. Damage does not make a symbol ambiguous: when in every block of a received word at most half as many bytes are wrong as the block has check bytes, every other
  payload of the same version is farther away, in some block.\<close>

theorem qr_damage_unambiguous:
  assumes "bytes256 p1" "bytes256 p2" "p1 \<noteq> p2" "qrEncodeData p1 = Inr (v, c1)" "qrEncodeData p2 = Inr (v, c2)" "qr_layout v = (cnt, tot, dlen)"
    and "\<forall>i<cnt. 2 * hamming (read_block v c1 i) (read_block v w i) \<le> tot - dlen"
  shows "\<exists>i<cnt. tot - dlen < 2 * hamming (read_block v c2 i) (read_block v w i)"
proof (rule ccontr)
  assume "\<not> ?thesis"
  then have close: "2 * hamming (read_block v c2 i) (read_block v w i) \<le> tot - dlen" if "i < cnt" for i using that by (meson not_less)
  have enc: "qr_ok v \<and> 2 + length p \<le> qrDataCodewords v \<and> c = qr_codewords v p" if "qrEncodeData p = Inr (v, c)" for p c
    using that qr_version_Some [of "length p"] by (auto simp: qrEncodeData_def split: option.splits)
  note e1 = enc [OF assms(4)] and e2 = enc [OF assms(5)]
  note lay = qr_layout_ok [OF conjunct1 [OF e1] assms(6)]
  have rb: "read_block v c i = block_word v p i" if "qrEncodeData p = Inr (v, c)" "i < cnt" for p c i
    using enc [OF that(1)] read_codewords(3) [of v p cnt tot dlen i "[]"] assms(6) that(2) by simp
  have "block_word v p1 i = block_word v p2 i" if i: "i < cnt" for i
  proof -
    note b1 = block_props [OF conjunct1 [OF e1] _ assms(6) i, of p1] and b2 = block_props [OF conjunct1 [OF e2] _ assms(6) i, of p2]
    have "block_data v p1 i = block_data v p2 i"
    proof (rule rs_correctable [of _ _ "tot - dlen" "read_block v w i"])
      show "2 * hamming (block_data v p1 i @ rsEncode (block_data v p1 i) (tot - dlen)) (read_block v w i) \<le> tot - dlen"
        using assms(7) [rule_format, OF i] rb [OF assms(4) i] by (simp add: block_word_def assms(6))
      show "2 * hamming (block_data v p2 i @ rsEncode (block_data v p2 i) (tot - dlen)) (read_block v w i) \<le> tot - dlen"
        using close [OF i] rb [OF assms(5) i] by (simp add: block_word_def assms(6))
    qed (use b1 b2 e1 e2 lay in \<open>simp_all add: read_block_def assms(6)\<close>)
    then show ?thesis by (simp add: block_word_def assms(6))
  qed
  then have "read_data v c1 = read_data v c2" unfolding read_data_def assms(6) prod.case
    using rb [OF assms(4)] rb [OF assms(5)] by (intro arg_cong [of _ _ concat] map_cong) simp_all
  then have "qr_decode v c1 = qr_decode v c2" by (simp add: qr_decode_def)
  then show False using decode_codewords [of v p1 "[]"] decode_codewords [of v p2 "[]"] e1 e2 assms(1-3) by simp
qed

theorem qr_damage_unambiguous_witness:
  "10 < 2 * hamming (read_block 1 (qr_codewords 1 [79]) 0) (read_block 1 (qr_codewords 1 [78]) 0)"
proof -
  have "qr_version 1 = Some 1" by code_simp
  then have e: "qrEncodeData [78] = Inr (1, qr_codewords 1 [78])" "qrEncodeData [79] = Inr (1, qr_codewords 1 [79])" by (simp_all add: qrEncodeData_def)
  have l: "qr_layout 1 = (1, 26, 16)" by (simp add: qr_layout_def qrRSGroups_def)
  have same: "\<forall>i<1. 2 * hamming (read_block 1 (qr_codewords 1 [78]) i) (read_block 1 (qr_codewords 1 [78]) i) \<le> 26 - 16"
    by simp
  have b: "bytes256 [78]" "bytes256 [79]" "[78] \<noteq> [79 :: nat]" by simp_all
  show ?thesis using qr_damage_unambiguous [OF b e l same] by simp
qed

section \<open>Payloads\<close>

lemma bytes_of_bytes: "bytes256 (bytes_of s)"
proof -
  have "(of_char c :: nat) < 256" for c :: char using of_char_mod_256 [of c] mod_less_divisor [of 256 "of_char c"] by simp
  then show ?thesis by (simp add: bytes_of_def list_all_iff)
qed

text \<open>C24. The QR code served for an invoice is one of an invoice with an IRN that the caller may see; its symbol scans to the text in the answer, that is \<open>NRS1\<close>, IRN, TIN of
  the supplier, payable amount and time of the invoice followed by a signature of twelve digits; the signature verifies under the key of the service, and no other one does.\<close>

theorem qr_served_verifies:
  assumes "handleGetQR env prov utc ctx i rs = Reply 200 q"
  shows "\<exists>v m. GetInvoice i (wsStore (snd rs)) = Some v \<and> (case ctx of None \<Rightarrow> True | Some c \<Rightarrow> ciTenantID v \<in> {'''', TenantID c}) \<and>
    IRN v \<noteq> '''' \<and> qrIRN q = IRN v \<and> qrPayload q = qr_text utc v @ ''|'' @ qrSignature q \<and> length (qrSignature q) = 12 \<and>
    qrSvg q = QRSVG m 4 \<and> well_drawn m \<and> qr_scan m = Some (bytes_of (qrPayload q)) \<and>
    (\<forall>sig. VerifyQRPayloadE env prov (qr_text utc v) sig = Inr True \<longleftrightarrow> sig = qrSignature q)"
proof -
  obtain v where v: "GetInvoice i (wsStore (snd rs)) = Some v" using assms by (auto simp: handleGetQR_def split: option.splits)
  have g: "tenantGuard ctx v = (None :: qr_reply response option)" "IRN v \<noteq> ''''"
    using assms v by (auto simp: handleGetQR_def tenantGuard_def split: option.splits if_splits)
  obtain payload sig where p: "QRPayloadECtx env prov utc v = Inr (payload, sig)"
    using assms v g by (auto simp: handleGetQR_def split: sum.splits qr_error.splits)
  obtain m where m: "QRMatrix (bytes_of (payload @ ''|'' @ sig)) = Inr m"
    "q = \<lparr>qrInvoiceID = ciID v, qrIRN = IRN v, qrPayload = payload @ ''|'' @ sig, qrSignature = sig, qrSvg = QRSVG m 4\<rparr>"
    using assms v g p by (auto simp: handleGetQR_def split: sum.splits)
  obtain mac where mac: "qrMACCtx env prov payload = Some mac" "short_mac mac = Inr sig" "payload = qr_text utc v"
    using p by (auto simp: QRPayloadECtx_def Let_def split: option.splits sum.splits)
  have "length sig = 12" using mac(2) by (auto simp: short_mac_def Let_def split: if_splits)
  moreover have "well_drawn m \<and> qr_scan m = Some (bytes_of (payload @ ''|'' @ sig))" using qr_symbol [OF bytes_of_bytes m(1)] by blast
  moreover have "VerifyQRPayloadE env prov (qr_text utc v) s = Inr True \<longleftrightarrow> s = sig" for s using mac by (auto simp: VerifyQRPayloadE_def)
  moreover have "case ctx of None \<Rightarrow> True | Some c \<Rightarrow> ciTenantID v \<in> {'''', TenantID c}"
    using g(1) by (auto simp: tenantGuard_def split: option.splits if_splits)
  ultimately show ?thesis using v g(2) m(2) mac(3) by auto
qed

definition demo_mac :: qr_env where
  "demo_mac = ((\<lambda>k t. replicate 32 (length t)), ''key'')"

definition demo_utc :: "int option \<Rightarrow> string" where
  "demo_utc t = ''2026-01-15T10:00:00Z''"

definition demo_qr :: "qr_reply response" where
  "demo_qr = handleGetQR demo_mac None demo_utc (Some demo_claims) ''i1'' (demo_runner, demo_state (NewInvoiceStore [demo_signed]))"

lemma demo_qr_reply: "\<exists>q. demo_qr = Reply 200 q"
proof -
  have i: "GetInvoice ''i1'' (NewInvoiceStore [demo_signed]) = Some demo_signed" by (simp add: GetInvoice_def demo_signed_store)
  have g: "tenantGuard (Some demo_claims) demo_signed = (None :: qr_reply response option)" "IRN demo_signed = ''INV7-ABCD1234-20260115''"
    by (simp_all add: tenantGuard_def demo_signed_def demo_draft_def demo_claims_def)
  have t: "qr_text demo_utc demo_signed = ''NRS1|INV7-ABCD1234-20260115|12345678|107500|20260115100000''"
    by (simp add: qr_text_def qr_stamp_def demo_utc_def demo_signed_def demo_draft_def demo_inv_def demo_party_def show_int_def show_nat.simps digit_char_def char_of_def bit_0)
  have p: "QRPayloadECtx demo_mac None demo_utc demo_signed = Inr (qr_text demo_utc demo_signed, ''3a3a3a3a3a3a'')"
  proof -
    have "fst demo_mac k (qr_text demo_utc demo_signed) = replicate 32 58" for k by (simp add: demo_mac_def t)
    moreover have "short_mac (replicate 32 58) = Inr ''3a3a3a3a3a3a''" by code_simp
    ultimately show ?thesis by (simp add: QRPayloadECtx_def Let_def qrMACCtx_def)
  qed
  have "\<exists>m. QRMatrix (bytes_of (qr_text demo_utc demo_signed @ ''|'' @ ''3a3a3a3a3a3a'')) = Inr m"
    by (rule qr_symbol_exists) (simp add: bytes_of_def t)
  then show ?thesis unfolding demo_qr_def handleGetQR_def by (auto simp: demo_state_def i g p)
qed

theorem qr_served_verifies_witness:
  "VerifyQRPayloadE demo_mac None (qr_text demo_utc demo_signed) (case demo_qr of Reply _ q \<Rightarrow> qrSignature q) = Inr True"
proof -
  obtain q where q: "demo_qr = Reply 200 q" using demo_qr_reply by blast
  have "GetInvoice ''i1'' (wsStore (snd (demo_runner, demo_state (NewInvoiceStore [demo_signed])))) = Some demo_signed"
    by (simp add: GetInvoice_def demo_signed_store demo_state_def)
  with qr_served_verifies [OF q [unfolded demo_qr_def]] show ?thesis by (auto simp: q)
qed

section \<open>Where the payload falls short\<close>

text \<open>The text of an invoice is not bounded: with a long invoice number, and so a long IRN, the payload does not fit a symbol, and the QR code of a cleared invoice is refused
  with an error of the server although the comment on \<^verbatim>\<open>QRPayload\<close> says that it always fits.\<close>

theorem long_irn_has_no_qr:
  assumes "GetInvoice i (wsStore (snd rs)) = Some v" "tenantGuard ctx v = (None :: qr_reply response option)" "QRPayloadECtx env prov utc v = Inr (payload, sig)"
    and "88 < length (IRN v)"
  shows "handleGetQR env prov utc ctx i rs = Problem 500 ''qr error''"
proof -
  have "payload = qr_text utc v" "length sig = 12" using assms(3)
    by (auto simp: QRPayloadECtx_def Let_def short_mac_def split: option.splits sum.splits if_splits)
  then have "106 < length (bytes_of (payload @ ''|'' @ sig))" using assms(4) by (simp add: bytes_of_def qr_text_def)
  then obtain e where "QRMatrix (bytes_of (payload @ ''|'' @ sig)) = Inl e" using qr_too_long by blast
  then show ?thesis using assms by (auto simp: handleGetQR_def)
qed

text \<open>The answers of the NRS handlers sign with the key of the environment even when a key provider is configured: unless both sign alike, the signature they carry does
  not verify with the provider.\<close>

theorem nrs_answers_bypass_provider:
  assumes "pvMode p \<noteq> ''software''" "pvSign p ''qr-hmac'' (qr_text utc v) = Some mac" "short_mac mac = Inr good"
    and "nrs_qr env utc v = Inr (Some (payload, sig, svg))" "sig \<noteq> good"
  shows "VerifyQRPayloadE env (Some p) (qr_text utc v) sig = Inr False \<and> VerifyQRPayloadE env None (qr_text utc v) sig = Inr True"
proof -
  obtain pl where "QRPayload env utc v = Inr (pl, sig)" using assms(4) by (auto simp: nrs_qr_def split: if_splits sum.splits)
  then obtain mac' where "qrMACCtx env None (qr_text utc v) = Some mac'" "short_mac mac' = Inr sig"
    by (auto simp: QRPayload_def QRPayloadECtx_def qrMACCtx_def short_mac_def Let_def split: sum.splits qr_error.splits if_splits)
  then show ?thesis using assms(1-3,5) by (simp add: VerifyQRPayloadE_def qrMACCtx_def)
qed

end
