(* ===== verification/Einv_Rail.thy ===== *)
theory Einv_Rail
  imports Einv_Preclear
begin

text \<open>
  The client of the live NRS rail (\<^verbatim>\<open>services/einvoicing/nrs_rail.go\<close>): its configuration, the endpoint
  catalogue, the login flow with its cached token, authenticated requests with one retry after a 401,
  pre-clearance and B2C reports.

  The client keeps its token and a log of the requests it has sent. The rail is a function that answers
  the latest request from the whole log, so it may answer the same request differently later. Encoding
  of payloads, decoding of answers and the check of an URL are parameters.
\<close>

section \<open>Configuration\<close>

record NRSEndpoints =
  AuthLogin :: string
  InvoiceUpload :: string
  InvoiceUpdate :: string
  InvoiceStatus :: string
  InvoiceList :: string
  TaxCategoriesPath :: string
  InvoiceTypesPath :: string
  PaymentMeansPath :: string
  ServiceCodesPath :: string
  ProductCodesPath :: string
  LGAsPath :: string
  CurrenciesPath :: string
  StatesPath :: string
  CountriesPath :: string

definition NRSEndpointCatalog :: NRSEndpoints where
  "NRSEndpointCatalog =
     \<lparr>AuthLogin = ''/api/v1/auth/login'', InvoiceUpload = ''/api/v1/invoice/upload'',
      InvoiceUpdate = ''/api/v1/invoice/update/{irn}'', InvoiceStatus = ''/api/v1/invoice/{irn}'',
      InvoiceList = ''/api/v1/invoice/list'', TaxCategoriesPath = ''/api/v1/resources/tax-categories'',
      InvoiceTypesPath = ''/api/v1/resources/invoice-types'', PaymentMeansPath = ''/api/v1/resources/payment-means'',
      ServiceCodesPath = ''/api/v1/resources/service-codes'', ProductCodesPath = ''/api/v1/resources/product-codes'',
      LGAsPath = ''/api/v1/resources/lgas'', CurrenciesPath = ''/api/v1/resources/currencies'',
      StatesPath = ''/api/v1/resources/states'', CountriesPath = ''/api/v1/resources/countries''\<rparr>"

text \<open>\<^verbatim>\<open>strings.ReplaceAll\<close> for a pattern that is not empty.\<close>

function replace_all :: "string \<Rightarrow> string \<Rightarrow> string \<Rightarrow> string" where
  "replace_all [] pat rep = []"
| "replace_all (c # cs) pat rep =
     (if pat \<noteq> [] \<and> take (length pat) (c # cs) = pat then rep @ replace_all (drop (length pat) (c # cs)) pat rep
      else c # replace_all cs pat rep)"
  by pat_completeness auto

termination
  by (relation "measure (\<lambda>(s, pat, rep). length s)") (auto simp: Suc_le_eq diff_less_Suc)

definition InvoiceUpdatePath :: "NRSEndpoints \<Rightarrow> string \<Rightarrow> string" where
  "InvoiceUpdatePath e irn = replace_all (InvoiceUpdate e) ''{irn}'' irn"

definition InvoiceStatusPath :: "NRSEndpoints \<Rightarrow> string \<Rightarrow> string" where
  "InvoiceStatusPath e irn = replace_all (InvoiceStatus e) ''{irn}'' irn"

record LiveRailConfig =
  lcBaseURL :: string
  lcAPIKey :: string
  lcAPISecret :: string
  lcEmail :: string
  lcPassword :: string
  lcServiceID :: string

fun firstEnv :: "(string \<Rightarrow> string) \<Rightarrow> string list \<Rightarrow> string" where
  "firstEnv env [] = ''''"
| "firstEnv env (k # ks) = (if env k \<noteq> '''' then env k else firstEnv env ks)"

definition trim_slashes :: "string \<Rightarrow> string" where
  "trim_slashes s = rev (dropWhile (\<lambda>c. c = CHR ''/'') (rev s))"

datatype config_error = MissingVars "string list" | PlainURL string

definition LiveRailConfigFromEnv :: "(string \<Rightarrow> string) \<Rightarrow> config_error + LiveRailConfig" where
  "LiveRailConfigFromEnv env =
     (let cfg = \<lparr>lcBaseURL = trim_slashes (env ''MBS_LIVE_BASE_URL''), lcAPIKey = env ''MBS_LIVE_API_KEY'', lcAPISecret = env ''MBS_LIVE_API_SECRET'',
                 lcEmail = env ''MBS_LIVE_EMAIL'', lcPassword = env ''MBS_LIVE_PASSWORD'', lcServiceID = firstEnv env [''NRS_SERVICE_ID'']\<rparr>;
          missing = (if lcBaseURL cfg = '''' then [''MBS_LIVE_BASE_URL''] else []) @ (if lcAPIKey cfg = '''' then [''MBS_LIVE_API_KEY''] else []) @
                    (if lcAPISecret cfg = '''' then [''MBS_LIVE_API_SECRET''] else []) @ (if lcEmail cfg = '''' then [''MBS_LIVE_EMAIL''] else []) @
                    (if lcPassword cfg = '''' then [''MBS_LIVE_PASSWORD''] else [])
      in if missing \<noteq> [] then Inl (MissingVars missing)
         else if \<not> HasPrefix (ToLower (lcBaseURL cfg)) ''https://'' then Inl (PlainURL (lcBaseURL cfg))
         else Inr cfg)"

definition selectMBSProfile :: "(string \<Rightarrow> string) \<Rightarrow> string" where
  "selectMBSProfile env = ToLower (TrimSpace (env ''MBS_PROFILE''))"

section \<open>Requests\<close>

text \<open>A call carries key, secret, bearer token and body.\<close>

datatype rail_request = LoginPost string string string | RailCall string string string string string string

datatype rail_answer = NoAnswer | RailAnswer nat string \<comment> \<open>status, body\<close>

record rail =
  rlAnswer :: "rail_request list \<Rightarrow> rail_answer"
  rlURLOk :: "string \<Rightarrow> bool"
  rlToken :: "string \<Rightarrow> string option" \<comment> \<open>the token in the body of a login answer\<close>

record LiveRailClient =
  lrCfg :: LiveRailConfig
  lrEndpoints :: NRSEndpoints
  lrToken :: string
  lrSent :: "rail_request list"

definition NewLiveRailClient :: "LiveRailConfig \<Rightarrow> LiveRailClient" where
  "NewLiveRailClient cfg = \<lparr>lrCfg = cfg, lrEndpoints = NRSEndpointCatalog, lrToken = '''', lrSent = []\<rparr>"

datatype rail_error = BadURL | NoResponse | LoginDecode | LoginFailed nat | NoToken | Unauthorized | RailStatus nat | BadBody | EncodeFailed |
  RefreshFailed rail_error | UnknownStatus string

definition rail_send :: "rail \<Rightarrow> rail_request \<Rightarrow> LiveRailClient \<Rightarrow> LiveRailClient \<times> rail_answer" where
  "rail_send r rq c = (let log = lrSent c @ [rq] in (c\<lparr>lrSent := log\<rparr>, rlAnswer r log))"

definition login :: "rail \<Rightarrow> LiveRailClient \<Rightarrow> LiveRailClient \<times> rail_error option" where
  "login r c =
     (let url = lcBaseURL (lrCfg c) @ AuthLogin (lrEndpoints c)
      in if \<not> rlURLOk r url then (c, Some BadURL)
         else (case rail_send r (LoginPost url (lcEmail (lrCfg c)) (lcPassword (lrCfg c))) c of
                 (c1, NoAnswer) \<Rightarrow> (c1, Some NoResponse)
               | (c1, RailAnswer status body) \<Rightarrow>
                   (case rlToken r body of
                      None \<Rightarrow> (c1, Some LoginDecode)
                    | Some tok \<Rightarrow>
                        if status \<noteq> 200 \<or> tok = '''' then (c1, Some (LoginFailed status))
                        else (c1\<lparr>lrToken := tok\<rparr>, None))))"

definition refreshToken :: "rail \<Rightarrow> LiveRailClient \<Rightarrow> LiveRailClient \<times> (rail_error + string)" where
  "refreshToken r c =
     (if lrToken c \<noteq> '''' then (c, Inr (lrToken c))
      else (case login r c of
              (c1, Some e) \<Rightarrow> (c1, Inl e)
            | (c1, None) \<Rightarrow> if lrToken c1 = '''' then (c1, Inl NoToken) else (c1, Inr (lrToken c1))))"

definition accessToken :: "rail \<Rightarrow> LiveRailClient \<Rightarrow> LiveRailClient \<times> (rail_error + string)" where
  "accessToken r c = (if lrToken c \<noteq> '''' then (c, Inr (lrToken c)) else refreshToken r c)"

definition invalidateToken :: "LiveRailClient \<Rightarrow> LiveRailClient" where
  "invalidateToken c = c\<lparr>lrToken := ''''\<rparr>"

text \<open>\<open>payload\<close>: the encoded body, \<open>None\<close> when it does not encode.\<close>

definition newRequest :: "rail \<Rightarrow> string \<Rightarrow> string \<Rightarrow> string option \<Rightarrow> LiveRailClient \<Rightarrow> LiveRailClient \<times> (rail_error + rail_request)" where
  "newRequest r method path payload c =
     (case accessToken r c of
        (c1, Inl e) \<Rightarrow> (c1, Inl e)
      | (c1, Inr tok) \<Rightarrow>
          (case payload of
             None \<Rightarrow> (c1, Inl EncodeFailed)
           | Some body \<Rightarrow>
               (let url = lcBaseURL (lrCfg c1) @ path
                in if \<not> rlURLOk r url then (c1, Inl BadURL)
                   else (c1, Inr (RailCall method url (lcAPIKey (lrCfg c1)) (lcAPISecret (lrCfg c1)) (''Bearer '' @ tok) body)))))"

definition rail_do :: "rail \<Rightarrow> (string \<Rightarrow> 'a option) \<Rightarrow> rail_request \<Rightarrow> LiveRailClient \<Rightarrow> LiveRailClient \<times> (rail_error + 'a)" where
  "rail_do r decode rq c =
     (case rail_send r rq c of
        (c1, NoAnswer) \<Rightarrow> (c1, Inl NoResponse)
      | (c1, RailAnswer status body) \<Rightarrow>
          if status = 401 then (c1, Inl Unauthorized)
          else if status < 200 \<or> status > 299 then (c1, Inl (RailStatus status))
          else (case decode body of None \<Rightarrow> (c1, Inl BadBody) | Some x \<Rightarrow> (c1, Inr x)))"

fun with_bearer :: "string \<Rightarrow> rail_request \<Rightarrow> rail_request" where
  "with_bearer tok (RailCall m u k s b body) = RailCall m u k s (''Bearer '' @ tok) body"
| "with_bearer tok rq = rq"

definition doAuthed :: "rail \<Rightarrow> (string \<Rightarrow> 'a option) \<Rightarrow> string \<Rightarrow> string \<Rightarrow> string option \<Rightarrow> LiveRailClient \<Rightarrow> LiveRailClient \<times> (rail_error + 'a)" where
  "doAuthed r decode method path payload c =
     (case newRequest r method path payload c of
        (c1, Inl e) \<Rightarrow> (c1, Inl e)
      | (c1, Inr rq) \<Rightarrow>
          (case rail_do r decode rq c1 of
             (c2, Inl Unauthorized) \<Rightarrow>
               (case refreshToken r (invalidateToken c2) of
                  (c3, Inl e) \<Rightarrow> (c3, Inl (RefreshFailed e))
                | (c3, Inr tok) \<Rightarrow>
                    (case newRequest r method path payload c3 of
                       (c4, Inl e) \<Rightarrow> (c4, Inl e)
                     | (c4, Inr rq2) \<Rightarrow> rail_do r decode (with_bearer tok rq2) c4))
           | res \<Rightarrow> res))"

section \<open>Clearance\<close>

text \<open>\<open>enc\<close> encodes the payload; \<open>decode\<close> reads the part \<^verbatim>\<open>data\<close> of the answer.\<close>

definition LivePreclear :: "rail \<Rightarrow> (CanonicalInvoice \<Rightarrow> string \<Rightarrow> string option) \<Rightarrow> (string \<Rightarrow> ClearanceResult option) \<Rightarrow>
    CanonicalInvoice \<Rightarrow> string \<Rightarrow> LiveRailClient \<Rightarrow> LiveRailClient \<times> (rail_error + ClearanceResult)" where
  "LivePreclear r enc decode v xml c =
     (case doAuthed r decode ''POST'' (InvoiceUpload (lrEndpoints c)) (enc v xml) c of
        (c1, Inl e) \<Rightarrow> (c1, Inl e)
      | (c1, Inr res) \<Rightarrow>
          if crStatus res \<noteq> ''cleared'' \<and> crStatus res \<noteq> ''rejected'' then (c1, Inl (UnknownStatus (crStatus res)))
          else (c1, Inr (if crIRN res = '''' then res\<lparr>crIRN := IRN v\<rparr> else res)))"

definition LiveReportB2C :: "rail \<Rightarrow> (CanonicalInvoice \<Rightarrow> string option) \<Rightarrow> (string \<Rightarrow> B2CReportReceipt option) \<Rightarrow>
    CanonicalInvoice \<Rightarrow> LiveRailClient \<Rightarrow> LiveRailClient \<times> (rail_error + B2CReportReceipt)" where
  "LiveReportB2C r enc decode v c =
     (case doAuthed r decode ''POST'' (InvoiceUpload (lrEndpoints c)) (enc v) c of
        (c1, Inl e) \<Rightarrow> (c1, Inl e)
      | (c1, Inr rec) \<Rightarrow>
          if rcStatus rec \<noteq> ''accepted'' \<and> rcStatus rec \<noteq> ''rejected'' then (c1, Inl (UnknownStatus (rcStatus rec)))
          else (c1, Inr (if rcIRN rec = '''' then rec\<lparr>rcIRN := IRN v\<rparr> else rec)))"

end
