(* ===== verification/Einv_Rail_Properties.thy ===== *)
theory Einv_Rail_Properties
  imports Einv_Rail Einv_Demo
begin

text \<open>
  What the client of the live rail sends and accepts: bounded exchanges, credentials on every call, no
  clearance that the rail did not state, recovery from an expired token, and a configuration that is
  complete or refused.
\<close>

section \<open>The log of a call\<close>

definition login_request :: "LiveRailClient \<Rightarrow> rail_request" where
  "login_request c = LoginPost (lcBaseURL (lrCfg c) @ AuthLogin (lrEndpoints c)) (lcEmail (lrCfg c)) (lcPassword (lrCfg c))"

text \<open>\<open>c1\<close> is \<open>c\<close> after the requests \<open>log\<close>, up to its token.\<close>

definition after :: "rail_request list \<Rightarrow> LiveRailClient \<Rightarrow> LiveRailClient \<Rightarrow> bool" where
  "after log c c1 \<longleftrightarrow> lrCfg c1 = lrCfg c \<and> lrEndpoints c1 = lrEndpoints c \<and> lrSent c1 = lrSent c @ log"

lemma after_trans: "after l1 c c1 \<Longrightarrow> after l2 c1 c2 \<Longrightarrow> after (l1 @ l2) c c2"
  by (simp add: after_def)

lemma after_requests [simp]: "after log c c1 \<Longrightarrow> login_request c1 = login_request c"
  by (simp add: after_def login_request_def)

lemma rail_send_after: "rail_send r rq c = (c1, a) \<Longrightarrow> after [rq] c c1 \<and> lrToken c1 = lrToken c \<and> a = rlAnswer r (lrSent c1)"
  by (auto simp: rail_send_def after_def Let_def)

lemma login_after:
  assumes "login r c = (c1, e)"
  shows "\<exists>log. after log c c1 \<and> log \<in> {[], [login_request c]} \<and> (e = None \<longrightarrow> lrToken c1 \<noteq> '''')"
proof (cases "rlURLOk r (lcBaseURL (lrCfg c) @ AuthLogin (lrEndpoints c))")
  case True
  obtain c2 a where s: "rail_send r (login_request c) c = (c2, a)" by fastforce
  note f = rail_send_after [OF s]
  have "after [login_request c] c c1 \<and> (e = None \<longrightarrow> lrToken c1 \<noteq> '''')"
    using assms True s f by (auto simp: login_def Let_def login_request_def after_def split: rail_answer.splits option.splits if_splits)
  then show ?thesis by blast
next
  case False
  then show ?thesis using assms by (auto simp: login_def Let_def after_def)
qed

lemma refresh_after:
  assumes "refreshToken r c = (c1, x)"
  shows "\<exists>log. after log c c1 \<and> log \<in> (if lrToken c = '''' then {[], [login_request c]} else {[]}) \<and> (\<forall>tok. x = Inr tok \<longrightarrow> tok = lrToken c1 \<and> tok \<noteq> '''')"
proof (cases "lrToken c = ''''")
  case True
  obtain c2 e where l: "login r c = (c2, e)" by fastforce
  then show ?thesis using assms True login_after [OF l] by (auto simp: refreshToken_def split: option.splits if_splits)
next
  case False
  then show ?thesis using assms by (auto simp: refreshToken_def after_def)
qed

lemma access_refresh: "accessToken r c = refreshToken r c"
  by (simp add: accessToken_def refreshToken_def)

definition upload_call :: "LiveRailClient \<Rightarrow> string \<Rightarrow> string \<Rightarrow> string \<Rightarrow> string \<Rightarrow> rail_request" where
  "upload_call c verb path body tok =
     RailCall verb (lcBaseURL (lrCfg c) @ path) (lcAPIKey (lrCfg c)) (lcAPISecret (lrCfg c)) (''Bearer '' @ tok) body"

lemma request_after:
  assumes "newRequest r verb path payload c = (c1, x)"
  shows "\<exists>log. after log c c1 \<and> log \<in> (if lrToken c = '''' then {[], [login_request c]} else {[]}) \<and>
    (\<forall>rq. x = Inr rq \<longrightarrow> (\<exists>body. payload = Some body \<and> rq = upload_call c verb path body (lrToken c1) \<and> lrToken c1 \<noteq> ''''))"
proof -
  obtain c2 y where a: "refreshToken r c = (c2, y)" by fastforce
  obtain log where f: "after log c c2" "log \<in> (if lrToken c = '''' then {[], [login_request c]} else {[]})" "\<forall>tok. y = Inr tok \<longrightarrow> tok = lrToken c2 \<and> tok \<noteq> ''''"
    using refresh_after [OF a] by blast
  have "c1 = c2" using assms a by (auto simp: newRequest_def access_refresh Let_def split: sum.splits option.splits if_splits)
  moreover have "\<exists>body. payload = Some body \<and> rq = upload_call c verb path body (lrToken c2) \<and> lrToken c2 \<noteq> ''''" if "x = Inr rq" for rq
    using assms a f that by (auto simp: newRequest_def access_refresh Let_def upload_call_def after_def split: sum.splits option.splits if_splits)
  ultimately show ?thesis using f(1,2) by blast
qed

text \<open>A result is what an answer of success to the latest request decodes to.\<close>

definition accepted_as :: "rail \<Rightarrow> (string \<Rightarrow> 'a option) \<Rightarrow> LiveRailClient \<Rightarrow> 'a \<Rightarrow> bool" where
  "accepted_as r decode c y \<longleftrightarrow> (case rlAnswer r (lrSent c) of NoAnswer \<Rightarrow> False | RailAnswer status body \<Rightarrow> 200 \<le> status \<and> status \<le> 299 \<and> decode body = Some y)"

lemma do_after:
  assumes "rail_do r decode rq c = (c1, x)"
  shows "after [rq] c c1 \<and> lrToken c1 = lrToken c \<and> (\<forall>y. x = Inr y \<longrightarrow> accepted_as r decode c1 y)"
proof -
  obtain c2 a where s: "rail_send r rq c = (c2, a)" by fastforce
  then show ?thesis using assms rail_send_after [OF s] by (fastforce simp: rail_do_def accepted_as_def split: rail_answer.splits option.splits if_splits)
qed

text \<open>The requests of an authenticated call: at most two logins and at most two calls, each call with the credentials and a token.\<close>

definition authed_log :: "LiveRailClient \<Rightarrow> string \<Rightarrow> string \<Rightarrow> string option \<Rightarrow> rail_request list \<Rightarrow> bool" where
  "authed_log c verb path payload log \<longleftrightarrow>
     length (filter (\<lambda>rq. rq = login_request c) log) \<le> 2 \<and> length (filter (\<lambda>rq. rq \<noteq> login_request c) log) \<le> 2 \<and>
     (\<forall>rq\<in>set log. rq \<noteq> login_request c \<longrightarrow> (\<exists>tok body. payload = Some body \<and> tok \<noteq> '''' \<and> rq = upload_call c verb path body tok))"

lemma upload_not_login [simp]: "upload_call c verb path body tok \<noteq> login_request d"
  by (simp add: upload_call_def login_request_def)

lemma upload_after [simp]: "after log c c1 \<Longrightarrow> upload_call c1 = upload_call c"
  by (rule ext)+ (simp add: upload_call_def after_def)

lemma bearer_same [simp]: "with_bearer tok (upload_call c verb path body tok) = upload_call c verb path body tok"
  by (simp add: upload_call_def)

text \<open>After a 401: a login, and one more call unless the login fails.\<close>

lemma retry_after:
  assumes "(case refreshToken r (invalidateToken c) of
      (c3, Inl e) \<Rightarrow> (c3, Inl (RefreshFailed e))
    | (c3, Inr tok) \<Rightarrow>
        (case newRequest r verb path (Some body) c3 of
           (c4, Inl e) \<Rightarrow> (c4, Inl e)
         | (c4, Inr rq2) \<Rightarrow> rail_do r decode (with_bearer tok rq2) c4)) = (c1, x)"
  shows "\<exists>l l'. after (l @ l') c c1 \<and> l \<in> {[], [login_request c]} \<and>
    (l' = [] \<and> (\<forall>y. x \<noteq> Inr y) \<or> l' = [upload_call c verb path body (lrToken c1)] \<and> lrToken c1 \<noteq> '''' \<and> (\<forall>y. x = Inr y \<longrightarrow> accepted_as r decode c1 y))"
proof -
  obtain d3 x3 where rf: "refreshToken r (invalidateToken c) = (d3, x3)" by fastforce
  have inval: "after [] c (invalidateToken c)" by (simp add: after_def invalidateToken_def)
  obtain l where l: "after l c d3" "l \<in> {[], [login_request c]}" "\<And>tok. x3 = Inr tok \<Longrightarrow> tok = lrToken d3 \<and> tok \<noteq> ''''"
    using refresh_after [OF rf] inval after_trans [OF inval] by (auto split: if_splits)
  show ?thesis
  proof (cases x3)
    case (Inl e)
    then have "c1 = d3 \<and> x = Inl (RefreshFailed e)" using assms rf by simp
    then show ?thesis using l(1,2) by - (rule exI [of _ l], rule exI [of _ "[]"], simp)
  next
    case tok: (Inr tok)
    obtain d4 x4 where n4: "newRequest r verb path (Some body) d3 = (d4, x4)" by fastforce
    have f4: "after [] d3 d4" "\<And>rq. x4 = Inr rq \<Longrightarrow> rq = upload_call c verb path body (lrToken d4) \<and> lrToken d4 \<noteq> ''''"
      using request_after [OF n4] l(3) [OF tok] l(1) by auto
    have same: "lrToken d4 = tok" using n4 l(3) [OF tok] by (auto simp: newRequest_def access_refresh refreshToken_def Let_def split: if_splits)
    have a4: "after l c d4" using after_trans [OF l(1) f4(1)] by simp
    show ?thesis
    proof (cases x4)
      case (Inl e)
      then have "c1 = d4 \<and> x = Inl e" using assms rf tok n4 by simp
      then show ?thesis using a4 l(2) by - (rule exI [of _ l], rule exI [of _ "[]"], simp)
    next
      case (Inr rq2)
      then have "with_bearer tok rq2 = upload_call c verb path body tok" using f4(2) same by auto
      then have "rail_do r decode (upload_call c verb path body tok) d4 = (c1, x)" using assms rf tok n4 Inr by simp
      note g4 = do_after [OF this]
      have "after (l @ [upload_call c verb path body tok]) c c1" using after_trans [OF a4] g4 by blast
      then show ?thesis using g4 l(2) same l(3) [OF tok] by - (rule exI [of _ l], rule exI [of _ "[upload_call c verb path body tok]"], auto)
    qed
  qed
qed

lemma authed_after:
  assumes "doAuthed r decode verb path payload c = (c1, x)"
  shows "\<exists>log. after log c c1 \<and> authed_log c verb path payload log \<and>
    (\<forall>y. x = Inr y \<longrightarrow> accepted_as r decode c1 y \<and> lrToken c1 \<noteq> '''' \<and> (\<exists>pre body. payload = Some body \<and> log = pre @ [upload_call c verb path body (lrToken c1)]))"
proof -
  obtain d1 x1 where n1: "newRequest r verb path payload c = (d1, x1)" by fastforce
  obtain l1 where f1: "after l1 c d1" "l1 \<in> {[], [login_request c]}"
    "\<And>rq. x1 = Inr rq \<Longrightarrow> \<exists>body. payload = Some body \<and> rq = upload_call c verb path body (lrToken d1) \<and> lrToken d1 \<noteq> ''''"
    using request_after [OF n1] by (auto split: if_splits)
  show ?thesis
  proof (cases x1)
    case (Inl e)
    then have "c1 = d1 \<and> x = Inl e" using assms n1 by (simp add: doAuthed_def)
    then show ?thesis using f1(1,2) by (intro exI [of _ l1]) (auto simp: authed_log_def)
  next
    case (Inr rq)
    then obtain body where b: "payload = Some body" "rq = upload_call c verb path body (lrToken d1)" "lrToken d1 \<noteq> ''''" using f1(3) by blast
    obtain d2 x2 where do1: "rail_do r decode rq d1 = (d2, x2)" by fastforce
    note g1 = do_after [OF do1]
    have a2: "after (l1 @ [rq]) c d2" using after_trans [OF f1(1)] g1 by blast
    show ?thesis
    proof (cases "x2 = Inl Unauthorized")
      case False
      then have "c1 = d2 \<and> x = x2" using assms n1 Inr do1 by (auto simp: doAuthed_def split: sum.splits rail_error.splits)
      then show ?thesis using a2 g1 b f1(2) by (intro exI [of _ "l1 @ [rq]"]) (auto simp: authed_log_def)
    next
      case True
      obtain l l' where r: "after (l @ l') d2 c1" "l \<in> {[], [login_request c]}" "l' = [] \<and> (\<forall>y. x \<noteq> Inr y) \<or>
          l' = [upload_call c verb path body (lrToken c1)] \<and> lrToken c1 \<noteq> '''' \<and> (\<forall>y. x = Inr y \<longrightarrow> accepted_as r decode c1 y)"
        using retry_after [where c = d2 and r = r and decode = decode and verb = verb and path = path and body = body and ?c1.0 = c1 and x = x]
          assms n1 Inr do1 True a2 b(1) by (auto simp: doAuthed_def)
      have "after (l1 @ rq # l @ l') c c1" using after_trans [OF a2 r(1)] by simp
      moreover have "authed_log c verb path payload (l1 @ rq # l @ l')" using f1(2) r(2,3) b by (auto simp: authed_log_def)
      ultimately show ?thesis using r(3) b(1) by (intro exI [of _ "l1 @ rq # l @ l'"]) auto
    qed
  qed
qed

section \<open>Clearance\<close>

text \<open>C20. The client of the live rail fails closed. Whatever the rail answers, a pre-clearance sends at most two logins and two uploads, every upload with the configured
  credentials, a token and the payload of the invoice; and it returns a result only when the last of them is such an upload, answered with a status of success and a
  body that says \<open>cleared\<close> or \<open>rejected\<close>, with nothing of it changed but a missing IRN.\<close>

theorem live_rail_fails_closed:
  assumes "LivePreclear r enc decode v xml c = (c1, x)"
  shows "\<exists>log. after log c c1 \<and> authed_log c ''POST'' (InvoiceUpload (lrEndpoints c)) (enc v xml) log \<and>
    (\<forall>res. x = Inr res \<longrightarrow> lrToken c1 \<noteq> '''' \<and> crStatus res \<in> {''cleared'', ''rejected''} \<and>
      (\<exists>pre body res0. enc v xml = Some body \<and> log = pre @ [upload_call c ''POST'' (InvoiceUpload (lrEndpoints c)) body (lrToken c1)] \<and>
         accepted_as r decode c1 res0 \<and> res = (if crIRN res0 = '''' then res0\<lparr>crIRN := IRN v\<rparr> else res0)))"
proof -
  obtain c2 y where d: "doAuthed r decode ''POST'' (InvoiceUpload (lrEndpoints c)) (enc v xml) c = (c2, y)" by fastforce
  have c: "c1 = c2" using assms d by (auto simp: LivePreclear_def split: sum.splits if_splits)
  have "\<exists>res0. y = Inr res0 \<and> crStatus res \<in> {''cleared'', ''rejected''} \<and> res = (if crIRN res0 = '''' then res0\<lparr>crIRN := IRN v\<rparr> else res0)" if "x = Inr res" for res
    using assms d that by (auto simp: LivePreclear_def split: sum.splits if_splits)
  then show ?thesis using authed_after [OF d] unfolding c by meson
qed

definition demo_config :: LiveRailConfig where
  "demo_config = \<lparr>lcBaseURL = ''https://rail'', lcAPIKey = ''k'', lcAPISecret = ''s'', lcEmail = ''e'', lcPassword = ''p'', lcServiceID = ''''\<rparr>"

definition demo_cleared :: ClearanceResult where
  "demo_cleared = \<lparr>crIRN = ''INV7-ABCD1234-20260115'', crStamp = None, crStatus = ''cleared'', crReason = '''', crClearedAt = ''now''\<rparr>"

text \<open>A rail whose first token has expired: the first upload is refused, the second login gives a new token.\<close>

definition demo_answers :: rail where
  "demo_answers =
     \<lparr>rlAnswer = (\<lambda>log. case last log of LoginPost _ _ _ \<Rightarrow> RailAnswer 200 (if length log = 1 then ''old'' else ''new'')
                     | RailCall _ _ _ _ b _ \<Rightarrow> if b = ''Bearer new'' then RailAnswer 201 ''ok'' else RailAnswer 401 ''''),
      rlURLOk = (\<lambda>_. True), rlToken = (\<lambda>b. Some b)\<rparr>"

definition demo_preclear :: "LiveRailClient \<times> (rail_error + ClearanceResult)" where
  "demo_preclear = LivePreclear demo_answers (\<lambda>_ _. Some ''doc'') (\<lambda>b. if b = ''ok'' then Some demo_cleared else None) demo_inv ''<x/>'' (NewLiveRailClient demo_config)"

lemma demo_clearance: "\<exists>c1. demo_preclear = (c1, Inr demo_cleared) \<and> lrToken c1 = ''new''"
  by (simp add: demo_preclear_def LivePreclear_def doAuthed_def newRequest_def accessToken_def refreshToken_def login_def rail_do_def rail_send_def invalidateToken_def
      NewLiveRailClient_def demo_answers_def demo_config_def demo_cleared_def NRSEndpointCatalog_def Let_def)

theorem live_rail_fails_closed_witness:
  "\<exists>pre. lrSent (fst demo_preclear) = pre @ [upload_call (NewLiveRailClient demo_config) ''POST'' ''/api/v1/invoice/upload'' ''doc'' ''new'']"
proof -
  obtain c1 where c1: "demo_preclear = (c1, Inr demo_cleared)" "lrToken c1 = ''new''" using demo_clearance by blast
  have n: "lrSent (NewLiveRailClient demo_config) = []" "InvoiceUpload (lrEndpoints (NewLiveRailClient demo_config)) = ''/api/v1/invoice/upload''"
    by (simp_all add: NewLiveRailClient_def NRSEndpointCatalog_def)
  from live_rail_fails_closed [OF c1(1) [unfolded demo_preclear_def]] show ?thesis by (auto simp: after_def n c1)
qed

text \<open>An expired token heals: when the cached token is refused, a login gives another one and the rail accepts it, the call succeeds and the new token is kept.\<close>

theorem expired_token_heals:
  assumes "lrToken c \<noteq> ''''" "tok \<noteq> ''''" "\<And>u. rlURLOk r u" "payload = Some body"
    and "rlAnswer r (lrSent c @ [upload_call c m p body (lrToken c)]) = RailAnswer 401 b1"
    and "rlAnswer r (lrSent c @ [upload_call c m p body (lrToken c), login_request c]) = RailAnswer 200 b2" "rlToken r b2 = Some tok"
    and "rlAnswer r (lrSent c @ [upload_call c m p body (lrToken c), login_request c, upload_call c m p body tok]) = RailAnswer 200 b3" "decode b3 = Some y"
  shows "doAuthed r decode m p payload c =
    (c\<lparr>lrToken := tok, lrSent := lrSent c @ [upload_call c m p body (lrToken c), login_request c, upload_call c m p body tok]\<rparr>, Inr y)"
  using assms by (simp add: doAuthed_def newRequest_def accessToken_def refreshToken_def login_def rail_do_def rail_send_def invalidateToken_def login_request_def upload_call_def Let_def)

text \<open>The configuration is the one of the live variables, complete and over https, or it is refused.\<close>

theorem live_config_complete:
  "case LiveRailConfigFromEnv env of
     Inl (MissingVars ms) \<Rightarrow> ms \<noteq> [] \<and> set ms = {k \<in> {''MBS_LIVE_API_KEY'', ''MBS_LIVE_API_SECRET'', ''MBS_LIVE_EMAIL'', ''MBS_LIVE_PASSWORD''}. env k = ''''} \<union>
       (if trim_slashes (env ''MBS_LIVE_BASE_URL'') = '''' then {''MBS_LIVE_BASE_URL''} else {})
   | Inl (PlainURL u) \<Rightarrow> \<not> HasPrefix (ToLower u) ''https://''
   | Inr cfg \<Rightarrow> lcAPIKey cfg = env ''MBS_LIVE_API_KEY'' \<and> lcAPIKey cfg \<noteq> '''' \<and> lcAPISecret cfg = env ''MBS_LIVE_API_SECRET'' \<and> lcAPISecret cfg \<noteq> '''' \<and>
       lcEmail cfg = env ''MBS_LIVE_EMAIL'' \<and> lcEmail cfg \<noteq> '''' \<and> lcPassword cfg = env ''MBS_LIVE_PASSWORD'' \<and> lcPassword cfg \<noteq> '''' \<and>
       HasPrefix (ToLower (lcBaseURL cfg)) ''https://''"
  by (auto simp: LiveRailConfigFromEnv_def Let_def)

section \<open>Where the client falls short\<close>

text \<open>Two calls that both got a 401 with the same expired token log in twice: the second one drops the token that the first one has just fetched. The comment on the login
  lock says that such a storm runs exactly one login.\<close>

theorem storm_logs_in_again:
  assumes "\<And>u. rlURLOk r u" "\<And>log. rlAnswer r (log @ [login_request c]) = RailAnswer 200 b" "rlToken r b = Some tok" "tok \<noteq> ''''"
  shows "lrSent (fst (refreshToken r (invalidateToken (fst (refreshToken r (invalidateToken c)))))) = lrSent c @ [login_request c, login_request c]"
proof -
  have "rlAnswer r (lrSent c @ [login_request c]) = RailAnswer 200 b" "rlAnswer r (lrSent c @ [login_request c, login_request c]) = RailAnswer 200 b"
    using assms(2) [of "lrSent c"] assms(2) [of "lrSent c @ [login_request c]"] by simp_all
  then show ?thesis using assms(1,3,4) by (simp add: refreshToken_def login_def rail_send_def invalidateToken_def login_request_def Let_def)
qed

end
