(* ===== verification/Spec2Isabelle.thy ===== *)
theory Spec2Isabelle
  imports Pos_Properties Einv_Properties Einv_Data_Properties Case_Properties Vasp_Properties Authx_Properties Einv_Validate_Properties Envelope_Properties Qr_Properties Einv_Rail_Properties
begin

text \<open>
  \<^bold>\<open>Verification of the Meridian compliance suite\<close>

  The suite is a set of Go services for Nigerian tax compliance. Four of them carry its own logic
  and are modelled here. Each keeps its state in memory behind a lock, writes it to an append log
  and rebuilds it from the log at start; each is reached through HTTP handlers.

  \<^item> \<^verbatim>\<open>services/pos-vat\<close>: receipts of points of sale are ingested (or spooled while offline), VAT is
    computed from rule packs and attributed to federal, state and local pools, and a settlement
    saga books the pools of a period in a two-phase ledger.
  \<^item> \<^verbatim>\<open>services/einvoicing\<close>: invoices are normalised, get an invoice reference number, are signed,
    transmitted and confirmed by an eight-step workflow; a second rail pre-clears them; API keys,
    webhooks and a VAT dashboard belong to it.
  \<^item> \<^verbatim>\<open>services/case-mgmt\<close>: matters, privileged documents and deadlines, with a relation checker
    (file-backed or Permify) and a scan that escalates deadlines.
  \<^item> \<^verbatim>\<open>services/vasp-carf\<close>: trades and transfers of crypto assets, FIFO and average cost basis, gain
    and loss ledger, ring fence, CARF messages and the gates that guard their transmission.

  They share packages that are modelled too: authentication (\<^verbatim>\<open>packages/authx\<close>, \<^verbatim>\<open>shared/devjwt\<close>), the
  rule-pack evaluator (\<^verbatim>\<open>shared/rulepack\<close>) and events with their durable outbox (\<^verbatim>\<open>shared/envelope\<close>).

  \<^bold>\<open>Conventions.\<close> A struct is a \<open>record\<close>, a Go map a partial map (a total function where the code relies on
  the zero value of a missing key), a call that returns an error a sum with \<open>Inl\<close> the error. State is
  passed explicitly. A 64-bit integer is an \<open>int\<close> and every operation of the source that may wrap is
  written with \<open>add64\<close>, \<open>sub64\<close>, \<open>mul64\<close>, \<open>neg64\<close>, \<open>quot64\<close>. Clock readings, entropy, digests and MACs, the
  order in which Go visits a map, answers of remote services and the outcome of every file and
  database operation are arguments, so the theorems hold for every one of them unless a hypothesis
  says otherwise. A request is one step: the handlers run under locks, and interleavings of a
  request with others inside one handler are not modelled, except for the in-flight guard of the
  invoice workflow (\<open>guard_step\<close>), which is a step relation.

  \<^bold>\<open>Theories.\<close>

  \<^item> \<open>Go_Prelude\<close>: 64-bit integers, the used part of package \<^verbatim>\<open>strings\<close>, decimal printing, totals over
    maps, answers of handlers. \<open>Go_Yaml\<close>: decoded YAML values, logical lines and plain scalars.
    \<open>Go_Float\<close>: the values of \<^verbatim>\<open>float64\<close> that the evaluator compares, with their order and rounding.
  \<^item> \<open>Pos_Store\<close> (\<^verbatim>\<open>store.go\<close>), \<open>Rule_Citations\<close> (\<^verbatim>\<open>packages/shared/rulepack/citation.go\<close>), \<open>Pos_Packs\<close>
    (\<^verbatim>\<open>packs.go\<close>, \<^verbatim>\<open>citations.go\<close>), \<open>Pos_Ledger\<close> (\<^verbatim>\<open>ledger.go\<close>), \<open>Pos_Receipts\<close> and \<open>Pos_Settlement\<close>
    (\<^verbatim>\<open>handlers.go\<close>), \<open>Pos_Properties\<close>. The ledger client is an interface (a locale), interpreted on the
    in-memory ledger; the settlement theorems hold for every client that keeps its laws.
  \<^item> \<open>Einv_Irn\<close> (\<^verbatim>\<open>nrs_irn.go\<close>), \<open>Einv_Model\<close> (\<^verbatim>\<open>model.go\<close>), \<open>Einv_Store\<close> (\<^verbatim>\<open>store.go\<close>), \<open>Einv_Lifecycle\<close>
    (\<^verbatim>\<open>workflow.go\<close>, \<^verbatim>\<open>nrs_lifecycle.go\<close>, \<^verbatim>\<open>nrs_resume.go\<close>, \<^verbatim>\<open>sign.go\<close>), \<open>Einv_Preclear\<close> (\<^verbatim>\<open>mbs.go\<close>, \<^verbatim>\<open>router.go\<close>),
    \<open>Einv_Rail\<close> and \<open>Einv_Rail_Properties\<close> (\<^verbatim>\<open>nrs_rail.go\<close>),
    \<open>Einv_ApiKeys\<close>, \<open>Einv_Webhooks\<close>, \<open>Einv_Handlers\<close>; \<open>Einv_Guarantees\<close> (what a lifecycle and a submission
    keep), \<open>Einv_Liveness\<close> (that they succeed), \<open>Einv_Demo\<close> (a concrete service for the witnesses),
    \<open>Einv_Properties\<close>, \<open>Einv_Data_Properties\<close>.
  \<^item> \<open>Authx\<close> (\<^verbatim>\<open>authx.go\<close>, \<^verbatim>\<open>devjwt.go\<close>, \<^verbatim>\<open>keycloak.go\<close>) and \<open>Authx_Properties\<close>. \<open>Rulepack\<close> (\<^verbatim>\<open>rulepack.go\<close>),
    \<open>Einv_Validate\<close> (\<^verbatim>\<open>validate.go\<close> with the two embedded packs it evaluates), \<open>Einv_Validate_Properties\<close>.
    \<open>Envelope\<close> (\<^verbatim>\<open>envelope.go\<close>; a bus is a locale, interpreted on the in-process bus), \<open>Envelope_Properties\<close>.
  \<^item> \<open>Gf256\<close>, \<open>Reed_Solomon\<close>, \<open>Qr_Code\<close> (the encoder of \<^verbatim>\<open>qr.go\<close> and a reference reader), \<open>Qr_Data\<close> and \<open>Qr_Symbol\<close>
    (what is encoded and drawn is read back), \<open>Einv_Qr\<close> (signed payload and its handler), \<open>Qr_Properties\<close>. The
    definitions give the golden matrix of \<^verbatim>\<open>qr_test.go\<close> bit for bit.
  \<^item> \<open>Case_Store\<close> (\<^verbatim>\<open>store.go\<close>), \<open>Case_Handlers\<close> (\<^verbatim>\<open>handlers.go\<close>, \<^verbatim>\<open>permify.go\<close>, \<^verbatim>\<open>main.go\<close>), \<open>Case_Watch\<close>
    (\<^verbatim>\<open>workflows.go\<close>, \<^verbatim>\<open>integrations.go\<close>); \<open>Case_Guarantees\<close> (requests as \<open>case_op\<close>, the invariant
    \<open>docs_ok\<close>, who reads privileged documents, the write-once evidence store as a locale),
    \<open>Case_Durability\<close> (restart and the deadline scan), \<open>Case_Properties\<close>.
  \<^item> \<open>Yaml_Parsers\<close> (\<^verbatim>\<open>vasp-carf/yaml.go\<close> and \<^verbatim>\<open>pos-vat/packs.go\<close>): both parsers from the text of a
    document. \<open>Vasp_Engine\<close> (\<^verbatim>\<open>engine.go\<close>), \<open>Vasp_Carf\<close> (\<^verbatim>\<open>packs.go\<close>, \<^verbatim>\<open>gates.go\<close>, \<^verbatim>\<open>carf.go\<close>, \<^verbatim>\<open>main.go\<close>);
    \<open>Vasp_Basis\<close> (relief against the list of units), \<open>Vasp_Ledger\<close> (reachable engines, replay, ring
    fence), \<open>Vasp_Guarantees\<close> (what may be transmitted, by the locale \<open>message_property\<close> and its three
    readings; what a message reports), \<open>Vasp_Durability\<close>, \<open>Vasp_Properties\<close>.

  \<^bold>\<open>What the theorems show.\<close>

  \<^item> POS VAT: a settlement repeated after its success changes nothing, and a settlement that
    succeeds has posted every leg on a ledger whose reachable states are sound; the pools receive
    exactly the VAT of the receipts; a receipt is ingested at most once and survives a restart up to
    the window of the group commit; the statutory split is exact.
  \<^item> E-invoicing: a repeated submission is answered with the same record; a lifecycle that confirms
    carries the IRN and digest of its invoice, keeps the locked core, and confirms when the
    surroundings are healthy; tenants are separated; keys and invoices survive a restart; building
    and parsing IRNs are inverse; the VAT summary is the sum it stands for; the client of the live rail
    fails closed.
  \<^item> Case management: a privileged document is shown only to its uploader, counsel of the matter and
    admins; state survives a restart; overdue deadlines are escalated.
  \<^item> VASP: FIFO relief takes exactly the oldest units and ends; the ring fence is exact; a
    message reports every transaction once; nothing is transmitted through a gate that nobody
    opened; books and messages survive a restart; the YAML parser returns on every document.
  \<^item> Shared packages: in Keycloak mode a principal comes from a genuine token; development tokens
    round trip; a decision takes each field from the matching rule of highest precedence in any
    order of visits; validation reports exactly the violations of a list of conditions; every
    accepted event is delivered at least once; identifiers sort by time and do not repeat.
  \<^item> QR codes: a symbol scans back to its payload, stays unambiguous under damage of up to half of the
    check bytes of each block, and is served with the one signature that verifies.
  \<^item> Some theorems record behaviour that contradicts the intention of the code: late receipts marked
    as settled without a booking, a refused float posting that breaks the ledger, a duplicate
    invoice that takes over an IRN, a refused update that stays visible, a holding sold twice, and
    the YAML parser of the POS service that runs forever.

  \<^bold>\<open>Bounds.\<close> Loops over lists are structural recursion. \<open>relieve\<close> and the scalar parsers are total by a
  termination proof. The retry loops of the workflows carry the retry count of the source. The block
  parsers take a bound on the depth of calls: \<open>depth_for doc = 2 * n + 2\<close> is enough for \<open>n\<close> lines, and a
  larger bound does not change the result; the parser of the POS service has documents for which no
  bound is enough.

  \<^bold>\<open>Not modelled.\<close> HTTP routing and JSON decoding (requests arrive decoded), the clients of remote
  services, the geo lookup, the conversion to the NRS schema, ERP adapters and UBL documents, the
  POS workflow runner, key providers, telemetry, database migrations, and the texts of the embedded
  packs other than the two that validation uses.
\<close>

end
